(* ===== verification/Vnt_Prelude.thy ===== *)
theory Vnt_Prelude
  imports "HOL-Library.Word"
begin

text \<open>
  Shared ground of the development: the error values of the Rust code, sequencing of
  fallible steps, byte buffers with Rust's bounds checks, big-endian integers, IPv4
  addresses, and two small interfaces (byte codes of protocol enums, fields of a
  byte buffer) that many components provide.

  Arithmetic follows the release profile of \<^verbatim>\<open>rust/vnt-fork/Cargo.toml\<close>
  (\<^verbatim>\<open>debug-assertions = false\<close>): fixed-width integers wrap. An index or
  slice out of range panics in every profile and is the error value \<open>Panic\<close>.
\<close>

unbundle bit_operations_syntax

named_theorems buf_simps \<open>evaluation of bounds-checked buffer access\<close>
named_theorems np_simps \<open>accessors and setters on well-formed packets\<close>

section \<open>Errors and sequencing\<close>

type_synonym u8 = "8 word"
type_synonym u16 = "16 word"
type_synonym u32 = "32 word"
type_synonym u64 = "64 word"
type_synonym i64 = int

datatype io_kind =
    InvalidData | InvalidInput | NotFound | WouldBlock | WriteZero | ConnectionRefused | OtherKind

text \<open>An \<open>io::Error\<close> with its kind and message, an \<open>anyhow!\<close> error, or a panic.\<close>

datatype err = Io io_kind string | Anyhow string | Panic

type_synonym 'a res = "err + 'a"

definition bindE :: "'e + 'a \<Rightarrow> ('a \<Rightarrow> 'e + 'b) \<Rightarrow> 'e + 'b" where
  "bindE m f = (case m of Inl e \<Rightarrow> Inl e | Inr x \<Rightarrow> f x)"

lemma bindE_simps [simp]:
  "bindE (Inl e) f = Inl e"
  "bindE (Inr x) f = f x"
  by (simp_all add: bindE_def)

lemma bindE_Inr_iff: "bindE m f = Inr y \<longleftrightarrow> (\<exists>x. m = Inr x \<and> f x = Inr y)"
  by (cases m) auto

lemma bindE_Inl_iff: "bindE m f = Inl e \<longleftrightarrow> m = Inl e \<or> (\<exists>x. m = Inr x \<and> f x = Inl e)"
  by (cases m) auto

lemma bindE_assoc [simp]: "bindE (bindE m f) g = bindE m (\<lambda>x. bindE (f x) g)"
  by (cases m) auto

definition mapE :: "('a \<Rightarrow> 'b) \<Rightarrow> 'e + 'a \<Rightarrow> 'e + 'b" where
  "mapE f m = bindE m (\<lambda>x. Inr (f x))"

lemma mapE_simps [simp]:
  "mapE f (Inl e) = Inl e"
  "mapE f (Inr x) = Inr (f x)"
  by (simp_all add: mapE_def)

definition is_Ok :: "'e + 'a \<Rightarrow> bool" where
  "is_Ok m = (case m of Inl _ \<Rightarrow> False | Inr _ \<Rightarrow> True)"

lemma is_Ok_simps [simp]: "\<not> is_Ok (Inl e)" "is_Ok (Inr x)"
  by (simp_all add: is_Ok_def)

lemma is_Ok_iff: "is_Ok m \<longleftrightarrow> (\<exists>x. m = Inr x)"
  by (cases m) auto

section \<open>Byte buffers with bounds checks\<close>

text \<open>\<open>buf[i]\<close>, \<open>buf[i] = v\<close>, \<open>buf[a..b]\<close> and \<open>buf[a..b].copy_from_slice(src)\<close>.\<close>

definition rd :: "'a list \<Rightarrow> nat \<Rightarrow> 'a res" where
  "rd buf i = (if i < length buf then Inr (buf ! i) else Inl Panic)"

definition wr :: "'a list \<Rightarrow> nat \<Rightarrow> 'a \<Rightarrow> 'a list res" where
  "wr buf i v = (if i < length buf then Inr (buf[i := v]) else Inl Panic)"

definition slice :: "'a list \<Rightarrow> nat \<Rightarrow> nat \<Rightarrow> 'a list res" where
  "slice buf a b =
     (if a \<le> b \<and> b \<le> length buf then Inr (take (b - a) (drop a buf)) else Inl Panic)"

definition splice :: "nat \<Rightarrow> 'a list \<Rightarrow> 'a list \<Rightarrow> 'a list" where
  "splice off src buf = take off buf @ src @ drop (off + length src) buf"

definition copy_range :: "'a list \<Rightarrow> nat \<Rightarrow> nat \<Rightarrow> 'a list \<Rightarrow> 'a list res" where
  "copy_range buf a b src =
     (if a \<le> b \<and> b \<le> length buf \<and> length src = b - a then Inr (splice a src buf)
      else Inl Panic)"

lemma rd_in [buf_simps]: "i < length buf \<Longrightarrow> rd buf i = Inr (buf ! i)"
  by (simp add: rd_def)

lemma rd_wr_first [buf_simps]:
  "Suc 0 \<le> length buf \<Longrightarrow> rd buf 0 = Inr (buf ! 0)"
  "Suc 0 \<le> length buf \<Longrightarrow> wr buf 0 v = Inr (buf[0 := v])"
  by (auto simp: rd_def wr_def)

lemma wr_in [buf_simps]: "i < length buf \<Longrightarrow> wr buf i v = Inr (buf[i := v])"
  by (simp add: wr_def)

lemma slice_in [buf_simps]:
  "a \<le> b \<Longrightarrow> b \<le> length buf \<Longrightarrow> slice buf a b = Inr (take (b - a) (drop a buf))"
  by (simp add: slice_def)

lemma copy_range_in [buf_simps]:
  "a \<le> b \<Longrightarrow> b \<le> length buf \<Longrightarrow> length src = b - a \<Longrightarrow> copy_range buf a b src = Inr (splice a src buf)"
  by (simp add: copy_range_def)

lemma length_splice [simp]: "off + length src \<le> length buf \<Longrightarrow> length (splice off src buf) = length buf"
  by (simp add: splice_def)

lemma nth_splice_in:
  "off + length src \<le> length buf \<Longrightarrow> off \<le> i \<Longrightarrow> i < off + length src \<Longrightarrow> splice off src buf ! i = src ! (i - off)"
  by (auto simp: splice_def nth_append)

lemma nth_splice_below [simp]: "i < off \<Longrightarrow> i < length buf \<Longrightarrow> splice off src buf ! i = buf ! i"
  by (auto simp: splice_def nth_append)

lemma nth_splice_first [simp]:
  "0 < off \<Longrightarrow> off + length src \<le> length buf \<Longrightarrow> splice off src buf ! 0 = buf ! 0"
  by (cases buf) (auto simp: splice_def nth_append)

lemma splice_eq_Nil_iff [simp]: "off + length src \<le> length buf \<Longrightarrow> splice off src buf = [] \<longleftrightarrow> buf = []"
  by (auto simp: splice_def)

lemma nth_splice_above:
  "off + length src \<le> i \<Longrightarrow> i < length buf \<Longrightarrow> splice off src buf ! i = buf ! i"
  by (auto simp: splice_def nth_append)

lemma take_drop_splice:
  "off + length src \<le> length buf \<Longrightarrow> n = length src \<Longrightarrow> take n (drop off (splice off src buf)) = src"
  by (simp add: splice_def)

lemma take_splice_below: "n \<le> off \<Longrightarrow> off \<le> length buf \<Longrightarrow> take n (splice off src buf) = take n buf"
  by (simp add: splice_def min_def)

lemma drop_splice_above:
  "off + length src \<le> n \<Longrightarrow> off + length src \<le> length buf \<Longrightarrow> drop n (splice off src buf) = drop n buf"
  by (simp add: splice_def min_def)

lemma slice_eq_nths4:
  "off + 4 \<le> length buf \<Longrightarrow>
   take 4 (drop off buf) = [buf ! off, buf ! (off + 1), buf ! (off + 2), buf ! (off + 3)]"
  by (rule nth_equalityI) (auto simp: less_Suc_eq numeral_eq_Suc)

lemma slice_eq_nths2:
  "off + 2 \<le> length buf \<Longrightarrow> take 2 (drop off buf) = [buf ! off, buf ! (off + 1)]"
  by (rule nth_equalityI) (auto simp: less_Suc_eq numeral_eq_Suc)

section \<open>Bits of a byte\<close>

lemma nat_less_8:
  "(n::nat) < 8 \<longleftrightarrow> n = 0 \<or> n = 1 \<or> n = 2 \<or> n = 3 \<or> n = 4 \<or> n = 5 \<or> n = 6 \<or> n = 7"
  by presburger

lemma u8_eq_bits:
  "(x::u8) = y \<longleftrightarrow>
     bit x 0 = bit y 0 \<and> bit x 1 = bit y 1 \<and> bit x 2 = bit y 2 \<and> bit x 3 = bit y 3 \<and>
     bit x 4 = bit y 4 \<and> bit x 5 = bit y 5 \<and> bit x 6 = bit y 6 \<and> bit x 7 = bit y 7"
  (is "_ \<longleftrightarrow> ?R")
proof
  assume ?R
  show "x = y"
  proof (rule bit_word_eqI)
    fix n assume "n < LENGTH(8)"
    then have "n < 8" by simp
    with \<open>?R\<close> show "bit x n = bit y n"
      unfolding nat_less_8 by (elim disjE) (simp_all only:)
  qed
qed (simp only:)

lemma bit_u8_high [simp]: "8 \<le> n \<Longrightarrow> \<not> bit (x::u8) n"
  using bit_imp_le_length[of x n] by auto

section \<open>Big-endian integers and addresses\<close>

definition be16 :: "u8 \<Rightarrow> u8 \<Rightarrow> u16" where
  "be16 a b = push_bit 8 (ucast a) OR ucast b"

definition be16_bytes :: "u16 \<Rightarrow> u8 list" where
  "be16_bytes w = [ucast (drop_bit 8 w), ucast w]"

definition be32 :: "u8 \<Rightarrow> u8 \<Rightarrow> u8 \<Rightarrow> u8 \<Rightarrow> u32" where
  "be32 a b c d = push_bit 24 (ucast a) OR push_bit 16 (ucast b) OR push_bit 8 (ucast c) OR ucast d"

definition be32_bytes :: "u32 \<Rightarrow> u8 list" where
  "be32_bytes w = [ucast (drop_bit 24 w), ucast (drop_bit 16 w), ucast (drop_bit 8 w), ucast w]"

lemma length_be_bytes [simp]: "length (be16_bytes w) = 2" "length (be32_bytes v) = 4"
  by (simp_all add: be16_bytes_def be32_bytes_def)

lemma be16_inverse [simp]: "be16 (ucast (drop_bit 8 w)) (ucast w) = w"
  unfolding be16_def
proof (rule bit_word_eqI)
  fix n assume "n < LENGTH(16)"
  then consider "n < 8" | "8 \<le> n" "n < 16" by fastforce
  then show "bit (push_bit 8 (ucast (ucast (drop_bit 8 w) :: u8)) OR ucast (ucast w :: u8) :: u16) n = bit w n"
    by cases (auto simp: bit_simps)
qed

lemma be16_bytes_be16 [simp]: "be16_bytes (be16 a b) = [a, b]"
  unfolding be16_def be16_bytes_def
  by (simp; intro conjI; rule bit_word_eqI; auto simp: bit_simps dest: bit_imp_le_length)

lemma be32_inverse [simp]:
  "be32 (ucast (drop_bit 24 w)) (ucast (drop_bit 16 w)) (ucast (drop_bit 8 w)) (ucast w) = w"
  unfolding be32_def
proof (rule bit_word_eqI)
  fix n assume "n < LENGTH(32)"
  then consider "n < 8" | "8 \<le> n" "n < 16" | "16 \<le> n" "n < 24" | "24 \<le> n" "n < 32" by fastforce
  then show "bit (push_bit 24 (ucast (ucast (drop_bit 24 w) :: u8)) OR
      push_bit 16 (ucast (ucast (drop_bit 16 w) :: u8)) OR
      push_bit 8 (ucast (ucast (drop_bit 8 w) :: u8)) OR ucast (ucast w :: u8) :: u32) n = bit w n"
    by cases (auto simp: bit_simps)
qed

lemma be32_bytes_be32 [simp]: "be32_bytes (be32 a b c d) = [a, b, c, d]"
  unfolding be32_def be32_bytes_def
  by (simp; intro conjI; rule bit_word_eqI; auto simp: bit_simps dest: bit_imp_le_length)

lemma be32_inj: "be32 a b c d = be32 a' b' c' d' \<longleftrightarrow> a = a' \<and> b = b' \<and> c = c' \<and> d = d'"
proof
  assume "be32 a b c d = be32 a' b' c' d'"
  then have "be32_bytes (be32 a b c d) = be32_bytes (be32 a' b' c' d')" by (rule arg_cong)
  then show "a = a' \<and> b = b' \<and> c = c' \<and> d = d'" by (simp only: be32_bytes_be32 list.inject)
qed (simp only:)

text \<open>\<open>u16::from_be_bytes(buf[i..i + 2])\<close> and friends.\<close>

definition rd16 :: "u8 list \<Rightarrow> nat \<Rightarrow> u16 res" where
  "rd16 buf i = bindE (slice buf i (i + 2)) (\<lambda>b. Inr (be16 (b ! 0) (b ! 1)))"

definition rd32 :: "u8 list \<Rightarrow> nat \<Rightarrow> u32 res" where
  "rd32 buf i = bindE (slice buf i (i + 4)) (\<lambda>b. Inr (be32 (b ! 0) (b ! 1) (b ! 2) (b ! 3)))"

definition wr16 :: "u8 list \<Rightarrow> nat \<Rightarrow> u16 \<Rightarrow> u8 list res" where
  "wr16 buf i v = copy_range buf i (i + 2) (be16_bytes v)"

lemma rd16_in [buf_simps]: "i + 2 \<le> length buf \<Longrightarrow> rd16 buf i = Inr (be16 (buf ! i) (buf ! (i + 1)))"
  by (simp add: rd16_def slice_in slice_eq_nths2)

lemma rd32_in [buf_simps]:
  "i + 4 \<le> length buf \<Longrightarrow>
   rd32 buf i = Inr (be32 (buf ! i) (buf ! (i + 1)) (buf ! (i + 2)) (buf ! (i + 3)))"
  by (simp add: rd32_def slice_in slice_eq_nths4 numeral_eq_Suc)

lemma wr16_in [buf_simps]: "i + 2 \<le> length buf \<Longrightarrow> wr16 buf i v = Inr (splice i (be16_bytes v) buf)"
  by (simp add: wr16_def copy_range_in)

lemma wr16_out: "\<not> i + 2 \<le> length buf \<Longrightarrow> wr16 buf i v = Inl Panic"
  by (simp add: wr16_def copy_range_def)

lemma rd16_splice [buf_simps]: "i + 2 \<le> length buf \<Longrightarrow> rd16 (splice i (be16_bytes v) buf) i = Inr v"
  by (simp add: rd16_in nth_splice_in) (simp add: be16_bytes_def)

lemma rd16_frame:
  "j + 2 \<le> i \<or> i + length src \<le> j \<Longrightarrow> i + length src \<le> length buf \<Longrightarrow>
   rd16 (splice i src buf) j = rd16 buf j"
  by (cases "j + 2 \<le> length buf")
    (auto simp: rd16_in nth_splice_above, auto simp: rd16_def slice_def)

text \<open>
  \<open>Ipv4Addr\<close> is its 32-bit big-endian value; \<open>octets\<close> are its four bytes, so
  \<open>u32::from_be_bytes(ip.octets())\<close> and \<open>u32::from(ip)\<close> are the value itself.
\<close>

type_synonym ipv4 = u32
type_synonym ipv6 = "128 word"

definition octets :: "ipv4 \<Rightarrow> u8 list" where
  "octets ip = be32_bytes ip"

definition Ipv4Addr_new :: "u8 \<Rightarrow> u8 \<Rightarrow> u8 \<Rightarrow> u8 \<Rightarrow> ipv4" where
  "Ipv4Addr_new a b c d = be32 a b c d"

definition Ipv4_UNSPECIFIED :: ipv4 where "Ipv4_UNSPECIFIED = 0"
definition Ipv4_BROADCAST :: ipv4 where "Ipv4_BROADCAST = 0xFFFFFFFF"

text \<open>The standard library's address classes used by the program.\<close>

definition is_broadcast :: "ipv4 \<Rightarrow> bool" where "is_broadcast ip = (ip = Ipv4_BROADCAST)"
definition is_unspecified :: "ipv4 \<Rightarrow> bool" where "is_unspecified ip = (ip = 0)"
definition is_loopback :: "ipv4 \<Rightarrow> bool" where "is_loopback ip = (drop_bit 24 ip = 127)"
definition is_multicast :: "ipv4 \<Rightarrow> bool" where "is_multicast ip = (drop_bit 28 ip = 14)"
definition is_private :: "ipv4 \<Rightarrow> bool" where
  "is_private ip = (drop_bit 24 ip = 10 \<or> drop_bit 20 ip = 0xAC1 \<or> drop_bit 16 ip = 0xC0A8)"

lemma length_octets [simp]: "length (octets ip) = 4"
  by (simp add: octets_def)

lemma octets_Ipv4Addr_new [simp]: "octets (Ipv4Addr_new a b c d) = [a, b, c, d]"
  by (simp add: octets_def Ipv4Addr_new_def)

lemma Ipv4Addr_new_octets [simp]:
  "Ipv4Addr_new (octets ip ! 0) (octets ip ! Suc 0) (octets ip ! 2) (octets ip ! 3) = ip"
  by (simp add: octets_def Ipv4Addr_new_def be32_bytes_def)

datatype socket_addr =
    SockV4 (sa_ip4: ipv4) (sa_port: u16)
  | SockV6 (sa_ip6: ipv6) (sa_port: u16) (sa_flowinfo: u32) (sa_scope: u32)

definition sa_is_ipv4 :: "socket_addr \<Rightarrow> bool" where
  "sa_is_ipv4 a = (case a of SockV4 _ _ \<Rightarrow> True | SockV6 _ _ _ _ \<Rightarrow> False)"

section \<open>Interface: byte codes of an enum\<close>

text \<open>
  Every protocol enum converts from a byte or a 16-bit word (\<open>From<u8>\<close>, total: unknown values are
  kept) and back (\<open>Into<u8>\<close>). The contract is that decoding loses nothing.
\<close>

locale wire_code =
  fixes of_code :: "'c \<Rightarrow> 'p" and to_code :: "'p \<Rightarrow> 'c"
  assumes to_of: "to_code (of_code b) = b"
begin

lemma of_code_eq_iff: "of_code a = of_code b \<longleftrightarrow> a = b"
  by (metis to_of)

lemma of_to_canonical: "p \<in> range of_code \<Longrightarrow> of_code (to_code p) = p"
  by (auto simp: to_of)

lemma to_code_eq_iff: "p \<in> range of_code \<Longrightarrow> q \<in> range of_code \<Longrightarrow> to_code p = to_code q \<longleftrightarrow> p = q"
  by (auto simp: to_of)

end

text \<open>The decoders are chains of comparisons; one step of the proof that encoding inverts them.\<close>

lemma wire_code_step: "f x = a \<Longrightarrow> f y = v \<Longrightarrow> f (if v = a then x else y) = v"
  by simp

section \<open>Interface: a field of a state\<close>

text \<open>
  A setter/getter pair on a state with a well-formedness predicate \<open>ok\<close>: on well-formed
  states both succeed, the setter keeps well-formedness and the getter reads back what was
  written, up to the field's width (\<open>norm\<close>).
\<close>

locale rw_field =
  fixes ok :: "'s \<Rightarrow> bool"
    and get :: "'s \<Rightarrow> 'v res" and put :: "'s \<Rightarrow> 'v \<Rightarrow> 's res" and norm :: "'v \<Rightarrow> 'v"
  assumes get_ok: "ok s \<Longrightarrow> \<exists>v. get s = Inr v \<and> norm v = v"
    and put_ok: "ok s \<Longrightarrow> \<exists>s'. put s v = Inr s' \<and> ok s' \<and> get s' = Inr (norm v)"
begin

lemma put_get: "ok s \<Longrightarrow> bindE (put s v) get = Inr (norm v)"
  using put_ok[of s v] by auto

lemma put_put_get: "ok s \<Longrightarrow> bindE (bindE (put s v) (\<lambda>s'. put s' w)) get = Inr (norm w)"
proof -
  assume "ok s"
  then obtain t where "put s v = Inr t" "ok t" using put_ok by blast
  then show ?thesis by (simp add: put_get)
qed

lemma norm_idem: "ok s \<Longrightarrow> norm (norm v) = norm v"
  using put_ok[of s v] get_ok by fastforce

end

text \<open>Two fields are independent when writing one leaves the other as it was.\<close>

locale rw_field_pair = A: rw_field ok getA putA normA + B: rw_field ok getB putB normB
  for ok :: "'s \<Rightarrow> bool"
    and getA :: "'s \<Rightarrow> 'a res" and putA :: "'s \<Rightarrow> 'a \<Rightarrow> 's res" and normA :: "'a \<Rightarrow> 'a"
    and getB :: "'s \<Rightarrow> 'b res" and putB :: "'s \<Rightarrow> 'b \<Rightarrow> 's res" and normB :: "'b \<Rightarrow> 'b" +
  assumes frameA: "ok s \<Longrightarrow> putA s a = Inr s' \<Longrightarrow> getB s' = getB s"
    and frameB: "ok s \<Longrightarrow> putB s b = Inr s' \<Longrightarrow> getA s' = getA s"
begin

lemma write_both:
  assumes "ok s"
  shows "\<exists>s'. bindE (putA s a) (\<lambda>t. putB t b) = Inr s' \<and> ok s' \<and> getA s' = Inr (normA a) \<and> getB s' = Inr (normB b)"
proof -
  obtain t where t: "putA s a = Inr t" "ok t" "getA t = Inr (normA a)"
    using A.put_ok[OF assms] by blast
  obtain u where u: "putB t b = Inr u" "ok u" "getB u = Inr (normB b)"
    using B.put_ok[OF t(2)] by blast
  with frameB[OF t(2) u(1)] t show ?thesis by simp
qed

end

end
