(* ===== verification/Net_Packet.thy ===== *)
theory Net_Packet
  imports Vnt_Prelude
begin

text \<open>
  The VNT packet header of \<^verbatim>\<open>vnt/src/protocol/mod.rs\<close>: a byte buffer with a data
  length, twelve header bytes (flags and version, protocol, transport protocol, the two
  4-bit ttl fields, source and destination) and a payload. \<open>np_abs\<close> reads a
  well-formed packet as a record of its fields; every accessor reads that record and every
  setter is an update of it (\<open>np_simps\<close>), which is what the rest of the development
  uses instead of bits.
\<close>

section \<open>Version and protocol codes\<close>

definition HEAD_LEN :: nat where "HEAD_LEN = 12"

datatype Version = Version_V2 | Version_Unknown u8

definition Version_of_u8 :: "u8 \<Rightarrow> Version" where
  "Version_of_u8 v = (if v = 2 then Version_V2 else Version_Unknown v)"

fun Version_to_u8 :: "Version \<Rightarrow> u8" where
  "Version_to_u8 Version_V2 = 2"
| "Version_to_u8 (Version_Unknown v) = v"

datatype Protocol =
    Protocol_Service | Protocol_Error | Protocol_Control | Protocol_IpTurn | Protocol_OtherTurn
  | Protocol_Unknown u8

definition Protocol_of_u8 :: "u8 \<Rightarrow> Protocol" where
  "Protocol_of_u8 v =
     (if v = 1 then Protocol_Service else if v = 2 then Protocol_Error
      else if v = 3 then Protocol_Control else if v = 4 then Protocol_IpTurn
      else if v = 5 then Protocol_OtherTurn else Protocol_Unknown v)"

fun Protocol_to_u8 :: "Protocol \<Rightarrow> u8" where
  "Protocol_to_u8 Protocol_Service = 1"
| "Protocol_to_u8 Protocol_Error = 2"
| "Protocol_to_u8 Protocol_Control = 3"
| "Protocol_to_u8 Protocol_IpTurn = 4"
| "Protocol_to_u8 Protocol_OtherTurn = 5"
| "Protocol_to_u8 (Protocol_Unknown v) = v"

interpretation version_code: wire_code Version_of_u8 Version_to_u8
  by unfold_locales (simp add: Version_of_u8_def)

interpretation protocol_code: wire_code Protocol_of_u8 Protocol_to_u8
  by unfold_locales (simp add: Protocol_of_u8_def)

section \<open>The packet\<close>

definition MAX_TTL :: u8 where "MAX_TTL = 0x0F"
definition MAX_SOURCE :: u8 where "MAX_SOURCE = 0xF0"

text \<open>The bytes an encrypted body may add (\<open>ENCRYPTION_RESERVED\<close> of \<open>body.rs\<close>).\<close>

definition ENCRYPTION_RESERVED :: nat where "ENCRYPTION_RESERVED = 16 + 32 + 12"

record net_packet =
  np_data_len :: nat
  np_buffer :: "u8 list"

definition NetPacket_unchecked :: "u8 list \<Rightarrow> net_packet" where
  "NetPacket_unchecked buffer = \<lparr>np_data_len = length buffer, np_buffer = buffer\<rparr>"

definition NetPacket_new0 :: "nat \<Rightarrow> u8 list \<Rightarrow> net_packet res" where
  "NetPacket_new0 data_len buffer =
     (if data_len > length buffer then Inl (Io InvalidData ''length overflow'')
      else if data_len < 12 then Inl (Io InvalidData ''data_len too short'')
      else Inr \<lparr>np_data_len = data_len, np_buffer = buffer\<rparr>)"

definition NetPacket_new :: "u8 list \<Rightarrow> net_packet res" where
  "NetPacket_new buffer = NetPacket_new0 (length buffer) buffer"

definition NetPacket_new_encrypt :: "u8 list \<Rightarrow> net_packet res" where
  "NetPacket_new_encrypt buffer =
     (if 12 + ENCRYPTION_RESERVED > length buffer then Inl (Io InvalidData ''length overflow'')
      else NetPacket_new0 (length buffer - ENCRYPTION_RESERVED) buffer)"

definition NetPacket_buffer :: "net_packet \<Rightarrow> u8 list res" where
  "NetPacket_buffer p = slice (np_buffer p) 0 (np_data_len p)"

definition NetPacket_reserve :: "net_packet \<Rightarrow> nat" where
  "NetPacket_reserve p = length (np_buffer p) - np_data_len p"

definition NetPacket_is_encrypt :: "net_packet \<Rightarrow> bool res" where
  "NetPacket_is_encrypt p = mapE (\<lambda>b. b AND 0x80 = 0x80) (rd (np_buffer p) 0)"

definition NetPacket_is_gateway :: "net_packet \<Rightarrow> bool res" where
  "NetPacket_is_gateway p = mapE (\<lambda>b. b AND 0x40 = 0x40) (rd (np_buffer p) 0)"

definition NetPacket_is_extension :: "net_packet \<Rightarrow> bool res" where
  "NetPacket_is_extension p = mapE (\<lambda>b. b AND 0x20 = 0x20) (rd (np_buffer p) 0)"

definition NetPacket_version :: "net_packet \<Rightarrow> Version res" where
  "NetPacket_version p = mapE (\<lambda>b. Version_of_u8 (b AND 0x0F)) (rd (np_buffer p) 0)"

definition NetPacket_protocol :: "net_packet \<Rightarrow> Protocol res" where
  "NetPacket_protocol p = mapE Protocol_of_u8 (rd (np_buffer p) 1)"

definition NetPacket_transport_protocol :: "net_packet \<Rightarrow> u8 res" where
  "NetPacket_transport_protocol p = rd (np_buffer p) 2"

definition NetPacket_ttl :: "net_packet \<Rightarrow> u8 res" where
  "NetPacket_ttl p = mapE (\<lambda>b. b AND MAX_TTL) (rd (np_buffer p) 3)"

definition NetPacket_source_ttl :: "net_packet \<Rightarrow> u8 res" where
  "NetPacket_source_ttl p = mapE (drop_bit 4) (rd (np_buffer p) 3)"

definition read_ipv4 :: "u8 list \<Rightarrow> nat \<Rightarrow> ipv4 res" where
  "read_ipv4 buf off =
     mapE (\<lambda>s. Ipv4Addr_new (s ! 0) (s ! 1) (s ! 2) (s ! 3)) (slice buf off (off + 4))"

definition NetPacket_source :: "net_packet \<Rightarrow> ipv4 res" where
  "NetPacket_source p = read_ipv4 (np_buffer p) 4"

definition NetPacket_destination :: "net_packet \<Rightarrow> ipv4 res" where
  "NetPacket_destination p = read_ipv4 (np_buffer p) 8"

definition NetPacket_payload :: "net_packet \<Rightarrow> u8 list res" where
  "NetPacket_payload p = slice (np_buffer p) 12 (np_data_len p)"

definition NetPacket_head :: "net_packet \<Rightarrow> u8 list res" where
  "NetPacket_head p = slice (np_buffer p) 0 12"

section \<open>Setters\<close>

definition np_put :: "net_packet \<Rightarrow> nat \<Rightarrow> u8 \<Rightarrow> net_packet res" where
  "np_put p i v = mapE (\<lambda>b. p\<lparr>np_buffer := b\<rparr>) (wr (np_buffer p) i v)"

definition NetPacket_set_encrypt_flag :: "net_packet \<Rightarrow> bool \<Rightarrow> net_packet res" where
  "NetPacket_set_encrypt_flag p is_encrypt =
     bindE (rd (np_buffer p) 0) (\<lambda>b. np_put p 0 (if is_encrypt then b OR 0x80 else b AND 0x7F))"

definition NetPacket_set_gateway_flag :: "net_packet \<Rightarrow> bool \<Rightarrow> net_packet res" where
  "NetPacket_set_gateway_flag p is_gateway =
     bindE (rd (np_buffer p) 0) (\<lambda>b. np_put p 0 (if is_gateway then b OR 0x40 else b AND 0xBF))"

definition NetPacket_set_extension_flag :: "net_packet \<Rightarrow> bool \<Rightarrow> net_packet res" where
  "NetPacket_set_extension_flag p is_extension =
     bindE (rd (np_buffer p) 0) (\<lambda>b. np_put p 0 (if is_extension then b OR 0x20 else b AND 0xDF))"

definition NetPacket_set_default_version :: "net_packet \<Rightarrow> net_packet res" where
  "NetPacket_set_default_version p =
     bindE (rd (np_buffer p) 0)
       (\<lambda>b. np_put p 0 ((b AND 0xF0) OR (0x0F AND Version_to_u8 Version_V2)))"

definition NetPacket_set_protocol :: "net_packet \<Rightarrow> Protocol \<Rightarrow> net_packet res" where
  "NetPacket_set_protocol p protocol = np_put p 1 (Protocol_to_u8 protocol)"

definition NetPacket_set_transport_protocol :: "net_packet \<Rightarrow> u8 \<Rightarrow> net_packet res" where
  "NetPacket_set_transport_protocol p t = np_put p 2 t"

definition NetPacket_first_set_ttl :: "net_packet \<Rightarrow> u8 \<Rightarrow> net_packet res" where
  "NetPacket_first_set_ttl p ttl = np_put p 3 (push_bit 4 ttl OR ttl)"

definition NetPacket_set_ttl :: "net_packet \<Rightarrow> u8 \<Rightarrow> net_packet res" where
  "NetPacket_set_ttl p ttl =
     bindE (rd (np_buffer p) 3) (\<lambda>b. np_put p 3 ((b AND MAX_SOURCE) OR (MAX_TTL AND ttl)))"

text \<open>\<open>self.ttl() - 1\<close> is a \<open>u8\<close> subtraction: it wraps at 0.\<close>

definition NetPacket_incr_ttl :: "net_packet \<Rightarrow> (u8 \<times> net_packet) res" where
  "NetPacket_incr_ttl p =
     bindE (NetPacket_ttl p) (\<lambda>t. let ttl = t - 1 in
       bindE (NetPacket_set_ttl p ttl) (\<lambda>p'. Inr (ttl, p')))"

definition NetPacket_set_source_ttl :: "net_packet \<Rightarrow> u8 \<Rightarrow> net_packet res" where
  "NetPacket_set_source_ttl p source_ttl =
     bindE (rd (np_buffer p) 3) (\<lambda>b. np_put p 3 (push_bit 4 source_ttl OR (MAX_TTL AND b)))"

definition NetPacket_set_source :: "net_packet \<Rightarrow> ipv4 \<Rightarrow> net_packet res" where
  "NetPacket_set_source p source =
     mapE (\<lambda>b. p\<lparr>np_buffer := b\<rparr>) (copy_range (np_buffer p) 4 8 (octets source))"

definition NetPacket_set_destination :: "net_packet \<Rightarrow> ipv4 \<Rightarrow> net_packet res" where
  "NetPacket_set_destination p destination =
     mapE (\<lambda>b. p\<lparr>np_buffer := b\<rparr>) (copy_range (np_buffer p) 8 12 (octets destination))"

text \<open>\<open>self.data_len - 12\<close> wraps below 12, and then differs from every payload length.\<close>

definition NetPacket_set_payload :: "net_packet \<Rightarrow> u8 list \<Rightarrow> net_packet res" where
  "NetPacket_set_payload p payload =
     (if np_data_len p < 12 \<or> np_data_len p - 12 \<noteq> length payload
      then Inl (Io InvalidData ''data_len - 12 != payload.len'')
      else mapE (\<lambda>b. p\<lparr>np_buffer := b\<rparr>) (copy_range (np_buffer p) 12 (np_data_len p) payload))"

definition NetPacket_set_data_len :: "net_packet \<Rightarrow> nat \<Rightarrow> net_packet res" where
  "NetPacket_set_data_len p data_len =
     (if data_len > length (np_buffer p) \<or> data_len < 12
      then Inl (Io InvalidData ''data_len invalid'')
      else Inr (p\<lparr>np_data_len := data_len\<rparr>))"

definition NetPacket_set_payload_len :: "net_packet \<Rightarrow> nat \<Rightarrow> net_packet res" where
  "NetPacket_set_payload_len p payload_len = NetPacket_set_data_len p (HEAD_LEN + payload_len)"

definition NetPacket_set_data_len_max :: "net_packet \<Rightarrow> net_packet" where
  "NetPacket_set_data_len_max p = p\<lparr>np_data_len := length (np_buffer p)\<rparr>"

definition NetPacket_set_head :: "net_packet \<Rightarrow> u8 list \<Rightarrow> net_packet res" where
  \<comment> \<open>\<open>head_mut().copy_from_slice(head)\<close>\<close>
  "NetPacket_set_head p head =
     mapE (\<lambda>b. p\<lparr>np_buffer := b\<rparr>) (copy_range (np_buffer p) 0 12 head)"

section \<open>Well-formed packets and their abstract fields\<close>

definition np_ok :: "net_packet \<Rightarrow> bool" where
  "np_ok p \<longleftrightarrow> 12 \<le> np_data_len p \<and> np_data_len p \<le> length (np_buffer p)"

record np_fields =
  f_encrypt :: bool
  f_gateway :: bool
  f_extension :: bool
  f_reserved :: bool
  f_version :: u8
  f_protocol :: u8
  f_transport :: u8
  f_source_ttl :: u8
  f_ttl :: u8
  f_source :: ipv4
  f_destination :: ipv4
  f_payload :: "u8 list"

definition np_abs :: "net_packet \<Rightarrow> np_fields" where
  "np_abs p = (let b = np_buffer p in
     \<lparr>f_encrypt = bit (b ! 0) 7, f_gateway = bit (b ! 0) 6, f_extension = bit (b ! 0) 5,
      f_reserved = bit (b ! 0) 4, f_version = b ! 0 AND 0x0F,
      f_protocol = b ! 1, f_transport = b ! 2,
      f_source_ttl = drop_bit 4 (b ! 3), f_ttl = b ! 3 AND 0x0F,
      f_source = Ipv4Addr_new (b ! 4) (b ! 5) (b ! 6) (b ! 7),
      f_destination = Ipv4Addr_new (b ! 8) (b ! 9) (b ! 10) (b ! 11),
      f_payload = take (np_data_len p - 12) (drop 12 b)\<rparr>)"


lemma flag_and_iff [simp]:
  "(b::u8) AND 0x80 = 0x80 \<longleftrightarrow> bit b 7"
  "(b::u8) AND 0x40 = 0x40 \<longleftrightarrow> bit b 6"
  "(b::u8) AND 0x20 = 0x20 \<longleftrightarrow> bit b 5"
  by (simp_all add: u8_eq_bits bit_simps)

lemma read_ipv4_in [buf_simps]:
  "off + 4 \<le> length buf \<Longrightarrow>
   read_ipv4 buf off = Inr (Ipv4Addr_new (buf ! off) (buf ! (off + 1)) (buf ! (off + 2)) (buf ! (off + 3)))"
  by (simp add: read_ipv4_def slice_in slice_eq_nths4)

lemma np_okD:
  "np_ok p \<Longrightarrow> np_buffer p \<noteq> [] \<and> 12 \<le> length (np_buffer p) \<and> 12 \<le> np_data_len p \<and>
     np_data_len p \<le> length (np_buffer p)"
  by (auto simp: np_ok_def)

lemma np_get [np_simps]:
  assumes "np_ok p"
  shows "NetPacket_is_encrypt p = Inr (f_encrypt (np_abs p))"
    and "NetPacket_is_gateway p = Inr (f_gateway (np_abs p))"
    and "NetPacket_is_extension p = Inr (f_extension (np_abs p))"
    and "NetPacket_version p = Inr (Version_of_u8 (f_version (np_abs p)))"
    and "NetPacket_protocol p = Inr (Protocol_of_u8 (f_protocol (np_abs p)))"
    and "NetPacket_transport_protocol p = Inr (f_transport (np_abs p))"
    and "NetPacket_ttl p = Inr (f_ttl (np_abs p))"
    and "NetPacket_source_ttl p = Inr (f_source_ttl (np_abs p))"
    and "NetPacket_source p = Inr (f_source (np_abs p))"
    and "NetPacket_destination p = Inr (f_destination (np_abs p))"
    and "NetPacket_payload p = Inr (f_payload (np_abs p))"
  using np_okD[OF assms]
  by (simp_all add: np_abs_def Let_def NetPacket_is_encrypt_def NetPacket_is_gateway_def
      NetPacket_is_extension_def NetPacket_version_def NetPacket_protocol_def
      NetPacket_transport_protocol_def NetPacket_ttl_def NetPacket_source_ttl_def
      NetPacket_source_def NetPacket_destination_def NetPacket_payload_def MAX_TTL_def buf_simps)

lemma np_get_head: "np_ok p \<Longrightarrow> NetPacket_head p = Inr (take 12 (np_buffer p))"
  by (simp add: NetPacket_head_def np_ok_def slice_in)

lemma np_get_buffer: "np_ok p \<Longrightarrow> NetPacket_buffer p = Inr (take (np_data_len p) (np_buffer p))"
  by (simp add: NetPacket_buffer_def np_ok_def slice_in)

lemma length_f_payload: "np_ok p \<Longrightarrow> length (f_payload (np_abs p)) = np_data_len p - 12"
  by (auto simp: np_ok_def np_abs_def Let_def)

lemma NetPacket_new0_ok: "NetPacket_new0 n b = Inr p \<Longrightarrow> np_ok p"
  by (auto simp: NetPacket_new0_def np_ok_def split: if_splits)

lemma NetPacket_new_Inr_iff:
  "NetPacket_new b = Inr p \<longleftrightarrow> 12 \<le> length b \<and> p = \<lparr>np_data_len = length b, np_buffer = b\<rparr>"
  by (auto simp: NetPacket_new_def NetPacket_new0_def)

section \<open>Setters update the abstract fields\<close>

text \<open>\<open>np_updates p m g\<close>: the step \<open>m\<close> on the well-formed \<open>p\<close> succeeds, keeps sizes and
  well-formedness, and changes the fields by \<open>g\<close>.\<close>

definition np_updates :: "net_packet \<Rightarrow> net_packet res \<Rightarrow> (np_fields \<Rightarrow> np_fields) \<Rightarrow> bool" where
  "np_updates p m g \<longleftrightarrow> (\<exists>p'. m = Inr p' \<and> np_ok p' \<and> np_abs p' = g (np_abs p) \<and>
     np_data_len p' = np_data_len p \<and> length (np_buffer p') = length (np_buffer p))"

lemma np_updatesE:
  assumes "np_updates p m g"
  obtains p' where "m = Inr p'" "np_ok p'" "np_abs p' = g (np_abs p)"
    "np_data_len p' = np_data_len p" "length (np_buffer p') = length (np_buffer p)"
  using assms by (auto simp: np_updates_def)

lemma np_updates_ex:
  "np_updates p m g \<Longrightarrow> (\<And>p'. np_ok p' \<Longrightarrow> np_abs p' = g (np_abs p) \<Longrightarrow> Q p') \<Longrightarrow>
   \<exists>p'. m = Inr p' \<and> np_ok p' \<and> Q p'"
  by (auto simp: np_updates_def)

lemma np_updates_det:
  "np_updates p m g \<Longrightarrow> m = Inr p' \<Longrightarrow>
     np_ok p' \<and> np_abs p' = g (np_abs p) \<and> np_data_len p' = np_data_len p \<and>
     length (np_buffer p') = length (np_buffer p)"
  by (auto simp: np_updates_def)

lemma np_updates_bind:
  assumes "np_updates p m g" and "\<And>p'. np_ok p' \<Longrightarrow> np_updates p' (k p') h"
  shows "np_updates p (bindE m k) (\<lambda>f. h (g f))"
proof -
  obtain p' where p': "m = Inr p'" "np_ok p'" "np_abs p' = g (np_abs p)"
    "np_data_len p' = np_data_len p" "length (np_buffer p') = length (np_buffer p)"
    using assms(1) by (rule np_updatesE)
  with assms(2)[OF p'(2)] show ?thesis by (auto simp: np_updates_def)
qed

lemma np_put_updates:
  assumes "np_ok p" and "i < 12" and "np_abs (p\<lparr>np_buffer := (np_buffer p)[i := v]\<rparr>) = g (np_abs p)"
  shows "np_updates p (np_put p i v) g"
  using assms by (auto simp: np_updates_def np_put_def np_ok_def wr_in)

lemma np_set [np_simps]:
  assumes "np_ok p"
  shows "np_updates p (NetPacket_set_encrypt_flag p e) (\<lambda>f. f\<lparr>f_encrypt := e\<rparr>)"
    and "np_updates p (NetPacket_set_gateway_flag p e) (\<lambda>f. f\<lparr>f_gateway := e\<rparr>)"
    and "np_updates p (NetPacket_set_extension_flag p e) (\<lambda>f. f\<lparr>f_extension := e\<rparr>)"
    and "np_updates p (NetPacket_set_default_version p) (\<lambda>f. f\<lparr>f_version := 2\<rparr>)"
    and "np_updates p (NetPacket_set_protocol p pr) (\<lambda>f. f\<lparr>f_protocol := Protocol_to_u8 pr\<rparr>)"
    and "np_updates p (NetPacket_set_transport_protocol p b) (\<lambda>f. f\<lparr>f_transport := b\<rparr>)"
    and "np_updates p (NetPacket_first_set_ttl p b)
           (\<lambda>f. f\<lparr>f_source_ttl := (b AND 0x0F) OR drop_bit 4 b, f_ttl := b AND 0x0F\<rparr>)"
    and "np_updates p (NetPacket_set_ttl p b) (\<lambda>f. f\<lparr>f_ttl := b AND 0x0F\<rparr>)"
    and "np_updates p (NetPacket_set_source_ttl p b) (\<lambda>f. f\<lparr>f_source_ttl := b AND 0x0F\<rparr>)"
proof -
  note defs = NetPacket_set_encrypt_flag_def NetPacket_set_gateway_flag_def
    NetPacket_set_extension_flag_def NetPacket_set_default_version_def NetPacket_set_protocol_def
    NetPacket_set_transport_protocol_def NetPacket_first_set_ttl_def NetPacket_set_ttl_def
    NetPacket_set_source_ttl_def MAX_TTL_def MAX_SOURCE_def
  show "np_updates p (NetPacket_set_encrypt_flag p e) (\<lambda>f. f\<lparr>f_encrypt := e\<rparr>)"
    and "np_updates p (NetPacket_set_gateway_flag p e) (\<lambda>f. f\<lparr>f_gateway := e\<rparr>)"
    and "np_updates p (NetPacket_set_extension_flag p e) (\<lambda>f. f\<lparr>f_extension := e\<rparr>)"
    and "np_updates p (NetPacket_set_default_version p) (\<lambda>f. f\<lparr>f_version := 2\<rparr>)"
    and "np_updates p (NetPacket_set_protocol p pr) (\<lambda>f. f\<lparr>f_protocol := Protocol_to_u8 pr\<rparr>)"
    and "np_updates p (NetPacket_set_transport_protocol p b) (\<lambda>f. f\<lparr>f_transport := b\<rparr>)"
    and "np_updates p (NetPacket_first_set_ttl p b)
           (\<lambda>f. f\<lparr>f_source_ttl := (b AND 0x0F) OR drop_bit 4 b, f_ttl := b AND 0x0F\<rparr>)"
    and "np_updates p (NetPacket_set_ttl p b) (\<lambda>f. f\<lparr>f_ttl := b AND 0x0F\<rparr>)"
    and "np_updates p (NetPacket_set_source_ttl p b) (\<lambda>f. f\<lparr>f_source_ttl := b AND 0x0F\<rparr>)"
    using np_okD[OF assms] assms
    by (auto simp: defs rd_in np_abs_def Let_def u8_eq_bits bit_simps intro!: np_put_updates)
qed

lemma octets_nths:
  "Ipv4Addr_new (splice i (octets ip) b ! i) (splice i (octets ip) b ! (i + 1))
     (splice i (octets ip) b ! (i + 2)) (splice i (octets ip) b ! (i + 3)) = ip"
  if "i + 4 \<le> length b"
  using that by (simp add: nth_splice_in)

lemma splice_header_updates:
  assumes "np_ok p" and "i + 4 \<le> 12"
    and "np_abs (p\<lparr>np_buffer := splice i (octets ip) (np_buffer p)\<rparr>) = g (np_abs p)"
  shows "np_updates p (mapE (\<lambda>b. p\<lparr>np_buffer := b\<rparr>) (copy_range (np_buffer p) i (i + 4) (octets ip))) g"
  using assms np_okD[OF assms(1)] by (simp add: np_updates_def copy_range_in np_ok_def)

lemma np_set_addr [np_simps]:
  assumes "np_ok p"
  shows "np_updates p (NetPacket_set_source p ip) (\<lambda>f. f\<lparr>f_source := ip\<rparr>)"
    and "np_updates p (NetPacket_set_destination p ip) (\<lambda>f. f\<lparr>f_destination := ip\<rparr>)"
proof -
  note l = np_okD[OF assms]
  have "np_abs (p\<lparr>np_buffer := splice 4 (octets ip) (np_buffer p)\<rparr>) = (np_abs p)\<lparr>f_source := ip\<rparr>"
    using l octets_nths[of 4 "np_buffer p" ip]
    by (simp add: np_abs_def Let_def nth_splice_above drop_splice_above)
  with splice_header_updates[OF assms, of 4] show "np_updates p (NetPacket_set_source p ip) (\<lambda>f. f\<lparr>f_source := ip\<rparr>)"
    by (simp add: NetPacket_set_source_def)
  have "np_abs (p\<lparr>np_buffer := splice 8 (octets ip) (np_buffer p)\<rparr>) = (np_abs p)\<lparr>f_destination := ip\<rparr>"
    using l octets_nths[of 8 "np_buffer p" ip]
    by (simp add: np_abs_def Let_def nth_splice_above drop_splice_above)
  with splice_header_updates[OF assms, of 8]
  show "np_updates p (NetPacket_set_destination p ip) (\<lambda>f. f\<lparr>f_destination := ip\<rparr>)"
    by (simp add: NetPacket_set_destination_def)
qed

lemma np_abs_buffer_head:
  "12 \<le> length b \<Longrightarrow> 12 \<le> length b' \<Longrightarrow> take 12 b = take 12 b' \<Longrightarrow>
   np_abs \<lparr>np_data_len = n, np_buffer = b\<rparr> =
   (np_abs \<lparr>np_data_len = n', np_buffer = b'\<rparr>)\<lparr>f_payload := take (n - 12) (drop 12 b)\<rparr>"
proof -
  assume l: "12 \<le> length b" "12 \<le> length b'" and e: "take 12 b = take 12 b'"
  have nth: "i < 12 \<Longrightarrow> b ! i = b' ! i" for i
    using arg_cong[OF e, of "\<lambda>l. l ! i"] by simp
  then show ?thesis by (simp add: np_abs_def Let_def)
qed

lemma NetPacket_set_payload_ok:
  assumes "np_ok p" and "length pl = np_data_len p - 12"
  shows "np_updates p (NetPacket_set_payload p pl) (\<lambda>f. f\<lparr>f_payload := pl\<rparr>)"
proof -
  note l = np_okD[OF assms(1)]
  have "np_abs (p\<lparr>np_buffer := splice 12 pl (np_buffer p)\<rparr>) = (np_abs p)\<lparr>f_payload := pl\<rparr>"
    using np_abs_buffer_head[of "splice 12 pl (np_buffer p)" "np_buffer p" "np_data_len p" "np_data_len p"] l assms(2)
    by (cases p) (simp add: take_splice_below take_drop_splice)
  with l assms show ?thesis
    by (simp add: NetPacket_set_payload_def np_updates_def copy_range_in np_ok_def not_less)
qed

lemma NetPacket_set_data_len_Inr_iff:
  "NetPacket_set_data_len p n = Inr p' \<longleftrightarrow>
     12 \<le> n \<and> n \<le> length (np_buffer p) \<and> p' = p\<lparr>np_data_len := n\<rparr>"
  by (auto simp: NetPacket_set_data_len_def)

lemma NetPacket_set_data_len_abs:
  assumes "np_ok p" "12 \<le> n" "n \<le> length (np_buffer p)"
  shows "np_ok (p\<lparr>np_data_len := n\<rparr>)"
    and "np_abs (p\<lparr>np_data_len := n\<rparr>) = (np_abs p)\<lparr>f_payload := take (n - 12) (drop 12 (np_buffer p))\<rparr>"
  using assms by (simp_all add: np_ok_def np_abs_def Let_def)

lemma f_ttl_and [simp]: "f_ttl (np_abs p) AND 0x0F = f_ttl (np_abs p)"
  by (simp add: np_abs_def Let_def)

lemma f_source_ttl_and [simp]: "f_source_ttl (np_abs p) AND 0x0F = f_source_ttl (np_abs p)"
  by (simp add: np_abs_def Let_def u8_eq_bits bit_simps)

lemma f_ttl_less: "f_ttl (np_abs p) < 16"
proof -
  have "unat (b AND 0x0F :: u8) < 16" for b
    using word_and_le1[of b 15] by (simp add: word_le_nat_alt)
  then show ?thesis by (simp add: np_abs_def Let_def word_less_nat_alt)
qed

section \<open>The fields as interface instances\<close>

interpretation np_protocol: rw_field np_ok NetPacket_protocol NetPacket_set_protocol
    "\<lambda>pr. Protocol_of_u8 (Protocol_to_u8 pr)"
  by unfold_locales
    (auto simp: np_get protocol_code.to_of intro!: np_updates_ex[OF np_set(5)])

interpretation np_addresses: rw_field_pair np_ok
    NetPacket_source NetPacket_set_source "\<lambda>ip. ip"
    NetPacket_destination NetPacket_set_destination "\<lambda>ip. ip"
  by unfold_locales
    (auto simp: np_get intro!: np_updates_ex[OF np_set_addr(1)] np_updates_ex[OF np_set_addr(2)]
      dest!: np_updates_det[OF np_set_addr(1), rotated] np_updates_det[OF np_set_addr(2), rotated])

interpretation np_ttls: rw_field_pair np_ok
    NetPacket_ttl NetPacket_set_ttl "\<lambda>t. t AND 0x0F"
    NetPacket_source_ttl NetPacket_set_source_ttl "\<lambda>t. t AND 0x0F"
  by unfold_locales
    (auto simp: np_get intro!: np_updates_ex[OF np_set(8)] np_updates_ex[OF np_set(9)]
      dest!: np_updates_det[OF np_set(8), rotated] np_updates_det[OF np_set(9), rotated])

end
