(* ===== verification/Packet_Claims.thy ===== *)
theory Packet_Claims
  imports Net_Packet
begin

text \<open>
  The properties of the VNT header: the bit-twiddling setters refine updates of the abstract
  record \<open>np_fields\<close>, and the time-to-live arithmetic.
\<close>

definition sample_packet :: net_packet where
  "sample_packet = \<lparr>np_data_len = 14, np_buffer = [0x42, 4, 1, 0x33, 10, 26, 0, 2, 10, 26, 0, 3, 7, 9, 0, 0]\<rparr>"

lemma sample_packet_ok: "np_ok sample_packet"
  by (simp add: np_ok_def sample_packet_def)

text \<open>
  C35. Every header setter, on a well-formed packet, succeeds, keeps well-formedness and the sizes, and
  changes exactly its own field of the abstract header: a refinement of the packed bytes
  (flags and version share byte 0, the two time-to-live values share byte 3) by an
  independent field per setter. Values wider than their field are truncated to it.
\<close>

theorem header_setters_refine:
  assumes "np_ok p"
  shows "np_updates p (NetPacket_set_encrypt_flag p e) (\<lambda>f. f\<lparr>f_encrypt := e\<rparr>) \<and>
    np_updates p (NetPacket_set_gateway_flag p e) (\<lambda>f. f\<lparr>f_gateway := e\<rparr>) \<and>
    np_updates p (NetPacket_set_extension_flag p e) (\<lambda>f. f\<lparr>f_extension := e\<rparr>) \<and>
    np_updates p (NetPacket_set_default_version p) (\<lambda>f. f\<lparr>f_version := 2\<rparr>) \<and>
    np_updates p (NetPacket_set_protocol p pr) (\<lambda>f. f\<lparr>f_protocol := Protocol_to_u8 pr\<rparr>) \<and>
    np_updates p (NetPacket_set_transport_protocol p b) (\<lambda>f. f\<lparr>f_transport := b\<rparr>) \<and>
    np_updates p (NetPacket_set_ttl p b) (\<lambda>f. f\<lparr>f_ttl := b AND 0x0F\<rparr>) \<and>
    np_updates p (NetPacket_set_source_ttl p b) (\<lambda>f. f\<lparr>f_source_ttl := b AND 0x0F\<rparr>) \<and>
    np_updates p (NetPacket_set_source p ip) (\<lambda>f. f\<lparr>f_source := ip\<rparr>) \<and>
    np_updates p (NetPacket_set_destination p ip) (\<lambda>f. f\<lparr>f_destination := ip\<rparr>) \<and>
    (length pl = np_data_len p - 12 \<longrightarrow>
       np_updates p (NetPacket_set_payload p pl) (\<lambda>f. f\<lparr>f_payload := pl\<rparr>))"
  using np_set[OF assms] np_set_addr[OF assms] NetPacket_set_payload_ok[OF assms]
  by blast

lemma header_setters_refine_witness:
  "\<exists>q. NetPacket_set_gateway_flag sample_packet True = Inr q \<and> NetPacket_is_gateway q = Inr True \<and>
     NetPacket_version q = NetPacket_version sample_packet"
proof -
  have "np_updates sample_packet (NetPacket_set_gateway_flag sample_packet True) (\<lambda>f. f\<lparr>f_gateway := True\<rparr>)"
    using header_setters_refine[OF sample_packet_ok] by blast
  then obtain q where q: "NetPacket_set_gateway_flag sample_packet True = Inr q" "np_ok q"
    "np_abs q = (np_abs sample_packet)\<lparr>f_gateway := True\<rparr>" by (rule np_updatesE)
  then show ?thesis using np_get[OF q(2)] np_get[OF sample_packet_ok] by simp
qed

text \<open>
  \<open>incr_ttl\<close> on a well-formed packet lowers the four-bit time to live by one and touches
  nothing else, as long as it is not 0. At 0 the \<open>u8\<close> subtraction wraps: the call returns 255 and
  stores 15, so a caller that tests the result against 0 lets the packet live again.
\<close>

theorem incr_ttl_steps:
  assumes "np_ok p"
  shows "\<exists>q. NetPacket_incr_ttl p = Inr (f_ttl (np_abs p) - 1, q) \<and> np_ok q \<and>
     np_abs q = (np_abs p)\<lparr>f_ttl := (f_ttl (np_abs p) - 1) AND 0x0F\<rparr> \<and>
     (f_ttl (np_abs p) \<noteq> 0 \<longrightarrow> unat (f_ttl (np_abs q)) = unat (f_ttl (np_abs p)) - 1) \<and>
     (f_ttl (np_abs p) = 0 \<longrightarrow> NetPacket_incr_ttl p = Inr (255, q) \<and> f_ttl (np_abs q) = 15)"
proof -
  let ?t = "f_ttl (np_abs p)"
  obtain q where q: "NetPacket_set_ttl p (?t - 1) = Inr q" "np_ok q"
    "np_abs q = (np_abs p)\<lparr>f_ttl := (?t - 1) AND 0x0F\<rparr>"
    using np_set(8)[OF assms, of "?t - 1"] by (rule np_updatesE)
  have i: "NetPacket_incr_ttl p = Inr (?t - 1, q)"
    using q(1) by (simp add: NetPacket_incr_ttl_def np_get[OF assms] Let_def)
  have "(?t - 1) AND 0x0F = ?t - 1" if "?t \<noteq> 0"
  proof -
    have "?t - 1 < ?t" using that by (simp add: word_less_nat_alt unat_minus_one unat_gt_0)
    then have "?t - 1 < 2 ^ 4" using f_ttl_less[of p] by (auto intro: less_trans)
    from less_mask_eq[OF this] show ?thesis by (simp add: mask_eq_exp_minus_1)
  qed
  then show ?thesis using q i by (auto simp: unat_minus_one)
qed

lemma incr_ttl_steps_witness:
  "\<exists>q. NetPacket_incr_ttl sample_packet = Inr (2, q) \<and> np_ok q"
proof -
  have "f_ttl (np_abs sample_packet) = 3" by (simp add: np_abs_def sample_packet_def)
  with incr_ttl_steps[OF sample_packet_ok] show ?thesis by auto
qed

text \<open>
  \<open>new\<close> accepts a buffer exactly when it holds the 12-byte header, and then all the getters, the
  header and payload views succeed and describe one abstract header; the payload is what
  follows the header up to the data length.
\<close>

theorem new_packet_readable:
  assumes "NetPacket_new b = Inr p"
  shows "12 \<le> length b \<and> np_ok p \<and> NetPacket_payload p = Inr (drop 12 b) \<and>
    NetPacket_head p = Inr (take 12 b) \<and>
    NetPacket_is_encrypt p = Inr (f_encrypt (np_abs p)) \<and>
    NetPacket_is_gateway p = Inr (f_gateway (np_abs p)) \<and>
    NetPacket_is_extension p = Inr (f_extension (np_abs p)) \<and>
    NetPacket_protocol p = Inr (Protocol_of_u8 (f_protocol (np_abs p))) \<and>
    NetPacket_transport_protocol p = Inr (f_transport (np_abs p)) \<and>
    NetPacket_ttl p = Inr (f_ttl (np_abs p)) \<and>
    NetPacket_source_ttl p = Inr (f_source_ttl (np_abs p)) \<and>
    NetPacket_source p = Inr (f_source (np_abs p)) \<and>
    NetPacket_destination p = Inr (f_destination (np_abs p))"
proof -
  have b: "12 \<le> length b" "p = \<lparr>np_data_len = length b, np_buffer = b\<rparr>"
    using assms by (auto simp: NetPacket_new_Inr_iff)
  then have ok: "np_ok p" by (simp add: np_ok_def)
  have "f_payload (np_abs p) = drop 12 b" using b by (simp add: np_abs_def Let_def)
  then show ?thesis using b ok np_get[OF ok] np_get_head[OF ok] by simp
qed

lemma new_packet_readable_witness:
  "NetPacket_payload (NetPacket_unchecked [0x42, 4, 1, 0x33, 10, 26, 0, 2, 10, 26, 0, 3, 7]) = Inr [7]"
proof -
  have "NetPacket_new [0x42, 4, 1, 0x33, 10, 26, 0, 2, 10, 26, 0, 3, 7] =
      Inr (NetPacket_unchecked [0x42, 4, 1, 0x33, 10, 26, 0, 2, 10, 26, 0, 3, 7])"
    by (simp add: NetPacket_new_Inr_iff NetPacket_unchecked_def)
  from new_packet_readable[OF this] show ?thesis by simp
qed

end
