(* ===== verification/Secret_Body.thy ===== *)
theory Secret_Body
  imports Vnt_Prelude
begin

text \<open>
  The layouts of encrypted bodies, \<^verbatim>\<open>vnt/src/protocol/body.rs\<close>. Every body is a buffer and
  the flag whether a 12-byte finger ends it; random bytes and tag sit before the finger, in an
  order that depends on the kind of body. The \<open>_mut\<close> views are represented by setters which
  write a range of the same length.
\<close>

definition AES_GCM_ENCRYPTION_RESERVED :: nat where "AES_GCM_ENCRYPTION_RESERVED = 32"
definition RSA_ENCRYPTION_RESERVED :: nat where "RSA_ENCRYPTION_RESERVED = 32"
definition RANDOM_RESERVED :: nat where "RANDOM_RESERVED = 4"
definition FINGER_RESERVED :: nat where "FINGER_RESERVED = 12"
definition TAG_RESERVED :: nat where "TAG_RESERVED = 16"

definition MAX_UDP_BODY :: nat where "MAX_UDP_BODY = 65535 - 20 - 8 - 12"

record secret =
  sb_buffer :: "u8 list"
  sb_exist_finger :: bool

text \<open>
  A \<open>usize\<close> subtraction used as a slice bound: below 0 it wraps to a bound past every
  buffer, and the slice panics.
\<close>

definition idx_sub :: "nat \<Rightarrow> nat \<Rightarrow> nat res" where
  "idx_sub a b = (if b \<le> a then Inr (a - b) else Inl Panic)"

definition secret_end :: "secret \<Rightarrow> nat \<Rightarrow> nat res" where
  "secret_end s reserved =
     bindE (idx_sub (length (sb_buffer s)) reserved)
       (\<lambda>e. if sb_exist_finger s then idx_sub e FINGER_RESERVED else Inr e)"

definition secret_prefix :: "secret \<Rightarrow> nat \<Rightarrow> u8 list res" where
  "secret_prefix s reserved = bindE (secret_end s reserved) (\<lambda>e. slice (sb_buffer s) 0 e)"

definition secret_before :: "secret \<Rightarrow> nat \<Rightarrow> nat \<Rightarrow> u8 list res" where
  "secret_before s reserved n =
     bindE (secret_end s reserved) (\<lambda>e. bindE (idx_sub e n) (\<lambda>a. slice (sb_buffer s) a e))"

definition set_secret_prefix :: "secret \<Rightarrow> nat \<Rightarrow> u8 list \<Rightarrow> secret res" where
  "set_secret_prefix s reserved v =
     bindE (secret_end s reserved)
       (\<lambda>e. mapE (\<lambda>b. s\<lparr>sb_buffer := b\<rparr>) (copy_range (sb_buffer s) 0 e v))"

definition set_secret_before :: "secret \<Rightarrow> nat \<Rightarrow> nat \<Rightarrow> u8 list \<Rightarrow> secret res" where
  "set_secret_before s reserved n v =
     bindE (secret_end s reserved) (\<lambda>e. bindE (idx_sub e n)
       (\<lambda>a. mapE (\<lambda>b. s\<lparr>sb_buffer := b\<rparr>) (copy_range (sb_buffer s) a e v)))"

section \<open>The trait \<open>SecretTail\<close>\<close>

definition SecretTail_random_buf :: "secret \<Rightarrow> u8 list res" where
  "SecretTail_random_buf s = secret_before s 0 RANDOM_RESERVED"

definition SecretTail_finger :: "secret \<Rightarrow> u8 list res" where
  "SecretTail_finger s =
     (if sb_exist_finger s then
        bindE (idx_sub (length (sb_buffer s)) FINGER_RESERVED)
          (\<lambda>a. slice (sb_buffer s) a (length (sb_buffer s)))
      else Inr [])"

definition SecretTailMut_set_random :: "secret \<Rightarrow> u8 list \<Rightarrow> secret res" where
  "SecretTailMut_set_random s random = set_secret_before s 0 RANDOM_RESERVED random"

definition SecretTailMut_set_finger :: "secret \<Rightarrow> u8 list \<Rightarrow> secret res" where
  "SecretTailMut_set_finger s finger =
     (if sb_exist_finger s then
        (if length finger \<noteq> FINGER_RESERVED then Inl (Io InvalidData ''finger.len != 12'')
         else bindE (idx_sub (length (sb_buffer s)) FINGER_RESERVED) (\<lambda>a.
           mapE (\<lambda>b. s\<lparr>sb_buffer := b\<rparr>)
             (copy_range (sb_buffer s) a (length (sb_buffer s)) finger)))
      else Inl (Io InvalidData ''not exist finger''))"

section \<open>AEAD bodies: data, tag, random, finger\<close>

definition AEADSecretBody_new :: "u8 list \<Rightarrow> bool \<Rightarrow> secret res" where
  "AEADSecretBody_new buffer exist_finger =
     (let len = length buffer;
          min_len = (if exist_finger then TAG_RESERVED + RANDOM_RESERVED + FINGER_RESERVED
                     else TAG_RESERVED + RANDOM_RESERVED) in
      if len < min_len \<or> len > MAX_UDP_BODY
      then Inl (Io InvalidData ''AEADSecretBody length overflow'')
      else Inr \<lparr>sb_buffer = buffer, sb_exist_finger = exist_finger\<rparr>)"

definition AEADSecretBody_data :: "secret \<Rightarrow> u8 list res" where
  "AEADSecretBody_data s = secret_prefix s (TAG_RESERVED + RANDOM_RESERVED)"

definition AEADSecretBody_tag :: "secret \<Rightarrow> u8 list res" where
  "AEADSecretBody_tag s = secret_before s RANDOM_RESERVED TAG_RESERVED"

definition AEADSecretBody_data_mut :: "secret \<Rightarrow> u8 list \<Rightarrow> secret res" where
  "AEADSecretBody_data_mut s v = set_secret_prefix s (RANDOM_RESERVED + TAG_RESERVED) v"

definition AEADSecretBody_data_tag :: "secret \<Rightarrow> u8 list res" where
  "AEADSecretBody_data_tag s = secret_prefix s RANDOM_RESERVED"

definition AEADSecretBody_data_tag_mut :: "secret \<Rightarrow> u8 list \<Rightarrow> secret res" where
  "AEADSecretBody_data_tag_mut s v = set_secret_prefix s RANDOM_RESERVED v"

definition AEADSecretBody_set_tag :: "secret \<Rightarrow> u8 list \<Rightarrow> secret res" where
  "AEADSecretBody_set_tag s tag =
     (if length tag \<noteq> 16 then Inl (Io InvalidData ''tag.len != 16'')
      else set_secret_before s RANDOM_RESERVED TAG_RESERVED tag)"

section \<open>Stream-cipher bodies: data, random, finger\<close>

definition IVSecretBody_new :: "u8 list \<Rightarrow> bool \<Rightarrow> secret res" where
  "IVSecretBody_new buffer exist_finger =
     (let len = length buffer;
          min_len = (if exist_finger then FINGER_RESERVED + RANDOM_RESERVED else RANDOM_RESERVED) in
      if len < min_len \<or> len > MAX_UDP_BODY
      then Inl (Io InvalidData ''IVSecretBody length overflow'')
      else Inr \<lparr>sb_buffer = buffer, sb_exist_finger = exist_finger\<rparr>)"

definition IVSecretBody_data :: "secret \<Rightarrow> u8 list res" where
  "IVSecretBody_data s = secret_prefix s RANDOM_RESERVED"

definition IVSecretBody_data_mut :: "secret \<Rightarrow> u8 list \<Rightarrow> secret res" where
  "IVSecretBody_data_mut s v = set_secret_prefix s RANDOM_RESERVED v"

section \<open>AES-GCM bodies: body ending in random, tag, finger\<close>

definition SecretBody_new :: "u8 list \<Rightarrow> bool \<Rightarrow> secret res" where
  "SecretBody_new buffer exist_finger =
     (let len = length buffer; min_len = (if exist_finger then 32 else 32 - 12) in
      if len < min_len \<or> len > MAX_UDP_BODY
      then Inl (Io InvalidData ''SecretBody length overflow'')
      else Inr \<lparr>sb_buffer = buffer, sb_exist_finger = exist_finger\<rparr>)"

definition SecretBody_random :: "secret \<Rightarrow> u32 res" where
  "SecretBody_random s = bindE (secret_before s 16 4) (\<lambda>b. Inr (be32 (b ! 0) (b ! 1) (b ! 2) (b ! 3)))"

definition SecretBody_body :: "secret \<Rightarrow> u8 list res" where
  "SecretBody_body s = secret_prefix s 16"

definition SecretBody_tag :: "secret \<Rightarrow> u8 list res" where
  "SecretBody_tag s = secret_before s 0 16"

definition SecretBody_en_body :: "secret \<Rightarrow> u8 list res" where
  "SecretBody_en_body s = secret_prefix s 0"

definition SecretBody_finger :: "secret \<Rightarrow> u8 list res" where
  "SecretBody_finger s =
     (if sb_exist_finger s then
        bindE (idx_sub (length (sb_buffer s)) 12) (\<lambda>a. slice (sb_buffer s) a (length (sb_buffer s)))
      else Inr [])"

definition SecretBody_set_random :: "secret \<Rightarrow> u32 \<Rightarrow> secret res" where
  "SecretBody_set_random s random = set_secret_before s 16 4 (be32_bytes random)"

definition SecretBody_set_tag :: "secret \<Rightarrow> u8 list \<Rightarrow> secret res" where
  "SecretBody_set_tag s tag =
     (if length tag \<noteq> 16 then Inl (Io InvalidData ''tag.len != 16'')
      else set_secret_before s 0 16 tag)"

definition SecretBody_set_finger :: "secret \<Rightarrow> u8 list \<Rightarrow> secret res" where
  "SecretBody_set_finger s finger =
     (if sb_exist_finger s then
        (if length finger \<noteq> 12 then Inl (Io InvalidData ''finger.len != 12'')
         else bindE (idx_sub (length (sb_buffer s)) 12) (\<lambda>a.
           mapE (\<lambda>b. s\<lparr>sb_buffer := b\<rparr>)
             (copy_range (sb_buffer s) a (length (sb_buffer s)) finger)))
      else Inl (Io InvalidData ''not exist finger''))"

definition SecretBody_body_mut :: "secret \<Rightarrow> u8 list \<Rightarrow> secret res" where
  "SecretBody_body_mut s v = set_secret_prefix s 16 v"

definition SecretBody_en_body_mut :: "secret \<Rightarrow> u8 list \<Rightarrow> secret res" where
  "SecretBody_en_body_mut s v = set_secret_prefix s 0 v"

section \<open>CBC bodies: padded data ending in random, finger\<close>

definition AesCbcSecretBody_new :: "u8 list \<Rightarrow> bool \<Rightarrow> secret res" where
  "AesCbcSecretBody_new buffer exist_finger =
     (let len = length buffer; min_len = (if exist_finger then 16 else 16 - 12) in
      if len < min_len \<or> len > MAX_UDP_BODY
      then Inl (Io InvalidData ''AesCbcSecretBody length overflow'')
      else Inr \<lparr>sb_buffer = buffer, sb_exist_finger = exist_finger\<rparr>)"

definition AesCbcSecretBody_en_body :: "secret \<Rightarrow> u8 list res" where
  "AesCbcSecretBody_en_body s = secret_prefix s 0"

definition AesCbcSecretBody_finger :: "secret \<Rightarrow> u8 list res" where
  "AesCbcSecretBody_finger s =
     (if sb_exist_finger s then
        bindE (idx_sub (length (sb_buffer s)) 12) (\<lambda>a. slice (sb_buffer s) a (length (sb_buffer s)))
      else Inr [])"

definition AesCbcSecretBody_set_random :: "secret \<Rightarrow> u32 \<Rightarrow> secret res" where
  "AesCbcSecretBody_set_random s random = set_secret_before s 0 4 (be32_bytes random)"

definition AesCbcSecretBody_set_finger :: "secret \<Rightarrow> u8 list \<Rightarrow> secret res" where
  "AesCbcSecretBody_set_finger s finger =
     (if sb_exist_finger s then
        (if length finger \<noteq> 12 then Inl (Io InvalidData ''finger.len != 12'')
         else bindE (idx_sub (length (sb_buffer s)) 12) (\<lambda>a.
           mapE (\<lambda>b. s\<lparr>sb_buffer := b\<rparr>)
             (copy_range (sb_buffer s) a (length (sb_buffer s)) finger)))
      else Inl (Io InvalidData ''cbc not exist finger''))"

definition AesCbcSecretBody_en_body_mut :: "secret \<Rightarrow> u8 list \<Rightarrow> secret res" where
  "AesCbcSecretBody_en_body_mut s v = set_secret_prefix s 0 v"

section \<open>RSA bodies: data, 16 random bytes, 16-byte finger\<close>

definition RsaSecretBody_new :: "u8 list \<Rightarrow> u8 list res" where
  "RsaSecretBody_new buffer =
     (let len = length buffer in
      if len < 32 \<or> len > MAX_UDP_BODY then Inl (Io InvalidData ''length overflow'') else Inr buffer)"

definition RsaSecretBody_data :: "u8 list \<Rightarrow> u8 list res" where
  "RsaSecretBody_data buffer = bindE (idx_sub (length buffer) 32) (\<lambda>e. slice buffer 0 e)"

definition RsaSecretBody_random :: "u8 list \<Rightarrow> u8 list res" where
  "RsaSecretBody_random buffer =
     bindE (idx_sub (length buffer) 16) (\<lambda>e. bindE (idx_sub e 16) (\<lambda>a. slice buffer a e))"

definition RsaSecretBody_body :: "u8 list \<Rightarrow> u8 list res" where
  "RsaSecretBody_body buffer = bindE (idx_sub (length buffer) 16) (\<lambda>e. slice buffer 0 e)"

definition RsaSecretBody_finger :: "u8 list \<Rightarrow> u8 list res" where
  "RsaSecretBody_finger buffer =
     bindE (idx_sub (length buffer) 16) (\<lambda>e. slice buffer e (length buffer))"

definition RsaSecretBody_set_random :: "u8 list \<Rightarrow> u8 list \<Rightarrow> u8 list res" where
  "RsaSecretBody_set_random buffer random =
     (if length random \<noteq> 16 then Inl (Io InvalidData ''random.len != 16'')
      else bindE (idx_sub (length buffer) 16) (\<lambda>e. bindE (idx_sub e 16)
        (\<lambda>a. copy_range buffer a e random)))"

definition RsaSecretBody_set_finger :: "u8 list \<Rightarrow> u8 list \<Rightarrow> u8 list res" where
  "RsaSecretBody_set_finger buffer finger =
     (if length finger \<noteq> 16 then Inl (Io InvalidData ''finger.len != 16'')
      else bindE (idx_sub (length buffer) 16) (\<lambda>a. copy_range buffer a (length buffer) finger))"

section \<open>Bodies as concatenations\<close>

text \<open>\<open>body d parts f\<close>: the body whose fields are the given lists, ended by the finger \<open>f\<close>.\<close>

definition sb_of :: "u8 list \<Rightarrow> u8 list option \<Rightarrow> secret" where
  "sb_of d f = (case f of None \<Rightarrow> \<lparr>sb_buffer = d, sb_exist_finger = False\<rparr>
     | Some g \<Rightarrow> \<lparr>sb_buffer = d @ g, sb_exist_finger = True\<rparr>)"

definition finger_ok :: "u8 list option \<Rightarrow> bool" where
  "finger_ok f = (case f of None \<Rightarrow> True | Some g \<Rightarrow> length g = 12)"

lemma copy_range_append [simp]:
  "length v = length b \<Longrightarrow> copy_range (a @ b @ c) (length a) (length a + length b) v = Inr (a @ v @ c)"
  by (simp add: copy_range_def splice_def)

lemma slice_append [simp]: "slice (a @ b @ c) (length a) (length a + length b) = Inr b"
  by (simp add: slice_def)

lemma secret_end_of: "finger_ok f \<Longrightarrow> secret_end (sb_of d f) r = idx_sub (length d) r"
  by (auto simp: secret_end_def sb_of_def finger_ok_def idx_sub_def FINGER_RESERVED_def split: option.splits)

lemma secret_prefix_of:
  assumes "finger_ok f" "length t = r"
  shows "secret_prefix (sb_of (d @ t) f) r = Inr d"
    and "length v = length d \<Longrightarrow> set_secret_prefix (sb_of (d @ t) f) r v = Inr (sb_of (v @ t) f)"
  using assms slice_append[of "[]" d] copy_range_append[of v d "[]"]
  by (auto simp: secret_prefix_def set_secret_prefix_def secret_end_of idx_sub_def)
    (auto simp: sb_of_def slice_def copy_range_def splice_def split: option.splits)

lemma secret_before_of:
  assumes "finger_ok f" "length t = r" "length m = n"
  shows "secret_before (sb_of (d @ m @ t) f) r n = Inr m"
    and "length v = n \<Longrightarrow> set_secret_before (sb_of (d @ m @ t) f) r n v = Inr (sb_of (d @ v @ t) f)"
  using assms
  by (auto simp: secret_before_def set_secret_before_def secret_end_of idx_sub_def)
    (auto simp: sb_of_def slice_def copy_range_def splice_def split: option.splits)

lemma sb_of_split:
  assumes "finger_ok' = (if e then 12 else 0)" "finger_ok' + n \<le> length b"
  obtains d t f where "\<lparr>sb_buffer = b, sb_exist_finger = e\<rparr> = sb_of (d @ t) f"
    "finger_ok f" "length t = n" "f = None \<longleftrightarrow> \<not> e"
    "b = d @ t @ (case f of None \<Rightarrow> [] | Some g \<Rightarrow> g)"
proof -
  let ?k = "length b - finger_ok'"
  let ?x = "take ?k b" let ?f = "if e then Some (drop ?k b) else None"
  have x: "take (length ?x - n) ?x @ drop (length ?x - n) ?x = ?x" by (rule append_take_drop_id)
  have c: "(case ?f of None \<Rightarrow> [] | Some g \<Rightarrow> g) = drop ?k b" using assms by simp
  show ?thesis
  proof (rule that[of "take (length ?x - n) ?x" "drop (length ?x - n) ?x" ?f])
    show "\<lparr>sb_buffer = b, sb_exist_finger = e\<rparr> = sb_of (take (length ?x - n) ?x @ drop (length ?x - n) ?x) ?f"
      unfolding x using assms by (simp add: sb_of_def)
    show "finger_ok ?f" "length (drop (length ?x - n) ?x) = n" "?f = None \<longleftrightarrow> \<not> e"
      using assms by (auto simp: finger_ok_def)
    show "b = take (length ?x - n) ?x @ drop (length ?x - n) ?x @ (case ?f of None \<Rightarrow> [] | Some g \<Rightarrow> g)"
      unfolding c append_assoc[symmetric] x by simp
  qed
qed

definition finger_bytes :: "u8 list option \<Rightarrow> u8 list" where
  "finger_bytes f = (case f of None \<Rightarrow> [] | Some g \<Rightarrow> g)"

lemma sb_of_finger: "finger_ok f \<Longrightarrow> SecretTail_finger (sb_of d f) = Inr (finger_bytes f)"
  "finger_ok f \<Longrightarrow> SecretBody_finger (sb_of d f) = Inr (finger_bytes f)"
  "finger_ok f \<Longrightarrow> AesCbcSecretBody_finger (sb_of d f) = Inr (finger_bytes f)"
  by (auto simp: SecretTail_finger_def SecretBody_finger_def AesCbcSecretBody_finger_def sb_of_def finger_ok_def
      finger_bytes_def idx_sub_def slice_def FINGER_RESERVED_def split: option.splits)

lemma set_finger_of:
  assumes "length g = 12" "length g' = 12"
  shows "SecretBody_set_finger (sb_of d (Some g)) g' = Inr (sb_of d (Some g'))"
    and "SecretTailMut_set_finger (sb_of d (Some g)) g' = Inr (sb_of d (Some g'))"
    and "AesCbcSecretBody_set_finger (sb_of d (Some g)) g' = Inr (sb_of d (Some g'))"
  using assms copy_range_append[of g' g d "[]"]
  by (auto simp: SecretBody_set_finger_def SecretTailMut_set_finger_def AesCbcSecretBody_set_finger_def
      sb_of_def idx_sub_def FINGER_RESERVED_def)

lemma sb_of_buffer [simp]: "sb_buffer (sb_of d f) = d @ finger_bytes f"
  by (auto simp: sb_of_def finger_bytes_def split: option.splits)

lemma split_head: "n \<le> length t \<Longrightarrow> \<exists>m u. t = m @ u \<and> length m = n"
  by (intro exI[of _ "take n t"] exI[of _ "drop n t"]) simp

lemma split_tail: "n \<le> length t \<Longrightarrow> \<exists>m u. t = m @ u \<and> length u = n"
  by (intro exI[of _ "take (length t - n) t"] exI[of _ "drop (length t - n) t"]) simp

lemma aead_tile:
  assumes n: "AEADSecretBody_new b e = Inr s"
  shows "\<exists>d t r f. AEADSecretBody_data s = Inr d \<and>
      AEADSecretBody_tag s = Inr t \<and> SecretTail_random_buf s = Inr r \<and> SecretTail_finger s = Inr f \<and>
      AEADSecretBody_data_tag s = Inr (d @ t) \<and> b = d @ t @ r @ f \<and>
      length t = 16 \<and> length r = 4 \<and> length f = (if e then 12 else 0)"
proof -
  have len: "(if e then 12 else 0) + 20 \<le> length b" "s = \<lparr>sb_buffer = b, sb_exist_finger = e\<rparr>"
    using n by (auto simp: AEADSecretBody_new_def Let_def TAG_RESERVED_def RANDOM_RESERVED_def
        FINGER_RESERVED_def split: if_splits)
  obtain d t f where s: "s = sb_of (d @ t) f" "finger_ok f" "length t = 20" "f = None \<longleftrightarrow> \<not> e"
    "b = d @ t @ finger_bytes f"
    using sb_of_split[OF refl len(1)] unfolding len(2) finger_bytes_def by metis
  obtain tg r where t: "t = tg @ r" "length r = 4" using split_tail[of 4 t] s(3) by auto
  then have tg: "length tg = 16" using s(3) by simp
  have "length (finger_bytes f) = (if e then 12 else 0)"
    using s(2,4) by (auto simp: finger_ok_def finger_bytes_def split: option.splits)
  moreover have "AEADSecretBody_data s = Inr d" "AEADSecretBody_data_tag s = Inr (d @ tg)"
    "AEADSecretBody_tag s = Inr tg" "SecretTail_random_buf s = Inr r"
    using secret_prefix_of(1)[OF s(2), of t 20 d] secret_prefix_of(1)[OF s(2), of r 4 "d @ tg"]
      secret_before_of(1)[OF s(2), of r 4 tg 16 d] secret_before_of(1)[OF s(2), of "[]" 0 r 4 "d @ tg"] t tg s(3)
    by (simp_all add: s(1) AEADSecretBody_data_def AEADSecretBody_data_tag_def AEADSecretBody_tag_def
        SecretTail_random_buf_def TAG_RESERVED_def RANDOM_RESERVED_def)
  ultimately show ?thesis
    using s t tg by (intro exI[of _ d] exI[of _ tg] exI[of _ r] exI[of _ "finger_bytes f"])
      (simp add: sb_of_finger)
qed

lemma iv_tile:
  assumes n: "IVSecretBody_new b e = Inr s"
  shows "\<exists>d r f. IVSecretBody_data s = Inr d \<and>
      SecretTail_random_buf s = Inr r \<and> SecretTail_finger s = Inr f \<and> b = d @ r @ f \<and>
      length r = 4 \<and> length f = (if e then 12 else 0)"
proof -
  have len: "(if e then 12 else 0) + 4 \<le> length b" "s = \<lparr>sb_buffer = b, sb_exist_finger = e\<rparr>"
    using n by (auto simp: IVSecretBody_new_def Let_def RANDOM_RESERVED_def
        FINGER_RESERVED_def split: if_splits)
  obtain d t f where s: "s = sb_of (d @ t) f" "finger_ok f" "length t = 4" "f = None \<longleftrightarrow> \<not> e"
    "b = d @ t @ finger_bytes f"
    using sb_of_split[OF refl len(1)] unfolding len(2) finger_bytes_def by metis
  have "length (finger_bytes f) = (if e then 12 else 0)"
    using s(2,4) by (auto simp: finger_ok_def finger_bytes_def split: option.splits)
  moreover have "IVSecretBody_data s = Inr d" "SecretTail_random_buf s = Inr t"
    using secret_prefix_of(1)[OF s(2), of t 4 d] secret_before_of(1)[OF s(2), of "[]" 0 t 4 d] s(3)
    by (simp_all add: s(1) IVSecretBody_data_def SecretTail_random_buf_def RANDOM_RESERVED_def)
  ultimately show ?thesis
    using s by (simp add: sb_of_finger)
qed

lemma gcm_tile:
  assumes n: "SecretBody_new b e = Inr s"
  shows "\<exists>d r t f. SecretBody_body s = Inr (d @ be32_bytes r) \<and>
      SecretBody_random s = Inr r \<and> SecretBody_tag s = Inr t \<and> SecretBody_finger s = Inr f \<and>
      SecretBody_en_body s = Inr (d @ be32_bytes r @ t) \<and> b = d @ be32_bytes r @ t @ f \<and>
      length t = 16 \<and> length f = (if e then 12 else 0)"
proof -
  have len: "(if e then 12 else 0) + 20 \<le> length b" "s = \<lparr>sb_buffer = b, sb_exist_finger = e\<rparr>"
    using n by (auto simp: SecretBody_new_def Let_def split: if_splits)
  obtain d t f where s: "s = sb_of (d @ t) f" "finger_ok f" "length t = 20" "f = None \<longleftrightarrow> \<not> e"
    "b = d @ t @ finger_bytes f"
    using sb_of_split[OF refl len(1)] unfolding len(2) finger_bytes_def by metis
  obtain r0 tg where t: "t = r0 @ tg" "length tg = 16" using split_tail[of 16 t] s(3) by auto
  then have "length r0 = 4" using s(3) by simp
  then obtain w x y z where r0: "r0 = [w, x, y, z]" by (auto simp: numeral_eq_Suc length_Suc_conv)
  let ?r = "be32 w x y z"
  have "length (finger_bytes f) = (if e then 12 else 0)"
    using s(2,4) by (auto simp: finger_ok_def finger_bytes_def split: option.splits)
  moreover have "SecretBody_body s = Inr (d @ be32_bytes ?r)" "SecretBody_random s = Inr ?r"
    "SecretBody_tag s = Inr tg" "SecretBody_en_body s = Inr (d @ be32_bytes ?r @ tg)"
    using secret_prefix_of(1)[OF s(2), of tg 16 "d @ r0"] secret_prefix_of(1)[OF s(2), of "[]" 0 "d @ t"]
      secret_before_of(1)[OF s(2), of "[]" 0 tg 16 "d @ r0"] secret_before_of(1)[OF s(2), of tg 16 r0 4 d] t r0
    by (simp_all add: s(1) SecretBody_body_def SecretBody_random_def SecretBody_tag_def SecretBody_en_body_def)
  ultimately show ?thesis
    using s t r0 by (intro exI[of _ d] exI[of _ ?r] exI[of _ tg] exI[of _ "finger_bytes f"])
      (simp add: sb_of_finger)
qed

section \<open>Properties\<close>

text \<open>
  The constructors guarantee the layouts: on a body that \<open>new\<close> accepted no accessor panics and
  the fields tile the buffer in the documented order - data, tag, random, finger for AEAD
  bodies; data, random, finger for stream-cipher bodies; body, tag, finger for AES-GCM bodies,
  with the random number in the last four bytes of the body.
\<close>

theorem secret_bodies_tile:
  "(AEADSecretBody_new b e = Inr s \<longrightarrow> (\<exists>d t r f. AEADSecretBody_data s = Inr d \<and>
      AEADSecretBody_tag s = Inr t \<and> SecretTail_random_buf s = Inr r \<and> SecretTail_finger s = Inr f \<and>
      AEADSecretBody_data_tag s = Inr (d @ t) \<and> b = d @ t @ r @ f \<and>
      length t = 16 \<and> length r = 4 \<and> length f = (if e then 12 else 0))) \<and>
   (IVSecretBody_new b e = Inr s \<longrightarrow> (\<exists>d r f. IVSecretBody_data s = Inr d \<and>
      SecretTail_random_buf s = Inr r \<and> SecretTail_finger s = Inr f \<and> b = d @ r @ f \<and>
      length r = 4 \<and> length f = (if e then 12 else 0))) \<and>
   (SecretBody_new b e = Inr s \<longrightarrow> (\<exists>d r t f. SecretBody_body s = Inr (d @ be32_bytes r) \<and>
      SecretBody_random s = Inr r \<and> SecretBody_tag s = Inr t \<and> SecretBody_finger s = Inr f \<and>
      SecretBody_en_body s = Inr (d @ be32_bytes r @ t) \<and> b = d @ be32_bytes r @ t @ f \<and>
      length t = 16 \<and> length f = (if e then 12 else 0)))"
  using aead_tile iv_tile gcm_tile by blast

lemma secret_bodies_tile_witness:
  "\<exists>s. AEADSecretBody_new (replicate 33 7) True = Inr s \<and> is_Ok (AEADSecretBody_data s) \<and>
     is_Ok (SecretTail_finger s)"
proof -
  have "AEADSecretBody_new (replicate 33 7) True = Inr \<lparr>sb_buffer = replicate 33 7, sb_exist_finger = True\<rparr>"
    by (simp add: AEADSecretBody_new_def TAG_RESERVED_def RANDOM_RESERVED_def FINGER_RESERVED_def MAX_UDP_BODY_def)
  with secret_bodies_tile[of "replicate 33 7" True] show ?thesis by fastforce
qed

end
