(* ===== verification/Aead_Ciphers.thy ===== *)
theory Aead_Ciphers
  imports Net_Packet Secret_Body
begin

text \<open>
  Packet encryption, \<^verbatim>\<open>vnt/src/cipher\<close>: the finger (\<^verbatim>\<open>finger.rs\<close>), the XOR cipher, the
  AES-GCM and ChaCha20-Poly1305 ciphers on the ring library (the variants the application is
  built with), and ChaCha20. The cryptographic primitives are not
  in the repository: SHA-256, an AEAD and a key stream are arguments, with the documented
  laws (\<open>sha_laws\<close>, \<open>aead_laws\<close>, \<open>stream_laws\<close>) as hypotheses of the theorems that need
  them. The random number is an argument of the encryption. Error texts are abbreviated.
  A failing call returns no packet: its callers drop the buffer.
\<close>

section \<open>The finger\<close>

type_synonym hash = "u8 list \<Rightarrow> u8 list"

definition sha_laws :: "hash \<Rightarrow> bool" where
  "sha_laws sha \<longleftrightarrow> (\<forall>m. length (sha m) = 32)"

definition Finger_new :: "hash \<Rightarrow> u8 list \<Rightarrow> u8 list" where
  "Finger_new sha str = sha str"

definition calculate_finger :: "hash \<Rightarrow> u8 list \<Rightarrow> u8 list \<Rightarrow> u8 list \<Rightarrow> u8 list" where
  "calculate_finger sha hash nonce secret_body = drop 20 (sha (nonce @ secret_body @ hash))"

definition NetPacket_head_tag :: "net_packet \<Rightarrow> u8 list res" where
  "NetPacket_head_tag p =
     bindE (NetPacket_buffer p) (\<lambda>b. bindE (slice b 4 8) (\<lambda>s. bindE (slice b 8 12) (\<lambda>d.
       bindE (NetPacket_protocol p) (\<lambda>pr. bindE (NetPacket_transport_protocol p) (\<lambda>tp.
         bindE (NetPacket_is_gateway p) (\<lambda>gw. bindE (NetPacket_source_ttl p) (\<lambda>st.
           Inr (s @ d @ [Protocol_to_u8 pr, tp, if gw then 1 else 0, st]))))))))"

definition check_finger :: "hash \<Rightarrow> u8 list \<Rightarrow> net_packet \<Rightarrow> unit res" where
  "check_finger sha hash p =
     bindE (NetPacket_is_encrypt p) (\<lambda>en.
       if \<not> en then Inl (Anyhow ''not encrypt'')
       else bindE (NetPacket_payload p) (\<lambda>pl.
         let payload_len = length pl in
         if payload_len < 12 then Inl (Anyhow ''data err'')
         else bindE (NetPacket_source p) (\<lambda>s. bindE (NetPacket_destination p) (\<lambda>d.
           bindE (NetPacket_protocol p) (\<lambda>pr. bindE (NetPacket_transport_protocol p) (\<lambda>tp.
             bindE (NetPacket_is_gateway p) (\<lambda>gw. bindE (NetPacket_source_ttl p) (\<lambda>st.
               let nonce_raw = octets s @ octets d @ [Protocol_to_u8 pr, tp, if gw then 1 else 0, st];
                   finger = calculate_finger sha hash nonce_raw (take (payload_len - 12) pl) in
               if finger \<noteq> drop (payload_len - 12) pl then Inl (Anyhow ''finger err'')
               else Inr ()))))))))"

definition gen_nonce :: "u8 list \<Rightarrow> u8 list \<Rightarrow> u8 list" where
  "gen_nonce tag random =
     tag[8 := random ! 0 XOR tag ! 8, 9 := random ! 1 XOR tag ! 9,
         10 := random ! 2 XOR tag ! 10, 11 := random ! 3 XOR tag ! 11]"

section \<open>Working on the payload in place\<close>

text \<open>A body borrows \<open>payload_mut()\<close>: what the body holds at the end is the new payload.\<close>

definition in_payload :: "net_packet \<Rightarrow> (u8 list \<Rightarrow> (u8 list \<times> 'a) res) \<Rightarrow> (net_packet \<times> 'a) res" where
  "in_payload p f =
     bindE (NetPacket_payload p) (\<lambda>pl. bindE (f pl) (\<lambda>(pl', x).
       bindE (copy_range (np_buffer p) 12 (np_data_len p) pl')
         (\<lambda>b. Inr (p\<lparr>np_buffer := b\<rparr>, x))))"

section \<open>XOR\<close>

definition xor_key :: "u8 list \<Rightarrow> u8 list \<Rightarrow> u8 list" where
  "xor_key key pl = map (\<lambda>i. pl ! i XOR key ! (i mod 32)) [0..<length pl]"

definition XOR_decrypt_ipv4 :: "u8 list \<Rightarrow> net_packet \<Rightarrow> net_packet res" where
  "XOR_decrypt_ipv4 key p =
     bindE (NetPacket_is_encrypt p) (\<lambda>en.
       if \<not> en then Inl (Anyhow ''not encrypt'')
       else bindE (in_payload p (\<lambda>pl. Inr (xor_key key pl, ())))
         (\<lambda>(q, _). NetPacket_set_encrypt_flag q False))"

definition XOR_encrypt_ipv4 :: "u8 list \<Rightarrow> net_packet \<Rightarrow> net_packet res" where
  "XOR_encrypt_ipv4 key p =
     bindE (NetPacket_set_encrypt_flag p True) (\<lambda>q.
       bindE (in_payload q (\<lambda>pl. Inr (xor_key key pl, ()))) (\<lambda>(r, _). Inr r))"

definition simple_hash_state :: "u8 list \<Rightarrow> nat \<Rightarrow> u8 \<Rightarrow> u8" where
  \<comment> \<open>\<open>state.wrapping_add(byte).rotate_left(3)\<close>\<close>
  "simple_hash_state bytes i state = word_rotl 3 (state + bytes ! i)"

definition simple_hash_mix :: "u8 list \<Rightarrow> u8 list \<times> u8 \<Rightarrow> nat \<Rightarrow> u8 list \<times> u8" where
  "simple_hash_mix bytes = (\<lambda>(result, state) i.
     let combined = word_rotl (i mod 8) (bytes ! i + state) in
     (result[i mod 32 := result ! (i mod 32) XOR combined], simple_hash_state bytes i state))"

definition simple_hash_finish :: "u8 list \<times> u8 \<Rightarrow> nat \<Rightarrow> u8 list \<times> u8" where
  "simple_hash_finish = (\<lambda>(result, state) i.
     let r = word_rotl (unat (result ! ((i + 1) mod 32) mod 8)) (result ! i) + state in
     (result[i := r], word_rotl 3 (state + r)))"

text \<open>\<open>index % bytes.len()\<close> panics on the empty password.\<close>

definition simple_hash :: "u8 list \<Rightarrow> u8 list res" where
  "simple_hash bytes =
     (if bytes = [] then Inl Panic
      else Inr (fst (foldl simple_hash_finish
        (foldl (simple_hash_mix bytes)
           (map (\<lambda>index. bytes ! (index mod length bytes)) [0..<32], 0) [0..<length bytes])
        [0..<32])))"

section \<open>AES-GCM (ring)\<close>

record aead =
  ae_seal :: "u8 list \<Rightarrow> u8 list \<Rightarrow> (u8 list \<times> u8 list) option"
  ae_open :: "u8 list \<Rightarrow> u8 list \<Rightarrow> u8 list option"

text \<open>
  \<open>seal_in_place_separate_tag\<close> replaces the data by as many bytes and returns a 16-byte tag;
  \<open>open_in_place\<close> undoes it: the plain text is at the front of the buffer, what the tag's
  place holds afterwards is left open.
\<close>

definition aead_laws :: "aead \<Rightarrow> bool" where
  "aead_laws A \<longleftrightarrow> (\<forall>n d. \<exists>c t. ae_seal A n d = Some (c, t) \<and> length c = length d \<and> length t = 16 \<and>
     (\<exists>b. ae_open A n (c @ t) = Some b \<and> length b = length d + 16 \<and> take (length d) b = d))"

definition gcm_seal :: "aead \<Rightarrow> hash \<Rightarrow> u8 list option \<Rightarrow> u8 list \<Rightarrow> u32 \<Rightarrow> u8 list \<Rightarrow> (u8 list \<times> unit) res" where
  "gcm_seal A sha finger nonce random pl =
     bindE (SecretBody_new pl (finger \<noteq> None)) (\<lambda>s0. bindE (SecretBody_set_random s0 random) (\<lambda>s1.
       bindE (SecretBody_body s1) (\<lambda>body.
         (case ae_seal A nonce body of
            None \<Rightarrow> Inl (Anyhow ''encrypt'')
          | Some (ct, tag) \<Rightarrow>
              bindE (SecretBody_body_mut s1 ct) (\<lambda>s2.
                if length tag \<noteq> 16 then Inl (Anyhow ''tag length'')
                else bindE (SecretBody_set_tag s2 tag) (\<lambda>s3.
                  (case finger of
                     None \<Rightarrow> Inr (sb_buffer s3, ())
                   | Some h \<Rightarrow> bindE (SecretBody_en_body s3) (\<lambda>en_body.
                       bindE (SecretBody_set_finger s3 (calculate_finger sha h nonce en_body))
                         (\<lambda>s4. Inr (sb_buffer s4, ()))))))))))"

definition AesGcm_encrypt_ipv4 :: "aead \<Rightarrow> hash \<Rightarrow> u8 list option \<Rightarrow> u32 \<Rightarrow> net_packet \<Rightarrow> net_packet res" where
  "AesGcm_encrypt_ipv4 A sha finger random p =
     bindE (NetPacket_head_tag p) (\<lambda>nonce_raw.
       bindE (NetPacket_set_data_len p (np_data_len p + AES_GCM_ENCRYPTION_RESERVED)) (\<lambda>p1.
         bindE (in_payload p1 (gcm_seal A sha finger nonce_raw random))
           (\<lambda>(p2, _). NetPacket_set_encrypt_flag p2 True)))"

definition gcm_open :: "aead \<Rightarrow> hash \<Rightarrow> u8 list option \<Rightarrow> u8 list \<Rightarrow> u8 list \<Rightarrow> (u8 list \<times> unit) res" where
  "gcm_open A sha finger nonce pl =
     bindE (SecretBody_new pl (finger \<noteq> None)) (\<lambda>s. bindE (SecretBody_en_body s) (\<lambda>en_body.
       bindE (SecretBody_finger s) (\<lambda>stored.
         if (case finger of None \<Rightarrow> False | Some h \<Rightarrow> calculate_finger sha h nonce en_body \<noteq> stored)
         then Inl (Anyhow ''ring aes finger err'')
         else (case ae_open A nonce en_body of
                 None \<Rightarrow> Inl (Anyhow ''decrypt'')
               | Some b \<Rightarrow> bindE (SecretBody_en_body_mut s b) (\<lambda>s'. Inr (sb_buffer s', ()))))))"

definition AesGcm_decrypt_ipv4 :: "aead \<Rightarrow> hash \<Rightarrow> u8 list option \<Rightarrow> net_packet \<Rightarrow> net_packet res" where
  "AesGcm_decrypt_ipv4 A sha finger p =
     bindE (NetPacket_is_encrypt p) (\<lambda>en.
       if \<not> en then Inl (Anyhow ''not encrypt'')
       else bindE (NetPacket_payload p) (\<lambda>pl.
         if length pl < AES_GCM_ENCRYPTION_RESERVED then Inl (Anyhow ''data err'')
         else bindE (NetPacket_head_tag p) (\<lambda>nonce_raw.
           bindE (in_payload p (gcm_open A sha finger nonce_raw)) (\<lambda>(p1, _).
             bindE (NetPacket_set_encrypt_flag p1 False) (\<lambda>p2.
               NetPacket_set_data_len p2 (np_data_len p2 - AES_GCM_ENCRYPTION_RESERVED))))))"

section \<open>ChaCha20-Poly1305 (ring)\<close>

definition poly_seal :: "aead \<Rightarrow> hash \<Rightarrow> u8 list option \<Rightarrow> u8 list \<Rightarrow> u8 list \<Rightarrow> u8 list \<Rightarrow> (u8 list \<times> unit) res" where
  "poly_seal A sha finger head_tag random pl =
     bindE (AEADSecretBody_new pl (finger \<noteq> None)) (\<lambda>s0.
       let nonce = gen_nonce head_tag random in
       bindE (SecretTailMut_set_random s0 random) (\<lambda>s1. bindE (AEADSecretBody_data s1) (\<lambda>d.
         (case ae_seal A nonce d of
            None \<Rightarrow> Inl (Anyhow ''encrypt'')
          | Some (ct, tag) \<Rightarrow>
              bindE (AEADSecretBody_data_mut s1 ct) (\<lambda>s2.
                if length tag \<noteq> 16 then Inl (Anyhow ''tag length'')
                else bindE (AEADSecretBody_set_tag s2 tag) (\<lambda>s3.
                  (case finger of
                     None \<Rightarrow> Inr (sb_buffer s3, ())
                   | Some h \<Rightarrow> bindE (AEADSecretBody_data_tag s3) (\<lambda>dt.
                       bindE (SecretTailMut_set_finger s3 (calculate_finger sha h head_tag dt))
                         (\<lambda>s4. Inr (sb_buffer s4, ()))))))))))"

definition ChaCha20Poly1305_encrypt_ipv4 ::
  "aead \<Rightarrow> hash \<Rightarrow> u8 list option \<Rightarrow> u8 list \<Rightarrow> net_packet \<Rightarrow> net_packet res" where
  "ChaCha20Poly1305_encrypt_ipv4 A sha finger random p =
     bindE (NetPacket_head_tag p) (\<lambda>head_tag.
       let data_len = np_data_len p in
       bindE (if finger \<noteq> None
              then NetPacket_set_data_len p (data_len + TAG_RESERVED + RANDOM_RESERVED + FINGER_RESERVED)
              else NetPacket_set_data_len p (data_len + TAG_RESERVED + RANDOM_RESERVED)) (\<lambda>p1.
         bindE (in_payload p1 (poly_seal A sha finger head_tag random))
           (\<lambda>(p2, _). NetPacket_set_encrypt_flag p2 True)))"

definition poly_open :: "aead \<Rightarrow> hash \<Rightarrow> u8 list option \<Rightarrow> u8 list \<Rightarrow> u8 list \<Rightarrow> (u8 list \<times> nat) res" where
  "poly_open A sha finger head_tag pl =
     bindE (AEADSecretBody_new pl (finger \<noteq> None)) (\<lambda>s. bindE (AEADSecretBody_data_tag s) (\<lambda>dt.
       bindE (SecretTail_finger s) (\<lambda>stored.
         if (case finger of None \<Rightarrow> False | Some h \<Rightarrow> calculate_finger sha h head_tag dt \<noteq> stored)
         then Inl (Anyhow ''ring CHACHA20_POLY1305 finger err'')
         else bindE (SecretTail_random_buf s) (\<lambda>random.
           (case ae_open A (gen_nonce head_tag random) dt of
              None \<Rightarrow> Inl (Anyhow ''decrypt'')
            | Some b \<Rightarrow> bindE (AEADSecretBody_data_tag_mut s b) (\<lambda>s'.
                bindE (AEADSecretBody_data s') (\<lambda>d. Inr (sb_buffer s', length d))))))))"

definition ChaCha20Poly1305_decrypt_ipv4 :: "aead \<Rightarrow> hash \<Rightarrow> u8 list option \<Rightarrow> net_packet \<Rightarrow> net_packet res" where
  "ChaCha20Poly1305_decrypt_ipv4 A sha finger p =
     bindE (NetPacket_is_encrypt p) (\<lambda>en.
       if \<not> en then Inl (Anyhow ''not encrypt'')
       else bindE (NetPacket_payload p) (\<lambda>pl.
         if length pl < TAG_RESERVED then Inl (Anyhow ''data err'')
         else bindE (NetPacket_head_tag p) (\<lambda>head_tag.
           bindE (in_payload p (poly_open A sha finger head_tag)) (\<lambda>(p1, len).
             bindE (NetPacket_set_encrypt_flag p1 False) (\<lambda>p2. NetPacket_set_payload_len p2 len)))))"

section \<open>ChaCha20\<close>

type_synonym keystream = "u8 list \<Rightarrow> u8 list \<Rightarrow> u8 list"

definition stream_laws :: "keystream \<Rightarrow> bool" where
  "stream_laws ks \<longleftrightarrow> (\<forall>n d. length (ks n d) = length d \<and> ks n (ks n d) = d)"

definition chacha_seal :: "keystream \<Rightarrow> hash \<Rightarrow> u8 list option \<Rightarrow> u8 list \<Rightarrow> u8 list \<Rightarrow> u8 list \<Rightarrow> (u8 list \<times> unit) res" where
  "chacha_seal ks sha finger head_tag random pl =
     bindE (IVSecretBody_new pl (finger \<noteq> None)) (\<lambda>s0.
       let nonce = gen_nonce head_tag random in
       bindE (SecretTailMut_set_random s0 random) (\<lambda>s1. bindE (IVSecretBody_data s1) (\<lambda>d.
         bindE (IVSecretBody_data_mut s1 (ks nonce d)) (\<lambda>s2.
           (case finger of
              None \<Rightarrow> Inr (sb_buffer s2, ())
            | Some h \<Rightarrow> bindE (IVSecretBody_data s2) (\<lambda>ct.
                bindE (IVSecretBody_new (sb_buffer s2) True) (\<lambda>s3.
                  bindE (SecretTailMut_set_finger s3 (calculate_finger sha h head_tag ct))
                    (\<lambda>s4. Inr (sb_buffer s4, ())))))))))"

definition ChaCha20_encrypt_ipv4 ::
  "keystream \<Rightarrow> hash \<Rightarrow> u8 list option \<Rightarrow> u8 list \<Rightarrow> net_packet \<Rightarrow> net_packet res" where
  "ChaCha20_encrypt_ipv4 ks sha finger random p =
     (let data_len = np_data_len p in
      bindE (NetPacket_head_tag p) (\<lambda>head_tag.
        bindE (if finger \<noteq> None
               then NetPacket_set_data_len p (data_len + RANDOM_RESERVED + FINGER_RESERVED)
               else NetPacket_set_data_len p (data_len + RANDOM_RESERVED)) (\<lambda>p1.
          bindE (in_payload p1 (chacha_seal ks sha finger head_tag random))
            (\<lambda>(p2, _). NetPacket_set_encrypt_flag p2 True))))"

definition chacha_open :: "keystream \<Rightarrow> hash \<Rightarrow> u8 list option \<Rightarrow> u8 list \<Rightarrow> u8 list \<Rightarrow> (u8 list \<times> nat) res" where
  "chacha_open ks sha finger head_tag pl =
     bindE (IVSecretBody_new pl (finger \<noteq> None)) (\<lambda>s. bindE (IVSecretBody_data s) (\<lambda>d.
       bindE (SecretTail_finger s) (\<lambda>stored.
         if (case finger of None \<Rightarrow> False | Some h \<Rightarrow> calculate_finger sha h head_tag d \<noteq> stored)
         then Inl (Anyhow ''ChaCha20 finger err'')
         else bindE (SecretTail_random_buf s) (\<lambda>random.
           bindE (IVSecretBody_data_mut s (ks (gen_nonce head_tag random) d)) (\<lambda>s'.
             bindE (IVSecretBody_data s') (\<lambda>d'. Inr (sb_buffer s', length d')))))))"

definition ChaCha20_decrypt_ipv4 :: "keystream \<Rightarrow> hash \<Rightarrow> u8 list option \<Rightarrow> net_packet \<Rightarrow> net_packet res" where
  "ChaCha20_decrypt_ipv4 ks sha finger p =
     bindE (NetPacket_is_encrypt p) (\<lambda>en.
       if \<not> en then Inl (Anyhow ''not encrypt'')
       else bindE (NetPacket_head_tag p) (\<lambda>head_tag.
         bindE (in_payload p (chacha_open ks sha finger head_tag)) (\<lambda>(p1, len).
           bindE (NetPacket_set_encrypt_flag p1 False) (\<lambda>p2. NetPacket_set_payload_len p2 len))))"

section \<open>Packets seen through their fields\<close>

definition tag_of :: "np_fields \<Rightarrow> u8 list" where
  "tag_of f = octets (f_source f) @ octets (f_destination f) @
     [f_protocol f, f_transport f, if f_gateway f then 1 else 0, f_source_ttl f]"

lemma tag_of_update [simp]:
  "tag_of (f\<lparr>f_payload := pl\<rparr>) = tag_of f" "tag_of (f\<lparr>f_encrypt := e\<rparr>) = tag_of f"
  by (simp_all add: tag_of_def)

lemma length_tag_of [simp]: "length (tag_of f) = 12"
  by (simp add: tag_of_def)

lemma head_tag_eq: "np_ok p \<Longrightarrow> NetPacket_head_tag p = Inr (tag_of (np_abs p))"
proof -
  assume ok: "np_ok p"
  note l = np_okD[OF ok]
  have n: "take 4 (drop 4 (take (np_data_len p) (np_buffer p)))
      = [np_buffer p ! 4, np_buffer p ! 5, np_buffer p ! 6, np_buffer p ! 7]"
    "take 4 (drop 8 (take (np_data_len p) (np_buffer p)))
      = [np_buffer p ! 8, np_buffer p ! 9, np_buffer p ! 10, np_buffer p ! 11]"
    using l slice_eq_nths4[of 4 "take (np_data_len p) (np_buffer p)"]
      slice_eq_nths4[of 8 "take (np_data_len p) (np_buffer p)"] by simp_all
  have "f_source (np_abs p) = Ipv4Addr_new (np_buffer p ! 4) (np_buffer p ! 5) (np_buffer p ! 6) (np_buffer p ! 7)"
    "f_destination (np_abs p) = Ipv4Addr_new (np_buffer p ! 8) (np_buffer p ! 9) (np_buffer p ! 10) (np_buffer p ! 11)"
    by (simp_all add: np_abs_def Let_def)
  then show ?thesis
    using l n by (simp add: NetPacket_head_tag_def np_get_buffer[OF ok] np_get[OF ok] slice_def tag_of_def
        protocol_code.to_of)
qed

text \<open>\<open>np_same_size p q\<close>: same data length, same buffer size, well-formed.\<close>

definition np_like :: "net_packet \<Rightarrow> net_packet \<Rightarrow> bool" where
  "np_like p q \<longleftrightarrow> np_ok q \<and> np_data_len q = np_data_len p \<and> length (np_buffer q) = length (np_buffer p)"

lemma in_payload_ok:
  assumes "np_ok p" "f (f_payload (np_abs p)) = Inr (pl, x)" "length pl = np_data_len p - 12"
  obtains q where "in_payload p f = Inr (q, x)" "np_like p q" "np_abs q = (np_abs p)\<lparr>f_payload := pl\<rparr>"
proof -
  obtain q where q: "NetPacket_set_payload p pl = Inr q" "np_ok q" "np_abs q = (np_abs p)\<lparr>f_payload := pl\<rparr>"
    "np_data_len q = np_data_len p" "length (np_buffer q) = length (np_buffer p)"
    using NetPacket_set_payload_ok[OF assms(1,3)] by (rule np_updatesE)
  from q(1) assms(1,3) have "bindE (copy_range (np_buffer p) 12 (np_data_len p) pl)
      (\<lambda>b. Inr (p\<lparr>np_buffer := b\<rparr>, x)) = Inr (q, x)"
    by (auto simp: NetPacket_set_payload_def mapE_def bindE_Inr_iff split: if_splits)
  with assms(2) np_get(11)[OF assms(1)] have "in_payload p f = Inr (q, x)" by (simp add: in_payload_def)
  with q show ?thesis by (intro that) (auto simp: np_like_def)
qed

lemma grow_payload:
  assumes "np_ok p" "np_data_len p + k \<le> length (np_buffer p)"
  obtains q st where "NetPacket_set_data_len p (np_data_len p + k) = Inr q" "np_ok q" "length st = k"
    "np_abs q = (np_abs p)\<lparr>f_payload := f_payload (np_abs p) @ st\<rparr>"
    "np_data_len q = np_data_len p + k" "length (np_buffer q) = length (np_buffer p)"
proof -
  let ?n = "np_data_len p + k" let ?q = "p\<lparr>np_data_len := ?n\<rparr>"
  let ?st = "take k (drop (np_data_len p) (np_buffer p))"
  note l = np_okD[OF assms(1)]
  have "take (?n - 12) (drop 12 (np_buffer p)) = f_payload (np_abs p) @ ?st"
    using l take_add[of "np_data_len p - 12" k "drop 12 (np_buffer p)"]
    by (simp add: np_abs_def Let_def)
  then show ?thesis
    using NetPacket_set_data_len_abs[OF assms(1), of ?n] assms l
    by (intro that[of ?q ?st]) (auto simp: NetPacket_set_data_len_Inr_iff)
qed

lemma shrink_payload:
  assumes "np_ok p" "n \<le> length (f_payload (np_abs p))"
  obtains q where "NetPacket_set_payload_len p n = Inr q" "NetPacket_set_data_len p (12 + n) = Inr q"
    "np_ok q" "np_abs q = (np_abs p)\<lparr>f_payload := take n (f_payload (np_abs p))\<rparr>"
proof -
  note l = np_okD[OF assms(1)]
  have n: "12 + n \<le> length (np_buffer p)" using assms l by (auto simp: length_f_payload)
  have m: "n \<le> np_data_len p - 12" using assms by (simp add: length_f_payload)
  have "take n (drop 12 (np_buffer p)) = take n (f_payload (np_abs p))"
    using m by (simp add: np_abs_def Let_def min_def)
  then show ?thesis
    using NetPacket_set_data_len_abs[OF assms(1), of "12 + n"] n
    by (intro that[of "p\<lparr>np_data_len := 12 + n\<rparr>"])
      (auto simp: NetPacket_set_data_len_Inr_iff NetPacket_set_payload_len_def HEAD_LEN_def)
qed

lemma set_encrypt:
  assumes "np_ok p"
  obtains q where "NetPacket_set_encrypt_flag p e = Inr q" "np_like p q" "np_abs q = (np_abs p)\<lparr>f_encrypt := e\<rparr>"
  using np_set(1)[OF assms, of e] by (auto elim!: np_updatesE simp: np_like_def)

section \<open>The bodies round-trip\<close>

lemma length_calculate_finger [simp]: "sha_laws sha \<Longrightarrow> length (calculate_finger sha h n b) = 12"
  by (simp add: calculate_finger_def sha_laws_def)

definition finger_for :: "hash \<Rightarrow> u8 list option \<Rightarrow> u8 list \<Rightarrow> u8 list \<Rightarrow> u8 list option" where
  "finger_for sha finger nonce b = map_option (\<lambda>h. calculate_finger sha h nonce b) finger"

lemma finger_for_ok: "sha_laws sha \<Longrightarrow> finger_ok (finger_for sha finger nonce b)"
  by (auto simp: finger_for_def finger_ok_def split: option.splits)

lemma aead_lawsE:
  assumes "aead_laws A"
  obtains c t b where "ae_seal A n d = Some (c, t)" "length c = length d" "length t = 16"
    "ae_open A n (c @ t) = Some b" "length b = length d + 16" "take (length d) b = d"
  using assms unfolding aead_laws_def by blast

lemma gcm_roundtrip:
  assumes A: "aead_laws A" and S: "sha_laws sha" and st: "length st = 32"
    and fit: "length d + 32 \<le> MAX_UDP_BODY"
  obtains ct tg where
    "gcm_seal A sha finger nonce r (d @ st) = Inr (ct @ tg @ finger_bytes (finger_for sha finger nonce (ct @ tg)), ())"
    "length (ct @ tg @ finger_bytes (finger_for sha finger nonce (ct @ tg))) = length d + 32"
    and "\<exists>u. gcm_open A sha finger nonce (ct @ tg @ finger_bytes (finger_for sha finger nonce (ct @ tg))) = Inr (d @ u, ())
      \<and> length u = 32"
proof -
  obtain x r0 t g where sp: "st = x @ r0 @ t @ g" "length r0 = 4" "length t = 16"
    "length g = (if finger = None then 0 else 12)" "length x = (if finger = None then 12 else 0)"
  proof -
    let ?k = "if finger = None then 12 else (0::nat)"
    have "?k \<le> length st" using st by simp
    then obtain x t1 where 1: "st = x @ t1" "length x = ?k" using split_head by blast
    obtain r0 t2 where 2: "t1 = r0 @ t2" "length r0 = 4" using split_head[of 4 t1] st 1 by (auto split: if_splits)
    obtain t g where 3: "t2 = t @ g" "length t = 16" using split_head[of 16 t2] st 1 2 by (auto split: if_splits)
    show ?thesis using st 1 2 3 by (intro that[of x r0 t g]) auto
  qed
  let ?f = "map_option (\<lambda>_. g) finger"
  have f: "finger_ok ?f" using sp(4) by (auto simp: finger_ok_def split: option.splits)
  have new: "SecretBody_new (d @ st) (finger \<noteq> None) = Inr (sb_of (d @ x @ r0 @ t) ?f)"
    using st fit sp by (cases finger) (auto simp: SecretBody_new_def sb_of_def)
  let ?body = "d @ x @ be32_bytes r"
  obtain ct tg b where s: "ae_seal A nonce ?body = Some (ct, tg)" "length ct = length ?body" "length tg = 16"
    "ae_open A nonce (ct @ tg) = Some b" "length b = length ?body + 16" "take (length ?body) b = ?body"
    using aead_lawsE[OF A, of nonce ?body] by blast
  let ?g = "finger_for sha finger nonce (ct @ tg)"
  note gok = finger_for_ok[OF S, of finger nonce "ct @ tg"]
  have s1: "SecretBody_set_random (sb_of (d @ x @ r0 @ t) ?f) r = Inr (sb_of (?body @ t) ?f)"
    using secret_before_of(2)[OF f sp(3,2), of "be32_bytes r" "d @ x"] by (simp add: SecretBody_set_random_def)
  have s2: "SecretBody_body (sb_of (?body @ t) ?f) = Inr ?body"
    "SecretBody_body_mut (sb_of (?body @ t) ?f) ct = Inr (sb_of (ct @ t) ?f)"
    using secret_prefix_of(1)[OF f sp(3), of ?body] secret_prefix_of(2)[OF f sp(3), of ct ?body] s(2) by (simp_all add: SecretBody_body_def SecretBody_body_mut_def)
  have s3: "SecretBody_set_tag (sb_of (ct @ t) ?f) tg = Inr (sb_of (ct @ tg) ?f)"
    using secret_before_of(2)[OF f, of "[]" 0 t 16 tg ct] sp(3) s(3) by (simp add: SecretBody_set_tag_def)
  have en: "SecretBody_en_body (sb_of (ct @ tg) h) = Inr (ct @ tg)" if "finger_ok h" for h
    using secret_prefix_of(1)[OF that, of "[]" 0 "ct @ tg"] by (simp add: SecretBody_en_body_def)
  have seal: "gcm_seal A sha finger nonce r (d @ st) = Inr (ct @ tg @ finger_bytes ?g, ())"
    unfolding gcm_seal_def new bindE_simps s1 s2
    using s(1,3) s2(2) s3 en[OF f] set_finger_of(1)[of g "calculate_finger sha h nonce (ct @ tg)" "ct @ tg" for h] sp(4) S
    by (cases finger) (auto simp: finger_for_def finger_bytes_def)
  have lg: "length (finger_bytes ?g) = length g"
    using sp(4) S by (cases finger) (auto simp: finger_for_def finger_bytes_def)
  have len: "length (ct @ tg @ finger_bytes ?g) = length d + 32"
    using s(2,3) lg st sp by simp
  have new2: "SecretBody_new (ct @ tg @ finger_bytes ?g) (finger \<noteq> None) = Inr (sb_of (ct @ tg) ?g)"
    using len fit by (cases finger) (auto simp: SecretBody_new_def sb_of_def finger_for_def finger_bytes_def)
  have mut: "SecretBody_en_body_mut (sb_of (ct @ tg) ?g) b = Inr (sb_of b ?g)"
    using secret_prefix_of(2)[OF gok, of "[]" 0 b "ct @ tg"] s by (simp add: SecretBody_en_body_mut_def)
  have "gcm_open A sha finger nonce (ct @ tg @ finger_bytes ?g) = Inr (b @ finger_bytes ?g, ())"
    unfolding gcm_open_def new2 bindE_simps en[OF gok] sb_of_finger(2)[OF gok]
    using s(4) mut by (cases finger) (auto simp: finger_for_def finger_bytes_def)
  moreover have "b = ?body @ drop (length ?body) b" using s(6) by (metis append_take_drop_id)
  moreover have "length (x @ be32_bytes r @ drop (length ?body) b @ finger_bytes ?g) = 32"
    using s(5) lg st sp by simp
  ultimately have "\<exists>u. gcm_open A sha finger nonce (ct @ tg @ finger_bytes ?g) = Inr (d @ u, ()) \<and> length u = 32"
    by (intro exI[of _ "x @ be32_bytes r @ drop (length ?body) b @ finger_bytes ?g"])
      (metis append_assoc)
  then show ?thesis using seal len by (intro that)
qed

lemma poly_roundtrip:
  assumes A: "aead_laws A" and S: "sha_laws sha" and st: "length st = (if finger = None then 20 else 32)"
    and fit: "length d + 32 \<le> MAX_UDP_BODY" and r: "length r = 4"
  obtains ct tg where
    "poly_seal A sha finger ht r (d @ st) = Inr (ct @ tg @ r @ finger_bytes (finger_for sha finger ht (ct @ tg)), ())"
    "length (ct @ tg @ r @ finger_bytes (finger_for sha finger ht (ct @ tg))) = length d + length st"
    and "\<exists>u. poly_open A sha finger ht (ct @ tg @ r @ finger_bytes (finger_for sha finger ht (ct @ tg)))
      = Inr (d @ u, length d) \<and> length u = length st"
proof -
  obtain t r0 g where sp: "st = t @ r0 @ g" "length t = 16" "length r0 = 4"
    "length g = (if finger = None then 0 else 12)"
  proof -
    obtain t t1 where 1: "st = t @ t1" "length t = 16" using split_head[of 16 st] st by (auto split: if_splits)
    obtain r0 g where 2: "t1 = r0 @ g" "length r0 = 4" using split_head[of 4 t1] st 1 by (auto split: if_splits)
    show ?thesis using st 1 2 by (intro that[of t r0 g]) auto
  qed
  let ?f = "map_option (\<lambda>_. g) finger"
  have f: "finger_ok ?f" using sp(4) by (auto simp: finger_ok_def split: option.splits)
  have new: "AEADSecretBody_new (d @ st) (finger \<noteq> None) = Inr (sb_of (d @ t @ r0) ?f)"
    using fit sp by (cases finger) (auto simp: AEADSecretBody_new_def sb_of_def TAG_RESERVED_def
        RANDOM_RESERVED_def FINGER_RESERVED_def)
  let ?n = "gen_nonce ht r"
  obtain ct tg b where s: "ae_seal A ?n d = Some (ct, tg)" "length ct = length d" "length tg = 16"
    "ae_open A ?n (ct @ tg) = Some b" "length b = length d + 16" "take (length d) b = d"
    using aead_lawsE[OF A, of ?n d] by blast
  let ?g = "finger_for sha finger ht (ct @ tg)"
  note gok = finger_for_ok[OF S, of finger ht "ct @ tg"]
  have tr: "length (t @ r) = 20" using sp r by simp
  have s1: "SecretTailMut_set_random (sb_of (d @ t @ r0) ?f) r = Inr (sb_of (d @ t @ r) ?f)"
    using secret_before_of(2)[OF f, of "[]" 0 r0 4 r "d @ t"] sp r
    by (simp add: SecretTailMut_set_random_def RANDOM_RESERVED_def)
  have s2: "AEADSecretBody_data (sb_of (d @ t @ r) ?f) = Inr d"
    "AEADSecretBody_data_mut (sb_of (d @ t @ r) ?f) ct = Inr (sb_of (ct @ t @ r) ?f)"
    using secret_prefix_of(1)[OF f tr, of d] secret_prefix_of(2)[OF f tr, of ct d] s(2)
    by (simp_all add: AEADSecretBody_data_def AEADSecretBody_data_mut_def TAG_RESERVED_def RANDOM_RESERVED_def)
  have s3: "AEADSecretBody_set_tag (sb_of (ct @ t @ r) ?f) tg = Inr (sb_of (ct @ tg @ r) ?f)"
    using secret_before_of(2)[OF f r, of t 16 tg ct] sp(2) s(3)
    by (simp add: AEADSecretBody_set_tag_def TAG_RESERVED_def RANDOM_RESERVED_def)
  have dt: "AEADSecretBody_data_tag (sb_of (ct @ tg @ r) h) = Inr (ct @ tg)" if "finger_ok h" for h
    using secret_prefix_of(1)[OF that r, of "ct @ tg"] by (simp add: AEADSecretBody_data_tag_def RANDOM_RESERVED_def)
  have seal: "poly_seal A sha finger ht r (d @ st) = Inr (ct @ tg @ r @ finger_bytes ?g, ())"
    unfolding poly_seal_def new bindE_simps Let_def s1 s2(1)
    using s(1,3) s2(2) s3 dt[OF f] set_finger_of(2)[of g "calculate_finger sha h ht (ct @ tg)" "ct @ tg @ r" for h] sp(4) S
    by (cases finger) (auto simp: finger_for_def finger_bytes_def)
  have lg: "length (finger_bytes ?g) = length g"
    using sp(4) S by (cases finger) (auto simp: finger_for_def finger_bytes_def)
  have len: "length (ct @ tg @ r @ finger_bytes ?g) = length d + length st"
    using s(2,3) lg sp r by simp
  have new2: "AEADSecretBody_new (ct @ tg @ r @ finger_bytes ?g) (finger \<noteq> None) = Inr (sb_of (ct @ tg @ r) ?g)"
    using len st fit by (cases finger) (auto simp: AEADSecretBody_new_def sb_of_def finger_for_def finger_bytes_def
        TAG_RESERVED_def RANDOM_RESERVED_def FINGER_RESERVED_def)
  have mut: "AEADSecretBody_data_tag_mut (sb_of (ct @ tg @ r) ?g) b = Inr (sb_of (b @ r) ?g)"
    using secret_prefix_of(2)[OF gok r, of b "ct @ tg"] s
    by (simp add: AEADSecretBody_data_tag_mut_def RANDOM_RESERVED_def)
  have b: "b = d @ drop (length d) b" using s(6) by (metis append_take_drop_id)
  have ld: "length (drop (length d) b @ r) = 20" using s(5) r by simp
  have dd: "AEADSecretBody_data (sb_of (b @ r) ?g) = Inr d"
    using secret_prefix_of(1)[OF gok ld, of d] b
    by (simp add: AEADSecretBody_data_def TAG_RESERVED_def RANDOM_RESERVED_def flip: append_assoc)
  have rb: "SecretTail_random_buf (sb_of (ct @ tg @ r) ?g) = Inr r"
    using secret_before_of(1)[OF gok, of "[]" 0 r 4 "ct @ tg"] r
    by (simp add: SecretTail_random_buf_def RANDOM_RESERVED_def)
  have "poly_open A sha finger ht (ct @ tg @ r @ finger_bytes ?g) = Inr ((b @ r) @ finger_bytes ?g, length d)"
    unfolding poly_open_def new2 bindE_simps dt[OF gok] sb_of_finger(1)[OF gok] rb
    using s(4) mut dd by (cases finger) (auto simp: finger_for_def finger_bytes_def)
  moreover have "(b @ r) @ finger_bytes ?g = d @ (drop (length d) b @ r @ finger_bytes ?g)"
    using b by (metis append_assoc)
  moreover have "length (drop (length d) b @ r @ finger_bytes ?g) = length st" using s(5) lg sp r by simp
  ultimately have "\<exists>u. poly_open A sha finger ht (ct @ tg @ r @ finger_bytes ?g) = Inr (d @ u, length d) \<and>
      length u = length st" by metis
  then show ?thesis using seal len by (intro that)
qed

lemma chacha_roundtrip:
  assumes K: "stream_laws ks" and S: "sha_laws sha" and st: "length st = (if finger = None then 4 else 16)"
    and fit: "length d + 16 \<le> MAX_UDP_BODY" and r: "length r = 4"
    and ct: "ct = ks (gen_nonce ht r) d"
  shows "chacha_seal ks sha finger ht r (d @ st) = Inr (ct @ r @ finger_bytes (finger_for sha finger ht ct), ())"
    and "length (ct @ r @ finger_bytes (finger_for sha finger ht ct)) = length d + length st"
    and "length r' = 4 \<Longrightarrow> chacha_open ks sha finger ht (ct @ r' @ finger_bytes (finger_for sha finger ht ct))
      = Inr (ks (gen_nonce ht r') ct @ r' @ finger_bytes (finger_for sha finger ht ct), length d)"
proof -
  obtain r0 g where sp: "st = r0 @ g" "length r0 = 4" "length g = (if finger = None then 0 else 12)"
    using split_head[of 4 st] st by (auto split: if_splits)
  let ?f = "map_option (\<lambda>_. g) finger"
  have f: "finger_ok ?f" using sp(3) by (auto simp: finger_ok_def split: option.splits)
  have lk: "length (ks n x) = length x" for n x using K by (simp add: stream_laws_def)
  have lc: "length ct = length d" by (simp add: ct lk)
  have new: "IVSecretBody_new (d @ st) (finger \<noteq> None) = Inr (sb_of (d @ r0) ?f)"
    using fit sp by (cases finger) (auto simp: IVSecretBody_new_def sb_of_def RANDOM_RESERVED_def FINGER_RESERVED_def)
  let ?g = "finger_for sha finger ht ct"
  note gok = finger_for_ok[OF S, of finger ht ct]
  have s1: "SecretTailMut_set_random (sb_of (d @ r0) ?f) r = Inr (sb_of (d @ r) ?f)"
    using secret_before_of(2)[OF f, of "[]" 0 r0 4 r d] sp r
    by (simp add: SecretTailMut_set_random_def RANDOM_RESERVED_def)
  have data: "IVSecretBody_data (sb_of (x @ y) h) = Inr x" if "finger_ok h" "length y = 4" for x y h
    using secret_prefix_of(1)[OF that, of x] by (simp add: IVSecretBody_data_def RANDOM_RESERVED_def)
  have mut: "IVSecretBody_data_mut (sb_of (x @ y) h) v = Inr (sb_of (v @ y) h)"
    if "finger_ok h" "length y = 4" "length v = length x" for x y h v
    using secret_prefix_of(2)[OF that(1,2), of v x] that(3) by (simp add: IVSecretBody_data_mut_def RANDOM_RESERVED_def)
  have again: "IVSecretBody_new (ct @ r @ g) True = Inr (sb_of (ct @ r) (Some g))" if "finger \<noteq> None"
    using that fit sp r lc by (auto simp: IVSecretBody_new_def sb_of_def RANDOM_RESERVED_def FINGER_RESERVED_def)
  show seal: "chacha_seal ks sha finger ht r (d @ st) = Inr (ct @ r @ finger_bytes ?g, ())"
    unfolding chacha_seal_def new bindE_simps Let_def s1 data[OF f r] ct[symmetric]
    using again mut[OF f r lc] set_finger_of(2)[of g "calculate_finger sha h ht ct" "ct @ r" for h] sp(3) S r
      data[of "Some g" r ct]
    by (cases finger) (auto simp: finger_for_def finger_bytes_def finger_ok_def)
  have lg: "length (finger_bytes ?g) = length g"
    using sp(3) S by (cases finger) (auto simp: finger_for_def finger_bytes_def)
  show len: "length (ct @ r @ finger_bytes ?g) = length d + length st" using lg sp r lc by simp
  assume r': "length r' = 4"
  have new2: "IVSecretBody_new (ct @ r' @ finger_bytes ?g) (finger \<noteq> None) = Inr (sb_of (ct @ r') ?g)"
    using fit lc r' S by (cases finger) (auto simp: IVSecretBody_new_def sb_of_def finger_for_def finger_bytes_def
        RANDOM_RESERVED_def FINGER_RESERVED_def)
  have rb: "SecretTail_random_buf (sb_of (ct @ r') ?g) = Inr r'"
    using secret_before_of(1)[OF gok, of "[]" 0 r' 4 ct] r'
    by (simp add: SecretTail_random_buf_def RANDOM_RESERVED_def)
  show "chacha_open ks sha finger ht (ct @ r' @ finger_bytes ?g)
      = Inr (ks (gen_nonce ht r') ct @ r' @ finger_bytes ?g, length d)"
    unfolding chacha_open_def new2 bindE_simps data[OF gok r'] sb_of_finger(1)[OF gok] rb mut[OF gok r' lk]
    by (cases finger) (auto simp: finger_for_def finger_bytes_def lk lc)
qed

section \<open>Packets round-trip\<close>

text \<open>The encryption side shared by the three ciphers: grow by \<open>k\<close>, seal in place, set the flag.\<close>

lemma seal_packet:
  assumes ok: "np_ok p" and k: "np_data_len p + k \<le> length (np_buffer p)"
    and seal: "\<And>st. length st = k \<Longrightarrow> \<exists>pl. f (f_payload (np_abs p) @ st) = Inr (pl, ()) \<and>
      length pl = length (f_payload (np_abs p)) + k \<and> P pl"
  obtains q pl where "bindE (NetPacket_set_data_len p (np_data_len p + k))
      (\<lambda>p1. bindE (in_payload p1 f) (\<lambda>(p2, _). NetPacket_set_encrypt_flag p2 True)) = Inr q"
    "np_ok q" "np_abs q = (np_abs p)\<lparr>f_payload := pl, f_encrypt := True\<rparr>" "P pl"
    "np_data_len q = np_data_len p + k" "length pl = length (f_payload (np_abs p)) + k"
proof -
  obtain p1 st where p1: "NetPacket_set_data_len p (np_data_len p + k) = Inr p1" "np_ok p1" "length st = k"
    "np_abs p1 = (np_abs p)\<lparr>f_payload := f_payload (np_abs p) @ st\<rparr>" "np_data_len p1 = np_data_len p + k"
    using grow_payload[OF ok k] by metis
  obtain pl where pl: "f (f_payload (np_abs p1)) = Inr (pl, ())" "P pl"
    "length pl = length (f_payload (np_abs p)) + k" using seal[OF p1(3)] p1(4) by auto
  have "length pl = np_data_len p1 - 12" using pl(3) p1(5) np_okD[OF ok] by (simp add: length_f_payload ok)
  then obtain p2 where p2: "in_payload p1 f = Inr (p2, ())" "np_like p1 p2" "np_abs p2 = (np_abs p1)\<lparr>f_payload := pl\<rparr>"
    using in_payload_ok[where f = f, OF p1(2) pl(1)] by metis
  then have "np_ok p2" by (simp add: np_like_def)
  then obtain q where "NetPacket_set_encrypt_flag p2 True = Inr q" "np_like p2 q" "np_abs q = (np_abs p2)\<lparr>f_encrypt := True\<rparr>"
    using set_encrypt by blast
  with p1 p2 pl show ?thesis by (intro that[of q pl]) (auto simp: np_like_def)
qed

text \<open>The decryption side: open in place, clear the flag, keep the first \<open>n\<close> bytes.\<close>

lemma open_packet:
  assumes ok: "np_ok q" and op: "f (f_payload (np_abs q)) = Inr (d @ u, x)"
    and l: "length (d @ u) = np_data_len q - 12"
  obtains p1 p2 r where "in_payload q f = Inr (p1, x)" "NetPacket_set_encrypt_flag p1 False = Inr p2"
    "np_data_len p2 = np_data_len q" "NetPacket_set_payload_len p2 (length d) = Inr r"
    "NetPacket_set_data_len p2 (12 + length d) = Inr r" "np_ok r"
    "np_abs r = (np_abs q)\<lparr>f_payload := d, f_encrypt := False\<rparr>"
proof -
  obtain p1 where p1: "in_payload q f = Inr (p1, x)" "np_like q p1" "np_abs p1 = (np_abs q)\<lparr>f_payload := d @ u\<rparr>"
    using in_payload_ok[where f = f, OF ok op l] .
  then have "np_ok p1" by (simp add: np_like_def)
  then obtain p2 where p2: "NetPacket_set_encrypt_flag p1 False = Inr p2" "np_like p1 p2"
    "np_abs p2 = (np_abs p1)\<lparr>f_encrypt := False\<rparr>" using set_encrypt by blast
  then have ok2: "np_ok p2" "f_payload (np_abs p2) = d @ u" using p1(3) by (auto simp: np_like_def)
  obtain r where "NetPacket_set_payload_len p2 (length d) = Inr r" "NetPacket_set_data_len p2 (12 + length d) = Inr r"
    "np_ok r" "np_abs r = (np_abs p2)\<lparr>f_payload := d\<rparr>"
    using shrink_payload[OF ok2(1), of "length d"] ok2(2) by auto
  with p1 p2 show ?thesis by (intro that[of p1 p2 r]) (auto simp: np_like_def)
qed

definition fits_by :: "nat \<Rightarrow> net_packet \<Rightarrow> bool" where
  "fits_by k p \<longleftrightarrow> np_data_len p + k \<le> length (np_buffer p) \<and> np_data_len p + k \<le> MAX_UDP_BODY + 12"

text \<open>
  The interface of a packet cipher: encryption succeeds on the packets it is meant for, keeps the
  header fields the finger covers, and decryption gives the packet back with the flag off.
\<close>

locale packet_cipher =
  fixes enc :: "u32 \<Rightarrow> net_packet \<Rightarrow> net_packet res" and dec :: "net_packet \<Rightarrow> net_packet res"
    and fits :: "net_packet \<Rightarrow> bool"
  assumes roundtrip: "np_ok p \<Longrightarrow> fits p \<Longrightarrow>
    \<exists>q r. enc rnd p = Inr q \<and> np_ok q \<and> tag_of (np_abs q) = tag_of (np_abs p) \<and>
      dec q = Inr r \<and> np_ok r \<and> np_abs r = (np_abs p)\<lparr>f_encrypt := False\<rparr>"
begin

lemma enc_determines:
  assumes "np_ok p" "fits p" "np_ok p'" "fits p'" "enc rnd p = enc rnd' p'"
  shows "(np_abs p)\<lparr>f_encrypt := False\<rparr> = (np_abs p')\<lparr>f_encrypt := False\<rparr>"
  using roundtrip[OF assms(1,2), of rnd] roundtrip[OF assms(3,4), of rnd'] assms(5) by auto

lemma enc_succeeds: "np_ok p \<Longrightarrow> fits p \<Longrightarrow> is_Ok (bindE (enc rnd p) dec)"
  using roundtrip[of p rnd] by auto

end

lemma length_xor_key [simp]: "length (xor_key key pl) = length pl"
  by (simp add: xor_key_def)

lemma xor_key_twice [simp]: "xor_key key (xor_key key pl) = pl"
  by (rule nth_equalityI) (simp_all add: xor_key_def xor.assoc)

interpretation xor_cipher: packet_cipher "\<lambda>_. XOR_encrypt_ipv4 key" "XOR_decrypt_ipv4 key" "\<lambda>_. True" for key
proof
  fix p assume ok: "np_ok p"
  obtain p1 where p1: "NetPacket_set_encrypt_flag p True = Inr p1" "np_like p p1"
    "np_abs p1 = (np_abs p)\<lparr>f_encrypt := True\<rparr>" using set_encrypt[OF ok] .
  let ?pl = "f_payload (np_abs p)" let ?c = "xor_key key ?pl"
  have l: "np_ok p1" "length ?pl = np_data_len p1 - 12" using p1 ok by (auto simp: np_like_def length_f_payload)
  obtain q where q: "in_payload p1 (\<lambda>pl. Inr (xor_key key pl, ())) = Inr (q, ())" "np_like p1 q"
    "np_abs q = (np_abs p1)\<lparr>f_payload := ?c\<rparr>"
    using in_payload_ok[OF l(1), of "\<lambda>pl. Inr (xor_key key pl, ())" ?c "()"] p1(3) l(2) by auto
  have okq: "np_ok q" "length ?pl = np_data_len q - 12" using q(2) l(2) by (auto simp: np_like_def)
  obtain p2 p3 r where r: "in_payload q (\<lambda>pl. Inr (xor_key key pl, ())) = Inr (p2, ())"
    "NetPacket_set_encrypt_flag p2 False = Inr p3" "np_like q p2" "np_like p2 p3"
    "np_abs p3 = (np_abs q)\<lparr>f_payload := ?pl, f_encrypt := False\<rparr>"
  proof -
    obtain p2 where 2: "in_payload q (\<lambda>pl. Inr (xor_key key pl, ())) = Inr (p2, ())" "np_like q p2"
      "np_abs p2 = (np_abs q)\<lparr>f_payload := ?pl\<rparr>"
      using in_payload_ok[OF okq(1), of "\<lambda>pl. Inr (xor_key key pl, ())" ?pl "()"] q(3) okq(2) by auto
    then have "np_ok p2" by (simp add: np_like_def)
    then obtain p3 where "NetPacket_set_encrypt_flag p2 False = Inr p3" "np_like p2 p3"
      "np_abs p3 = (np_abs p2)\<lparr>f_encrypt := False\<rparr>" using set_encrypt by blast
    with 2 show ?thesis by (intro that) auto
  qed
  have "f_encrypt (np_abs q)" using q(3) p1(3) by simp
  then have "XOR_decrypt_ipv4 key q = Inr p3"
    using r by (simp add: XOR_decrypt_ipv4_def np_get[OF okq(1)])
  moreover have "XOR_encrypt_ipv4 key p = Inr q" using p1 q by (simp add: XOR_encrypt_ipv4_def)
  moreover have "np_abs p3 = (np_abs p)\<lparr>f_encrypt := False\<rparr>" using r(5) q(3) p1(3) by simp
  ultimately show "\<exists>q r. XOR_encrypt_ipv4 key p = Inr q \<and> np_ok q \<and> tag_of (np_abs q) = tag_of (np_abs p) \<and>
      XOR_decrypt_ipv4 key q = Inr r \<and> np_ok r \<and> np_abs r = (np_abs p)\<lparr>f_encrypt := False\<rparr>"
    using okq(1) r(4) q(3) p1(3) by (auto simp: np_like_def)
qed

definition fits_gcm :: "aead \<Rightarrow> hash \<Rightarrow> net_packet \<Rightarrow> bool" where
  "fits_gcm A sha p \<longleftrightarrow> aead_laws A \<and> sha_laws sha \<and> fits_by 32 p"

lemma gcm_packet:
  assumes ok: "np_ok p" and fits: "fits_gcm A sha p"
  obtains q r ct tg where "AesGcm_encrypt_ipv4 A sha finger rnd p = Inr q" "np_ok q"
    "np_abs q = (np_abs p)\<lparr>f_payload := ct @ tg @ finger_bytes (finger_for sha finger (tag_of (np_abs p)) (ct @ tg)),
       f_encrypt := True\<rparr>"
    "AesGcm_decrypt_ipv4 A sha finger q = Inr r" "np_ok r" "np_abs r = (np_abs p)\<lparr>f_encrypt := False\<rparr>"
proof -
  let ?n = "tag_of (np_abs p)" let ?d = "f_payload (np_abs p)"
  note laws = fits[unfolded fits_gcm_def fits_by_def]
  have fit: "length ?d + 32 \<le> MAX_UDP_BODY" using laws np_okD[OF ok] by (auto simp: length_f_payload[OF ok])
  define P where "P pl \<longleftrightarrow> (\<exists>ct tg u. pl = ct @ tg @ finger_bytes (finger_for sha finger ?n (ct @ tg)) \<and>
    gcm_open A sha finger ?n pl = Inr (?d @ u, ()) \<and> length u = 32)" for pl
  have seal: "\<exists>pl. gcm_seal A sha finger ?n rnd (?d @ st) = Inr (pl, ()) \<and> length pl = length ?d + 32 \<and> P pl"
    if "length st = 32" for st
    using gcm_roundtrip[of A sha st ?d finger ?n rnd] laws that fit unfolding P_def by metis
  obtain q pl where q: "bindE (NetPacket_set_data_len p (np_data_len p + 32))
      (\<lambda>p1. bindE (in_payload p1 (gcm_seal A sha finger ?n rnd)) (\<lambda>(p2, _). NetPacket_set_encrypt_flag p2 True)) = Inr q"
    "np_ok q" "np_abs q = (np_abs p)\<lparr>f_payload := pl, f_encrypt := True\<rparr>" "P pl" "np_data_len q = np_data_len p + 32"
    "length pl = length ?d + 32"
    using seal_packet[where f = "gcm_seal A sha finger ?n rnd" and P = P, OF ok _ seal] laws by auto
  obtain ct tg u where pl: "pl = ct @ tg @ finger_bytes (finger_for sha finger ?n (ct @ tg))"
    "gcm_open A sha finger ?n pl = Inr (?d @ u, ())" "length u = 32" using q(4) by (auto simp: P_def)
  have l: "length (?d @ u) = np_data_len q - 12" using pl(3) q(5) np_okD[OF ok] by (auto simp: length_f_payload[OF ok])
  have tq: "tag_of (np_abs q) = ?n" using q(3) by simp
  have op: "gcm_open A sha finger ?n (f_payload (np_abs q)) = Inr (?d @ u, ())" using pl(2) q(3) by simp
  obtain p1 p2 r where r: "in_payload q (gcm_open A sha finger ?n) = Inr (p1, ())"
    "NetPacket_set_encrypt_flag p1 False = Inr p2" "np_data_len p2 = np_data_len q"
    "NetPacket_set_data_len p2 (12 + length ?d) = Inr r" "np_ok r"
    "np_abs r = (np_abs q)\<lparr>f_payload := ?d, f_encrypt := False\<rparr>"
    using open_packet[where f = "gcm_open A sha finger ?n", OF q(2) op l] by blast
  have dl: "np_data_len p2 - 32 = 12 + length ?d" using r(3) q(5) np_okD[OF ok] by (auto simp: length_f_payload[OF ok])
  have "AesGcm_decrypt_ipv4 A sha finger q = Inr r"
    using r(1,2,4) dl q(3,6) by (simp add: AesGcm_decrypt_ipv4_def np_get[OF q(2)] head_tag_eq[OF q(2)] tq
        AES_GCM_ENCRYPTION_RESERVED_def)
  moreover have "AesGcm_encrypt_ipv4 A sha finger rnd p = Inr q"
    using q(1) by (simp add: AesGcm_encrypt_ipv4_def head_tag_eq[OF ok] AES_GCM_ENCRYPTION_RESERVED_def)
  moreover have "np_abs r = (np_abs p)\<lparr>f_encrypt := False\<rparr>" using r(6) q(3) by simp
  ultimately show ?thesis using q(2,3) r(5) pl(1) by (intro that[of q ct tg r]) simp_all
qed

definition tail_len :: "nat \<Rightarrow> u8 list option \<Rightarrow> nat" where
  "tail_len k finger = (if finger = None then k else k + 12)"

definition fits_poly :: "aead \<Rightarrow> hash \<Rightarrow> net_packet \<Rightarrow> bool" where
  "fits_poly A sha p \<longleftrightarrow> aead_laws A \<and> sha_laws sha \<and> fits_by 32 p"

lemma poly_packet:
  assumes ok: "np_ok p" and fits: "fits_poly A sha p"
  obtains q r ct tg where "ChaCha20Poly1305_encrypt_ipv4 A sha finger (be32_bytes rnd) p = Inr q" "np_ok q"
    "np_abs q = (np_abs p)\<lparr>f_payload := ct @ tg @ be32_bytes rnd @
       finger_bytes (finger_for sha finger (tag_of (np_abs p)) (ct @ tg)), f_encrypt := True\<rparr>"
    "ChaCha20Poly1305_decrypt_ipv4 A sha finger q = Inr r" "np_ok r"
    "np_abs r = (np_abs p)\<lparr>f_encrypt := False\<rparr>"
proof -
  let ?n = "tag_of (np_abs p)" let ?d = "f_payload (np_abs p)" let ?r = "be32_bytes rnd"
  let ?k = "tail_len 20 finger" let ?sl = "poly_seal A sha finger ?n ?r" let ?op = "poly_open A sha finger ?n"
  note laws = fits[unfolded fits_poly_def fits_by_def]
  have k: "?k = (if finger = None then 20 else 32)" "16 \<le> ?k" "?k \<le> 32" by (auto simp: tail_len_def)
  have fit: "length ?d + 32 \<le> MAX_UDP_BODY" using laws np_okD[OF ok] by (auto simp: length_f_payload[OF ok])
  define P where "P pl \<longleftrightarrow> (\<exists>ct tg u. pl = ct @ tg @ ?r @ finger_bytes (finger_for sha finger ?n (ct @ tg)) \<and>
    ?op pl = Inr (?d @ u, length ?d) \<and> length u = ?k)" for pl
  have seal: "\<exists>pl. ?sl (?d @ st) = Inr (pl, ()) \<and> length pl = length ?d + ?k \<and> P pl"
    if "length st = ?k" for st
    using poly_roundtrip[of A sha st finger ?d ?r ?n] laws that k(1) fit unfolding P_def by (metis length_be_bytes(2))
  obtain q pl where q: "bindE (NetPacket_set_data_len p (np_data_len p + ?k))
      (\<lambda>p1. bindE (in_payload p1 ?sl) (\<lambda>(p2, _). NetPacket_set_encrypt_flag p2 True)) = Inr q"
    "np_ok q" "np_abs q = (np_abs p)\<lparr>f_payload := pl, f_encrypt := True\<rparr>" "P pl" "np_data_len q = np_data_len p + ?k"
    "length pl = length ?d + ?k"
    using seal_packet[where f = ?sl and P = P, OF ok _ seal] laws k(3) by auto
  obtain ct tg u where pl: "pl = ct @ tg @ ?r @ finger_bytes (finger_for sha finger ?n (ct @ tg))"
    "?op pl = Inr (?d @ u, length ?d)" "length u = ?k" using q(4) by (auto simp: P_def)
  have l: "length (?d @ u) = np_data_len q - 12" using pl(3) q(5) np_okD[OF ok] by (auto simp: length_f_payload[OF ok])
  have tq: "tag_of (np_abs q) = ?n" using q(3) by simp
  have op: "?op (f_payload (np_abs q)) = Inr (?d @ u, length ?d)" using pl(2) q(3) by simp
  obtain p1 p2 r where r: "in_payload q ?op = Inr (p1, length ?d)"
    "NetPacket_set_encrypt_flag p1 False = Inr p2" "NetPacket_set_payload_len p2 (length ?d) = Inr r" "np_ok r"
    "np_abs r = (np_abs q)\<lparr>f_payload := ?d, f_encrypt := False\<rparr>"
    using open_packet[where f = ?op, OF q(2) op l] by blast
  have "16 \<le> length pl" using q(6) k(2) by linarith
  then have "ChaCha20Poly1305_decrypt_ipv4 A sha finger q = Inr r"
    using r(1,2,3) q(3) by (simp add: ChaCha20Poly1305_decrypt_ipv4_def np_get[OF q(2)] head_tag_eq[OF q(2)] tq
        TAG_RESERVED_def)
  moreover have "ChaCha20Poly1305_encrypt_ipv4 A sha finger ?r p = Inr q"
    using q(1) by (cases finger) (simp_all add: ChaCha20Poly1305_encrypt_ipv4_def head_tag_eq[OF ok] Let_def
        tail_len_def TAG_RESERVED_def RANDOM_RESERVED_def FINGER_RESERVED_def add.commute)
  moreover have "np_abs r = (np_abs p)\<lparr>f_encrypt := False\<rparr>" using r(5) q(3) by simp
  ultimately show ?thesis using q(2,3) r(4) pl(1) by (intro that[of q ct tg r]) simp_all
qed

definition fits_chacha :: "keystream \<Rightarrow> hash \<Rightarrow> net_packet \<Rightarrow> bool" where
  "fits_chacha ks sha p \<longleftrightarrow> stream_laws ks \<and> sha_laws sha \<and> fits_by 16 p"

text \<open>The packet opened may carry other random bytes \<open>r'\<close> than the ones it was sealed with.\<close>

lemma chacha_packet:
  fixes ks sha finger p rnd
  defines "n \<equiv> tag_of (np_abs p)" and "d \<equiv> f_payload (np_abs p)"
  defines "ct \<equiv> ks (gen_nonce n (be32_bytes rnd)) d"
  defines "fb \<equiv> finger_bytes (finger_for sha finger n ct)"
  assumes ok: "np_ok p" and fits: "fits_chacha ks sha p"
  obtains q where "ChaCha20_encrypt_ipv4 ks sha finger (be32_bytes rnd) p = Inr q" "np_ok q"
    "np_abs q = (np_abs p)\<lparr>f_payload := ct @ be32_bytes rnd @ fb, f_encrypt := True\<rparr>"
    "\<And>q' r'. np_ok q' \<Longrightarrow> length r' = 4 \<Longrightarrow>
       np_abs q' = (np_abs p)\<lparr>f_payload := ct @ r' @ fb, f_encrypt := True\<rparr> \<Longrightarrow>
       \<exists>r. ChaCha20_decrypt_ipv4 ks sha finger q' = Inr r \<and> np_ok r \<and>
         np_abs r = (np_abs p)\<lparr>f_payload := ks (gen_nonce n r') ct, f_encrypt := False\<rparr>"
proof -
  let ?r = "be32_bytes rnd" let ?k = "tail_len 4 finger"
  let ?sl = "chacha_seal ks sha finger n ?r" let ?op = "chacha_open ks sha finger n"
  note laws = fits[unfolded fits_chacha_def fits_by_def]
  have k: "?k = (if finger = None then 4 else 16)" "?k \<le> 16" by (auto simp: tail_len_def)
  have fit: "length d + 16 \<le> MAX_UDP_BODY" using laws np_okD[OF ok] by (auto simp: length_f_payload[OF ok] d_def)
  note rt = chacha_roundtrip[of ks sha _ finger d ?r ct n, OF _ _ _ fit _ meta_eq_to_obj_eq[OF ct_def]]
  have seal: "\<exists>pl. ?sl (d @ st) = Inr (pl, ()) \<and> length pl = length d + ?k \<and> pl = ct @ ?r @ fb"
    if "length st = ?k" for st
    using rt(1,2)[of st] laws that k(1) unfolding fb_def by simp
  have kl: "np_data_len p + ?k \<le> length (np_buffer p)" using laws k(2) by linarith
  obtain q pl where q: "bindE (NetPacket_set_data_len p (np_data_len p + ?k))
      (\<lambda>p1. bindE (in_payload p1 ?sl) (\<lambda>(p2, _). NetPacket_set_encrypt_flag p2 True)) = Inr q"
    "np_ok q" "np_abs q = (np_abs p)\<lparr>f_payload := pl, f_encrypt := True\<rparr>" "pl = ct @ ?r @ fb"
    using seal_packet[where f = ?sl and P = "\<lambda>pl. pl = ct @ ?r @ fb", OF ok kl seal[unfolded d_def]] by blast
  have enc: "ChaCha20_encrypt_ipv4 ks sha finger ?r p = Inr q"
    using q(1) by (cases finger) (simp_all add: ChaCha20_encrypt_ipv4_def head_tag_eq[OF ok] Let_def n_def
        tail_len_def RANDOM_RESERVED_def FINGER_RESERVED_def add.commute)
  have dec: "\<exists>r. ChaCha20_decrypt_ipv4 ks sha finger q' = Inr r \<and> np_ok r \<and>
         np_abs r = (np_abs p)\<lparr>f_payload := ks (gen_nonce n r') ct, f_encrypt := False\<rparr>"
    if q': "np_ok q'" "length r' = 4" "np_abs q' = (np_abs p)\<lparr>f_payload := ct @ r' @ fb, f_encrypt := True\<rparr>" for q' r'
  proof -
    let ?e = "ks (gen_nonce n r') ct"
    have lk: "length ?e = length d" "length ct = length d" using laws by (simp_all add: ct_def stream_laws_def)
    have tq: "tag_of (np_abs q') = n" using q'(3) by (simp add: n_def)
    have "chacha_open ks sha finger n (ct @ r' @ fb) = Inr (?e @ r' @ fb, length ?e)"
      using rt(3)[of "replicate ?k 0" r'] laws q'(2) k(1) lk unfolding fb_def by simp
    then have op: "?op (f_payload (np_abs q')) = Inr (?e @ (r' @ fb), length ?e)" using q'(3) by simp
    have l: "length (?e @ (r' @ fb)) = np_data_len q' - 12"
      using length_f_payload[OF q'(1)] q'(3) lk by simp
    obtain p1 p2 r where r: "in_payload q' ?op = Inr (p1, length ?e)"
      "NetPacket_set_encrypt_flag p1 False = Inr p2" "NetPacket_set_payload_len p2 (length ?e) = Inr r" "np_ok r"
      "np_abs r = (np_abs q')\<lparr>f_payload := ?e, f_encrypt := False\<rparr>"
      using open_packet[where f = ?op, OF q'(1) op l] by blast
    then have "ChaCha20_decrypt_ipv4 ks sha finger q' = Inr r"
      using q'(3) tq by (simp add: ChaCha20_decrypt_ipv4_def np_get[OF q'(1)] head_tag_eq[OF q'(1)] n_def)
    then show ?thesis using r(4,5) q'(3) by simp
  qed
  show ?thesis using enc q(2,3,4) dec by (intro that[of q]) simp_all
qed

interpretation gcm_cipher: packet_cipher "AesGcm_encrypt_ipv4 A sha finger" "AesGcm_decrypt_ipv4 A sha finger"
    "fits_gcm A sha" for A sha finger
proof
  fix p rnd assume "np_ok p" "fits_gcm A sha p"
  then show "\<exists>q r. AesGcm_encrypt_ipv4 A sha finger rnd p = Inr q \<and> np_ok q \<and> tag_of (np_abs q) = tag_of (np_abs p) \<and>
      AesGcm_decrypt_ipv4 A sha finger q = Inr r \<and> np_ok r \<and> np_abs r = (np_abs p)\<lparr>f_encrypt := False\<rparr>"
    by (rule gcm_packet[where finger = finger and rnd = rnd]) simp
qed

interpretation poly_cipher: packet_cipher "\<lambda>rnd. ChaCha20Poly1305_encrypt_ipv4 A sha finger (be32_bytes rnd)"
    "ChaCha20Poly1305_decrypt_ipv4 A sha finger" "fits_poly A sha" for A sha finger
proof
  fix p rnd assume "np_ok p" "fits_poly A sha p"
  then show "\<exists>q r. ChaCha20Poly1305_encrypt_ipv4 A sha finger (be32_bytes rnd) p = Inr q \<and> np_ok q \<and>
      tag_of (np_abs q) = tag_of (np_abs p) \<and> ChaCha20Poly1305_decrypt_ipv4 A sha finger q = Inr r \<and> np_ok r \<and>
      np_abs r = (np_abs p)\<lparr>f_encrypt := False\<rparr>"
    by (rule poly_packet[where finger = finger and rnd = rnd]) simp
qed

interpretation chacha_cipher: packet_cipher "\<lambda>rnd. ChaCha20_encrypt_ipv4 ks sha finger (be32_bytes rnd)"
    "ChaCha20_decrypt_ipv4 ks sha finger" "fits_chacha ks sha" for ks sha finger
proof
  fix p rnd assume ok: "np_ok p" and fits: "fits_chacha ks sha p"
  let ?n = "tag_of (np_abs p)" let ?ct = "ks (gen_nonce ?n (be32_bytes rnd)) (f_payload (np_abs p))"
  have inv: "ks (gen_nonce ?n (be32_bytes rnd)) ?ct = f_payload (np_abs p)"
    using fits by (simp add: fits_chacha_def stream_laws_def)
  show "\<exists>q r. ChaCha20_encrypt_ipv4 ks sha finger (be32_bytes rnd) p = Inr q \<and> np_ok q \<and>
      tag_of (np_abs q) = tag_of (np_abs p) \<and> ChaCha20_decrypt_ipv4 ks sha finger q = Inr r \<and> np_ok r \<and>
      np_abs r = (np_abs p)\<lparr>f_encrypt := False\<rparr>"
    using ok fits
  proof (rule chacha_packet[where finger = finger and rnd = rnd])
    fix q
    assume q: "ChaCha20_encrypt_ipv4 ks sha finger (be32_bytes rnd) p = Inr q" "np_ok q"
      "np_abs q = (np_abs p)\<lparr>f_payload := ?ct @ be32_bytes rnd @ finger_bytes (finger_for sha finger ?n ?ct), f_encrypt := True\<rparr>"
      and op: "\<And>q' r'. np_ok q' \<Longrightarrow> length r' = 4 \<Longrightarrow>
       np_abs q' = (np_abs p)\<lparr>f_payload := ?ct @ r' @ finger_bytes (finger_for sha finger ?n ?ct), f_encrypt := True\<rparr> \<Longrightarrow>
       \<exists>r. ChaCha20_decrypt_ipv4 ks sha finger q' = Inr r \<and> np_ok r \<and>
         np_abs r = (np_abs p)\<lparr>f_payload := ks (gen_nonce ?n r') ?ct, f_encrypt := False\<rparr>"
    from op[OF q(2) _ q(3)] inv q show ?thesis by auto
  qed
qed

end
