(* ===== verification/Block_Ciphers.thy ===== *)
theory Block_Ciphers
  imports Aead_Ciphers
begin

text \<open>
  The block ciphers, \<^verbatim>\<open>vnt/src/cipher\<close>: AES-CBC (\<^verbatim>\<open>aes_cbc/rs_aes_cbc.rs\<close>), AES-ECB
  (\<^verbatim>\<open>aes_ecb/rs_aes_ecb.rs\<close>) and SM4-CBC (\<^verbatim>\<open>sm4_cbc/rs_sm4_cbc.rs\<close>). AES-CBC encrypts the payload and a
  random number; the other two encrypt the whole packet, header included, into the payload, and check
  the header after decryption. The block modes with PKCS7 padding are library parameters.
\<close>

section \<open>Block modes\<close>

text \<open>
  Encryption pads to the next multiple of 16 bytes; decryption overwrites a buffer and returns the length of
  the message in front of it, or fails.
\<close>

record block_mode =
  bm_enc :: "u8 list \<Rightarrow> u8 list \<Rightarrow> u8 list"
  bm_dec :: "u8 list \<Rightarrow> u8 list \<Rightarrow> (u8 list \<times> nat) option"

definition block_laws :: "block_mode \<Rightarrow> bool" where
  "block_laws B \<longleftrightarrow> (\<forall>iv m. length (bm_enc B iv m) = 16 * (length m div 16 + 1) \<and>
     (\<exists>b. bm_dec B iv (bm_enc B iv m) = Some (b, length m) \<and> length b = length (bm_enc B iv m) \<and>
        take (length m) b = m))"

definition encrypt_padded :: "block_mode \<Rightarrow> u8 list \<Rightarrow> u8 list \<Rightarrow> nat \<Rightarrow> u8 list option" where
  "encrypt_padded B iv m room = (let c = bm_enc B iv m in if length c > room then None else Some c)"

section \<open>AES-CBC\<close>

definition cbc_iv :: "u8 list option \<Rightarrow> u8 list \<Rightarrow> u8 list" where
  "cbc_iv finger head_tag = head_tag @ (case finger of Some h \<Rightarrow> take 4 h | None \<Rightarrow> replicate 4 0)"

definition cbc_open :: "block_mode \<Rightarrow> hash \<Rightarrow> u8 list option \<Rightarrow> u8 list \<Rightarrow> u8 list \<Rightarrow> (u8 list \<times> nat) res" where
  "cbc_open B sha finger head_tag pl =
     bindE (AesCbcSecretBody_new pl (finger \<noteq> None)) (\<lambda>s. bindE (AesCbcSecretBody_en_body s) (\<lambda>en_body.
       bindE (AesCbcSecretBody_finger s) (\<lambda>stored.
         if (case finger of None \<Rightarrow> False | Some h \<Rightarrow> calculate_finger sha h head_tag en_body \<noteq> stored)
         then Inl (Anyhow ''aes_cbc finger err'')
         else (case bm_dec B (cbc_iv finger head_tag) en_body of
                 None \<Rightarrow> Inl (Anyhow ''aes_cbc decrypt'')
               | Some (b, len) \<Rightarrow> bindE (AesCbcSecretBody_en_body_mut s b) (\<lambda>s'. Inr (sb_buffer s', len))))))"

definition AesCbc_decrypt_ipv4 :: "block_mode \<Rightarrow> hash \<Rightarrow> u8 list option \<Rightarrow> net_packet \<Rightarrow> net_packet res" where
  "AesCbc_decrypt_ipv4 B sha finger p =
     bindE (NetPacket_is_encrypt p) (\<lambda>en.
       if \<not> en then Inl (Anyhow ''not encrypt'')
       else bindE (NetPacket_payload p) (\<lambda>pl.
         if length pl < 16 then Inl (Anyhow ''aes_cbc data err'')
         else bindE (NetPacket_head_tag p) (\<lambda>head_tag.
           bindE (in_payload p (cbc_open B sha finger head_tag)) (\<lambda>(p1, len).
             bindE (NetPacket_set_encrypt_flag p1 False) (\<lambda>p2.
               NetPacket_set_data_len p2 (HEAD_LEN + len - 4))))))"

text \<open>The random number goes behind the data; the cipher text may use the whole buffer.\<close>

definition cbc_random :: "u8 list option \<Rightarrow> u32 \<Rightarrow> u8 list \<Rightarrow> (u8 list \<times> nat) res" where
  "cbc_random finger random pl =
     bindE (AesCbcSecretBody_new pl (finger \<noteq> None)) (\<lambda>s. bindE (AesCbcSecretBody_set_random s random) (\<lambda>s.
       bindE (AesCbcSecretBody_en_body s) (\<lambda>e. Inr (sb_buffer s, length e))))"

definition cbc_seal :: "block_mode \<Rightarrow> u8 list \<Rightarrow> nat \<Rightarrow> u8 list \<Rightarrow> (u8 list \<times> nat) res" where
  "cbc_seal B iv p_len pl = (case encrypt_padded B iv (take p_len pl) (length pl) of
     None \<Rightarrow> Inl (Anyhow ''aes_cbc encrypt'') | Some c \<Rightarrow> Inr (c @ drop (length c) pl, length c))"

definition cbc_finish :: "hash \<Rightarrow> u8 list option \<Rightarrow> u8 list \<Rightarrow> net_packet \<Rightarrow> nat \<Rightarrow> net_packet res" where
  "cbc_finish sha finger head_tag p len = (case finger of
     None \<Rightarrow> NetPacket_set_data_len p (HEAD_LEN + len)
   | Some h \<Rightarrow> bindE (NetPacket_payload p) (\<lambda>pl.
       let f = calculate_finger sha h head_tag (take len pl) in
       bindE (NetPacket_set_data_len p (HEAD_LEN + len + length f)) (\<lambda>p.
         mapE fst (in_payload p (\<lambda>pl. bindE (AesCbcSecretBody_new pl True) (\<lambda>s.
           bindE (AesCbcSecretBody_set_finger s f) (\<lambda>s. Inr (sb_buffer s, ()))))))))"

definition AesCbc_encrypt_ipv4 :: "block_mode \<Rightarrow> hash \<Rightarrow> u8 list option \<Rightarrow> u32 \<Rightarrow> net_packet \<Rightarrow> net_packet res" where
  "AesCbc_encrypt_ipv4 B sha finger random p =
     bindE (NetPacket_head_tag p) (\<lambda>head_tag.
       bindE (NetPacket_set_data_len p (np_data_len p + (if finger \<noteq> None then 16 else 4))) (\<lambda>p1.
       bindE (in_payload p1 (cbc_random finger random)) (\<lambda>(p2, p_len).
       bindE (in_payload (NetPacket_set_data_len_max p2) (cbc_seal B (cbc_iv finger head_tag) p_len)) (\<lambda>(p3, len).
       bindE (cbc_finish sha finger head_tag p3 len) (\<lambda>p4. NetPacket_set_encrypt_flag p4 True)))))"

section \<open>The finger behind a packet encrypted as a whole\<close>

definition strip_finger :: "hash \<Rightarrow> u8 list option \<Rightarrow> net_packet \<Rightarrow> net_packet res" where
  "strip_finger sha finger p = (case finger of
     None \<Rightarrow> Inr p
   | Some h \<Rightarrow> bindE (NetPacket_head_tag p) (\<lambda>nonce_raw. bindE (NetPacket_payload p) (\<lambda>pl.
       let len = length pl in
       if len < 12 then Inl (Anyhow ''payload len <12'')
       else
         let f = calculate_finger sha h nonce_raw (take (len - 12) pl) in
         if f \<noteq> drop (len - 12) pl then Inl (Anyhow ''finger err'')
         else NetPacket_set_data_len p (np_data_len p - length f))))"

definition append_finger :: "hash \<Rightarrow> u8 list option \<Rightarrow> u8 list \<Rightarrow> net_packet \<Rightarrow> net_packet res" where
  "append_finger sha finger body p = (case finger of
     None \<Rightarrow> Inr p
   | Some h \<Rightarrow> bindE (NetPacket_head_tag p) (\<lambda>nonce_raw.
       let f = calculate_finger sha h nonce_raw body; src_data_len = np_data_len p in
       bindE (NetPacket_set_data_len p (src_data_len + length f)) (\<lambda>p.
         mapE (\<lambda>b. p\<lparr>np_buffer := b\<rparr>) (copy_range (np_buffer p) src_data_len (np_data_len p) f))))"

text \<open>The inner header must agree with the outer one.\<close>

definition same_header :: "net_packet \<Rightarrow> net_packet \<Rightarrow> bool res" where
  "same_header s p =
     bindE (NetPacket_source s) (\<lambda>a. bindE (NetPacket_source p) (\<lambda>b. if a \<noteq> b then Inr False else
     bindE (NetPacket_destination s) (\<lambda>a. bindE (NetPacket_destination p) (\<lambda>b. if a \<noteq> b then Inr False else
     bindE (NetPacket_protocol s) (\<lambda>a. bindE (NetPacket_protocol p) (\<lambda>b. if a \<noteq> b then Inr False else
     bindE (NetPacket_transport_protocol s) (\<lambda>a. bindE (NetPacket_transport_protocol p) (\<lambda>b. if a \<noteq> b then Inr False else
     bindE (NetPacket_is_gateway s) (\<lambda>a. bindE (NetPacket_is_gateway p) (\<lambda>b. if a \<noteq> b then Inr False else
     bindE (NetPacket_source_ttl s) (\<lambda>a. bindE (NetPacket_source_ttl p) (\<lambda>b. Inr (a = b)))))))))))))"

definition unwrap :: "u8 list \<Rightarrow> net_packet \<Rightarrow> net_packet res" where
  "unwrap m p =
     bindE (NetPacket_new m) (\<lambda>s. bindE (same_header s p) (\<lambda>same.
       if \<not> same then Inl (Anyhow ''data err'')
       else bindE (NetPacket_set_data_len p (length m)) (\<lambda>p.
         bindE (NetPacket_payload s) (\<lambda>pl. bindE (NetPacket_set_payload p pl) (\<lambda>p.
           NetPacket_set_encrypt_flag p False)))))"

section \<open>AES-ECB\<close>

definition ECB_BUFFER :: nat where "ECB_BUFFER = 1024 * 5"

definition AesEcb_decrypt_ipv4 :: "block_mode \<Rightarrow> hash \<Rightarrow> u8 list option \<Rightarrow> net_packet \<Rightarrow> net_packet res" where
  "AesEcb_decrypt_ipv4 B sha finger p =
     bindE (NetPacket_is_encrypt p) (\<lambda>en.
       if \<not> en then Inl (Anyhow ''not encrypt'')
       else bindE (strip_finger sha finger p) (\<lambda>p. bindE (NetPacket_payload p) (\<lambda>pl.
         if length pl < 16 then Inl (Anyhow ''data err'')
         else if length pl > ECB_BUFFER then Inl (Anyhow ''aes_ecb decrypt'')
         else (case bm_dec B [] pl of
             None \<Rightarrow> Inl (Anyhow ''aes_ecb decrypt'')
           | Some (b, len) \<Rightarrow> unwrap (take len b) p))))"

definition AesEcb_encrypt_ipv4 :: "block_mode \<Rightarrow> hash \<Rightarrow> u8 list option \<Rightarrow> net_packet \<Rightarrow> net_packet res" where
  "AesEcb_encrypt_ipv4 B sha finger p =
     bindE (NetPacket_buffer p) (\<lambda>m. (case encrypt_padded B [] m ECB_BUFFER of
         None \<Rightarrow> Inl (Anyhow ''aes_ecb encrypt'')
       | Some c \<Rightarrow>
           bindE (NetPacket_set_data_len p (HEAD_LEN + length c)) (\<lambda>p. bindE (NetPacket_set_payload p c) (\<lambda>p.
           bindE (NetPacket_set_encrypt_flag p True) (append_finger sha finger c)))))"

section \<open>SM4-CBC\<close>

text \<open>The initialisation vector is 16 random bytes behind the cipher text.\<close>

definition SM4_BUFFER :: nat where "SM4_BUFFER = 1024 * 4"

definition Sm4Cbc_decrypt_ipv4 :: "block_mode \<Rightarrow> hash \<Rightarrow> u8 list option \<Rightarrow> net_packet \<Rightarrow> net_packet res" where
  "Sm4Cbc_decrypt_ipv4 B sha finger p =
     bindE (NetPacket_is_encrypt p) (\<lambda>en.
       if \<not> en then Inl (Anyhow ''not encrypt'')
       else bindE (strip_finger sha finger p) (\<lambda>p. bindE (NetPacket_payload p) (\<lambda>pl.
         let len = length pl in
         if len < 16 \<or> len > SM4_BUFFER then Inl (Anyhow ''data err'')
         else (case bm_dec B (drop (len - 16) pl) (take (len - 16) pl) of
             None \<Rightarrow> Inl (Anyhow ''sm4_cbc decrypt'')
           | Some (b, n) \<Rightarrow> unwrap (take n b) p))))"

definition Sm4Cbc_encrypt_ipv4 :: "block_mode \<Rightarrow> hash \<Rightarrow> u8 list option \<Rightarrow> u8 list \<Rightarrow> net_packet \<Rightarrow> net_packet res" where
  "Sm4Cbc_encrypt_ipv4 B sha finger iv p =
     (if np_data_len p > SM4_BUFFER - 32 then Inl (Anyhow ''data err'')
      else bindE (NetPacket_buffer p) (\<lambda>m. (case encrypt_padded B iv m SM4_BUFFER of
          None \<Rightarrow> Inl (Anyhow ''sm4_cbc encrypt'')
        | Some c \<Rightarrow>
            bindE (NetPacket_set_data_len p (HEAD_LEN + length c + 16)) (\<lambda>p.
            bindE (in_payload p (\<lambda>pl. bindE (copy_range pl 0 (length c) c) (\<lambda>pl.
              bindE (copy_range pl (length c) (length pl) iv) (\<lambda>pl. Inr (pl, pl))))) (\<lambda>(p, pl).
            bindE (append_finger sha finger pl p) (\<lambda>p. NetPacket_set_encrypt_flag p True))))))"

section \<open>Whole packets round-trip\<close>

lemma resize_payload:
  assumes "np_ok p" "12 + length c \<le> length (np_buffer p)"
  obtains p1 q where "NetPacket_set_data_len p (12 + length c) = Inr p1" "NetPacket_set_payload p1 c = Inr q"
    "np_ok p1" "np_data_len p1 = 12 + length c" "np_abs p1 = (np_abs p)\<lparr>f_payload := take (length c) (drop 12 (np_buffer p))\<rparr>" "length (np_buffer p1) = length (np_buffer p)"
    "np_ok q" "np_abs q = (np_abs p)\<lparr>f_payload := c\<rparr>" "np_data_len q = 12 + length c"
    "length (np_buffer q) = length (np_buffer p)"
proof -
  let ?p1 = "p\<lparr>np_data_len := 12 + length c\<rparr>"
  have 1: "NetPacket_set_data_len p (12 + length c) = Inr ?p1"
    using assms(2) by (simp add: NetPacket_set_data_len_Inr_iff)
  have 2: "np_ok ?p1" "np_abs ?p1 = (np_abs p)\<lparr>f_payload := take (length c) (drop 12 (np_buffer p))\<rparr>"
    using NetPacket_set_data_len_abs[OF assms(1), of "12 + length c"] assms(2) by auto
  obtain q where q: "NetPacket_set_payload ?p1 c = Inr q" "np_ok q" "np_abs q = (np_abs ?p1)\<lparr>f_payload := c\<rparr>"
    "np_data_len q = np_data_len ?p1" "length (np_buffer q) = length (np_buffer ?p1)"
    using NetPacket_set_payload_ok[OF 2(1), of c] by (auto elim: np_updatesE)
  show ?thesis using 1 2 q by (intro that[of ?p1 q]) auto
qed

text \<open>The finger goes behind the payload and comes off again.\<close>

lemma append_finger_ok:
  assumes "np_ok p" "sha_laws sha" "fits_by (length (finger_bytes (finger_for sha finger n body))) p"
    and "n = tag_of (np_abs p)"
  obtains q where "append_finger sha finger body p = Inr q" "np_ok q"
    "np_abs q = (np_abs p)\<lparr>f_payload := f_payload (np_abs p) @ finger_bytes (finger_for sha finger n body)\<rparr>"
    "length (np_buffer q) = length (np_buffer p)"
proof (cases finger)
  case None
  then show ?thesis using assms(1) by (intro that[of p]) (simp_all add: append_finger_def finger_for_def finger_bytes_def)
next
  case (Some h)
  let ?f = "calculate_finger sha h n body" let ?n = "np_data_len p"
  have l: "length ?f = 12" using assms(2) by simp
  have fb: "finger_bytes (finger_for sha finger n body) = ?f" using Some by (simp add: finger_for_def finger_bytes_def)
  have room: "?n + 12 \<le> length (np_buffer p)" "12 \<le> ?n" using assms(3) l np_okD[OF assms(1)] by (auto simp: fb fits_by_def)
  let ?b = "splice ?n ?f (np_buffer p)"
  let ?q = "\<lparr>np_data_len = ?n + 12, np_buffer = ?b\<rparr>"
  have "NetPacket_set_data_len p (?n + 12) = Inr (p\<lparr>np_data_len := ?n + 12\<rparr>)"
    using room by (simp add: NetPacket_set_data_len_Inr_iff)
  then have "append_finger sha finger body p = Inr ?q"
    using Some room l by (simp add: append_finger_def head_tag_eq[OF assms(1)] assms(4)[symmetric] Let_def copy_range_in)
  moreover have "np_ok ?q" using room l by (simp add: np_ok_def)
  moreover have "np_abs ?q = (np_abs p)\<lparr>f_payload := f_payload (np_abs p) @ ?f\<rparr>"
  proof -
    have "take 12 ?b = take 12 (np_buffer p)" using room l by (simp add: take_splice_below)
    moreover have "take ?n (drop 12 ?b) = f_payload (np_abs p) @ ?f"
      using room l by (simp add: splice_def np_abs_def Let_def drop_take)
    moreover have e: "\<lparr>np_data_len = ?n, np_buffer = np_buffer p\<rparr> = p" by (cases p) simp
    ultimately show ?thesis using room l np_abs_buffer_head[of ?b "np_buffer p" "?n + 12" ?n, unfolded e] by simp
  qed
  moreover have "length ?b = length (np_buffer p)" using room l by simp
  ultimately show ?thesis by (intro that[of ?q]) (simp_all add: fb)
qed

lemma strip_finger_ok:
  assumes "np_ok q" "sha_laws sha" "n = tag_of (np_abs q)"
    and "f_payload (np_abs q) = body @ finger_bytes (finger_for sha finger n body)"
  obtains p where "strip_finger sha finger q = Inr p" "np_ok p" "np_abs p = (np_abs q)\<lparr>f_payload := body\<rparr>"
    "length (np_buffer p) = length (np_buffer q)"
proof (cases finger)
  case None
  then show ?thesis using assms by (intro that[of q]) (simp_all add: strip_finger_def finger_for_def finger_bytes_def)
next
  case (Some h)
  let ?f = "calculate_finger sha h n body"
  have pl: "f_payload (np_abs q) = body @ ?f" "length ?f = 12"
    using assms(2,4) Some by (simp_all add: finger_for_def finger_bytes_def)
  have dl: "np_data_len q = 12 + length body + 12"
    using length_f_payload[OF assms(1)] pl np_okD[OF assms(1)] by simp
  obtain p where p: "NetPacket_set_data_len q (12 + length body) = Inr p" "np_ok p"
    "np_abs p = (np_abs q)\<lparr>f_payload := take (length body) (f_payload (np_abs q))\<rparr>"
    using shrink_payload[OF assms(1), of "length body"] pl(1) by auto
  have "strip_finger sha finger q = Inr p"
    using Some pl p(1) dl by (simp add: strip_finger_def head_tag_eq[OF assms(1)] np_get[OF assms(1)] assms(3)[symmetric] Let_def)
  moreover have "length (np_buffer p) = length (np_buffer q)" using p(1) by (auto simp: NetPacket_set_data_len_Inr_iff)
  ultimately show ?thesis using p pl by (intro that[of p]) simp_all
qed

lemma same_header_ok:
  assumes "np_ok s" "np_ok p" "np_abs s = (np_abs p)\<lparr>f_payload := x, f_encrypt := e\<rparr>"
  shows "same_header s p = Inr True"
  by (simp add: same_header_def np_get[OF assms(1)] np_get[OF assms(2)] assms(3))

text \<open>What unwrapping a packet's own bytes gives.\<close>

lemma unwrap_ok:
  assumes ok: "np_ok p" "np_ok q" and q: "np_abs q = (np_abs p)\<lparr>f_payload := c, f_encrypt := True\<rparr>"
    and room: "np_data_len p \<le> length (np_buffer q)"
  obtains r where "unwrap (take (np_data_len p) (np_buffer p)) q = Inr r" "np_ok r"
    "np_abs r = (np_abs p)\<lparr>f_encrypt := False\<rparr>"
proof -
  let ?m = "take (np_data_len p) (np_buffer p)" let ?d = "f_payload (np_abs p)"
  note l = np_okD[OF ok(1)]
  obtain s where s: "NetPacket_new ?m = Inr s" "s = \<lparr>np_data_len = np_data_len p, np_buffer = ?m\<rparr>"
    using l by (auto simp: NetPacket_new_Inr_iff)
  have oks: "np_ok s" using l s(2) by (simp add: np_ok_def)
  have abs_s: "np_abs s = np_abs p" using l by (simp add: s(2) np_abs_def Let_def drop_take)
  have sh: "same_header s q = Inr True"
    using same_header_ok[OF oks ok(2), where x = ?d and e = "f_encrypt (np_abs p)"] by (simp add: abs_s q)
  have ld: "12 + length ?d = np_data_len p" using l by (auto simp: length_f_payload[OF ok(1)])
  obtain q1 q2 where q2: "NetPacket_set_data_len q (12 + length ?d) = Inr q1" "NetPacket_set_payload q1 ?d = Inr q2"
    "np_ok q2" "np_abs q2 = (np_abs q)\<lparr>f_payload := ?d\<rparr>"
    using resize_payload[OF ok(2), of ?d] room ld by metis
  obtain r where r: "NetPacket_set_encrypt_flag q2 False = Inr r" "np_like q2 r" "np_abs r = (np_abs q2)\<lparr>f_encrypt := False\<rparr>"
    using set_encrypt[OF q2(3)] .
  have "length ?m = 12 + length ?d" using ld l by simp
  then have "unwrap ?m q = Inr r" using s(1) sh q2(1,2) r(1) by (simp add: unwrap_def np_get[OF oks] abs_s)
  then show ?thesis using r(2,3) q2(4) q by (intro that[of r]) (auto simp: np_like_def)
qed

lemma strip_unwrap:
  assumes ok: "np_ok p" "np_ok q" and S: "sha_laws sha" and room: "np_data_len p \<le> length (np_buffer q)"
    and q: "np_abs q = (np_abs p)\<lparr>f_payload := c @ finger_bytes (finger_for sha finger (tag_of (np_abs p)) c), f_encrypt := True\<rparr>"
  obtains q1 r where "strip_finger sha finger q = Inr q1" "np_ok q1" "f_payload (np_abs q1) = c"
    "unwrap (take (np_data_len p) (np_buffer p)) q1 = Inr r" "np_ok r" "np_abs r = (np_abs p)\<lparr>f_encrypt := False\<rparr>"
proof -
  have tq: "tag_of (np_abs p) = tag_of (np_abs q)" by (simp add: q)
  obtain q1 where q1: "strip_finger sha finger q = Inr q1" "np_ok q1" "np_abs q1 = (np_abs q)\<lparr>f_payload := c\<rparr>"
    "length (np_buffer q1) = length (np_buffer q)"
    using strip_finger_ok[OF ok(2) S tq, of c finger] q by auto
  have "np_abs q1 = (np_abs p)\<lparr>f_payload := c, f_encrypt := True\<rparr>" using q1(3) q by simp
  then obtain r where "unwrap (take (np_data_len p) (np_buffer p)) q1 = Inr r" "np_ok r"
    "np_abs r = (np_abs p)\<lparr>f_encrypt := False\<rparr>"
    using unwrap_ok[OF ok(1) q1(2)] q1(4) room by metis
  with q1 show ?thesis by (intro that[of q1 r]) simp_all
qed

lemma block_lawsE:
  assumes "block_laws B"
  obtains b where "length (bm_enc B iv m) = 16 * (length m div 16 + 1)" "bm_dec B iv (bm_enc B iv m) = Some (b, length m)"
    "length b = length (bm_enc B iv m)" "take (length m) b = m"
  using assms unfolding block_laws_def by blast

lemma padded_bounds:
  fixes n :: nat
  shows "16 \<le> 16 * (n div 16 + 1)" and "16 * (n div 16 + 1) \<le> n + 16"
    and "n < 16 * k \<Longrightarrow> 16 * (n div 16 + 1) \<le> 16 * k"
proof -
  show "16 \<le> 16 * (n div 16 + 1)" by simp
  have "16 * (n div 16) \<le> n" using div_mult_mod_eq[of n 16] by linarith
  then show "16 * (n div 16 + 1) \<le> n + 16" by simp
  show "16 * (n div 16 + 1) \<le> 16 * k" if "n < 16 * k"
  proof -
    have "n div 16 < k" using that by (simp add: div_less_iff_less_mult mult.commute)
    then show ?thesis by simp
  qed
qed

definition fits_ecb :: "block_mode \<Rightarrow> hash \<Rightarrow> net_packet \<Rightarrow> bool" where
  "fits_ecb B sha p \<longleftrightarrow> block_laws B \<and> sha_laws sha \<and> fits_by 40 p \<and> np_data_len p < ECB_BUFFER"

interpretation ecb_cipher: packet_cipher "\<lambda>_. AesEcb_encrypt_ipv4 B sha finger" "AesEcb_decrypt_ipv4 B sha finger"
    "fits_ecb B sha" for B sha finger
proof
  fix p assume ok: "np_ok p" and fits: "fits_ecb B sha p"
  let ?m = "take (np_data_len p) (np_buffer p)" let ?c = "bm_enc B [] ?m" let ?n = "tag_of (np_abs p)"
  let ?fb = "finger_bytes (finger_for sha finger ?n ?c)"
  note laws = fits[unfolded fits_ecb_def fits_by_def] and l = np_okD[OF ok]
  have S: "sha_laws sha" using laws by simp
  have lfb: "length ?fb \<le> 12" using S by (cases finger) (simp_all add: finger_for_def finger_bytes_def)
  obtain b where b: "length ?c = 16 * (length ?m div 16 + 1)" "bm_dec B [] ?c = Some (b, length ?m)"
    "take (length ?m) b = ?m" using block_lawsE[of B "[]" ?m] laws by blast
  have lm: "length ?m = np_data_len p" using l by simp
  have lc: "16 \<le> length ?c" "length ?c \<le> np_data_len p + 16" "length ?c \<le> ECB_BUFFER"
    using b(1) padded_bounds[of "np_data_len p"] padded_bounds(3)[of "np_data_len p" 320] laws
    by (simp_all add: lm ECB_BUFFER_def)
  have room: "12 + length ?c \<le> length (np_buffer p)" using lc laws by linarith
  obtain p1 p2 where p2: "NetPacket_set_data_len p (12 + length ?c) = Inr p1" "NetPacket_set_payload p1 ?c = Inr p2"
    "np_ok p2" "np_abs p2 = (np_abs p)\<lparr>f_payload := ?c\<rparr>" "np_data_len p2 = 12 + length ?c"
    "length (np_buffer p2) = length (np_buffer p)" using resize_payload[OF ok room] by metis
  obtain p3 where p3: "NetPacket_set_encrypt_flag p2 True = Inr p3" "np_like p2 p3"
    "np_abs p3 = (np_abs p2)\<lparr>f_encrypt := True\<rparr>" using set_encrypt[OF p2(3)] .
  have ok3: "np_ok p3" "?n = tag_of (np_abs p3)" using p3 p2(4) by (simp_all add: np_like_def)
  have "fits_by (length ?fb) p3" using p3(2) p2(5,6) lfb laws lc by (auto simp: fits_by_def np_like_def)
  then obtain q where q: "append_finger sha finger ?c p3 = Inr q" "np_ok q"
    "np_abs q = (np_abs p3)\<lparr>f_payload := f_payload (np_abs p3) @ ?fb\<rparr>" "length (np_buffer q) = length (np_buffer p3)"
    using append_finger_ok[OF ok3(1) S _ ok3(2), of finger ?c] by blast
  have abs_q: "np_abs q = (np_abs p)\<lparr>f_payload := ?c @ ?fb, f_encrypt := True\<rparr>" using q(3) p3(3) p2(4) by simp
  have tq: "?n = tag_of (np_abs q)" by (simp add: abs_q)
  have "np_data_len p \<le> length (np_buffer q)" using q(4) p3(2) p2(6) l by (simp add: np_like_def)
  then obtain q1 r where q1: "strip_finger sha finger q = Inr q1" "np_ok q1" "f_payload (np_abs q1) = ?c"
    and r: "unwrap ?m q1 = Inr r" "np_ok r" "np_abs r = (np_abs p)\<lparr>f_encrypt := False\<rparr>"
    using strip_unwrap[OF ok q(2) S _ abs_q] by blast
  have "AesEcb_encrypt_ipv4 B sha finger p = Inr q"
    using lc p2(1,2) p3(1) q(1) by (simp add: AesEcb_encrypt_ipv4_def np_get_buffer[OF ok] encrypt_padded_def Let_def HEAD_LEN_def)
  moreover have "AesEcb_decrypt_ipv4 B sha finger q = Inr r"
    using lc q1(1) b(2,3) r(1)
    by (simp add: AesEcb_decrypt_ipv4_def np_get[OF q(2)] abs_q np_get[OF q1(2)] q1(3))
  ultimately show "\<exists>q r. AesEcb_encrypt_ipv4 B sha finger p = Inr q \<and> np_ok q \<and> tag_of (np_abs q) = ?n \<and>
      AesEcb_decrypt_ipv4 B sha finger q = Inr r \<and> np_ok r \<and> np_abs r = (np_abs p)\<lparr>f_encrypt := False\<rparr>"
    using q(2) tq r(2,3) by metis
qed

definition fits_sm4 :: "block_mode \<Rightarrow> hash \<Rightarrow> (u32 \<Rightarrow> u8 list) \<Rightarrow> net_packet \<Rightarrow> bool" where
  "fits_sm4 B sha iv_of p \<longleftrightarrow> block_laws B \<and> sha_laws sha \<and> (\<forall>r. length (iv_of r) = 16) \<and> fits_by 56 p \<and>
     np_data_len p \<le> SM4_BUFFER - 32"

interpretation sm4_cipher: packet_cipher "\<lambda>rnd. Sm4Cbc_encrypt_ipv4 B sha finger (iv_of rnd)"
    "Sm4Cbc_decrypt_ipv4 B sha finger" "fits_sm4 B sha iv_of" for B sha finger iv_of
proof
  fix p rnd assume ok: "np_ok p" and fits: "fits_sm4 B sha iv_of p"
  let ?iv = "iv_of rnd"
  let ?m = "take (np_data_len p) (np_buffer p)" let ?c = "bm_enc B ?iv ?m" let ?n = "tag_of (np_abs p)"
  let ?pl = "?c @ ?iv" let ?fb = "finger_bytes (finger_for sha finger ?n ?pl)"
  note laws = fits[unfolded fits_sm4_def fits_by_def] and l = np_okD[OF ok]
  have S: "sha_laws sha" using laws by simp
  have iv: "length ?iv = 16" using laws by simp
  have lfb: "length ?fb \<le> 12" using S by (cases finger) (simp_all add: finger_for_def finger_bytes_def)
  obtain b where b: "length ?c = 16 * (length ?m div 16 + 1)" "bm_dec B ?iv ?c = Some (b, length ?m)"
    "take (length ?m) b = ?m" using block_lawsE[of B ?iv ?m] laws by blast
  have lm: "length ?m = np_data_len p" using l by simp
  have small: "np_data_len p < 16 * 255" using laws by (simp add: SM4_BUFFER_def)
  have lc: "length ?c \<le> np_data_len p + 16" "length ?c \<le> 16 * 255"
    using b(1) padded_bounds[of "np_data_len p"] padded_bounds(3)[OF small] by (simp_all add: lm)
  have room: "12 + length ?pl \<le> length (np_buffer p)" using lc(1) laws iv by simp
  obtain p1 where p1: "NetPacket_set_data_len p (12 + length ?pl) = Inr p1"
    "np_ok p1" "np_data_len p1 = 12 + length ?pl" "length (np_buffer p1) = length (np_buffer p)"
    "np_abs p1 = (np_abs p)\<lparr>f_payload := take (length ?pl) (drop 12 (np_buffer p))\<rparr>"
    using resize_payload[OF ok room] by metis
  let ?fill = "\<lambda>pl. bindE (copy_range pl 0 (length ?c) ?c) (\<lambda>pl. bindE (copy_range pl (length ?c) (length pl) ?iv) (\<lambda>pl. Inr (pl, pl)))"
  have fill: "?fill z = Inr (?pl, ?pl)" if "length z = length ?pl" for z
    using that iv by (simp add: copy_range_def splice_def)
  have l1: "length (f_payload (np_abs p1)) = length ?pl" "length ?pl = np_data_len p1 - 12"
    using length_f_payload[OF p1(2)] p1(3) by simp_all
  obtain p2 where p2: "in_payload p1 ?fill = Inr (p2, ?pl)" "np_like p1 p2" "np_abs p2 = (np_abs p1)\<lparr>f_payload := ?pl\<rparr>"
    using in_payload_ok[where f = ?fill, OF p1(2) fill[OF l1(1)] l1(2)] by blast
  have ok2: "np_ok p2" "np_data_len p2 = 12 + length ?pl" "length (np_buffer p2) = length (np_buffer p)"
    "np_abs p2 = (np_abs p)\<lparr>f_payload := ?pl\<rparr>"
    using p1(3,4,5) p2(2,3) by (simp_all add: np_like_def)
  have t2: "?n = tag_of (np_abs p2)" by (simp add: ok2(4))
  have "length (finger_bytes (finger_for sha finger ?n ?pl)) \<le> 12" by (rule lfb)
  then have f2: "fits_by (length ?fb) p2" using ok2(2,3) laws lc(1) iv by (auto simp: fits_by_def)
  obtain p3 where p3: "append_finger sha finger ?pl p2 = Inr p3" "np_ok p3"
    "np_abs p3 = (np_abs p2)\<lparr>f_payload := f_payload (np_abs p2) @ ?fb\<rparr>" "length (np_buffer p3) = length (np_buffer p2)"
    using append_finger_ok[OF ok2(1) S f2 t2] by blast
  obtain q where q: "NetPacket_set_encrypt_flag p3 True = Inr q" "np_like p3 q" "np_abs q = (np_abs p3)\<lparr>f_encrypt := True\<rparr>"
    using set_encrypt[OF p3(2)] .
  have abs_q: "np_abs q = (np_abs p)\<lparr>f_payload := ?pl @ ?fb, f_encrypt := True\<rparr>" using q(3) p3(3) ok2(4) by simp
  have okq: "np_ok q" "np_data_len p \<le> length (np_buffer q)" using q(2) p3(4) ok2(3) l by (simp_all add: np_like_def)
  obtain q1 r where q1: "strip_finger sha finger q = Inr q1" "np_ok q1" "f_payload (np_abs q1) = ?pl"
    and r: "unwrap ?m q1 = Inr r" "np_ok r" "np_abs r = (np_abs p)\<lparr>f_encrypt := False\<rparr>"
    using strip_unwrap[OF ok okq(1) S okq(2) abs_q] by blast
  have grow: "NetPacket_set_data_len p (HEAD_LEN + length ?c + 16) = Inr p1" using p1(1) iv by (simp add: HEAD_LEN_def add.assoc)
  have "np_data_len p \<le> 4064" using laws by (simp add: SM4_BUFFER_def)
  then have "Sm4Cbc_encrypt_ipv4 B sha finger ?iv p = Inr q"
    using lc(2) grow p2(1) p3(1) q(1)
    by (simp add: Sm4Cbc_encrypt_ipv4_def np_get_buffer[OF ok] encrypt_padded_def Let_def SM4_BUFFER_def)
  moreover have "Sm4Cbc_decrypt_ipv4 B sha finger q = Inr r"
    using lc(2) q1(1) b(2,3) r(1) iv
    by (simp add: Sm4Cbc_decrypt_ipv4_def np_get[OF okq(1)] abs_q np_get[OF q1(2)] q1(3) Let_def SM4_BUFFER_def)
  ultimately show "\<exists>q r. Sm4Cbc_encrypt_ipv4 B sha finger ?iv p = Inr q \<and> np_ok q \<and> tag_of (np_abs q) = ?n \<and>
      Sm4Cbc_decrypt_ipv4 B sha finger q = Inr r \<and> np_ok r \<and> np_abs r = (np_abs p)\<lparr>f_encrypt := False\<rparr>"
    using okq(1) abs_q r(2,3) by (intro exI[of _ q] exI[of _ r]) simp
qed

section \<open>AES-CBC round-trips\<close>

lemma cbc_random_ok:
  assumes "length st = tail_len 4 finger" "length d + 16 \<le> MAX_UDP_BODY"
  obtains g where "cbc_random finger r (d @ st) = Inr (d @ be32_bytes r @ g, length d + 4)"
    "length (d @ be32_bytes r @ g) = length d + tail_len 4 finger"
proof -
  obtain r0 g where sp: "st = r0 @ g" "length r0 = 4" "length g = (if finger = None then 0 else 12)"
    using split_head[of 4 st] assms(1) by (auto simp: tail_len_def split: if_splits)
  let ?f = "map_option (\<lambda>_. g) finger"
  have f: "finger_ok ?f" using sp(3) by (auto simp: finger_ok_def split: option.splits)
  have fb: "finger_bytes ?f = g" using sp(3) by (cases finger) (simp_all add: finger_bytes_def)
  have new: "AesCbcSecretBody_new (d @ st) (finger \<noteq> None) = Inr (sb_of (d @ r0) ?f)"
    using assms sp by (cases finger) (auto simp: AesCbcSecretBody_new_def sb_of_def)
  have rnd: "AesCbcSecretBody_set_random (sb_of (d @ r0) ?f) r = Inr (sb_of (d @ be32_bytes r) ?f)"
    using secret_before_of(2)[OF f, of "[]" 0 r0 4 "be32_bytes r" d] sp by (simp add: AesCbcSecretBody_set_random_def)
  have en: "AesCbcSecretBody_en_body (sb_of (d @ be32_bytes r) ?f) = Inr (d @ be32_bytes r)"
    using secret_prefix_of(1)[OF f, of "[]" 0 "d @ be32_bytes r"] by (simp add: AesCbcSecretBody_en_body_def)
  have "cbc_random finger r (d @ st) = Inr (d @ be32_bytes r @ g, length d + 4)"
    unfolding cbc_random_def new bindE_simps rnd en by (simp add: fb)
  then show ?thesis using sp assms(1) by (intro that[of g]) simp_all
qed

lemma cbc_open_ok:
  assumes B: "block_laws B" and S: "sha_laws sha"
    and c: "c = bm_enc B (cbc_iv finger n) (d @ be32_bytes r)" "length c + 12 \<le> MAX_UDP_BODY"
  obtains u where "cbc_open B sha finger n (c @ finger_bytes (finger_for sha finger n c)) = Inr (d @ u, length d + 4)"
    "length (d @ u) = length (c @ finger_bytes (finger_for sha finger n c))"
proof -
  let ?iv = "cbc_iv finger n" let ?m = "d @ be32_bytes r" let ?g = "finger_for sha finger n c"
  note gok = finger_for_ok[OF S, of finger n c]
  obtain b where b: "length c = 16 * (length ?m div 16 + 1)" "bm_dec B ?iv c = Some (b, length ?m)"
    "length b = length c" "take (length ?m) b = ?m" using block_lawsE[OF B, of ?iv ?m] c(1) by metis
  have new: "AesCbcSecretBody_new (c @ finger_bytes ?g) (finger \<noteq> None) = Inr (sb_of c ?g)"
    using b(1) c(2) S by (cases finger) (auto simp: AesCbcSecretBody_new_def sb_of_def finger_for_def finger_bytes_def)
  have en: "AesCbcSecretBody_en_body (sb_of c ?g) = Inr c" "AesCbcSecretBody_en_body_mut (sb_of c ?g) b = Inr (sb_of b ?g)"
    using secret_prefix_of[OF gok, of "[]" 0 c] secret_prefix_of(2)[OF gok, of "[]" 0 b c] b(3)
    by (simp_all add: AesCbcSecretBody_en_body_def AesCbcSecretBody_en_body_mut_def)
  have "cbc_open B sha finger n (c @ finger_bytes ?g) = Inr (b @ finger_bytes ?g, length d + 4)"
    unfolding cbc_open_def new bindE_simps en(1) sb_of_finger(3)[OF gok]
    using b(2) en(2) by (cases finger) (auto simp: finger_for_def finger_bytes_def)
  moreover have "b @ finger_bytes ?g = d @ (be32_bytes r @ drop (length ?m) b @ finger_bytes ?g)"
    using b(4) by (metis append.assoc append_take_drop_id)
  moreover have "length (b @ finger_bytes ?g) = length (c @ finger_bytes ?g)" using b(3) by simp
  ultimately show ?thesis by (intro that[of "be32_bytes r @ drop (length ?m) b @ finger_bytes ?g"]) (simp, metis)
qed

lemma cbc_finish_ok:
  assumes ok: "np_ok p" and S: "sha_laws sha" and pl: "f_payload (np_abs p) = c @ u" "12 \<le> length u"
    and c: "16 \<le> length c" "length c + 12 \<le> MAX_UDP_BODY"
  obtains q where "cbc_finish sha finger n p (length c) = Inr q" "np_ok q"
    "np_abs q = (np_abs p)\<lparr>f_payload := c @ finger_bytes (finger_for sha finger n c)\<rparr>"
proof (cases finger)
  case None
  obtain q where "NetPacket_set_data_len p (12 + length c) = Inr q" "np_ok q"
    "np_abs q = (np_abs p)\<lparr>f_payload := take (length c) (f_payload (np_abs p))\<rparr>"
    using shrink_payload[OF ok, of "length c"] pl by auto
  then show ?thesis using None pl(1)
    by (intro that[of q]) (simp_all add: cbc_finish_def HEAD_LEN_def finger_for_def finger_bytes_def)
next
  case (Some h)
  let ?f = "calculate_finger sha h n c" let ?g = "take 12 u"
  have lf: "length ?f = 12" "length ?g = 12" using S pl(2) by simp_all
  obtain p1 where p1: "NetPacket_set_data_len p (12 + (length c + 12)) = Inr p1" "np_ok p1"
    "np_abs p1 = (np_abs p)\<lparr>f_payload := take (length c + 12) (f_payload (np_abs p))\<rparr>"
    using shrink_payload[OF ok, of "length c + 12"] pl by auto
  let ?set = "\<lambda>pl. bindE (AesCbcSecretBody_new pl True) (\<lambda>s. bindE (AesCbcSecretBody_set_finger s ?f) (\<lambda>s. Inr (sb_buffer s, ())))"
  have pl1: "f_payload (np_abs p1) = c @ ?g" using p1(3) pl(1) by simp
  have new: "AesCbcSecretBody_new (c @ ?g) True = Inr (sb_of c (Some ?g))"
    using c lf(2) by (simp add: AesCbcSecretBody_new_def sb_of_def)
  have set: "?set (f_payload (np_abs p1)) = Inr (c @ ?f, ())"
    unfolding pl1 new bindE_simps using set_finger_of(3)[OF lf(2,1), of c] by (simp add: finger_bytes_def)
  have "length (c @ ?f) = np_data_len p1 - 12" using length_f_payload[OF p1(2)] lf unfolding pl1 by simp
  then obtain q where q: "in_payload p1 ?set = Inr (q, ())" "np_like p1 q" "np_abs q = (np_abs p1)\<lparr>f_payload := c @ ?f\<rparr>"
    using in_payload_ok[where f = ?set, OF p1(2) set] by blast
  have "cbc_finish sha finger n p (length c) = Inr q"
    using Some pl(1) lf(1) p1(1) q(1)
    by (simp add: cbc_finish_def np_get[OF ok] Let_def HEAD_LEN_def mapE_def add.assoc)
  then show ?thesis using Some q(2,3) p1(3)
    by (intro that[of q]) (simp_all add: np_like_def finger_for_def finger_bytes_def)
qed

definition fits_cbc :: "block_mode \<Rightarrow> hash \<Rightarrow> net_packet \<Rightarrow> bool" where
  "fits_cbc B sha p \<longleftrightarrow> block_laws B \<and> sha_laws sha \<and> fits_by 32 p"

interpretation cbc_cipher: packet_cipher "AesCbc_encrypt_ipv4 B sha finger" "AesCbc_decrypt_ipv4 B sha finger"
    "fits_cbc B sha" for B sha finger
proof
  fix p rnd assume ok: "np_ok p" and fits: "fits_cbc B sha p"
  let ?n = "tag_of (np_abs p)" let ?d = "f_payload (np_abs p)" let ?k = "tail_len 4 finger"
  let ?iv = "cbc_iv finger ?n" let ?m = "?d @ be32_bytes rnd" let ?c = "bm_enc B ?iv ?m"
  let ?fb = "finger_bytes (finger_for sha finger ?n ?c)"
  note laws = fits[unfolded fits_cbc_def fits_by_def] and l = np_okD[OF ok]
  have B: "block_laws B" and S: "sha_laws sha" using laws by simp_all
  have k: "?k = (if finger \<noteq> None then 16 else 4)" "4 \<le> ?k" "?k \<le> 16" by (auto simp: tail_len_def)
  have ld: "np_data_len p = 12 + length ?d" "length ?d + 32 \<le> MAX_UDP_BODY"
    using laws l by (auto simp: length_f_payload[OF ok])
  have lc: "length ?c = 16 * (length ?m div 16 + 1)" using block_lawsE[OF B] by metis
  have cb: "16 \<le> length ?c" "length ?c \<le> length ?d + 20"
    using padded_bounds[of "length ?m"] by (simp_all add: lc)
  have kl: "np_data_len p + ?k \<le> length (np_buffer p)" using laws k(3) by linarith
  obtain p1 st where p1: "NetPacket_set_data_len p (np_data_len p + ?k) = Inr p1" "np_ok p1" "length st = ?k"
    "np_abs p1 = (np_abs p)\<lparr>f_payload := ?d @ st\<rparr>" "np_data_len p1 = np_data_len p + ?k" "length (np_buffer p1) = length (np_buffer p)"
    using grow_payload[OF ok kl] .
  have ld16: "length ?d + 16 \<le> MAX_UDP_BODY" using ld(2) by simp
  obtain g where g: "cbc_random finger rnd (?d @ st) = Inr (?d @ be32_bytes rnd @ g, length ?d + 4)"
    "length (?d @ be32_bytes rnd @ g) = length ?d + ?k" using cbc_random_ok[OF p1(3) ld16] .
  have 2: "cbc_random finger rnd (f_payload (np_abs p1)) = Inr (?d @ be32_bytes rnd @ g, length ?d + 4)"
    using g(1) p1(4) by simp
  have "length (?d @ be32_bytes rnd @ g) = np_data_len p1 - 12" using g(2) p1(5) ld(1) by simp
  then obtain p2 where p2: "in_payload p1 (cbc_random finger rnd) = Inr (p2, length ?d + 4)" "np_like p1 p2"
    "np_abs p2 = (np_abs p1)\<lparr>f_payload := ?d @ be32_bytes rnd @ g\<rparr>"
    using in_payload_ok[where f = "cbc_random finger rnd", OF p1(2) 2] by blast
  let ?N = "length (np_buffer p)" let ?p3 = "NetPacket_set_data_len_max p2"
  have ok2: "np_ok p2" "length (np_buffer p2) = ?N" "np_data_len p2 = np_data_len p + ?k"
    using p2(2) p1(5,6) by (simp_all add: np_like_def)
  have "np_data_len p2 + (?N - np_data_len p2) \<le> length (np_buffer p2)" using ok2 kl by simp
  then obtain q3 st3 where q3: "NetPacket_set_data_len p2 (np_data_len p2 + (?N - np_data_len p2)) = Inr q3" "np_ok q3"
    "length st3 = ?N - np_data_len p2" "np_abs q3 = (np_abs p2)\<lparr>f_payload := f_payload (np_abs p2) @ st3\<rparr>"
    using grow_payload[OF ok2(1)] by metis
  have e3: "q3 = ?p3" using q3(1) ok2 kl by (simp add: NetPacket_set_data_len_Inr_iff NetPacket_set_data_len_max_def)
  have pl3: "f_payload (np_abs ?p3) = ?m @ g @ st3" using q3(4) p2(3) e3 by simp
  have len3: "length (?m @ g @ st3) = ?N - 12"
    using length_f_payload[OF q3(2)] ok2(2) unfolding e3 pl3 by (simp add: NetPacket_set_data_len_max_def)
  have room: "length ?c + 12 \<le> ?N - 12" using cb(2) laws ld(1) by linarith
  have seal: "cbc_seal B ?iv (length ?d + 4) (f_payload (np_abs ?p3)) = Inr (?c @ drop (length ?c) (?m @ g @ st3), length ?c)"
    using room len3 unfolding pl3 by (simp add: cbc_seal_def encrypt_padded_def Let_def)
  let ?u = "drop (length ?c) (?m @ g @ st3)"
  have "length ?u = ?N - 12 - length ?c" unfolding length_drop len3 by (rule refl)
  then have lu: "length (?c @ ?u) = ?N - 12" "12 \<le> length ?u" using room unfolding length_append by linarith+
  have "length (?c @ ?u) = np_data_len ?p3 - 12" using lu(1) ok2(2) by (simp add: NetPacket_set_data_len_max_def)
  then obtain p4 where p4: "in_payload ?p3 (cbc_seal B ?iv (length ?d + 4)) = Inr (p4, length ?c)" "np_like ?p3 p4"
    "np_abs p4 = (np_abs ?p3)\<lparr>f_payload := ?c @ ?u\<rparr>"
    using in_payload_ok[where f = "cbc_seal B ?iv (length ?d + 4)", OF q3(2)[unfolded e3] seal] by blast
  have ok4: "np_ok p4" "f_payload (np_abs p4) = ?c @ ?u" using p4(2,3) by (simp_all add: np_like_def)
  have cm: "length ?c + 12 \<le> MAX_UDP_BODY" using cb(2) ld(2) by simp
  obtain p5 where p5: "cbc_finish sha finger ?n p4 (length ?c) = Inr p5" "np_ok p5"
    "np_abs p5 = (np_abs p4)\<lparr>f_payload := ?c @ ?fb\<rparr>"
    using cbc_finish_ok[OF ok4(1) S ok4(2) lu(2) cb(1) cm] .
  obtain q where q: "NetPacket_set_encrypt_flag p5 True = Inr q" "np_like p5 q" "np_abs q = (np_abs p5)\<lparr>f_encrypt := True\<rparr>"
    using set_encrypt[OF p5(2)] .
  have abs_q: "np_abs q = (np_abs p)\<lparr>f_payload := ?c @ ?fb, f_encrypt := True\<rparr>"
    using q(3) p5(3) p4(3) q3(4) p2(3) p1(4) e3 by simp
  have okq: "np_ok q" using q(2) by (simp add: np_like_def)
  obtain u where u: "cbc_open B sha finger ?n (?c @ ?fb) = Inr (?d @ u, length ?d + 4)" "length (?d @ u) = length (?c @ ?fb)"
    using cbc_open_ok[OF B S refl cm] by metis
  have op: "cbc_open B sha finger ?n (f_payload (np_abs q)) = Inr (?d @ u, length ?d + 4)" using u(1) abs_q by simp
  have "length (?d @ u) = np_data_len q - 12" using u(2) length_f_payload[OF okq] abs_q by simp
  then obtain q1 q2 r where r: "in_payload q (cbc_open B sha finger ?n) = Inr (q1, length ?d + 4)"
    "NetPacket_set_encrypt_flag q1 False = Inr q2" "NetPacket_set_data_len q2 (12 + length ?d) = Inr r" "np_ok r"
    "np_abs r = (np_abs q)\<lparr>f_payload := ?d, f_encrypt := False\<rparr>"
    using open_packet[where f = "cbc_open B sha finger ?n", OF okq op] by blast
  have "AesCbc_encrypt_ipv4 B sha finger rnd p = Inr q"
    using p1(1) p2(1) p4(1) p5(1) q(1) by (simp add: AesCbc_encrypt_ipv4_def head_tag_eq[OF ok] k(1))
  moreover have "AesCbc_decrypt_ipv4 B sha finger q = Inr r"
    using r(1-3) cb(1) by (simp add: AesCbc_decrypt_ipv4_def np_get[OF okq] head_tag_eq[OF okq] abs_q HEAD_LEN_def)
  ultimately show "\<exists>q r. AesCbc_encrypt_ipv4 B sha finger rnd p = Inr q \<and> np_ok q \<and> tag_of (np_abs q) = ?n \<and>
      AesCbc_decrypt_ipv4 B sha finger q = Inr r \<and> np_ok r \<and> np_abs r = (np_abs p)\<lparr>f_encrypt := False\<rparr>"
    using okq abs_q r(4,5) by (intro exI[of _ q] exI[of _ r]) simp
qed

end
