(* ===== verification/Text_Parsing.thy ===== *)
theory Text_Parsing
  imports Vnt_Prelude
begin

text \<open>
  What the program uses of the standard library to read text: \<open>str::split\<close>, \<open>trim\<close>, \<open>to_lowercase\<close>,
  \<open>strip_prefix\<close>, and \<open>from_str\<close> of integers, \<open>Ipv4Addr\<close> and \<open>SocketAddr\<close>. A string is its list of bytes;
  case and white space are those of ASCII. The reader of IPv6 addresses is a parameter.
\<close>

section \<open>Strings\<close>

definition to_lowercase :: "string \<Rightarrow> string" where
  "to_lowercase = map (\<lambda>c. let n = of_char c :: nat in if 65 \<le> n \<and> n \<le> 90 then char_of (n + 32) else c)"

definition is_whitespace :: "char \<Rightarrow> bool" where
  "is_whitespace c = (let n = of_char c :: nat in n = 32 \<or> 9 \<le> n \<and> n \<le> 13)"

definition trim :: "string \<Rightarrow> string" where
  "trim s = rev (dropWhile is_whitespace (rev (dropWhile is_whitespace s)))"

fun split_on :: "char \<Rightarrow> string \<Rightarrow> string list" where
  "split_on c [] = [[]]"
| "split_on c (x # xs) =
     (if x = c then [] # split_on c xs
      else (case split_on c xs of p # ps \<Rightarrow> (x # p) # ps | [] \<Rightarrow> [[x]]))"

fun strip_prefix :: "string \<Rightarrow> string \<Rightarrow> string option" where
  "strip_prefix [] s = Some s"
| "strip_prefix (p # ps) [] = None"
| "strip_prefix (p # ps) (x # xs) = (if p = x then strip_prefix ps xs else None)"

definition starts_with :: "string \<Rightarrow> string \<Rightarrow> bool" where
  "starts_with s p \<longleftrightarrow> strip_prefix p s \<noteq> None"

text \<open>\<open>rfind\<close> with the two parts around the place found.\<close>

definition split_last :: "char \<Rightarrow> string \<Rightarrow> (string \<times> string) option" where
  "split_last c s = (if c \<in> set s then
     Some (rev (tl (dropWhile (\<lambda>x. x \<noteq> c) (rev s))), rev (takeWhile (\<lambda>x. x \<noteq> c) (rev s))) else None)"

section \<open>Numbers and addresses\<close>

definition digit_value :: "char \<Rightarrow> nat option" where
  "digit_value c = (let n = of_char c :: nat in if 48 \<le> n \<and> n \<le> 57 then Some (n - 48) else None)"

fun digits :: "nat \<Rightarrow> string \<Rightarrow> nat option" where
  "digits acc [] = Some acc"
| "digits acc (c # cs) = (case digit_value c of None \<Rightarrow> None | Some d \<Rightarrow> digits (10 * acc + d) cs)"

text \<open>\<open>from_str\<close> of an unsigned integer below \<open>limit\<close>: one sign \<open>+\<close> is allowed.\<close>

definition parse_unsigned :: "nat \<Rightarrow> string \<Rightarrow> nat option" where
  "parse_unsigned limit s = (let t = (case s of c # cs \<Rightarrow> if c = CHR ''+'' then cs else s | [] \<Rightarrow> []) in
     if t = [] then None
     else (case digits 0 t of Some n \<Rightarrow> if n < limit then Some n else None | None \<Rightarrow> None))"

definition parse_u32 :: "string \<Rightarrow> nat option" where "parse_u32 = parse_unsigned (2 ^ 32)"

definition parse_u16 :: "string \<Rightarrow> nat option" where "parse_u16 = parse_unsigned (2 ^ 16)"

text \<open>An octet: at most three digits, no leading zero.\<close>

definition parse_octet :: "string \<Rightarrow> nat option" where
  "parse_octet s =
     (if s = [] \<or> length s > 3 \<or> length s > 1 \<and> hd s = CHR ''0'' then None
      else (case digits 0 s of Some n \<Rightarrow> if n < 256 then Some n else None | None \<Rightarrow> None))"

definition parse_ipv4 :: "string \<Rightarrow> ipv4 option" where
  "parse_ipv4 s = (case split_on (CHR ''.'') s of
     [a, b, c, d] \<Rightarrow> (case (parse_octet a, parse_octet b, parse_octet c, parse_octet d) of
         (Some w, Some x, Some y, Some z) \<Rightarrow> Some (Ipv4Addr_new (of_nat w) (of_nat x) (of_nat y) (of_nat z))
       | _ \<Rightarrow> None)
   | _ \<Rightarrow> None)"

definition parse_digits :: "nat \<Rightarrow> string \<Rightarrow> nat option" where
  "parse_digits limit s = (if s = [] then None
     else (case digits 0 s of Some n \<Rightarrow> if n < limit then Some n else None | None \<Rightarrow> None))"

definition parse_socket_v4 :: "string \<Rightarrow> socket_addr option" where
  "parse_socket_v4 s = (case split_on (CHR '':'') s of
     [ip, port] \<Rightarrow> (case (parse_ipv4 ip, parse_digits 65536 port) of
         (Some a, Some p) \<Rightarrow> Some (SockV4 a (of_nat p)) | _ \<Rightarrow> None)
   | _ \<Rightarrow> None)"

text \<open>An IPv6 address stands in brackets, perhaps with a numeric scope.\<close>

definition parse_socket_v6 :: "(string \<Rightarrow> ipv6 option) \<Rightarrow> string \<Rightarrow> socket_addr option" where
  "parse_socket_v6 v6 s = (case s of
     [] \<Rightarrow> None
   | c # cs \<Rightarrow>
       if c \<noteq> CHR ''['' then None
       else (case split_on (CHR '']'') cs of
          [inner, col # port] \<Rightarrow>
            if col \<noteq> CHR '':'' then None
            else (case split_on (CHR ''%'') inner of
               [ip] \<Rightarrow> (case (v6 ip, parse_digits 65536 port) of
                   (Some a, Some p) \<Rightarrow> Some (SockV6 a (of_nat p) 0 0) | _ \<Rightarrow> None)
             | [ip, scope] \<Rightarrow> (case (v6 ip, parse_digits (2 ^ 32) scope, parse_digits 65536 port) of
                   (Some a, Some k, Some p) \<Rightarrow> Some (SockV6 a (of_nat p) 0 (of_nat k)) | _ \<Rightarrow> None)
             | _ \<Rightarrow> None)
        | _ \<Rightarrow> None))"

definition parse_socket_addr :: "(string \<Rightarrow> ipv6 option) \<Rightarrow> string \<Rightarrow> socket_addr option" where
  "parse_socket_addr v6 s = (case parse_socket_v4 s of Some a \<Rightarrow> Some a | None \<Rightarrow> parse_socket_v6 v6 s)"

section \<open>Display\<close>

definition digit_char :: "nat \<Rightarrow> char" where
  "digit_char d = char_of (48 + d)"

fun show_nat :: "nat \<Rightarrow> string" where
  "show_nat n = (if n < 10 then [digit_char n] else show_nat (n div 10) @ [digit_char (n mod 10)])"

declare show_nat.simps [simp del]

definition show_ipv4 :: "ipv4 \<Rightarrow> string" where
  "show_ipv4 ip = (case map (\<lambda>x. show_nat (unat x)) (octets ip) of
     [a, b, c, d] \<Rightarrow> a @ ''.'' @ b @ ''.'' @ c @ ''.'' @ d | _ \<Rightarrow> [])"

definition is_digit :: "char \<Rightarrow> bool" where
  "is_digit c \<longleftrightarrow> digit_value c \<noteq> None"

lemma digit_value_char [simp]: "d < 10 \<Longrightarrow> digit_value (digit_char d) = Some d"
  by (simp add: digit_value_def digit_char_def)

lemma digits_append: "digits acc (xs @ ys) = (case digits acc xs of None \<Rightarrow> None | Some a \<Rightarrow> digits a ys)"
  by (induction acc xs rule: digits.induct) (simp_all split: option.split)

lemma digits_show [simp]: "digits 0 (show_nat n) = Some n"
proof (induction n rule: show_nat.induct)
  case (1 n)
  then show ?case by (subst show_nat.simps) (simp add: digits_append)
qed

lemma show_nat_nonempty [simp]: "show_nat n \<noteq> []"
  by (subst show_nat.simps) simp

lemma show_nat_digits: "c \<in> set (show_nat n) \<Longrightarrow> is_digit c"
proof (induction n rule: show_nat.induct)
  case (1 n)
  from 1(2) show ?case by (subst (asm) show_nat.simps) (auto simp: is_digit_def split: if_splits dest: 1(1))
qed

lemma hd_show_nat: "10 \<le> n \<Longrightarrow> hd (show_nat n) \<noteq> CHR ''0''"
proof (induction n rule: show_nat.induct)
  case (1 n)
  have z: "digit_char d \<noteq> CHR ''0''" if "0 < d" "d < 10" for d
  proof
    assume "digit_char d = CHR ''0''"
    then have "digit_value (digit_char d) = Some 0" by (simp add: digit_value_def)
    with that show False by simp
  qed
  show ?case
  proof (cases "n div 10 < 10")
    case True
    with 1(2) z[of "n div 10"] show ?thesis
      by (subst show_nat.simps, subst show_nat.simps) auto
  next
    case False
    with 1 show ?thesis by (subst show_nat.simps) auto
  qed
qed

lemma length_show_nat: "n < 1000 \<Longrightarrow> length (show_nat n) \<le> 3"
  by (subst show_nat.simps, subst show_nat.simps, subst show_nat.simps) auto

lemma parse_octet_show [simp]: "n < 256 \<Longrightarrow> parse_octet (show_nat n) = Some n"
proof -
  assume n: "n < 256"
  have "length (show_nat n) > 1 \<Longrightarrow> hd (show_nat n) \<noteq> CHR ''0''"
    using hd_show_nat[of n] by (cases "n < 10") (simp_all add: show_nat.simps[of n])
  with n length_show_nat[of n] show ?thesis by (auto simp: parse_octet_def)
qed

lemma parse_unsigned_show [simp]: "n < limit \<Longrightarrow> parse_unsigned limit (show_nat n) = Some n"
proof -
  have "hd (show_nat n) \<noteq> CHR ''+''"
    using show_nat_digits[of "hd (show_nat n)" n] by (auto simp: is_digit_def digit_value_def)
  then have "(case show_nat n of c # cs \<Rightarrow> if c = CHR ''+'' then cs else show_nat n | [] \<Rightarrow> []) = show_nat n"
    by (cases "show_nat n") auto
  then show "n < limit \<Longrightarrow> ?thesis" by (simp add: parse_unsigned_def Let_def)
qed

lemma split_on_none [simp]: "c \<notin> set xs \<Longrightarrow> split_on c xs = [xs]"
  by (induction xs) auto

lemma split_on_append [simp]: "c \<notin> set xs \<Longrightarrow> split_on c (xs @ c # ys) = xs # split_on c ys"
  by (induction xs) (auto split: list.splits)

lemma not_in_show [simp]: "\<not> is_digit c \<Longrightarrow> c \<notin> set (show_nat n)"
  using show_nat_digits by blast

lemma not_digits [simp]:
  "\<not> is_digit (CHR ''.'')" "\<not> is_digit (CHR ''/'')" "\<not> is_digit (CHR '','')" "\<not> is_digit (CHR '':'')"
  by (simp_all add: is_digit_def digit_value_def)

lemma parse_show_ipv4 [simp]: "parse_ipv4 (show_ipv4 ip) = Some ip"
proof -
  have b: "unat x < 256" for x :: u8 using unsigned_less[of x] by simp
  obtain w x y z where o: "octets ip = [w, x, y, z]" by (simp add: octets_def be32_bytes_def)
  have "Ipv4Addr_new w x y z = ip" using Ipv4Addr_new_octets[of ip] by (simp add: o numeral_eq_Suc)
  then show ?thesis by (simp add: parse_ipv4_def show_ipv4_def o b)
qed

lemma show_ipv4_chars: "c \<in> set (show_ipv4 ip) \<Longrightarrow> is_digit c \<or> c = CHR ''.''"
  by (auto simp: show_ipv4_def octets_def be32_bytes_def dest: show_nat_digits)

lemma not_in_show_ipv4 [simp]: "\<not> is_digit c \<Longrightarrow> c \<noteq> CHR ''.'' \<Longrightarrow> c \<notin> set (show_ipv4 ip)"
  using show_ipv4_chars by blast

end
