(* ===== verification/Cipher.thy ===== *)
theory Cipher
  imports Block_Ciphers Text_Parsing
begin

text \<open>
  The dispatch between the packet ciphers and the derivation of their keys, \<^verbatim>\<open>vnt/src/cipher/cipher.rs\<close>, with the
  properties that hold for all of them.
\<close>

section \<open>Dispatch\<close>

datatype Cipher =
  Cipher_AesGcm aead "u8 list option"
| Cipher_Chacha20Poly1305 aead "u8 list option"
| Cipher_Chacha20 keystream "u8 list option"
| Cipher_AesCbc block_mode "u8 list option"
| Cipher_AesEcb block_mode "u8 list option"
| Cipher_Sm4Cbc block_mode "u32 \<Rightarrow> u8 list" "u8 list option"
| Cipher_Xor "u8 list"
| Cipher_None

definition decrypt_ipv4 :: "hash \<Rightarrow> Cipher \<Rightarrow> net_packet \<Rightarrow> net_packet res" where
  "decrypt_ipv4 sha c p = (case c of
     Cipher_AesGcm A finger \<Rightarrow> AesGcm_decrypt_ipv4 A sha finger p
   | Cipher_Chacha20Poly1305 A finger \<Rightarrow> ChaCha20Poly1305_decrypt_ipv4 A sha finger p
   | Cipher_Chacha20 ks finger \<Rightarrow> ChaCha20_decrypt_ipv4 ks sha finger p
   | Cipher_AesCbc B finger \<Rightarrow> AesCbc_decrypt_ipv4 B sha finger p
   | Cipher_AesEcb B finger \<Rightarrow> AesEcb_decrypt_ipv4 B sha finger p
   | Cipher_Sm4Cbc B _ finger \<Rightarrow> Sm4Cbc_decrypt_ipv4 B sha finger p
   | Cipher_Xor key \<Rightarrow> XOR_decrypt_ipv4 key p
   | Cipher_None \<Rightarrow> bindE (NetPacket_is_encrypt p) (\<lambda>en. if en then Inl (Anyhow ''not key'') else Inr p))"

definition encrypt_ipv4 :: "hash \<Rightarrow> Cipher \<Rightarrow> u32 \<Rightarrow> net_packet \<Rightarrow> net_packet res" where
  "encrypt_ipv4 sha c random p = (case c of
     Cipher_AesGcm A finger \<Rightarrow> AesGcm_encrypt_ipv4 A sha finger random p
   | Cipher_Chacha20Poly1305 A finger \<Rightarrow> ChaCha20Poly1305_encrypt_ipv4 A sha finger (be32_bytes random) p
   | Cipher_Chacha20 ks finger \<Rightarrow> ChaCha20_encrypt_ipv4 ks sha finger (be32_bytes random) p
   | Cipher_AesCbc B finger \<Rightarrow> AesCbc_encrypt_ipv4 B sha finger random p
   | Cipher_AesEcb B finger \<Rightarrow> AesEcb_encrypt_ipv4 B sha finger p
   | Cipher_Sm4Cbc B iv_of finger \<Rightarrow> Sm4Cbc_encrypt_ipv4 B sha finger (iv_of random) p
   | Cipher_Xor key \<Rightarrow> XOR_encrypt_ipv4 key p
   | Cipher_None \<Rightarrow> Inr p)"

definition Cipher_check_finger :: "hash \<Rightarrow> Cipher \<Rightarrow> net_packet \<Rightarrow> unit res" where
  "Cipher_check_finger sha c p = (case c of
     Cipher_AesGcm A finger \<Rightarrow> (case finger of Some h \<Rightarrow> check_finger sha h p | None \<Rightarrow> Inr ())
   | Cipher_Chacha20Poly1305 A finger \<Rightarrow> (case finger of Some h \<Rightarrow> check_finger sha h p | None \<Rightarrow> Inr ())
   | Cipher_Chacha20 ks finger \<Rightarrow> (case finger of Some h \<Rightarrow> check_finger sha h p | None \<Rightarrow> Inr ())
   | Cipher_AesCbc B finger \<Rightarrow> (case finger of Some h \<Rightarrow> check_finger sha h p | None \<Rightarrow> Inr ())
   | Cipher_AesEcb B finger \<Rightarrow> (case finger of Some h \<Rightarrow> check_finger sha h p | None \<Rightarrow> Inr ())
   | Cipher_Sm4Cbc B _ finger \<Rightarrow> (case finger of Some h \<Rightarrow> check_finger sha h p | None \<Rightarrow> Inr ())
   | Cipher_Xor key \<Rightarrow> Inr ()
   | Cipher_None \<Rightarrow> Inr ())"

definition cipher_laws :: "Cipher \<Rightarrow> bool" where
  "cipher_laws c = (case c of
     Cipher_AesGcm A _ \<Rightarrow> aead_laws A | Cipher_Chacha20Poly1305 A _ \<Rightarrow> aead_laws A
   | Cipher_Chacha20 ks _ \<Rightarrow> stream_laws ks
   | Cipher_AesCbc B _ \<Rightarrow> block_laws B | Cipher_AesEcb B _ \<Rightarrow> block_laws B
   | Cipher_Sm4Cbc B iv_of _ \<Rightarrow> block_laws B \<and> (\<forall>r. length (iv_of r) = 16) | _ \<Rightarrow> True)"

text \<open>The bytes a cipher adds at most.\<close>

definition growth :: "Cipher \<Rightarrow> nat" where
  "growth c = (case c of Cipher_AesEcb _ _ \<Rightarrow> 40 | Cipher_Sm4Cbc _ _ _ \<Rightarrow> 56 | _ \<Rightarrow> 32)"

text \<open>The two ciphers that work in a buffer of their own have a limit on the packet.\<close>

definition size_limit :: "Cipher \<Rightarrow> nat option" where
  "size_limit c = (case c of Cipher_AesEcb _ _ \<Rightarrow> Some (ECB_BUFFER - 1) | Cipher_Sm4Cbc _ _ _ \<Rightarrow> Some (SM4_BUFFER - 32)
     | _ \<Rightarrow> None)"

lemma check_finger_eq:
  assumes "np_ok q" "f_encrypt (np_abs q)" "f_payload (np_abs q) = body @ fb" "length fb = 12"
  shows "check_finger sha h q = (if calculate_finger sha h (tag_of (np_abs q)) body = fb then Inr ()
     else Inl (Anyhow ''finger err''))"
  using assms(2-4)
  by (simp add: check_finger_def np_get[OF assms(1)] tag_of_def Let_def protocol_code.to_of)

section \<open>Key derivation\<close>

datatype CipherModel = Model_AesGcm | Model_Chacha20Poly1305 | Model_Chacha20 | Model_AesCbc | Model_AesEcb
  | Model_Sm4Cbc | Model_Xor | Model_None

definition CipherModel_display :: "CipherModel \<Rightarrow> string" where
  "CipherModel_display m = (case m of
     Model_AesGcm \<Rightarrow> ''aes_gcm'' | Model_Chacha20Poly1305 \<Rightarrow> ''chacha20_poly1305'' | Model_Chacha20 \<Rightarrow> ''chacha20''
   | Model_AesCbc \<Rightarrow> ''aes_cbc'' | Model_AesEcb \<Rightarrow> ''aes_ecb'' | Model_Sm4Cbc \<Rightarrow> ''sm4_cbc''
   | Model_Xor \<Rightarrow> ''xor'' | Model_None \<Rightarrow> ''none'')"

definition CipherModel_from_str :: "string \<Rightarrow> string + CipherModel" where
  "CipherModel_from_str s = (let t = trim (to_lowercase s) in
     if t = ''aes_gcm'' then Inr Model_AesGcm
     else if t = ''chacha20_poly1305'' then Inr Model_Chacha20Poly1305
     else if t = ''chacha20'' then Inr Model_Chacha20
     else if t = ''aes_cbc'' then Inr Model_AesCbc
     else if t = ''aes_ecb'' then Inr Model_AesEcb
     else if t = ''sm4_cbc'' then Inr Model_Sm4Cbc
     else if t = ''xor'' then Inr Model_Xor
     else Inl (''not match '' @ [CHR 0x27] @ s @ [CHR 0x27] @
       '', enum:aes_gcm/chacha20_poly1305/chacha20/aes_cbc/aes_ecb/sm4_cbc/xor''))"

text \<open>
  The crypto libraries, keyed: what \<open>AesGcmCipher::new_128\<close> and its like build from a key. The
  AES modes accept a key of 16 or 32 bytes, SM4 one of 16, ChaCha20 one of 32.
\<close>

record crypto_lib =
  cl_sha :: hash
  cl_aes_gcm :: "u8 list \<Rightarrow> aead"
  cl_chacha_poly :: "u8 list \<Rightarrow> aead"
  cl_chacha :: "u8 list \<Rightarrow> keystream"
  cl_aes_cbc :: "u8 list \<Rightarrow> block_mode"
  cl_aes_ecb :: "u8 list \<Rightarrow> block_mode"
  cl_sm4 :: "u8 list \<Rightarrow> block_mode"
  cl_iv_of :: "u32 \<Rightarrow> u8 list"

definition crypto_laws :: "crypto_lib \<Rightarrow> bool" where
  "crypto_laws L \<longleftrightarrow> sha_laws (cl_sha L) \<and> (\<forall>r. length (cl_iv_of L r) = 16) \<and>
     (\<forall>k. length k = 16 \<or> length k = 32 \<longrightarrow>
        aead_laws (cl_aes_gcm L k) \<and> block_laws (cl_aes_cbc L k) \<and> block_laws (cl_aes_ecb L k)) \<and>
     (\<forall>k. length k = 16 \<longrightarrow> block_laws (cl_sm4 L k)) \<and>
     (\<forall>k. length k = 32 \<longrightarrow> aead_laws (cl_chacha_poly L k) \<and> stream_laws (cl_chacha L k))"

text \<open>
  \<open>new_password\<close> hashes the password to 32 bytes; the AES ciphers take the first 16 of them when the
  password is shorter than eight bytes. The result carries the cipher and the key that \<open>key\<close> reads
  from it.
\<close>

definition Cipher_new_password ::
  "crypto_lib \<Rightarrow> CipherModel \<Rightarrow> u8 list option \<Rightarrow> u8 list option \<Rightarrow> (Cipher \<times> u8 list option) res" where
  "Cipher_new_password L model password token = (case password of
     None \<Rightarrow> Inr (Cipher_None, None)
   | Some pw \<Rightarrow> (let key = cl_sha L pw; finger = map_option (Finger_new (cl_sha L)) token;
        aes_key = (if length pw < 8 then take 16 key else key) in
      case model of
        Model_AesGcm \<Rightarrow> Inr (Cipher_AesGcm (cl_aes_gcm L aes_key) finger, Some aes_key)
      | Model_Chacha20Poly1305 \<Rightarrow> Inr (Cipher_Chacha20Poly1305 (cl_chacha_poly L key) finger, Some key)
      | Model_Chacha20 \<Rightarrow> Inr (Cipher_Chacha20 (cl_chacha L key) finger, Some key)
      | Model_AesCbc \<Rightarrow> Inr (Cipher_AesCbc (cl_aes_cbc L aes_key) finger, Some aes_key)
      | Model_AesEcb \<Rightarrow> Inr (Cipher_AesEcb (cl_aes_ecb L aes_key) finger, Some aes_key)
      | Model_Sm4Cbc \<Rightarrow> Inr (Cipher_Sm4Cbc (cl_sm4 L (take 16 key)) (cl_iv_of L) finger, Some (take 16 key))
      | Model_Xor \<Rightarrow>
          if token \<noteq> None then Inl (Anyhow ''finger and xor cannot be used simultaneously'')
          else bindE (simple_hash pw) (\<lambda>k. Inr (Cipher_Xor k, Some k))
      | Model_None \<Rightarrow> Inr (Cipher_None, None)))"

definition Cipher_new_key :: "crypto_lib \<Rightarrow> u8 list \<Rightarrow> u8 list \<Rightarrow> (Cipher \<times> u8 list option) res" where
  "Cipher_new_key L key token = (let finger = Some (Finger_new (cl_sha L) token) in
     if length key = 16 then Inr (Cipher_AesGcm (cl_aes_gcm L (take 16 key)) finger, Some (take 16 key))
     else if length key = 32 then Inr (Cipher_AesGcm (cl_aes_gcm L key) finger, Some key)
     else Inl (Anyhow ''key error''))"

lemma length_foldl_fst:
  "(\<And>s i. length (fst (f s i)) = length (fst s)) \<Longrightarrow> length (fst (foldl f s xs)) = length (fst s)"
  by (induction xs arbitrary: s) simp_all

lemma simple_hash_length: "simple_hash bytes = Inr k \<Longrightarrow> length k = 32"
  by (auto simp: simple_hash_def length_foldl_fst simple_hash_mix_def simple_hash_finish_def Let_def
      split: if_splits prod.splits)

lemma simple_hash_total: "bytes \<noteq> [] \<Longrightarrow> \<exists>k. simple_hash bytes = Inr k" "simple_hash [] = Inl Panic"
  by (simp_all add: simple_hash_def)

lemma display_parse:
  "CipherModel_from_str (CipherModel_display m) = Inr m \<longleftrightarrow> m \<noteq> Model_None"
  by (cases m) (simp_all add: CipherModel_display_def CipherModel_from_str_def to_lowercase_def trim_def
      is_whitespace_def)

lemma new_password_ok:
  assumes "crypto_laws L"
  shows "(case Cipher_new_password L model (Some pw) token of
     Inl e \<Rightarrow> model = Model_Xor \<and> (if token \<noteq> None then (\<exists>m. e = Anyhow m) else pw = [] \<and> e = Panic)
   | Inr (c, key) \<Rightarrow> cipher_laws c \<and> (key = None \<longleftrightarrow> model = Model_None) \<and>
       (\<forall>k. key = Some k \<longrightarrow> length k = (if model = Model_Sm4Cbc \<or>
          length pw < 8 \<and> model \<in> {Model_AesGcm, Model_AesCbc, Model_AesEcb} then 16 else 32))) \<and>
   (length k32 = 32 \<longrightarrow> (\<exists>c. Cipher_new_key L k32 tok = Inr (c, Some k32) \<and> cipher_laws c))"
proof -
  have A: "case Cipher_new_password L model (Some pw) token of
     Inl e \<Rightarrow> model = Model_Xor \<and> (if token \<noteq> None then (\<exists>m. e = Anyhow m) else pw = [] \<and> e = Panic)
   | Inr (c, key) \<Rightarrow> cipher_laws c \<and> (key = None \<longleftrightarrow> model = Model_None) \<and>
       (\<forall>k. key = Some k \<longrightarrow> length k = (if model = Model_Sm4Cbc \<or>
          length pw < 8 \<and> model \<in> {Model_AesGcm, Model_AesCbc, Model_AesEcb} then 16 else 32))"
  proof (cases model)
    case Model_Xor
    show ?thesis
      using simple_hash_total simple_hash_length[of pw]
      by (cases "pw = []") (force simp: Cipher_new_password_def Let_def cipher_laws_def Model_Xor)+
  qed (use assms in \<open>simp_all add: Cipher_new_password_def Let_def cipher_laws_def crypto_laws_def sha_laws_def\<close>)
  have "length k32 = 32 \<longrightarrow> (\<exists>c. Cipher_new_key L k32 tok = Inr (c, Some k32) \<and> cipher_laws c)"
    using assms by (simp add: Cipher_new_key_def cipher_laws_def crypto_laws_def)
  with A show ?thesis by blast
qed

section \<open>Properties\<close>

text \<open>
  C6. Whatever cipher is configured, with or without fingers: encrypting a well-formed, not yet encrypted
  packet with room for the bytes the cipher adds succeeds (the reserve every sender leaves,
  \<open>ENCRYPTION_RESERVED\<close>, is enough for each of the eight), leaves the header fields covered by the
  finger alone, and decrypting the result gives back the packet, every header field and every
  payload byte, with the encryption flag off. The two ciphers that work in a buffer of their own need the
  packet to fit it.
\<close>

theorem encrypt_decrypt_roundtrip:
  assumes "np_ok p" and "\<not> f_encrypt (np_abs p)" and "fits_by (growth c) p" and "sha_laws sha" and "cipher_laws c"
    and "\<forall>k. size_limit c = Some k \<longrightarrow> np_data_len p \<le> k"
  shows "growth c \<le> ENCRYPTION_RESERVED \<and>
    (\<exists>q r. encrypt_ipv4 sha c random p = Inr q \<and> np_ok q \<and> tag_of (np_abs q) = tag_of (np_abs p) \<and>
      decrypt_ipv4 sha c q = Inr r \<and> np_ok r \<and> np_abs r = np_abs p)"
proof -
  have e: "(np_abs p)\<lparr>f_encrypt := False\<rparr> = np_abs p" using assms(2) by (cases "np_abs p") simp
  note cipher_defs = encrypt_ipv4_def decrypt_ipv4_def cipher_laws_def growth_def size_limit_def ENCRYPTION_RESERVED_def
  show ?thesis
  proof (cases c)
    case (Cipher_AesGcm A finger)
    with assms gcm_cipher.roundtrip[of p A sha finger random] e show ?thesis
      by (simp add: cipher_defs fits_gcm_def)
  next
    case (Cipher_Chacha20Poly1305 A finger)
    with assms poly_cipher.roundtrip[of p A sha finger random] e show ?thesis
      by (simp add: cipher_defs fits_poly_def)
  next
    case (Cipher_Chacha20 ks finger)
    with assms chacha_cipher.roundtrip[of p ks sha finger random] e show ?thesis
      by (simp add: cipher_defs fits_chacha_def fits_by_def)
  next
    case (Cipher_AesCbc B finger)
    with assms cbc_cipher.roundtrip[of p B sha finger random] e show ?thesis
      by (simp add: cipher_defs fits_cbc_def)
  next
    case (Cipher_AesEcb B finger)
    with assms ecb_cipher.roundtrip[of p B sha finger] e show ?thesis
      by (simp add: cipher_defs fits_ecb_def ECB_BUFFER_def)
  next
    case (Cipher_Sm4Cbc B iv_of finger)
    with assms sm4_cipher.roundtrip[of p B sha iv_of finger random] e show ?thesis
      by (simp add: cipher_defs fits_sm4_def SM4_BUFFER_def)
  next
    case (Cipher_Xor key)
    with assms xor_cipher.roundtrip[of p key] e show ?thesis
      by (simp add: cipher_defs )
  next
    case Cipher_None
    with assms show ?thesis by (simp add: cipher_defs np_get)
  qed
qed

text \<open>A concrete instance of the primitives, for the witnesses.\<close>

definition plain_aead :: aead where
  "plain_aead = \<lparr>ae_seal = (\<lambda>_ d. Some (d, replicate 16 7)), ae_open = (\<lambda>_ b. Some b)\<rparr>"

definition sum_hash :: hash where
  "sum_hash m = replicate 31 0 @ [sum_list m]"

definition cipher_sample :: net_packet where
  "cipher_sample = \<lparr>np_data_len = 14,
     np_buffer = [0x02, 4, 1, 0x33, 10, 26, 0, 2, 10, 26, 0, 3, 7, 9] @ replicate 60 0\<rparr>"

lemma sample_laws: "aead_laws plain_aead" "sha_laws sum_hash" "stream_laws (\<lambda>_ d. d)"
  by (simp_all add: aead_laws_def plain_aead_def sha_laws_def sum_hash_def stream_laws_def)

lemma cipher_sample_ok: "np_ok cipher_sample" "\<not> f_encrypt (np_abs cipher_sample)" "fits_by 32 cipher_sample"
  by (simp_all add: np_ok_def cipher_sample_def np_abs_def fits_by_def MAX_UDP_BODY_def)

lemma encrypt_decrypt_roundtrip_witness:
  "\<exists>q r. encrypt_ipv4 sum_hash (Cipher_AesGcm plain_aead (Some [1, 2])) 5 cipher_sample = Inr q \<and>
     decrypt_ipv4 sum_hash (Cipher_AesGcm plain_aead (Some [1, 2])) q = Inr r \<and> np_abs r = np_abs cipher_sample"
  using encrypt_decrypt_roundtrip[OF cipher_sample_ok(1,2) _ sample_laws(2), of "Cipher_AesGcm plain_aead (Some [1, 2])" 5]
  by (auto simp: cipher_laws_def growth_def size_limit_def sample_laws cipher_sample_ok)


definition plain_block :: block_mode where
  "plain_block = \<lparr>bm_enc = (\<lambda>_ m. m @ replicate (16 - length m mod 16) (of_nat (16 - length m mod 16))),
     bm_dec = (\<lambda>_ b. Some (b, length b - unat (last b)))\<rparr>"

definition plain_crypto :: crypto_lib where
  "plain_crypto = \<lparr>cl_sha = sum_hash, cl_aes_gcm = (\<lambda>_. plain_aead), cl_chacha_poly = (\<lambda>_. plain_aead),
     cl_chacha = (\<lambda>_ _ d. d), cl_aes_cbc = (\<lambda>_. plain_block), cl_aes_ecb = (\<lambda>_. plain_block),
     cl_sm4 = (\<lambda>_. plain_block), cl_iv_of = (\<lambda>r. replicate 16 0)\<rparr>"

lemma plain_block_laws: "block_laws plain_block"
proof -
  have "length m + (16 - length m mod 16) = 16 * (length m div 16 + 1)" for m :: "u8 list"
    by presburger
  moreover have "unat (of_nat (16 - length m mod 16) :: u8) = 16 - length m mod 16" for m :: "u8 list"
    by (simp add: unat_of_nat del: of_nat_diff)
  moreover have "last (m @ replicate (16 - length m mod 16) x) = x" for m :: "u8 list" and x
  proof -
    have "16 - length m mod 16 \<noteq> 0" using mod_less_divisor[of 16 "length m"] by simp
    then show ?thesis by simp
  qed
  ultimately show ?thesis by (simp add: block_laws_def plain_block_def)
qed

lemma plain_crypto_laws: "crypto_laws plain_crypto"
  by (simp add: crypto_laws_def plain_crypto_def sample_laws plain_block_laws)


text \<open>
  With AES-GCM, a relay that knows the token but not the key can verify the finger: \<open>check_finger\<close>
  accepts every packet that \<open>encrypt_ipv4\<close> produced.
\<close>

theorem gcm_finger_checks:
  assumes "np_ok p" and "fits_gcm A sha p" and "encrypt_ipv4 sha (Cipher_AesGcm A (Some h)) random p = Inr q"
  shows "Cipher_check_finger sha (Cipher_AesGcm A (Some h)) q = Inr ()"
proof -
  let ?n = "tag_of (np_abs p)"
  obtain q0 ct tg where q0: "AesGcm_encrypt_ipv4 A sha (Some h) random p = Inr q0" "np_ok q0"
    "np_abs q0 = (np_abs p)\<lparr>f_payload := ct @ tg @
      finger_bytes (finger_for sha (Some h) ?n (ct @ tg)), f_encrypt := True\<rparr>"
    using gcm_packet[OF assms(1,2), where finger = "Some h" and rnd = random] .
  have "q0 = q" using q0(1) assms(3) by (simp add: encrypt_ipv4_def)
  note q = q0(2,3)[unfolded this]
  have "sha_laws sha" using assms(2) by (simp add: fits_gcm_def)
  with q check_finger_eq[OF q(1), of "ct @ tg" "calculate_finger sha h ?n (ct @ tg)" sha h] show ?thesis
    by (simp add: Cipher_check_finger_def finger_for_def finger_bytes_def)
qed

lemma gcm_finger_checks_witness:
  "\<exists>q. encrypt_ipv4 sum_hash (Cipher_AesGcm plain_aead (Some [1, 2])) 5 cipher_sample = Inr q \<and>
     Cipher_check_finger sum_hash (Cipher_AesGcm plain_aead (Some [1, 2])) q = Inr ()"
proof -
  have f: "fits_gcm plain_aead sum_hash cipher_sample" using sample_laws cipher_sample_ok by (simp add: fits_gcm_def)
  then obtain q where "encrypt_ipv4 sum_hash (Cipher_AesGcm plain_aead (Some [1, 2])) 5 cipher_sample = Inr q"
    using gcm_cipher.roundtrip[OF cipher_sample_ok(1) f, of "Some [1, 2]" 5] by (auto simp: encrypt_ipv4_def)
  with gcm_finger_checks[OF cipher_sample_ok(1) f] show ?thesis by blast
qed

text \<open>
  With ChaCha20 the finger covers the cipher text but not the random bytes that make the nonce.
  Two consequences on a packet that \<open>encrypt_ipv4\<close> produced: \<open>check_finger\<close>, which hashes
  everything before the finger, accepts it only if the two hashes happen to agree; and when
  the random bytes are replaced on the way, decryption accepts the packet all the same and
  yields the cipher text under another key stream.
\<close>

theorem chacha_finger_misses_random:
  assumes "np_ok p" and "fits_chacha ks sha p"
    and "encrypt_ipv4 sha (Cipher_Chacha20 ks (Some h)) random p = Inr q"
    and "n = tag_of (np_abs p)" and "ct = ks (gen_nonce n (be32_bytes random)) (f_payload (np_abs p))"
  shows "f_payload (np_abs q) = ct @ be32_bytes random @ calculate_finger sha h n ct \<and>
    (Cipher_check_finger sha (Cipher_Chacha20 ks (Some h)) q = Inr () \<longleftrightarrow>
       calculate_finger sha h n (ct @ be32_bytes random) = calculate_finger sha h n ct) \<and>
    (\<forall>q' r'. np_ok q' \<and> length r' = 4 \<and>
       np_abs q' = (np_abs q)\<lparr>f_payload := ct @ r' @ calculate_finger sha h n ct\<rparr> \<longrightarrow>
       (\<exists>r. decrypt_ipv4 sha (Cipher_Chacha20 ks (Some h)) q' = Inr r \<and>
          f_payload (np_abs r) = ks (gen_nonce n r') ct))"
proof -
  let ?fb = "calculate_finger sha h n ct"
  have fb: "finger_bytes (finger_for sha (Some h) n ct) = ?fb" by (simp add: finger_for_def finger_bytes_def)
  have S: "sha_laws sha" using assms(2) by (simp add: fits_chacha_def)
  obtain q0 where q0: "ChaCha20_encrypt_ipv4 ks sha (Some h) (be32_bytes random) p = Inr q0" "np_ok q0"
    "np_abs q0 = (np_abs p)\<lparr>f_payload := ct @ be32_bytes random @ ?fb, f_encrypt := True\<rparr>"
    and op: "\<And>q' r'. np_ok q' \<Longrightarrow> length r' = 4 \<Longrightarrow>
       np_abs q' = (np_abs p)\<lparr>f_payload := ct @ r' @ ?fb, f_encrypt := True\<rparr> \<Longrightarrow>
       \<exists>r. ChaCha20_decrypt_ipv4 ks sha (Some h) q' = Inr r \<and> np_ok r \<and>
         np_abs r = (np_abs p)\<lparr>f_payload := ks (gen_nonce n r') ct, f_encrypt := False\<rparr>"
    using chacha_packet[OF assms(1,2), where finger = "Some h" and rnd = random]
    unfolding assms(4,5)[symmetric] fb by blast
  have q: "q0 = q" using q0(1) assms(3) by (simp add: encrypt_ipv4_def)
  have "check_finger sha h q = Inr () \<longleftrightarrow> calculate_finger sha h n (ct @ be32_bytes random) = ?fb"
    using check_finger_eq[of q "ct @ be32_bytes random" ?fb sha h] q0 S
    by (simp add: q assms(4)[symmetric])
  moreover have "\<exists>r. decrypt_ipv4 sha (Cipher_Chacha20 ks (Some h)) q' = Inr r \<and>
      f_payload (np_abs r) = ks (gen_nonce n r') ct"
    if "np_ok q'" "length r' = 4" "np_abs q' = (np_abs q)\<lparr>f_payload := ct @ r' @ ?fb\<rparr>" for q' r'
    using op[OF that(1,2)] that(3) q0(3) by (auto simp: q decrypt_ipv4_def)
  ultimately show ?thesis using q0(3) by (simp add: q Cipher_check_finger_def)
qed

lemma chacha_finger_misses_random_witness:
  "\<exists>q. encrypt_ipv4 sum_hash (Cipher_Chacha20 (\<lambda>_ d. d) (Some [1, 2])) 5 cipher_sample = Inr q \<and>
     Cipher_check_finger sum_hash (Cipher_Chacha20 (\<lambda>_ d. d) (Some [1, 2])) q \<noteq> Inr ()"
proof -
  have f: "fits_chacha (\<lambda>_ d. d) sum_hash cipher_sample"
    using sample_laws cipher_sample_ok by (simp add: fits_chacha_def fits_by_def)
  then obtain q where q: "encrypt_ipv4 sum_hash (Cipher_Chacha20 (\<lambda>_ d. d) (Some [1, 2])) 5 cipher_sample = Inr q"
    using chacha_cipher.roundtrip[OF cipher_sample_ok(1) f, of "Some [1, 2]" 5] by (auto simp: encrypt_ipv4_def)
  have "calculate_finger sum_hash [1, 2] n (d @ be32_bytes 5) \<noteq> calculate_finger sum_hash [1, 2] n d" for n d
    by (simp add: calculate_finger_def sum_hash_def be32_bytes_def)
  with chacha_finger_misses_random[OF cipher_sample_ok(1) f q refl refl] q show ?thesis by blast
qed

end
