(* ===== verification/Control_Packet.thy ===== *)
theory Control_Packet
  imports Net_Packet
begin

text \<open>
  The transport-protocol enums of the five VNT protocols
  (\<^verbatim>\<open>service_packet.rs\<close>, \<^verbatim>\<open>error_packet.rs\<close>,
  \<^verbatim>\<open>control_packet.rs\<close>, \<^verbatim>\<open>ip_turn_packet.rs\<close>,
  \<^verbatim>\<open>other_turn_packet.rs\<close>), each an instance of \<open>wire_code\<close>, and the bodies that
  have a layout of their own: ping/pong, address response, error message and the broadcast
  packet with the list of addresses already served.
\<close>

section \<open>Enums\<close>

datatype ServiceProtocol =
    Service_RegistrationRequest | Service_RegistrationResponse | Service_PullDeviceList
  | Service_PushDeviceList | Service_HandshakeRequest | Service_HandshakeResponse
  | Service_SecretHandshakeRequest | Service_SecretHandshakeResponse | Service_ClientStatusInfo
  | Service_Unknown u8

definition ServiceProtocol_of_u8 :: "u8 \<Rightarrow> ServiceProtocol" where
  "ServiceProtocol_of_u8 v =
     (if v = 1 then Service_RegistrationRequest else if v = 2 then Service_RegistrationResponse
      else if v = 3 then Service_PullDeviceList else if v = 4 then Service_PushDeviceList
      else if v = 5 then Service_HandshakeRequest else if v = 6 then Service_HandshakeResponse
      else if v = 7 then Service_SecretHandshakeRequest
      else if v = 8 then Service_SecretHandshakeResponse
      else if v = 9 then Service_ClientStatusInfo else Service_Unknown v)"

fun ServiceProtocol_to_u8 :: "ServiceProtocol \<Rightarrow> u8" where
  "ServiceProtocol_to_u8 Service_RegistrationRequest = 1"
| "ServiceProtocol_to_u8 Service_RegistrationResponse = 2"
| "ServiceProtocol_to_u8 Service_PullDeviceList = 3"
| "ServiceProtocol_to_u8 Service_PushDeviceList = 4"
| "ServiceProtocol_to_u8 Service_HandshakeRequest = 5"
| "ServiceProtocol_to_u8 Service_HandshakeResponse = 6"
| "ServiceProtocol_to_u8 Service_SecretHandshakeRequest = 7"
| "ServiceProtocol_to_u8 Service_SecretHandshakeResponse = 8"
| "ServiceProtocol_to_u8 Service_ClientStatusInfo = 9"
| "ServiceProtocol_to_u8 (Service_Unknown v) = v"

datatype ErrorProtocol =
    Error_TokenError | Error_Disconnect | Error_AddressExhausted | Error_IpAlreadyExists
  | Error_InvalidIp | Error_NoKey | Error_Other u8

definition ErrorProtocol_of_u8 :: "u8 \<Rightarrow> ErrorProtocol" where
  "ErrorProtocol_of_u8 v =
     (if v = 1 then Error_TokenError else if v = 2 then Error_Disconnect
      else if v = 3 then Error_AddressExhausted else if v = 4 then Error_IpAlreadyExists
      else if v = 5 then Error_InvalidIp else if v = 6 then Error_NoKey else Error_Other v)"

fun ErrorProtocol_to_u8 :: "ErrorProtocol \<Rightarrow> u8" where
  "ErrorProtocol_to_u8 Error_TokenError = 1"
| "ErrorProtocol_to_u8 Error_Disconnect = 2"
| "ErrorProtocol_to_u8 Error_AddressExhausted = 3"
| "ErrorProtocol_to_u8 Error_IpAlreadyExists = 4"
| "ErrorProtocol_to_u8 Error_InvalidIp = 5"
| "ErrorProtocol_to_u8 Error_NoKey = 6"
| "ErrorProtocol_to_u8 (Error_Other v) = v"

datatype ControlProtocol =
    Control_Ping | Control_Pong | Control_PunchRequest | Control_PunchResponse
  | Control_AddrRequest | Control_AddrResponse | Control_Unknown u8

definition ControlProtocol_of_u8 :: "u8 \<Rightarrow> ControlProtocol" where
  "ControlProtocol_of_u8 v =
     (if v = 1 then Control_Ping else if v = 2 then Control_Pong
      else if v = 3 then Control_PunchRequest else if v = 4 then Control_PunchResponse
      else if v = 5 then Control_AddrRequest else if v = 6 then Control_AddrResponse
      else Control_Unknown v)"

fun ControlProtocol_to_u8 :: "ControlProtocol \<Rightarrow> u8" where
  "ControlProtocol_to_u8 Control_Ping = 1"
| "ControlProtocol_to_u8 Control_Pong = 2"
| "ControlProtocol_to_u8 Control_PunchRequest = 3"
| "ControlProtocol_to_u8 Control_PunchResponse = 4"
| "ControlProtocol_to_u8 Control_AddrRequest = 5"
| "ControlProtocol_to_u8 Control_AddrResponse = 6"
| "ControlProtocol_to_u8 (Control_Unknown v) = v"

datatype IpTurnProtocol = IpTurn_Ipv4 | IpTurn_WGIpv4 | IpTurn_Ipv4Broadcast | IpTurn_Unknown u8

definition IpTurnProtocol_of_u8 :: "u8 \<Rightarrow> IpTurnProtocol" where
  "IpTurnProtocol_of_u8 v =
     (if v = 4 then IpTurn_Ipv4 else if v = 5 then IpTurn_WGIpv4
      else if v = 201 then IpTurn_Ipv4Broadcast else IpTurn_Unknown v)"

fun IpTurnProtocol_to_u8 :: "IpTurnProtocol \<Rightarrow> u8" where
  "IpTurnProtocol_to_u8 IpTurn_Ipv4 = 4"
| "IpTurnProtocol_to_u8 IpTurn_WGIpv4 = 5"
| "IpTurnProtocol_to_u8 IpTurn_Ipv4Broadcast = 201"
| "IpTurnProtocol_to_u8 (IpTurn_Unknown v) = v"

datatype OtherTurnProtocol = OtherTurn_Punch | OtherTurn_Unknown u8

definition OtherTurnProtocol_of_u8 :: "u8 \<Rightarrow> OtherTurnProtocol" where
  "OtherTurnProtocol_of_u8 v = (if v = 1 then OtherTurn_Punch else OtherTurn_Unknown v)"

fun OtherTurnProtocol_to_u8 :: "OtherTurnProtocol \<Rightarrow> u8" where
  "OtherTurnProtocol_to_u8 OtherTurn_Punch = 1"
| "OtherTurnProtocol_to_u8 (OtherTurn_Unknown v) = v"

interpretation service_code: wire_code ServiceProtocol_of_u8 ServiceProtocol_to_u8
  by unfold_locales (simp add: ServiceProtocol_of_u8_def)
interpretation error_code: wire_code ErrorProtocol_of_u8 ErrorProtocol_to_u8
  by unfold_locales (simp add: ErrorProtocol_of_u8_def)
interpretation control_code: wire_code ControlProtocol_of_u8 ControlProtocol_to_u8
  by unfold_locales (simp add: ControlProtocol_of_u8_def)
interpretation ip_turn_code: wire_code IpTurnProtocol_of_u8 IpTurnProtocol_to_u8
  by unfold_locales (simp add: IpTurnProtocol_of_u8_def)
interpretation other_turn_code: wire_code OtherTurnProtocol_of_u8 OtherTurnProtocol_to_u8
  by unfold_locales (simp add: OtherTurnProtocol_of_u8_def)

section \<open>Ping, pong and address packets\<close>

type_synonym PingPacket = "u8 list"
type_synonym AddrPacket = "u8 list"

definition PingPacket_new :: "u8 list \<Rightarrow> PingPacket res" where
  "PingPacket_new buffer =
     (if length buffer < 4 then Inl (Io InvalidData ''len < 4'') else Inr buffer)"

definition read_be16 :: "u8 list \<Rightarrow> nat \<Rightarrow> u16 res" where
  "read_be16 buf off = mapE (\<lambda>s. be16 (s ! 0) (s ! 1)) (slice buf off (off + 2))"

definition PingPacket_time :: "PingPacket \<Rightarrow> u16 res" where
  "PingPacket_time p = read_be16 p 0"

definition PingPacket_epoch :: "PingPacket \<Rightarrow> u16 res" where
  "PingPacket_epoch p = read_be16 p 2"

definition PingPacket_set_time :: "PingPacket \<Rightarrow> u16 \<Rightarrow> PingPacket res" where
  "PingPacket_set_time p time = copy_range p 0 2 (be16_bytes time)"

definition PingPacket_set_epoch :: "PingPacket \<Rightarrow> u16 \<Rightarrow> PingPacket res" where
  "PingPacket_set_epoch p epoch = copy_range p 2 4 (be16_bytes epoch)"

definition AddrPacket_new :: "u8 list \<Rightarrow> AddrPacket res" where
  "AddrPacket_new buffer =
     (if length buffer < 6 then Inl (Io InvalidData ''len < 6'') else Inr buffer)"

definition AddrPacket_ipv4 :: "AddrPacket \<Rightarrow> ipv4 res" where
  "AddrPacket_ipv4 p =
     bindE (rd p 0) (\<lambda>a. bindE (rd p 1) (\<lambda>b. bindE (rd p 2) (\<lambda>c. bindE (rd p 3) (\<lambda>d.
       Inr (Ipv4Addr_new a b c d)))))"

definition AddrPacket_port :: "AddrPacket \<Rightarrow> u16 res" where
  "AddrPacket_port p = read_be16 p 4"

definition AddrPacket_set_ipv4 :: "AddrPacket \<Rightarrow> ipv4 \<Rightarrow> AddrPacket res" where
  "AddrPacket_set_ipv4 p ip = copy_range p 0 4 (octets ip)"

definition AddrPacket_set_port :: "AddrPacket \<Rightarrow> u16 \<Rightarrow> AddrPacket res" where
  "AddrPacket_set_port p port = copy_range p 4 6 (be16_bytes port)"

datatype ControlPacket =
    CP_PingPacket PingPacket | CP_PongPacket PingPacket | CP_PunchRequest | CP_PunchResponse
  | CP_AddrRequest | CP_AddrResponse AddrPacket

definition ControlPacket_new :: "u8 \<Rightarrow> u8 list \<Rightarrow> ControlPacket res" where
  "ControlPacket_new protocol buffer = (case ControlProtocol_of_u8 protocol of
       Control_Ping \<Rightarrow> mapE CP_PingPacket (PingPacket_new buffer)
     | Control_Pong \<Rightarrow> mapE CP_PongPacket (PingPacket_new buffer)
     | Control_PunchRequest \<Rightarrow> Inr CP_PunchRequest
     | Control_PunchResponse \<Rightarrow> Inr CP_PunchResponse
     | Control_AddrRequest \<Rightarrow> Inr CP_AddrRequest
     | Control_AddrResponse \<Rightarrow> mapE CP_AddrResponse (AddrPacket_new buffer)
     | Control_Unknown _ \<Rightarrow> Inl (Io InvalidData ''Unsupported''))"

text \<open>An error packet; the message of an unclassified error is decoded by the standard
  library's UTF-8 check, a parameter here.\<close>

datatype InErrorPacket =
    IE_TokenError | IE_Disconnect | IE_AddressExhausted | IE_IpAlreadyExists | IE_InvalidIp
  | IE_NoKey | IE_OtherError "u8 list"

definition InErrorPacket_new :: "u8 \<Rightarrow> u8 list \<Rightarrow> InErrorPacket res" where
  "InErrorPacket_new protocol buffer = (case ErrorProtocol_of_u8 protocol of
       Error_TokenError \<Rightarrow> Inr IE_TokenError
     | Error_Disconnect \<Rightarrow> Inr IE_Disconnect
     | Error_AddressExhausted \<Rightarrow> Inr IE_AddressExhausted
     | Error_IpAlreadyExists \<Rightarrow> Inr IE_IpAlreadyExists
     | Error_InvalidIp \<Rightarrow> Inr IE_InvalidIp
     | Error_NoKey \<Rightarrow> Inr IE_NoKey
     | Error_Other _ \<Rightarrow> Inr (IE_OtherError buffer))"

definition ErrorPacket_message :: "(u8 list \<Rightarrow> string option) \<Rightarrow> u8 list \<Rightarrow> string res" where
  "ErrorPacket_message from_utf8 buffer = (case from_utf8 buffer of
       Some s \<Rightarrow> Inr s | None \<Rightarrow> Inl (Io OtherKind ''Utf8Error''))"

definition ErrorPacket_set_message :: "u8 list \<Rightarrow> u8 list \<Rightarrow> u8 list res" where
  "ErrorPacket_set_message buffer message = copy_range buffer 0 (length buffer) message"

section \<open>Broadcast packets\<close>

definition BroadcastPacket_addr_num :: "u8 list \<Rightarrow> u8 res" where
  "BroadcastPacket_addr_num buf = rd buf 0"

definition BroadcastPacket_new :: "u8 list \<Rightarrow> u8 list res" where
  "BroadcastPacket_new buffer =
     (if length buffer < 2 + 4 then Inl (Io InvalidData ''BroadcastPacket InvalidData'')
      else bindE (BroadcastPacket_addr_num buffer) (\<lambda>n.
        if n = 0 then Inl (Io InvalidData ''BroadcastPacket InvalidData'') else Inr buffer))"

text \<open>The loop of \<open>addresses\<close>: \<open>n\<close> more addresses from \<open>offset\<close>, each read byte by byte.\<close>

fun read_addresses :: "u8 list \<Rightarrow> nat \<Rightarrow> nat \<Rightarrow> ipv4 list res" where
  "read_addresses buf offset 0 = Inr []"
| "read_addresses buf offset (Suc n) =
     bindE (rd buf offset) (\<lambda>a. bindE (rd buf (offset + 1)) (\<lambda>b.
     bindE (rd buf (offset + 2)) (\<lambda>c. bindE (rd buf (offset + 3)) (\<lambda>d.
     bindE (read_addresses buf (offset + 4) n) (\<lambda>ips. Inr (Ipv4Addr_new a b c d # ips))))))"

definition BroadcastPacket_addresses :: "u8 list \<Rightarrow> ipv4 list res" where
  "BroadcastPacket_addresses buf =
     bindE (BroadcastPacket_addr_num buf) (\<lambda>num. read_addresses buf 1 (unat num))"

definition BroadcastPacket_data :: "u8 list \<Rightarrow> u8 list res" where
  "BroadcastPacket_data buf =
     bindE (BroadcastPacket_addr_num buf) (\<lambda>num. let start = 1 + unat num * 4 in
       if start > length buf then Inl (Io InvalidData ''InvalidData'')
       else slice buf start (length buf))"

fun write_addresses :: "u8 list \<Rightarrow> nat \<Rightarrow> ipv4 list \<Rightarrow> u8 list res" where
  "write_addresses buf offset [] = Inr buf"
| "write_addresses buf offset (ip # ips) =
     bindE (copy_range buf offset (offset + 4) (octets ip)) (\<lambda>buf'.
       write_addresses buf' (offset + 4) ips)"

definition BroadcastPacket_set_address :: "u8 list \<Rightarrow> ipv4 list \<Rightarrow> u8 list res" where
  "BroadcastPacket_set_address buf addr =
     (if length buf < 1 + length addr * 4 \<or> length addr > 255
      then Inl (Io InvalidData ''addr invalid data'')
      else bindE (wr buf 0 (word_of_nat (length addr))) (\<lambda>buf'. write_addresses buf' 1 addr))"

definition BroadcastPacket_set_data :: "u8 list \<Rightarrow> u8 list \<Rightarrow> u8 list res" where
  "BroadcastPacket_set_data buf data =
     bindE (BroadcastPacket_addr_num buf) (\<lambda>num. let start = 1 + 4 * unat num in
       if start \<ge> length buf \<or> start + length data \<noteq> length buf
       then Inl (Io InvalidData ''data invalid data'')
       else copy_range buf start (length buf) data)"

section \<open>Facts\<close>

lemma read_be16_in [buf_simps]:
  "off + 2 \<le> length buf \<Longrightarrow> read_be16 buf off = Inr (be16 (buf ! off) (buf ! (off + 1)))"
  by (simp add: read_be16_def slice_in slice_eq_nths2)

lemma be16_of_bytes [simp]: "be16 (be16_bytes w ! 0) (be16_bytes w ! Suc 0) = w"
  by (simp add: be16_bytes_def)

definition ping_ok :: "PingPacket \<Rightarrow> bool" where "ping_ok p \<longleftrightarrow> 4 \<le> length p"

lemma ping_ok_new: "PingPacket_new b = Inr p \<longleftrightarrow> ping_ok b \<and> p = b"
  by (auto simp: PingPacket_new_def ping_ok_def)

interpretation ping: rw_field_pair ping_ok
    PingPacket_time PingPacket_set_time "\<lambda>t. t" PingPacket_epoch PingPacket_set_epoch "\<lambda>e. e"
  by unfold_locales
    (auto simp: ping_ok_def PingPacket_time_def PingPacket_set_time_def PingPacket_epoch_def
      PingPacket_set_epoch_def copy_range_in read_be16_in nth_splice_in nth_splice_above)

interpretation addr: rw_field_pair "\<lambda>p. 6 \<le> length p"
    AddrPacket_ipv4 AddrPacket_set_ipv4 "\<lambda>i. i" AddrPacket_port AddrPacket_set_port "\<lambda>p. p"
  by unfold_locales
    (auto simp: AddrPacket_ipv4_def AddrPacket_set_ipv4_def AddrPacket_port_def rd_in rd_wr_first
      AddrPacket_set_port_def copy_range_in read_be16_in nth_splice_in nth_splice_above)

section \<open>Broadcast packets: writing and reading the address list\<close>

lemma length_concat_octets [simp]: "length (concat (map octets ips)) = 4 * length ips"
  by (induction ips) auto

lemma splice_append:
  "off + length xs + length ys \<le> length buf \<Longrightarrow>
   splice (off + length xs) ys (splice off xs buf) = splice off (xs @ ys) buf"
  by (cases xs) (auto simp: splice_def min_def ac_simps)

lemma write_addresses_ok:
  "off + 4 * length ips \<le> length buf \<Longrightarrow>
   write_addresses buf off ips = Inr (splice off (concat (map octets ips)) buf)"
proof (induction ips arbitrary: off buf)
  case Nil
  then show ?case by (simp add: splice_def)
next
  case (Cons ip ips)
  then show ?case
    using splice_append[of off "octets ip" "concat (map octets ips)" buf]
    by (simp add: copy_range_in)
qed

lemma read_addresses_ok:
  "off + 4 * length ips \<le> length buf \<Longrightarrow> take (4 * length ips) (drop off buf) = concat (map octets ips) \<Longrightarrow>
   read_addresses buf off (length ips) = Inr ips"
proof (induction ips arbitrary: off)
  case Nil
  then show ?case by simp
next
  case (Cons ip ips)
  have b: "off + 4 \<le> length buf" using Cons.prems(1) by simp
  have "take (4 * length (ip # ips)) (drop off buf) =
        take 4 (drop off buf) @ take (4 * length ips) (drop (off + 4) buf)"
    by (simp add: take_add add.commute)
  with Cons.prems(2) have "take 4 (drop off buf) @ take (4 * length ips) (drop (off + 4) buf) =
      octets ip @ concat (map octets ips)"
    by simp
  then have h: "take 4 (drop off buf) = octets ip"
    and t: "take (4 * length ips) (drop (off + 4) buf) = concat (map octets ips)"
    using b by (simp_all add: append_eq_append_conv)
  have "Ipv4Addr_new (buf ! off) (buf ! (off + 1)) (buf ! (off + 2)) (buf ! (off + 3)) = ip"
    using h slice_eq_nths4[OF b] Ipv4Addr_new_octets[of ip] by (metis nth_Cons_0 nth_Cons_Suc numeral_2_eq_2 numeral_3_eq_3)
  with Cons.IH[OF _ t] Cons.prems(1) b show ?case by (simp add: rd_in)
qed

lemma read_addresses_short:
  "off \<le> length buf \<Longrightarrow> length buf < off + 4 * n \<Longrightarrow> read_addresses buf off n = Inl Panic"
proof (induction n arbitrary: off)
  case (Suc n)
  then show ?case
    by (cases "length buf < off + 4") (auto simp: rd_def bindE_def split: sum.splits)
qed simp

text \<open>
  A broadcast packet carries exactly the addresses and the data written into it: for
  at most 255 addresses and non-empty data that fill the buffer, \<open>set_address\<close> followed by
  \<open>set_data\<close> succeeds, and \<open>addresses\<close> and \<open>data\<close> read both back.
\<close>
theorem broadcast_roundtrip:
  assumes "length addr \<le> 255" and "data \<noteq> []" and "length buf = 1 + 4 * length addr + length data"
  shows "\<exists>b. bindE (BroadcastPacket_set_address buf addr) (\<lambda>b'. BroadcastPacket_set_data b' data) = Inr b \<and>
     length b = length buf \<and> BroadcastPacket_addresses b = Inr addr \<and> BroadcastPacket_data b = Inr data"
proof -
  let ?n = "word_of_nat (length addr) :: u8"
  let ?b1 = "splice 1 (concat (map octets addr)) (buf[0 := ?n])"
  let ?s = "1 + 4 * length addr"
  let ?b2 = "splice ?s data ?b1"
  have n: "unat ?n = length addr" using assms(1) by (simp add: unat_of_nat take_bit_eq_mod)
  have hd1: "?b1 ! 0 = ?n" using assms(3) by simp
  have w: "BroadcastPacket_set_address buf addr = Inr ?b1"
    using assms by (simp add: BroadcastPacket_set_address_def rd_wr_first write_addresses_ok)
  have d: "BroadcastPacket_set_data ?b1 data = Inr ?b2"
    using assms hd1 n
    by (simp add: BroadcastPacket_set_data_def BroadcastPacket_addr_num_def rd_wr_first copy_range_in)
  have hd2: "?b2 ! 0 = ?n" using assms(3) hd1 by simp
  have t: "take (4 * length addr) (drop 1 ?b2) = concat (map octets addr)"
    using assms(3) by (simp add: splice_append[of 1 "concat (map octets addr)", simplified] splice_def)
  have a: "BroadcastPacket_addresses ?b2 = Inr addr"
    using read_addresses_ok[OF _ t] assms(3) hd2 n
    by (simp add: BroadcastPacket_addresses_def BroadcastPacket_addr_num_def rd_wr_first)
  have "slice ?b2 ?s (length ?b2) = Inr data"
    using assms(3) by (simp add: slice_in splice_def)
  then have "BroadcastPacket_data ?b2 = Inr data"
    using assms(3) hd2 n
    by (simp add: BroadcastPacket_data_def BroadcastPacket_addr_num_def rd_wr_first mult.commute)
  with w d a assms(3) show ?thesis by simp
qed

theorem broadcast_roundtrip_witness:
  "\<exists>b. bindE (BroadcastPacket_set_address (replicate 7 0) [0x0A1A0002])
         (\<lambda>b'. BroadcastPacket_set_data b' [8, 9]) = Inr b \<and>
     length b = length (replicate 7 (0::u8)) \<and> BroadcastPacket_addresses b = Inr [0x0A1A0002] \<and>
     BroadcastPacket_data b = Inr [8, 9]"
  by (rule broadcast_roundtrip) simp_all

text \<open>
  What \<open>BroadcastPacket::new\<close> accepts is not enough for \<open>addresses\<close>: reading the
  addresses of an accepted packet indexes out of range (a panic) exactly when the buffer is
  shorter than its first byte announces, and \<open>data\<close> reports the same case as an error.
\<close>
theorem broadcast_addresses_panic_iff:
  assumes "BroadcastPacket_new buf = Inr b"
  shows "(BroadcastPacket_addresses b = Inl Panic \<longleftrightarrow> length b < 1 + 4 * unat (b ! 0)) \<and>
         (BroadcastPacket_data b = Inl (Io InvalidData ''InvalidData'') \<longleftrightarrow> length b < 1 + 4 * unat (b ! 0))"
proof -
  from assms have b: "b = buf" "6 \<le> length b"
    by (auto simp: BroadcastPacket_new_def BroadcastPacket_addr_num_def bindE_Inr_iff split: if_splits)
  have len: "\<exists>ips. read_addresses b 1 n = Inr ips" if "1 + 4 * n \<le> length b" for n
  proof -
    have "\<exists>ips. read_addresses b off n = Inr ips" if "off + 4 * n \<le> length b" for off n
      using that
    proof (induction n arbitrary: off)
      case (Suc n)
      then obtain ips where "read_addresses b (off + 4) n = Inr ips" by fastforce
      with Suc.prems show ?case by (simp add: rd_in)
    qed simp
    with that show ?thesis by blast
  qed
  show ?thesis
    using len[of "unat (b ! 0)"] read_addresses_short[of 1 b "unat (b ! 0)"] b(2)
    by (cases "length b < 1 + 4 * unat (b ! 0)")
      (auto simp: BroadcastPacket_addresses_def BroadcastPacket_data_def BroadcastPacket_addr_num_def
        rd_wr_first slice_in mult.commute)
qed

theorem broadcast_addresses_panic_witness:
  "BroadcastPacket_addresses [2, 0, 0, 0, 0, 0] = Inl Panic"
  using broadcast_addresses_panic_iff[of "[2, 0, 0, 0, 0, 0]" "[2, 0, 0, 0, 0, 0]"]
  by (simp add: BroadcastPacket_new_def BroadcastPacket_addr_num_def rd_def)

end
