(* ===== verification/Channel.thy ===== *)
theory Channel
  imports Vnt_Prelude
begin

text \<open>
  The vocabulary of the transport layer, \<^verbatim>\<open>vnt/src/channel/mod.rs\<close>: which kinds of
  channel may be used, the transport protocols, routes and their keys.
\<close>

datatype UseChannelType = Use_Relay | Use_P2p | Use_All

definition UseChannelType_is_only_relay :: "UseChannelType \<Rightarrow> bool" where
  "UseChannelType_is_only_relay t = (t = Use_Relay)"

definition UseChannelType_is_only_p2p :: "UseChannelType \<Rightarrow> bool" where
  "UseChannelType_is_only_p2p t = (t = Use_P2p)"

definition UseChannelType_is_all :: "UseChannelType \<Rightarrow> bool" where
  "UseChannelType_is_all t = (t = Use_All)"

definition UseChannelType_default :: UseChannelType where
  "UseChannelType_default = Use_All"

datatype ConnectProtocol = Conn_UDP | Conn_TCP | Conn_WS | Conn_WSS

definition ConnectProtocol_is_tcp :: "ConnectProtocol \<Rightarrow> bool" where
  "ConnectProtocol_is_tcp p = (p = Conn_TCP)"

definition ConnectProtocol_is_udp :: "ConnectProtocol \<Rightarrow> bool" where
  "ConnectProtocol_is_udp p = (p = Conn_UDP)"

definition ConnectProtocol_is_ws :: "ConnectProtocol \<Rightarrow> bool" where
  "ConnectProtocol_is_ws p = (p = Conn_WS)"

definition ConnectProtocol_is_wss :: "ConnectProtocol \<Rightarrow> bool" where
  "ConnectProtocol_is_wss p = (p = Conn_WSS)"

definition ConnectProtocol_is_transport :: "ConnectProtocol \<Rightarrow> bool" where
  "ConnectProtocol_is_transport p = (ConnectProtocol_is_tcp p \<or> ConnectProtocol_is_udp p)"

definition ConnectProtocol_is_base_tcp :: "ConnectProtocol \<Rightarrow> bool" where
  "ConnectProtocol_is_base_tcp p =
     (ConnectProtocol_is_tcp p \<or> ConnectProtocol_is_ws p \<or> ConnectProtocol_is_wss p)"

record RouteKey =
  rk_protocol :: ConnectProtocol
  rk_index :: nat
  rk_addr :: socket_addr

record Route =
  r_protocol :: ConnectProtocol
  r_index :: nat
  r_addr :: socket_addr
  r_metric :: u8
  r_rt :: i64

definition DEFAULT_RT :: i64 where "DEFAULT_RT = 9999"

definition Route_from :: "RouteKey \<Rightarrow> u8 \<Rightarrow> i64 \<Rightarrow> Route" where
  "Route_from k metric rt =
     \<lparr>r_protocol = rk_protocol k, r_index = rk_index k, r_addr = rk_addr k,
      r_metric = metric, r_rt = rt\<rparr>"

definition Route_from_default_rt :: "RouteKey \<Rightarrow> u8 \<Rightarrow> Route" where
  "Route_from_default_rt k metric =
     \<lparr>r_protocol = rk_protocol k, r_index = rk_index k, r_addr = rk_addr k,
      r_metric = metric, r_rt = DEFAULT_RT\<rparr>"

definition Route_route_key :: "Route \<Rightarrow> RouteKey" where
  "Route_route_key r = \<lparr>rk_protocol = r_protocol r, rk_index = r_index r, rk_addr = r_addr r\<rparr>"

definition Route_is_p2p :: "Route \<Rightarrow> bool" where
  "Route_is_p2p r = (r_metric r = 1)"

lemma Route_from_simps [simp]:
  "Route_route_key (Route_from k m rt) = k" "r_metric (Route_from k m rt) = m" "r_rt (Route_from k m rt) = rt"
  "Route_route_key (Route_from_default_rt k m) = k" "r_metric (Route_from_default_rt k m) = m"
  "r_rt (Route_from_default_rt k m) = DEFAULT_RT"
  by (simp_all add: Route_from_def Route_from_default_rt_def Route_route_key_def)

lemma Route_route_key_update [simp]:
  "Route_route_key (r\<lparr>r_metric := m\<rparr>) = Route_route_key r"
  "Route_route_key (r\<lparr>r_rt := t\<rparr>) = Route_route_key r"
  by (simp_all add: Route_route_key_def)

end
