(* ===== verification/Route_Table.thy ===== *)
theory Route_Table
  imports Channel "HOL-Library.AList" "HOL-Library.Multiset"
begin

text \<open>
  The route table of \<^verbatim>\<open>vnt/src/channel/context.rs\<close>: for every peer a short list of
  routes with the instant of the last packet read. The hash map is an association list (its
  order is the unspecified iteration order of the map); instants are natural numbers and
  every operation that reads the clock takes the instant \<open>now\<close>. The unused counter of the
  entries is left out. Lookups and updates are modelled as one call each: the read and the
  write lock of \<open>add_route_\<close> are taken one after the other in the same call.
\<close>

type_synonym route_entry = "Route \<times> nat"

record RouteTable =
  rt_map :: "(ipv4 \<times> route_entry list) list"
  rt_first_latency :: bool
  rt_channel_num :: nat
  rt_use_channel_type :: UseChannelType

definition RouteTable_new :: "UseChannelType \<Rightarrow> bool \<Rightarrow> nat \<Rightarrow> RouteTable" where
  "RouteTable_new use_channel_type first_latency channel_num =
     \<lparr>rt_map = [], rt_first_latency = first_latency, rt_channel_num = channel_num,
      rt_use_channel_type = use_channel_type\<rparr>"

definition rt_get :: "RouteTable \<Rightarrow> ipv4 \<Rightarrow> route_entry list option" where
  "rt_get t ip = map_of (rt_map t) ip"

text \<open>The first element of a list, as \<open>Vec::first\<close>.\<close>

fun vec_first :: "'a list \<Rightarrow> 'a option" where
  "vec_first [] = None"
| "vec_first (x # xs) = Some x"

section \<open>Lookup\<close>

definition get_route_by_id :: "RouteTable \<Rightarrow> nat \<Rightarrow> ipv4 \<Rightarrow> Route res" where
  "get_route_by_id t index ip =
     (let not_found = Inl (Io NotFound ''route not found'') in
      case rt_get t ip of
        None \<Rightarrow> not_found
      | Some v \<Rightarrow>
          (if rt_first_latency t then
             (case vec_first v of Some (route, _) \<Rightarrow> Inr route | None \<Rightarrow> not_found)
           else if length v \<noteq> 0 then
             (let route = fst (v ! (index mod length v)) in
              if r_rt route \<noteq> DEFAULT_RT then Inr route
              else case find (\<lambda>(r, _). r_rt r \<noteq> DEFAULT_RT) v of
                     Some (r, _) \<Rightarrow> Inr r
                   | None \<Rightarrow> not_found)
           else not_found))"

section \<open>Adding a route\<close>

text \<open>The read-only scan of \<open>add_route_if_absent\<close>: \<open>None\<close> when the key is found, else the
  number of p2p routes.\<close>

fun absent_scan :: "RouteKey \<Rightarrow> nat \<Rightarrow> route_entry list \<Rightarrow> nat option" where
  "absent_scan key p2p_num [] = Some p2p_num"
| "absent_scan key p2p_num ((x, _) # list) =
     (let p2p_num = (if Route_is_p2p x then p2p_num + 1 else p2p_num) in
      if Route_route_key x = key then None else absent_scan key p2p_num list)"

text \<open>The update loop: leave the function with a result, or finish with the list and
  whether the key was there.\<close>

datatype update_out = Leave bool | Finished "route_entry list" bool

fun update_loop :: "bool \<Rightarrow> bool \<Rightarrow> nat \<Rightarrow> Route \<Rightarrow> route_entry list \<Rightarrow> update_out" where
  "update_loop first_latency only_if_absent now route [] = Finished [] False"
| "update_loop first_latency only_if_absent now route ((x, time) # list) =
     (if r_metric x < r_metric route \<and> \<not> first_latency then Leave False
      else if Route_route_key x = Route_route_key route then
        (if only_if_absent then Leave True
         else Finished ((x\<lparr>r_metric := r_metric route, r_rt := r_rt route\<rparr>, now) # list) True)
      else case update_loop first_latency only_if_absent now route list of
             Leave b \<Rightarrow> Leave b
           | Finished list' e \<Rightarrow> Finished ((x, time) # list') e)"

fun index_p2p :: "route_entry list \<Rightarrow> nat option" where
  "index_p2p [] = None"
| "index_p2p ((r, _) # list) = (if Route_is_p2p r then Some 0 else map_option Suc (index_p2p list))"

definition truncate_routes :: "bool \<Rightarrow> route_entry list \<Rightarrow> nat \<Rightarrow> route_entry list" where
  "truncate_routes first_latency list len =
     (if length list \<le> len then list
      else if first_latency then
        (case index_p2p list of
           Some index \<Rightarrow>
             (if index \<ge> len then
                take (len - 1) (take index list @ drop (Suc index) list) @ [list ! index]
              else take len list)
         | None \<Rightarrow> take len list)
      else take len list)"

definition rt_put :: "RouteTable \<Rightarrow> ipv4 \<Rightarrow> route_entry list \<Rightarrow> RouteTable" where
  "rt_put t ip v = t\<lparr>rt_map := AList.update ip v (rt_map t)\<rparr>"

text \<open>\<open>entry(id).or_insert_with(..)\<close>: the routes of the entry, or a new empty list.\<close>

definition rt_list :: "RouteTable \<Rightarrow> ipv4 \<Rightarrow> route_entry list" where
  "rt_list t ip = (case rt_get t ip of Some v \<Rightarrow> v | None \<Rightarrow> [])"

text \<open>The part of \<open>add_route_\<close> under the write lock.\<close>

definition add_route_write :: "RouteTable \<Rightarrow> nat \<Rightarrow> ipv4 \<Rightarrow> Route \<Rightarrow> bool \<Rightarrow> bool \<times> RouteTable" where
  "add_route_write t now ip route only_if_absent =
     (let list = rt_list t ip;
          fl = rt_first_latency t; cn = rt_channel_num t in
      case update_loop fl only_if_absent now route list of
        Leave b \<Rightarrow> (b, rt_put t ip list)
      | Finished list exist \<Rightarrow>
          (if exist then
             (let list = sort_key (\<lambda>(k, _). r_rt k) list in
              if \<exists>(r, _) \<in> set list. r_rt r = DEFAULT_RT then (True, rt_put t ip list)
              else let limit_len = (if fl then cn + 2 else cn) in
                   (True, rt_put t ip (truncate_routes fl list limit_len)))
           else
             (let list = (if \<not> fl \<and> Route_is_p2p route then filter (\<lambda>(k, _). Route_is_p2p k) list else list) in
              if \<not> fl \<and> cn \<le> length list then (False, rt_put t ip list)
              else let limit_len = cn * 2;
                       list = truncate_routes fl (sort_key (\<lambda>(k, _). r_rt k) list) limit_len in
                   (True, rt_put t ip (list @ [(route, now)])))))"

definition add_route_inner :: "RouteTable \<Rightarrow> nat \<Rightarrow> ipv4 \<Rightarrow> Route \<Rightarrow> bool \<Rightarrow> bool \<times> RouteTable" where
  "add_route_inner t now ip route only_if_absent =
     (if rt_use_channel_type t = Use_P2p \<and> \<not> Route_is_p2p route then (False, t)
      else if only_if_absent then
        (case rt_get t ip of
           Some list \<Rightarrow>
             (case absent_scan (Route_route_key route) 0 list of
                None \<Rightarrow> (True, t)
              | Some p2p_num \<Rightarrow>
                  if \<not> rt_first_latency t \<and> p2p_num \<ge> rt_channel_num t then (False, t)
                  else add_route_write t now ip route only_if_absent)
         | None \<Rightarrow> add_route_write t now ip route only_if_absent)
      else add_route_write t now ip route only_if_absent)"

definition add_route_if_absent :: "RouteTable \<Rightarrow> nat \<Rightarrow> ipv4 \<Rightarrow> Route \<Rightarrow> bool \<times> RouteTable" where
  "add_route_if_absent t now ip route = add_route_inner t now ip route True"

definition add_route :: "RouteTable \<Rightarrow> nat \<Rightarrow> ipv4 \<Rightarrow> Route \<Rightarrow> bool \<times> RouteTable" where
  "add_route t now ip route = add_route_inner t now ip route False"

section \<open>Queries and removal\<close>

definition route :: "RouteTable \<Rightarrow> ipv4 \<Rightarrow> Route list option" where
  "route t ip = map_option (map fst) (rt_get t ip)"

definition route_one :: "RouteTable \<Rightarrow> ipv4 \<Rightarrow> Route option" where
  "route_one t ip = (case rt_get t ip of Some v \<Rightarrow> map_option fst (vec_first v) | None \<Rightarrow> None)"

definition route_one_p2p :: "RouteTable \<Rightarrow> ipv4 \<Rightarrow> Route option" where
  "route_one_p2p t ip =
     (case rt_get t ip of
        Some v \<Rightarrow> map_option fst (find (\<lambda>(i, _). Route_is_p2p i) v)
      | None \<Rightarrow> None)"

definition route_to_id :: "RouteTable \<Rightarrow> RouteKey \<Rightarrow> ipv4 option" where
  "route_to_id t key =
     map_option fst (find (\<lambda>(k, v). \<exists>(r, _) \<in> set v. Route_route_key r = key \<and> Route_is_p2p r) (rt_map t))"

definition p2p_num :: "RouteTable \<Rightarrow> ipv4 \<Rightarrow> nat" where
  "p2p_num t ip =
     (case rt_get t ip of Some v \<Rightarrow> length (filter (\<lambda>(k, _). Route_is_p2p k) v) | None \<Rightarrow> 0)"

definition no_need_punch :: "RouteTable \<Rightarrow> ipv4 \<Rightarrow> bool" where
  "no_need_punch t ip =
     (case rt_get t ip of
        Some v \<Rightarrow> length (filter (\<lambda>(k, _). Route_is_p2p k) v) \<ge> rt_channel_num t
      | None \<Rightarrow> False)"

definition route_table_all :: "RouteTable \<Rightarrow> (ipv4 \<times> Route list) list" where
  "route_table_all t = map (\<lambda>(k, v). (k, map fst v)) (rt_map t)"

definition route_table_p2p :: "RouteTable \<Rightarrow> (ipv4 \<times> Route) list" where
  "route_table_p2p t =
     List.map_filter (\<lambda>(ip, v). map_option (\<lambda>(r, _). (ip, r)) (find (\<lambda>(r, _). Route_is_p2p r) v)) (rt_map t)"

definition route_table_one :: "RouteTable \<Rightarrow> (ipv4 \<times> Route) list" where
  "route_table_one t =
     List.map_filter (\<lambda>(k, v). map_option (\<lambda>(r, _). (k, r)) (vec_first v)) (rt_map t)"

definition remove_route :: "RouteTable \<Rightarrow> ipv4 \<Rightarrow> RouteKey \<Rightarrow> RouteTable" where
  "remove_route t ip key =
     (case rt_get t ip of
        Some routes \<Rightarrow>
          (let routes = filter (\<lambda>(x, _). Route_route_key x \<noteq> key) routes in
           if routes = [] then t\<lparr>rt_map := AList.delete ip (rt_map t)\<rparr> else rt_put t ip routes)
      | None \<Rightarrow> t)"

text \<open>Only the first route with the key is stamped.\<close>

fun stamp_first :: "RouteKey \<Rightarrow> nat \<Rightarrow> route_entry list \<Rightarrow> route_entry list" where
  "stamp_first key now [] = []"
| "stamp_first key now ((r, time) # list) =
     (if Route_route_key r = key then (r, now) # list else (r, time) # stamp_first key now list)"

definition update_read_time :: "RouteTable \<Rightarrow> nat \<Rightarrow> ipv4 \<Rightarrow> RouteKey \<Rightarrow> RouteTable" where
  "update_read_time t now ip key =
     (case rt_get t ip of Some routes \<Rightarrow> rt_put t ip (stamp_first key now routes) | None \<Rightarrow> t)"

section \<open>Truncation and the update loop\<close>

abbreviation entry_key :: "route_entry \<Rightarrow> RouteKey" where
  "entry_key e \<equiv> Route_route_key (fst e)"

abbreviation entry_p2p :: "route_entry \<Rightarrow> bool" where
  "entry_p2p e \<equiv> Route_is_p2p (fst e)"

lemma index_p2p_Some: "index_p2p v = Some i \<Longrightarrow> i < length v \<and> entry_p2p (v ! i)"
  by (induction v arbitrary: i rule: index_p2p.induct) (auto split: if_splits)

lemma index_p2p_Some_first: "index_p2p v = Some i \<Longrightarrow> j < i \<Longrightarrow> \<not> entry_p2p (v ! j)"
proof (induction v arbitrary: i j rule: index_p2p.induct)
  case (2 r t list)
  then show ?case by (cases j) (auto split: if_splits)
qed simp

lemma index_p2p_None_iff: "index_p2p v = None \<longleftrightarrow> (\<forall>e \<in> set v. \<not> entry_p2p e)"
  by (induction v rule: index_p2p.induct) auto

lemma mset_take_subseteq: "mset (take n xs) \<subseteq># mset xs"
  by (metis append_take_drop_id mset_append mset_subset_eq_add_left)

lemma mset_truncate: "mset (truncate_routes fl v len) \<subseteq># mset v"
proof (cases "\<exists>i. length v > len \<and> fl \<and> index_p2p v = Some i \<and> len \<le> i")
  case True
  then obtain i where i: "length v > len" "fl" "index_p2p v = Some i" "len \<le> i" by blast
  let ?rest = "take i v @ drop (Suc i) v"
  have "mset v = add_mset (v ! i) (mset ?rest)"
    using index_p2p_Some[OF i(3)] by (metis id_take_nth_drop mset.simps(2) mset_append union_mset_add_mset_right)
  with i show ?thesis
    using mset_take_subseteq[of "len - 1" ?rest] by (simp add: truncate_routes_def)
next
  case False
  then have "truncate_routes fl v len = (if length v \<le> len then v else take len v)"
    by (auto simp: truncate_routes_def split: option.splits)
  then show ?thesis by (simp add: mset_take_subseteq)
qed

lemma truncate_length: "0 < len \<Longrightarrow> length (truncate_routes fl v len) = min (length v) len"
  by (auto simp: truncate_routes_def min_def dest!: index_p2p_Some split: option.splits)

lemma truncate_keeps_p2p:
  assumes "fl" and "0 < len" and "\<exists>e \<in> set v. entry_p2p e"
  shows "\<exists>e \<in> set (truncate_routes fl v len). entry_p2p e"
proof -
  from assms(3) obtain i where i: "index_p2p v = Some i" using index_p2p_None_iff[of v] by fastforce
  note p = index_p2p_Some[OF i]
  show ?thesis
  proof (cases "length v \<le> len \<or> len \<le> i")
    case True
    with i p assms show ?thesis by (auto simp: truncate_routes_def)
  next
    case False
    then have "v ! i \<in> set (take len v)" using p by (auto simp: in_set_conv_nth intro: exI[of _ i])
    with False i p show ?thesis by (auto simp: truncate_routes_def)
  qed
qed

lemma truncate_hd:
  assumes "2 \<le> len" and "v \<noteq> []"
  shows "\<exists>rest. truncate_routes fl v len = hd v # rest"
proof -
  have t: "\<exists>rest. take n (hd v # xs) @ ys = hd v # rest" if "0 < n" for n xs ys
    using that by (cases n) auto
  obtain x xs where v: "v = x # xs" using assms(2) by (cases v) auto
  show ?thesis
  proof (cases "\<exists>i. length v > len \<and> fl \<and> index_p2p v = Some i \<and> len \<le> i")
    case True
    then obtain i where i: "length v > len" "fl" "index_p2p v = Some i" "len \<le> i" by blast
    then obtain j where "i = Suc j" using assms(1) by (cases i) auto
    with i v show ?thesis
      using t[of "len - 1" "take j xs @ drop (Suc i) v" "[v ! i]"] assms(1)
      by (simp add: truncate_routes_def)
  next
    case False
    then have "truncate_routes fl v len = (if length v \<le> len then v else take len v)"
      by (auto simp: truncate_routes_def split: option.splits)
    with v t[of len xs "[]"] assms(1) show ?thesis by simp
  qed
qed

lemma mset_subseteq_distinct_map:
  "mset ys \<subseteq># mset xs \<Longrightarrow> distinct (map f xs) \<Longrightarrow> distinct (map f ys)"
proof -
  assume "mset ys \<subseteq># mset xs" and d: "distinct (map f xs)"
  then obtain B where "mset xs = mset ys + B" by (metis mset_subset_eq_exists_conv)
  moreover obtain zs where "mset zs = B" by (metis ex_mset)
  ultimately have "mset (map f xs) = mset (map f (ys @ zs))" by simp
  with d have "distinct (map f (ys @ zs))" using mset_eq_imp_distinct_iff by blast
  then show ?thesis by simp
qed

lemma update_loop_Finished:
  "update_loop fl oia now r v = Finished v' e \<Longrightarrow>
     map entry_key v' = map entry_key v \<and> (e \<longleftrightarrow> Route_route_key r \<in> entry_key ` set v) \<and>
     (\<not> e \<longrightarrow> v' = v) \<and> (e \<longrightarrow> \<not> oia) \<and>
     (\<forall>x \<in> set v'. x \<in> set v \<or> r_metric (fst x) = r_metric r \<and> r_rt (fst x) = r_rt r \<and> entry_key x = Route_route_key r)"
proof (induction fl oia now r v arbitrary: v' e rule: update_loop.induct)
  case (2 fl oia now r x time list)
  then show ?case
    by (auto split: if_splits update_out.splits)
qed simp

lemma update_loop_Leave:
  "update_loop fl oia now r v = Leave b \<Longrightarrow> (b \<longrightarrow> Route_route_key r \<in> entry_key ` set v) \<and> (fl \<longrightarrow> b)"
  by (induction fl oia now r v rule: update_loop.induct) (auto split: if_splits update_out.splits)

lemma absent_scan_None_iff: "absent_scan key n v = None \<longleftrightarrow> key \<in> entry_key ` set v"
  by (induction key n v rule: absent_scan.induct) (auto simp: Let_def)

lemma absent_scan_Some_notin: "absent_scan key n v = Some m \<Longrightarrow> key \<notin> entry_key ` set v"
  by (metis absent_scan_None_iff option.distinct(1))

lemma absent_scan_Some: "absent_scan key n v = Some m \<Longrightarrow> m = n + length (filter entry_p2p v)"
  by (induction key n v arbitrary: m rule: absent_scan.induct) (auto simp: Let_def split: if_splits)

section \<open>The table invariant\<close>

definition len_bound :: "RouteTable \<Rightarrow> nat" where
  "len_bound t = (if rt_first_latency t then 2 * rt_channel_num t + 1 else rt_channel_num t)"

text \<open>What every list of routes of the table satisfies, empty or not: no route key twice, a
  bounded number of routes, and only direct routes where only those are allowed.\<close>

definition entry_wf :: "RouteTable \<Rightarrow> route_entry list \<Rightarrow> bool" where
  "entry_wf t v \<longleftrightarrow> distinct (map entry_key v) \<and> length v \<le> len_bound t \<and>
     (rt_use_channel_type t = Use_P2p \<longrightarrow> (\<forall>e \<in> set v. entry_p2p e))"

definition rt_inv :: "RouteTable \<Rightarrow> bool" where
  "rt_inv t \<longleftrightarrow> rt_channel_num t \<noteq> 0 \<and> distinct (map fst (rt_map t)) \<and>
     (\<forall>ip v. rt_get t ip = Some v \<longrightarrow> v \<noteq> [] \<and> entry_wf t v)"

definition route_type_ok :: "RouteTable \<Rightarrow> Route \<Rightarrow> bool" where
  "route_type_ok t r \<longleftrightarrow> \<not> (rt_use_channel_type t = Use_P2p \<and> \<not> Route_is_p2p r)"

lemma rt_put_simps [simp]:
  "rt_get (rt_put t ip v) ip' = (if ip' = ip then Some v else rt_get t ip')"
  "rt_first_latency (rt_put t ip v) = rt_first_latency t"
  "rt_channel_num (rt_put t ip v) = rt_channel_num t"
  "rt_use_channel_type (rt_put t ip v) = rt_use_channel_type t"
  "entry_wf (rt_put t ip v) w = entry_wf t w"
  by (simp_all add: rt_put_def rt_get_def update_conv' entry_wf_def len_bound_def)

lemma rt_put_inv: "rt_inv t \<Longrightarrow> v \<noteq> [] \<Longrightarrow> entry_wf t v \<Longrightarrow> rt_inv (rt_put t ip v)"
  by (auto simp: rt_inv_def) (simp add: rt_put_def distinct_update)

lemma entry_wf_subseteq:
  assumes "entry_wf t v" and "mset w \<subseteq># mset v"
  shows "entry_wf t w"
proof -
  have "set w \<subseteq> set v" using assms(2) by (metis set_mset_mono set_mset_mset)
  moreover have "length w \<le> length v" using assms(2) by (metis size_mset size_mset_mono)
  ultimately show ?thesis
    using assms mset_subseteq_distinct_map[OF assms(2), of entry_key] by (auto simp: entry_wf_def)
qed

lemma entry_wf_mset: "mset w = mset v \<Longrightarrow> entry_wf t v \<Longrightarrow> entry_wf t w"
  by (rule entry_wf_subseteq) auto

lemma sort_key_Nil_iff [simp]: "sort_key f xs = [] \<longleftrightarrow> xs = []"
  by (metis length_0_conv length_sort)

lemma truncate_nonempty: "v \<noteq> [] \<Longrightarrow> 0 < l \<Longrightarrow> truncate_routes fl v l \<noteq> []"
  using truncate_length[of l fl v] by (cases v) auto

lemma entry_wf_updated:
  assumes "entry_wf t v" and "route_type_ok t r" and "update_loop fl oia now r v = Finished w True"
  shows "entry_wf t w"
proof -
  note u = update_loop_Finished[OF assms(3)]
  have "length w = length v" using u by (metis length_map)
  moreover have "entry_p2p e" if "e \<in> set w" "rt_use_channel_type t = Use_P2p" for e
    using u assms(1,2) that by (auto simp: entry_wf_def route_type_ok_def Route_is_p2p_def)
  ultimately show ?thesis using u assms(1) by (simp add: entry_wf_def)
qed

lemma entry_wf_pushed:
  assumes wf: "entry_wf t v" and ty: "route_type_ok t r" and new: "Route_route_key r \<notin> entry_key ` set v"
    and len: "length v < len_bound t"
  shows "entry_wf t (v @ [(r, now)])"
  using assms by (auto simp: entry_wf_def route_type_ok_def)

lemma set_truncate_subset: "set (truncate_routes fl v len) \<subseteq> set v"
  using mset_truncate[of fl v len] by (metis set_mset_mono set_mset_mset)

lemma add_route_write_exist:
  assumes "update_loop (rt_first_latency t) oia now r (rt_list t ip) = Finished w True"
  shows "add_route_write t now ip r oia =
    (True, rt_put t ip
      (let s = sort_key (\<lambda>(k, _). r_rt k) w in
       if \<exists>(r, _) \<in> set s. r_rt r = DEFAULT_RT then s
       else truncate_routes (rt_first_latency t) s
              (if rt_first_latency t then rt_channel_num t + 2 else rt_channel_num t)))"
  using assms by (simp add: add_route_write_def Let_def)

text \<open>The list a new route joins, and the two outcomes for a new route.\<close>

definition joined_list :: "RouteTable \<Rightarrow> ipv4 \<Rightarrow> Route \<Rightarrow> route_entry list" where
  "joined_list t ip r =
     (if \<not> rt_first_latency t \<and> Route_is_p2p r then filter (\<lambda>(k, _). Route_is_p2p k) (rt_list t ip) else rt_list t ip)"

lemma add_route_write_full:
  assumes "update_loop (rt_first_latency t) oia now r (rt_list t ip) = Finished w False"
    and "\<not> rt_first_latency t" and "rt_channel_num t \<le> length (joined_list t ip r)"
  shows "add_route_write t now ip r oia = (False, rt_put t ip (joined_list t ip r))"
  using assms update_loop_Finished[OF assms(1)]
  by (simp add: add_route_write_def Let_def joined_list_def split: if_splits)

lemma add_route_write_push:
  assumes "update_loop (rt_first_latency t) oia now r (rt_list t ip) = Finished w False"
    and "rt_first_latency t \<or> length (joined_list t ip r) < rt_channel_num t"
  shows "add_route_write t now ip r oia =
    (True, rt_put t ip (truncate_routes (rt_first_latency t)
       (sort_key (\<lambda>(k, _). r_rt k) (joined_list t ip r)) (rt_channel_num t * 2) @ [(r, now)]))"
  using assms update_loop_Finished[OF assms(1)]
  by (auto simp: add_route_write_def Let_def joined_list_def split: if_splits)

lemma add_route_write_result:
  assumes cn: "rt_channel_num t \<noteq> 0" and ty: "route_type_ok t r"
    and wf: "\<And>v. rt_get t ip = Some v \<Longrightarrow> v \<noteq> [] \<and> entry_wf t v"
  shows "\<exists>b w. add_route_write t now ip r oia = (b, rt_put t ip w) \<and> w \<noteq> [] \<and> entry_wf t w \<and>
    (b \<longrightarrow> oia \<longrightarrow> Route_route_key r \<in> entry_key ` set w)"
proof -
  let ?v = "rt_list t ip"
  have wfv: "entry_wf t ?v"
    using wf by (cases "rt_get t ip") (simp_all add: rt_list_def entry_wf_def[of t "[]"])
  let ?fl = "rt_first_latency t" and ?cn = "rt_channel_num t"
  show ?thesis
  proof (cases "update_loop ?fl oia now r ?v")
    case (Leave b)
    then have "?v \<noteq> []" by auto
    moreover have "add_route_write t now ip r oia = (b, rt_put t ip ?v)"
      using Leave by (simp add: add_route_write_def)
    ultimately show ?thesis using wfv update_loop_Leave[OF Leave] by blast
  next
    case (Finished w e)
    note u = update_loop_Finished[OF Finished]
    show ?thesis
    proof (cases e)
      case True
      let ?w = "sort_key (\<lambda>(k, _). r_rt k) w"
      have w: "entry_wf t ?w" "?w \<noteq> []"
        using entry_wf_updated[OF wfv ty Finished[simplified True]] u True
        by (auto intro: entry_wf_mset[of _ w])
      have "entry_wf t (truncate_routes ?fl ?w l)" for l
        by (rule entry_wf_subseteq[OF w(1) mset_truncate])
      moreover have "truncate_routes ?fl ?w l \<noteq> []" if "0 < l" for l
        using w(2) that by (rule truncate_nonempty)
      moreover define w' where "w' = (let s = ?w in if \<exists>(r, _) \<in> set s. r_rt r = DEFAULT_RT then s
          else truncate_routes ?fl s (if ?fl then ?cn + 2 else ?cn))"
      ultimately have w': "w' \<noteq> []" "entry_wf t w'" using w cn by (simp_all add: Let_def)
      have "add_route_write t now ip r oia = (True, rt_put t ip w')"
        unfolding w'_def by (rule add_route_write_exist) (use Finished True in simp)
      moreover have "\<not> oia" using u True by simp
      ultimately show ?thesis using w' by blast
    next
      case False
      let ?j = "joined_list t ip r"
      have j: "entry_wf t ?j" "set ?j \<subseteq> set ?v"
        using wfv by (auto simp: joined_list_def intro: entry_wf_subseteq multiset_filter_subset)
      have new: "Route_route_key r \<notin> entry_key ` set ?j" using u False j(2) by auto
      show ?thesis
      proof (cases "\<not> ?fl \<and> ?cn \<le> length ?j")
        case True
        with j cn have "?j \<noteq> []" by auto
        moreover have "add_route_write t now ip r oia = (False, rt_put t ip ?j)"
          by (rule add_route_write_full) (use Finished False True in simp_all)
        ultimately show ?thesis using j(1) by blast
      next
        case nfull: False
        let ?w = "truncate_routes ?fl (sort_key (\<lambda>(k, _). r_rt k) ?j) (?cn * 2)"
        have "mset ?w \<subseteq># mset ?j" using mset_truncate[of ?fl "sort_key (\<lambda>(k, _). r_rt k) ?j"] by simp
        then have "entry_wf t ?w" "set ?w \<subseteq> set ?j"
          using j(1) by (rule_tac entry_wf_subseteq, simp_all) (metis set_mset_mono set_mset_mset)
        moreover have "length ?w < len_bound t"
          using nfull truncate_length[of "?cn * 2" ?fl] cn by (auto simp: len_bound_def)
        ultimately have "entry_wf t (?w @ [(r, now)])"
          using entry_wf_pushed[OF _ ty] new by blast
        moreover have "add_route_write t now ip r oia = (True, rt_put t ip (?w @ [(r, now)]))"
          by (rule add_route_write_push) (use Finished False nfull in auto)
        ultimately show ?thesis by (intro exI[of _ True] exI[of _ "?w @ [(r, now)]"]) simp
      qed
    qed
  qed
qed

lemma add_route_inner_inv:
  assumes "rt_inv t"
  shows "rt_inv (snd (add_route_inner t now ip r oia))"
proof -
  have wf: "\<And>v. rt_get t ip = Some v \<Longrightarrow> v \<noteq> [] \<and> entry_wf t v" and cn: "rt_channel_num t \<noteq> 0"
    using assms by (auto simp: rt_inv_def)
  have w: "rt_inv (snd (add_route_write t now ip r oia))" if "route_type_ok t r"
    using add_route_write_result[of t r ip now oia, OF cn that wf] assms by (auto intro: rt_put_inv)
  show ?thesis
    using assms w by (auto simp: add_route_inner_def route_type_ok_def split: option.split)
qed

lemma stamp_first_keys [simp]: "map fst (stamp_first key now v) = map fst v"
  by (induction key now v rule: stamp_first.induct) auto

lemma stamp_first_Nil_iff [simp]: "stamp_first key now v = [] \<longleftrightarrow> v = []"
  by (induction key now v rule: stamp_first.induct) auto

lemma entry_wf_map_fst: "map fst w = map fst v \<Longrightarrow> entry_wf t v \<Longrightarrow> entry_wf t w"
proof -
  assume m: "map fst w = map fst v" and wf: "entry_wf t v"
  have k: "map entry_key u = map Route_route_key (map fst u)" for u by simp
  have p: "(\<forall>e \<in> set u. entry_p2p e) \<longleftrightarrow> (\<forall>r \<in> set (map fst u). Route_is_p2p r)" for u by simp
  have "length w = length v" using m by (metis length_map)
  with wf show "entry_wf t w" unfolding entry_wf_def k p m by simp
qed

lemma update_read_time_inv: "rt_inv t \<Longrightarrow> rt_inv (update_read_time t now ip key)"
proof (cases "rt_get t ip")
  case (Some v)
  assume i: "rt_inv t"
  have "v \<noteq> []" "entry_wf t v" using i Some by (auto simp: rt_inv_def)
  then have "stamp_first key now v \<noteq> []" "entry_wf t (stamp_first key now v)"
    by (auto intro: entry_wf_map_fst[of _ v])
  with i Some show ?thesis by (auto simp: update_read_time_def intro: rt_put_inv)
qed (simp add: update_read_time_def)

lemma remove_route_get:
  assumes "rt_inv t"
  shows "rt_get (remove_route t ip key) ip' =
    (if ip' = ip then
       (case rt_get t ip of None \<Rightarrow> None
        | Some v \<Rightarrow> let w = filter (\<lambda>e. entry_key e \<noteq> key) v in if w = [] then None else Some w)
     else rt_get t ip')"
  using assms
  by (auto simp: remove_route_def rt_get_def rt_put_def Let_def update_conv' delete_conv' split_beta'
      split: option.split)

lemma remove_route_inv:
  assumes "rt_inv t"
  shows "rt_inv (remove_route t ip key)"
proof -
  have e: "entry_wf (remove_route t ip key) w = entry_wf t w" for w
    by (simp add: remove_route_def entry_wf_def len_bound_def rt_put_def Let_def split: option.split)
  have "distinct (map fst (rt_map (remove_route t ip key)))"
    using assms by (auto simp: remove_route_def rt_inv_def rt_put_def Let_def distinct_update distinct_delete
        split: option.split)
  moreover have "v \<noteq> [] \<and> entry_wf t v" if "rt_get (remove_route t ip key) ip' = Some v" for ip' v
  proof -
    have sub: "entry_wf t (filter P v)" if "rt_get t ip' = Some v" for P v
      using that assms entry_wf_subseteq[of t v "filter P v"] by (auto simp: rt_inv_def multiset_filter_subset)
    with that assms show ?thesis
      by (auto simp: remove_route_get[OF assms] rt_inv_def Let_def split: if_splits option.splits)
  qed
  moreover have "rt_channel_num (remove_route t ip key) = rt_channel_num t"
    by (simp add: remove_route_def rt_put_def Let_def split: option.split)
  moreover have "rt_channel_num t \<noteq> 0" using assms by (simp add: rt_inv_def)
  ultimately show ?thesis
    unfolding rt_inv_def e by simp
qed

section \<open>Interface: a store of keyed routes\<close>

text \<open>
  What the senders and the maintenance loops rely on: a set of route keys per peer, an
  insertion that reports whether the key is stored, a removal that removes the key and
  nothing else, and an invariant that every operation keeps.
\<close>

locale route_store =
  fixes inv :: "'t \<Rightarrow> bool" and keys :: "'t \<Rightarrow> 'ip \<Rightarrow> 'k set"
    and add_absent :: "'t \<Rightarrow> nat \<Rightarrow> 'ip \<Rightarrow> 'r \<Rightarrow> bool \<times> 't" and add :: "'t \<Rightarrow> nat \<Rightarrow> 'ip \<Rightarrow> 'r \<Rightarrow> bool \<times> 't"
    and remove :: "'t \<Rightarrow> 'ip \<Rightarrow> 'k \<Rightarrow> 't" and key :: "'r \<Rightarrow> 'k"
  assumes inv_add_absent: "inv t \<Longrightarrow> inv (snd (add_absent t now ip r))"
    and inv_add: "inv t \<Longrightarrow> inv (snd (add t now ip r))"
    and inv_remove: "inv t \<Longrightarrow> inv (remove t ip k)"
    and keys_add_absent: "inv t \<Longrightarrow> add_absent t now ip r = (True, t') \<Longrightarrow> key r \<in> keys t' ip"
    and keys_add_other: "inv t \<Longrightarrow> ip' \<noteq> ip \<Longrightarrow> keys (snd (add t now ip r)) ip' = keys t ip'"
    and keys_add_absent_other: "inv t \<Longrightarrow> ip' \<noteq> ip \<Longrightarrow> keys (snd (add_absent t now ip r)) ip' = keys t ip'"
    and keys_remove: "inv t \<Longrightarrow> keys (remove t ip k) ip' = keys t ip' - (if ip' = ip then {k} else {})"
begin

lemma add_absent_then_remove:
  "inv t \<Longrightarrow> add_absent t now ip r = (True, t') \<Longrightarrow> key r \<notin> keys (remove t' ip (key r)) ip"
  using inv_add_absent[of t now ip r] by (simp add: keys_remove)

lemma remove_commute_keys:
  "inv t \<Longrightarrow> keys (remove (remove t ip k) ip2 k2) = keys (remove (remove t ip2 k2) ip k)"
  by (rule ext) (auto simp: keys_remove inv_remove)

lemma remove_all_empties:
  "inv t \<Longrightarrow> keys t ip \<subseteq> set ks \<Longrightarrow> keys (fold (\<lambda>k t. remove t ip k) ks t) ip = {}"
proof (induction ks arbitrary: t)
  case (Cons k ks)
  then have "keys (remove t ip k) ip \<subseteq> set ks" by (auto simp: keys_remove)
  with Cons.IH[of "remove t ip k"] Cons.prems(1) show ?case by (simp add: inv_remove)
qed simp

end

section \<open>The table as a route store\<close>

definition rt_keys :: "RouteTable \<Rightarrow> ipv4 \<Rightarrow> RouteKey set" where
  "rt_keys t ip = (case rt_get t ip of None \<Rightarrow> {} | Some v \<Rightarrow> entry_key ` set v)"

lemma rt_keys_put [simp]: "rt_keys (rt_put t ip v) ip' = (if ip' = ip then entry_key ` set v else rt_keys t ip')"
  by (simp add: rt_keys_def)

lemma rt_invD: "rt_inv t \<Longrightarrow> rt_channel_num t \<noteq> 0 \<and> (\<forall>ip v. rt_get t ip = Some v \<longrightarrow> v \<noteq> [] \<and> entry_wf t v)"
  by (simp add: rt_inv_def)

lemma add_route_inner_keys:
  assumes "rt_inv t"
  shows "ip' \<noteq> ip \<Longrightarrow> rt_keys (snd (add_route_inner t now ip r oia)) ip' = rt_keys t ip'"
    and "add_route_inner t now ip r True = (True, t') \<Longrightarrow> Route_route_key r \<in> rt_keys t' ip"
proof -
  have w: "\<exists>b w. add_route_write t now ip r oia = (b, rt_put t ip w) \<and> w \<noteq> [] \<and> entry_wf t w \<and>
    (b \<longrightarrow> oia \<longrightarrow> Route_route_key r \<in> entry_key ` set w)" if "route_type_ok t r" for oia
    using rt_invD[OF assms] add_route_write_result[OF _ that, of ip now oia] by blast
  show "rt_keys (snd (add_route_inner t now ip r oia)) ip' = rt_keys t ip'" if "ip' \<noteq> ip"
  proof (cases "route_type_ok t r")
    case True
    with w[of oia] that have "rt_keys (snd (add_route_write t now ip r oia)) ip' = rt_keys t ip'" by auto
    with True show ?thesis
      by (cases oia) (auto simp: add_route_inner_def route_type_ok_def split: option.split)
  qed (simp add: add_route_inner_def route_type_ok_def)
  show "Route_route_key r \<in> rt_keys t' ip" if a: "add_route_inner t now ip r True = (True, t')"
  proof -
    have "(\<exists>v. rt_get t ip = Some v \<and> absent_scan (Route_route_key r) 0 v = None \<and> t' = t) \<or>
        route_type_ok t r \<and> add_route_write t now ip r True = (True, t')"
      using a by (auto simp: add_route_inner_def route_type_ok_def split: if_splits option.splits)
    then show ?thesis
    proof (elim disjE exE conjE)
      fix v assume "rt_get t ip = Some v" "absent_scan (Route_route_key r) 0 v = None" "t' = t"
      then show ?thesis by (simp add: rt_keys_def absent_scan_None_iff)
    next
      assume "route_type_ok t r" "add_route_write t now ip r True = (True, t')"
      with w[of True] obtain v where "t' = rt_put t ip v" "Route_route_key r \<in> entry_key ` set v" by fastforce
      then show ?thesis by simp
    qed
  qed
qed

lemma remove_route_keys:
  "rt_inv t \<Longrightarrow> rt_keys (remove_route t ip key) ip' = rt_keys t ip' - (if ip' = ip then {key} else {})"
  by (auto simp: rt_keys_def remove_route_get Let_def filter_empty_conv split: option.splits)

interpretation rts: route_store rt_inv rt_keys add_route_if_absent add_route remove_route Route_route_key
  by unfold_locales
    (auto simp: add_route_if_absent_def add_route_def add_route_inner_inv remove_route_inv
      add_route_inner_keys remove_route_keys)

section \<open>Properties\<close>

datatype rt_op =
    RtAdd nat ipv4 Route | RtAddIfAbsent nat ipv4 Route | RtRemove ipv4 RouteKey
  | RtUpdateReadTime nat ipv4 RouteKey

fun rt_step :: "RouteTable \<Rightarrow> rt_op \<Rightarrow> RouteTable" where
  "rt_step t (RtAdd now ip r) = snd (add_route t now ip r)"
| "rt_step t (RtAddIfAbsent now ip r) = snd (add_route_if_absent t now ip r)"
| "rt_step t (RtRemove ip key) = remove_route t ip key"
| "rt_step t (RtUpdateReadTime now ip key) = update_read_time t now ip key"

lemma rt_step_inv: "rt_inv t \<Longrightarrow> rt_inv (rt_step t op)"
  by (cases op) (simp_all add: rts.inv_add rts.inv_add_absent rts.inv_remove update_read_time_inv)

text \<open>
  C27. Whatever sequence of additions, removals and read stamps is applied to a new route
  table (at least one channel), every peer of the table has at least one route, no route
  key occurs twice for a peer, the number of routes of a peer stays within the channel
  bound, and a p2p-only table holds direct routes only.
\<close>
theorem route_table_reachable_inv:
  assumes "cn \<noteq> 0"
  shows "rt_inv (foldl rt_step (RouteTable_new ty fl cn) ops)"
proof -
  have "rt_inv (foldl rt_step t ops)" if "rt_inv t" for t
    using that by (induction ops arbitrary: t) (simp_all add: rt_step_inv)
  moreover have "rt_inv (RouteTable_new ty fl cn)"
    using assms by (simp add: rt_inv_def RouteTable_new_def rt_get_def)
  ultimately show ?thesis by blast
qed

theorem route_table_reachable_inv_witness:
  "rt_inv (foldl rt_step (RouteTable_new Use_All True 2)
     [RtAdd 5 7 (Route_from_default_rt \<lparr>rk_protocol = Conn_UDP, rk_index = 0, rk_addr = SockV4 9 80\<rparr> 1)])"
  by (rule route_table_reachable_inv) simp

text \<open>
  \<open>add_route_if_absent\<close> tells the truth: for a route whose kind the table allows, it
  returns true exactly when the route's key is stored for that peer afterwards. (The ping
  handler answers a peer on the strength of this result.)
\<close>
theorem add_route_if_absent_true_iff:
  assumes "rt_inv t" and "route_type_ok t r" and "add_route_if_absent t now ip r = (b, t')"
  shows "b \<longleftrightarrow> Route_route_key r \<in> rt_keys t' ip"
proof
  assume b
  with assms show "Route_route_key r \<in> rt_keys t' ip" by (auto dest: rts.keys_add_absent)
next
  let ?v = "rt_list t ip"
  assume k: "Route_route_key r \<in> rt_keys t' ip"
  show b
  proof (rule ccontr)
    assume nb: "\<not> b"
    have nokey: "Route_route_key r \<notin> entry_key ` set ?v"
      using assms(2,3) nb
      by (cases "rt_get t ip")
        (auto simp: add_route_if_absent_def add_route_inner_def route_type_ok_def rt_list_def
          split: option.splits dest!: absent_scan_Some_notin)
    have "t' = t \<or> add_route_write t now ip r True = (False, t')"
      using assms nb
      by (auto simp: add_route_if_absent_def add_route_inner_def route_type_ok_def split: option.splits if_splits)
    then show False
    proof
      assume "t' = t"
      with k nokey show False by (auto simp: rt_keys_def rt_list_def split: option.splits)
    next
      assume "add_route_write t now ip r True = (False, t')"
      then obtain w where "t' = rt_put t ip w" and "set w \<subseteq> set ?v"
        using update_loop_Finished[of "rt_first_latency t" True now r ?v]
        by (fastforce simp: add_route_write_def Let_def split: update_out.splits if_splits)
      with k image_mono[OF this(2), of entry_key] nokey show False by (simp add: subset_iff)
    qed
  qed
qed

theorem add_route_if_absent_true_witness:
  "fst (add_route_if_absent (RouteTable_new Use_All False 1) 0 7
      (Route_from_default_rt \<lparr>rk_protocol = Conn_UDP, rk_index = 0, rk_addr = SockV4 9 80\<rparr> 1))"
proof -
  let ?t = "RouteTable_new Use_All False 1"
  let ?r = "Route_from_default_rt \<lparr>rk_protocol = Conn_UDP, rk_index = 0, rk_addr = SockV4 9 80\<rparr> 1"
  have "rt_inv ?t" "route_type_ok ?t ?r"
    by (simp_all add: rt_inv_def RouteTable_new_def rt_get_def route_type_ok_def)
  moreover have "Route_route_key ?r \<in> rt_keys (snd (add_route_if_absent ?t 0 7 ?r)) 7"
    by (simp add: add_route_if_absent_def add_route_inner_def add_route_write_def RouteTable_new_def
        rt_get_def rt_put_def rt_keys_def rt_list_def Let_def truncate_routes_def)
  ultimately show ?thesis using add_route_if_absent_true_iff[of ?t ?r 0 7] by (metis prod.collapse)
qed

lemma rt_get_Some_list: "rt_get t ip = Some v \<Longrightarrow> rt_list t ip = v"
  by (simp add: rt_list_def)

text \<open>
  When latency is not preferred, a lookup spreads over the measured routes only: for
  every index it returns a stored route of that peer whose round trip time has been
  measured, and reports "not found" exactly when the peer has no measured route.
\<close>
theorem get_route_by_id_measured:
  assumes "\<not> rt_first_latency t"
  shows "(\<forall>r. get_route_by_id t index ip = Inr r \<longrightarrow> r \<in> fst ` set (rt_list t ip) \<and> r_rt r \<noteq> DEFAULT_RT) \<and>
    (get_route_by_id t index ip = Inl (Io NotFound ''route not found'') \<longleftrightarrow>
       (\<forall>r \<in> fst ` set (rt_list t ip). r_rt r = DEFAULT_RT))"
proof (cases "rt_list t ip")
  case Nil
  then have "get_route_by_id t index ip = Inl (Io NotFound ''route not found'')"
    using assms by (auto simp: get_route_by_id_def rt_list_def split: option.splits)
  with Nil show ?thesis by simp
next
  case (Cons e es)
  then have g: "rt_get t ip = Some (rt_list t ip)"
    by (auto simp: rt_list_def split: option.splits)
  let ?v = "rt_list t ip" and ?r = "fst (rt_list t ip ! (index mod length (rt_list t ip)))"
  have mem: "?v ! (index mod length ?v) \<in> set ?v" using Cons by (intro nth_mem) simp
  have eq: "get_route_by_id t index ip =
      (if r_rt ?r \<noteq> DEFAULT_RT then Inr ?r
       else case find (\<lambda>(r, _). r_rt r \<noteq> DEFAULT_RT) ?v of
              Some (r, _) \<Rightarrow> Inr r | None \<Rightarrow> Inl (Io NotFound ''route not found''))"
    using assms Cons by (simp add: get_route_by_id_def g Let_def)
  show ?thesis
  proof (cases "find (\<lambda>(r, _). r_rt r \<noteq> DEFAULT_RT) ?v")
    case None
    then have "\<forall>e \<in> set ?v. r_rt (fst e) = DEFAULT_RT" by (auto simp: find_None_iff)
    with eq None mem show ?thesis by simp
  next
    case (Some p)
    then have p: "p \<in> set ?v" "r_rt (fst p) \<noteq> DEFAULT_RT"
      by (auto simp: find_Some_iff in_set_conv_nth split_beta')
    then have "fst p \<in> fst ` set ?v" "?r \<in> fst ` set ?v" using mem by simp_all
    with eq Some p(2) show ?thesis by (cases p) auto
  qed
qed

theorem get_route_by_id_measured_witness:
  "get_route_by_id
     (rt_put (RouteTable_new Use_All False 2) 7
        [(Route_from_default_rt \<lparr>rk_protocol = Conn_UDP, rk_index = 0, rk_addr = SockV4 9 80\<rparr> 1, 0)]) 3 7
   = Inl (Io NotFound ''route not found'')"
proof -
  let ?t = "rt_put (RouteTable_new Use_All False 2) 7
    [(Route_from_default_rt \<lparr>rk_protocol = Conn_UDP, rk_index = 0, rk_addr = SockV4 9 80\<rparr> 1, 0)]"
  have "\<not> rt_first_latency ?t" "\<forall>r \<in> fst ` set (rt_list ?t 7). r_rt r = DEFAULT_RT"
    by (simp_all add: RouteTable_new_def rt_list_def)
  with get_route_by_id_measured[of ?t 3 7] show ?thesis by blast
qed

lemma sorted_hd_min:
  "sorted (map f xs) \<Longrightarrow> xs \<noteq> [] \<Longrightarrow> x \<in> set xs \<Longrightarrow> f (hd xs) \<le> f x"
  by (cases xs) auto

lemma get_route_by_id_first:
  "rt_first_latency t \<Longrightarrow> rt_get t ip = Some (e # es) \<Longrightarrow> get_route_by_id t index ip = Inr (fst e)"
  by (cases e) (simp add: get_route_by_id_def Let_def)

lemma update_loop_first_latency:
  "Route_route_key r \<in> entry_key ` set v \<Longrightarrow> \<exists>w. update_loop True False now r v = Finished w True"
proof -
  assume k: "Route_route_key r \<in> entry_key ` set v"
  show ?thesis
  proof (cases "update_loop True False now r v")
    case (Leave b)
    moreover have "update_loop True False now r v \<noteq> Leave b" for b
      by (induction True False now r v rule: update_loop.induct) (auto split: update_out.splits)
    ultimately show ?thesis by simp
  next
    case (Finished w e)
    with update_loop_Finished[OF Finished] k show ?thesis by auto
  qed
qed

text \<open>
  When latency is preferred, refreshing a stored route with a new round trip time
  re-orders the peer's routes: the next lookup returns a route whose time is the least of all
  routes kept for that peer.
\<close>
theorem add_route_keeps_fastest_first:
  assumes "rt_inv t" and "rt_first_latency t" and "Route_route_key r \<in> rt_keys t ip"
    and ty: "route_type_ok t r"
  shows "\<exists>b. get_route_by_id (snd (add_route t now ip r)) index ip = Inr b \<and>
     (\<forall>r' \<in> fst ` set (rt_list (snd (add_route t now ip r)) ip). r_rt b \<le> r_rt r')"
proof -
  have k: "Route_route_key r \<in> entry_key ` set (rt_list t ip)"
    using assms(3) by (auto simp: rt_keys_def rt_list_def split: option.splits)
  then obtain w where w: "update_loop True False now r (rt_list t ip) = Finished w True"
    using update_loop_first_latency by blast
  let ?s = "sort_key (\<lambda>(k, _). r_rt k) w"
  let ?v = "if \<exists>(r, _) \<in> set ?s. r_rt r = DEFAULT_RT then ?s
            else truncate_routes True ?s (rt_channel_num t + 2)"
  have "add_route t now ip r = add_route_write t now ip r False"
    using ty by (auto simp: add_route_def add_route_inner_def route_type_ok_def)
  then have t': "snd (add_route t now ip r) = rt_put t ip ?v"
    using add_route_write_exist[of t False now r ip w] w assms(2) by (simp add: Let_def)
  have "map entry_key w = map entry_key (rt_list t ip)" using update_loop_Finished[OF w] by simp
  with k have "w \<noteq> []" by auto
  then have ne: "?s \<noteq> []" by simp
  have "\<exists>es. ?v = hd ?s # es"
  proof (cases "\<exists>(r, _) \<in> set ?s. r_rt r = DEFAULT_RT")
    case True
    then show ?thesis using ne by (simp only: if_True) (metis list.collapse)
  next
    case False
    then show ?thesis using truncate_hd[OF _ ne, of "rt_channel_num t + 2" True] by (simp only: if_False)
  qed
  then obtain e es where v: "?v = e # es" "e = hd ?s" by blast
  have "sorted (map (\<lambda>(k, _). r_rt k) ?s)" by (rule sorted_sort_key)
  then have "r_rt (fst e) \<le> r_rt (fst x)" if "x \<in> set ?s" for x
    using sorted_hd_min[of "\<lambda>(k, _). r_rt k" ?s x] that v(2) \<open>w \<noteq> []\<close> by (simp add: split_beta')
  moreover have "set ?v \<subseteq> set ?s" using set_truncate_subset[of True ?s] by simp
  ultimately have "\<forall>r' \<in> fst ` set ?v. r_rt (fst e) \<le> r_rt r'" by blast
  moreover have "get_route_by_id (rt_put t ip ?v) index ip = Inr (fst e)"
    using assms(2) v(1) by (intro get_route_by_id_first[of _ _ e es]) simp_all
  moreover have "rt_list (rt_put t ip ?v) ip = ?v" by (simp add: rt_list_def)
  ultimately show ?thesis unfolding t' by auto
qed

theorem add_route_keeps_fastest_first_witness:
  "let k1 = \<lparr>rk_protocol = Conn_UDP, rk_index = 0, rk_addr = SockV4 9 80\<rparr>;
       k2 = \<lparr>rk_protocol = Conn_UDP, rk_index = 1, rk_addr = SockV4 9 80\<rparr>;
       t = rt_put (RouteTable_new Use_All True 2) 7 [(Route_from k1 1 5, 0), (Route_from k2 1 8, 0)] in
   \<exists>b. get_route_by_id (snd (add_route t 1 7 (Route_from k2 1 3))) 0 7 = Inr b \<and>
     (\<forall>r' \<in> fst ` set (rt_list (snd (add_route t 1 7 (Route_from k2 1 3))) 7). r_rt b \<le> r_rt r')"
  unfolding Let_def
  by (rule add_route_keeps_fastest_first)
    (auto simp: rt_inv_def entry_wf_def len_bound_def rt_keys_def route_type_ok_def RouteTable_new_def
      rt_put_def rt_get_def)

text \<open>
  Preferring latency never costs a peer its last direct route: after any addition, if a
  direct route other than the one being added was stored, a direct route is still stored.
\<close>
theorem add_route_keeps_direct:
  assumes "rt_inv t" and "rt_first_latency t" and "e \<in> set (rt_list t ip)" and "entry_p2p e"
    and "entry_key e \<noteq> Route_route_key r"
  shows "p2p_num (snd (add_route t now ip r)) ip > 0"
proof -
  have cn: "0 < rt_channel_num t" using assms(1) by (simp add: rt_inv_def)
  have pos: "p2p_num (rt_put t ip v) ip > 0" if "\<exists>e \<in> set v. entry_p2p e" for v
    using that by (auto simp: p2p_num_def split_beta' filter_empty_conv)
  show ?thesis
  proof (cases "route_type_ok t r")
    case False
    then have "snd (add_route t now ip r) = t"
      by (simp add: add_route_def add_route_inner_def route_type_ok_def)
    then show ?thesis
      using assms(3,4)
      by (cases "rt_get t ip") (auto simp: p2p_num_def rt_list_def split_beta' filter_empty_conv)
  next
    case True
    then have ar: "add_route t now ip r = add_route_write t now ip r False"
      by (auto simp: add_route_def add_route_inner_def route_type_ok_def)
    show ?thesis
    proof (cases "Route_route_key r \<in> entry_key ` set (rt_list t ip)")
      case True
      then obtain w where w: "update_loop True False now r (rt_list t ip) = Finished w True"
        using update_loop_first_latency by blast
      have "e \<in> set w" if "update_loop True False now r v = Finished w True" "e \<in> set v" for v w
        using that assms(5)
        by (induction True False now r v arbitrary: w rule: update_loop.induct) (auto split: if_splits update_out.splits)
      then have "\<exists>e \<in> set (sort_key (\<lambda>(k, _). r_rt k) w). entry_p2p e" using w assms(3,4) by auto
      then show ?thesis
        using add_route_write_exist[of t False now r ip w] w assms(2) truncate_keeps_p2p[of True "rt_channel_num t + 2"]
        by (simp add: ar Let_def pos)
    next
      case False
      then obtain w where w: "update_loop True False now r (rt_list t ip) = Finished w False"
        using update_loop_Leave[of True False now r "rt_list t ip"] update_loop_Finished[of True False now r "rt_list t ip"]
        by (cases "update_loop True False now r (rt_list t ip)") auto
      have "\<exists>e \<in> set (sort_key (\<lambda>(k, _). r_rt k) (joined_list t ip r)). entry_p2p e"
        using assms(2-4) by (auto simp: joined_list_def)
      then have "\<exists>e \<in> set (truncate_routes True (sort_key (\<lambda>(k, _). r_rt k) (joined_list t ip r)) (rt_channel_num t * 2)).
          entry_p2p e"
        using cn by (intro truncate_keeps_p2p) simp_all
      then have "\<exists>e \<in> set (truncate_routes True (sort_key (\<lambda>(k, _). r_rt k) (joined_list t ip r)) (rt_channel_num t * 2)
          @ [(r, now)]). entry_p2p e"
        unfolding set_append by blast
      note direct = pos[OF this]
      have "update_loop (rt_first_latency t) False now r (rt_list t ip) = Finished w False"
        using w assms(2) by simp
      from add_route_write_push[OF this, simplified assms(2)] show ?thesis
        using direct by (simp only: ar simp_thms snd_conv)
    qed
  qed
qed

theorem add_route_keeps_direct_witness:
  "let k1 = \<lparr>rk_protocol = Conn_UDP, rk_index = 0, rk_addr = SockV4 9 80\<rparr>;
       k2 = \<lparr>rk_protocol = Conn_TCP, rk_index = 1, rk_addr = SockV4 9 80\<rparr>;
       t = rt_put (RouteTable_new Use_All True 1) 7 [(Route_from k1 1 50, 0)] in
   p2p_num (snd (add_route t 1 7 (Route_from k2 2 3))) 7 > 0"
  unfolding Let_def
  by (rule add_route_keeps_direct
      [where e = "(Route_from \<lparr>rk_protocol = Conn_UDP, rk_index = 0, rk_addr = SockV4 9 80\<rparr> 1 50, 0)"])
    (auto simp: rt_inv_def entry_wf_def len_bound_def rt_list_def Route_is_p2p_def RouteTable_new_def
      rt_put_def rt_get_def)

end
