(* ===== verification/Checksum.thy ===== *)
theory Checksum
  imports Vnt_Prelude
begin

text \<open>
  The internet checksum of the packet crate, \<^verbatim>\<open>packet/src/lib.rs\<close>: the sum of the
  big-endian 16-bit words of a buffer in a \<open>u32\<close>, the carry folded back until it is gone, and
  the complement. \<open>ipv4_cal_checksum\<close> starts from the pseudo header.

  The loop reads a two-byte word until the read fails, then reads the odd byte. How much a failed
  \<open>read_exact\<close> consumes is documented by the standard library as unspecified, and it changed
  between releases: the flag \<open>keeps_tail\<close> says whether the odd byte is still there after the
  failed read. Without it \<open>read_u8().unwrap()\<close> panics.
\<close>

section \<open>The code\<close>

definition u32c :: "u8 \<Rightarrow> u8 \<Rightarrow> u32" where
  "u32c x y = push_bit 8 (ucast x) OR ucast y"

fun add_words :: "bool \<Rightarrow> u8 list \<Rightarrow> u32 \<Rightarrow> u32 res" where
  "add_words keeps_tail (a # b # rest) acc = add_words keeps_tail rest (acc + ucast (be16 a b))"
| "add_words keeps_tail [a] acc = (if keeps_tail then Inr (acc + u32c a 0) else Inl Panic)"
| "add_words keeps_tail [] acc = Inr acc"

lemma carry_unat:
  "unat ((s AND 0xFFFF) + drop_bit 16 s) = unat s mod 65536 + unat s div 65536" for s :: u32
proof -
  have "s AND 0xFFFF = take_bit 16 s" by (simp add: take_bit_eq_mask mask_eq_exp_minus_1)
  then have a: "unat (s AND 0xFFFF) = unat s mod 65536"
    by (simp only:) (subst unsigned_take_bit_eq, simp add: take_bit_eq_mod)
  have d: "unat (drop_bit 16 s) = unat s div 65536"
    by (subst unat_drop_bit_eq) (simp add: drop_bit_eq_div)
  have "unat s < 2 ^ 32" using unsigned_less[of s] by simp
  then have "unat s div 65536 \<le> 65535" by (simp add: div_le_mono less_Suc_eq_le[symmetric] less_mult_imp_div_less)
  moreover have "unat s mod 65536 \<le> 65535" using mod_less_divisor[of 65536 "unat s"] by simp
  ultimately have "unat (s AND 0xFFFF) + unat (drop_bit 16 s) < 2 ^ LENGTH(32)"
    by (simp only: a d) simp
  then have "unat ((s AND 0xFFFF) + drop_bit 16 s) = unat (s AND 0xFFFF) + unat (drop_bit 16 s)"
    by (simp only: unat_add_lem)
  then show ?thesis by (simp only: a d)
qed

lemma no_carry_unat: "drop_bit 16 s = 0 \<longleftrightarrow> unat s < 65536" for s :: u32
proof -
  have "drop_bit 16 s = 0 \<longleftrightarrow> unat (drop_bit 16 s) = 0" by (simp only: unat_eq_0)
  also have "unat (drop_bit 16 s) = unat s div 65536"
    by (subst unat_drop_bit_eq) (simp add: drop_bit_eq_div)
  finally show ?thesis by (simp add: div_eq_0_iff)
qed

function fold_carry :: "u32 \<Rightarrow> u32" where
  "fold_carry acc =
     (if drop_bit 16 acc \<noteq> 0 then fold_carry ((acc AND 0xFFFF) + drop_bit 16 acc) else acc)"
  by pat_completeness auto
termination
proof (relation "measure unat")
  fix s :: u32
  assume "drop_bit 16 s \<noteq> 0"
  then have "65536 \<le> unat s" by (simp add: no_carry_unat)
  then have "0 < unat s div 65536" by (simp add: div_greater_zero_iff)
  then have "unat s mod 65536 + unat s div 65536 < unat s"
    using div_mult_mod_eq[of "unat s" 65536] by linarith
  then show "((s AND 0xFFFF) + drop_bit 16 s, s) \<in> measure unat" by (simp add: carry_unat)
qed simp

declare fold_carry.simps [simp del]

definition cal_checksum :: "bool \<Rightarrow> u8 list \<Rightarrow> u16 res" where
  "cal_checksum keeps_tail buffer =
     bindE (add_words keeps_tail buffer 0) (\<lambda>sum. Inr (ucast (NOT (fold_carry sum))))"

definition pseudo_header :: "nat \<Rightarrow> ipv4 \<Rightarrow> ipv4 \<Rightarrow> u8 \<Rightarrow> u32" where
  "pseudo_header len src_ip dest_ip protocol =
     (let s = octets src_ip; d = octets dest_ip in
      u32c (s ! 0) (s ! 1) + u32c (s ! 2) (s ! 3) + u32c (d ! 0) (d ! 1) + u32c (d ! 2) (d ! 3) +
      u32c 0 protocol + of_nat len)"

definition ipv4_cal_checksum :: "bool \<Rightarrow> u8 list \<Rightarrow> ipv4 \<Rightarrow> ipv4 \<Rightarrow> u8 \<Rightarrow> u16 res" where
  "ipv4_cal_checksum keeps_tail buffer src_ip dest_ip protocol =
     bindE (add_words keeps_tail buffer (pseudo_header (length buffer) src_ip dest_ip protocol))
       (\<lambda>sum. Inr (ucast (NOT (fold_carry sum))))"

section \<open>Arithmetic of the sum\<close>

text \<open>The specification: the natural-number sum of the words, an odd last byte padded with 0.\<close>

fun words_sum :: "u8 list \<Rightarrow> nat" where
  "words_sum (a # b # rest) = unat (be16 a b) + words_sum rest"
| "words_sum [a] = unat (be16 a 0)"
| "words_sum [] = 0"

lemma u32c_be16: "u32c a b = ucast (be16 a b)"
  by (rule bit_word_eqI)
    (auto simp: u32c_def be16_def bit_simps dest: bit_imp_le_length)

lemma be16_le: "unat (be16 a b) \<le> 65535"
proof -
  have "unat (be16 a b) < 2 ^ LENGTH(16)" by (rule unsigned_less)
  then show ?thesis by simp
qed

lemma unat_u32c [simp]: "unat (u32c a b) = unat (be16 a b)"
  using be16_le[of a b] by (simp add: u32c_be16 unsigned_ucast_eq take_bit_eq_mod)

lemma words_sum_le: "words_sum b \<le> 65535 * ((length b + 1) div 2)"
proof (induction b rule: words_sum.induct)
  case (1 a b rest)
  with be16_le[of a b] show ?case by simp
next
  case (2 a)
  show ?case using be16_le[of a 0] by simp
qed simp

lemma unat_add_word: "unat s + n < 2 ^ 32 \<Longrightarrow> unat (w::u32) = n \<Longrightarrow> unat (s + w) = unat s + n"
  by (simp add: unat_word_ariths)

lemma add_words_Inr:
  assumes "even (length b) \<or> k" and "unat s + words_sum b < 2 ^ 32"
  shows "\<exists>t. add_words k b s = Inr t \<and> unat t = unat s + words_sum b"
  using assms
proof (induction k b s rule: add_words.induct)
  case (1 k a b rest s)
  have u: "unat (s + ucast (be16 a b)) = unat s + unat (be16 a b)"
    using 1(3) by (intro unat_add_word) (auto simp: unsigned_ucast_eq take_bit_eq_mod)
  from 1 show ?case by (simp add: u add.assoc)
next
  case (2 k a s)
  then show ?case by (simp add: unat_add_word)
qed simp

lemma add_words_panic_iff: "add_words k b s = Inl e \<longleftrightarrow> e = Panic \<and> odd (length b) \<and> \<not> k"
  by (induction k b s rule: add_words.induct) auto

lemma fold_carry_unat: "unat (fold_carry s) < 65536 \<and> unat (fold_carry s) mod 65535 = unat s mod 65535 \<and>
    (fold_carry s = 0 \<longleftrightarrow> s = 0)"
proof (induction s rule: fold_carry.induct)
  case (1 s)
  show ?case
  proof (cases "drop_bit 16 s = 0")
    case True
    then show ?thesis using no_carry_unat[of s] by (simp add: fold_carry.simps[of s])
  next
    case False
    let ?t = "(s AND 0xFFFF) + drop_bit 16 s"
    have "unat s = 65535 * (unat s div 65536) + unat ?t"
      using div_mult_mod_eq[of "unat s" 65536] by (simp add: carry_unat)
    then have m: "unat ?t mod 65535 = unat s mod 65535" by (metis mod_mult_self4)
    have "65536 \<le> unat s" using False by (simp add: no_carry_unat)
    then have "0 < unat ?t" by (simp add: carry_unat div_greater_zero_iff)
    then have "?t \<noteq> 0" "s \<noteq> 0" using False by (auto simp: unat_gt_0)
    with 1[OF False] m False show ?thesis by (simp add: fold_carry.simps[of s])
  qed
qed

lemma not_low_unat: "unat (s::u32) < 65536 \<Longrightarrow> unat (ucast (NOT s) :: u16) = 65535 - unat s"
proof -
  assume l: "unat s < 65536"
  have "(ucast (NOT s) :: u16) = NOT (ucast s)"
    by (rule bit_word_eqI) (auto simp: bit_simps)
  moreover have "unat (ucast s :: u16) = unat s" using l by (simp add: unsigned_ucast_eq take_bit_eq_mod)
  moreover have "unat (NOT x) = 65535 - unat x" for x :: u16
  proof -
    have "NOT x = -1 - x" by (simp add: not_eq_complement)
    moreover have "unat (-1 - x) = unat (-1 :: u16) - unat x" by (rule unat_sub) simp
    moreover have "(-1 :: u16) = 65535" by simp
    ultimately show ?thesis by simp
  qed
  ultimately show ?thesis by simp
qed

lemma words_sum_splice:
  "even i \<Longrightarrow> i + 2 \<le> length b \<Longrightarrow>
     words_sum (splice i [x, y] b) = words_sum (splice i [0, 0] b) + unat (be16 x y)"
proof (induction b arbitrary: i rule: words_sum.induct)
  case (1 a b rest)
  show ?case
  proof (cases i)
    case 0
    then show ?thesis by (simp add: splice_def be16_def)
  next
    case (Suc j)
    with 1(2) obtain l where l: "i = Suc (Suc l)" "even l" by (cases j) auto
    with 1 show ?thesis by (simp add: splice_def)
  qed
qed auto

section \<open>A stored checksum verifies\<close>

definition ones_sum :: "bool \<Rightarrow> u8 list \<Rightarrow> u32 \<Rightarrow> u16 res" where
  "ones_sum k b s = bindE (add_words k b s) (\<lambda>t. Inr (ucast (NOT (fold_carry t))))"

lemma residue_top: "n < 65536 \<Longrightarrow> n = 65535 \<longleftrightarrow> n \<noteq> 0 \<and> n mod 65535 = 0" for n :: nat
proof (cases "n < 65535")
  case False
  moreover assume "n < 65536"
  ultimately have "n = 65535" by linarith
  then show ?thesis by simp
qed auto

lemma residue_complement:
  fixes f n :: nat
  assumes "f < 65536" "f mod 65535 = n mod 65535" "f = 0 \<longleftrightarrow> n = 0"
  shows "0 < n + (65535 - f) \<and> (n + (65535 - f)) mod 65535 = 0"
proof -
  have "(n + (65535 - f)) mod 65535 = (f + (65535 - f)) mod 65535"
    using assms(2) by (intro mod_add_cong) simp_all
  also have "\<dots> = 0" using assms(1) by simp
  finally show ?thesis using assms by (cases "n = 0") auto
qed

lemma complement_unat: "unat (ucast (NOT (fold_carry s)) :: u16) = 65535 - unat (fold_carry s)"
  using fold_carry_unat[of s] by (intro not_low_unat) simp

lemma complement_zero_iff:
  "(ucast (NOT (fold_carry s)) :: u16) = 0 \<longleftrightarrow> unat s \<noteq> 0 \<and> unat s mod 65535 = 0"
proof -
  note f = fold_carry_unat[of s]
  have "(ucast (NOT (fold_carry s)) :: u16) = 0 \<longleftrightarrow> 65535 - unat (fold_carry s) = 0"
    by (simp only: unat_eq_0[symmetric] complement_unat)
  also have "\<dots> \<longleftrightarrow> unat (fold_carry s) = 65535" using conjunct1[OF f] by linarith
  also have "\<dots> \<longleftrightarrow> unat (fold_carry s) \<noteq> 0 \<and> unat (fold_carry s) mod 65535 = 0"
    using conjunct1[OF f] by (rule residue_top)
  finally show ?thesis using f by (simp only: unat_eq_0)
qed

lemma complement_sum:
  "0 < unat s + unat (ucast (NOT (fold_carry s)) :: u16) \<and>
   (unat s + unat (ucast (NOT (fold_carry s)) :: u16)) mod 65535 = 0"
  unfolding complement_unat
  using fold_carry_unat[of s] by (intro residue_complement) (simp_all only: unat_eq_0)

lemma ones_sum_seal:
  assumes "even at" "at + 2 \<le> length b" "even (length b) \<or> k"
    and "length b \<le> 65535" "unat s \<le> 6 * 65535"
  obtains c where "ones_sum k (splice at [0, 0] b) s = Inr c"
    and "ones_sum k (splice at (be16_bytes c) b) s = Inr 0"
proof -
  let ?b0 = "splice at [0, 0] b"
  have bound: "unat s + words_sum (splice at [x, y] b) < 2 ^ 32" for x y
    using words_sum_le[of "splice at [x, y] b"] assms by simp
  obtain t where t: "add_words k ?b0 s = Inr t" "unat t = unat s + words_sum ?b0"
    using add_words_Inr[of ?b0 k s] assms bound by auto
  define c :: u16 where "c = ucast (NOT (fold_carry t))"
  obtain x y where xy: "be16_bytes c = [x, y]" by (simp add: be16_bytes_def)
  then have cxy: "be16 x y = c" by (auto simp: be16_bytes_def)
  let ?b1 = "splice at [x, y] b"
  obtain t' where t': "add_words k ?b1 s = Inr t'" "unat t' = unat s + words_sum ?b1"
    using add_words_Inr[of ?b1 k s] assms bound by auto
  have e: "unat t' = unat t + unat c"
    using words_sum_splice[of at b x y] assms t'(2) t(2) cxy by simp
  have "unat t' \<noteq> 0 \<and> unat t' mod 65535 = 0"
    using complement_sum[of t, folded c_def] unfolding e neq0_conv .
  then have z: "(ucast (NOT (fold_carry t')) :: u16) = 0"
    by (rule complement_zero_iff[THEN iffD2])
  have "ones_sum k ?b0 s = Inr c" by (simp only: ones_sum_def t(1) c_def bindE_simps)
  moreover have "ones_sum k (splice at (be16_bytes c) b) s = Inr 0"
    by (simp only: ones_sum_def xy t'(1) bindE_simps z)
  ultimately show ?thesis by (rule that)
qed

lemma ones_sum_panic_iff: "ones_sum k b s = Inl e \<longleftrightarrow> e = Panic \<and> odd (length b) \<and> \<not> k"
  by (auto simp: ones_sum_def bindE_Inl_iff add_words_panic_iff)

lemma unat_add_le: "unat (x::u32) \<le> a \<Longrightarrow> unat y \<le> b \<Longrightarrow> unat (x + y) \<le> a + b"
  by (simp add: unat_word_ariths)

lemma pseudo_header_le: "n \<le> 65535 \<Longrightarrow> unat (pseudo_header n s d p) \<le> 6 * 65535"
proof -
  assume l: "n \<le> 65535"
  have "unat (of_nat n :: u32) \<le> 65535" using l by (simp add: unat_of_nat)
  then have "unat (pseudo_header n s d p) \<le> 65535 + 65535 + 65535 + 65535 + 65535 + 65535"
    unfolding pseudo_header_def Let_def by (intro unat_add_le) (simp_all only: unat_u32c be16_le)
  then show ?thesis by simp
qed

text \<open>The interface of a checksum routine: it is the complemented sum of the buffer on top of a start
  value that depends on the length only.\<close>

locale ones_complement =
  fixes k :: bool and cal :: "u8 list \<Rightarrow> u16 res" and start :: "nat \<Rightarrow> u32"
  assumes cal_eq: "cal b = ones_sum k b (start (length b))"
    and start_le: "n \<le> 65535 \<Longrightarrow> unat (start n) \<le> 6 * 65535"
begin

lemma seal:
  assumes "even at" "at + 2 \<le> length b" "even (length b) \<or> k" "length b \<le> 65535"
  shows "\<exists>c. cal (splice at [0, 0] b) = Inr c \<and> cal (splice at (be16_bytes c) b) = Inr 0"
proof -
  obtain c where "ones_sum k (splice at [0, 0] b) (start (length b)) = Inr c"
    "ones_sum k (splice at (be16_bytes c) b) (start (length b)) = Inr 0"
    using ones_sum_seal[OF assms(1-4) start_le[OF assms(4)]] .
  then show ?thesis using assms(2) by (auto simp: cal_eq)
qed

lemma panic_iff: "cal b = Inl e \<longleftrightarrow> e = Panic \<and> odd (length b) \<and> \<not> k"
  by (simp add: cal_eq ones_sum_panic_iff)

end

interpretation plain_sum: ones_complement k "cal_checksum k" "\<lambda>_. 0" for k
  by unfold_locales (simp_all add: cal_checksum_def ones_sum_def)

interpretation pseudo_sum: ones_complement k "\<lambda>b. ipv4_cal_checksum k b s d p"
    "\<lambda>n. pseudo_header n s d p" for k s d p
  by unfold_locales (simp add: ipv4_cal_checksum_def ones_sum_def, rule pseudo_header_le)

end
