(* ===== verification/Ip_Protocol.thy ===== *)
theory Ip_Protocol
  imports Vnt_Prelude
begin

text \<open>
  The IPv4 upper-layer protocol numbers, \<^verbatim>\<open>packet/src/ip/ipv4/protocol.rs\<close>: the enum of the
  source with its two conversions, in the order of the source. The datatype has 146
  constructors, so only the basic theorems of the package are generated for it.
\<close>

datatype (plugins only:) IpProtocol =
  Ip_Hopopt | Ip_Icmp | Ip_Igmp | Ip_Ggp | Ip_Ipv4 | Ip_St | Ip_Tcp | Ip_Cbt | Ip_Egp | Ip_Igp
   | Ip_BbnRccMon | Ip_NvpII | Ip_Pup | Ip_Argus | Ip_Emcon | Ip_Xnet | Ip_Chaos | Ip_Udp
   | Ip_Mux | Ip_DcnMeas | Ip_Hmp | Ip_Prm | Ip_XnsIdp | Ip_Trunk1 | Ip_Trunk2 | Ip_Leaf1
   | Ip_Leaf2 | Ip_Rdp | Ip_Irtp | Ip_IsoTp4 | Ip_Netblt | Ip_MfeNsp | Ip_MeritInp | Ip_Dccp
   | Ip_ThreePc | Ip_Idpr | Ip_Xtp | Ip_Ddp | Ip_IdprCmtp | Ip_TpPlusPlus | Ip_Il | Ip_Ipv6
   | Ip_Sdrp | Ip_Ipv6Route | Ip_Ipv6Frag | Ip_Idrp | Ip_Rsvp | Ip_Gre | Ip_Dsr | Ip_Bna
   | Ip_Esp | Ip_Ah | Ip_INlsp | Ip_Swipe | Ip_Narp | Ip_Mobile | Ip_Tlsp | Ip_Skip
   | Ip_Ipv6Icmp | Ip_Ipv6NoNxt | Ip_Ipv6Opts | Ip_HostInternal | Ip_Cftp | Ip_LocalNetwork
   | Ip_SatExpak | Ip_Kryptolan | Ip_Rvd | Ip_Ippc | Ip_DistributedFs | Ip_SatMon | Ip_Visa
   | Ip_Ipcv | Ip_Cpnx | Ip_Cphb | Ip_Wsn | Ip_Pvp | Ip_BrSatMon | Ip_SunNd | Ip_WbMon
   | Ip_WbExpak | Ip_IsoIp | Ip_Vmtp | Ip_SecureVmtp | Ip_Vines | Ip_TtpOrIptm | Ip_NsfnetIgp
   | Ip_Dgp | Ip_Tcf | Ip_Eigrp | Ip_OspfigP | Ip_SpriteRpc | Ip_Larp | Ip_Mtp | Ip_Ax25
   | Ip_IpIp | Ip_Micp | Ip_SccSp | Ip_Etherip | Ip_Encap | Ip_PrivEncryption | Ip_Gmtp
   | Ip_Ifmp | Ip_Pnni | Ip_Pim | Ip_Aris | Ip_Scps | Ip_Qnx | Ip_AN | Ip_IpComp | Ip_Snp
   | Ip_CompaqPeer | Ip_IpxInIp | Ip_Vrrp | Ip_Pgm | Ip_ZeroHop | Ip_L2tp | Ip_Ddx | Ip_Iatp
   | Ip_Stp | Ip_Srp | Ip_Uti | Ip_Smp | Ip_Sm | Ip_Ptp | Ip_IsisOverIpv4 | Ip_Fire | Ip_Crtp
   | Ip_Crudp | Ip_Sscopmce | Ip_Iplt | Ip_Sps | Ip_Pipe | Ip_Sctp | Ip_Fc | Ip_RsvpE2eIgnore
   | Ip_MobilityHeader | Ip_UdpLite | Ip_MplsInIp | Ip_Manet | Ip_Hip | Ip_Shim6 | Ip_Wesp
   | Ip_Rohc | Ip_Test1 | Ip_Test2 | Ip_Unknown u8

definition IpProtocol_of_u8 :: "u8 \<Rightarrow> IpProtocol" where
  "IpProtocol_of_u8 value = (
     if value = 0 then Ip_Hopopt else if value = 1 then Ip_Icmp else
     if value = 2 then Ip_Igmp else if value = 3 then Ip_Ggp else
     if value = 4 then Ip_Ipv4 else if value = 5 then Ip_St else
     if value = 6 then Ip_Tcp else if value = 7 then Ip_Cbt else
     if value = 8 then Ip_Egp else if value = 9 then Ip_Igp else
     if value = 10 then Ip_BbnRccMon else if value = 11 then Ip_NvpII else
     if value = 12 then Ip_Pup else if value = 13 then Ip_Argus else
     if value = 14 then Ip_Emcon else if value = 15 then Ip_Xnet else
     if value = 16 then Ip_Chaos else if value = 17 then Ip_Udp else
     if value = 18 then Ip_Mux else if value = 19 then Ip_DcnMeas else
     if value = 20 then Ip_Hmp else if value = 21 then Ip_Prm else
     if value = 22 then Ip_XnsIdp else if value = 23 then Ip_Trunk1 else
     if value = 24 then Ip_Trunk2 else if value = 25 then Ip_Leaf1 else
     if value = 26 then Ip_Leaf2 else if value = 27 then Ip_Rdp else
     if value = 28 then Ip_Irtp else if value = 29 then Ip_IsoTp4 else
     if value = 30 then Ip_Netblt else if value = 31 then Ip_MfeNsp else
     if value = 32 then Ip_MeritInp else if value = 33 then Ip_Dccp else
     if value = 34 then Ip_ThreePc else if value = 35 then Ip_Idpr else
     if value = 36 then Ip_Xtp else if value = 37 then Ip_Ddp else
     if value = 38 then Ip_IdprCmtp else if value = 39 then Ip_TpPlusPlus else
     if value = 40 then Ip_Il else if value = 41 then Ip_Ipv6 else
     if value = 42 then Ip_Sdrp else if value = 43 then Ip_Ipv6Route else
     if value = 44 then Ip_Ipv6Frag else if value = 45 then Ip_Idrp else
     if value = 46 then Ip_Rsvp else if value = 47 then Ip_Gre else
     if value = 48 then Ip_Dsr else if value = 49 then Ip_Bna else
     if value = 50 then Ip_Esp else if value = 51 then Ip_Ah else
     if value = 52 then Ip_INlsp else if value = 53 then Ip_Swipe else
     if value = 54 then Ip_Narp else if value = 55 then Ip_Mobile else
     if value = 56 then Ip_Tlsp else if value = 57 then Ip_Skip else
     if value = 58 then Ip_Ipv6Icmp else if value = 59 then Ip_Ipv6NoNxt else
     if value = 60 then Ip_Ipv6Opts else if value = 61 then Ip_HostInternal else
     if value = 62 then Ip_Cftp else if value = 63 then Ip_LocalNetwork else
     if value = 64 then Ip_SatExpak else if value = 65 then Ip_Kryptolan else
     if value = 66 then Ip_Rvd else if value = 67 then Ip_Ippc else
     if value = 68 then Ip_DistributedFs else if value = 69 then Ip_SatMon else
     if value = 70 then Ip_Visa else if value = 71 then Ip_Ipcv else
     if value = 72 then Ip_Cpnx else if value = 73 then Ip_Cphb else
     if value = 74 then Ip_Wsn else if value = 75 then Ip_Pvp else
     if value = 76 then Ip_BrSatMon else if value = 77 then Ip_SunNd else
     if value = 78 then Ip_WbMon else if value = 79 then Ip_WbExpak else
     if value = 80 then Ip_IsoIp else if value = 81 then Ip_Vmtp else
     if value = 82 then Ip_SecureVmtp else if value = 83 then Ip_Vines else
     if value = 84 then Ip_TtpOrIptm else if value = 85 then Ip_NsfnetIgp else
     if value = 86 then Ip_Dgp else if value = 87 then Ip_Tcf else
     if value = 88 then Ip_Eigrp else if value = 89 then Ip_OspfigP else
     if value = 90 then Ip_SpriteRpc else if value = 91 then Ip_Larp else
     if value = 92 then Ip_Mtp else if value = 93 then Ip_Ax25 else
     if value = 94 then Ip_IpIp else if value = 95 then Ip_Micp else
     if value = 96 then Ip_SccSp else if value = 97 then Ip_Etherip else
     if value = 98 then Ip_Encap else if value = 99 then Ip_PrivEncryption else
     if value = 100 then Ip_Gmtp else if value = 101 then Ip_Ifmp else
     if value = 102 then Ip_Pnni else if value = 103 then Ip_Pim else
     if value = 104 then Ip_Aris else if value = 105 then Ip_Scps else
     if value = 106 then Ip_Qnx else if value = 107 then Ip_AN else
     if value = 108 then Ip_IpComp else if value = 109 then Ip_Snp else
     if value = 110 then Ip_CompaqPeer else if value = 111 then Ip_IpxInIp else
     if value = 112 then Ip_Vrrp else if value = 113 then Ip_Pgm else
     if value = 114 then Ip_ZeroHop else if value = 115 then Ip_L2tp else
     if value = 116 then Ip_Ddx else if value = 117 then Ip_Iatp else
     if value = 118 then Ip_Stp else if value = 119 then Ip_Srp else
     if value = 120 then Ip_Uti else if value = 121 then Ip_Smp else
     if value = 122 then Ip_Sm else if value = 123 then Ip_Ptp else
     if value = 124 then Ip_IsisOverIpv4 else if value = 125 then Ip_Fire else
     if value = 126 then Ip_Crtp else if value = 127 then Ip_Crudp else
     if value = 128 then Ip_Sscopmce else if value = 129 then Ip_Iplt else
     if value = 130 then Ip_Sps else if value = 131 then Ip_Pipe else
     if value = 132 then Ip_Sctp else if value = 133 then Ip_Fc else
     if value = 134 then Ip_RsvpE2eIgnore else if value = 135 then Ip_MobilityHeader else
     if value = 136 then Ip_UdpLite else if value = 137 then Ip_MplsInIp else
     if value = 138 then Ip_Manet else if value = 139 then Ip_Hip else
     if value = 140 then Ip_Shim6 else if value = 141 then Ip_Wesp else
     if value = 142 then Ip_Rohc else if value = 253 then Ip_Test1 else
     if value = 254 then Ip_Test2 else
     Ip_Unknown value)"

primrec IpProtocol_to_u8 :: "IpProtocol \<Rightarrow> u8" where
  "IpProtocol_to_u8 Ip_Hopopt = 0"
| "IpProtocol_to_u8 Ip_Icmp = 1"
| "IpProtocol_to_u8 Ip_Igmp = 2"
| "IpProtocol_to_u8 Ip_Ggp = 3"
| "IpProtocol_to_u8 Ip_Ipv4 = 4"
| "IpProtocol_to_u8 Ip_St = 5"
| "IpProtocol_to_u8 Ip_Tcp = 6"
| "IpProtocol_to_u8 Ip_Cbt = 7"
| "IpProtocol_to_u8 Ip_Egp = 8"
| "IpProtocol_to_u8 Ip_Igp = 9"
| "IpProtocol_to_u8 Ip_BbnRccMon = 10"
| "IpProtocol_to_u8 Ip_NvpII = 11"
| "IpProtocol_to_u8 Ip_Pup = 12"
| "IpProtocol_to_u8 Ip_Argus = 13"
| "IpProtocol_to_u8 Ip_Emcon = 14"
| "IpProtocol_to_u8 Ip_Xnet = 15"
| "IpProtocol_to_u8 Ip_Chaos = 16"
| "IpProtocol_to_u8 Ip_Udp = 17"
| "IpProtocol_to_u8 Ip_Mux = 18"
| "IpProtocol_to_u8 Ip_DcnMeas = 19"
| "IpProtocol_to_u8 Ip_Hmp = 20"
| "IpProtocol_to_u8 Ip_Prm = 21"
| "IpProtocol_to_u8 Ip_XnsIdp = 22"
| "IpProtocol_to_u8 Ip_Trunk1 = 23"
| "IpProtocol_to_u8 Ip_Trunk2 = 24"
| "IpProtocol_to_u8 Ip_Leaf1 = 25"
| "IpProtocol_to_u8 Ip_Leaf2 = 26"
| "IpProtocol_to_u8 Ip_Rdp = 27"
| "IpProtocol_to_u8 Ip_Irtp = 28"
| "IpProtocol_to_u8 Ip_IsoTp4 = 29"
| "IpProtocol_to_u8 Ip_Netblt = 30"
| "IpProtocol_to_u8 Ip_MfeNsp = 31"
| "IpProtocol_to_u8 Ip_MeritInp = 32"
| "IpProtocol_to_u8 Ip_Dccp = 33"
| "IpProtocol_to_u8 Ip_ThreePc = 34"
| "IpProtocol_to_u8 Ip_Idpr = 35"
| "IpProtocol_to_u8 Ip_Xtp = 36"
| "IpProtocol_to_u8 Ip_Ddp = 37"
| "IpProtocol_to_u8 Ip_IdprCmtp = 38"
| "IpProtocol_to_u8 Ip_TpPlusPlus = 39"
| "IpProtocol_to_u8 Ip_Il = 40"
| "IpProtocol_to_u8 Ip_Ipv6 = 41"
| "IpProtocol_to_u8 Ip_Sdrp = 42"
| "IpProtocol_to_u8 Ip_Ipv6Route = 43"
| "IpProtocol_to_u8 Ip_Ipv6Frag = 44"
| "IpProtocol_to_u8 Ip_Idrp = 45"
| "IpProtocol_to_u8 Ip_Rsvp = 46"
| "IpProtocol_to_u8 Ip_Gre = 47"
| "IpProtocol_to_u8 Ip_Dsr = 48"
| "IpProtocol_to_u8 Ip_Bna = 49"
| "IpProtocol_to_u8 Ip_Esp = 50"
| "IpProtocol_to_u8 Ip_Ah = 51"
| "IpProtocol_to_u8 Ip_INlsp = 52"
| "IpProtocol_to_u8 Ip_Swipe = 53"
| "IpProtocol_to_u8 Ip_Narp = 54"
| "IpProtocol_to_u8 Ip_Mobile = 55"
| "IpProtocol_to_u8 Ip_Tlsp = 56"
| "IpProtocol_to_u8 Ip_Skip = 57"
| "IpProtocol_to_u8 Ip_Ipv6Icmp = 58"
| "IpProtocol_to_u8 Ip_Ipv6NoNxt = 59"
| "IpProtocol_to_u8 Ip_Ipv6Opts = 60"
| "IpProtocol_to_u8 Ip_HostInternal = 61"
| "IpProtocol_to_u8 Ip_Cftp = 62"
| "IpProtocol_to_u8 Ip_LocalNetwork = 63"
| "IpProtocol_to_u8 Ip_SatExpak = 64"
| "IpProtocol_to_u8 Ip_Kryptolan = 65"
| "IpProtocol_to_u8 Ip_Rvd = 66"
| "IpProtocol_to_u8 Ip_Ippc = 67"
| "IpProtocol_to_u8 Ip_DistributedFs = 68"
| "IpProtocol_to_u8 Ip_SatMon = 69"
| "IpProtocol_to_u8 Ip_Visa = 70"
| "IpProtocol_to_u8 Ip_Ipcv = 71"
| "IpProtocol_to_u8 Ip_Cpnx = 72"
| "IpProtocol_to_u8 Ip_Cphb = 73"
| "IpProtocol_to_u8 Ip_Wsn = 74"
| "IpProtocol_to_u8 Ip_Pvp = 75"
| "IpProtocol_to_u8 Ip_BrSatMon = 76"
| "IpProtocol_to_u8 Ip_SunNd = 77"
| "IpProtocol_to_u8 Ip_WbMon = 78"
| "IpProtocol_to_u8 Ip_WbExpak = 79"
| "IpProtocol_to_u8 Ip_IsoIp = 80"
| "IpProtocol_to_u8 Ip_Vmtp = 81"
| "IpProtocol_to_u8 Ip_SecureVmtp = 82"
| "IpProtocol_to_u8 Ip_Vines = 83"
| "IpProtocol_to_u8 Ip_TtpOrIptm = 84"
| "IpProtocol_to_u8 Ip_NsfnetIgp = 85"
| "IpProtocol_to_u8 Ip_Dgp = 86"
| "IpProtocol_to_u8 Ip_Tcf = 87"
| "IpProtocol_to_u8 Ip_Eigrp = 88"
| "IpProtocol_to_u8 Ip_OspfigP = 89"
| "IpProtocol_to_u8 Ip_SpriteRpc = 90"
| "IpProtocol_to_u8 Ip_Larp = 91"
| "IpProtocol_to_u8 Ip_Mtp = 92"
| "IpProtocol_to_u8 Ip_Ax25 = 93"
| "IpProtocol_to_u8 Ip_IpIp = 94"
| "IpProtocol_to_u8 Ip_Micp = 95"
| "IpProtocol_to_u8 Ip_SccSp = 96"
| "IpProtocol_to_u8 Ip_Etherip = 97"
| "IpProtocol_to_u8 Ip_Encap = 98"
| "IpProtocol_to_u8 Ip_PrivEncryption = 99"
| "IpProtocol_to_u8 Ip_Gmtp = 100"
| "IpProtocol_to_u8 Ip_Ifmp = 101"
| "IpProtocol_to_u8 Ip_Pnni = 102"
| "IpProtocol_to_u8 Ip_Pim = 103"
| "IpProtocol_to_u8 Ip_Aris = 104"
| "IpProtocol_to_u8 Ip_Scps = 105"
| "IpProtocol_to_u8 Ip_Qnx = 106"
| "IpProtocol_to_u8 Ip_AN = 107"
| "IpProtocol_to_u8 Ip_IpComp = 108"
| "IpProtocol_to_u8 Ip_Snp = 109"
| "IpProtocol_to_u8 Ip_CompaqPeer = 110"
| "IpProtocol_to_u8 Ip_IpxInIp = 111"
| "IpProtocol_to_u8 Ip_Vrrp = 112"
| "IpProtocol_to_u8 Ip_Pgm = 113"
| "IpProtocol_to_u8 Ip_ZeroHop = 114"
| "IpProtocol_to_u8 Ip_L2tp = 115"
| "IpProtocol_to_u8 Ip_Ddx = 116"
| "IpProtocol_to_u8 Ip_Iatp = 117"
| "IpProtocol_to_u8 Ip_Stp = 118"
| "IpProtocol_to_u8 Ip_Srp = 119"
| "IpProtocol_to_u8 Ip_Uti = 120"
| "IpProtocol_to_u8 Ip_Smp = 121"
| "IpProtocol_to_u8 Ip_Sm = 122"
| "IpProtocol_to_u8 Ip_Ptp = 123"
| "IpProtocol_to_u8 Ip_IsisOverIpv4 = 124"
| "IpProtocol_to_u8 Ip_Fire = 125"
| "IpProtocol_to_u8 Ip_Crtp = 126"
| "IpProtocol_to_u8 Ip_Crudp = 127"
| "IpProtocol_to_u8 Ip_Sscopmce = 128"
| "IpProtocol_to_u8 Ip_Iplt = 129"
| "IpProtocol_to_u8 Ip_Sps = 130"
| "IpProtocol_to_u8 Ip_Pipe = 131"
| "IpProtocol_to_u8 Ip_Sctp = 132"
| "IpProtocol_to_u8 Ip_Fc = 133"
| "IpProtocol_to_u8 Ip_RsvpE2eIgnore = 134"
| "IpProtocol_to_u8 Ip_MobilityHeader = 135"
| "IpProtocol_to_u8 Ip_UdpLite = 136"
| "IpProtocol_to_u8 Ip_MplsInIp = 137"
| "IpProtocol_to_u8 Ip_Manet = 138"
| "IpProtocol_to_u8 Ip_Hip = 139"
| "IpProtocol_to_u8 Ip_Shim6 = 140"
| "IpProtocol_to_u8 Ip_Wesp = 141"
| "IpProtocol_to_u8 Ip_Rohc = 142"
| "IpProtocol_to_u8 Ip_Test1 = 253"
| "IpProtocol_to_u8 Ip_Test2 = 254"
| "IpProtocol_to_u8 (Ip_Unknown v) = v"

interpretation IpProtocol_code: wire_code IpProtocol_of_u8 IpProtocol_to_u8
  by unfold_locales
    (unfold IpProtocol_of_u8_def, (intro wire_code_step[of IpProtocol_to_u8]), (rule IpProtocol_to_u8.simps)+)

end
