(* ===== verification/Ip_Packet.thy ===== *)
theory Ip_Packet
  imports Checksum Ip_Protocol
begin

text \<open>
  The IPv4 view of the packet crate, \<^verbatim>\<open>packet/src/ip/ipv4/packet.rs\<close> and
  \<^verbatim>\<open>packet/src/ip/mod.rs\<close>. A view is the buffer it wraps; reads and writes out of
  range panic, as in the source, so \<open>new\<close> is what makes the accessors safe. It checks the
  announced header length against the buffer but not against the minimum of 5 words.
\<close>

section \<open>Reading\<close>

definition IpV4Packet_header_len :: "u8 list \<Rightarrow> u8 res" where
  "IpV4Packet_header_len buffer = bindE (rd buffer 0) (\<lambda>b. Inr (b AND 0x0F))"

definition IpV4Packet_new :: "u8 list \<Rightarrow> u8 list res" where
  "IpV4Packet_new buffer =
     (if length buffer < 20 then Inl (Io InvalidData ''len < 20'')
      else bindE (rd buffer 0) (\<lambda>b0.
        if drop_bit 4 b0 \<noteq> 4 then Inl (Io InvalidData ''not ipv4'')
        else bindE (IpV4Packet_header_len buffer) (\<lambda>h.
          if length buffer < unat h * 4 then Inl (Io InvalidData ''head_len err'')
          else Inr buffer)))"

definition IpV4Packet_header :: "u8 list \<Rightarrow> u8 list res" where
  "IpV4Packet_header buffer =
     bindE (IpV4Packet_header_len buffer) (\<lambda>h. slice buffer 0 (unat h * 4))"

definition IpV4Packet_payload :: "u8 list \<Rightarrow> u8 list res" where
  "IpV4Packet_payload buffer =
     bindE (IpV4Packet_header_len buffer) (\<lambda>h. slice buffer (unat h * 4) (length buffer))"

definition IpV4Packet_version :: "u8 list \<Rightarrow> u8 res" where
  "IpV4Packet_version buffer = bindE (rd buffer 0) (\<lambda>b. Inr (drop_bit 4 b))"

definition IpV4Packet_dscp :: "u8 list \<Rightarrow> u8 res" where
  "IpV4Packet_dscp buffer = bindE (rd buffer 1) (\<lambda>b. Inr (drop_bit 2 b))"

definition IpV4Packet_ecn :: "u8 list \<Rightarrow> u8 res" where
  "IpV4Packet_ecn buffer = bindE (rd buffer 1) (\<lambda>b. Inr (b AND 3))"

definition IpV4Packet_length :: "u8 list \<Rightarrow> u16 res" where
  "IpV4Packet_length buffer = rd16 buffer 2"

definition IpV4Packet_id :: "u8 list \<Rightarrow> u16 res" where
  "IpV4Packet_id buffer = rd16 buffer 4"

definition IpV4Packet_flags :: "u8 list \<Rightarrow> u8 res" where
  "IpV4Packet_flags buffer = bindE (rd buffer 6) (\<lambda>b. Inr (drop_bit 5 b))"

definition IpV4Packet_offset :: "u8 list \<Rightarrow> u16 res" where
  "IpV4Packet_offset buffer = bindE (rd16 buffer 6) (\<lambda>w. Inr (w AND 0x1FFF))"

definition IpV4Packet_ttl :: "u8 list \<Rightarrow> u8 res" where
  "IpV4Packet_ttl buffer = rd buffer 8"

definition IpV4Packet_protocol :: "u8 list \<Rightarrow> IpProtocol res" where
  "IpV4Packet_protocol buffer = bindE (rd buffer 9) (\<lambda>b. Inr (IpProtocol_of_u8 b))"

definition IpV4Packet_checksum :: "u8 list \<Rightarrow> u16 res" where
  "IpV4Packet_checksum buffer = rd16 buffer 10"

definition IpV4Packet_is_valid :: "bool \<Rightarrow> u8 list \<Rightarrow> bool res" where
  "IpV4Packet_is_valid keeps_tail buffer =
     bindE (IpV4Packet_checksum buffer) (\<lambda>c.
       if c = 0 then Inr True
       else bindE (IpV4Packet_header buffer) (\<lambda>h.
         bindE (cal_checksum keeps_tail h) (\<lambda>s. Inr (s = 0))))"

definition rd_addr :: "u8 list \<Rightarrow> nat \<Rightarrow> ipv4 res" where
  "rd_addr buffer i = bindE (rd buffer i) (\<lambda>a. bindE (rd buffer (i + 1)) (\<lambda>b.
     bindE (rd buffer (i + 2)) (\<lambda>c. bindE (rd buffer (i + 3)) (\<lambda>d. Inr (Ipv4Addr_new a b c d)))))"

definition IpV4Packet_source_ip :: "u8 list \<Rightarrow> ipv4 res" where
  "IpV4Packet_source_ip buffer = rd_addr buffer 12"

definition IpV4Packet_destination_ip :: "u8 list \<Rightarrow> ipv4 res" where
  "IpV4Packet_destination_ip buffer = rd_addr buffer 16"

definition IpV4Packet_options :: "u8 list \<Rightarrow> u8 list res" where
  "IpV4Packet_options buffer =
     bindE (IpV4Packet_header_len buffer) (\<lambda>h. slice buffer 20 (unat h * 4))"

section \<open>Writing\<close>

text \<open>A write through \<open>header_mut()\<close> is bounded by the announced header, not by the buffer.\<close>

definition IpV4Packet_header_mut :: "u8 list \<Rightarrow> (u8 list \<Rightarrow> u8 list res) \<Rightarrow> u8 list res" where
  "IpV4Packet_header_mut buffer f =
     bindE (IpV4Packet_header_len buffer) (\<lambda>h.
       bindE (slice buffer 0 (unat h * 4)) (\<lambda>head.
         bindE (f head) (\<lambda>head'. Inr (splice 0 head' buffer))))"

definition IpV4Packet_payload_mut :: "u8 list \<Rightarrow> (u8 list \<Rightarrow> u8 list res) \<Rightarrow> u8 list res" where
  "IpV4Packet_payload_mut buffer f =
     bindE (IpV4Packet_header_len buffer) (\<lambda>h.
       bindE (slice buffer (unat h * 4) (length buffer)) (\<lambda>pl.
         bindE (f pl) (\<lambda>pl'. Inr (splice (unat h * 4) pl' buffer))))"

definition IpV4Packet_set_protocol :: "u8 list \<Rightarrow> IpProtocol \<Rightarrow> u8 list res" where
  "IpV4Packet_set_protocol buffer v = IpV4Packet_header_mut buffer (\<lambda>h. wr h 9 (IpProtocol_to_u8 v))"

definition IpV4Packet_set_source_ip :: "u8 list \<Rightarrow> ipv4 \<Rightarrow> u8 list res" where
  "IpV4Packet_set_source_ip buffer v =
     IpV4Packet_header_mut buffer (\<lambda>h. copy_range h 12 16 (octets v))"

definition IpV4Packet_set_destination_ip :: "u8 list \<Rightarrow> ipv4 \<Rightarrow> u8 list res" where
  "IpV4Packet_set_destination_ip buffer v =
     IpV4Packet_header_mut buffer (\<lambda>h. copy_range h 16 20 (octets v))"

definition IpV4Packet_set_flags :: "u8 list \<Rightarrow> u8 \<Rightarrow> u8 list res" where
  "IpV4Packet_set_flags buffer flags =
     bindE (rd buffer 6) (\<lambda>b. wr buffer 6 ((b AND 0xE0) OR push_bit 5 flags))"

definition IpV4Packet_set_ttl :: "u8 list \<Rightarrow> u8 \<Rightarrow> u8 list res" where
  "IpV4Packet_set_ttl buffer ttl = wr buffer 8 ttl"

definition IpV4Packet_set_checksum :: "u8 list \<Rightarrow> u16 \<Rightarrow> u8 list res" where
  "IpV4Packet_set_checksum buffer v = IpV4Packet_header_mut buffer (\<lambda>h. wr16 h 10 v)"

definition IpV4Packet_update_checksum :: "bool \<Rightarrow> u8 list \<Rightarrow> u8 list res" where
  "IpV4Packet_update_checksum keeps_tail buffer =
     bindE (IpV4Packet_set_checksum buffer 0) (\<lambda>b.
       bindE (IpV4Packet_header b) (\<lambda>h.
         bindE (cal_checksum keeps_tail h) (\<lambda>c. IpV4Packet_set_checksum b c)))"

definition IpPacket_new :: "u8 list \<Rightarrow> u8 list res" where
  "IpPacket_new buffer =
     bindE (rd buffer 0) (\<lambda>b.
       if drop_bit 4 b = 4 then IpV4Packet_new buffer else Inl (Io InvalidData ''''))"

section \<open>Well-formed packets\<close>

definition ip4_hlen :: "u8 list \<Rightarrow> nat" where
  "ip4_hlen b = unat (b ! 0 AND 0x0F) * 4"

definition ip4_ok :: "u8 list \<Rightarrow> bool" where
  "ip4_ok b \<longleftrightarrow> 20 \<le> length b \<and> ip4_hlen b \<le> length b"

lemma ip4_hlen_le: "ip4_hlen b \<le> 60" "4 dvd ip4_hlen b"
proof -
  have "b ! 0 AND 0x0F \<le> 0x0F" by (rule word_and_le1)
  then show "ip4_hlen b \<le> 60" by (simp add: ip4_hlen_def word_le_nat_alt)
qed (simp add: ip4_hlen_def)

lemma IpV4Packet_new_Inr_iff:
  "IpV4Packet_new b = Inr p \<longleftrightarrow> p = b \<and> ip4_ok b \<and> drop_bit 4 (b ! 0) = 4"
  by (cases "length b < 20")
    (auto simp: IpV4Packet_new_def ip4_ok_def IpV4Packet_header_len_def rd_def ip4_hlen_def)

lemma ip4_header_len: "ip4_ok b \<Longrightarrow> IpV4Packet_header_len b = Inr (b ! 0 AND 0x0F)"
  by (auto simp: IpV4Packet_header_len_def ip4_ok_def rd_def)

lemma ip4_header: "ip4_ok b \<Longrightarrow> IpV4Packet_header b = Inr (take (ip4_hlen b) b)"
  by (simp add: IpV4Packet_header_def ip4_header_len slice_def ip4_ok_def ip4_hlen_def)

lemma ip4_payload: "ip4_ok b \<Longrightarrow> IpV4Packet_payload b = Inr (drop (ip4_hlen b) b)"
  by (simp add: IpV4Packet_payload_def ip4_header_len slice_def ip4_ok_def ip4_hlen_def)

lemma splice_take:
  "off + length src \<le> n \<Longrightarrow> n \<le> length b \<Longrightarrow> splice 0 (splice off src (take n b)) b = splice off src b"
  by (rule nth_equalityI) (auto simp: splice_def nth_append)

text \<open>Writing inside the header is a write into the buffer, and panics past the announced header.\<close>

lemma ip4_header_mut_copy:
  assumes "ip4_ok b"
  shows "IpV4Packet_header_mut b (\<lambda>h. copy_range h i (i + length src) src) =
    (if i + length src \<le> ip4_hlen b then Inr (splice i src b) else Inl Panic)"
  using assms ip4_hlen_def[of b]
  by (auto simp: IpV4Packet_header_mut_def ip4_header_len slice_def ip4_ok_def copy_range_def splice_take)

lemma ip4_set_checksum:
  "ip4_ok b \<Longrightarrow> IpV4Packet_set_checksum b v =
     (if 12 \<le> ip4_hlen b then Inr (splice 10 (be16_bytes v) b) else Inl Panic)"
  using ip4_header_mut_copy[of b 10 "be16_bytes v"] by (simp add: IpV4Packet_set_checksum_def wr16_def)

lemma ip4_set_ips:
  assumes "ip4_ok b"
  shows "IpV4Packet_set_source_ip b v =
           (if 16 \<le> ip4_hlen b then Inr (splice 12 (octets v) b) else Inl Panic)"
    and "IpV4Packet_set_destination_ip b v =
           (if 20 \<le> ip4_hlen b then Inr (splice 16 (octets v) b) else Inl Panic)"
  using ip4_header_mut_copy[OF assms, of 12 "octets v"] ip4_header_mut_copy[OF assms, of 16 "octets v"]
  by (simp_all add: IpV4Packet_set_source_ip_def IpV4Packet_set_destination_ip_def)

lemma ip4_ok_splice:
  assumes "0 < i" "i + length src \<le> length b"
  shows "ip4_hlen (splice i src b) = ip4_hlen b" "ip4_ok (splice i src b) = ip4_ok b"
  using assms by (simp_all add: ip4_hlen_def ip4_ok_def)

lemma take_splice_inside:
  "off + length src \<le> n \<Longrightarrow> n \<le> length b \<Longrightarrow> take n (splice off src b) = splice off src (take n b)"
  by (rule nth_equalityI) (auto simp: splice_def nth_append)

lemma ip4_update_checksum:
  assumes ok: "ip4_ok b" and h: "12 \<le> ip4_hlen b"
  obtains c where "IpV4Packet_update_checksum k b = Inr (splice 10 (be16_bytes c) b)"
    and "cal_checksum k (take (ip4_hlen b) (splice 10 (be16_bytes c) b)) = Inr 0"
proof -
  let ?hd = "take (ip4_hlen b) b"
  have l: "length ?hd = ip4_hlen b" "ip4_hlen b \<le> length b" using ok by (auto simp: ip4_ok_def)
  have zero: "be16_bytes 0 = [0, 0]" by (simp add: be16_bytes_def)
  obtain c where c: "cal_checksum k (splice 10 [0, 0] ?hd) = Inr c"
    "cal_checksum k (splice 10 (be16_bytes c) ?hd) = Inr 0"
    using plain_sum.seal[of 10 ?hd k] ip4_hlen_le[of b] h l by (auto simp: dvd_def)
  have b0: "ip4_ok (splice 10 [0, 0] b)" "ip4_hlen (splice 10 [0, 0] b) = ip4_hlen b"
    using ok h l by (simp_all add: ip4_ok_splice)
  have tk: "take (ip4_hlen b) (splice 10 [x, y] b) = splice 10 [x, y] ?hd" for x y
    using h l by (intro take_splice_inside) simp_all
  obtain x y where xy: "be16_bytes c = [x, y]" by (simp add: be16_bytes_def)
  have twice: "splice 10 [x, y] (splice 10 [0, 0] b) = splice 10 [x, y] b"
    using h l by (simp add: splice_def min_def)
  have "IpV4Packet_update_checksum k b = Inr (splice 10 (be16_bytes c) b)"
    using h by (simp add: IpV4Packet_update_checksum_def ip4_set_checksum ok zero b0 ip4_header tk c xy twice)
  moreover have "cal_checksum k (take (ip4_hlen b) (splice 10 (be16_bytes c) b)) = Inr 0"
    using c(2) by (simp add: xy tk)
  ultimately show ?thesis by (rule that)
qed

section \<open>Properties\<close>

text \<open>
  \<open>update_checksum\<close> on a packet that \<open>new\<close> accepted, with a header of at least three words,
  succeeds, whatever the reader does with an odd tail: the packet then verifies
  (\<open>is_valid\<close>), and its addresses and its payload are what they were.
\<close>

theorem ip4_checksum_verifies:
  assumes "IpV4Packet_new b = Inr p" and "12 \<le> ip4_hlen p"
  shows "\<exists>q. IpV4Packet_update_checksum k p = Inr q \<and> IpV4Packet_is_valid k q = Inr True \<and>
     IpV4Packet_source_ip q = IpV4Packet_source_ip p \<and>
     IpV4Packet_destination_ip q = IpV4Packet_destination_ip p \<and>
     IpV4Packet_payload q = IpV4Packet_payload p"
proof -
  have ok: "ip4_ok p" using assms(1) by (auto simp: IpV4Packet_new_Inr_iff)
  obtain c where c: "IpV4Packet_update_checksum k p = Inr (splice 10 (be16_bytes c) p)"
    "cal_checksum k (take (ip4_hlen p) (splice 10 (be16_bytes c) p)) = Inr 0"
    using ip4_update_checksum[OF ok assms(2)] .
  let ?q = "splice 10 (be16_bytes c) p"
  have q: "ip4_ok ?q" "ip4_hlen ?q = ip4_hlen p" "length ?q = length p" "20 \<le> length p"
    using ok by (simp_all add: ip4_ok_splice ip4_ok_def)
  have v: "IpV4Packet_is_valid k ?q = Inr True"
    using c(2) q by (simp add: IpV4Packet_is_valid_def IpV4Packet_checksum_def rd16_splice ip4_header)
  have pl: "IpV4Packet_payload ?q = IpV4Packet_payload p"
    using assms(2) q ok by (simp add: ip4_payload drop_splice_above)
  have ips: "rd_addr ?q 12 = rd_addr p 12" "rd_addr ?q 16 = rd_addr p 16"
    using q by (simp_all add: rd_addr_def rd_in nth_splice_above)
  from c(1) v pl ips show ?thesis
    by (simp add: IpV4Packet_source_ip_def IpV4Packet_destination_ip_def)
qed

definition ip4_sample :: "u8 list" where
  "ip4_sample = [0x45, 0, 0, 28, 0x1c, 0x46, 0x40, 0, 0x40, 17, 0, 0, 10, 26, 0, 2, 10, 26, 0, 3,
                 0, 53, 0, 53, 0, 8, 0, 0]"

lemma ip4_checksum_verifies_witness:
  "\<exists>q. IpV4Packet_update_checksum False ip4_sample = Inr q \<and> IpV4Packet_is_valid False q = Inr True"
proof -
  have "IpV4Packet_new ip4_sample = Inr ip4_sample" "12 \<le> ip4_hlen ip4_sample"
    by (simp_all add: IpV4Packet_new_Inr_iff ip4_ok_def ip4_hlen_def ip4_sample_def)
  from ip4_checksum_verifies[OF this, of False] show ?thesis by blast
qed

text \<open>
  What the missing lower bound on the header length costs: on a packet that \<open>new\<close> accepted,
  \<open>update_checksum\<close> panics exactly when the announced header is shorter than three words,
  \<open>set_source_ip\<close> when it is shorter than four, and \<open>set_destination_ip\<close> and
  \<open>options\<close> when it is shorter than five.
\<close>

theorem ip4_short_header_panics:
  assumes "IpV4Packet_new b = Inr p"
  shows "(IpV4Packet_update_checksum k p = Inl Panic \<longleftrightarrow> ip4_hlen p < 12) \<and>
    (IpV4Packet_set_source_ip p v = Inl Panic \<longleftrightarrow> ip4_hlen p < 16) \<and>
    (IpV4Packet_set_destination_ip p v = Inl Panic \<longleftrightarrow> ip4_hlen p < 20) \<and>
    (IpV4Packet_options p = Inl Panic \<longleftrightarrow> ip4_hlen p < 20)"
proof -
  have ok: "ip4_ok p" using assms by (auto simp: IpV4Packet_new_Inr_iff)
  have "IpV4Packet_update_checksum k p = Inl Panic \<longleftrightarrow> ip4_hlen p < 12"
  proof (cases "12 \<le> ip4_hlen p")
    case True
    with ip4_update_checksum[OF ok True, of k] show ?thesis by fastforce
  next
    case False
    with ok show ?thesis by (simp add: IpV4Packet_update_checksum_def ip4_set_checksum)
  qed
  moreover have "IpV4Packet_options p = Inl Panic \<longleftrightarrow> ip4_hlen p < 20"
    using ok by (auto simp: IpV4Packet_options_def ip4_header_len slice_def ip4_ok_def ip4_hlen_def)
  ultimately show ?thesis using ok by (simp add: ip4_set_ips)
qed

lemma ip4_short_header_panics_witness:
  "IpV4Packet_new (0x41 # replicate 19 0) = Inr (0x41 # replicate 19 0) \<and>
   IpV4Packet_update_checksum True (0x41 # replicate 19 0) = Inl Panic"
proof -
  let ?b = "0x41 # replicate 19 (0::u8)"
  have "IpV4Packet_new ?b = Inr ?b" by (simp add: IpV4Packet_new_Inr_iff ip4_ok_def ip4_hlen_def)
  moreover have "ip4_hlen ?b < 12" by (simp add: ip4_hlen_def)
  ultimately show ?thesis using ip4_short_header_panics[of ?b ?b True] by blast
qed

text \<open>
  \<open>set_flags\<close> does not set the flags: they become the union of the old flags and the new
  ones, and the five high bits of the fragment offset are cleared instead (the mask keeps the
  three flag bits and drops the others).
\<close>

theorem ip4_set_flags_keeps_old_flags:
  assumes "IpV4Packet_new b = Inr p" and "flags < 8"
  shows "\<exists>q old off. IpV4Packet_set_flags p flags = Inr q \<and>
     IpV4Packet_flags p = Inr old \<and> IpV4Packet_flags q = Inr (old OR flags) \<and>
     IpV4Packet_offset p = Inr off \<and> IpV4Packet_offset q = Inr (off AND 0xFF)"
proof -
  have l: "20 \<le> length p" using assms(1) by (auto simp: IpV4Packet_new_Inr_iff ip4_ok_def)
  have f: "flags = flags AND 7"
    using assms(2) less_mask_eq[of flags 3] by (simp add: mask_eq_exp_minus_1)
  have "drop_bit 5 ((p ! 6 AND 0xE0) OR push_bit 5 flags) = drop_bit 5 (p ! 6) OR flags"
    by (subst (2) f) (simp add: u8_eq_bits bit_simps)
  moreover have "be16 ((p ! 6 AND 0xE0) OR push_bit 5 flags) (p ! 7) AND 0x1FFF
      = (be16 (p ! 6) (p ! 7) AND 0x1FFF) AND 0xFF"
  proof -
    have m: "(0x1FFF :: u16) = mask 13" "(0xFF :: u16) = mask 8" "(0xE0 :: u8) = push_bit 5 (mask 3)"
      by (simp_all add: mask_eq_exp_minus_1)
    show ?thesis unfolding m by (rule bit_word_eqI) (auto simp: be16_def bit_simps dest: bit_imp_le_length)
  qed
  ultimately have
    "IpV4Packet_set_flags p flags = Inr (p[6 := (p ! 6 AND 0xE0) OR push_bit 5 flags])"
    "IpV4Packet_flags (p[6 := (p ! 6 AND 0xE0) OR push_bit 5 flags]) = Inr (drop_bit 5 (p ! 6) OR flags)"
    "IpV4Packet_offset (p[6 := (p ! 6 AND 0xE0) OR push_bit 5 flags])
       = Inr ((be16 (p ! 6) (p ! 7) AND 0x1FFF) AND 0xFF)"
    "IpV4Packet_flags p = Inr (drop_bit 5 (p ! 6))"
    "IpV4Packet_offset p = Inr (be16 (p ! 6) (p ! 7) AND 0x1FFF)"
    using l by (simp_all only: IpV4Packet_set_flags_def IpV4Packet_flags_def IpV4Packet_offset_def)
      (simp_all add: rd_in wr_in rd16_in)
  then show ?thesis by blast
qed

lemma ip4_set_flags_keeps_old_flags_witness:
  "\<exists>q. IpV4Packet_set_flags ip4_sample 1 = Inr q \<and> IpV4Packet_flags q = Inr 3"
proof -
  have "IpV4Packet_new ip4_sample = Inr ip4_sample" "(1::u8) < 8"
    by (simp_all add: IpV4Packet_new_Inr_iff ip4_ok_def ip4_hlen_def ip4_sample_def)
  moreover have "IpV4Packet_flags ip4_sample = Inr 2"
    by (simp add: IpV4Packet_flags_def ip4_sample_def rd_def)
  ultimately show ?thesis using ip4_set_flags_keeps_old_flags[of ip4_sample ip4_sample 1] by auto
qed

end
