(* ===== verification/Transport_Packet.thy ===== *)
theory Transport_Packet
  imports Ip_Packet
begin

text \<open>
  UDP and TCP views, \<^verbatim>\<open>packet/src/udp/udp.rs\<close>, \<^verbatim>\<open>packet/src/tcp/tcp.rs\<close> and
  \<^verbatim>\<open>packet/src/tcp/mod.rs\<close>: the buffer with the two addresses of the pseudo header.
  The first part is an interface shared by every view with a checksum field.
\<close>

section \<open>Interface: a checksum field in a view\<close>

text \<open>
  A view carries a buffer (\<open>buf\<close>, \<open>with_buf\<close>), a checksum field at the even offset \<open>at\<close>, and a
  checksum routine over the buffer which keeps the contract \<open>ones_complement\<close>. Setting the
  field to 0, computing, and storing the result leaves a view that verifies.
\<close>

locale sealed_view = ones_complement k cal start
  for k :: bool and cal :: "u8 list \<Rightarrow> u16 res" and start :: "nat \<Rightarrow> u32" +
  fixes at :: nat
  assumes at_even: "even at"
begin

definition update :: "u8 list \<Rightarrow> u8 list res" where
  "update b = bindE (wr16 b at 0) (\<lambda>b0. bindE (cal b0) (\<lambda>c. wr16 b0 at c))"

definition verifies :: "u8 list \<Rightarrow> bool res" where
  "verifies b = bindE (rd16 b at) (\<lambda>c. if c = 0 then Inr True else bindE (cal b) (\<lambda>s. Inr (s = 0)))"

lemma update_verifies:
  assumes "at + 2 \<le> length b" "length b \<le> 65535" "even (length b) \<or> k"
  shows "\<exists>c. update b = Inr (splice at (be16_bytes c) b) \<and>
    verifies (splice at (be16_bytes c) b) = Inr True"
proof -
  obtain c where c: "cal (splice at [0, 0] b) = Inr c" "cal (splice at (be16_bytes c) b) = Inr 0"
    using seal[OF at_even assms(1,3,2)] by blast
  have z: "be16_bytes 0 = [0, 0]" by (simp add: be16_bytes_def)
  obtain x y where xy: "be16_bytes c = [x, y]" by (simp add: be16_bytes_def)
  have "splice at (be16_bytes c) (splice at [0, 0] b) = splice at (be16_bytes c) b"
    using assms(1) by (simp add: splice_def xy)
  moreover have "length (splice at [0, 0] b) = length b" using assms(1) by simp
  ultimately have "update b = Inr (splice at (be16_bytes c) b)"
    using assms(1) by (simp add: update_def wr16_in z c(1))
  moreover have "verifies (splice at (be16_bytes c) b) = Inr True"
    using assms(1) c(2) by (simp add: verifies_def rd16_splice)
  ultimately show ?thesis by blast
qed

lemma update_panic_iff:
  "at + 2 \<le> length b \<Longrightarrow> length b \<le> 65535 \<Longrightarrow>
     update b = Inl e \<longleftrightarrow> e = Panic \<and> odd (length b) \<and> \<not> k"
proof (cases "even (length b) \<or> k")
  case True
  assume "at + 2 \<le> length b" "length b \<le> 65535"
  from update_verifies[OF this True] True show ?thesis by auto
next
  case False
  assume l: "at + 2 \<le> length b"
  then have "cal (splice at (be16_bytes 0) b) = Inl Panic" using panic_iff False by simp
  then show ?thesis using l False by (auto simp: update_def wr16_in)
qed

end

section \<open>UDP\<close>

record udp_packet =
  udp_source_ip :: ipv4
  udp_destination_ip :: ipv4
  udp_buffer :: "u8 list"

definition UdpPacket_unchecked :: "ipv4 \<Rightarrow> ipv4 \<Rightarrow> u8 list \<Rightarrow> udp_packet" where
  "UdpPacket_unchecked src dst buffer =
     \<lparr>udp_source_ip = src, udp_destination_ip = dst, udp_buffer = buffer\<rparr>"

definition UdpPacket_new :: "ipv4 \<Rightarrow> ipv4 \<Rightarrow> u8 list \<Rightarrow> udp_packet res" where
  "UdpPacket_new src dst buffer =
     (if length buffer < 8 then Inl (Io InvalidData '''')
      else Inr (UdpPacket_unchecked src dst buffer))"

definition UdpPacket_source_port :: "udp_packet \<Rightarrow> u16 res" where
  "UdpPacket_source_port p = rd16 (udp_buffer p) 0"

definition UdpPacket_destination_port :: "udp_packet \<Rightarrow> u16 res" where
  "UdpPacket_destination_port p = rd16 (udp_buffer p) 2"

definition UdpPacket_length :: "udp_packet \<Rightarrow> u16 res" where
  "UdpPacket_length p = rd16 (udp_buffer p) 4"

definition UdpPacket_checksum :: "udp_packet \<Rightarrow> u16 res" where
  "UdpPacket_checksum p = rd16 (udp_buffer p) 6"

definition UdpPacket_cal_checksum :: "bool \<Rightarrow> udp_packet \<Rightarrow> u16 res" where
  "UdpPacket_cal_checksum keeps_tail p =
     ipv4_cal_checksum keeps_tail (udp_buffer p) (udp_source_ip p) (udp_destination_ip p) 17"

definition UdpPacket_is_valid :: "bool \<Rightarrow> udp_packet \<Rightarrow> bool res" where
  "UdpPacket_is_valid keeps_tail p =
     bindE (UdpPacket_checksum p) (\<lambda>c.
       if c = 0 then Inr True else bindE (UdpPacket_cal_checksum keeps_tail p) (\<lambda>s. Inr (s = 0)))"

definition UdpPacket_payload :: "udp_packet \<Rightarrow> u8 list res" where
  "UdpPacket_payload p = slice (udp_buffer p) 8 (length (udp_buffer p))"

definition UdpPacket_set_source_port :: "udp_packet \<Rightarrow> u16 \<Rightarrow> udp_packet res" where
  "UdpPacket_set_source_port p v = mapE (\<lambda>b. p\<lparr>udp_buffer := b\<rparr>) (wr16 (udp_buffer p) 0 v)"

definition UdpPacket_set_destination_port :: "udp_packet \<Rightarrow> u16 \<Rightarrow> udp_packet res" where
  "UdpPacket_set_destination_port p v = mapE (\<lambda>b. p\<lparr>udp_buffer := b\<rparr>) (wr16 (udp_buffer p) 2 v)"

definition UdpPacket_set_checksum :: "udp_packet \<Rightarrow> u16 \<Rightarrow> udp_packet res" where
  "UdpPacket_set_checksum p v = mapE (\<lambda>b. p\<lparr>udp_buffer := b\<rparr>) (wr16 (udp_buffer p) 6 v)"

definition UdpPacket_update_checksum :: "bool \<Rightarrow> udp_packet \<Rightarrow> udp_packet res" where
  "UdpPacket_update_checksum keeps_tail p =
     bindE (UdpPacket_set_checksum p 0) (\<lambda>q.
       bindE (UdpPacket_cal_checksum keeps_tail q) (\<lambda>c. UdpPacket_set_checksum q c))"

section \<open>TCP\<close>

definition FIN :: u8 where "FIN = 1"
definition SYN :: u8 where "SYN = 2"
definition RST :: u8 where "RST = 4"
definition PSH :: u8 where "PSH = 8"
definition ACK :: u8 where "ACK = 16"
definition URG :: u8 where "URG = 32"

record tcp_packet =
  tcp_source_ip :: ipv4
  tcp_destination_ip :: ipv4
  tcp_buffer :: "u8 list"

definition TcpPacket_unchecked :: "ipv4 \<Rightarrow> ipv4 \<Rightarrow> u8 list \<Rightarrow> tcp_packet" where
  "TcpPacket_unchecked src dst buffer =
     \<lparr>tcp_source_ip = src, tcp_destination_ip = dst, tcp_buffer = buffer\<rparr>"

definition TcpPacket_data_offset :: "tcp_packet \<Rightarrow> u8 res" where
  "TcpPacket_data_offset p = bindE (rd (tcp_buffer p) 12) (\<lambda>b. Inr (drop_bit 4 b))"

definition TcpPacket_new :: "ipv4 \<Rightarrow> ipv4 \<Rightarrow> u8 list \<Rightarrow> tcp_packet res" where
  "TcpPacket_new src dst buffer =
     (let packet = TcpPacket_unchecked src dst buffer in
      if length (tcp_buffer packet) < 20 then Inl (Io InvalidData '''')
      else bindE (TcpPacket_data_offset packet) (\<lambda>d.
        if length (tcp_buffer packet) < unat d * 4 then Inl (Io InvalidData '''')
        else Inr packet))"

definition TcpPacket_set_source_ip :: "tcp_packet \<Rightarrow> ipv4 \<Rightarrow> tcp_packet" where
  "TcpPacket_set_source_ip p v = p\<lparr>tcp_source_ip := v\<rparr>"

definition TcpPacket_set_destination_ip :: "tcp_packet \<Rightarrow> ipv4 \<Rightarrow> tcp_packet" where
  "TcpPacket_set_destination_ip p v = p\<lparr>tcp_destination_ip := v\<rparr>"

definition TcpPacket_set_checksum :: "tcp_packet \<Rightarrow> u16 \<Rightarrow> tcp_packet res" where
  "TcpPacket_set_checksum p v = mapE (\<lambda>b. p\<lparr>tcp_buffer := b\<rparr>) (wr16 (tcp_buffer p) 16 v)"

definition TcpPacket_set_source_port :: "tcp_packet \<Rightarrow> u16 \<Rightarrow> tcp_packet res" where
  "TcpPacket_set_source_port p v = mapE (\<lambda>b. p\<lparr>tcp_buffer := b\<rparr>) (wr16 (tcp_buffer p) 0 v)"

definition TcpPacket_set_destination_port :: "tcp_packet \<Rightarrow> u16 \<Rightarrow> tcp_packet res" where
  "TcpPacket_set_destination_port p v = mapE (\<lambda>b. p\<lparr>tcp_buffer := b\<rparr>) (wr16 (tcp_buffer p) 2 v)"

definition TcpPacket_source_port :: "tcp_packet \<Rightarrow> u16 res" where
  "TcpPacket_source_port p = rd16 (tcp_buffer p) 0"

definition TcpPacket_destination_port :: "tcp_packet \<Rightarrow> u16 res" where
  "TcpPacket_destination_port p = rd16 (tcp_buffer p) 2"

definition TcpPacket_sequence :: "tcp_packet \<Rightarrow> u32 res" where
  "TcpPacket_sequence p = rd32 (tcp_buffer p) 4"

definition TcpPacket_acknowledgment :: "tcp_packet \<Rightarrow> u32 res" where
  "TcpPacket_acknowledgment p = rd32 (tcp_buffer p) 8"

definition TcpPacket_flags :: "tcp_packet \<Rightarrow> u8 res" where
  "TcpPacket_flags p = rd (tcp_buffer p) 13"

definition TcpPacket_window :: "tcp_packet \<Rightarrow> u16 res" where
  "TcpPacket_window p = rd16 (tcp_buffer p) 14"

definition TcpPacket_checksum :: "tcp_packet \<Rightarrow> u16 res" where
  "TcpPacket_checksum p = rd16 (tcp_buffer p) 16"

definition TcpPacket_cal_checksum :: "bool \<Rightarrow> tcp_packet \<Rightarrow> u16 res" where
  "TcpPacket_cal_checksum keeps_tail p =
     ipv4_cal_checksum keeps_tail (tcp_buffer p) (tcp_source_ip p) (tcp_destination_ip p) 6"

definition TcpPacket_is_valid :: "bool \<Rightarrow> tcp_packet \<Rightarrow> bool res" where
  "TcpPacket_is_valid keeps_tail p =
     bindE (TcpPacket_checksum p) (\<lambda>c.
       if c = 0 then Inr True else bindE (TcpPacket_cal_checksum keeps_tail p) (\<lambda>s. Inr (s = 0)))"

definition TcpPacket_urgent_pointer :: "tcp_packet \<Rightarrow> u16 res" where
  "TcpPacket_urgent_pointer p = rd16 (tcp_buffer p) 18"

definition TcpPacket_options :: "tcp_packet \<Rightarrow> u8 list res" where
  "TcpPacket_options p =
     bindE (TcpPacket_data_offset p) (\<lambda>d. slice (tcp_buffer p) 20 (unat d * 4))"

definition TcpPacket_payload :: "tcp_packet \<Rightarrow> u8 list res" where
  "TcpPacket_payload p =
     bindE (TcpPacket_data_offset p)
       (\<lambda>d. slice (tcp_buffer p) (unat d * 4) (length (tcp_buffer p)))"

definition TcpPacket_update_checksum :: "bool \<Rightarrow> tcp_packet \<Rightarrow> tcp_packet res" where
  "TcpPacket_update_checksum keeps_tail p =
     bindE (TcpPacket_set_checksum p 0) (\<lambda>q.
       bindE (TcpPacket_cal_checksum keeps_tail q) (\<lambda>c. TcpPacket_set_checksum q c))"

section \<open>Both views seal their checksum\<close>

interpretation udp_seal: sealed_view k "\<lambda>b. ipv4_cal_checksum k b s d 17"
    "\<lambda>n. pseudo_header n s d 17" 6 for k s d
  by unfold_locales simp

interpretation tcp_seal: sealed_view k "\<lambda>b. ipv4_cal_checksum k b s d 6"
    "\<lambda>n. pseudo_header n s d 6" 16 for k s d
  by unfold_locales simp

lemma UdpPacket_update_checksum_seal:
  "UdpPacket_update_checksum k p =
     mapE (\<lambda>b. p\<lparr>udp_buffer := b\<rparr>) (udp_seal.update k (udp_source_ip p) (udp_destination_ip p) (udp_buffer p))"
  by (simp add: UdpPacket_update_checksum_def UdpPacket_set_checksum_def UdpPacket_cal_checksum_def
      udp_seal.update_def mapE_def)

lemma UdpPacket_is_valid_seal:
  "UdpPacket_is_valid k p = udp_seal.verifies k (udp_source_ip p) (udp_destination_ip p) (udp_buffer p)"
  by (simp add: UdpPacket_is_valid_def UdpPacket_checksum_def UdpPacket_cal_checksum_def udp_seal.verifies_def
      cong: if_cong)

lemma TcpPacket_update_checksum_seal:
  "TcpPacket_update_checksum k p =
     mapE (\<lambda>b. p\<lparr>tcp_buffer := b\<rparr>) (tcp_seal.update k (tcp_source_ip p) (tcp_destination_ip p) (tcp_buffer p))"
  by (simp add: TcpPacket_update_checksum_def TcpPacket_set_checksum_def TcpPacket_cal_checksum_def
      tcp_seal.update_def mapE_def)

lemma TcpPacket_is_valid_seal:
  "TcpPacket_is_valid k p = tcp_seal.verifies k (tcp_source_ip p) (tcp_destination_ip p) (tcp_buffer p)"
  by (simp add: TcpPacket_is_valid_def TcpPacket_checksum_def TcpPacket_cal_checksum_def tcp_seal.verifies_def
      cong: if_cong)

section \<open>Properties\<close>

lemma UdpPacket_new_Inr_iff:
  "UdpPacket_new s d b = Inr p \<longleftrightarrow> p = UdpPacket_unchecked s d b \<and> 8 \<le> length b"
  by (auto simp: UdpPacket_new_def)

lemma TcpPacket_new_Inr_iff:
  "TcpPacket_new s d b = Inr p \<longleftrightarrow>
     p = TcpPacket_unchecked s d b \<and> 20 \<le> length b \<and> unat (drop_bit 4 (b ! 12)) * 4 \<le> length b"
  by (cases "length b < 20")
    (auto simp: TcpPacket_new_def TcpPacket_data_offset_def TcpPacket_unchecked_def rd_def)

text \<open>
  A UDP datagram that \<open>new\<close> accepted and whose length fits an IP packet verifies after
  \<open>update_checksum\<close>, and keeps its ports, its length field and its payload - provided the
  length is even or the failed two-byte read leaves the odd byte in place.
\<close>

theorem udp_checksum_verifies:
  assumes "UdpPacket_new s d b = Inr p" and "length b \<le> 65535" and "even (length b) \<or> k"
  shows "\<exists>q. UdpPacket_update_checksum k p = Inr q \<and> UdpPacket_is_valid k q = Inr True \<and>
     UdpPacket_source_port q = UdpPacket_source_port p \<and>
     UdpPacket_destination_port q = UdpPacket_destination_port p \<and>
     UdpPacket_length q = UdpPacket_length p \<and> UdpPacket_payload q = UdpPacket_payload p"
proof -
  have p: "p = UdpPacket_unchecked s d b" "8 \<le> length b" using assms(1) by (auto simp: UdpPacket_new_Inr_iff)
  obtain c where c: "udp_seal.update k s d b = Inr (splice 6 (be16_bytes c) b)"
    "udp_seal.verifies k s d (splice 6 (be16_bytes c) b) = Inr True"
    using udp_seal.update_verifies[of b k s d] p(2) assms(2,3) by auto
  from p c show ?thesis
    by (simp add: UdpPacket_update_checksum_seal UdpPacket_is_valid_seal UdpPacket_unchecked_def
        UdpPacket_source_port_def UdpPacket_destination_port_def UdpPacket_length_def
        UdpPacket_payload_def rd16_frame slice_def drop_splice_above)
qed

lemma udp_checksum_verifies_witness:
  "\<exists>p q. UdpPacket_new 1 2 [0, 53, 0, 53, 0, 9, 0, 0, 7] = Inr p \<and>
     UdpPacket_update_checksum True p = Inr q \<and> UdpPacket_is_valid True q = Inr True"
  using udp_checksum_verifies[of 1 2 "[0, 53, 0, 53, 0, 9, 0, 0, 7]" _ True]
  by (auto simp: UdpPacket_new_def)

text \<open>
  The same for TCP: an accepted segment with a data offset of at least five words verifies after
  \<open>update_checksum\<close> and keeps its ports, sequence numbers, flags, options and payload.
\<close>

theorem tcp_checksum_verifies:
  assumes "TcpPacket_new s d b = Inr p" and "length b \<le> 65535" and "even (length b) \<or> k"
    and "5 \<le> drop_bit 4 (b ! 12)"
  shows "\<exists>q. TcpPacket_update_checksum k p = Inr q \<and> TcpPacket_is_valid k q = Inr True \<and>
     TcpPacket_source_port q = TcpPacket_source_port p \<and>
     TcpPacket_destination_port q = TcpPacket_destination_port p \<and>
     TcpPacket_flags q = TcpPacket_flags p \<and>
     TcpPacket_options q = TcpPacket_options p \<and> TcpPacket_payload q = TcpPacket_payload p"
proof -
  have p: "p = TcpPacket_unchecked s d b" "20 \<le> length b" "unat (drop_bit 4 (b ! 12)) * 4 \<le> length b"
    using assms(1) by (auto simp: TcpPacket_new_Inr_iff)
  have off: "20 \<le> unat (drop_bit 4 (b ! 12)) * 4" using assms(4) by (simp add: word_le_nat_alt)
  obtain c where c: "tcp_seal.update k s d b = Inr (splice 16 (be16_bytes c) b)"
    "tcp_seal.verifies k s d (splice 16 (be16_bytes c) b) = Inr True"
    using tcp_seal.update_verifies[of b k s d] p(2) assms(2,3) by auto
  let ?q = "TcpPacket_unchecked s d (splice 16 (be16_bytes c) b)"
  have "TcpPacket_update_checksum k p = Inr ?q" "TcpPacket_is_valid k ?q = Inr True"
    using c by (simp_all add: TcpPacket_update_checksum_seal TcpPacket_is_valid_seal p(1) TcpPacket_unchecked_def)
  moreover have "TcpPacket_data_offset ?q = TcpPacket_data_offset p"
    "TcpPacket_data_offset p = Inr (drop_bit 4 (b ! 12))"
    using p(2) by (simp_all add: TcpPacket_data_offset_def p(1) TcpPacket_unchecked_def rd_in)
  moreover have "TcpPacket_source_port ?q = TcpPacket_source_port p"
    "TcpPacket_destination_port ?q = TcpPacket_destination_port p"
    "TcpPacket_flags ?q = TcpPacket_flags p"
    using p(2) by (simp_all add: TcpPacket_source_port_def TcpPacket_destination_port_def
        TcpPacket_flags_def p(1) TcpPacket_unchecked_def rd16_frame rd_in)
  ultimately show ?thesis
    using p(2,3) off by (simp add: TcpPacket_options_def TcpPacket_payload_def p(1)
        TcpPacket_unchecked_def slice_def drop_splice_above)
qed

definition tcp_sample :: "u8 list" where
  "tcp_sample = [0, 80, 0x1F, 0x90, 0, 0, 0, 1, 0, 0, 0, 2, 0x50, 0x18, 1, 0, 0, 0, 0, 0, 65, 66]"

lemma tcp_checksum_verifies_witness:
  "\<exists>p q. TcpPacket_new 1 2 tcp_sample = Inr p \<and>
     TcpPacket_update_checksum False p = Inr q \<and> TcpPacket_is_valid False q = Inr True"
  using tcp_checksum_verifies[of 1 2 tcp_sample "TcpPacket_unchecked 1 2 tcp_sample" False]
  by (auto simp: TcpPacket_new_Inr_iff tcp_sample_def)

text \<open>
  The odd-length case: on accepted datagrams and segments, \<open>update_checksum\<close> fails exactly when
  the length is odd and the failed two-byte read consumed the last byte, and then it panics.
\<close>

theorem odd_length_checksum_panics:
  assumes "UdpPacket_new s d ub = Inr u" and "TcpPacket_new s d tb = Inr t"
    and "length ub \<le> 65535" and "length tb \<le> 65535"
  shows "(UdpPacket_update_checksum k u = Inl e \<longleftrightarrow> e = Panic \<and> odd (length ub) \<and> \<not> k) \<and>
    (TcpPacket_update_checksum k t = Inl e \<longleftrightarrow> e = Panic \<and> odd (length tb) \<and> \<not> k)"
proof -
  have inl: "mapE f m = Inl e \<longleftrightarrow> m = Inl e" for f :: "'a \<Rightarrow> 'b" and m by (cases m) auto
  have "u = UdpPacket_unchecked s d ub" "8 \<le> length ub"
    "t = TcpPacket_unchecked s d tb" "20 \<le> length tb"
    using assms(1,2) by (auto simp: UdpPacket_new_Inr_iff TcpPacket_new_Inr_iff)
  then show ?thesis
    using assms(3,4) udp_seal.update_panic_iff[of ub k s d e] tcp_seal.update_panic_iff[of tb k s d e]
    by (simp add: UdpPacket_update_checksum_seal TcpPacket_update_checksum_seal inl
        UdpPacket_unchecked_def TcpPacket_unchecked_def)
qed

lemma odd_length_checksum_panics_witness:
  "\<exists>u. UdpPacket_new 1 2 [0, 53, 0, 53, 0, 9, 0, 0, 7] = Inr u \<and>
     UdpPacket_update_checksum False u = Inl Panic"
  using odd_length_checksum_panics[of 1 2 "[0, 53, 0, 53, 0, 9, 0, 0, 7]"
      "UdpPacket_unchecked 1 2 [0, 53, 0, 53, 0, 9, 0, 0, 7]" tcp_sample
      "TcpPacket_unchecked 1 2 tcp_sample" False Panic]
  by (simp add: UdpPacket_new_Inr_iff TcpPacket_new_Inr_iff) (simp add: tcp_sample_def)

end
