(* ===== verification/Icmp_Packet.thy ===== *)
theory Icmp_Packet
  imports Transport_Packet
begin

text \<open>
  ICMP, \<^verbatim>\<open>packet/src/icmp/mod.rs\<close> (kinds and codes) and
  \<^verbatim>\<open>packet/src/icmp/icmp.rs\<close> (the view).
\<close>

datatype IcmpKind =
  Ik_EchoReply | Ik_DestinationUnreachable | Ik_SourceQuench | Ik_Redirect | Ik_EchoRequest
   | Ik_RouterAdvertisement | Ik_RouterSolicitation | Ik_TimeExceeded | Ik_ParameterProblem
   | Ik_TimestampRequest | Ik_TimestampReply | Ik_InformationRequest | Ik_InformationReply
   | Ik_AddressMaskRequest | Ik_AddressMaskReply | Ik_TraceRoute | Ik_Unknown u8

definition IcmpKind_of_u8 :: "u8 \<Rightarrow> IcmpKind" where
  "IcmpKind_of_u8 value = (
     if value = 0 then Ik_EchoReply else if value = 3 then Ik_DestinationUnreachable else
     if value = 4 then Ik_SourceQuench else if value = 5 then Ik_Redirect else
     if value = 8 then Ik_EchoRequest else if value = 9 then Ik_RouterAdvertisement else
     if value = 10 then Ik_RouterSolicitation else if value = 11 then Ik_TimeExceeded else
     if value = 12 then Ik_ParameterProblem else if value = 13 then Ik_TimestampRequest else
     if value = 14 then Ik_TimestampReply else if value = 15 then Ik_InformationRequest else
     if value = 16 then Ik_InformationReply else if value = 17 then Ik_AddressMaskRequest else
     if value = 18 then Ik_AddressMaskReply else if value = 30 then Ik_TraceRoute else
     Ik_Unknown value)"

primrec IcmpKind_to_u8 :: "IcmpKind \<Rightarrow> u8" where
  "IcmpKind_to_u8 Ik_EchoReply = 0"
| "IcmpKind_to_u8 Ik_DestinationUnreachable = 3"
| "IcmpKind_to_u8 Ik_SourceQuench = 4"
| "IcmpKind_to_u8 Ik_Redirect = 5"
| "IcmpKind_to_u8 Ik_EchoRequest = 8"
| "IcmpKind_to_u8 Ik_RouterAdvertisement = 9"
| "IcmpKind_to_u8 Ik_RouterSolicitation = 10"
| "IcmpKind_to_u8 Ik_TimeExceeded = 11"
| "IcmpKind_to_u8 Ik_ParameterProblem = 12"
| "IcmpKind_to_u8 Ik_TimestampRequest = 13"
| "IcmpKind_to_u8 Ik_TimestampReply = 14"
| "IcmpKind_to_u8 Ik_InformationRequest = 15"
| "IcmpKind_to_u8 Ik_InformationReply = 16"
| "IcmpKind_to_u8 Ik_AddressMaskRequest = 17"
| "IcmpKind_to_u8 Ik_AddressMaskReply = 18"
| "IcmpKind_to_u8 Ik_TraceRoute = 30"
| "IcmpKind_to_u8 (Ik_Unknown v) = v"

interpretation IcmpKind_code: wire_code IcmpKind_of_u8 IcmpKind_to_u8
  by unfold_locales
    (unfold IcmpKind_of_u8_def, (intro wire_code_step[of IcmpKind_to_u8]), (rule IcmpKind_to_u8.simps)+)

datatype DestinationUnreachable =
  Du_DestinationNetworkUnreachable | Du_DestinationHostUnreachable
   | Du_DestinationProtocolUnreachable | Du_DestinationPortUnreachable
   | Du_FragmentationRequired | Du_SourceRouteFailed | Du_DestinationNetworkUnknown
   | Du_DestinationHostUnknown | Du_SourceHostIsolated | Du_NetworkAdministrativelyProhibited
   | Du_HostAdministrativelyProhibited | Du_NetworkUnreachableForTos
   | Du_HostUnreachableForTos | Du_CommunicationAdministrativelyProhibited
   | Du_HostPrecedenceViolation | Du_PrecedentCutoffInEffect | Du_Unknown u8

definition DestinationUnreachable_of_u8 :: "u8 \<Rightarrow> DestinationUnreachable" where
  "DestinationUnreachable_of_u8 value = (
     if value = 0 then Du_DestinationNetworkUnreachable else if value = 1 then Du_DestinationHostUnreachable else
     if value = 2 then Du_DestinationProtocolUnreachable else if value = 3 then Du_DestinationPortUnreachable else
     if value = 4 then Du_FragmentationRequired else if value = 5 then Du_SourceRouteFailed else
     if value = 6 then Du_DestinationNetworkUnknown else if value = 7 then Du_DestinationHostUnknown else
     if value = 8 then Du_SourceHostIsolated else if value = 9 then Du_NetworkAdministrativelyProhibited else
     if value = 10 then Du_HostAdministrativelyProhibited else if value = 11 then Du_NetworkUnreachableForTos else
     if value = 12 then Du_HostUnreachableForTos else if value = 13 then Du_CommunicationAdministrativelyProhibited else
     if value = 14 then Du_HostPrecedenceViolation else if value = 15 then Du_PrecedentCutoffInEffect else
     Du_Unknown value)"

primrec DestinationUnreachable_to_u8 :: "DestinationUnreachable \<Rightarrow> u8" where
  "DestinationUnreachable_to_u8 Du_DestinationNetworkUnreachable = 0"
| "DestinationUnreachable_to_u8 Du_DestinationHostUnreachable = 1"
| "DestinationUnreachable_to_u8 Du_DestinationProtocolUnreachable = 2"
| "DestinationUnreachable_to_u8 Du_DestinationPortUnreachable = 3"
| "DestinationUnreachable_to_u8 Du_FragmentationRequired = 4"
| "DestinationUnreachable_to_u8 Du_SourceRouteFailed = 5"
| "DestinationUnreachable_to_u8 Du_DestinationNetworkUnknown = 6"
| "DestinationUnreachable_to_u8 Du_DestinationHostUnknown = 7"
| "DestinationUnreachable_to_u8 Du_SourceHostIsolated = 8"
| "DestinationUnreachable_to_u8 Du_NetworkAdministrativelyProhibited = 9"
| "DestinationUnreachable_to_u8 Du_HostAdministrativelyProhibited = 10"
| "DestinationUnreachable_to_u8 Du_NetworkUnreachableForTos = 11"
| "DestinationUnreachable_to_u8 Du_HostUnreachableForTos = 12"
| "DestinationUnreachable_to_u8 Du_CommunicationAdministrativelyProhibited = 13"
| "DestinationUnreachable_to_u8 Du_HostPrecedenceViolation = 14"
| "DestinationUnreachable_to_u8 Du_PrecedentCutoffInEffect = 15"
| "DestinationUnreachable_to_u8 (Du_Unknown v) = v"

interpretation DestinationUnreachable_code: wire_code DestinationUnreachable_of_u8 DestinationUnreachable_to_u8
  by unfold_locales
    (unfold DestinationUnreachable_of_u8_def, (intro wire_code_step[of DestinationUnreachable_to_u8]), (rule DestinationUnreachable_to_u8.simps)+)

datatype Redirect =
  Rd_RedirectDatagramForNetwork | Rd_RedirectDatagramForHost
   | Rd_RedirectDatagramForTosAndNetwork | Rd_RedirectDatagramForTosAndHost | Rd_Unknown u8

definition Redirect_of_u8 :: "u8 \<Rightarrow> Redirect" where
  "Redirect_of_u8 value = (
     if value = 0 then Rd_RedirectDatagramForNetwork else if value = 1 then Rd_RedirectDatagramForHost else
     if value = 2 then Rd_RedirectDatagramForTosAndNetwork else if value = 3 then Rd_RedirectDatagramForTosAndHost else
     Rd_Unknown value)"

primrec Redirect_to_u8 :: "Redirect \<Rightarrow> u8" where
  "Redirect_to_u8 Rd_RedirectDatagramForNetwork = 0"
| "Redirect_to_u8 Rd_RedirectDatagramForHost = 1"
| "Redirect_to_u8 Rd_RedirectDatagramForTosAndNetwork = 2"
| "Redirect_to_u8 Rd_RedirectDatagramForTosAndHost = 3"
| "Redirect_to_u8 (Rd_Unknown v) = v"

interpretation Redirect_code: wire_code Redirect_of_u8 Redirect_to_u8
  by unfold_locales
    (unfold Redirect_of_u8_def, (intro wire_code_step[of Redirect_to_u8]), (rule Redirect_to_u8.simps)+)

datatype TimeExceeded =
  Te_Transit | Te_Reassembly | Te_Unknown u8

definition TimeExceeded_of_u8 :: "u8 \<Rightarrow> TimeExceeded" where
  "TimeExceeded_of_u8 value = (
     if value = 0 then Te_Transit else if value = 1 then Te_Reassembly else
     Te_Unknown value)"

primrec TimeExceeded_to_u8 :: "TimeExceeded \<Rightarrow> u8" where
  "TimeExceeded_to_u8 Te_Transit = 0"
| "TimeExceeded_to_u8 Te_Reassembly = 1"
| "TimeExceeded_to_u8 (Te_Unknown v) = v"

interpretation TimeExceeded_code: wire_code TimeExceeded_of_u8 TimeExceeded_to_u8
  by unfold_locales
    (unfold TimeExceeded_of_u8_def, (intro wire_code_step[of TimeExceeded_to_u8]), (rule TimeExceeded_to_u8.simps)+)

datatype ParameterProblem =
  Pp_PointerIndicatesError | Pp_MissingRequiredData | Pp_BadLength | Pp_Unknown u8

definition ParameterProblem_of_u8 :: "u8 \<Rightarrow> ParameterProblem" where
  "ParameterProblem_of_u8 value = (
     if value = 0 then Pp_PointerIndicatesError else if value = 1 then Pp_MissingRequiredData else
     if value = 2 then Pp_BadLength else
     Pp_Unknown value)"

primrec ParameterProblem_to_u8 :: "ParameterProblem \<Rightarrow> u8" where
  "ParameterProblem_to_u8 Pp_PointerIndicatesError = 0"
| "ParameterProblem_to_u8 Pp_MissingRequiredData = 1"
| "ParameterProblem_to_u8 Pp_BadLength = 2"
| "ParameterProblem_to_u8 (Pp_Unknown v) = v"

interpretation ParameterProblem_code: wire_code ParameterProblem_of_u8 ParameterProblem_to_u8
  by unfold_locales
    (unfold ParameterProblem_of_u8_def, (intro wire_code_step[of ParameterProblem_to_u8]), (rule ParameterProblem_to_u8.simps)+)

datatype IcmpCode =
  Code_DestinationUnreachable DestinationUnreachable | Code_Redirect Redirect
  | Code_ParameterProblem ParameterProblem | Code_Other u8

definition IcmpCode_from :: "IcmpKind \<Rightarrow> u8 \<Rightarrow> IcmpCode" where
  "IcmpCode_from kind code = (case kind of
     Ik_DestinationUnreachable \<Rightarrow> Code_DestinationUnreachable (DestinationUnreachable_of_u8 code)
   | Ik_Redirect \<Rightarrow> Code_Redirect (Redirect_of_u8 code)
   | Ik_ParameterProblem \<Rightarrow> Code_ParameterProblem (ParameterProblem_of_u8 code)
   | _ \<Rightarrow> Code_Other code)"

section \<open>The view\<close>

datatype HeaderOther =
  Ho_Unused u8 u8 u8 u8 | Ho_Pointer u8 | Ho_Address u8 u8 u8 u8 | Ho_Identifier u16 u16
  | Ho_UnKnown u8 u8 u8 u8

datatype IcmpDescription =
  Desc_Ip "u8 list" | Desc_Timestamp u32 u32 u32 | Desc_Other "u8 list"

definition IcmpPacket_new :: "u8 list \<Rightarrow> u8 list res" where
  "IcmpPacket_new buffer = (if length buffer < 8 then Inl (Io InvalidData '''') else Inr buffer)"

definition IcmpPacket_set_kind :: "u8 list \<Rightarrow> IcmpKind \<Rightarrow> u8 list res" where
  "IcmpPacket_set_kind buffer kind = wr buffer 0 (IcmpKind_to_u8 kind)"

definition IcmpPacket_update_checksum :: "bool \<Rightarrow> u8 list \<Rightarrow> u8 list res" where
  "IcmpPacket_update_checksum keeps_tail buffer =
     bindE (copy_range buffer 2 4 [0, 0]) (\<lambda>b.
       bindE (cal_checksum keeps_tail b) (\<lambda>checksum. copy_range b 2 4 (be16_bytes checksum)))"

definition IcmpPacket_kind :: "u8 list \<Rightarrow> IcmpKind res" where
  "IcmpPacket_kind buffer = bindE (rd buffer 0) (\<lambda>b. Inr (IcmpKind_of_u8 b))"

definition IcmpPacket_code :: "u8 list \<Rightarrow> IcmpCode res" where
  "IcmpPacket_code buffer =
     bindE (IcmpPacket_kind buffer) (\<lambda>kind. bindE (rd buffer 1) (\<lambda>b. Inr (IcmpCode_from kind b)))"

definition IcmpPacket_checksum :: "u8 list \<Rightarrow> u16 res" where
  "IcmpPacket_checksum buffer = rd16 buffer 2"

definition IcmpPacket_is_valid :: "bool \<Rightarrow> u8 list \<Rightarrow> bool res" where
  "IcmpPacket_is_valid keeps_tail buffer =
     bindE (IcmpPacket_checksum buffer) (\<lambda>c.
       if c = 0 then Inr True else bindE (cal_checksum keeps_tail buffer) (\<lambda>s. Inr (s = 0)))"

definition rd_quad :: "u8 list \<Rightarrow> (u8 \<Rightarrow> u8 \<Rightarrow> u8 \<Rightarrow> u8 \<Rightarrow> HeaderOther) \<Rightarrow> HeaderOther res" where
  "rd_quad bytes f = bindE (rd bytes 4) (\<lambda>a. bindE (rd bytes 5) (\<lambda>b.
     bindE (rd bytes 6) (\<lambda>c. bindE (rd bytes 7) (\<lambda>d. Inr (f a b c d)))))"

definition IcmpPacket_header_other :: "u8 list \<Rightarrow> HeaderOther res" where
  "IcmpPacket_header_other buffer = bindE (IcmpPacket_kind buffer) (\<lambda>kind.
     if kind \<in> {Ik_EchoReply, Ik_EchoRequest, Ik_TimestampRequest, Ik_TimestampReply,
                Ik_InformationRequest, Ik_InformationReply}
     then bindE (rd16 buffer 4) (\<lambda>ide. bindE (rd16 buffer 6) (\<lambda>seq. Inr (Ho_Identifier ide seq)))
     else if kind \<in> {Ik_DestinationUnreachable, Ik_TimeExceeded, Ik_SourceQuench}
     then rd_quad buffer Ho_Unused
     else if kind = Ik_Redirect then rd_quad buffer Ho_Address
     else if kind = Ik_ParameterProblem then bindE (rd buffer 4) (\<lambda>b. Inr (Ho_Pointer b))
     else rd_quad buffer Ho_UnKnown)"

definition IcmpPacket_payload :: "u8 list \<Rightarrow> u8 list res" where
  "IcmpPacket_payload buffer = slice buffer 8 (length buffer)"

definition IcmpPacket_description :: "u8 list \<Rightarrow> IcmpDescription res" where
  "IcmpPacket_description buffer = bindE (IcmpPacket_kind buffer) (\<lambda>kind.
     if kind \<in> {Ik_DestinationUnreachable, Ik_TimeExceeded, Ik_ParameterProblem, Ik_SourceQuench,
                Ik_Redirect}
     then bindE (IcmpPacket_payload buffer) (\<lambda>pl.
       (case IpV4Packet_new pl of Inr d \<Rightarrow> Inr (Desc_Ip d) | Inl _ \<Rightarrow> Inr (Desc_Other pl)))
     else if kind \<in> {Ik_TimestampRequest, Ik_TimestampReply}
     then bindE (IcmpPacket_payload buffer) (\<lambda>pl.
       bindE (rd32 pl 0) (\<lambda>o1. bindE (rd32 pl 4) (\<lambda>r. bindE (rd32 pl 8) (\<lambda>t.
         Inr (Desc_Timestamp o1 r t)))))
     else bindE (IcmpPacket_payload buffer) (\<lambda>pl. Inr (Desc_Other pl)))"

interpretation icmp_seal: sealed_view k "cal_checksum k" "\<lambda>_. 0" 2 for k
  by unfold_locales simp

lemma IcmpPacket_update_checksum_seal: "IcmpPacket_update_checksum k b = icmp_seal.update k b"
  by (simp add: IcmpPacket_update_checksum_def icmp_seal.update_def wr16_def be16_bytes_def)

lemma IcmpPacket_is_valid_seal: "IcmpPacket_is_valid k b = icmp_seal.verifies k b"
  by (simp add: IcmpPacket_is_valid_def IcmpPacket_checksum_def icmp_seal.verifies_def cong: if_cong)

section \<open>Properties\<close>

text \<open>
  An accepted ICMP message of even length (or odd, with the odd byte left in place) can be
  turned into an echo reply and sealed: the reply has that kind, verifies, and carries the
  same identifier, sequence number and payload.
\<close>

theorem icmp_echo_reply_verifies:
  assumes "IcmpPacket_new b = Inr p" and "length b \<le> 65535" and "even (length b) \<or> k"
  shows "\<exists>q. bindE (IcmpPacket_set_kind p Ik_EchoReply) (IcmpPacket_update_checksum k) = Inr q \<and>
     IcmpPacket_kind q = Inr Ik_EchoReply \<and> IcmpPacket_is_valid k q = Inr True \<and>
     IcmpPacket_payload q = IcmpPacket_payload p \<and> rd32 q 4 = rd32 p 4"
proof -
  have p: "p = b" "8 \<le> length b" using assms(1) by (auto simp: IcmpPacket_new_def split: if_splits)
  let ?r = "b[0 := 0]"
  have k0: "IcmpPacket_set_kind b Ik_EchoReply = Inr ?r"
    using p(2) by (simp add: IcmpPacket_set_kind_def wr_def del: length_0_conv length_greater_0_conv)
  obtain c where c: "icmp_seal.update k ?r = Inr (splice 2 (be16_bytes c) ?r)"
    "icmp_seal.verifies k (splice 2 (be16_bytes c) ?r) = Inr True"
    using icmp_seal.update_verifies[of ?r k] p(2) assms(2,3) by auto
  let ?q = "splice 2 (be16_bytes c) ?r"
  have l: "length ?q = length b" using p(2) by simp
  have "?q ! 0 = 0" using p(2) by (subst nth_splice_first) (auto intro: nth_list_update_eq)
  then have "IcmpPacket_kind ?q = Inr Ik_EchoReply"
    using p(2) l by (simp add: IcmpPacket_kind_def rd_def IcmpKind_of_u8_def del: length_greater_0_conv)
  moreover have "IcmpPacket_payload ?q = IcmpPacket_payload b"
    using p(2) l by (simp add: IcmpPacket_payload_def slice_def drop_splice_above)
  moreover have "rd32 ?q 4 = rd32 b 4"
    using p(2) l by (simp add: rd32_in nth_splice_above)
  ultimately show ?thesis
    using c k0 by (simp add: p(1) IcmpPacket_update_checksum_seal IcmpPacket_is_valid_seal)
qed

lemma icmp_echo_reply_verifies_witness:
  "\<exists>q. bindE (IcmpPacket_set_kind [8, 0, 0, 0, 0, 1, 0, 2] Ik_EchoReply)
     (IcmpPacket_update_checksum False) = Inr q \<and> IcmpPacket_kind q = Inr Ik_EchoReply"
proof -
  have "IcmpPacket_new [8, 0, 0, 0, 0, 1, 0, 2] = Inr [8, 0, 0, 0, 0, 1, 0, 2]"
    by (simp add: IcmpPacket_new_def)
  from icmp_echo_reply_verifies[OF this, of False] show ?thesis by auto
qed

text \<open>
  On an accepted message, \<open>kind\<close>, \<open>code\<close>, \<open>header_other\<close> and
  \<open>payload\<close> always succeed; \<open>description\<close> panics exactly on a timestamp message shorter
  than 20 bytes, which \<open>new\<close> does not rule out.
\<close>

theorem icmp_description_panics_iff:
  assumes "IcmpPacket_new b = Inr p"
  shows "is_Ok (IcmpPacket_kind p) \<and> is_Ok (IcmpPacket_code p) \<and> is_Ok (IcmpPacket_header_other p) \<and>
    is_Ok (IcmpPacket_payload p) \<and>
    (IcmpPacket_description p = Inl e \<longleftrightarrow> e = Panic \<and> length p < 20 \<and> p ! 0 \<in> {13, 14})"
proof -
  have p: "p = b" "8 \<le> length b" using assms(1) by (auto simp: IcmpPacket_new_def split: if_splits)
  have k: "IcmpPacket_kind b = Inr (IcmpKind_of_u8 (b ! 0))"
    using p(2) by (simp add: IcmpPacket_kind_def rd_def del: length_greater_0_conv)
  have pl: "IcmpPacket_payload b = Inr (drop 8 b)"
    using p(2) by (simp add: IcmpPacket_payload_def slice_def)
  have ts: "IcmpKind_of_u8 v \<in> {Ik_TimestampRequest, Ik_TimestampReply} \<longleftrightarrow> v \<in> {13, 14}" for v
    by (simp add: IcmpKind_of_u8_def)
  have r32: "rd32 (drop 8 b) i = Inl e \<longleftrightarrow> e = Panic \<and> length b < 12 + i" for i
    using p(2) by (auto simp: rd32_def slice_def)
  have "IcmpPacket_description b = Inl e \<longleftrightarrow> e = Panic \<and> length b < 20 \<and> b ! 0 \<in> {13, 14}"
    unfolding ts[symmetric] IcmpPacket_description_def k pl bindE_simps
    by (cases "IcmpKind_of_u8 (b ! 0)") (auto simp: bindE_Inl_iff r32 rd32_in split: sum.splits)
  moreover have "is_Ok (IcmpPacket_header_other b)"
    using p(2) by (simp add: IcmpPacket_header_other_def k rd_quad_def rd16_in rd_in)
  moreover have "is_Ok (IcmpPacket_code b)"
    using p(2) by (simp add: IcmpPacket_code_def k rd_in)
  ultimately show ?thesis by (simp add: p(1) k pl)
qed

lemma icmp_description_panics_witness:
  "IcmpPacket_new [13, 0, 0, 0, 0, 1, 0, 2] = Inr [13, 0, 0, 0, 0, 1, 0, 2] \<and>
   IcmpPacket_description [13, 0, 0, 0, 0, 1, 0, 2] = Inl Panic"
proof -
  have n: "IcmpPacket_new [13, 0, 0, 0, 0, 1, 0, 2] = Inr [13, 0, 0, 0, 0, 1, 0, 2]"
    by (simp add: IcmpPacket_new_def)
  from icmp_description_panics_iff[OF n, of Panic] n show ?thesis by simp
qed

end
