(* ===== verification/Igmp_Packet.thy ===== *)
theory Igmp_Packet
  imports Transport_Packet
begin

text \<open>
  IGMP versions 1 to 3, \<^verbatim>\<open>packet/src/igmp\<close>: types, the fixed-size views of versions 1 and 2,
  and the query, report and group-record views of version 3 with their loops.
\<close>

datatype IgmpType =
  Ig_Query | Ig_ReportV1 | Ig_ReportV2 | Ig_ReportV3 | Ig_LeaveV2 | Ig_Unknown u8

definition IgmpType_of_u8 :: "u8 \<Rightarrow> IgmpType" where
  "IgmpType_of_u8 value = (
     if value = 0x11 then Ig_Query else if value = 0x12 then Ig_ReportV1 else
     if value = 0x16 then Ig_ReportV2 else if value = 0x22 then Ig_ReportV3 else
     if value = 0x17 then Ig_LeaveV2 else
     Ig_Unknown value)"

primrec IgmpType_to_u8 :: "IgmpType \<Rightarrow> u8" where
  "IgmpType_to_u8 Ig_Query = 0x11"
| "IgmpType_to_u8 Ig_ReportV1 = 0x12"
| "IgmpType_to_u8 Ig_ReportV2 = 0x16"
| "IgmpType_to_u8 Ig_ReportV3 = 0x22"
| "IgmpType_to_u8 Ig_LeaveV2 = 0x17"
| "IgmpType_to_u8 (Ig_Unknown v) = v"

interpretation IgmpType_code: wire_code IgmpType_of_u8 IgmpType_to_u8
  by unfold_locales
    (unfold IgmpType_of_u8_def, (intro wire_code_step[of IgmpType_to_u8]), (rule IgmpType_to_u8.simps)+)

datatype IgmpV1Type =
  Ig1_Query | Ig1_ReportV1 | Ig1_Unknown u8

definition IgmpV1Type_of_u8 :: "u8 \<Rightarrow> IgmpV1Type" where
  "IgmpV1Type_of_u8 value = (
     if value = 0x11 then Ig1_Query else if value = 0x12 then Ig1_ReportV1 else
     Ig1_Unknown value)"

primrec IgmpV1Type_to_u8 :: "IgmpV1Type \<Rightarrow> u8" where
  "IgmpV1Type_to_u8 Ig1_Query = 0x11"
| "IgmpV1Type_to_u8 Ig1_ReportV1 = 0x12"
| "IgmpV1Type_to_u8 (Ig1_Unknown v) = v"

interpretation IgmpV1Type_code: wire_code IgmpV1Type_of_u8 IgmpV1Type_to_u8
  by unfold_locales
    (unfold IgmpV1Type_of_u8_def, (intro wire_code_step[of IgmpV1Type_to_u8]), (rule IgmpV1Type_to_u8.simps)+)

datatype IgmpV2Type =
  Ig2_Query | Ig2_ReportV2 | Ig2_LeaveV2 | Ig2_Unknown u8

definition IgmpV2Type_of_u8 :: "u8 \<Rightarrow> IgmpV2Type" where
  "IgmpV2Type_of_u8 value = (
     if value = 0x11 then Ig2_Query else if value = 0x16 then Ig2_ReportV2 else
     if value = 0x17 then Ig2_LeaveV2 else
     Ig2_Unknown value)"

primrec IgmpV2Type_to_u8 :: "IgmpV2Type \<Rightarrow> u8" where
  "IgmpV2Type_to_u8 Ig2_Query = 0x11"
| "IgmpV2Type_to_u8 Ig2_ReportV2 = 0x16"
| "IgmpV2Type_to_u8 Ig2_LeaveV2 = 0x17"
| "IgmpV2Type_to_u8 (Ig2_Unknown v) = v"

interpretation IgmpV2Type_code: wire_code IgmpV2Type_of_u8 IgmpV2Type_to_u8
  by unfold_locales
    (unfold IgmpV2Type_of_u8_def, (intro wire_code_step[of IgmpV2Type_to_u8]), (rule IgmpV2Type_to_u8.simps)+)

datatype IgmpV3Type =
  Ig3_Query | Ig3_ReportV3 | Ig3_Unknown u8

definition IgmpV3Type_of_u8 :: "u8 \<Rightarrow> IgmpV3Type" where
  "IgmpV3Type_of_u8 value = (
     if value = 0x11 then Ig3_Query else if value = 0x22 then Ig3_ReportV3 else
     Ig3_Unknown value)"

primrec IgmpV3Type_to_u8 :: "IgmpV3Type \<Rightarrow> u8" where
  "IgmpV3Type_to_u8 Ig3_Query = 0x11"
| "IgmpV3Type_to_u8 Ig3_ReportV3 = 0x22"
| "IgmpV3Type_to_u8 (Ig3_Unknown v) = v"

interpretation IgmpV3Type_code: wire_code IgmpV3Type_of_u8 IgmpV3Type_to_u8
  by unfold_locales
    (unfold IgmpV3Type_of_u8_def, (intro wire_code_step[of IgmpV3Type_to_u8]), (rule IgmpV3Type_to_u8.simps)+)

datatype IgmpV3RecordType =
  Igr_ModeIsInclude | Igr_ModeIsExclude | Igr_ChangeToIncludeMode | Igr_ChangeToExcludeMode
   | Igr_AllowNewSources | Igr_BlockOldSources | Igr_Unknown u8

definition IgmpV3RecordType_of_u8 :: "u8 \<Rightarrow> IgmpV3RecordType" where
  "IgmpV3RecordType_of_u8 value = (
     if value = 1 then Igr_ModeIsInclude else if value = 2 then Igr_ModeIsExclude else
     if value = 3 then Igr_ChangeToIncludeMode else if value = 4 then Igr_ChangeToExcludeMode else
     if value = 5 then Igr_AllowNewSources else if value = 6 then Igr_BlockOldSources else
     Igr_Unknown value)"

primrec IgmpV3RecordType_to_u8 :: "IgmpV3RecordType \<Rightarrow> u8" where
  "IgmpV3RecordType_to_u8 Igr_ModeIsInclude = 1"
| "IgmpV3RecordType_to_u8 Igr_ModeIsExclude = 2"
| "IgmpV3RecordType_to_u8 Igr_ChangeToIncludeMode = 3"
| "IgmpV3RecordType_to_u8 Igr_ChangeToExcludeMode = 4"
| "IgmpV3RecordType_to_u8 Igr_AllowNewSources = 5"
| "IgmpV3RecordType_to_u8 Igr_BlockOldSources = 6"
| "IgmpV3RecordType_to_u8 (Igr_Unknown v) = v"

interpretation IgmpV3RecordType_code: wire_code IgmpV3RecordType_of_u8 IgmpV3RecordType_to_u8
  by unfold_locales
    (unfold IgmpV3RecordType_of_u8_def, (intro wire_code_step[of IgmpV3RecordType_to_u8]), (rule IgmpV3RecordType_to_u8.simps)+)

section \<open>Versions 1 and 2\<close>

definition IgmpV1Packet_new :: "u8 list \<Rightarrow> u8 list res" where
  "IgmpV1Packet_new buffer = (if length buffer \<noteq> 8 then Inl (Io InvalidData '''') else Inr buffer)"

definition IgmpV1Packet_version :: "u8 list \<Rightarrow> u8 res" where
  "IgmpV1Packet_version buffer = bindE (rd buffer 0) (\<lambda>b. Inr (drop_bit 4 b))"

definition IgmpV1Packet_igmp_type :: "u8 list \<Rightarrow> IgmpV1Type res" where
  "IgmpV1Packet_igmp_type buffer = bindE (rd buffer 0) (\<lambda>b. Inr (IgmpV1Type_of_u8 (b AND 0x0F)))"

definition IgmpV1Packet_checksum :: "u8 list \<Rightarrow> u16 res" where
  "IgmpV1Packet_checksum buffer = rd16 buffer 2"

definition IgmpV1Packet_is_valid :: "bool \<Rightarrow> u8 list \<Rightarrow> bool res" where
  "IgmpV1Packet_is_valid keeps_tail buffer =
     bindE (IgmpV1Packet_checksum buffer) (\<lambda>c.
       if c = 0 then Inr True else bindE (cal_checksum keeps_tail buffer) (\<lambda>s. Inr (s = 0)))"

definition IgmpV1Packet_group_address :: "u8 list \<Rightarrow> ipv4 res" where
  "IgmpV1Packet_group_address buffer = rd32 buffer 4"

definition IgmpV1Packet_set_version :: "u8 list \<Rightarrow> u8 \<Rightarrow> u8 list res" where
  "IgmpV1Packet_set_version buffer version =
     bindE (rd buffer 0) (\<lambda>b. wr buffer 0 (push_bit 4 version OR (0x0F AND b)))"

definition IgmpV1Packet_set_type :: "u8 list \<Rightarrow> IgmpV1Type \<Rightarrow> u8 list res" where
  "IgmpV1Packet_set_type buffer igmp_type =
     (let t = IgmpV1Type_to_u8 igmp_type in
      bindE (rd buffer 0) (\<lambda>b. wr buffer 0 ((b AND 0xF0) OR t)))"

definition IgmpV1Packet_set_checksum :: "u8 list \<Rightarrow> u16 \<Rightarrow> u8 list res" where
  "IgmpV1Packet_set_checksum buffer checksum = wr16 buffer 2 checksum"

definition IgmpV1Packet_update_checksum :: "bool \<Rightarrow> u8 list \<Rightarrow> u8 list res" where
  "IgmpV1Packet_update_checksum keeps_tail buffer =
     bindE (IgmpV1Packet_set_checksum buffer 0) (\<lambda>b.
       bindE (cal_checksum keeps_tail b) (\<lambda>c. IgmpV1Packet_set_checksum b c))"

definition IgmpV1Packet_set_group_address :: "u8 list \<Rightarrow> ipv4 \<Rightarrow> u8 list res" where
  "IgmpV1Packet_set_group_address buffer a = copy_range buffer 4 8 (octets a)"

definition IgmpV2Packet_new :: "u8 list \<Rightarrow> u8 list res" where
  "IgmpV2Packet_new buffer = (if length buffer \<noteq> 8 then Inl (Io InvalidData '''') else Inr buffer)"

definition IgmpV2Packet_igmp_type :: "u8 list \<Rightarrow> IgmpV2Type res" where
  "IgmpV2Packet_igmp_type buffer = bindE (rd buffer 0) (\<lambda>b. Inr (IgmpV2Type_of_u8 b))"

definition IgmpV2Packet_max_resp_time :: "u8 list \<Rightarrow> u8 res" where
  "IgmpV2Packet_max_resp_time buffer = rd buffer 1"

definition IgmpV2Packet_checksum :: "u8 list \<Rightarrow> u16 res" where
  "IgmpV2Packet_checksum buffer = rd16 buffer 2"

definition IgmpV2Packet_is_valid :: "bool \<Rightarrow> u8 list \<Rightarrow> bool res" where
  "IgmpV2Packet_is_valid keeps_tail buffer =
     bindE (IgmpV2Packet_checksum buffer) (\<lambda>c.
       if c = 0 then Inr True else bindE (cal_checksum keeps_tail buffer) (\<lambda>s. Inr (s = 0)))"

definition IgmpV2Packet_group_address :: "u8 list \<Rightarrow> ipv4 res" where
  "IgmpV2Packet_group_address buffer = rd32 buffer 4"

definition IgmpV2Packet_set_type :: "u8 list \<Rightarrow> IgmpV2Type \<Rightarrow> u8 list res" where
  "IgmpV2Packet_set_type buffer t = wr buffer 0 (IgmpV2Type_to_u8 t)"

definition IgmpV2Packet_set_max_resp_time :: "u8 list \<Rightarrow> u8 \<Rightarrow> u8 list res" where
  "IgmpV2Packet_set_max_resp_time buffer resp = wr buffer 1 resp"

definition IgmpV2Packet_set_checksum :: "u8 list \<Rightarrow> u16 \<Rightarrow> u8 list res" where
  "IgmpV2Packet_set_checksum buffer checksum = wr16 buffer 2 checksum"

definition IgmpV2Packet_update_checksum :: "bool \<Rightarrow> u8 list \<Rightarrow> u8 list res" where
  "IgmpV2Packet_update_checksum keeps_tail buffer =
     bindE (IgmpV2Packet_set_checksum buffer 0) (\<lambda>b.
       bindE (cal_checksum keeps_tail b) (\<lambda>c. IgmpV2Packet_set_checksum b c))"

definition IgmpV2Packet_set_group_address :: "u8 list \<Rightarrow> ipv4 \<Rightarrow> u8 list res" where
  "IgmpV2Packet_set_group_address buffer a = copy_range buffer 4 8 (octets a)"

section \<open>Version 3 queries\<close>

text \<open>
  The loop over the announced source addresses, \<open>index * 4\<close> bytes past \<open>base\<close>, stops with
  \<open>None\<close> as soon as one does not fit.
\<close>

function read_sources :: "u8 list \<Rightarrow> nat \<Rightarrow> nat \<Rightarrow> nat \<Rightarrow> ipv4 list \<Rightarrow> ipv4 list option" where
  "read_sources buf base num index acc =
     (if index < num then
        let start = base + index * 4 in
        if length buf < start + 4 then None
        else read_sources buf base num (index + 1)
          (acc @ [be32 (buf ! start) (buf ! (start + 1)) (buf ! (start + 2)) (buf ! (start + 3))])
      else Some acc)"
  by pat_completeness auto
termination by (relation "measure (\<lambda>(_, _, num, index, _). num - index)") auto

declare read_sources.simps [simp del]

definition IgmpV3QueryPacket_new :: "u8 list \<Rightarrow> u8 list res" where
  "IgmpV3QueryPacket_new buffer = (if length buffer < 12 then Inl (Io InvalidData '''') else Inr buffer)"

definition IgmpV3QueryPacket_set_igmp_type :: "u8 list \<Rightarrow> u8 list res" where
  "IgmpV3QueryPacket_set_igmp_type buffer = wr buffer 0 (IgmpV3Type_to_u8 Ig3_Query)"

definition IgmpV3QueryPacket_set_max_resp_code :: "u8 list \<Rightarrow> u8 \<Rightarrow> u8 list res" where
  "IgmpV3QueryPacket_set_max_resp_code buffer code = wr buffer 1 code"

definition IgmpV3QueryPacket_set_group_address :: "u8 list \<Rightarrow> ipv4 \<Rightarrow> u8 list res" where
  "IgmpV3QueryPacket_set_group_address buffer a = copy_range buffer 4 8 (octets a)"

definition IgmpV3QueryPacket_set_checksum :: "u8 list \<Rightarrow> u16 \<Rightarrow> u8 list res" where
  "IgmpV3QueryPacket_set_checksum buffer checksum = wr16 buffer 2 checksum"

definition IgmpV3QueryPacket_set_qrv :: "u8 list \<Rightarrow> u8 \<Rightarrow> u8 list res" where
  "IgmpV3QueryPacket_set_qrv buffer qrv =
     bindE (rd buffer 8) (\<lambda>b. wr buffer 8 ((b AND NOT 0x07) OR (qrv AND 0x07)))"

definition IgmpV3QueryPacket_set_qqic :: "u8 list \<Rightarrow> u8 \<Rightarrow> u8 list res" where
  "IgmpV3QueryPacket_set_qqic buffer qqic = wr buffer 9 qqic"

definition IgmpV3QueryPacket_update_checksum :: "bool \<Rightarrow> u8 list \<Rightarrow> u8 list res" where
  "IgmpV3QueryPacket_update_checksum keeps_tail buffer =
     bindE (IgmpV3QueryPacket_set_checksum buffer 0) (\<lambda>b.
       bindE (cal_checksum keeps_tail b) (\<lambda>c. IgmpV3QueryPacket_set_checksum b c))"

definition IgmpV3QueryPacket_igmp_type :: "u8 list \<Rightarrow> IgmpV3Type res" where
  "IgmpV3QueryPacket_igmp_type buffer = bindE (rd buffer 0) (\<lambda>b. Inr (IgmpV3Type_of_u8 b))"

definition IgmpV3QueryPacket_max_resp_code :: "u8 list \<Rightarrow> u8 res" where
  "IgmpV3QueryPacket_max_resp_code buffer = rd buffer 1"

definition IgmpV3QueryPacket_checksum :: "u8 list \<Rightarrow> u16 res" where
  "IgmpV3QueryPacket_checksum buffer = rd16 buffer 2"

definition IgmpV3QueryPacket_is_valid :: "bool \<Rightarrow> u8 list \<Rightarrow> bool res" where
  "IgmpV3QueryPacket_is_valid keeps_tail buffer =
     bindE (IgmpV3QueryPacket_checksum buffer) (\<lambda>c.
       if c = 0 then Inr True else bindE (cal_checksum keeps_tail buffer) (\<lambda>s. Inr (s = 0)))"

definition IgmpV3QueryPacket_group_address :: "u8 list \<Rightarrow> ipv4 res" where
  "IgmpV3QueryPacket_group_address buffer = rd32 buffer 4"

definition IgmpV3QueryPacket_resv :: "u8 list \<Rightarrow> u8 res" where
  "IgmpV3QueryPacket_resv buffer = bindE (rd buffer 8) (\<lambda>b. Inr (drop_bit 4 b))"

definition IgmpV3QueryPacket_s :: "u8 list \<Rightarrow> u8 res" where
  "IgmpV3QueryPacket_s buffer = bindE (rd buffer 8) (\<lambda>b. Inr (drop_bit 3 (b AND 0x0F)))"

definition IgmpV3QueryPacket_qrv :: "u8 list \<Rightarrow> u8 res" where
  "IgmpV3QueryPacket_qrv buffer = bindE (rd buffer 8) (\<lambda>b. Inr (b AND 0x07))"

definition IgmpV3QueryPacket_qqic :: "u8 list \<Rightarrow> u8 res" where
  "IgmpV3QueryPacket_qqic buffer = rd buffer 9"

definition IgmpV3QueryPacket_source_number :: "u8 list \<Rightarrow> u16 res" where
  "IgmpV3QueryPacket_source_number buffer = rd16 buffer 10"

definition IgmpV3QueryPacket_source_addresses :: "u8 list \<Rightarrow> ipv4 list option res" where
  "IgmpV3QueryPacket_source_addresses buffer =
     bindE (IgmpV3QueryPacket_source_number buffer) (\<lambda>num.
       if num = 0 then Inr None else Inr (read_sources buffer 12 (unat num) 0 []))"

text \<open>\<open>12 + index * 4\<close> is \<open>u16\<close> arithmetic, widened afterwards.\<close>

definition IgmpV3QueryPacket_source_address :: "u8 list \<Rightarrow> u16 \<Rightarrow> ipv4 option res" where
  "IgmpV3QueryPacket_source_address buffer index =
     bindE (IgmpV3QueryPacket_source_number buffer) (\<lambda>num.
       if index \<le> num then Inr None
       else (let start = unat (12 + index * 4); e = start + 4 in
         if length buffer < e then Inr None
         else Inr (Some (be32 (buffer ! start) (buffer ! (start + 1)) (buffer ! (start + 2))
                (buffer ! (start + 3))))))"

section \<open>Version 3 reports\<close>

definition IgmpV3RecordPacket_new :: "u8 list \<Rightarrow> u8 list res" where
  "IgmpV3RecordPacket_new buffer = (if length buffer < 8 then Inl (Io InvalidData '''') else Inr buffer)"

definition IgmpV3RecordPacket_record_type :: "u8 list \<Rightarrow> IgmpV3RecordType res" where
  "IgmpV3RecordPacket_record_type buffer = bindE (rd buffer 0) (\<lambda>b. Inr (IgmpV3RecordType_of_u8 b))"

definition IgmpV3RecordPacket_aux_data_len :: "u8 list \<Rightarrow> u8 res" where
  "IgmpV3RecordPacket_aux_data_len buffer = rd buffer 1"

definition IgmpV3RecordPacket_source_number :: "u8 list \<Rightarrow> u16 res" where
  "IgmpV3RecordPacket_source_number buffer = rd16 buffer 2"

definition IgmpV3RecordPacket_multicast_address :: "u8 list \<Rightarrow> ipv4 res" where
  "IgmpV3RecordPacket_multicast_address buffer = rd32 buffer 4"

definition IgmpV3RecordPacket_source_addresses :: "u8 list \<Rightarrow> ipv4 list option res" where
  "IgmpV3RecordPacket_source_addresses buffer =
     bindE (IgmpV3RecordPacket_source_number buffer) (\<lambda>num.
       if num = 0 then Inr None else Inr (read_sources buffer 8 (unat num) 0 []))"

definition IgmpV3RecordPacket_source_address :: "u8 list \<Rightarrow> u16 \<Rightarrow> ipv4 option res" where
  "IgmpV3RecordPacket_source_address buffer index =
     bindE (IgmpV3RecordPacket_source_number buffer) (\<lambda>num.
       if index \<le> num then Inr None
       else (let start = unat (8 + index * 4); e = start + 4 in
         if length buffer < e then Inr None
         else Inr (Some (be32 (buffer ! start) (buffer ! (start + 1)) (buffer ! (start + 2))
                (buffer ! (start + 3))))))"

definition IgmpV3RecordPacket_auxiliary_data :: "u8 list \<Rightarrow> u8 list res" where
  "IgmpV3RecordPacket_auxiliary_data buffer =
     bindE (IgmpV3RecordPacket_source_number buffer) (\<lambda>num.
       let start = 8 + unat num * 4 in
       bindE (IgmpV3RecordPacket_aux_data_len buffer) (\<lambda>aux.
         let e = start + unat aux * 4 in
         if length buffer < e then Inr [] else slice buffer start e))"

definition IgmpV3ReportPacket_new :: "u8 list \<Rightarrow> u8 list res" where
  "IgmpV3ReportPacket_new buffer = (if length buffer < 8 then Inl (Io InvalidData '''') else Inr buffer)"

definition IgmpV3ReportPacket_igmp_type :: "u8 list \<Rightarrow> IgmpV3Type res" where
  "IgmpV3ReportPacket_igmp_type buffer = bindE (rd buffer 0) (\<lambda>b. Inr (IgmpV3Type_of_u8 b))"

definition IgmpV3ReportPacket_checksum :: "u8 list \<Rightarrow> u16 res" where
  "IgmpV3ReportPacket_checksum buffer = rd16 buffer 2"

definition IgmpV3ReportPacket_is_valid :: "bool \<Rightarrow> u8 list \<Rightarrow> bool res" where
  "IgmpV3ReportPacket_is_valid keeps_tail buffer =
     bindE (IgmpV3ReportPacket_checksum buffer) (\<lambda>c.
       if c = 0 then Inr True else bindE (cal_checksum keeps_tail buffer) (\<lambda>s. Inr (s = 0)))"

definition IgmpV3ReportPacket_record_number :: "u8 list \<Rightarrow> u16 res" where
  "IgmpV3ReportPacket_record_number buffer = rd16 buffer 6"

text \<open>
  The loop of \<open>group_records\<close>: \<open>n\<close> records to go, the next one at \<open>start\<close>. Both
  \<open>None\<close> returns of the source and the slice bounds are branches here.
\<close>

primrec read_records :: "u8 list \<Rightarrow> nat \<Rightarrow> nat \<Rightarrow> u8 list list \<Rightarrow> u8 list list option res" where
  "read_records buf 0 start acc = Inr (Some acc)"
| "read_records buf (Suc n) start acc =
     (if length buf \<le> start then Inr None
      else bindE (slice buf start (length buf)) (\<lambda>rest.
        (case IgmpV3RecordPacket_new rest of
           Inl _ \<Rightarrow> Inr None
         | Inr rc \<Rightarrow>
             bindE (IgmpV3RecordPacket_aux_data_len rc) (\<lambda>aux.
               bindE (IgmpV3RecordPacket_source_number rc) (\<lambda>num.
                 let e = start + 8 + unat aux * 4 + unat num * 4 in
                 if length buf < e then Inr None
                 else bindE (slice buf start e) (\<lambda>s.
                   (case IgmpV3RecordPacket_new s of
                      Inl _ \<Rightarrow> Inl Panic
                    | Inr r \<Rightarrow> read_records buf n e (acc @ [r]))))))))"

definition IgmpV3ReportPacket_group_records :: "u8 list \<Rightarrow> u8 list list option res" where
  "IgmpV3ReportPacket_group_records buffer =
     bindE (IgmpV3ReportPacket_record_number buffer) (\<lambda>num.
       if num = 0 then Inr None else read_records buffer (unat num) 8 [])"

interpretation igmp_seal: sealed_view k "cal_checksum k" "\<lambda>_. 0" 2 for k
  by unfold_locales simp

lemma igmp_update_seal:
  "IgmpV1Packet_update_checksum k b = igmp_seal.update k b"
  "IgmpV2Packet_update_checksum k b = igmp_seal.update k b"
  "IgmpV3QueryPacket_update_checksum k b = igmp_seal.update k b"
  by (simp_all add: IgmpV1Packet_update_checksum_def IgmpV1Packet_set_checksum_def
      IgmpV2Packet_update_checksum_def IgmpV2Packet_set_checksum_def
      IgmpV3QueryPacket_update_checksum_def IgmpV3QueryPacket_set_checksum_def igmp_seal.update_def)

lemma igmp_valid_seal:
  "IgmpV1Packet_is_valid k b = igmp_seal.verifies k b"
  "IgmpV2Packet_is_valid k b = igmp_seal.verifies k b"
  "IgmpV3QueryPacket_is_valid k b = igmp_seal.verifies k b"
  "IgmpV3ReportPacket_is_valid k b = igmp_seal.verifies k b"
  by (simp_all add: IgmpV1Packet_is_valid_def IgmpV1Packet_checksum_def
      IgmpV2Packet_is_valid_def IgmpV2Packet_checksum_def
      IgmpV3QueryPacket_is_valid_def IgmpV3QueryPacket_checksum_def
      IgmpV3ReportPacket_is_valid_def IgmpV3ReportPacket_checksum_def igmp_seal.verifies_def cong: if_cong)

section \<open>The loops\<close>

lemma read_sources_eq:
  "index \<le> num \<Longrightarrow> base + num * 4 \<le> length buf \<Longrightarrow>
   read_sources buf base num index acc = Some (acc @ map (\<lambda>i. be32 (buf ! (base + i * 4))
     (buf ! (base + i * 4 + 1)) (buf ! (base + i * 4 + 2)) (buf ! (base + i * 4 + 3))) [index..<num])"
proof (induction buf base num index acc rule: read_sources.induct)
  case (1 buf base num index acc)
  show ?case
  proof (cases "index < num")
    case True
    then have "base + index * 4 + 4 \<le> length buf" using 1(3) by simp
    with True 1 show ?thesis
      by (simp add: read_sources.simps[of buf base num index] Let_def upt_conv_Cons)
  qed (use 1 in \<open>simp add: read_sources.simps[of buf base num num]\<close>)
qed

lemma read_sources_None:
  "index < num \<Longrightarrow> length buf < base + num * 4 \<Longrightarrow> read_sources buf base num index acc = None"
proof (induction buf base num index acc rule: read_sources.induct)
  case (1 buf base num index acc)
  show ?case
  proof (cases "index + 1 = num")
    case True
    with 1(3) have "length buf < base + index * 4 + 4" by auto
    with 1(2) show ?thesis by (simp add: read_sources.simps[of buf base num index] Let_def)
  next
    case False
    with 1 show ?thesis by (simp add: read_sources.simps[of buf base num index] Let_def)
  qed
qed

text \<open>A record is as long as its own header announces.\<close>

definition igmp_record_ok :: "u8 list \<Rightarrow> bool" where
  "igmp_record_ok r \<longleftrightarrow> 8 \<le> length r \<and> length r = 8 + unat (r ! 1) * 4 + unat (be16 (r ! 2) (r ! 3)) * 4"

definition record_end :: "u8 list \<Rightarrow> nat \<Rightarrow> nat" where
  "record_end buf start =
     start + 8 + unat (buf ! (start + 1)) * 4 + unat (be16 (buf ! (start + 2)) (buf ! (start + 3))) * 4"

lemma read_records_Suc:
  "read_records buf (Suc n) start acc =
     (if length buf < start + 8 \<or> length buf < record_end buf start then Inr None
      else read_records buf n (record_end buf start)
        (acc @ [take (record_end buf start - start) (drop start buf)]))"
proof (cases "length buf < start + 8")
  case True
  then show ?thesis by (auto simp: slice_def IgmpV3RecordPacket_new_def)
next
  case False
  define rest where "rest = drop start buf"
  define e where "e = record_end buf start"
  define aux where "aux = buf ! (start + 1)"
  define num where "num = be16 (buf ! (start + 2)) (buf ! (start + 3))"
  have ee: "record_end buf start = e" "start + 8 + unat aux * 4 + unat num * 4 = e"
    by (simp_all add: e_def record_end_def aux_def num_def)
  have l: "8 \<le> length rest" "slice buf start (length buf) = Inr rest"
    using False by (auto simp: rest_def slice_def)
  have e8: "start + 8 \<le> e" by (simp add: e_def record_end_def)
  have "IgmpV3RecordPacket_new rest = Inr rest" using l by (simp add: IgmpV3RecordPacket_new_def)
  moreover have "IgmpV3RecordPacket_aux_data_len rest = Inr aux"
    "IgmpV3RecordPacket_source_number rest = Inr num"
    using l(1) False by (simp_all add: IgmpV3RecordPacket_aux_data_len_def
        IgmpV3RecordPacket_source_number_def rd_in rd16_in rest_def aux_def num_def)
  moreover have "slice buf start e = Inr (take (e - start) rest)"
    "IgmpV3RecordPacket_new (take (e - start) rest) = Inr (take (e - start) rest)" if "e \<le> length buf"
    using that e8 by (simp_all add: slice_def rest_def IgmpV3RecordPacket_new_def)
  ultimately show ?thesis
    using False by (simp add: l(2) ee not_less Let_def rest_def[symmetric])
qed

lemma read_records_is_Ok: "is_Ok (read_records buf n start acc)"
  by (induction n arbitrary: start acc) (simp, simp only: read_records_Suc, simp)

lemma read_records_tiles:
  assumes "read_records buf n start acc = Inr (Some rs)"
  shows "\<exists>new. rs = acc @ new \<and> length new = n \<and> (\<forall>r \<in> set new. igmp_record_ok r) \<and>
     (n \<noteq> 0 \<longrightarrow> start + length (concat new) \<le> length buf) \<and>
     take (length (concat new)) (drop start buf) = concat new"
  using assms
proof (induction n arbitrary: start acc)
  case (Suc n)
  define rest where "rest = drop start buf"
  define e where "e = record_end buf start"
  have e8: "start + 8 \<le> e" by (simp add: e_def record_end_def)
  have e: "e \<le> length buf" "read_records buf n e (acc @ [take (e - start) rest]) = Inr (Some rs)"
    using Suc.prems by (auto simp only: read_records_Suc e_def rest_def split: if_splits)
  obtain new where new: "rs = (acc @ [take (e - start) rest]) @ new" "length new = n"
    "\<forall>r\<in>set new. igmp_record_ok r" "n \<noteq> 0 \<longrightarrow> e + length (concat new) \<le> length buf"
    "take (length (concat new)) (drop e buf) = concat new"
    using Suc.IH[OF e(2)] by blast
  let ?r = "take (e - start) rest"
  have lr: "length ?r = e - start" "8 \<le> e - start" "start + length ?r = e"
    using e(1) e8 by (auto simp: rest_def)
  have "igmp_record_ok ?r"
    using lr e(1) by (simp add: igmp_record_ok_def rest_def) (simp add: e_def record_end_def)
  moreover have "take (length ?r + length (concat new)) rest = ?r @ concat new"
  proof -
    have "drop (e - start) rest = drop e buf" using e8 by (simp add: rest_def)
    then show ?thesis using new(5) lr(1) by (simp only: take_add)
  qed
  moreover have "start + (length ?r + length (concat new)) \<le> length buf"
    using new(2,4) lr e(1) by (cases "n = 0") auto
  ultimately show ?case using new by (intro exI[of _ "?r # new"]) (simp add: rest_def)
qed simp

section \<open>Properties\<close>

text \<open>
  When \<open>group_records\<close> returns records, they are as many as the report announces, each is
  as long as its own header says, and together they are a prefix of the buffer after the
  report header: no byte is skipped or read twice. On an accepted report the loop never panics.
\<close>

theorem igmp_group_records_tile:
  assumes "IgmpV3ReportPacket_new b = Inr p"
  shows "is_Ok (IgmpV3ReportPacket_group_records p) \<and>
    (\<forall>rs. IgmpV3ReportPacket_group_records p = Inr (Some rs) \<longrightarrow>
       IgmpV3ReportPacket_record_number p = Inr (of_nat (length rs)) \<and>
       (\<forall>r \<in> set rs. igmp_record_ok r) \<and> take (length (concat rs)) (drop 8 p) = concat rs)"
proof -
  have l: "8 \<le> length p" using assms(1) by (auto simp: IgmpV3ReportPacket_new_def split: if_splits)
  let ?num = "be16 (p ! 6) (p ! 7)"
  have n: "IgmpV3ReportPacket_record_number p = Inr ?num"
    using l by (simp add: IgmpV3ReportPacket_record_number_def rd16_in)
  have g: "IgmpV3ReportPacket_group_records p =
      (if ?num = 0 then Inr None else read_records p (unat ?num) 8 [])"
    by (simp add: IgmpV3ReportPacket_group_records_def n)
  show ?thesis
  proof (intro conjI allI impI ballI)
    show "is_Ok (IgmpV3ReportPacket_group_records p)" by (simp add: g read_records_is_Ok)
  next
    fix rs assume "IgmpV3ReportPacket_group_records p = Inr (Some rs)"
    then have "read_records p (unat ?num) 8 [] = Inr (Some rs)" by (simp add: g split: if_splits)
    from read_records_tiles[OF this] n
    show "IgmpV3ReportPacket_record_number p = Inr (of_nat (length rs))"
      "take (length (concat rs)) (drop 8 p) = concat rs"
      and "\<And>r. r \<in> set rs \<Longrightarrow> igmp_record_ok r" by auto
  qed
qed

definition igmp_sample :: "u8 list" where
  "igmp_sample = [0x22, 0, 0, 0, 0, 0, 0, 2, 4, 0, 0, 0, 224, 0, 0, 251, 3, 0, 0, 1, 239, 1, 1, 1, 10, 0, 0, 9]"

lemma igmp_group_records_tile_witness:
  "\<exists>rs. IgmpV3ReportPacket_group_records igmp_sample = Inr (Some rs) \<and> length rs = 2 \<and>
     (\<forall>r \<in> set rs. igmp_record_ok r)"
proof -
  have "IgmpV3ReportPacket_new igmp_sample = Inr igmp_sample"
    by (simp add: IgmpV3ReportPacket_new_def igmp_sample_def)
  moreover have "IgmpV3ReportPacket_group_records igmp_sample = Inr (Some [
      [4, 0, 0, 0, 224, 0, 0, 251], [3, 0, 0, 1, 239, 1, 1, 1, 10, 0, 0, 9]])" by code_simp
  ultimately show ?thesis using igmp_group_records_tile[of igmp_sample igmp_sample] by auto
qed

text \<open>
  \<open>source_addresses\<close> of an accepted query returns the announced addresses in order exactly
  when they all fit and there is at least one; but \<open>source_address\<close> has its guard reversed and
  returns \<open>None\<close> for every index of that list.
\<close>

theorem igmp_source_address_misses_every_index:
  assumes "IgmpV3QueryPacket_new b = Inr p" and "IgmpV3QueryPacket_source_number p = Inr num"
  shows "(IgmpV3QueryPacket_source_addresses p = Inr (Some as) \<longleftrightarrow>
      num \<noteq> 0 \<and> 12 + unat num * 4 \<le> length p \<and>
      as = map (\<lambda>i. be32 (p ! (12 + i * 4)) (p ! (12 + i * 4 + 1)) (p ! (12 + i * 4 + 2))
        (p ! (12 + i * 4 + 3))) [0..<unat num]) \<and>
    (index < num \<longrightarrow> IgmpV3QueryPacket_source_address p index = Inr None)"
proof -
  have "num \<noteq> 0 \<longleftrightarrow> 0 < unat num" by (simp add: unat_gt_0)
  then show ?thesis
    using assms(2) read_sources_eq[of 0 "unat num" 12 p "[]"] read_sources_None[of 0 "unat num" p 12 "[]"]
    by (cases "12 + unat num * 4 \<le> length p")
      (auto simp: IgmpV3QueryPacket_source_addresses_def IgmpV3QueryPacket_source_address_def)
qed

definition igmp_query_sample :: "u8 list" where
  "igmp_query_sample = [0x11, 0, 0, 0, 239, 1, 1, 1, 2, 60, 0, 1, 10, 0, 0, 9]"

lemma igmp_source_address_misses_witness:
  "IgmpV3QueryPacket_source_addresses igmp_query_sample = Inr (Some [Ipv4Addr_new 10 0 0 9]) \<and>
   IgmpV3QueryPacket_source_address igmp_query_sample 0 = Inr None"
proof -
  have n: "IgmpV3QueryPacket_new igmp_query_sample = Inr igmp_query_sample"
    by (simp add: IgmpV3QueryPacket_new_def igmp_query_sample_def)
  have m: "IgmpV3QueryPacket_source_number igmp_query_sample = Inr 1" by code_simp
  have a: "IgmpV3QueryPacket_source_addresses igmp_query_sample = Inr (Some [Ipv4Addr_new 10 0 0 9])"
    by code_simp
  from igmp_source_address_misses_every_index[OF n m, of "[Ipv4Addr_new 10 0 0 9]" 0] a show ?thesis by simp
qed

text \<open>
  The version 1 type field cannot be read back: the reader masks the byte with \<open>0x0F\<close> and then
  compares with \<open>0x11\<close> and \<open>0x12\<close>, so on every accepted packet the type is \<open>Unknown\<close>, also
  right after \<open>set_type\<close>; and \<open>set_type\<close> writes the high bit of its code into the
  version.
\<close>

theorem igmp_v1_type_unreadable:
  assumes "IgmpV1Packet_new b = Inr p"
  shows "IgmpV1Packet_igmp_type p = Inr (Ig1_Unknown (p ! 0 AND 0x0F)) \<and>
    (\<exists>q. IgmpV1Packet_set_type p Ig1_Query = Inr q \<and> IgmpV1Packet_igmp_type q = Inr (Ig1_Unknown 1) \<and>
       IgmpV1Packet_version q = Inr (drop_bit 4 (p ! 0) OR 1))"
proof -
  have l: "length p = 8" using assms by (auto simp: IgmpV1Packet_new_def split: if_splits)
  have m: "IgmpV1Type_of_u8 (v AND 0x0F) = Ig1_Unknown (v AND 0x0F)" for v :: u8
  proof -
    have "v AND 0x0F \<le> 0x0F" by (rule word_and_le1)
    then show ?thesis by (auto simp: IgmpV1Type_of_u8_def)
  qed
  have t: "((p ! 0 AND 0xF0) OR 0x11) AND 0x0F = 1"
    "drop_bit 4 ((p ! 0 AND 0xF0) OR 0x11) = drop_bit 4 (p ! 0) OR 1"
    by (simp_all add: u8_eq_bits bit_simps)
  have "IgmpV1Packet_set_type p Ig1_Query = Inr (p[0 := (p ! 0 AND 0xF0) OR 0x11])"
    using l by (simp add: IgmpV1Packet_set_type_def rd_def wr_def Let_def del: length_greater_0_conv)
  moreover have "IgmpV1Packet_igmp_type q = Inr (Ig1_Unknown (q ! 0 AND 0x0F))" if "length q = 8" for q
    using that m[of "q ! 0"] by (simp add: IgmpV1Packet_igmp_type_def rd_def del: length_greater_0_conv)
  moreover have "IgmpV1Packet_version q = Inr (drop_bit 4 (q ! 0))" if "length q = 8" for q
    using that by (simp add: IgmpV1Packet_version_def rd_def del: length_greater_0_conv)
  ultimately show ?thesis using l t by simp
qed

lemma igmp_v1_type_unreadable_witness:
  "IgmpV1Packet_igmp_type [0x11, 0, 0, 0, 224, 0, 0, 1] = Inr (Ig1_Unknown 1)"
  using igmp_v1_type_unreadable[of "[0x11, 0, 0, 0, 224, 0, 0, 1]" "[0x11, 0, 0, 0, 224, 0, 0, 1]"]
  by (simp add: IgmpV1Packet_new_def)

end
