(* ===== verification/Link_Packet.thy ===== *)
theory Link_Packet
  imports Vnt_Prelude
begin

text \<open>
  Link-layer views: Ethernet frames, \<^verbatim>\<open>packet/src/ethernet\<close>, and ARP,
  \<^verbatim>\<open>packet/src/arp/arp.rs\<close>.
\<close>

datatype EthProtocol =
  Eth_Ipv4 | Eth_Arp | Eth_WakeOnLan | Eth_Trill | Eth_DecNet | Eth_Rarp | Eth_AppleTalk
   | Eth_Aarp | Eth_Ipx | Eth_Qnx | Eth_Ipv6 | Eth_FlowControl | Eth_CobraNet | Eth_Mpls
   | Eth_MplsMulticast | Eth_PppoeDiscovery | Eth_PppoeSession | Eth_Vlan | Eth_PBridge
   | Eth_Lldp | Eth_Ptp | Eth_Cfm | Eth_QinQ | Eth_Unknown u16

definition EthProtocol_of_u16 :: "u16 \<Rightarrow> EthProtocol" where
  "EthProtocol_of_u16 value = (
     if value = 0x0800 then Eth_Ipv4 else if value = 0x0806 then Eth_Arp else
     if value = 0x0842 then Eth_WakeOnLan else if value = 0x22f3 then Eth_Trill else
     if value = 0x6003 then Eth_DecNet else if value = 0x8035 then Eth_Rarp else
     if value = 0x809b then Eth_AppleTalk else if value = 0x80f3 then Eth_Aarp else
     if value = 0x8137 then Eth_Ipx else if value = 0x8204 then Eth_Qnx else
     if value = 0x86dd then Eth_Ipv6 else if value = 0x8808 then Eth_FlowControl else
     if value = 0x8819 then Eth_CobraNet else if value = 0x8847 then Eth_Mpls else
     if value = 0x8848 then Eth_MplsMulticast else if value = 0x8863 then Eth_PppoeDiscovery else
     if value = 0x8864 then Eth_PppoeSession else if value = 0x8100 then Eth_Vlan else
     if value = 0x88a8 then Eth_PBridge else if value = 0x88cc then Eth_Lldp else
     if value = 0x88f7 then Eth_Ptp else if value = 0x8902 then Eth_Cfm else
     if value = 0x9100 then Eth_QinQ else
     Eth_Unknown value)"

primrec EthProtocol_to_u16 :: "EthProtocol \<Rightarrow> u16" where
  "EthProtocol_to_u16 Eth_Ipv4 = 0x0800"
| "EthProtocol_to_u16 Eth_Arp = 0x0806"
| "EthProtocol_to_u16 Eth_WakeOnLan = 0x0842"
| "EthProtocol_to_u16 Eth_Trill = 0x22f3"
| "EthProtocol_to_u16 Eth_DecNet = 0x6003"
| "EthProtocol_to_u16 Eth_Rarp = 0x8035"
| "EthProtocol_to_u16 Eth_AppleTalk = 0x809b"
| "EthProtocol_to_u16 Eth_Aarp = 0x80f3"
| "EthProtocol_to_u16 Eth_Ipx = 0x8137"
| "EthProtocol_to_u16 Eth_Qnx = 0x8204"
| "EthProtocol_to_u16 Eth_Ipv6 = 0x86dd"
| "EthProtocol_to_u16 Eth_FlowControl = 0x8808"
| "EthProtocol_to_u16 Eth_CobraNet = 0x8819"
| "EthProtocol_to_u16 Eth_Mpls = 0x8847"
| "EthProtocol_to_u16 Eth_MplsMulticast = 0x8848"
| "EthProtocol_to_u16 Eth_PppoeDiscovery = 0x8863"
| "EthProtocol_to_u16 Eth_PppoeSession = 0x8864"
| "EthProtocol_to_u16 Eth_Vlan = 0x8100"
| "EthProtocol_to_u16 Eth_PBridge = 0x88a8"
| "EthProtocol_to_u16 Eth_Lldp = 0x88cc"
| "EthProtocol_to_u16 Eth_Ptp = 0x88f7"
| "EthProtocol_to_u16 Eth_Cfm = 0x8902"
| "EthProtocol_to_u16 Eth_QinQ = 0x9100"
| "EthProtocol_to_u16 (Eth_Unknown v) = v"

interpretation EthProtocol_code: wire_code EthProtocol_of_u16 EthProtocol_to_u16
  by unfold_locales
    (unfold EthProtocol_of_u16_def, (intro wire_code_step[of EthProtocol_to_u16]), (rule EthProtocol_to_u16.simps)+)

section \<open>Ethernet frames\<close>

definition EthernetPacket_new :: "u8 list \<Rightarrow> u8 list res" where
  "EthernetPacket_new buffer = (if length buffer < 14 then Inl (Io InvalidData '''') else Inr buffer)"

definition EthernetPacket_destination :: "u8 list \<Rightarrow> u8 list res" where
  "EthernetPacket_destination buffer = slice buffer 0 6"

definition EthernetPacket_source :: "u8 list \<Rightarrow> u8 list res" where
  "EthernetPacket_source buffer = slice buffer 6 12"

definition EthernetPacket_protocol :: "u8 list \<Rightarrow> EthProtocol res" where
  "EthernetPacket_protocol buffer = bindE (rd16 buffer 12) (\<lambda>w. Inr (EthProtocol_of_u16 w))"

definition EthernetPacket_payload :: "u8 list \<Rightarrow> u8 list res" where
  "EthernetPacket_payload buffer = slice buffer 14 (length buffer)"

definition EthernetPacket_set_destination :: "u8 list \<Rightarrow> u8 list \<Rightarrow> u8 list res" where
  "EthernetPacket_set_destination buffer v = copy_range buffer 0 6 v"

definition EthernetPacket_set_source :: "u8 list \<Rightarrow> u8 list \<Rightarrow> u8 list res" where
  "EthernetPacket_set_source buffer v = copy_range buffer 6 12 v"

definition EthernetPacket_set_protocol :: "u8 list \<Rightarrow> EthProtocol \<Rightarrow> u8 list res" where
  "EthernetPacket_set_protocol buffer v = copy_range buffer 12 14 (be16_bytes (EthProtocol_to_u16 v))"

section \<open>ARP\<close>

definition ArpPacket_new :: "u8 list \<Rightarrow> u8 list res" where
  "ArpPacket_new buffer = (if length buffer \<noteq> 28 then Inl (Io InvalidData '''') else Inr buffer)"

definition ArpPacket_hardware_type :: "u8 list \<Rightarrow> u16 res" where
  "ArpPacket_hardware_type buffer = rd16 buffer 0"

definition ArpPacket_protocol_type :: "u8 list \<Rightarrow> u16 res" where
  "ArpPacket_protocol_type buffer = rd16 buffer 2"

definition ArpPacket_hardware_size :: "u8 list \<Rightarrow> u8 res" where
  "ArpPacket_hardware_size buffer = rd buffer 4"

definition ArpPacket_protocol_size :: "u8 list \<Rightarrow> u8 res" where
  "ArpPacket_protocol_size buffer = rd buffer 5"

definition ArpPacket_op_code :: "u8 list \<Rightarrow> u16 res" where
  "ArpPacket_op_code buffer = rd16 buffer 6"

definition ArpPacket_sender_hardware_addr :: "u8 list \<Rightarrow> u8 list res" where
  "ArpPacket_sender_hardware_addr buffer = slice buffer 8 14"

definition ArpPacket_sender_protocol_addr :: "u8 list \<Rightarrow> u8 list res" where
  "ArpPacket_sender_protocol_addr buffer = slice buffer 14 18"

definition ArpPacket_target_hardware_addr :: "u8 list \<Rightarrow> u8 list res" where
  "ArpPacket_target_hardware_addr buffer = slice buffer 18 24"

definition ArpPacket_target_protocol_addr :: "u8 list \<Rightarrow> u8 list res" where
  "ArpPacket_target_protocol_addr buffer = slice buffer 24 28"

definition ArpPacket_set_hardware_type :: "u8 list \<Rightarrow> u16 \<Rightarrow> u8 list res" where
  "ArpPacket_set_hardware_type buffer v = wr16 buffer 0 v"

definition ArpPacket_set_protocol_type :: "u8 list \<Rightarrow> u16 \<Rightarrow> u8 list res" where
  "ArpPacket_set_protocol_type buffer v = wr16 buffer 2 v"

definition ArpPacket_set_hardware_size :: "u8 list \<Rightarrow> u8 \<Rightarrow> u8 list res" where
  "ArpPacket_set_hardware_size buffer v = wr buffer 4 v"

definition ArpPacket_set_protocol_size :: "u8 list \<Rightarrow> u8 \<Rightarrow> u8 list res" where
  "ArpPacket_set_protocol_size buffer v = wr buffer 5 v"

definition ArpPacket_set_op_code :: "u8 list \<Rightarrow> u16 \<Rightarrow> u8 list res" where
  "ArpPacket_set_op_code buffer v = wr16 buffer 6 v"

definition ArpPacket_set_sender_hardware_addr :: "u8 list \<Rightarrow> u8 list \<Rightarrow> u8 list res" where
  "ArpPacket_set_sender_hardware_addr buffer buf = copy_range buffer 8 14 buf"

definition ArpPacket_set_sender_protocol_addr :: "u8 list \<Rightarrow> u8 list \<Rightarrow> u8 list res" where
  "ArpPacket_set_sender_protocol_addr buffer buf = copy_range buffer 14 18 buf"

definition ArpPacket_set_target_hardware_addr :: "u8 list \<Rightarrow> u8 list \<Rightarrow> u8 list res" where
  "ArpPacket_set_target_hardware_addr buffer buf = copy_range buffer 18 24 buf"

definition ArpPacket_set_target_protocol_addr :: "u8 list \<Rightarrow> u8 list \<Rightarrow> u8 list res" where
  "ArpPacket_set_target_protocol_addr buffer buf = copy_range buffer 24 28 buf"

text \<open>The address fields of a well-formed ARP packet tile its last 20 bytes.\<close>

lemma arp_fields_tile:
  "length b = 28 \<Longrightarrow>
   \<exists>h s t u. ArpPacket_sender_hardware_addr b = Inr h \<and> ArpPacket_sender_protocol_addr b = Inr s \<and>
     ArpPacket_target_hardware_addr b = Inr t \<and> ArpPacket_target_protocol_addr b = Inr u \<and>
     b = take 8 b @ h @ s @ t @ u"
proof -
  assume l: "length b = 28"
  have d: "drop 8 b = take 6 (drop 8 b) @ take 4 (drop 14 b) @ take 6 (drop 18 b) @ take 4 (drop 24 b)"
  proof -
    have "drop n b = take m (drop n b) @ drop (n + m) b" for n m
      by (metis append_take_drop_id drop_drop add.commute)
    from this[of 8 6] this[of 14 4] this[of 18 6] l show ?thesis by simp
  qed
  have "b = take 8 b @ drop 8 b" by simp
  with d have "b = take 8 b @ take 6 (drop 8 b) @ take 4 (drop 14 b) @ take 6 (drop 18 b) @ take 4 (drop 24 b)"
    by metis
  with l show ?thesis
    by (simp add: ArpPacket_sender_hardware_addr_def ArpPacket_sender_protocol_addr_def
        ArpPacket_target_hardware_addr_def ArpPacket_target_protocol_addr_def slice_in)
qed

end
