(* ===== verification/Effects.thy ===== *)
theory Effects
  imports Vnt_Prelude
begin

text \<open>
  Handlers change shared state and may fail in the middle. A command takes the state and
  returns a result or an error together with the state so far; an error skips the rest
  (Rust's \<open>?\<close>) but keeps what was done before. \<open>keeps P m\<close> says that \<open>m\<close> preserves \<open>P\<close> on every
  path, errors included; the rules in \<open>keeps_intros\<close> reduce it to the state changes of a handler.
\<close>

named_theorems keeps_intros \<open>preservation of a state predicate, by the structure of a command\<close>

type_synonym ('s, 'a) cmd = "'s \<Rightarrow> 'a res \<times> 's"

definition retS :: "'a \<Rightarrow> ('s, 'a) cmd" where
  "retS x s = (Inr x, s)"

definition failS :: "err \<Rightarrow> ('s, 'a) cmd" where
  "failS e s = (Inl e, s)"

definition liftE :: "'a res \<Rightarrow> ('s, 'a) cmd" where
  "liftE r s = (r, s)"

definition getS :: "('s \<Rightarrow> 'a) \<Rightarrow> ('s, 'a) cmd" where
  "getS f s = (Inr (f s), s)"

definition modS :: "('s \<Rightarrow> 's) \<Rightarrow> ('s, unit) cmd" where
  "modS g s = (Inr (), g s)"

definition bindS :: "('s, 'a) cmd \<Rightarrow> ('a \<Rightarrow> ('s, 'b) cmd) \<Rightarrow> ('s, 'b) cmd" where
  "bindS m f s = (case m s of (Inl e, s') \<Rightarrow> (Inl e, s') | (Inr x, s') \<Rightarrow> f x s')"

text \<open>\<open>thenS\<close> sequences two commands, \<open>catchS\<close> runs a handler on an error.\<close>

definition thenS :: "('s, 'a) cmd \<Rightarrow> ('s, 'b) cmd \<Rightarrow> ('s, 'b) cmd" where
  "thenS m n = bindS m (\<lambda>_. n)"

definition catchS :: "('s, 'a) cmd \<Rightarrow> (err \<Rightarrow> ('s, 'a) cmd) \<Rightarrow> ('s, 'a) cmd" where
  "catchS m h s = (case m s of (Inl e, s') \<Rightarrow> h e s' | (Inr x, s') \<Rightarrow> (Inr x, s'))"

text \<open>A state update whose value is the result, as \<open>add_route\<close>.\<close>

definition updS :: "('s \<Rightarrow> 'a \<times> 's) \<Rightarrow> ('s, 'a) cmd" where
  "updS f s = (case f s of (x, s') \<Rightarrow> (Inr x, s'))"

section \<open>Laws\<close>

lemma run_simps [simp]:
  "retS x s = (Inr x, s)" "failS e s = (Inl e, s)" "liftE r s = (r, s)"
  "getS f s = (Inr (f s), s)" "modS g s = (Inr (), g s)"
  by (simp_all add: retS_def failS_def liftE_def getS_def modS_def)

lemma updS_run [simp]: "updS f s = (Inr (fst (f s)), snd (f s))"
  by (simp add: updS_def split: prod.splits)

lemma bindS_run:
  "m s = (Inr x, s') \<Longrightarrow> bindS m f s = f x s'"
  "m s = (Inl e, s') \<Longrightarrow> bindS m f s = (Inl e, s')"
  by (simp_all add: bindS_def)

lemma bindS_basic [simp]:
  "bindS (retS x) f = f x" "bindS (failS e) f = failS e" "bindS (liftE (Inr x)) f = f x"
  "bindS (liftE (Inl e)) f = failS e"
  "bindS (getS g) f s = f (g s) s" "bindS (modS h) f' s = f' () (h s)"
  "bindS (updS u) k s = k (fst (u s)) (snd (u s))"
  by (rule ext, simp add: bindS_def)+ (simp_all add: bindS_def)

lemma bindS_assoc: "bindS (bindS m f) g = bindS m (\<lambda>x. bindS (f x) g)"
  by (rule ext) (simp add: bindS_def split: prod.splits sum.splits)

lemma thenS_run [simp]: "thenS (modS h) n s = n (h s)" "thenS (retS x) n = n" "thenS (failS e) n = failS e"
  by (simp_all add: thenS_def)

lemma thenS_eq: "thenS m n s = (case m s of (Inl e, s') \<Rightarrow> (Inl e, s') | (Inr x, s') \<Rightarrow> n s')"
  by (simp add: thenS_def bindS_def)

section \<open>Preservation\<close>

definition keeps :: "('s \<Rightarrow> bool) \<Rightarrow> ('s, 'a) cmd \<Rightarrow> bool" where
  "keeps P m \<longleftrightarrow> (\<forall>s. P s \<longrightarrow> P (snd (m s)))"

lemma keepsD: "keeps P m \<Longrightarrow> P s \<Longrightarrow> m s = (r, s') \<Longrightarrow> P s'"
  by (auto simp: keeps_def dest: spec[of _ s])

lemma keeps_basic [keeps_intros]:
  "keeps P (retS x)" "keeps P (failS e)" "keeps P (liftE r)" "keeps P (getS f)"
  by (simp_all add: keeps_def)

text \<open>The simplifier eta-contracts \<open>retS x\<close> to this.\<close>

lemma keeps_Pair [keeps_intros]: "keeps P (Pair r)"
  by (simp add: keeps_def)

lemma keeps_modS: "(\<And>s. P s \<Longrightarrow> P (g s)) \<Longrightarrow> keeps P (modS g)"
  by (simp add: keeps_def)

lemma keeps_updS: "(\<And>s. P s \<Longrightarrow> P (snd (f s))) \<Longrightarrow> keeps P (updS f)"
  by (simp add: keeps_def)

lemma keeps_bindS [keeps_intros]: "keeps P m \<Longrightarrow> (\<And>x. keeps P (f x)) \<Longrightarrow> keeps P (bindS m f)"
  by (fastforce simp: keeps_def bindS_def split: prod.splits sum.splits)

lemma keeps_thenS [keeps_intros]: "keeps P m \<Longrightarrow> keeps P n \<Longrightarrow> keeps P (thenS m n)"
  by (simp add: thenS_def keeps_bindS)

lemma keeps_catchS [keeps_intros]: "keeps P m \<Longrightarrow> (\<And>e. keeps P (h e)) \<Longrightarrow> keeps P (catchS m h)"
  by (fastforce simp: keeps_def catchS_def split: prod.splits sum.splits)

lemma keeps_if [keeps_intros]: "(b \<Longrightarrow> keeps P m) \<Longrightarrow> (\<not> b \<Longrightarrow> keeps P n) \<Longrightarrow> keeps P (if b then m else n)"
  by simp

lemma keeps_option [keeps_intros]:
  "(x = None \<Longrightarrow> keeps P m) \<Longrightarrow> (\<And>y. x = Some y \<Longrightarrow> keeps P (f y)) \<Longrightarrow>
   keeps P (case x of None \<Rightarrow> m | Some y \<Rightarrow> f y)"
  by (simp split: option.splits)

lemma keeps_prod [keeps_intros]: "(\<And>a b. keeps P (f a b)) \<Longrightarrow> keeps P (case x of (a, b) \<Rightarrow> f a b)"
  by (simp split: prod.splits)

lemma keeps_conj: "keeps P m \<Longrightarrow> keeps Q m \<Longrightarrow> keeps (\<lambda>s. P s \<and> Q s) m"
  by (simp add: keeps_def)

section \<open>Loops and caught errors\<close>

text \<open>A \<open>for\<close> loop that an error ends, and \<open>let rs = m\<close>: an error becomes a value, a panic does not.\<close>

primrec forS :: "('x \<Rightarrow> ('s, unit) cmd) \<Rightarrow> 'x list \<Rightarrow> ('s, unit) cmd" where
  "forS f [] = retS ()"
| "forS f (x # xs) = thenS (f x) (forS f xs)"

definition tryS :: "('s, 'a) cmd \<Rightarrow> ('s, 'a res) cmd" where
  "tryS m s = (case m s of
     (Inl e, s') \<Rightarrow> if e = Panic then (Inl Panic, s') else (Inr (Inl e), s')
   | (Inr x, s') \<Rightarrow> (Inr (Inr x), s'))"

text \<open>\<open>let _ = m\<close> and \<open>if let Err(e) = m { log }\<close>.\<close>

definition ignoreS :: "('s, 'a) cmd \<Rightarrow> ('s, unit) cmd" where
  "ignoreS m = bindS (tryS m) (\<lambda>_. retS ())"

definition whenS :: "bool \<Rightarrow> ('s, unit) cmd \<Rightarrow> ('s, unit) cmd" where
  "whenS b m = (if b then m else retS ())"

lemma tryS_basic [simp]:
  "tryS (retS x) = retS (Inr x)" "e \<noteq> Panic \<Longrightarrow> tryS (failS e) = retS (Inl e)" "tryS (failS Panic) = failS Panic"
  by (rule ext, simp add: tryS_def)+

section \<open>Pre- and postconditions\<close>

text \<open>
  \<open>triple P m Q\<close>: from a state with \<open>P\<close>, a result \<open>x\<close> comes with \<open>Q x\<close>, an error is not a
  panic and comes with \<open>E\<close>. The rules in \<open>triple_intros\<close> take the postcondition as given and
  follow the structure of the command, so that only the loops need an invariant.
\<close>

definition triple :: "('s \<Rightarrow> bool) \<Rightarrow> ('s, 'a) cmd \<Rightarrow> ('a \<Rightarrow> 's \<Rightarrow> bool) \<Rightarrow> ('s \<Rightarrow> bool) \<Rightarrow> bool" where
  "triple P m Q E \<longleftrightarrow> (\<forall>s. P s \<longrightarrow> (case m s of (Inr x, s') \<Rightarrow> Q x s' | (Inl e, s') \<Rightarrow> e \<noteq> Panic \<and> E s'))"

named_theorems triple_intros \<open>pre- and postconditions, by the structure of a command\<close>

lemma tripleD: "triple P m Q E \<Longrightarrow> P s \<Longrightarrow> m s = (Inr x, s') \<Longrightarrow> Q x s'"
  "triple P m Q E \<Longrightarrow> P s \<Longrightarrow> m s = (Inl e, s') \<Longrightarrow> e \<noteq> Panic \<and> E s'"
  by (fastforce simp: triple_def dest: spec[of _ s])+

lemma triple_run:
  "triple P m (\<lambda>_. I) I \<Longrightarrow> P s \<Longrightarrow> case m s of (r, s') \<Rightarrow> r \<noteq> Inl Panic \<and> I s'"
  using tripleD[of P m "\<lambda>_. I" I s] by (cases "m s"; cases "fst (m s)") auto

lemma triple_conseq:
  "triple P m Q E \<Longrightarrow> (\<And>s. P' s \<Longrightarrow> P s) \<Longrightarrow> (\<And>x s. Q x s \<Longrightarrow> Q' x s) \<Longrightarrow> (\<And>s. E s \<Longrightarrow> E' s) \<Longrightarrow> triple P' m Q' E'"
  by (fastforce simp: triple_def split: prod.splits sum.splits)

lemma triple_pre: "triple P m Q E \<Longrightarrow> (\<And>s. P' s \<Longrightarrow> P s) \<Longrightarrow> triple P' m Q E"
  by (simp add: triple_def)

text \<open>What the precondition says of values may be assumed.\<close>

lemma triple_fact: "(\<And>s. P s \<Longrightarrow> \<phi>) \<Longrightarrow> (\<phi> \<Longrightarrow> triple P m Q E) \<Longrightarrow> triple P m Q E"
  by (auto simp: triple_def)

lemma triple_retS [triple_intros]: "(\<And>s. P s \<Longrightarrow> Q x s) \<Longrightarrow> triple P (retS x) Q E"
  by (simp add: triple_def)

lemma triple_Pair [triple_intros]: "(\<And>s. P s \<Longrightarrow> Q x s) \<Longrightarrow> triple P (Pair (Inr x)) Q E"
  by (simp add: triple_def)

lemma triple_getS [triple_intros]: "(\<And>s. P s \<Longrightarrow> Q (f s) s) \<Longrightarrow> triple P (getS f) Q E"
  by (simp add: triple_def)

lemma triple_modS [triple_intros]: "(\<And>s. P s \<Longrightarrow> Q () (g s)) \<Longrightarrow> triple P (modS g) Q E"
  by (simp add: triple_def)

lemma triple_failS [triple_intros]: "e \<noteq> Panic \<Longrightarrow> (\<And>s. P s \<Longrightarrow> E s) \<Longrightarrow> triple P (failS e) Q E"
  by (simp add: triple_def)

lemma triple_liftE:
  "(\<And>s. P s \<Longrightarrow> case r of Inr x \<Rightarrow> Q x s | Inl e \<Rightarrow> e \<noteq> Panic \<and> E s) \<Longrightarrow> triple P (liftE r) Q E"
  by (auto simp: triple_def split: sum.splits)

lemma triple_bindS: "triple P m R E \<Longrightarrow> (\<And>x. triple (R x) (f x) Q E) \<Longrightarrow> triple P (bindS m f) Q E"
  by (fastforce simp: triple_def bindS_def split: prod.splits sum.splits)

lemma triple_thenS: "triple P m (\<lambda>_. R) E \<Longrightarrow> triple R n Q E \<Longrightarrow> triple P (thenS m n) Q E"
  by (simp add: thenS_def triple_bindS)

lemma triple_get_bind [triple_intros]:
  "(\<And>v. triple (\<lambda>s. P s \<and> v = g s) (f v) Q E) \<Longrightarrow> triple P (bindS (getS g) f) Q E"
  by (simp add: triple_def)

lemma triple_if [triple_intros]:
  "(b \<Longrightarrow> triple P m Q E) \<Longrightarrow> (\<not> b \<Longrightarrow> triple P n Q E) \<Longrightarrow> triple P (if b then m else n) Q E"
  by simp

lemma triple_whenS [triple_intros]:
  "(b \<Longrightarrow> triple P m Q E) \<Longrightarrow> (\<And>s. \<not> b \<Longrightarrow> P s \<Longrightarrow> Q () s) \<Longrightarrow> triple P (whenS b m) Q E"
  by (auto simp: whenS_def triple_def)

lemma triple_option [triple_intros]:
  "(x = None \<Longrightarrow> triple P m Q E) \<Longrightarrow> (\<And>y. x = Some y \<Longrightarrow> triple P (f y) Q E) \<Longrightarrow>
   triple P (case x of None \<Rightarrow> m | Some y \<Rightarrow> f y) Q E"
  by (simp split: option.splits)

lemma triple_prod [triple_intros]: "(\<And>a b. x = (a, b) \<Longrightarrow> triple P (f a b) Q E) \<Longrightarrow> triple P (case x of (a, b) \<Rightarrow> f a b) Q E"
  by (simp split: prod.splits)

lemma triple_tryS: "triple P m (\<lambda>x. Q (Inr x)) R \<Longrightarrow> (\<And>e s. R s \<Longrightarrow> Q (Inl e) s) \<Longrightarrow> triple P (tryS m) Q E"
  by (fastforce simp: triple_def tryS_def split: prod.splits sum.splits)

lemma triple_ignoreS: "triple P m (\<lambda>_. R) R \<Longrightarrow> triple P (ignoreS m) (\<lambda>_. R) E"
  unfolding ignoreS_def by (rule triple_bindS[OF triple_tryS[where Q = "\<lambda>_. R"]]) (auto intro: triple_retS)

lemma triple_catchS:
  assumes "triple P m Q R" "\<And>e. e \<noteq> Panic \<Longrightarrow> triple R (h e) Q E"
  shows "triple P (catchS m h) Q E"
  unfolding triple_def
proof (intro allI impI)
  fix s assume P: "P s"
  obtain r s' where m: "m s = (r, s')" by (cases "m s")
  show "case catchS m h s of (Inr x, s') \<Rightarrow> Q x s' | (Inl e, s') \<Rightarrow> e \<noteq> Panic \<and> E s'"
  proof (cases r)
    case (Inl e)
    with tripleD(2)[OF assms(1) P] m have "e \<noteq> Panic" "R s'" by auto
    with assms(2)[of e] Inl m show ?thesis by (simp add: triple_def catchS_def)
  next
    case (Inr x)
    with tripleD(1)[OF assms(1) P] m show ?thesis by (simp add: catchS_def)
  qed
qed

lemma triple_forS: "(\<And>x. x \<in> set xs \<Longrightarrow> triple P (f x) (\<lambda>_. P) E) \<Longrightarrow> triple P (forS f xs) (\<lambda>_. P) E"
  by (induction xs) (auto intro!: triple_thenS triple_retS)

lemma keeps_tryS [keeps_intros]: "keeps P m \<Longrightarrow> keeps P (tryS m)"
  by (fastforce simp: keeps_def tryS_def split: prod.splits sum.splits)

lemma keeps_ignoreS [keeps_intros]: "keeps P m \<Longrightarrow> keeps P (ignoreS m)"
  by (simp add: ignoreS_def keeps_intros)

lemma keeps_whenS [keeps_intros]: "(b \<Longrightarrow> keeps P m) \<Longrightarrow> keeps P (whenS b m)"
  by (auto simp: whenS_def keeps_def)

lemma keeps_forS [keeps_intros]: "(\<And>x. x \<in> set xs \<Longrightarrow> keeps P (f x)) \<Longrightarrow> keeps P (forS f xs)"
  by (induction xs) (auto intro!: keeps_intros)

lemma keeps_sum [keeps_intros]:
  "(\<And>e. x = Inl e \<Longrightarrow> keeps P (f e)) \<Longrightarrow> (\<And>y. x = Inr y \<Longrightarrow> keeps P (g y)) \<Longrightarrow>
   keeps P (case x of Inl e \<Rightarrow> f e | Inr y \<Rightarrow> g y)"
  by (simp split: sum.splits)

end
