(* ===== verification/Traffic_Limits.thy ===== *)
theory Traffic_Limits
  imports Vnt_Prelude "HOL-Library.AList"
begin

text \<open>
  Counters and limits: \<^verbatim>\<open>util/limit/rate_limiter.rs\<close>, \<^verbatim>\<open>util/limit/traffic_meter.rs\<close>,
  \<^verbatim>\<open>util/counter/adder.rs\<close>. The mutex of the concurrent versions makes each operation one
  step, so they are the plain operations. Instants are nanoseconds since some origin; an
  operation that reads the clock takes \<open>now\<close>. \<open>usize\<close> and \<open>u64\<close> are 64-bit words, which wrap.
\<close>

section \<open>Token bucket\<close>

record RateLimiter =
  rl_capacity :: u64
  rl_tokens :: u64
  rl_refill_rate :: u64
  rl_last_refill :: nat

definition NANOS :: nat where "NANOS = 1000000000"

definition RateLimiter_new :: "nat \<Rightarrow> u64 \<Rightarrow> u64 \<Rightarrow> RateLimiter" where
  "RateLimiter_new now capacity refill_rate =
     \<lparr>rl_capacity = capacity, rl_tokens = capacity, rl_refill_rate = refill_rate, rl_last_refill = now\<rparr>"

text \<open>\<open>duration_since\<close> saturates at zero; \<open>elapsed * refill_rate\<close> and the sum wrap.\<close>

definition refill :: "nat \<Rightarrow> RateLimiter \<Rightarrow> RateLimiter" where
  "refill now r =
     (let elapsed = of_nat ((now - rl_last_refill r) div NANOS) :: u64;
          new_tokens = elapsed * rl_refill_rate r in
      if new_tokens > 0 then
        r\<lparr>rl_tokens := min (rl_capacity r) (rl_tokens r + new_tokens), rl_last_refill := now\<rparr>
      else r)"

definition try_acquire :: "nat \<Rightarrow> RateLimiter \<Rightarrow> bool \<times> RateLimiter" where
  "try_acquire now r0 =
     (let r = refill now r0 in
      if rl_tokens r > 0 then (True, r\<lparr>rl_tokens := rl_tokens r - 1\<rparr>) else (False, r))"

section \<open>Traffic meter\<close>

record TrafficMeter =
  tm_start_time :: nat
  tm_total :: u64
  tm_count :: u64
  tm_history_capacity :: nat
  tm_history :: "u64 list"

definition TrafficMeter_new :: "nat \<Rightarrow> nat \<Rightarrow> TrafficMeter" where
  "TrafficMeter_new now history_capacity =
     \<lparr>tm_start_time = now, tm_total = 0, tm_count = 0, tm_history_capacity = history_capacity, tm_history = []\<rparr>"

text \<open>\<open>elapsed\<close> and the later \<open>Instant::now()\<close> read the clock once each.\<close>

definition check_time :: "nat \<Rightarrow> nat \<Rightarrow> TrafficMeter \<Rightarrow> TrafficMeter" where
  "check_time now now' m =
     (if now - tm_start_time m \<ge> NANOS then
        (let h = (if length (tm_history m) \<ge> tm_history_capacity m then tl (tm_history m) else tm_history m) in
         m\<lparr>tm_history := h @ [tm_count m], tm_count := 0, tm_start_time := now'\<rparr>)
      else m)"

definition TrafficMeter_add_traffic :: "nat \<Rightarrow> nat \<Rightarrow> u64 \<Rightarrow> TrafficMeter \<Rightarrow> TrafficMeter" where
  "TrafficMeter_add_traffic now now' amount m =
     check_time now now' (m\<lparr>tm_total := tm_total m + amount, tm_count := tm_count m + amount\<rparr>)"

definition TrafficMeter_get_history :: "TrafficMeter \<Rightarrow> u64 list" where
  "TrafficMeter_get_history m = tm_history m"

section \<open>One meter per address\<close>

record TrafficMeterMultiAddress =
  mm_history_capacity :: nat
  mm_total :: u64
  mm_meters :: "(ipv4 \<times> TrafficMeter) list"

definition TrafficMeterMultiAddress_new :: "nat \<Rightarrow> TrafficMeterMultiAddress" where
  "TrafficMeterMultiAddress_new history_capacity =
     \<lparr>mm_history_capacity = history_capacity, mm_total = 0, mm_meters = []\<rparr>"

definition TrafficMeterMultiAddress_default :: TrafficMeterMultiAddress where
  "TrafficMeterMultiAddress_default = TrafficMeterMultiAddress_new 100"

definition meter_at :: "nat \<Rightarrow> TrafficMeterMultiAddress \<Rightarrow> ipv4 \<Rightarrow> TrafficMeter" where
  "meter_at now m ip = (case map_of (mm_meters m) ip of
     Some t \<Rightarrow> t | None \<Rightarrow> TrafficMeter_new now (mm_history_capacity m))"

text \<open>\<open>or_insert(TrafficMeter::new(..))\<close> evaluates its argument first: the first clock reading.\<close>

definition add_traffic :: "nat \<Rightarrow> nat \<Rightarrow> nat \<Rightarrow> ipv4 \<Rightarrow> u64 \<Rightarrow> TrafficMeterMultiAddress \<Rightarrow> TrafficMeterMultiAddress" where
  "add_traffic now0 now now' ip amount m =
     m\<lparr>mm_total := mm_total m + amount,
       mm_meters := AList.update ip (TrafficMeter_add_traffic now now' amount (meter_at now0 m ip)) (mm_meters m)\<rparr>"

definition meters_get_all :: "TrafficMeterMultiAddress \<Rightarrow> u64 \<times> (ipv4 \<times> u64) list" where
  "meters_get_all m = (mm_total m, map (\<lambda>(ip, t). (ip, tm_total t)) (mm_meters m))"

definition meters_get_all_history :: "TrafficMeterMultiAddress \<Rightarrow> u64 \<times> (ipv4 \<times> u64 \<times> u64 list) list" where
  "meters_get_all_history m =
     (mm_total m, map (\<lambda>(ip, t). (ip, tm_total t, TrafficMeter_get_history t)) (mm_meters m))"

definition meters_get_history :: "TrafficMeterMultiAddress \<Rightarrow> ipv4 \<Rightarrow> (u64 \<times> u64 list) option" where
  "meters_get_history m ip =
     map_option (\<lambda>t. (tm_total t, TrafficMeter_get_history t)) (map_of (mm_meters m) ip)"

section \<open>Counter\<close>

definition U64Adder_add :: "u64 \<Rightarrow> u64 \<Rightarrow> u64" where
  "U64Adder_add count num = count + num"

section \<open>The bucket never grants more than it holds\<close>

fun acquires :: "nat list \<Rightarrow> RateLimiter \<Rightarrow> nat \<times> RateLimiter" where
  "acquires [] r = (0, r)"
| "acquires (now # ts) r =
     (let (ok, r1) = try_acquire now r; (n, r2) = acquires ts r1 in (if ok then Suc n else n, r2))"

definition rl_inv :: "RateLimiter \<Rightarrow> bool" where
  "rl_inv r \<longleftrightarrow> rl_tokens r \<le> rl_capacity r"

lemma refill_params [simp]:
  "rl_capacity (refill now r) = rl_capacity r" "rl_refill_rate (refill now r) = rl_refill_rate r"
  by (simp_all add: refill_def Let_def)

lemma refill_inv: "rl_inv r \<Longrightarrow> rl_inv (refill now r)"
  by (simp add: refill_def rl_inv_def Let_def)

lemma word_pred_le: "0 < (x::u64) \<Longrightarrow> unat (x - 1) = unat x - 1"
  by (simp add: unat_minus_one word_gt_0)

lemma unat_plus_le: "unat (x + y) \<le> unat x + unat (y::u64)"
  by (simp add: unat_word_ariths)

lemma unat_mult_le: "unat (x * y) \<le> unat x * unat (y::u64)"
  by (simp add: unat_word_ariths)

lemma unat_of_nat_le: "unat (of_nat n :: u64) \<le> n"
  by (simp add: unat_of_nat)

text \<open>Whole seconds granted between two instants never exceed the time between them.\<close>

definition credit :: "RateLimiter \<Rightarrow> nat \<Rightarrow> nat" where
  "credit r now = (now - rl_last_refill r) div NANOS * unat (rl_refill_rate r)"

lemma refill_tokens_le: "unat (rl_tokens (refill now r)) \<le> unat (rl_tokens r) + credit r now"
proof -
  let ?e = "(now - rl_last_refill r) div NANOS"
  have "unat (rl_tokens r + of_nat ?e * rl_refill_rate r) \<le> unat (rl_tokens r) + ?e * unat (rl_refill_rate r)"
    by (rule order_trans[OF unat_plus_le]) (intro add_left_mono order_trans[OF unat_mult_le] mult_right_mono unat_of_nat_le, simp)
  moreover have "unat (min a b) \<le> unat b" for a b :: u64 by (simp add: min_def word_le_nat_alt)
  ultimately show ?thesis
    unfolding refill_def credit_def Let_def using le_trans by fastforce
qed

lemma refill_last: "rl_last_refill (refill now r) = now \<or> refill now r = r"
  by (simp add: refill_def Let_def)

lemma try_acquire_step:
  assumes "try_acquire now r = (ok, r')"
  shows "(if ok then Suc 0 else 0) + unat (rl_tokens r') = unat (rl_tokens (refill now r)) \<and>
    rl_refill_rate r' = rl_refill_rate r \<and> rl_capacity r' = rl_capacity r \<and>
    rl_last_refill r' = rl_last_refill (refill now r) \<and> (ok \<longleftrightarrow> 0 < rl_tokens (refill now r))"
  using assms by (auto simp: try_acquire_def Let_def word_pred_le word_gt_0 unat_gt_0 split: if_splits)

lemma credit_split:
  assumes "a \<le> b" "b \<le> c"
  shows "(b - a) div NANOS + (c - b) div NANOS \<le> (c - a) div (NANOS::nat)"
proof -
  have "(c - a) = (b - a) + (c - b)" using assms by simp
  then show ?thesis using div_add1_eq[of "b - a" "c - b" NANOS] by simp
qed

lemma acquires_bound:
  assumes "acquires ts r = (n, r')" "sorted (rl_last_refill r # ts)" "\<forall>t \<in> set ts. t \<le> T" "rl_last_refill r \<le> T"
  shows "n + unat (rl_tokens r') \<le> unat (rl_tokens r) + credit r T"
  using assms
proof (induction ts arbitrary: r n)
  case (Cons now ts)
  obtain ok r1 m where a: "try_acquire now r = (ok, r1)" "acquires ts r1 = (m, r')" "n = (if ok then Suc m else m)"
    using Cons.prems(1) by (auto simp: Let_def split: prod.splits if_splits)
  note st = try_acquire_step[OF a(1)]
  let ?q = "unat (rl_refill_rate r)"
  have l: "rl_last_refill r \<le> rl_last_refill r1 \<and> rl_last_refill r1 \<le> now"
    using refill_last[of now r] st Cons.prems(2) by auto
  have "m + unat (rl_tokens r') \<le> unat (rl_tokens r1) + credit r1 T"
  proof (rule Cons.IH[OF a(2)])
    show "sorted (rl_last_refill r1 # ts)" using Cons.prems(2) l by (auto intro: order_trans)
  qed (use Cons.prems l in auto)
  then have n: "n + unat (rl_tokens r') \<le> unat (rl_tokens (refill now r)) + credit r1 T"
    using a(3) st by (auto split: if_splits)
  have "unat (rl_tokens (refill now r)) + credit r1 T \<le> unat (rl_tokens r) + credit r T"
  proof (cases "refill now r = r")
    case True
    then show ?thesis using st by (simp add: credit_def)
  next
    case False
    then have "rl_last_refill r1 = now" using refill_last[of now r] st by auto
    then have "credit r now + credit r1 T \<le> credit r T"
      using credit_split[of "rl_last_refill r" now T] Cons.prems(2,3) st
      by (simp add: credit_def flip: add_mult_distrib)
    with refill_tokens_le[of now r] show ?thesis by linarith
  qed
  with n show ?case by linarith
qed simp

lemma acquires_burst: "rl_last_refill r = now \<Longrightarrow> fst (acquires (replicate k now) r) = min k (unat (rl_tokens r))"
proof (induction k arbitrary: r)
  case (Suc k)
  obtain ok r1 where a: "try_acquire now r = (ok, r1)" by fastforce
  have "refill now r = r" using Suc.prems by (simp add: refill_def)
  with try_acquire_step[OF a] Suc.prems Suc.IH[of r1] a show ?case
    by (auto simp: split_beta word_gt_0 unat_eq_0)
qed simp

section \<open>Properties\<close>



section \<open>The meters account for all traffic\<close>

text \<open>One call of \<open>add_traffic\<close>: its three clock readings, the address and the amount.\<close>

type_synonym traffic = "(nat \<times> nat \<times> nat) \<times> ipv4 \<times> u64"

definition meter_step :: "TrafficMeterMultiAddress \<Rightarrow> traffic \<Rightarrow> TrafficMeterMultiAddress" where
  "meter_step m = (\<lambda>((now0, now, now'), ip, amount). add_traffic now0 now now' ip amount m)"

definition tm_inv :: "TrafficMeter \<Rightarrow> bool" where
  "tm_inv t \<longleftrightarrow> length (tm_history t) \<le> max 1 (tm_history_capacity t)"

definition mm_inv :: "TrafficMeterMultiAddress \<Rightarrow> bool" where
  "mm_inv m \<longleftrightarrow> distinct (map fst (mm_meters m)) \<and> (\<forall>(ip, t) \<in> set (mm_meters m).
     tm_inv t \<and> tm_history_capacity t = mm_history_capacity m)"

lemma add_traffic_tm:
  "tm_total (TrafficMeter_add_traffic now now' a t) = tm_total t + a"
  "tm_history_capacity (TrafficMeter_add_traffic now now' a t) = tm_history_capacity t"
  "tm_inv t \<Longrightarrow> tm_inv (TrafficMeter_add_traffic now now' a t)"
  by (auto simp: TrafficMeter_add_traffic_def check_time_def tm_inv_def Let_def)

lemma tm_new [simp]: "tm_inv (TrafficMeter_new now c)" "tm_history_capacity (TrafficMeter_new now c) = c"
  "tm_total (TrafficMeter_new now c) = 0"
  by (simp_all add: TrafficMeter_new_def tm_inv_def)

lemma set_update_subset: "set (AList.update k v al) \<subseteq> insert (k, v) (set al)"
  by (induction al) auto

definition addr_total :: "TrafficMeterMultiAddress \<Rightarrow> ipv4 \<Rightarrow> u64" where
  "addr_total m ip = (case map_of (mm_meters m) ip of Some t \<Rightarrow> tm_total t | None \<Rightarrow> 0)"

lemma add_traffic_step:
  assumes "mm_inv m"
  shows "mm_inv (meter_step m e) \<and> mm_total (meter_step m e) = mm_total m + snd (snd e) \<and>
    addr_total (meter_step m e) ip = addr_total m ip + (if fst (snd e) = ip then snd (snd e) else 0) \<and>
    mm_history_capacity (meter_step m e) = mm_history_capacity m"
proof -
  obtain a b c i x where e: "e = ((a, b, c), i, x)" by (metis prod.collapse)
  let ?t = "TrafficMeter_add_traffic b c x (meter_at a m i)"
  have t: "tm_inv (meter_at a m i) \<and> tm_history_capacity (meter_at a m i) = mm_history_capacity m"
    using assms map_of_SomeD[of "mm_meters m" i]
    by (fastforce simp: meter_at_def mm_inv_def split: option.splits)
  have "set (AList.update i ?t (mm_meters m)) \<subseteq> insert (i, ?t) (set (mm_meters m))"
    by (rule set_update_subset)
  then have "mm_inv (meter_step m e)"
    using assms t by (auto simp: mm_inv_def meter_step_def e add_traffic_def add_traffic_tm distinct_update)
  moreover have "addr_total (meter_step m e) ip = addr_total m ip + (if i = ip then x else 0)"
    by (auto simp: addr_total_def meter_step_def e add_traffic_def update_conv' add_traffic_tm meter_at_def
        split: option.splits)
  ultimately show ?thesis by (simp add: e meter_step_def add_traffic_def)
qed

text \<open>
  After any sequence of \<open>add_traffic\<close> calls, at whatever clock readings: the grand total is
  the (64-bit wrapping) sum of all amounts, the total of each address is the sum of its own
  amounts, every address has one meter, and no history is longer than the configured capacity,
  or one entry when the capacity is 0.
\<close>

theorem traffic_meters_account:
  "let m = foldl meter_step (TrafficMeterMultiAddress_new cap) es in
     mm_inv m \<and> mm_history_capacity m = cap \<and> mm_total m = sum_list (map (\<lambda>e. snd (snd e)) es) \<and>
     addr_total m ip = sum_list (map (\<lambda>e. snd (snd e)) (filter (\<lambda>e. fst (snd e) = ip) es))"
proof (induction es rule: rev_induct)
  case Nil
  then show ?case by (simp add: TrafficMeterMultiAddress_new_def mm_inv_def addr_total_def)
next
  case (snoc e es)
  then show ?case using add_traffic_step[of "foldl meter_step (TrafficMeterMultiAddress_new cap) es" e ip]
    by (simp add: Let_def)
qed

end
