(* ===== verification/Nat_Info.thy ===== *)
theory Nat_Info
  imports Vnt_Prelude
begin

text \<open>
  What a peer knows about its position behind a NAT: address classes and the local test state of
  \<^verbatim>\<open>vnt/src/nat/mod.rs\<close>, \<open>NatInfo\<close> and the punch model of \<^verbatim>\<open>vnt/src/channel/punch.rs\<close>,
  and the STUN evaluation of \<^verbatim>\<open>vnt/src/nat/stun.rs\<close>. Sockets, name resolution and the
  STUN message format are parameters: their results are arguments.
\<close>

section \<open>Address classes\<close>

definition oct :: "ipv4 \<Rightarrow> nat \<Rightarrow> u8" where
  "oct ip i = octets ip ! i"

definition is_link_local :: "ipv4 \<Rightarrow> bool" where
  "is_link_local ip = (oct ip 0 = 169 \<and> oct ip 1 = 254)"

definition is_documentation :: "ipv4 \<Rightarrow> bool" where
  "is_documentation ip =
     (oct ip 0 = 192 \<and> oct ip 1 = 0 \<and> oct ip 2 = 2 \<or>
      oct ip 0 = 198 \<and> oct ip 1 = 51 \<and> oct ip 2 = 100 \<or>
      oct ip 0 = 203 \<and> oct ip 1 = 0 \<and> oct ip 2 = 113)"

definition is_ipv4_global :: "ipv4 \<Rightarrow> bool" where
  "is_ipv4_global ip =
     (\<not> (oct ip 0 = 0
       \<or> is_private ip
       \<or> oct ip 0 = 100 \<and> oct ip 1 AND 0xC0 = 0x40
       \<or> is_loopback ip
       \<or> is_link_local ip
       \<or> (oct ip 0 = 192 \<and> oct ip 1 = 0 \<and> oct ip 2 = 0 \<and> oct ip 3 \<noteq> 9 \<and> oct ip 3 \<noteq> 10)
       \<or> is_documentation ip
       \<or> oct ip 0 = 198 \<and> oct ip 1 AND 0xFE = 18
       \<or> oct ip 0 AND 240 = 240 \<and> \<not> is_broadcast ip
       \<or> is_broadcast ip))"

definition seg :: "ipv6 \<Rightarrow> nat \<Rightarrow> u16" where
  "seg ip i = ucast (drop_bit (16 * (7 - i)) ip)"

definition is_unspecified6 :: "ipv6 \<Rightarrow> bool" where "is_unspecified6 ip = (ip = 0)"
definition is_loopback6 :: "ipv6 \<Rightarrow> bool" where "is_loopback6 ip = (ip = 1)"
definition is_multicast6 :: "ipv6 \<Rightarrow> bool" where "is_multicast6 ip = (drop_bit 120 ip = 0xFF)"

definition is_ipv6_global :: "ipv6 \<Rightarrow> bool" where
  "is_ipv6_global ip =
     (\<not> (is_unspecified6 ip
       \<or> is_loopback6 ip
       \<or> seg ip 0 = 0 \<and> seg ip 1 = 0 \<and> seg ip 2 = 0 \<and> seg ip 3 = 0 \<and> seg ip 4 = 0 \<and> seg ip 5 = 0xFFFF
       \<or> seg ip 0 = 0x64 \<and> seg ip 1 = 0xFF9B \<and> seg ip 2 = 1
       \<or> seg ip 0 = 0x100 \<and> seg ip 1 = 0 \<and> seg ip 2 = 0 \<and> seg ip 3 = 0
       \<or> (seg ip 0 = 0x2001 \<and> seg ip 1 < 0x200 \<and>
          \<not> (ip = 0x20010001000000000000000000000001
            \<or> ip = 0x20010001000000000000000000000002
            \<or> seg ip 0 = 0x2001 \<and> seg ip 1 = 3
            \<or> seg ip 0 = 0x2001 \<and> seg ip 1 = 4 \<and> seg ip 2 = 0x112
            \<or> seg ip 0 = 0x2001 \<and> seg ip 1 \<ge> 0x20 \<and> seg ip 1 \<le> 0x2F))
       \<or> seg ip 0 = 0x2001 \<and> seg ip 1 = 0xDB8
       \<or> seg ip 0 AND 0xFE00 = 0xFC00
       \<or> seg ip 0 AND 0xFFC0 = 0xFE80))"

text \<open>The local address is read off a connected socket; \<open>probe\<close> is what that yields.\<close>

definition local_ipv4 :: "(ipv4 + ipv6) res \<Rightarrow> ipv4 option" where
  "local_ipv4 probe = (case probe of
     Inr (Inl ip) \<Rightarrow> Some ip | Inr (Inr _) \<Rightarrow> Some Ipv4_UNSPECIFIED | Inl _ \<Rightarrow> None)"

definition local_ipv6 :: "(ipv4 + ipv6) res \<Rightarrow> ipv6 option" where
  "local_ipv6 probe = (case probe of
     Inr (Inr ip) \<Rightarrow> if is_ipv6_global ip then Some ip else None
   | Inr (Inl _) \<Rightarrow> if is_ipv6_global 0 then Some 0 else None
   | Inl _ \<Rightarrow> None)"

section \<open>Punch models and NAT information\<close>

datatype PunchModel = PM_IPv4 | PM_IPv6 | PM_IPv4Tcp | PM_IPv4Udp | PM_IPv6Tcp | PM_IPv6Udp | PM_All

definition PunchModel_use_tcp :: "PunchModel \<Rightarrow> bool" where
  "PunchModel_use_tcp m = (m \<noteq> PM_IPv4Udp \<and> m \<noteq> PM_IPv6Udp)"

definition PunchModel_use_udp :: "PunchModel \<Rightarrow> bool" where
  "PunchModel_use_udp m = (m \<noteq> PM_IPv4Tcp \<and> m \<noteq> PM_IPv6Tcp)"

definition PunchModel_use_ipv6 :: "PunchModel \<Rightarrow> bool" where
  "PunchModel_use_ipv6 m = (m = PM_All \<or> m = PM_IPv6 \<or> m = PM_IPv6Tcp \<or> m = PM_IPv6Udp)"

definition PunchModel_use_ipv4 :: "PunchModel \<Rightarrow> bool" where
  "PunchModel_use_ipv4 m = (m = PM_All \<or> m = PM_IPv4 \<or> m = PM_IPv4Tcp \<or> m = PM_IPv4Udp)"

datatype NatType = Symmetric | Cone

record NatInfo =
  ni_public_ips :: "ipv4 list"
  ni_public_ports :: "u16 list"
  ni_public_port_range :: u16
  ni_nat_type :: NatType
  ni_local_ipv4 :: "ipv4 option"
  ni_ipv6 :: "ipv6 option"
  ni_udp_ports :: "u16 list"
  ni_tcp_port :: u16

definition usable_public :: "ipv4 \<Rightarrow> bool" where
  "usable_public ip = (\<not> is_multicast ip \<and> \<not> is_broadcast ip \<and> \<not> is_unspecified ip \<and>
     \<not> is_loopback ip \<and> \<not> is_private ip)"

definition NatInfo_new ::
    "ipv4 list \<Rightarrow> u16 list \<Rightarrow> u16 \<Rightarrow> ipv4 option \<Rightarrow> ipv6 option \<Rightarrow> u16 list \<Rightarrow> u16 \<Rightarrow> NatType \<Rightarrow> NatInfo" where
  "NatInfo_new public_ips0 public_ports public_port_range local_ip ipv6 udp_ports tcp_port nat_type =
     (let public_ips = filter usable_public public_ips0 in
      \<lparr>ni_public_ips = public_ips, ni_public_ports = public_ports, ni_public_port_range = public_port_range,
       ni_nat_type = (if length public_ips > 1 then Symmetric else nat_type),
       ni_local_ipv4 = (case local_ip of None \<Rightarrow> None | Some ip \<Rightarrow>
          if is_multicast ip \<or> is_broadcast ip \<or> is_unspecified ip \<or> is_loopback ip then None else Some ip),
       ni_ipv6 = (case ipv6 of None \<Rightarrow> None | Some ip \<Rightarrow>
          if is_multicast6 ip \<or> is_unspecified6 ip \<or> is_loopback6 ip then None else Some ip),
       ni_udp_ports = udp_ports, ni_tcp_port = tcp_port\<rparr>)"

definition NatInfo_update_addr :: "NatInfo \<Rightarrow> nat \<Rightarrow> ipv4 \<Rightarrow> u16 \<Rightarrow> bool \<times> NatInfo" where
  "NatInfo_update_addr n index ip port =
     (let (updated, n) =
        (if port \<noteq> 0 \<and> index < length (ni_public_ports n) then
           (ni_public_ports n ! index \<noteq> port, n\<lparr>ni_public_ports := (ni_public_ports n)[index := port]\<rparr>)
         else (False, n)) in
      if is_ipv4_global ip \<and> ip \<notin> set (ni_public_ips n) then (True, n\<lparr>ni_public_ips := ni_public_ips n @ [ip]\<rparr>)
      else (updated, n))"

definition local_udp_ipv4addr :: "NatInfo \<Rightarrow> nat \<Rightarrow> socket_addr option" where
  "local_udp_ipv4addr n index =
     (let len = length (ni_udp_ports n) in
      if len = 0 then None
      else map_option (\<lambda>ip. SockV4 ip (ni_udp_ports n ! (index mod len))) (ni_local_ipv4 n))"

definition local_udp_ipv6addr :: "NatInfo \<Rightarrow> nat \<Rightarrow> socket_addr option" where
  "local_udp_ipv6addr n index =
     (let len = length (ni_udp_ports n) in
      if len = 0 then None
      else map_option (\<lambda>ip. SockV6 ip (ni_udp_ports n ! (index mod len)) 0 0) (ni_ipv6 n))"

definition local_tcp_ipv6addr :: "NatInfo \<Rightarrow> socket_addr option" where
  "local_tcp_ipv6addr n =
     (if ni_tcp_port n = 0 then None else map_option (\<lambda>ip. SockV6 ip (ni_tcp_port n) 0 0) (ni_ipv6 n))"

definition local_tcp_ipv4addr :: "NatInfo \<Rightarrow> socket_addr option" where
  "local_tcp_ipv4addr n =
     (if ni_tcp_port n = 0 then None else map_option (\<lambda>ip. SockV4 ip (ni_tcp_port n)) (ni_local_ipv4 n))"

section \<open>The local test state\<close>

record NatTest =
  nt_stun_server :: "string list"
  nt_info :: NatInfo
  nt_time :: nat
  nt_udp_ports :: "u16 list"
  nt_tcp_port :: u16
  nt_update_local_ipv4 :: bool

text \<open>\<open>checked_sub\<close> of 100 s, or now itself near the start of the clock.\<close>

definition NatTest_new ::
    "nat \<Rightarrow> string list \<Rightarrow> ipv4 option \<Rightarrow> ipv6 option \<Rightarrow> u16 list \<Rightarrow> u16 \<Rightarrow> bool \<Rightarrow> NatTest" where
  "NatTest_new now stun_server local_ip ipv6 udp_ports tcp_port update_local_ipv4 =
     \<lparr>nt_stun_server = stun_server,
      nt_info = NatInfo_new [] (replicate (length udp_ports) 0) 0 local_ip ipv6 udp_ports tcp_port Cone,
      nt_time = (if now \<ge> 100 * 1000000000 then now - 100 * 1000000000 else now),
      nt_udp_ports = udp_ports, nt_tcp_port = tcp_port, nt_update_local_ipv4 = update_local_ipv4\<rparr>"

definition NatTest_can_update :: "nat \<Rightarrow> NatTest \<Rightarrow> bool \<times> NatTest" where
  "NatTest_can_update now t =
     (if now - nt_time t > 10 * 1000000000 then (True, t\<lparr>nt_time := now\<rparr>) else (False, t))"

definition is_local_udp :: "NatTest \<Rightarrow> ipv4 \<Rightarrow> u16 \<Rightarrow> bool" where
  "is_local_udp t ip port = (port \<in> set (nt_udp_ports t) \<and> ni_local_ipv4 (nt_info t) = Some ip)"

definition is_local_tcp :: "NatTest \<Rightarrow> ipv4 \<Rightarrow> u16 \<Rightarrow> bool" where
  "is_local_tcp t ip port = (nt_tcp_port t = port \<and> ni_local_ipv4 (nt_info t) = Some ip)"

definition is_local_address :: "NatTest \<Rightarrow> bool \<Rightarrow> socket_addr \<Rightarrow> bool" where
  "is_local_address t is_tcp addr =
     (let check_ip = (case addr of
            SockV4 ip _ \<Rightarrow> ni_local_ipv4 (nt_info t) = Some ip
          | SockV6 ip _ _ _ \<Rightarrow> ni_ipv6 (nt_info t) = Some ip) in
      if is_tcp then nt_tcp_port t = sa_port addr \<and> check_ip
      else sa_port addr \<in> set (nt_udp_ports t) \<and> check_ip)"

definition NatTest_update_addr :: "NatTest \<Rightarrow> nat \<Rightarrow> ipv4 \<Rightarrow> u16 \<Rightarrow> bool \<times> NatTest" where
  "NatTest_update_addr t index ip port =
     (let (updated, info) = NatInfo_update_addr (nt_info t) index ip port in (updated, t\<lparr>nt_info := info\<rparr>))"

text \<open>\<open>probe\<close> is the result of the STUN test on the chosen servers.\<close>

definition re_test ::
    "NatTest \<Rightarrow> (NatType \<times> ipv4 list \<times> u16) res \<Rightarrow> ipv4 option \<Rightarrow> ipv6 option \<Rightarrow> NatInfo res \<times> NatTest" where
  "re_test t probe local_ip ipv6 = (case probe of
     Inl e \<Rightarrow> (Inl e, t)
   | Inr (nat_type, public_ips, port_range) \<Rightarrow>
       if public_ips = [] then (Inl (Anyhow ''public_ips.is_empty''), t)
       else
         (let info = (nt_info t)\<lparr>ni_nat_type := nat_type, ni_public_ips := public_ips,
                ni_public_port_range := port_range,
                ni_local_ipv4 := (if local_ip \<noteq> None then local_ip else ni_local_ipv4 (nt_info t)),
                ni_ipv6 := ipv6\<rparr> in
          (Inr info, t\<lparr>nt_info := info\<rparr>)))"

text \<open>
  A STUN response is accepted from a configured server only. \<open>resolve\<close> is the name
  resolution, \<open>parse\<close> is \<open>recv_stun_response\<close>; \<open>v6_to_v4\<close> the standard library's
  \<open>to_ipv4\<close>. The first failing resolution ends the search with an error, which is logged.
\<close>

fun stun_source :: "(string \<Rightarrow> socket_addr list res) \<Rightarrow> ipv4 \<Rightarrow> u16 \<Rightarrow> string list \<Rightarrow> bool res" where
  "stun_source resolve ip port [] = Inr False"
| "stun_source resolve ip port (server # servers) =
     bindE (resolve server) (\<lambda>addrs.
       if \<exists>x \<in> set addrs. port = sa_port x \<and> (\<exists>q. x = SockV4 ip q) then Inr True
       else stun_source resolve ip port servers)"

definition recv_data_inner ::
    "(string \<Rightarrow> socket_addr list res) \<Rightarrow> (ipv6 \<Rightarrow> ipv4 option) \<Rightarrow> NatTest \<Rightarrow> nat \<Rightarrow> socket_addr \<Rightarrow> socket_addr \<Rightarrow> unit res \<times> NatTest" where
  "recv_data_inner resolve v6_to_v4 t index source_addr addr = (case addr of
     SockV6 _ _ _ _ \<Rightarrow> (Inr (), t)
   | SockV4 ip port \<Rightarrow>
       (case (case source_addr of SockV4 s _ \<Rightarrow> Some s | SockV6 s _ _ _ \<Rightarrow> v6_to_v4 s) of
          None \<Rightarrow> (Inr (), t)
        | Some source_ip \<Rightarrow>
            (case stun_source resolve source_ip (sa_port source_addr) (nt_stun_server t) of
               Inl e \<Rightarrow> (Inl e, t)
             | Inr found \<Rightarrow>
                 if found \<and> is_ipv4_global ip then (Inr (), snd (NatTest_update_addr t index ip port))
                 else (Inr (), t))))"

definition recv_data ::
    "(string \<Rightarrow> socket_addr list res) \<Rightarrow> (ipv6 \<Rightarrow> ipv4 option) \<Rightarrow> (u8 list \<Rightarrow> socket_addr option) \<Rightarrow>
     NatTest \<Rightarrow> nat \<Rightarrow> socket_addr \<Rightarrow> u8 list \<Rightarrow> bool res \<times> NatTest" where
  "recv_data resolve v6_to_v4 parse t index source_addr buf =
     (case bindE (rd buf 0) (\<lambda>a. bindE (rd buf 1) (\<lambda>b. Inr (a = 1 \<and> b = 1))) of
        Inl e \<Rightarrow> (Inl e, t)
      | Inr False \<Rightarrow> (Inr False, t)
      | Inr True \<Rightarrow> (case parse buf of
            None \<Rightarrow> (Inr True, t)
          | Some addr \<Rightarrow> (Inr True, snd (recv_data_inner resolve v6_to_v4 t index source_addr addr))))"

section \<open>Evaluating STUN replies\<close>

datatype stun_attr = MappedAddress socket_addr | ChangedAddress socket_addr | XorMappedAddress socket_addr | OtherAttr

definition STUN_TAG :: "128 word" where "STUN_TAG = push_bit 64 1827549368"

fun first_mapped :: "stun_attr list \<Rightarrow> socket_addr option" where
  "first_mapped [] = None"
| "first_mapped (MappedAddress a # xs) = Some a"
| "first_mapped (XorMappedAddress a # xs) = Some a"
| "first_mapped (_ # xs) = first_mapped xs"

text \<open>A message is its transaction id, when it has one, and its attributes.\<close>

definition recv_stun_response :: "128 word option \<times> stun_attr list \<Rightarrow> socket_addr option" where
  "recv_stun_response msg = (case msg of
     (Some tid, attrs) \<Rightarrow> if tid AND STUN_TAG \<noteq> STUN_TAG then None else first_mapped attrs
   | (None, attrs) \<Rightarrow> first_mapped attrs)"

text \<open>The attributes of one reply: stop as soon as both addresses are known.\<close>

fun scan_attrs :: "socket_addr option \<Rightarrow> socket_addr option \<Rightarrow> stun_attr list \<Rightarrow> socket_addr option \<times> socket_addr option" where
  "scan_attrs mapped changed [] = (mapped, changed)"
| "scan_attrs mapped changed (x # xs) =
     (let mapped' = (case x of
            MappedAddress a \<Rightarrow> if mapped = None then Some a else mapped
          | XorMappedAddress a \<Rightarrow> if mapped = None then Some a else mapped
          | _ \<Rightarrow> mapped);
          changed' = (case x of ChangedAddress a \<Rightarrow> if changed = None then Some a else changed | _ \<Rightarrow> changed) in
      if changed' \<noteq> None \<and> mapped' \<noteq> None then (mapped', changed')
      else scan_attrs mapped' changed' xs)"

text \<open>At most two attempts: each sends (which may fail) and then receives a reply or times out.\<close>

fun test_nat_probe :: "(unit res \<times> stun_attr list option) list \<Rightarrow> (socket_addr \<times> socket_addr option) res" where
  "test_nat_probe [] = Inl (Io OtherKind ''stun response err'')"
| "test_nat_probe ((sent, reply) # rest) = bindE sent (\<lambda>_.
     (case reply of
        None \<Rightarrow> test_nat_probe rest
      | Some attrs \<Rightarrow> (case scan_attrs None None attrs of
            (Some addr, changed) \<Rightarrow> Inr (addr, changed)
          | (None, _) \<Rightarrow> test_nat_probe rest)))"

text \<open>
  One server: a first probe, and a second one at the changed address when the server named one and the
  socket can be connected to it. \<open>replies1\<close> and \<open>replies2\<close> are the two attempts of each.
\<close>

definition test_nat ::
    "unit res \<Rightarrow> (unit res \<times> stun_attr list option) list \<Rightarrow> (socket_addr \<Rightarrow> bool) \<Rightarrow>
     (unit res \<times> stun_attr list option) list \<Rightarrow> socket_addr list res" where
  "test_nat connect replies1 connectable replies2 =
     bindE connect (\<lambda>_. bindE (test_nat_probe (take 2 replies1)) (\<lambda>(mapped_addr1, changed_addr1).
       let addr = (if sa_is_ipv4 mapped_addr1 then [mapped_addr1] else []) in
       (case changed_addr1 of
          None \<Rightarrow> Inr addr
        | Some changed \<Rightarrow>
            if connectable changed then
              (case test_nat_probe (take 2 replies2) of
                 Inr (mapped_addr2, _) \<Rightarrow>
                   if sa_is_ipv4 mapped_addr2 then Inr (List.insert mapped_addr1 addr) else Inr addr
               | Inl _ \<Rightarrow> Inr addr)
            else Inr addr)))"

definition stun_test_nat0 :: "unit res \<Rightarrow> socket_addr list res list \<Rightarrow> (NatType \<times> ipv4 list \<times> u16) res" where
  "stun_test_nat0 bind_udp servers =
     bindE bind_udp (\<lambda>_.
       let pub_addrs = foldl (\<lambda>acc r. case r of Inr addr \<Rightarrow> List.union acc addr | Inl _ \<Rightarrow> acc) [] servers;
           nat_type = (if length pub_addrs > 1 then Symmetric else Cone);
           v4 = filter sa_is_ipv4 pub_addrs;
           ips = remdups (map sa_ip4 v4);
           min_port = foldl min 0xFFFF (map sa_port v4);
           max_port = foldl max 0 (map sa_port v4) in
       if ips = [] then Inr (nat_type, [], 0) else Inr (nat_type, ips, max_port - min_port))"

text \<open>Two rounds; a failed round is logged.\<close>

definition stun_test_nat :: "(NatType \<times> ipv4 list \<times> u16) res list \<Rightarrow> NatType \<times> ipv4 list \<times> u16" where
  "stun_test_nat rounds =
     foldl (\<lambda>(nat_type, ips, port_range) r. case r of
         Inl _ \<Rightarrow> (nat_type, ips, port_range)
       | Inr (nat_type_t, ip_list_t, port_range_t) \<Rightarrow>
           (if nat_type_t = Symmetric then Symmetric else nat_type, List.union ips ip_list_t,
            if port_range < port_range_t then port_range_t else port_range))
       (Cone, [], 0) (take 2 rounds)"

text \<open>The STUN request goes to one of the configured servers; none at all panics in \<open>gen_range(0..0)\<close>.\<close>

definition send_data :: "(nat \<Rightarrow> nat) \<Rightarrow> (string \<Rightarrow> socket_addr list res) \<Rightarrow> u8 list \<Rightarrow> NatTest \<Rightarrow> (u8 list \<times> socket_addr) res" where
  "send_data gen_range resolve request t =
     (let len = length (nt_stun_server t) in
      bindE (if len = 1 then rd (nt_stun_server t) 0
             else if len = 0 then Inl Panic
             else rd (nt_stun_server t) (gen_range len)) (\<lambda>server.
      bindE (resolve server) (\<lambda>addrs. case addrs of
        [] \<Rightarrow> Inl (Anyhow ''stun error'') | addr # _ \<Rightarrow> Inr (request, addr))))"

section \<open>Properties\<close>

lemma test_nat_single:
  "test_nat connect r1 connectable r2 = Inr addrs \<Longrightarrow> length addrs \<le> 1"
  by (auto simp: test_nat_def bindE_Inr_iff Let_def List.insert_def split: prod.splits option.splits if_splits sum.splits)

lemma union_Nil_single: "length addrs \<le> 1 \<Longrightarrow> List.union [] addrs = addrs"
  by (cases addrs) (auto simp: List.union_def List.insert_def)

text \<open>
  The STUN test of one server never reports a symmetric NAT, however much the address mapped
  at the server's second address differs from the first: \<open>test_nat\<close> inserts the first mapped address again
  where the second one is meant, so only different servers can reveal a symmetric NAT.
\<close>

theorem one_server_looks_cone:
  assumes "stun_test_nat0 bind_udp [test_nat connect replies1 connectable replies2] = Inr (nat_type, ips, port_range)"
  shows "nat_type = Cone \<and> port_range = 0 \<and> length ips \<le> 1"
proof -
  define pub where "pub = (case test_nat connect replies1 connectable replies2 of Inr a \<Rightarrow> List.union [] a | Inl _ \<Rightarrow> [])"
  have len: "length pub \<le> 1"
    by (cases "test_nat connect replies1 connectable replies2")
      (auto simp: pub_def union_Nil_single test_nat_single[simplified])
  then consider "pub = []" | a where "pub = [a]" by (cases pub) auto
  moreover have "min 0xFFFF p = p" for p :: u16
    using unsigned_less[of p, where 'a = nat] by (auto simp: min_def word_le_nat_alt word_unat_eq_iff)
  ultimately show ?thesis using assms
    by cases (auto simp: stun_test_nat0_def bindE_Inr_iff pub_def[symmetric] Let_def split: if_splits)
qed

lemma one_server_looks_cone_witness:
  "(let a = SockV4 0x01020304 1000; b = SockV4 0x01020304 2000; c = SockV4 0x05060708 3478 in
    Cone = Cone \<and> (0::u16) = 0 \<and> length [0x01020304::ipv4] \<le> 1 \<and>
    stun_test_nat0 (Inr ()) [test_nat (Inr ()) [(Inr (), Some [MappedAddress a, ChangedAddress c])] (\<lambda>_. True)
      [(Inr (), Some [MappedAddress b])]] = Inr (Cone, [0x01020304], 0))"
proof -
  let ?a = "SockV4 0x01020304 1000" and ?b = "SockV4 0x01020304 2000" and ?c = "SockV4 0x05060708 3478"
  have e: "stun_test_nat0 (Inr ()) [test_nat (Inr ()) [(Inr (), Some [MappedAddress ?a, ChangedAddress ?c])] (\<lambda>_. True)
      [(Inr (), Some [MappedAddress ?b])]] = Inr (Cone, [0x01020304], 0)"
    by (simp add: stun_test_nat0_def test_nat_def sa_is_ipv4_def Let_def List.union_def List.insert_def)
  from one_server_looks_cone[OF e] e show ?thesis by (simp add: Let_def)
qed

text \<open>
  \<open>update_addr\<close> reports a change exactly when the NAT information changed, only ever adds a global
  address, keeps every address and the number of ports, and the same observation twice changes
  nothing the second time.
\<close>

theorem update_addr_reports_change:
  "(fst (NatInfo_update_addr n index ip port) \<longleftrightarrow> snd (NatInfo_update_addr n index ip port) \<noteq> n) \<and>
   set (ni_public_ips n) \<subseteq> set (ni_public_ips (snd (NatInfo_update_addr n index ip port))) \<and>
   set (ni_public_ips (snd (NatInfo_update_addr n index ip port))) \<subseteq> insert ip (set (ni_public_ips n)) \<and>
   (is_ipv4_global ip \<or> ni_public_ips (snd (NatInfo_update_addr n index ip port)) = ni_public_ips n) \<and>
   length (ni_public_ports (snd (NatInfo_update_addr n index ip port))) = length (ni_public_ports n) \<and>
   NatInfo_update_addr (snd (NatInfo_update_addr n index ip port)) index ip port =
     (False, snd (NatInfo_update_addr n index ip port))"
proof -
  have upd: "n\<lparr>ni_public_ports := xs\<rparr> = n \<longleftrightarrow> xs = ni_public_ports n" for xs by (cases n) auto
  have upi: "n'\<lparr>ni_public_ips := xs\<rparr> = n \<longleftrightarrow> xs = ni_public_ips n \<and> n'\<lparr>ni_public_ips := ni_public_ips n\<rparr> = n" for xs n'
    by (cases n; cases n') auto
  have ls: "xs[i := y] = xs \<longleftrightarrow> i \<ge> length xs \<or> xs ! i = y" for xs :: "u16 list" and i y
    by (metis linorder_not_less list_update_beyond list_update_id nth_list_update_eq)
  show ?thesis
    by (auto simp: NatInfo_update_addr_def Let_def upd upi ls split: if_splits)
qed

end
