(* ===== verification/Channel_Context.thy ===== *)
theory Channel_Context
  imports Effects Net_Packet Route_Table Traffic_Limits Nat_Info
begin

text \<open>
  The transport context of \<^verbatim>\<open>vnt/src/channel/context.rs\<close>: sockets, the TCP senders, the route
  table, and the ways to send a packet. Sockets are the operating system's: a socket is its
  index, and the outcome of every send is decided by the environment, which may look at all that was
  sent before. \<open>cx_sent\<close> is the log of those calls with their outcomes; it is what the
  theorems speak about. Locks are held for one operation each, so the operations are the steps.
\<close>

section \<open>The environment\<close>

datatype send =
    Send_main nat "u8 list" socket_addr
  | Send_sub nat "u8 list" socket_addr
  | Send_tcp "u8 list" socket_addr

fun send_bytes :: "send \<Rightarrow> u8 list" where
  "send_bytes (Send_main _ b _) = b"
| "send_bytes (Send_sub _ b _) = b"
| "send_bytes (Send_tcp b _) = b"

fun send_target :: "send \<Rightarrow> socket_addr" where
  "send_target (Send_main _ _ a) = a"
| "send_target (Send_sub _ _ a) = a"
| "send_target (Send_tcp _ a) = a"

type_synonym sent = "(send \<times> io_kind option) list"

text \<open>
  \<open>env_os\<close> decides sends (\<open>None\<close> is success), \<open>env_gen_ratio\<close> and \<open>env_rng\<close> are the random
  choices by number of draws, \<open>env_now\<close> is the clock during one handler call (\<open>Instant\<close>, in nanoseconds) and
  \<open>env_millis\<close> the value of \<open>now_time()\<close>.
\<close>

record env =
  env_os :: "sent \<Rightarrow> send \<Rightarrow> io_kind option"
  env_rng :: "nat \<Rightarrow> u32"
  env_gen_ratio :: "nat \<Rightarrow> u32 \<Rightarrow> u32 \<Rightarrow> bool"
  env_now :: nat
  env_millis :: u64

definition SYMMETRIC_CHANNEL_NUM :: nat where "SYMMETRIC_CHANNEL_NUM = 84"
definition PACKET_LOSS_RATE_DENOMINATOR :: u32 where "PACKET_LOSS_RATE_DENOMINATOR = 1000000"

record ContextInner =
  cx_main_len :: nat
  cx_v4_len :: nat
  cx_sub_len :: nat
  cx_packet_map :: "socket_addr list"
  cx_route_table :: RouteTable
  cx_protocol :: ConnectProtocol
  cx_packet_loss_rate :: u32
  cx_packet_delay :: u32
  cx_up_meter :: "TrafficMeterMultiAddress option"
  cx_down_meter :: "TrafficMeterMultiAddress option"
  cx_sent :: sent
  cx_draws :: nat

text \<open>
  The loss rate arrives as a float; \<open>(v * 1_000_000.0) as u32\<close>, a saturating cast, is the argument
  \<open>scaled\<close>. No IPv4 socket at all panics.
\<close>

definition ChannelContext_new ::
    "nat \<Rightarrow> nat \<Rightarrow> UseChannelType \<Rightarrow> bool \<Rightarrow> ConnectProtocol \<Rightarrow> u32 option \<Rightarrow> u32 \<Rightarrow>
     TrafficMeterMultiAddress option \<Rightarrow> TrafficMeterMultiAddress option \<Rightarrow> ContextInner res" where
  "ChannelContext_new main_len v4_len use_channel_type first_latency protocol scaled packet_delay up down =
     (if v4_len = 0 then Inl Panic
      else Inr \<lparr>cx_main_len = main_len, cx_v4_len = v4_len, cx_sub_len = 0, cx_packet_map = [],
        cx_route_table = RouteTable_new use_channel_type first_latency v4_len, cx_protocol = protocol,
        cx_packet_loss_rate = (case scaled of None \<Rightarrow> 0
          | Some v \<Rightarrow> if v > PACKET_LOSS_RATE_DENOMINATOR then PACKET_LOSS_RATE_DENOMINATOR else v),
        cx_packet_delay = packet_delay, cx_up_meter = up, cx_down_meter = down, cx_sent = [], cx_draws = 0\<rparr>)"

definition use_channel_type :: "'a ContextInner_scheme \<Rightarrow> UseChannelType" where
  "use_channel_type c = rt_use_channel_type (cx_route_table c)"

definition is_cone :: "'a ContextInner_scheme \<Rightarrow> bool" where
  "is_cone c = (cx_sub_len c = 0)"

definition is_udp_main :: "'a ContextInner_scheme \<Rightarrow> RouteKey \<Rightarrow> bool" where
  "is_udp_main c k = (ConnectProtocol_is_udp (rk_protocol k) \<and> rk_index k < cx_main_len c)"

definition context_first_latency :: "'a ContextInner_scheme \<Rightarrow> bool" where
  "context_first_latency c = rt_first_latency (cx_route_table c)"

text \<open>
  Switching the NAT mode opens or closes the extra sockets. Binding a socket and handing
  the sockets to the listener thread can fail: \<open>bind\<close> is the outcome for each socket in turn,
  \<open>add\<close> the outcome of \<open>try_add_socket\<close>.
\<close>

definition context_switch :: "NatType \<Rightarrow> (nat \<Rightarrow> unit res) \<Rightarrow> unit res \<Rightarrow> ('a ContextInner_scheme, unit) cmd" where
  "context_switch nat_type bind_udp try_add_socket = bindS (getS cx_sub_len) (\<lambda>sub.
     (case nat_type of
        Symmetric \<Rightarrow>
          if sub \<noteq> 0 then retS ()
          else thenS (liftE (foldl (\<lambda>r i. bindE r (\<lambda>_. bind_udp i)) (Inr ()) [0..<SYMMETRIC_CHANNEL_NUM]))
            (thenS (liftE try_add_socket) (modS (\<lambda>c. c\<lparr>cx_sub_len := SYMMETRIC_CHANNEL_NUM\<rparr>)))
      | Cone \<Rightarrow>
          if sub = 0 then retS ()
          else thenS (liftE try_add_socket) (modS (\<lambda>c. c\<lparr>cx_sub_len := 0\<rparr>))))"

section \<open>Sending\<close>

definition os_send :: "env \<Rightarrow> send \<Rightarrow> ('a ContextInner_scheme, unit) cmd" where
  "os_send E x c =
     (let r = env_os E (cx_sent c) x; c' = c\<lparr>cx_sent := cx_sent c @ [(x, r)]\<rparr> in
      case r of None \<Rightarrow> (Inr (), c') | Some k \<Rightarrow> (Inl (Io k ''''), c'))"

definition draw :: "env \<Rightarrow> ('a ContextInner_scheme, u32) cmd" where
  "draw E = updS (\<lambda>c. (env_rng E (cx_draws c), c\<lparr>cx_draws := Suc (cx_draws c)\<rparr>))"

definition draw_ratio :: "env \<Rightarrow> u32 \<Rightarrow> u32 \<Rightarrow> ('a ContextInner_scheme, bool) cmd" where
  "draw_ratio E num den = updS (\<lambda>c. (env_gen_ratio E (cx_draws c) num den, c\<lparr>cx_draws := Suc (cx_draws c)\<rparr>))"

definition context_send_tcp :: "env \<Rightarrow> u8 list \<Rightarrow> socket_addr \<Rightarrow> ('a ContextInner_scheme, unit) cmd" where
  "context_send_tcp E buf addr = bindS (getS cx_packet_map) (\<lambda>senders.
     if addr \<in> set senders then os_send E (Send_tcp buf addr) else failS (Io NotFound ''''))"

definition send_main_udp :: "env \<Rightarrow> nat \<Rightarrow> u8 list \<Rightarrow> socket_addr \<Rightarrow> ('a ContextInner_scheme, unit) cmd" where
  "send_main_udp E index buf addr = bindS (getS cx_main_len) (\<lambda>main_len.
     if index < main_len then os_send E (Send_main index buf addr) else failS (Io OtherKind ''overflow''))"

text \<open>The up meter counts the packet at its destination when the send succeeded.\<close>

definition count_up :: "env \<Rightarrow> net_packet \<Rightarrow> ('a ContextInner_scheme, unit) cmd" where
  "count_up E buf = bindS (getS cx_up_meter) (\<lambda>up.
     (case up of None \<Rightarrow> retS ()
      | Some meter \<Rightarrow> bindS (liftE (NetPacket_destination buf)) (\<lambda>d.
          modS (\<lambda>c. c\<lparr>cx_up_meter := Some (add_traffic (env_now E) (env_now E) (env_now E) d
            (of_nat (np_data_len buf)) meter)\<rparr>))))"

definition send_default :: "env \<Rightarrow> net_packet \<Rightarrow> socket_addr \<Rightarrow> ('a ContextInner_scheme, unit) cmd" where
  "send_default E buf addr = bindS (getS (\<lambda>c. (cx_protocol c, cx_v4_len c))) (\<lambda>(protocol, v4_len).
     bindS (liftE (NetPacket_buffer buf)) (\<lambda>b.
     thenS (if ConnectProtocol_is_udp protocol then
              (if sa_is_ipv4 addr then send_main_udp E 0 b addr else send_main_udp E v4_len b addr)
            else context_send_tcp E b addr)
       (count_up E buf)))"

text \<open>Failures of the attempts to open symmetric NATs are only logged.\<close>

fun try_each :: "(nat \<Rightarrow> ('a ContextInner_scheme, unit) cmd) \<Rightarrow> nat list \<Rightarrow> ('a ContextInner_scheme, unit) cmd" where
  "try_each send [] = retS ()"
| "try_each send (i # is) = thenS (catchS (send i) (\<lambda>e. retS ())) (try_each send is)"

definition try_send_all_main :: "env \<Rightarrow> u8 list \<Rightarrow> socket_addr \<Rightarrow> ('a ContextInner_scheme, unit) cmd" where
  "try_send_all_main E buf addr = bindS (getS cx_v4_len) (\<lambda>channel_num.
     try_each (\<lambda>index. send_main_udp E index buf addr) [0..<channel_num])"

definition try_send_all :: "env \<Rightarrow> u8 list \<Rightarrow> socket_addr \<Rightarrow> ('a ContextInner_scheme, unit) cmd" where
  "try_send_all E buf addr = thenS (try_send_all_main E buf addr)
     (bindS (getS cx_sub_len) (\<lambda>n. try_each (\<lambda>index. os_send E (Send_sub index buf addr)) [0..<n]))"

definition send_by_key :: "env \<Rightarrow> net_packet \<Rightarrow> RouteKey \<Rightarrow> ('a ContextInner_scheme, unit) cmd" where
  "send_by_key E buf k = bindS (getS (\<lambda>c. (cx_main_len c, cx_sub_len c))) (\<lambda>(main_len, sub_len).
     bindS (liftE (NetPacket_buffer buf)) (\<lambda>b.
     thenS (case rk_protocol k of
        Conn_UDP \<Rightarrow>
          if rk_index k < main_len then os_send E (Send_main (rk_index k) b (rk_addr k))
          else if rk_index k - main_len < sub_len then os_send E (Send_sub (rk_index k - main_len) b (rk_addr k))
          else failS (Io NotFound '''')
      | _ \<Rightarrow> context_send_tcp E b (rk_addr k))
     (count_up E buf)))"

text \<open>The loop of \<open>send_by_id\<close>: at most ten tries while the channel is full.\<close>

function send_by_id_loop :: "env \<Rightarrow> net_packet \<Rightarrow> ipv4 \<Rightarrow> nat \<Rightarrow> 'a ContextInner_scheme \<Rightarrow> unit res \<times> 'a ContextInner_scheme" where
  "send_by_id_loop E buf ip c s =
     (case get_route_by_id (cx_route_table s) c ip of
        Inl e \<Rightarrow> (Inl e, s)
      | Inr r \<Rightarrow>
          (case send_by_key E buf (Route_route_key r) s of
             (Inr u, s') \<Rightarrow> (Inr u, s')
           | (Inl e, s') \<Rightarrow>
               if (\<exists>m. e = Io WouldBlock m) \<and> c + 1 < 10 then send_by_id_loop E buf ip (c + 1) s'
               else (Inl e, s')))"
  by pat_completeness auto
termination
  by (relation "measure (\<lambda>(E, buf, ip, c, s). 10 - c)") auto

declare send_by_id_loop.simps [simp del]

definition send_by_id :: "env \<Rightarrow> net_packet \<Rightarrow> ipv4 \<Rightarrow> ('a ContextInner_scheme, unit) cmd" where
  "send_by_id E buf ip = send_by_id_loop E buf ip 0"

text \<open>
  Every error of the direct route, not only a missing one, falls back to the server. The artificial delay
  does not change the state.
\<close>

definition send_ipv4_by_id :: "env \<Rightarrow> net_packet \<Rightarrow> ipv4 \<Rightarrow> socket_addr \<Rightarrow> bool \<Rightarrow> ('a ContextInner_scheme, unit) cmd" where
  "send_ipv4_by_id E buf ip server_addr relay =
     bindS (getS cx_packet_loss_rate) (\<lambda>rate.
     bindS (if rate > 0 then draw_ratio E rate PACKET_LOSS_RATE_DENOMINATOR else retS False) (\<lambda>lost.
     if lost then retS ()
     else catchS (send_by_id E buf ip) (\<lambda>e.
       if e = Panic then failS e
       else bindS (getS use_channel_type) (\<lambda>t.
         if \<not> UseChannelType_is_only_p2p t \<and> relay then send_default E buf server_addr else retS ()))))"

definition context_remove_route :: "ipv4 \<Rightarrow> RouteKey \<Rightarrow> ('a ContextInner_scheme, unit) cmd" where
  "context_remove_route ip k = modS (\<lambda>c. c\<lparr>cx_route_table := remove_route (cx_route_table c) ip k\<rparr>)"


section \<open>What sending changes\<close>

text \<open>
  \<open>sends s Q r\<close>: the outcome \<open>r\<close> of a command run in \<open>s\<close> differs from \<open>s\<close> only by new entries in
  the log, which satisfy \<open>Q\<close>, by the traffic meter and by random draws.
\<close>

definition sends :: "'a ContextInner_scheme \<Rightarrow> (sent \<Rightarrow> bool) \<Rightarrow> 'b \<times> 'a ContextInner_scheme \<Rightarrow> bool" where
  "sends s Q o' \<longleftrightarrow> (\<exists>new um d. snd o' = s\<lparr>cx_sent := cx_sent s @ new, cx_up_meter := um, cx_draws := d\<rparr> \<and> Q new)"

lemma sends_none: "Q [] \<Longrightarrow> sends s Q (r, s)"
  unfolding sends_def by (rule exI[of _ "[]"], rule exI[of _ "cx_up_meter s"], rule exI[of _ "cx_draws s"]) simp

lemma sends_mono: "sends s Q o' \<Longrightarrow> (\<And>n. Q n \<Longrightarrow> Q' n) \<Longrightarrow> sends s Q' o'"
  unfolding sends_def by blast

lemma sends_result: "sends s Q (r, s') \<longleftrightarrow> sends s Q (r', s')"
  by (simp add: sends_def)

lemma sends_seq:
  assumes "sends s Q (r, s')" "sends s' Q' (r', s'')" "\<And>m n. Q m \<Longrightarrow> Q' n \<Longrightarrow> Q'' (m @ n)"
  shows "sends s Q'' (r'', s'')"
proof -
  obtain m um d where m: "s' = s\<lparr>cx_sent := cx_sent s @ m, cx_up_meter := um, cx_draws := d\<rparr>" "Q m"
    using assms(1) by (auto simp: sends_def)
  obtain n um' d' where n: "s'' = s'\<lparr>cx_sent := cx_sent s' @ n, cx_up_meter := um', cx_draws := d'\<rparr>" "Q' n"
    using assms(2) by (auto simp: sends_def)
  have "s'' = s\<lparr>cx_sent := cx_sent s @ (m @ n), cx_up_meter := um', cx_draws := d'\<rparr>"
    using m(1) n(1) by simp
  with assms(3)[OF m(2) n(2)] show ?thesis unfolding sends_def by (auto intro!: exI)
qed

lemma sends_frame:
  assumes "sends s Q (r, s')"
  shows "cx_route_table s' = cx_route_table s" "cx_main_len s' = cx_main_len s" "cx_v4_len s' = cx_v4_len s"
    "cx_sub_len s' = cx_sub_len s" "cx_packet_map s' = cx_packet_map s" "cx_protocol s' = cx_protocol s"
    "cx_down_meter s' = cx_down_meter s"
  using assms by (auto simp: sends_def)

text \<open>One call to the operating system, as the log shows it.\<close>

definition one_call :: "u8 list \<Rightarrow> socket_addr \<Rightarrow> io_kind option \<Rightarrow> sent \<Rightarrow> bool" where
  "one_call b a k new \<longleftrightarrow> (\<exists>x. new = [(x, k)] \<and> send_bytes x = b \<and> send_target x = a)"

text \<open>
  A send of the bytes \<open>b\<close> to \<open>a\<close>: success after one accepted call, or an error after one rejected
  call, or an error other than a full channel after none.
\<close>

definition sends_to :: "'a ContextInner_scheme \<Rightarrow> u8 list \<Rightarrow> socket_addr \<Rightarrow> unit res \<times> 'a ContextInner_scheme \<Rightarrow> bool" where
  "sends_to s b a o' \<longleftrightarrow>
     (\<exists>s'. o' = (Inr (), s') \<and> sends s (one_call b a None) o') \<or>
     (\<exists>k m s'. o' = (Inl (Io k m), s') \<and> sends s (one_call b a (Some k)) o') \<or>
     (\<exists>k m. o' = (Inl (Io k m), s) \<and> k \<noteq> WouldBlock)"

lemma count_up_sends: "np_ok buf \<Longrightarrow> \<exists>s'. count_up E buf s = (Inr (), s') \<and> sends s (\<lambda>n. n = []) (Inr (), s')"
proof (cases "cx_up_meter s")
  case (Some meter)
  let ?m = "Some (add_traffic (env_now E) (env_now E) (env_now E) (f_destination (np_abs buf)) (of_nat (np_data_len buf)) meter)"
  assume "np_ok buf"
  then show ?thesis using Some
    by (auto simp: count_up_def np_get sends_def intro!: exI[of _ ?m] exI[of _ "cx_draws s"])
qed (auto simp: count_up_def intro: sends_none)

lemma os_send_cases:
  "\<exists>k. sends s (\<lambda>n. n = [(x, k)]) (os_send E x s)"
  by (cases "env_os E (cx_sent s) x")
    (auto simp: os_send_def sends_def Let_def intro!: exI[of _ "cx_up_meter s"] exI[of _ "cx_draws s"])

lemma os_send_sends_to: "send_bytes x = b \<Longrightarrow> send_target x = a \<Longrightarrow> sends_to s b a (os_send E x s)"
  by (cases "env_os E (cx_sent s) x")
    (auto simp: os_send_def sends_to_def sends_def Let_def one_call_def
      intro!: exI[of _ "cx_up_meter s"] exI[of _ "cx_draws s"])

lemma sends_to_fail: "k \<noteq> WouldBlock \<Longrightarrow> sends_to s b a (failS (Io k m) s)"
  by (auto simp: sends_to_def)

lemma sends_to_count:
  assumes "np_ok buf" "sends_to s b a (m s)"
  shows "sends_to s b a (thenS m (count_up E buf) s)"
proof (cases "m s")
  case (Pair r s')
  show ?thesis
  proof (cases r)
    case (Inr u)
    obtain s'' where c: "count_up E buf s' = (Inr (), s'')" "sends s' (\<lambda>n. n = []) (Inr (), s'')"
      using count_up_sends[OF assms(1)] by blast
    have "sends s (one_call b a None) (Inr () :: unit res, s')" using assms(2) Inr Pair by (auto simp: sends_to_def)
    from sends_seq[OF this c(2), of "one_call b a None" "Inr ()"]
    have "sends s (one_call b a None) (Inr (), s'')" by simp
    then show ?thesis using c(1) Inr Pair by (simp add: thenS_eq sends_to_def)
  next
    case (Inl e)
    then show ?thesis using assms(2) Pair by (simp add: thenS_eq)
  qed
qed

lemma send_tcp_sends_to: "sends_to s b a (context_send_tcp E b a s)"
  by (auto simp: context_send_tcp_def intro: os_send_sends_to) (auto simp: sends_to_def)

lemma send_main_udp_sends_to: "sends_to s b a (send_main_udp E i b a s)"
  by (auto simp: send_main_udp_def intro: os_send_sends_to) (auto simp: sends_to_def)

abbreviation wire :: "net_packet \<Rightarrow> u8 list" where
  "wire p \<equiv> take (np_data_len p) (np_buffer p)"

lemma send_by_key_sends_to: "np_ok buf \<Longrightarrow> sends_to s (wire buf) (rk_addr k) (send_by_key E buf k s)"
  by (cases "rk_protocol k")
    (auto simp: send_by_key_def np_get_buffer
      intro!: sends_to_count os_send_sends_to send_tcp_sends_to sends_to_fail[unfolded failS_def])

lemma send_default_sends_to: "np_ok buf \<Longrightarrow> sends_to s (wire buf) a (send_default E buf a s)"
  by (auto simp: send_default_def np_get_buffer intro!: sends_to_count send_main_udp_sends_to send_tcp_sends_to)


section \<open>The retry loop\<close>

text \<open>
  What the loop logs: calls refused because the channel was full, then possibly one more call. All of them
  carry the packet and go to routes of the peer.
\<close>

definition attempts :: "u8 list \<Rightarrow> socket_addr set \<Rightarrow> nat \<Rightarrow> bool \<Rightarrow> sent \<Rightarrow> bool" where
  "attempts b as n ok new \<longleftrightarrow> length new \<le> n \<and>
     (\<forall>(x, k) \<in> set new. send_bytes x = b \<and> send_target x \<in> as) \<and>
     (\<exists>blocked final. new = blocked @ final \<and> (\<forall>(x, k) \<in> set blocked. k = Some WouldBlock) \<and>
        length final \<le> 1 \<and> (ok \<longleftrightarrow> (\<exists>x. final = [(x, None)])))"

definition route_addrs :: "RouteTable \<Rightarrow> ipv4 \<Rightarrow> socket_addr set" where
  "route_addrs t ip = (\<lambda>(r, _). r_addr r) ` set (rt_list t ip)"

lemma get_route_addr: "get_route_by_id t c ip = Inr r \<Longrightarrow> r_addr r \<in> route_addrs t ip"
proof -
  assume g: "get_route_by_id t c ip = Inr r"
  then obtain v where v: "rt_get t ip = Some v" by (auto simp: get_route_by_id_def Let_def split: option.splits)
  have "r \<in> fst ` set v"
  proof (cases "rt_first_latency t")
    case True
    with g v show ?thesis by (cases v) (auto simp: get_route_by_id_def Let_def split: prod.splits)
  next
    case False
    then have "v \<noteq> []" using g v by (auto simp: get_route_by_id_def Let_def)
    then have m: "v ! (c mod length v) \<in> set v" by simp
    have f: "find P v = Some x \<Longrightarrow> x \<in> set v" for P x
      by (auto simp: find_Some_iff)
    show ?thesis using g v False m
      by (auto simp: get_route_by_id_def Let_def split: if_splits option.splits prod.splits dest!: f intro: rev_image_eqI)
  qed
  then show ?thesis using v by (force simp: route_addrs_def rt_list_def)
qed

lemma attempts_none: "attempts b as n False []"
  by (simp add: attempts_def)

lemma attempts_one: "one_call b a k m \<Longrightarrow> a \<in> as \<Longrightarrow> attempts b as (Suc n) (k = None) m"
  unfolding attempts_def one_call_def by (elim exE conjE, intro conjI exI[of _ "[]"] exI[of _ m]) auto

lemma attempts_cons:
  assumes "one_call b a (Some WouldBlock) m" "a \<in> as" "attempts b as n ok l"
  shows "attempts b as (Suc n) ok (m @ l)"
proof -
  obtain blocked final where l: "l = blocked @ final" "\<forall>(x, k) \<in> set blocked. k = Some WouldBlock"
    "length final \<le> 1" "ok \<longleftrightarrow> (\<exists>x. final = [(x, None)])" using assms(3) by (auto simp: attempts_def)
  have "m @ l = (m @ blocked) @ final" "\<forall>(x, k) \<in> set (m @ blocked). k = Some WouldBlock"
    using assms(1) l by (auto simp: one_call_def)
  with l(3,4) have "\<exists>blocked final. m @ l = blocked @ final \<and> (\<forall>(x, k) \<in> set blocked. k = Some WouldBlock) \<and>
      length final \<le> 1 \<and> (ok \<longleftrightarrow> (\<exists>x. final = [(x, None)]))" by blast
  then show ?thesis using assms by (simp only: attempts_def) (auto simp: one_call_def)
qed

text \<open>The result of the loop and its log agree.\<close>

definition loop_ok :: "'a ContextInner_scheme \<Rightarrow> u8 list \<Rightarrow> socket_addr set \<Rightarrow> nat \<Rightarrow> unit res \<times> 'a ContextInner_scheme \<Rightarrow> bool" where
  "loop_ok s b as n o' \<longleftrightarrow> sends s (attempts b as n (fst o' = Inr ())) o' \<and>
     (fst o' = Inr () \<or> (\<exists>k m. fst o' = Inl (Io k m)))"

lemma loop_ok_final:
  assumes "sends_to s b a o'" "a \<in> as"
  shows "loop_ok s b as (Suc n) o'"
  using assms(1) unfolding sends_to_def
proof (elim disjE exE conjE)
  fix s' assume o: "o' = (Inr (), s')" and c: "sends s (one_call b a None) o'"
  show ?thesis using o sends_mono[OF c, of "attempts b as (Suc n) True"] attempts_one[of b a None _ as n] assms(2)
    by (simp add: loop_ok_def)
next
  fix k m s' assume o: "o' = (Inl (Io k m), s')" and c: "sends s (one_call b a (Some k)) o'"
  show ?thesis using o sends_mono[OF c, of "attempts b as (Suc n) False"] attempts_one[of b a "Some k" _ as n] assms(2)
    by (simp add: loop_ok_def)
next
  fix k m assume "o' = (Inl (Io k m), s)"
  then show ?thesis by (simp add: loop_ok_def sends_none attempts_none)
qed

lemma send_by_id_loop_attempts:
  assumes "np_ok buf" "c < 10"
  shows "loop_ok s (wire buf) (route_addrs (cx_route_table s) ip) (10 - c) (send_by_id_loop E buf ip c s)"
  using assms
proof (induction E buf ip c s rule: send_by_id_loop.induct)
  case (1 E buf ip c s)
  let ?as = "route_addrs (cx_route_table s) ip" and ?b = "wire buf"
  note unfold = send_by_id_loop.simps[of E buf ip c s]
  show ?case
  proof (cases "get_route_by_id (cx_route_table s) c ip")
    case (Inl e)
    then have "\<exists>k m. e = Io k m"
      by (auto simp: get_route_by_id_def Let_def split: option.splits if_splits prod.splits)
    with Inl show ?thesis by (auto simp: unfold loop_ok_def attempts_none intro!: sends_none)
  next
    case (Inr r)
    let ?k = "Route_route_key r"
    have a: "rk_addr ?k \<in> ?as" using get_route_addr[OF Inr] by (simp add: Route_route_key_def)
    have n: "10 - c = Suc (9 - c)" using "1.prems" by simp
    note st = send_by_key_sends_to[OF "1.prems"(1), of s ?k E]
    obtain res s' where k: "send_by_key E buf ?k s = (res, s')" by fastforce
    show ?thesis
    proof (cases "(\<exists>m. res = Inl (Io WouldBlock m)) \<and> c + 1 < 10")
      case False
      then have "send_by_id_loop E buf ip c s = (res, s')"
        unfolding unfold using Inr k by (cases res) auto
      with loop_ok_final[OF st a, of "9 - c"] n k show ?thesis by simp
    next
      case True
      then obtain m where res: "res = Inl (Io WouldBlock m)" "c + 1 < 10" by blast
      then have loop: "send_by_id_loop E buf ip c s = send_by_id_loop E buf ip (c + 1) s'"
        unfolding unfold using Inr k by simp
      have first: "sends s (one_call ?b (rk_addr ?k) (Some WouldBlock)) (res, s')"
        using st k res by (auto simp: sends_to_def)
      have "loop_ok s' ?b ?as (10 - (c + 1)) (send_by_id_loop E buf ip (c + 1) s')"
        using "1.IH"[OF Inr k[symmetric] res(1)] res(2) "1.prems" sends_frame[OF first] by simp
      then have ih: "sends s' (attempts ?b ?as (9 - c) (fst (send_by_id_loop E buf ip (c + 1) s') = Inr ()))
          (send_by_id_loop E buf ip (c + 1) s')"
        and e: "fst (send_by_id_loop E buf ip (c + 1) s') = Inr () \<or> (\<exists>k m. fst (send_by_id_loop E buf ip (c + 1) s') = Inl (Io k m))"
        by (simp_all add: loop_ok_def)
      obtain res' s'' where l: "send_by_id_loop E buf ip (c + 1) s' = (res', s'')" by fastforce
      have "sends s (attempts ?b ?as (10 - c) (res' = Inr ())) (res', s'')"
        by (rule sends_seq[OF first ih[unfolded l]]) (use attempts_cons[OF _ a] n in simp)
      with e show ?thesis unfolding loop l loop_ok_def by simp
    qed
  qed
qed


section \<open>Properties\<close>

text \<open>
  Sending to a peer makes at most ten calls to the system, all of them with exactly the
  packet's bytes and to addresses in the peer's routes; every call but the last was refused for a
  full channel; and the send reports success exactly when the last call was accepted - the packet
  is never sent twice and never reported sent when it was not.
\<close>

theorem send_by_id_attempts:
  assumes "np_ok buf" and "send_by_id E buf ip s = (res, s')"
  shows "\<exists>blocked final. cx_sent s' = cx_sent s @ blocked @ final \<and>
     length (blocked @ final) \<le> 10 \<and> length final \<le> 1 \<and>
     (\<forall>(x, k) \<in> set blocked. k = Some WouldBlock) \<and>
     (res = Inr () \<longleftrightarrow> (\<exists>x. final = [(x, None)])) \<and>
     (\<forall>(x, k) \<in> set (blocked @ final). send_bytes x = take (np_data_len buf) (np_buffer buf) \<and>
        send_target x \<in> route_addrs (cx_route_table s) ip)"
proof -
  have "sends s (attempts (wire buf) (route_addrs (cx_route_table s) ip) 10 (res = Inr ())) (res, s')"
    using send_by_id_loop_attempts[OF assms(1), of 0 s ip E] assms(2)
    by (simp add: send_by_id_def loop_ok_def)
  then obtain new where n: "cx_sent s' = cx_sent s @ new"
    "attempts (wire buf) (route_addrs (cx_route_table s) ip) 10 (res = Inr ()) new"
    by (auto simp: sends_def)
  then obtain blocked final where "new = blocked @ final" "\<forall>(x, k) \<in> set blocked. k = Some WouldBlock"
    "length final \<le> 1" "res = Inr () \<longleftrightarrow> (\<exists>x. final = [(x, None)])" by (auto simp: attempts_def)
  with n show ?thesis by (intro exI[of _ blocked] exI[of _ final]) (simp add: attempts_def)
qed

definition sample_env :: "env" where
  "sample_env = \<lparr>env_os = (\<lambda>h x. if length h < 2 then Some WouldBlock else None), env_rng = (\<lambda>_. 7),
     env_gen_ratio = (\<lambda>_ _ _. False), env_now = 5, env_millis = 1000\<rparr>"

definition sample_peer :: ipv4 where "sample_peer = 0x0A1A0003"

definition sample_route :: Route where
  "sample_route = \<lparr>r_protocol = Conn_UDP, r_index = 0, r_addr = SockV4 0x01020304 99, r_metric = 1, r_rt = 3\<rparr>"

definition sample_context :: ContextInner where
  "sample_context = \<lparr>cx_main_len = 1, cx_v4_len = 1, cx_sub_len = 0, cx_packet_map = [],
     cx_route_table = \<lparr>rt_map = [(sample_peer, [(sample_route, 0)])], rt_first_latency = False,
       rt_channel_num = 1, rt_use_channel_type = Use_All\<rparr>,
     cx_protocol = Conn_UDP, cx_packet_loss_rate = 0, cx_packet_delay = 0, cx_up_meter = None,
     cx_down_meter = None, cx_sent = [], cx_draws = 0\<rparr>"

definition small_packet :: net_packet where
  "small_packet = \<lparr>np_data_len = 12, np_buffer = replicate 12 0\<rparr>"

lemma small_packet_ok: "np_ok small_packet"
  by (simp add: np_ok_def small_packet_def)

lemma send_by_id_attempts_witness:
  "\<exists>s'. send_by_id sample_env small_packet sample_peer sample_context = (Inr (), s') \<and>
     length (cx_sent s') = 3 \<and> snd (last (cx_sent s')) = None"
proof -
  obtain res s' where r: "send_by_id sample_env small_packet sample_peer sample_context = (res, s')" by fastforce
  have l: "res = Inr () \<and> length (cx_sent s') = 3"
    using r by (simp add: send_by_id_def send_by_id_loop.simps get_route_by_id_def rt_get_def sample_context_def
        sample_route_def DEFAULT_RT_def send_by_key_def thenS_eq os_send_def sample_env_def Let_def count_up_def
        NetPacket_buffer_def slice_def small_packet_def Route_route_key_def)
      auto
  from send_by_id_attempts[OF small_packet_ok r] l have "snd (last (cx_sent s')) = None"
    by (auto simp: sample_context_def)
  with r l show ?thesis by blast
qed


lemma attempts_none_accepted:
  "attempts b as n False new \<Longrightarrow> \<forall>(x, k) \<in> set new. k \<noteq> None"
proof -
  assume "attempts b as n False new"
  then obtain blocked final where b: "new = blocked @ final" "\<forall>(x, k) \<in> set blocked. k = Some WouldBlock"
    "length final \<le> 1" "\<not> (\<exists>x. final = [(x, None)])" by (auto simp: attempts_def)
  then show ?thesis by (cases final) auto
qed

lemma send_default_called:
  assumes "np_ok buf" "cx_protocol s = Conn_UDP" "sa_is_ipv4 srv" "0 < cx_main_len s"
    and "send_default E buf srv s = (res, s')"
  shows "sends s (\<lambda>n. \<exists>k. one_call (wire buf) srv k n) (res, s')"
proof -
  obtain r t where o: "os_send E (Send_main 0 (wire buf) srv) s = (r, t)" by fastforce
  have one: "sends s (\<lambda>n. \<exists>k. one_call (wire buf) srv k n) (r, t)"
    using os_send_cases[of s "Send_main 0 (wire buf) srv" E] o by (auto simp: one_call_def elim!: sends_mono)
  have d: "send_default E buf srv s = thenS (os_send E (Send_main 0 (wire buf) srv)) (count_up E buf) s"
    using assms(2-4) np_get_buffer[OF assms(1)]
    by (simp add: send_default_def ConnectProtocol_is_udp_def thenS_eq send_main_udp_def)
  show ?thesis
  proof (cases r)
    case (Inl e)
    then show ?thesis using d o assms(5) one by (simp add: thenS_eq sends_def)
  next
    case (Inr u)
    obtain s'' where c: "count_up E buf t = (Inr (), s'')" "sends t (\<lambda>n. n = []) (Inr () :: unit res, s'')"
      using count_up_sends[OF assms(1)] by blast
    have "sends s (\<lambda>n. \<exists>k. one_call (wire buf) srv k n) (res, s'')" by (rule sends_seq[OF one c(2)]) simp
    then show ?thesis using d o assms(5) Inr c by (simp add: thenS_eq)
  qed
qed



end
