(* ===== verification/Device_Info.thy ===== *)
theory Device_Info
  imports Vnt_Prelude
begin

text \<open>
  What a peer knows of itself and of the others, \<^verbatim>\<open>vnt/src/handle/mod.rs\<close>: its addresses
  and connection status, the list of peers. The atomic cell of the status is a value that other
  threads may change between two operations on it.
\<close>

section \<open>Peers\<close>

definition SELF_IP :: ipv4 where "SELF_IP = Ipv4Addr_new 0 0 0 2"
definition GATEWAY_IP :: ipv4 where "GATEWAY_IP = Ipv4Addr_new 0 0 0 1"

text \<open>\<open>now_time\<close> in milliseconds; \<open>None\<close> is a clock before the epoch.\<close>

definition now_time :: "(nat \<times> nat) option \<Rightarrow> u64" where
  "now_time since_epoch = (case since_epoch of
     Some (secs, subsec_millis) \<Rightarrow> of_nat secs * 1000 + of_nat subsec_millis | None \<Rightarrow> 0)"

datatype PeerDeviceStatus = Peer_Online | Peer_Offline

definition PeerDeviceStatus_is_online :: "PeerDeviceStatus \<Rightarrow> bool" where
  "PeerDeviceStatus_is_online s = (s = Peer_Online)"

definition PeerDeviceStatus_is_offline :: "PeerDeviceStatus \<Rightarrow> bool" where
  "PeerDeviceStatus_is_offline s = (s = Peer_Offline)"

fun PeerDeviceStatus_to_u8 :: "PeerDeviceStatus \<Rightarrow> u8" where
  "PeerDeviceStatus_to_u8 Peer_Online = 0"
| "PeerDeviceStatus_to_u8 Peer_Offline = 1"

definition PeerDeviceStatus_of_u8 :: "u8 \<Rightarrow> PeerDeviceStatus" where
  "PeerDeviceStatus_of_u8 v = (if v = 0 then Peer_Online else Peer_Offline)"

record PeerDeviceInfo =
  pd_virtual_ip :: ipv4
  pd_name :: string
  pd_status :: PeerDeviceStatus
  pd_client_secret :: bool
  pd_client_secret_hash :: "u8 list"
  pd_wireguard :: bool

definition PeerDeviceInfo_new :: "ipv4 \<Rightarrow> string \<Rightarrow> u8 \<Rightarrow> bool \<Rightarrow> u8 list \<Rightarrow> bool \<Rightarrow> PeerDeviceInfo" where
  "PeerDeviceInfo_new virtual_ip name status client_secret client_secret_hash wireguard =
     \<lparr>pd_virtual_ip = virtual_ip, pd_name = name, pd_status = PeerDeviceStatus_of_u8 status,
      pd_client_secret = client_secret, pd_client_secret_hash = client_secret_hash, pd_wireguard = wireguard\<rparr>"

section \<open>The device itself\<close>

datatype ConnectStatus = Connecting | Connected

definition ConnectStatus_online :: "ConnectStatus \<Rightarrow> bool" where
  "ConnectStatus_online s = (s = Connected)"

definition ConnectStatus_offline :: "ConnectStatus \<Rightarrow> bool" where
  "ConnectStatus_offline s = (s = Connecting)"

record CurrentDeviceInfo =
  cd_virtual_ip :: ipv4
  cd_virtual_netmask :: ipv4
  cd_virtual_gateway :: ipv4
  cd_virtual_network :: ipv4
  cd_broadcast_ip :: ipv4
  cd_connect_server :: socket_addr
  cd_status :: ConnectStatus

definition CurrentDeviceInfo_new :: "ipv4 \<Rightarrow> ipv4 \<Rightarrow> ipv4 \<Rightarrow> socket_addr \<Rightarrow> CurrentDeviceInfo" where
  "CurrentDeviceInfo_new virtual_ip virtual_netmask virtual_gateway connect_server =
     \<lparr>cd_virtual_ip = virtual_ip, cd_virtual_netmask = virtual_netmask,
      cd_virtual_gateway = virtual_gateway, cd_virtual_network = virtual_netmask AND virtual_gateway,
      cd_broadcast_ip = NOT virtual_netmask OR virtual_gateway, cd_connect_server = connect_server,
      cd_status = Connecting\<rparr>"

definition CurrentDeviceInfo_new0 :: "socket_addr \<Rightarrow> CurrentDeviceInfo" where
  "CurrentDeviceInfo_new0 connect_server =
     \<lparr>cd_virtual_ip = Ipv4_UNSPECIFIED, cd_virtual_netmask = Ipv4_UNSPECIFIED,
      cd_virtual_gateway = Ipv4_UNSPECIFIED, cd_virtual_network = Ipv4_UNSPECIFIED,
      cd_broadcast_ip = Ipv4_UNSPECIFIED, cd_connect_server = connect_server, cd_status = Connecting\<rparr>"

definition CurrentDeviceInfo_update :: "CurrentDeviceInfo \<Rightarrow> ipv4 \<Rightarrow> ipv4 \<Rightarrow> ipv4 \<Rightarrow> CurrentDeviceInfo" where
  "CurrentDeviceInfo_update d virtual_ip virtual_netmask virtual_gateway =
     d\<lparr>cd_virtual_ip := virtual_ip, cd_virtual_netmask := virtual_netmask,
       cd_virtual_gateway := virtual_gateway, cd_broadcast_ip := NOT virtual_netmask OR virtual_gateway,
       cd_virtual_network := virtual_netmask AND virtual_gateway\<rparr>"

definition CurrentDeviceInfo_is_gateway :: "CurrentDeviceInfo \<Rightarrow> ipv4 \<Rightarrow> bool" where
  "CurrentDeviceInfo_is_gateway d ip = (cd_virtual_gateway d = ip \<or> ip = GATEWAY_IP)"

definition not_in_network :: "CurrentDeviceInfo \<Rightarrow> ipv4 \<Rightarrow> bool" where
  "not_in_network d ip = (ip AND cd_virtual_netmask d \<noteq> cd_virtual_network d)"

text \<open>
  \<open>Ipv6Addr::to_ipv4\<close> of the standard library: IPv4-mapped and IPv4-compatible addresses.
\<close>

definition to_ipv4 :: "ipv6 \<Rightarrow> ipv4 option" where
  "to_ipv4 v6 = (if drop_bit 32 v6 = 0 \<or> drop_bit 32 v6 = 0xFFFF then Some (ucast v6) else None)"

definition addr_v4 :: "socket_addr \<Rightarrow> ipv4 option" where
  "addr_v4 a = (case a of SockV4 v4 _ \<Rightarrow> Some v4 | SockV6 v6 _ _ _ \<Rightarrow> to_ipv4 v6)"

definition is_server_addr :: "CurrentDeviceInfo \<Rightarrow> socket_addr \<Rightarrow> bool" where
  "is_server_addr d addr =
     (if cd_connect_server d = addr then True
      else sa_port addr = sa_port (cd_connect_server d) \<and> addr_v4 addr = addr_v4 (cd_connect_server d))"

text \<open>
  The retry loop of \<open>change_status\<close>. Each element of the list is one round as the other
  threads let it happen: what \<open>load\<close> returned and what the cell held at the
  \<open>compare_exchange\<close>. The result is the new value, which is also what the cell then holds;
  \<open>None\<close> is a loop that has not ended within these rounds.
\<close>

fun change_status_loop :: "ConnectStatus \<Rightarrow> (CurrentDeviceInfo \<times> CurrentDeviceInfo) list \<Rightarrow> CurrentDeviceInfo option" where
  "change_status_loop connect_status [] = None"
| "change_status_loop connect_status ((loaded, held) # rounds) =
     (let new_info = loaded\<lparr>cd_status := connect_status\<rparr> in
      if held = loaded then Some new_info else change_status_loop connect_status rounds)"

text \<open>Without interference the first round succeeds.\<close>

definition change_status :: "CurrentDeviceInfo \<Rightarrow> ConnectStatus \<Rightarrow> CurrentDeviceInfo" where
  "change_status cell connect_status = cell\<lparr>cd_status := connect_status\<rparr>"

lemma change_status_undisturbed:
  "change_status_loop st ((cell, cell) # rounds) = Some (change_status cell st)"
  by (simp add: change_status_def)

lemma change_status_loop_find:
  "change_status_loop st rounds = map_option (\<lambda>r. change_status (fst r) st) (find (\<lambda>(l, h). h = l) rounds)"
  by (induction st rounds rule: change_status_loop.induct) (auto simp: change_status_def)

section \<open>Addresses of the network\<close>

lemma word_or_ge: "(a::u32) \<le> a OR b"
  by (simp add: le_word_or2)

lemma and_not_or: "(a::u32) AND m = n AND m \<Longrightarrow> a OR NOT m = n OR NOT m"
proof (rule bit_word_eqI)
  fix i assume a: "a AND m = n AND m" "i < LENGTH(32)"
  from a(1) have "bit (a AND m) i = bit (n AND m) i" by simp
  with a(2) show "bit (a OR NOT m) i = bit (n OR NOT m) i" by (auto simp: bit_simps)
qed

text \<open>A device whose derived addresses match its gateway and mask.\<close>

definition device_wf :: "CurrentDeviceInfo \<Rightarrow> bool" where
  "device_wf d \<longleftrightarrow> cd_virtual_network d = cd_virtual_netmask d AND cd_virtual_gateway d \<and>
     cd_broadcast_ip d = NOT (cd_virtual_netmask d) OR cd_virtual_gateway d"

lemma device_wf_update: "device_wf (CurrentDeviceInfo_update d ip netmask gw)"
  "device_wf (CurrentDeviceInfo_new ip netmask gw srv)"
  "device_wf d \<Longrightarrow> device_wf (d\<lparr>cd_status := st\<rparr>)"
  by (simp_all add: device_wf_def CurrentDeviceInfo_update_def CurrentDeviceInfo_new_def)

lemma network_range:
  assumes "device_wf d" "\<not> not_in_network d ip"
  shows "cd_virtual_network d \<le> ip" "ip \<le> cd_broadcast_ip d"
proof -
  have n: "ip AND cd_virtual_netmask d = cd_virtual_network d" using assms(2) by (simp add: not_in_network_def)
  then show "cd_virtual_network d \<le> ip" using word_and_le2[of ip "cd_virtual_netmask d"] by simp
  have "ip AND cd_virtual_netmask d = cd_virtual_gateway d AND cd_virtual_netmask d"
    using n assms(1) by (simp add: device_wf_def and.commute)
  from and_not_or[OF this] have "ip OR NOT (cd_virtual_netmask d) = cd_broadcast_ip d"
    using assms(1) by (simp add: device_wf_def or.commute)
  then show "ip \<le> cd_broadcast_ip d" by (metis word_or_ge)
qed


section \<open>Properties\<close>

text \<open>
  After \<open>update\<close>, as after \<open>new\<close>, and through any change of status, the derived addresses fit
  the mask: network number, gateway and broadcast address are members of the network that
  \<open>not_in_network\<close> tests, and every member lies between network number and broadcast address.
  The rest of the device's state is untouched.
\<close>

theorem device_network_bounds:
  "let d' = change_status (CurrentDeviceInfo_update d ip netmask gw) st in
     \<not> not_in_network d' gw \<and> \<not> not_in_network d' (cd_broadcast_ip d') \<and>
     \<not> not_in_network d' (cd_virtual_network d') \<and>
     (not_in_network d' a \<or> (cd_virtual_network d' \<le> a \<and> a \<le> cd_broadcast_ip d')) \<and>
     cd_virtual_ip d' = ip \<and> cd_virtual_gateway d' = gw \<and> cd_connect_server d' = cd_connect_server d"
proof -
  let ?d = "change_status (CurrentDeviceInfo_update d ip netmask gw) st"
  have "device_wf ?d" unfolding change_status_def by (intro device_wf_update)
  note r = network_range[OF this, of a]
  have "(NOT netmask OR gw) AND netmask = netmask AND gw"
    by (rule bit_word_eqI) (auto simp: bit_simps)
  moreover have "netmask AND gw AND netmask = netmask AND gw" by (simp add: and.commute and.left_commute)
  ultimately show ?thesis using r
    by (simp add: Let_def) (simp add: not_in_network_def change_status_def CurrentDeviceInfo_update_def and.commute)
qed

text \<open>
  \<open>is_server_addr\<close> identifies an IPv4 server across address families: it accepts exactly the
  server's own address, also in its mapped and compatible IPv6 forms, on the server's port.
  For a server with a native IPv6 address it is no identification at all: any native IPv6
  address with the server's port is accepted, because the two missing IPv4 forms compare equal.
\<close>

theorem server_addr_recognition:
  assumes "cd_connect_server d4 = SockV4 s4 port" and "cd_connect_server d6 = SockV6 s6 port fl sc"
    and "to_ipv4 s6 = None"
    and "to_ipv4 x = None"
  shows "(is_server_addr d4 a \<longleftrightarrow> sa_port a = port \<and> addr_v4 a = Some s4) \<and>
    is_server_addr d6 (SockV6 x port fl' sc')"
  using assms by (auto simp: is_server_addr_def addr_v4_def)

lemma server_addr_recognition_witness:
  "is_server_addr (CurrentDeviceInfo_new0 (SockV6 (push_bit 127 1) 29872 0 0)) (SockV6 (push_bit 126 1) 29872 7 7)"
proof -
  have n: "to_ipv4 (push_bit 127 1) = None" "to_ipv4 (push_bit 126 1) = None" by (simp_all add: to_ipv4_def)
  show ?thesis
    using server_addr_recognition[of "CurrentDeviceInfo_new0 (SockV4 1 29872)" 1 29872
        "CurrentDeviceInfo_new0 (SockV6 (push_bit 127 1) 29872 0 0)" "push_bit 127 1" 0 0 "push_bit 126 1" _ 7 7] n
    by (simp add: CurrentDeviceInfo_new0_def)
qed

end
