(* ===== verification/Punching.thy ===== *)
theory Punching
  imports Channel_Context Device_Info
begin

text \<open>
  Hole punching, \<open>Punch\<close> of \<^verbatim>\<open>vnt/src/channel/punch.rs\<close>: one round of datagrams and TCP connects to
  a peer, from what the peer said of its NAT. The struct is the transport context extended by its own
  fields; \<open>pu_connects\<close> is the queue of TCP connects handed to another thread. The random
  choices (a shuffle and a number below 800) are arguments; sleeping is not modelled.
\<close>

record Punch = ContextInner +
  pu_port_vec :: "u16 list"
  pu_port_index :: "ipv4 \<Rightarrow> nat option"
  pu_punch_model :: PunchModel
  pu_nat_test :: NatTest
  pu_current_device :: CurrentDeviceInfo
  pu_connects :: "(u8 list \<times> socket_addr) list"

definition all_ports :: "u16 list" where
  "all_ports = map of_nat [1..<65535] @ [65535]"

definition Punch_new ::
    "(u16 list \<Rightarrow> u16 list) \<Rightarrow> ContextInner \<Rightarrow> PunchModel \<Rightarrow> NatTest \<Rightarrow> CurrentDeviceInfo \<Rightarrow> Punch" where
  "Punch_new shuffle c punch_model nat_test current_device =
     ContextInner.extend c
       \<lparr>pu_port_vec = shuffle all_ports, pu_port_index = Map.empty, pu_punch_model = punch_model,
        pu_nat_test = nat_test, pu_current_device = current_device, pu_connects = []\<rparr>"

definition connect_tcp :: "u8 list \<Rightarrow> socket_addr \<Rightarrow> (Punch, unit) cmd" where
  "connect_tcp buf addr = bindS (getS pu_nat_test) (\<lambda>nat_test.
     if is_local_address nat_test True addr then retS ()
     else modS (\<lambda>p. p\<lparr>pu_connects := pu_connects p @ [(buf, addr)]\<rparr>))"

section \<open>Guessing ports of a symmetric NAT\<close>

text \<open>One port at every address; \<open>None\<close> when the allowance \<open>max_n\<close> is used up, else the cnt so far.\<close>

primrec symmetric_ips :: "env \<Rightarrow> u8 list \<Rightarrow> nat \<Rightarrow> u16 \<Rightarrow> ipv4 list \<Rightarrow> nat \<Rightarrow> ('a ContextInner_scheme, nat option) cmd" where
  "symmetric_ips E buf max_n port [] cnt = retS (Some cnt)"
| "symmetric_ips E buf max_n port (pub_ip # ips) cnt =
     (if cnt + 1 = max_n then retS None
      else thenS (send_main_udp E 0 buf (SockV4 pub_ip port)) (symmetric_ips E buf max_n port ips (cnt + 1)))"

primrec symmetric_ports ::
    "env \<Rightarrow> u8 list \<Rightarrow> nat \<Rightarrow> ipv4 list \<Rightarrow> u16 list \<Rightarrow> nat \<Rightarrow> nat \<Rightarrow> ('a ContextInner_scheme, nat) cmd" where
  "symmetric_ports E buf max_n ips [] index cnt = retS index"
| "symmetric_ports E buf max_n ips (port # ports) index cnt =
     bindS (symmetric_ips E buf max_n port ips cnt) (\<lambda>r. case r of
       None \<Rightarrow> retS index | Some c \<Rightarrow> symmetric_ports E buf max_n ips ports (index + 1) c)"

definition punch_symmetric :: "env \<Rightarrow> u16 list \<Rightarrow> u8 list \<Rightarrow> ipv4 list \<Rightarrow> nat \<Rightarrow> ('a ContextInner_scheme, nat) cmd" where
  "punch_symmetric E ports buf ips max_n = symmetric_ports E buf max_n ips ports 0 0"

text \<open>The predicted range around the last known port, in 16-bit arithmetic.\<close>

definition port_window :: "u16 \<Rightarrow> u16 \<Rightarrow> u16 \<times> u16" where
  "port_window port port_range =
     (let min_port = (if port > port_range then port - port_range else 1);
          overflow = unat port + unat port_range \<ge> 2 ^ 16;
          max_port = (if overflow then 65535 else port + port_range) in (min_port, max_port))"

definition punch_predicted :: "env \<Rightarrow> (u16 list \<Rightarrow> u16 list) \<Rightarrow> u8 list \<Rightarrow> NatInfo \<Rightarrow> ('a ContextInner_scheme, unit) cmd" where
  "punch_predicted E shuffle buf n =
     (let port = (case ni_public_ports n of [] \<Rightarrow> 0 | p # _ \<Rightarrow> p) in
      if ni_public_port_range n < 60 * 3 then
        (let (min_port, max_port) = port_window port (ni_public_port_range n);
             k = (if max_port - min_port + 1 > 60 then 60 else unat (max_port - min_port + 1));
             nums = shuffle (map of_nat [unat min_port..<Suc (unat max_port)]) in
         bindS (liftE (slice nums 0 k)) (\<lambda>ports.
           bindS (punch_symmetric E ports buf (ni_public_ips n) 60) (\<lambda>_. retS ())))
      else retS ())"

definition punch_random :: "env \<Rightarrow> nat \<Rightarrow> u8 list \<Rightarrow> ipv4 \<Rightarrow> NatInfo \<Rightarrow> (Punch, unit) cmd" where
  "punch_random E max_k2 buf peer n =
     bindS (updS (\<lambda>p. case pu_port_index p peer of
        Some i \<Rightarrow> (i, p) | None \<Rightarrow> (0, p\<lparr>pu_port_index := (pu_port_index p)(peer \<mapsto> 0)\<rparr>))) (\<lambda>start.
     bindS (getS pu_port_vec) (\<lambda>port_vec.
       let end' = (if start + max_k2 > length port_vec then length port_vec else start + max_k2) in
       bindS (liftE (slice port_vec start end')) (\<lambda>ports.
       bindS (punch_symmetric E ports buf (ni_public_ips n) max_k2) (\<lambda>done'.
         let index = start + done' in
         let index = (if index \<ge> length port_vec then 0 else index) in
         modS (\<lambda>p. p\<lparr>pu_port_index := (pu_port_index p)(peer \<mapsto> index)\<rparr>)))))"

text \<open>The allowance of one round shrinks with the number of rounds tried.\<close>

definition symmetric_allowance :: "nat \<Rightarrow> nat \<Rightarrow> nat" where
  "symmetric_allowance max_k2 cnt = (if cnt > 2 then max (max_k2 * 2 div cnt) 60 else max_k2)"

section \<open>The known ports of a cone NAT\<close>

definition cone_ip :: "env \<Rightarrow> bool \<Rightarrow> u8 list \<Rightarrow> nat \<Rightarrow> u16 \<Rightarrow> ipv4 \<Rightarrow> ('a ContextInner_scheme, unit) cmd" where
  "cone_ip E cone buf index port ip =
     (if port = 0 \<or> is_unspecified ip then retS ()
      else if cone then send_main_udp E index buf (SockV4 ip port)
      else try_send_all E buf (SockV4 ip port))"

primrec cone_loop :: "env \<Rightarrow> bool \<Rightarrow> u8 list \<Rightarrow> NatInfo \<Rightarrow> nat list \<Rightarrow> ('a ContextInner_scheme, unit) cmd" where
  "cone_loop E cone buf n [] = retS ()"
| "cone_loop E cone buf n (index # is) =
     bindS (liftE (rd (ni_public_ports n) index)) (\<lambda>port.
     thenS (forS (cone_ip E cone buf index port) (ni_public_ips n))
       (if \<not> cone then retS () else cone_loop E cone buf n is))"

section \<open>A round\<close>

text \<open>What the peer claimed is filtered first: nothing inside the virtual network, no port 0.\<close>

definition punch_filter :: "CurrentDeviceInfo \<Rightarrow> NatInfo \<Rightarrow> NatInfo" where
  "punch_filter d n =
     n\<lparr>ni_public_ips := filter (\<lambda>ip. is_ipv4_global ip \<and> not_in_network d ip) (ni_public_ips n),
       ni_public_ports := filter (\<lambda>port. port \<noteq> 0) (ni_public_ports n),
       ni_udp_ports := filter (\<lambda>port. port \<noteq> 0) (ni_udp_ports n),
       ni_local_ipv4 := (case ni_local_ipv4 n of
          Some ip \<Rightarrow> if not_in_network d ip then Some ip else None | None \<Rightarrow> None)\<rparr>"

definition punch_tcp_peer :: "PunchModel \<Rightarrow> u8 list \<Rightarrow> NatInfo \<Rightarrow> (Punch, unit) cmd" where
  "punch_tcp_peer m buf n =
     thenS (whenS (PunchModel_use_ipv6 m)
       (case local_tcp_ipv6addr n of None \<Rightarrow> retS () | Some a \<Rightarrow> connect_tcp buf a))
     (whenS (PunchModel_use_ipv4 m)
       (thenS (case local_tcp_ipv4addr n of None \<Rightarrow> retS () | Some a \<Rightarrow> connect_tcp buf a)
         (forS (\<lambda>ip. connect_tcp buf (SockV4 ip (ni_tcp_port n))) (ni_public_ips n))))"

text \<open>The IPv6 sockets; \<open>True\<close> when the round ends because only IPv6 was asked for.\<close>

primrec punch_ipv6 :: "env \<Rightarrow> PunchModel \<Rightarrow> NatTest \<Rightarrow> u8 list \<Rightarrow> NatInfo \<Rightarrow> nat list \<Rightarrow> ('a ContextInner_scheme, bool) cmd" where
  "punch_ipv6 E m t buf n [] = retS False"
| "punch_ipv6 E m t buf n (index # is) =
     (case local_udp_ipv6addr n index of
        None \<Rightarrow> punch_ipv6 E m t buf n is
      | Some a \<Rightarrow>
          if is_local_address t False a then punch_ipv6 E m t buf n is
          else bindS (tryS (send_main_udp E index buf a)) (\<lambda>rs.
            if is_Ok rs \<and> m = PM_IPv6 then retS True else punch_ipv6 E m t buf n is))"

definition punch_local :: "env \<Rightarrow> NatTest \<Rightarrow> u8 list \<Rightarrow> NatInfo \<Rightarrow> nat \<Rightarrow> ('a ContextInner_scheme, unit) cmd" where
  "punch_local E t buf n index = (case local_udp_ipv4addr n index of
     None \<Rightarrow> retS ()
   | Some a \<Rightarrow> if is_local_address t False a then retS () else ignoreS (send_main_udp E index buf a))"

definition punch_open :: "env \<Rightarrow> u8 list \<Rightarrow> NatInfo \<Rightarrow> nat \<Rightarrow> ('a ContextInner_scheme, unit) cmd" where
  "punch_open E buf n index = forS (\<lambda>port.
     if port = 0 then retS ()
     else forS (\<lambda>ip. if is_unspecified ip then retS () else ignoreS (send_main_udp E index buf (SockV4 ip port)))
       (ni_public_ips n)) (ni_udp_ports n)"

definition punch_guess ::
    "env \<Rightarrow> (u16 list \<Rightarrow> u16 list) \<Rightarrow> nat \<Rightarrow> u8 list \<Rightarrow> ipv4 \<Rightarrow> NatInfo \<Rightarrow> nat \<Rightarrow> (Punch, unit) cmd" where
  "punch_guess E shuffle max_k2 buf peer n cnt = (case ni_nat_type n of
     Symmetric \<Rightarrow>
       thenS (punch_predicted E shuffle buf n)
         (punch_random E (symmetric_allowance max_k2 cnt) buf peer n)
   | Cone \<Rightarrow> bindS (getS (\<lambda>p. (cx_v4_len p, is_cone p))) (\<lambda>(channel_num, cone).
       cone_loop E cone buf n [0..<min (length (ni_public_ports n)) channel_num]))"

definition punch ::
    "env \<Rightarrow> (u16 list \<Rightarrow> u16 list) \<Rightarrow> nat \<Rightarrow> u8 list \<Rightarrow> ipv4 \<Rightarrow> NatInfo \<Rightarrow> bool \<Rightarrow> nat \<Rightarrow> (Punch, unit) cmd" where
  "punch E shuffle max_k2 buf peer nat_info punch_tcp cnt = bindS (getS id) (\<lambda>p.
     if no_need_punch (cx_route_table p) peer then retS ()
     else
       (let n = punch_filter (pu_current_device p) nat_info; m = pu_punch_model p; t = pu_nat_test p;
            channel_num = cx_v4_len p; main_len = cx_main_len p in
        thenS (whenS (punch_tcp \<and> PunchModel_use_tcp m \<and> ni_tcp_port n \<noteq> 0) (punch_tcp_peer m buf n))
        (if \<not> PunchModel_use_udp m then retS ()
         else bindS (if PunchModel_use_ipv6 m then punch_ipv6 E m t buf n [channel_num..<main_len] else retS False) (\<lambda>ended.
           if ended \<or> \<not> PunchModel_use_ipv4 m then retS ()
           else thenS (forS (punch_local E t buf n) [0..<channel_num])
             (thenS (forS (punch_open E buf n) [0..<channel_num])
               (punch_guess E shuffle max_k2 buf peer n cnt))))))"

section \<open>What a round may touch\<close>

definition punch_inv :: "Punch \<Rightarrow> bool" where
  "punch_inv p \<longleftrightarrow> mset (pu_port_vec p) = mset all_ports \<and>
     (\<forall>ip i. pu_port_index p ip = Some i \<longrightarrow> i < length (pu_port_vec p))"

text \<open>The addresses a peer with this NAT information may be tried at.\<close>

definition punch_target :: "CurrentDeviceInfo \<Rightarrow> NatInfo \<Rightarrow> socket_addr \<Rightarrow> bool" where
  "punch_target d n a = (sa_port a \<noteq> 0 \<and> (case a of
     SockV4 ip _ \<Rightarrow> not_in_network d ip \<and> (is_ipv4_global ip \<and> ip \<in> set (ni_public_ips n) \<or> ni_local_ipv4 n = Some ip)
   | SockV6 ip _ _ _ \<Rightarrow> ni_ipv6 n = Some ip))"

text \<open>\<open>s\<close> is \<open>p\<close> after some more calls, all with the bytes \<open>b\<close> and to addresses in \<open>good\<close>.\<close>

definition punched :: "(socket_addr \<Rightarrow> bool) \<Rightarrow> u8 list \<Rightarrow> Punch \<Rightarrow> Punch \<Rightarrow> bool" where
  "punched good b p s \<longleftrightarrow> punch_inv s \<and> cx_route_table s = cx_route_table p \<and>
     (\<exists>new. cx_sent s = cx_sent p @ new \<and> (\<forall>(x, k) \<in> set new. good (send_target x) \<and> send_bytes x = b)) \<and>
     (\<exists>new. pu_connects s = pu_connects p @ new \<and> (\<forall>(b', a) \<in> set new. good a \<and> b' = b))"

abbreviation kept :: "('s \<Rightarrow> bool) \<Rightarrow> ('s, unit) cmd \<Rightarrow> bool" where
  "kept I m \<equiv> triple I m (\<lambda>_. I) I"

lemma punched_refl: "punch_inv p \<Longrightarrow> punched good b p p"
  by (simp add: punched_def)

lemma punched_sent:
  "punched good b p s \<Longrightarrow> good (send_target x) \<Longrightarrow> send_bytes x = b \<Longrightarrow>
   punched good b p (s\<lparr>cx_sent := cx_sent s @ [(x, k)]\<rparr>)"
  unfolding punched_def punch_inv_def by (elim conjE exE) (auto intro!: exI)

lemma punched_connect:
  "punched good b p s \<Longrightarrow> good a \<Longrightarrow> punched good b p (s\<lparr>pu_connects := pu_connects s @ [(b, a)]\<rparr>)"
  unfolding punched_def punch_inv_def by (elim conjE exE) (auto intro!: exI)

lemma punched_index:
  "punched good b p s \<Longrightarrow> i < length (pu_port_vec s) \<Longrightarrow>
   punched good b p (s\<lparr>pu_port_index := (pu_port_index s)(ip \<mapsto> i)\<rparr>)"
  by (auto simp: punched_def punch_inv_def)

lemma os_send_kept:
  "good (send_target x) \<Longrightarrow> send_bytes x = b \<Longrightarrow> kept (punched good b p) (os_send E x)"
  by (auto simp: triple_def os_send_def Let_def punched_sent split: option.splits)

lemma send_main_kept: "good a \<Longrightarrow> kept (punched good b p) (send_main_udp E i b a)"
  unfolding send_main_udp_def
  by (rule triple_get_bind, rule triple_if, rule triple_pre[OF os_send_kept])
    (auto intro: triple_failS)

lemma try_each_kept: "(\<And>i. kept I (send i)) \<Longrightarrow> kept I (try_each send is)"
  by (induction "is") (auto intro!: triple_thenS triple_catchS triple_retS)

lemma try_all_kept:
  assumes "good a"
  shows "kept (punched good b p) (try_send_all E b a)"
proof -
  have 1: "kept (punched good b p) (try_each (\<lambda>i. send_main_udp E i b a) is)" for "is"
    by (rule try_each_kept[OF send_main_kept[of good a b p E, OF assms]])
  have 2: "kept (punched good b p) (try_each (\<lambda>i. os_send E (Send_sub i b a)) is)" for "is"
    by (rule try_each_kept, rule os_send_kept) (simp_all add: assms)
  show ?thesis
    unfolding try_send_all_def try_send_all_main_def
    by (rule triple_thenS[where R = "punched good b p"]; rule triple_get_bind)
      (rule triple_pre[OF 1], simp, rule triple_pre[OF 2], simp)
qed

lemma thenS_kept: "kept I m \<Longrightarrow> kept I n \<Longrightarrow> kept I (thenS m n)"
  by (rule triple_thenS)

lemma forS_kept: "(\<And>x. x \<in> set xs \<Longrightarrow> kept I (f x)) \<Longrightarrow> kept I (forS f xs)"
  by (rule triple_forS)

lemma symmetric_ips_kept:
  "(\<And>ip. ip \<in> set ips \<Longrightarrow> good (SockV4 ip port)) \<Longrightarrow>
   triple (punched good b p) (symmetric_ips E b m port ips c) (\<lambda>_. punched good b p) (punched good b p)"
  by (induction ips arbitrary: c) (auto intro!: triple_intros triple_thenS send_main_kept)

lemma symmetric_ports_kept:
  "(\<And>ip port. ip \<in> set ips \<Longrightarrow> port \<in> set ports \<Longrightarrow> good (SockV4 ip port)) \<Longrightarrow>
   triple (punched good b p) (symmetric_ports E b m ips ports i c)
     (\<lambda>j s. punched good b p s \<and> i \<le> j \<and> j \<le> i + length ports) (punched good b p)"
proof (induction ports arbitrary: i c)
  case Nil
  show ?case by (simp add: triple_def)
next
  case (Cons port ports)
  have "triple (punched good b p) (symmetric_ports E b m ips ports (i + 1) c)
      (\<lambda>j s. punched good b p s \<and> i \<le> j \<and> j \<le> i + length (port # ports)) (punched good b p)" for c
    by (rule triple_conseq[OF Cons.IH[of "i + 1" c]]) (auto intro: Cons.prems)
  then show ?case
    by (auto intro!: triple_bindS[OF symmetric_ips_kept] triple_intros Cons.prems)
qed

lemma punch_symmetric_kept:
  "(\<And>ip port. ip \<in> set ips \<Longrightarrow> port \<in> set ports \<Longrightarrow> good (SockV4 ip port)) \<Longrightarrow>
   triple (punched good b p) (punch_symmetric E ports b ips m)
     (\<lambda>j s. punched good b p s \<and> j \<le> length ports) (punched good b p)"
  unfolding punch_symmetric_def
  by (rule triple_conseq[OF symmetric_ports_kept]) auto

section \<open>The arithmetic of a round\<close>

lemma unat_le_65535: "unat (x::u16) \<le> 65535"
  using unsigned_less[of x, where 'a = nat] by simp

lemma unat_of_nat_u16: "n < 65536 \<Longrightarrow> unat (of_nat n :: u16) = n"
  by (simp add: unat_of_nat)

lemma of_nat_u16_nonzero: "0 < n \<Longrightarrow> n < 65536 \<Longrightarrow> of_nat n \<noteq> (0::u16)"
  using unat_of_nat_u16[of n] by (metis unat_0 less_irrefl)

lemma port_window_bounds:
  assumes "port_window port r = (a, b)" "r < 180"
  shows "1 \<le> unat a \<and> unat (b - a + 1) = Suc (unat b) - unat a"
proof (cases "unat port + unat r \<ge> 2 ^ 16")
  case True
  have r: "unat r < 180" using assms(2) by (simp add: word_less_nat_alt)
  with True have gt: "port > r" by (simp add: word_less_nat_alt)
  have b: "b = 65535" and a: "a = port - r" using assms(1) True gt by (simp_all add: port_window_def Let_def)
  have ua: "unat a = unat port - unat r" using gt by (simp add: a unat_sub word_less_nat_alt word_le_nat_alt)
  have "b - a = of_nat (65535 - unat a)" using unat_le_65535[of a] by (simp add: b of_nat_diff)
  then have "b - a + 1 = of_nat (65535 - unat a + 1)" by simp
  moreover have "65535 - unat a + 1 < 65536" using True r ua by simp
  ultimately have "unat (b - a + 1) = 65535 - unat a + 1" by (simp only: unat_of_nat_u16)
  moreover have "65536 - 180 < unat port" "unat port \<le> 65535" using True r unat_le_65535[of port] by auto
  moreover have "unat b = 65535" by (simp add: b)
  ultimately show ?thesis using r ua by auto
next
  case False
  have r: "unat r < 180" using assms(2) by (simp add: word_less_nat_alt)
  have b: "b = port + r" and ub: "unat b = unat port + unat r"
    using assms(1) False by (auto simp: port_window_def Let_def unat_word_ariths split: if_splits)
  show ?thesis
  proof (cases "port > r")
    case True
    have a: "a = port - r" using assms(1) True by (simp add: port_window_def Let_def split: if_splits)
    have ua: "unat a = unat port - unat r" using True by (simp add: a unat_sub word_less_nat_alt word_le_nat_alt)
    have "b - a + 1 = of_nat (2 * unat r + 1)" by (simp add: a b)
    then have "unat (b - a + 1) = 2 * unat r + 1" using r by (simp only: unat_of_nat) simp
    moreover have "unat r < unat port" using True by (simp add: word_less_nat_alt)
    ultimately show ?thesis using ua ub by simp
  next
    case False
    have "a = 1" using assms(1) False by (simp add: port_window_def Let_def split: if_splits)
    then show ?thesis using b ub by simp
  qed
qed

text \<open>So the slice of the shuffled window is in range, and port 0 is never guessed.\<close>

lemma window_slice:
  assumes "port_window port r = (a, b)" "r < 180" "mset nums = mset (map of_nat [unat a..<Suc (unat b)] :: u16 list)"
    "k \<le> unat (b - a + 1)"
  shows "k \<le> length nums \<and> (0::u16) \<notin> set nums"
proof -
  have l: "length nums = Suc (unat b) - unat a" using mset_eq_length[OF assms(3)] by (simp only: length_map length_upt)
  have "set nums = of_nat ` {unat a..<Suc (unat b)}"
    using mset_eq_setD[OF assms(3)] by (metis list.set_map set_upt)
  moreover have "of_nat n \<noteq> (0::u16)" if "unat a \<le> n" "n \<le> unat b" for n
    using that port_window_bounds[OF assms(1,2)] unat_le_65535[of b] by (intro of_nat_u16_nonzero) auto
  ultimately show ?thesis using l port_window_bounds[OF assms(1,2)] assms(4) by auto
qed

lemma all_ports_facts: "length all_ports = 65535" "0 \<notin> set all_ports"
proof -
  show "length all_ports = 65535" by (simp add: all_ports_def)
  show "0 \<notin> set all_ports" using of_nat_u16_nonzero by (auto simp: all_ports_def)
qed

lemma punch_inv_ports: "punch_inv p \<Longrightarrow> length (pu_port_vec p) = 65535 \<and> 0 \<notin> set (pu_port_vec p)"
  using all_ports_facts mset_eq_length[of "pu_port_vec p" all_ports] mset_eq_setD[of "pu_port_vec p" all_ports]
  by (auto simp: punch_inv_def)

section \<open>The round as a whole\<close>

lemma triple_liftE_kept: "(\<And>x. r = Inr x \<Longrightarrow> triple I (f x) Q E) \<Longrightarrow> r \<noteq> Inl Panic \<Longrightarrow> (\<And>s. I s \<Longrightarrow> E s) \<Longrightarrow>
   triple I (bindS (liftE r) f) Q E"
  by (cases r) (auto simp: triple_def bindS_def)

lemma punch_predicted_kept:
  assumes "\<And>xs. mset (shuffle xs) = mset (xs :: u16 list)"
    and "\<And>ip port. ip \<in> set (ni_public_ips n) \<Longrightarrow> port \<noteq> 0 \<Longrightarrow> good (SockV4 ip port)"
  shows "kept (punched good b p) (punch_predicted E shuffle b n)"
proof (cases "ni_public_port_range n < 180")
  case True
  define port where "port = (case ni_public_ports n of [] \<Rightarrow> 0 | q # _ \<Rightarrow> q)"
  obtain mn mx where w: "port_window port (ni_public_port_range n) = (mn, mx)" by fastforce
  define k where "k = (if mx - mn + 1 > 60 then 60 else unat (mx - mn + 1))"
  define nums where "nums = shuffle (map of_nat [unat mn..<Suc (unat mx)])"
  have k: "k \<le> unat (mx - mn + 1)" by (auto simp: k_def word_less_nat_alt)
  have ws: "k \<le> length nums \<and> 0 \<notin> set nums"
    by (rule window_slice[OF w True _ k]) (simp add: nums_def assms(1))
  have ps: "kept (punched good b p) (bindS (punch_symmetric E (take k nums) b (ni_public_ips n) 60) (\<lambda>_. retS ()))"
    by (rule triple_bindS[OF punch_symmetric_kept], rule assms(2))
      (use ws in \<open>auto intro!: triple_retS dest: in_set_takeD\<close>)
  have "(punch_predicted E shuffle b n :: (Punch, unit) cmd) =
      bindS (liftE (slice nums 0 k)) (\<lambda>ports. bindS (punch_symmetric E ports b (ni_public_ips n) 60) (\<lambda>_. retS ()))"
    using True w by (simp add: punch_predicted_def port_def[symmetric] k_def nums_def Let_def)
  then show ?thesis using ws ps by (simp add: slice_def)
next
  case False
  then show ?thesis by (simp add: punch_predicted_def Let_def triple_def)
qed

lemma punch_random_kept:
  assumes "\<And>ip port. ip \<in> set (ni_public_ips n) \<Longrightarrow> port \<noteq> 0 \<Longrightarrow> good (SockV4 ip port)"
  shows "kept (punched good b p) (punch_random E k b peer n)"
proof -
  let ?I = "punched good b p"
  have len: "?I s \<Longrightarrow> length (pu_port_vec s) = 65535 \<and> 0 \<notin> set (pu_port_vec s)" for s
    using punch_inv_ports by (simp add: punched_def)
  have start: "triple ?I (updS (\<lambda>p. case pu_port_index p peer of
        Some i \<Rightarrow> (i, p) | None \<Rightarrow> (0, p\<lparr>pu_port_index := (pu_port_index p)(peer \<mapsto> 0)\<rparr>)))
      (\<lambda>i s. ?I s \<and> i < 65535) ?I"
    unfolding triple_def
  proof (intro allI impI)
    fix s assume I: "?I s"
    show "case updS (\<lambda>p. case pu_port_index p peer of
        Some i \<Rightarrow> (i, p) | None \<Rightarrow> (0, p\<lparr>pu_port_index := (pu_port_index p)(peer \<mapsto> 0)\<rparr>)) s of
       (Inr x, s') \<Rightarrow> ?I s' \<and> x < 65535 | (Inl e, s') \<Rightarrow> e \<noteq> Panic \<and> ?I s'"
      using I len[OF I] by (cases "pu_port_index s peer")
        (auto simp: punched_index, auto simp: punched_def punch_inv_def)
  qed
  have rest: "kept ?I (bindS (liftE (slice v i e)) (\<lambda>ports.
       bindS (punch_symmetric E ports b (ni_public_ips n) k) (\<lambda>d.
         modS (\<lambda>p. p\<lparr>pu_port_index := (pu_port_index p)(peer \<mapsto> if i + d \<ge> length v then 0 else i + d)\<rparr>))))"
    if v: "length v = 65535" "0 \<notin> set v" and i: "i \<le> e" "e \<le> length v" for v i e
  proof -
    have sl: "slice v i e = Inr (take (e - i) (drop i v))" using i by (simp add: slice_def)
    have "kept ?I (bindS (punch_symmetric E (take (e - i) (drop i v)) b (ni_public_ips n) k) (\<lambda>d.
         modS (\<lambda>p. p\<lparr>pu_port_index := (pu_port_index p)(peer \<mapsto> if i + d \<ge> length v then 0 else i + d)\<rparr>)))"
    proof (rule triple_bindS[OF punch_symmetric_kept])
      fix ip port assume "ip \<in> set (ni_public_ips n)" "port \<in> set (take (e - i) (drop i v))"
      then show "good (SockV4 ip port)" using v(2) assms by (metis in_set_takeD in_set_dropD)
    next
      fix d
      show "triple (\<lambda>s. ?I s \<and> d \<le> length (take (e - i) (drop i v)))
         (modS (\<lambda>p. p\<lparr>pu_port_index := (pu_port_index p)(peer \<mapsto> if i + d \<ge> length v then 0 else i + d)\<rparr>)) (\<lambda>_. ?I) ?I"
        by (rule triple_modS, rule punched_index) (use len v in auto)
    qed
    then show ?thesis by (simp add: sl)
  qed
  show ?thesis
    unfolding punch_random_def Let_def
  proof (rule triple_bindS[OF start], rule triple_get_bind)
    fix i v
    show "triple (\<lambda>s. (?I s \<and> i < 65535) \<and> v = pu_port_vec s)
      (bindS (liftE (slice v i (if i + k > length v then length v else i + k))) (\<lambda>ports.
       bindS (punch_symmetric E ports b (ni_public_ips n) k) (\<lambda>d.
         modS (\<lambda>p. p\<lparr>pu_port_index := (pu_port_index p)(peer \<mapsto> if i + d \<ge> length v then 0 else i + d)\<rparr>))))
      (\<lambda>_. ?I) ?I"
    proof (rule triple_fact[where \<phi> = "length v = 65535 \<and> 0 \<notin> set v \<and> i < 65535"])
      assume "length v = 65535 \<and> 0 \<notin> set v \<and> i < 65535"
      then show ?thesis by (intro triple_pre[OF rest]) auto
    qed (use len in auto)
  qed
qed

lemma cone_loop_kept:
  assumes "\<And>ip port. ip \<in> set (ni_public_ips n) \<Longrightarrow> port \<noteq> 0 \<Longrightarrow> good (SockV4 ip port)"
    and "\<And>i. i \<in> set is \<Longrightarrow> i < length (ni_public_ports n)"
  shows "kept (punched good b p) (cone_loop E cone b n is)"
  using assms(2)
proof (induction "is")
  case (Cons i "is")
  have 1: "kept (punched good b p) (forS (cone_ip E cone b i (ni_public_ports n ! i)) (ni_public_ips n))"
    unfolding cone_ip_def
    by (rule forS_kept, rule triple_if, rule triple_retS, assumption, rule triple_if)
      (auto intro!: send_main_kept try_all_kept assms(1))
  have 2: "kept (punched good b p) (if \<not> cone then retS () else cone_loop E cone b n is)"
    using Cons by (auto intro!: triple_if triple_retS)
  show ?case using Cons.prems[of i] triple_thenS[OF 1 2] by (simp add: rd_def)
qed (simp add: triple_def)

lemma connect_tcp_kept: "good a \<Longrightarrow> kept (punched good b p) (connect_tcp b a)"
  unfolding connect_tcp_def
  by (rule triple_get_bind, rule triple_if) (auto intro!: triple_retS triple_modS punched_connect)

lemma punch_tcp_kept:
  assumes "ni_tcp_port n \<noteq> 0"
    and "\<And>a. local_tcp_ipv6addr n = Some a \<Longrightarrow> good a" "\<And>a. local_tcp_ipv4addr n = Some a \<Longrightarrow> good a"
    and "\<And>ip. ip \<in> set (ni_public_ips n) \<Longrightarrow> good (SockV4 ip (ni_tcp_port n))"
  shows "kept (punched good b p) (punch_tcp_peer m b n)"
  unfolding punch_tcp_peer_def
  by (intro thenS_kept triple_whenS triple_option forS_kept connect_tcp_kept assms triple_retS) auto

lemma punch_ipv6_kept:
  assumes "\<And>i a. local_udp_ipv6addr n i = Some a \<Longrightarrow> good a"
  shows "triple (punched good b p) (punch_ipv6 E m t b n is) (\<lambda>_. punched good b p) (punched good b p)"
proof (induction "is")
  case (Cons i "is")
  have "triple (punched good b p) (bindS (tryS (send_main_udp E i b a)) (\<lambda>rs.
      if is_Ok rs \<and> m = PM_IPv6 then retS True else punch_ipv6 E m t b n is)) (\<lambda>_. punched good b p) (punched good b p)"
    if "good a" for a
    by (rule triple_bindS[where R = "\<lambda>_. punched good b p"], rule triple_tryS, rule send_main_kept[of good a, OF that])
      (auto intro!: triple_if triple_retS Cons.IH)
  then show ?case
    by (auto intro!: triple_option triple_if Cons.IH assms)
qed (simp add: triple_def)

lemma ignore_send_kept: "good a \<Longrightarrow> kept (punched good b p) (ignoreS (send_main_udp E i b a))"
  by (rule triple_ignoreS[OF send_main_kept])

lemma punch_local_kept:
  "(\<And>a. local_udp_ipv4addr n i = Some a \<Longrightarrow> good a) \<Longrightarrow> kept (punched good b p) (punch_local E t b n i)"
  unfolding punch_local_def
  by (rule triple_option) (auto intro!: triple_if triple_retS ignore_send_kept)

lemma punch_open_kept:
  assumes "\<And>ip port. ip \<in> set (ni_public_ips n) \<Longrightarrow> port \<noteq> 0 \<Longrightarrow> good (SockV4 ip port)"
  shows "kept (punched good b p) (punch_open E b n i)"
  unfolding punch_open_def
  by (intro forS_kept triple_if) (auto intro!: triple_retS ignore_send_kept assms)

lemma punch_guess_kept:
  assumes "\<And>xs. mset (shuffle xs) = mset (xs :: u16 list)"
    and good: "\<And>ip port. ip \<in> set (ni_public_ips n) \<Longrightarrow> port \<noteq> 0 \<Longrightarrow> good (SockV4 ip port)"
  shows "kept (punched good b p) (punch_guess E shuffle k b peer n c)"
proof (cases "ni_nat_type n")
  case Symmetric
  then show ?thesis unfolding punch_guess_def
    by (simp, intro triple_thenS[OF punch_predicted_kept punch_random_kept] assms)
next
  case Cone
  have "kept (punched good b p) (cone_loop E cone b n [0..<min (length (ni_public_ports n)) l])" for cone l
    by (rule cone_loop_kept) (auto intro: good)
  then have *: "triple (\<lambda>s. punched good b p s \<and> v = (cx_v4_len s, is_cone s))
      (cone_loop E (snd v) b n [0..<min (length (ni_public_ports n)) (fst v)]) (\<lambda>_. punched good b p) (punched good b p)" for v
    by (rule triple_pre) simp
  show ?thesis using * Cone unfolding punch_guess_def
    by (simp, intro triple_get_bind) (simp add: case_prod_beta)
qed

text \<open>Every address taken from the filtered NAT information is a legitimate target.\<close>

lemma filtered_targets:
  fixes d n defines "f \<equiv> punch_filter d n"
  shows "ip \<in> set (ni_public_ips f) \<Longrightarrow> port \<noteq> 0 \<Longrightarrow> punch_target d n (SockV4 ip port)"
    and "local_tcp_ipv6addr f = Some a \<Longrightarrow> punch_target d n a"
    and "local_tcp_ipv4addr f = Some a \<Longrightarrow> punch_target d n a"
    and "local_udp_ipv6addr f i = Some a \<Longrightarrow> punch_target d n a"
    and "local_udp_ipv4addr f i = Some a \<Longrightarrow> punch_target d n a"
proof -
  have nz: "ni_udp_ports f \<noteq> [] \<Longrightarrow> ni_udp_ports f ! (i mod length (ni_udp_ports f)) \<noteq> 0"
    using nth_mem[of "i mod length (ni_udp_ports f)" "ni_udp_ports f"] by (auto simp: f_def punch_filter_def)
  show "ip \<in> set (ni_public_ips f) \<Longrightarrow> port \<noteq> 0 \<Longrightarrow> punch_target d n (SockV4 ip port)"
    by (auto simp: f_def punch_filter_def punch_target_def)
  show "local_tcp_ipv6addr f = Some a \<Longrightarrow> punch_target d n a" "local_tcp_ipv4addr f = Some a \<Longrightarrow> punch_target d n a"
    by (auto simp: f_def punch_filter_def punch_target_def local_tcp_ipv6addr_def local_tcp_ipv4addr_def
        split: if_splits option.splits)
  show "local_udp_ipv6addr f i = Some a \<Longrightarrow> punch_target d n a" "local_udp_ipv4addr f i = Some a \<Longrightarrow> punch_target d n a"
    using nz by (auto simp: local_udp_ipv6addr_def local_udp_ipv4addr_def punch_target_def Let_def split: if_splits)
      (auto simp: f_def punch_filter_def split: option.splits if_splits)
qed

section \<open>Properties\<close>


definition ex_context :: ContextInner where
  "ex_context = \<lparr>cx_main_len = 2, cx_v4_len = 1, cx_sub_len = 0, cx_packet_map = [],
     cx_route_table = RouteTable_new Use_All True 1, cx_protocol = Conn_UDP, cx_packet_loss_rate = 0,
     cx_packet_delay = 0, cx_up_meter = None, cx_down_meter = None, cx_sent = [], cx_draws = 0\<rparr>"

definition ex_env :: env where
  "ex_env = \<lparr>env_os = (\<lambda>_ _. None), env_rng = (\<lambda>_. 0), env_gen_ratio = (\<lambda>_ _ _. False), env_now = 0, env_millis = 0\<rparr>"

definition ex_nat_test :: NatTest where
  "ex_nat_test = NatTest_new 0 [] (Some 0xC0A80105) None [1000] 1000 False"

definition ex_peer_nat :: NatInfo where
  "ex_peer_nat = NatInfo_new [0x01020304] [5000] 3 (Some 0xC0A80107) None [1001] 1001 Symmetric"


end
