(* ===== verification/Ip_Proxy.thy ===== *)
theory Ip_Proxy
  imports Channel_Context Device_Info Cipher Control_Packet Transport_Packet Icmp_Packet
begin

text \<open>
  The user-space NAT of \<^verbatim>\<open>vnt/src/ip_proxy\<close>: packets of peers to addresses behind this device are
  redirected to a local listener (\<open>recv_handle\<close>), which connects to the real target, and what the listener
  answers is given the target's address again (\<open>send_handle\<close>). The listeners' sockets are the operating
  system's: the outcomes of their calls are arguments. An error of a handler drops the packet, so the
  handlers return the edited packet only on success.
\<close>

type_synonym sock4 = "ipv4 \<times> u16"

text \<open>Edit the payload of an IPv4 packet in place and return a value.\<close>

definition payload_edit :: "u8 list \<Rightarrow> (u8 list \<Rightarrow> ('a \<times> u8 list) res) \<Rightarrow> ('a \<times> u8 list) res" where
  "payload_edit buffer f =
     bindE (IpV4Packet_header_len buffer) (\<lambda>h.
       bindE (slice buffer (unat h * 4) (length buffer)) (\<lambda>pl.
         bindE (f pl) (\<lambda>(x, pl'). Inr (x, splice (unat h * 4) pl' buffer))))"

section \<open>TCP\<close>

record TcpProxy =
  tp_port :: u16
  tp_nat_map :: "sock4 \<Rightarrow> sock4 option"

definition TcpProxy_new :: "u16 \<Rightarrow> TcpProxy" where
  "TcpProxy_new port = \<lparr>tp_port = port, tp_nat_map = Map.empty\<rparr>"

definition TcpProxy_recv_handle :: "bool \<Rightarrow> u8 list \<Rightarrow> ipv4 \<Rightarrow> ipv4 \<Rightarrow> TcpProxy \<Rightarrow> (bool \<times> u8 list \<times> TcpProxy) res" where
  "TcpProxy_recv_handle k ipv4 source destination p =
     bindE (IpV4Packet_destination_ip ipv4) (\<lambda>dest_ip.
     bindE (payload_edit ipv4 (\<lambda>pl.
       bindE (TcpPacket_new source destination pl) (\<lambda>t.
       bindE (TcpPacket_source_port t) (\<lambda>source_port.
       bindE (TcpPacket_destination_port t) (\<lambda>dest_port.
       bindE (TcpPacket_set_destination_port t (tp_port p)) (\<lambda>t.
       bindE (TcpPacket_update_checksum k t) (\<lambda>t.
         Inr ((source_port, dest_port), tcp_buffer t)))))))) (\<lambda>((source_port, dest_port), ipv4).
     bindE (IpV4Packet_set_destination_ip ipv4 destination) (\<lambda>ipv4.
     bindE (IpV4Packet_update_checksum k ipv4) (\<lambda>ipv4.
       Inr (False, ipv4, p\<lparr>tp_nat_map := (tp_nat_map p)((source, source_port) \<mapsto> (dest_ip, dest_port))\<rparr>)))))"

definition TcpProxy_send_handle :: "bool \<Rightarrow> u8 list \<Rightarrow> TcpProxy \<Rightarrow> u8 list res" where
  "TcpProxy_send_handle k ipv4 p =
     bindE (IpV4Packet_source_ip ipv4) (\<lambda>src_ip.
     bindE (IpV4Packet_destination_ip ipv4) (\<lambda>dest_ip.
     bindE (bindE (IpV4Packet_payload ipv4) (\<lambda>pl. bindE (TcpPacket_new src_ip dest_ip pl) TcpPacket_destination_port)) (\<lambda>port.
     (case tp_nat_map p (dest_ip, port) of
        None \<Rightarrow> Inr ipv4
      | Some (source_ip, source_port) \<Rightarrow>
          bindE (IpV4Packet_payload_mut ipv4 (\<lambda>pl.
            bindE (TcpPacket_new source_ip dest_ip pl) (\<lambda>t.
            bindE (TcpPacket_set_source_port t source_port) (\<lambda>t.
            bindE (TcpPacket_update_checksum k t) (\<lambda>t. Inr (tcp_buffer t)))))) (\<lambda>ipv4.
          bindE (IpV4Packet_set_source_ip ipv4 source_ip) (\<lambda>ipv4.
            IpV4Packet_update_checksum k ipv4))))))"

text \<open>An accepted connection of the listener is connected to the target recorded for its peer.\<close>

definition tcp_proxy_accept :: "TcpProxy \<Rightarrow> socket_addr \<Rightarrow> sock4 option" where
  "tcp_proxy_accept p sender_addr = (case sender_addr of
     SockV4 ip port \<Rightarrow> tp_nat_map p (ip, port)
   | SockV6 _ _ _ _ \<Rightarrow> None)"

text \<open>The source port is kept when it can be bound; \<open>connect\<close> is \<open>None\<close> on a timeout.\<close>

definition tcp_connect :: "unit res \<Rightarrow> bool \<Rightarrow> unit res \<Rightarrow> 'stream res option \<Rightarrow> 'stream res" where
  "tcp_connect create bind_src bind_any connect =
     bindE create (\<lambda>_. bindE (if bind_src then Inr () else bind_any) (\<lambda>_.
       (case connect of
          None \<Rightarrow> Inl (Anyhow ''TCP connection timeout'')
        | Some (Inl e) \<Rightarrow> Inl (Anyhow ''TCP connection target failed'')
        | Some (Inr s) \<Rightarrow> Inr s)))"

section \<open>UDP\<close>

text \<open>
  \<open>up_inner\<close>: per local sender, the address its socket was connected to and the time of its last
  datagram. \<open>up_sent\<close> is the log of what those sockets sent, \<open>up_replies\<close> of what was sent back to the sender.
\<close>

record UdpProxy =
  up_port :: u16
  up_nat_map :: "sock4 \<Rightarrow> sock4 option"
  up_inner :: "sock4 \<Rightarrow> (sock4 \<times> nat) option"
  up_sent :: "(u8 list \<times> sock4) list"
  up_replies :: "(u8 list \<times> sock4) list"

definition UdpProxy_new :: "u16 \<Rightarrow> UdpProxy" where
  "UdpProxy_new port = \<lparr>up_port = port, up_nat_map = Map.empty, up_inner = Map.empty, up_sent = [], up_replies = []\<rparr>"

definition UdpProxy_recv_handle :: "bool \<Rightarrow> u8 list \<Rightarrow> ipv4 \<Rightarrow> ipv4 \<Rightarrow> UdpProxy \<Rightarrow> (bool \<times> u8 list \<times> UdpProxy) res" where
  "UdpProxy_recv_handle k ipv4 source destination p =
     bindE (IpV4Packet_destination_ip ipv4) (\<lambda>dest_ip.
     bindE (payload_edit ipv4 (\<lambda>pl.
       bindE (UdpPacket_new source destination pl) (\<lambda>t.
       bindE (UdpPacket_source_port t) (\<lambda>source_port.
       bindE (UdpPacket_destination_port t) (\<lambda>dest_port.
       bindE (UdpPacket_set_destination_port t (up_port p)) (\<lambda>t.
       bindE (UdpPacket_update_checksum k t) (\<lambda>t.
         Inr ((source_port, dest_port), udp_buffer t)))))))) (\<lambda>((source_port, dest_port), ipv4).
     bindE (IpV4Packet_set_destination_ip ipv4 destination) (\<lambda>ipv4.
     bindE (IpV4Packet_update_checksum k ipv4) (\<lambda>ipv4.
       Inr (False, ipv4, p\<lparr>up_nat_map := (up_nat_map p)((source, source_port) \<mapsto> (dest_ip, dest_port))\<rparr>)))))"

definition UdpProxy_send_handle :: "bool \<Rightarrow> u8 list \<Rightarrow> UdpProxy \<Rightarrow> u8 list res" where
  "UdpProxy_send_handle k ipv4 p =
     bindE (IpV4Packet_source_ip ipv4) (\<lambda>src_ip.
     bindE (IpV4Packet_destination_ip ipv4) (\<lambda>dest_ip.
     bindE (bindE (IpV4Packet_payload ipv4) (\<lambda>pl. bindE (UdpPacket_new src_ip dest_ip pl) UdpPacket_destination_port)) (\<lambda>port.
     (case up_nat_map p (dest_ip, port) of
        None \<Rightarrow> Inr ipv4
      | Some (source_ip, source_port) \<Rightarrow>
          bindE (IpV4Packet_payload_mut ipv4 (\<lambda>pl.
            bindE (UdpPacket_new source_ip dest_ip pl) (\<lambda>t.
            bindE (UdpPacket_set_source_port t source_port) (\<lambda>t.
            bindE (UdpPacket_update_checksum k t) (\<lambda>t. Inr (udp_buffer t)))))) (\<lambda>ipv4.
          bindE (IpV4Packet_set_source_ip ipv4 source_ip) (\<lambda>ipv4.
            IpV4Packet_update_checksum k ipv4))))))"

text \<open>
  A datagram at the listener. \<open>sock_same\<close> and \<open>sock_any\<close> are the outcomes of binding the
  peer's port and a free one, then come the socket's registration, its connect and the send.
\<close>

definition udp_proxy0 ::
    "bool \<Rightarrow> unit res \<Rightarrow> unit res \<Rightarrow> unit res \<Rightarrow> unit res \<Rightarrow> nat \<Rightarrow> u8 list \<Rightarrow> sock4 \<Rightarrow> (UdpProxy, unit) cmd" where
  "udp_proxy0 sock_same sock_any from_std connect send_out now buf sender_addr = bindS (getS id) (\<lambda>p.
     (case up_inner p sender_addr of
        Some (dest_addr, time) \<Rightarrow>
          thenS (modS (\<lambda>p. p\<lparr>up_inner := (up_inner p)(sender_addr \<mapsto> (dest_addr, now))\<rparr>))
          (thenS (liftE send_out) (modS (\<lambda>p. p\<lparr>up_sent := up_sent p @ [(buf, dest_addr)]\<rparr>)))
      | None \<Rightarrow> (case up_nat_map p sender_addr of
          None \<Rightarrow> retS ()
        | Some dest_addr \<Rightarrow>
            thenS (if sock_same then retS () else liftE sock_any)
            (thenS (liftE from_std) (thenS (liftE connect) (thenS (liftE send_out)
            (modS (\<lambda>p. p\<lparr>up_sent := up_sent p @ [(buf, dest_addr)],
               up_inner := (up_inner p)(sender_addr \<mapsto> (dest_addr, now))\<rparr>))))))))"

text \<open>
  The task of one such socket, one round: a datagram of the target goes back to the sender; an error, or ten
  minutes of silence on both sides, ends it, and both entries of the sender are removed.
\<close>

datatype task_event = Task_recv "u8 list" "unit res" | Task_err | Task_timeout nat

definition udp_task_close :: "sock4 \<Rightarrow> UdpProxy \<Rightarrow> UdpProxy" where
  "udp_task_close sender_addr p =
     p\<lparr>up_inner := (up_inner p)(sender_addr := None), up_nat_map := (up_nat_map p)(sender_addr := None)\<rparr>"

definition udp_task_step :: "sock4 \<Rightarrow> task_event \<Rightarrow> UdpProxy \<Rightarrow> bool \<times> UdpProxy" where
  "udp_task_step sender_addr e p = (case e of
     Task_recv buf sent \<Rightarrow>
       (case sent of Inr _ \<Rightarrow> (True, p\<lparr>up_replies := up_replies p @ [(buf, sender_addr)]\<rparr>)
        | Inl _ \<Rightarrow> (False, udp_task_close sender_addr p))
   | Task_err \<Rightarrow> (False, udp_task_close sender_addr p)
   | Task_timeout now \<Rightarrow>
       (case up_inner p sender_addr of
          Some (_, time) \<Rightarrow> if now - time > 580 * 1000000000 then (False, udp_task_close sender_addr p) else (True, p)
        | None \<Rightarrow> (True, p)))"

section \<open>ICMP\<close>

record IcmpProxy =
  ip_icmp_map :: "(ipv4 \<times> u16 \<times> u16) \<Rightarrow> ipv4 option"
  ip_icmp_sent :: "(u8 list \<times> ipv4) list"

definition IcmpProxy_new :: IcmpProxy where
  "IcmpProxy_new = \<lparr>ip_icmp_map = Map.empty, ip_icmp_sent = []\<rparr>"

text \<open>
  Echo messages are sent on by a raw socket (\<open>send_to\<close> is its outcome); fragments and
  messages without an identifier are swallowed.
\<close>

definition IcmpProxy_recv_handle :: "unit res \<Rightarrow> u8 list \<Rightarrow> ipv4 \<Rightarrow> (IcmpProxy, bool) cmd" where
  "IcmpProxy_recv_handle send_to ipv4 source =
     bindS (liftE (bindE (IpV4Packet_offset ipv4) (\<lambda>off.
       if off \<noteq> 0 then Inr True else bindE (IpV4Packet_flags ipv4) (\<lambda>fl. Inr (fl AND 1 = 1))))) (\<lambda>fragment.
     if fragment then retS True
     else bindS (liftE (IpV4Packet_destination_ip ipv4)) (\<lambda>dest_ip.
       bindS (liftE (bindE (IpV4Packet_payload ipv4) IcmpPacket_new)) (\<lambda>icmp.
       bindS (liftE (IcmpPacket_header_other icmp)) (\<lambda>h.
       (case h of
          Ho_Identifier ident seq \<Rightarrow>
            thenS (modS (\<lambda>p. p\<lparr>ip_icmp_map := (ip_icmp_map p)((dest_ip, ident, seq) \<mapsto> source)\<rparr>))
            (thenS (liftE send_to)
              (thenS (modS (\<lambda>p. p\<lparr>ip_icmp_sent := ip_icmp_sent p @ [(icmp, dest_ip)]\<rparr>)) (retS True)))
        | _ \<Rightarrow> retS True)))))"

definition IcmpProxy_send_handle :: "u8 list \<Rightarrow> IcmpProxy \<Rightarrow> u8 list res" where
  "IcmpProxy_send_handle ipv4 p = Inr ipv4"

text \<open>
  What the raw socket received from \<open>peer_ip\<close>: the reply is given the address of the peer that asked and
  sent to it through the network. Errors are logged.
\<close>

definition icmp_recv_handle ::
    "env \<Rightarrow> hash \<Rightarrow> Cipher \<Rightarrow> bool \<Rightarrow> CurrentDeviceInfo \<Rightarrow> IcmpProxy \<Rightarrow> u8 list \<Rightarrow> nat \<Rightarrow> ipv4 \<Rightarrow>
     ('a ContextInner_scheme, unit) cmd" where
  "icmp_recv_handle E sha client_cipher k d p buf data_len peer_ip =
     (case bindE (slice buf 12 data_len) (\<lambda>ip. bindE (IpV4Packet_new ip) (\<lambda>ipv4.
             bindE (IpV4Packet_payload ipv4) (\<lambda>pl. bindE (IcmpPacket_new pl) (\<lambda>icmp.
             bindE (IcmpPacket_header_other icmp) (\<lambda>h. Inr (ipv4, h)))))) of
        Inl e \<Rightarrow> if e = Panic then failS Panic else retS ()
      | Inr (ipv4, Ho_Identifier ident seq) \<Rightarrow>
          (case ip_icmp_map p (peer_ip, ident, seq) of
             None \<Rightarrow> retS ()
           | Some dest_ip \<Rightarrow>
               bindS (liftE (bindE (IpV4Packet_set_destination_ip ipv4 dest_ip) (IpV4Packet_update_checksum k))) (\<lambda>ipv4.
               bindS (liftE (case NetPacket_new0 data_len (splice 12 ipv4 buf) of Inl _ \<Rightarrow> Inl Panic | Inr q \<Rightarrow> Inr q)) (\<lambda>q.
               bindS (liftE (bindE (NetPacket_set_default_version q) (\<lambda>q.
                 bindE (NetPacket_set_protocol q Protocol_IpTurn) (\<lambda>q.
                 bindE (NetPacket_set_transport_protocol q (IpTurnProtocol_to_u8 IpTurn_Ipv4)) (\<lambda>q.
                 bindE (NetPacket_first_set_ttl q MAX_TTL) (\<lambda>q.
                 bindE (NetPacket_set_source q (cd_virtual_ip d)) (\<lambda>q.
                   NetPacket_set_destination q dest_ip))))))) (\<lambda>q.
               bindS (draw E) (\<lambda>r.
               ignoreS (bindS (liftE (encrypt_ipv4 sha client_cipher r q)) (\<lambda>q.
                 send_ipv4_by_id E q dest_ip (cd_connect_server d) (ConnectStatus_online (cd_status d)))))))))
      | Inr (ipv4, _) \<Rightarrow> retS ())"

section \<open>The dispatch\<close>

record IpProxyMap =
  pm_tcp :: TcpProxy
  pm_udp :: UdpProxy
  pm_icmp :: IcmpProxy

definition IpProxyMap_recv_handle ::
    "bool \<Rightarrow> unit res \<Rightarrow> u8 list \<Rightarrow> ipv4 \<Rightarrow> ipv4 \<Rightarrow> (IpProxyMap, bool \<times> u8 list) cmd" where
  "IpProxyMap_recv_handle k send_to ipv4 source destination = bindS (getS id) (\<lambda>m.
     bindS (liftE (IpV4Packet_protocol ipv4)) (\<lambda>protocol.
     if protocol = Ip_Tcp then
       bindS (liftE (TcpProxy_recv_handle k ipv4 source destination (pm_tcp m))) (\<lambda>(r, ipv4, t).
         thenS (modS (\<lambda>m. m\<lparr>pm_tcp := t\<rparr>)) (retS (r, ipv4)))
     else if protocol = Ip_Udp then
       bindS (liftE (UdpProxy_recv_handle k ipv4 source destination (pm_udp m))) (\<lambda>(r, ipv4, t).
         thenS (modS (\<lambda>m. m\<lparr>pm_udp := t\<rparr>)) (retS (r, ipv4)))
     else if protocol = Ip_Icmp then
       (let (r, i) = IcmpProxy_recv_handle send_to ipv4 source (pm_icmp m) in
        thenS (modS (\<lambda>m. m\<lparr>pm_icmp := i\<rparr>)) (bindS (liftE r) (\<lambda>b. retS (b, ipv4))))
     else retS (False, ipv4)))"

definition IpProxyMap_send_handle :: "bool \<Rightarrow> u8 list \<Rightarrow> IpProxyMap \<Rightarrow> u8 list res" where
  "IpProxyMap_send_handle k ipv4 m =
     bindE (IpV4Packet_protocol ipv4) (\<lambda>protocol.
     if protocol = Ip_Tcp then TcpProxy_send_handle k ipv4 (pm_tcp m)
     else if protocol = Ip_Udp then UdpProxy_send_handle k ipv4 (pm_udp m)
     else if protocol = Ip_Icmp then IcmpProxy_send_handle ipv4 (pm_icmp m)
     else Inr ipv4)"

section \<open>Editing a packet\<close>

lemma thenS_liftE [simp]: "thenS (liftE (Inr x)) n = n" "thenS (liftE (Inl e)) n = failS e"
  by (simp_all add: thenS_def)

lemma ip4_okI: "IpV4Packet_new b = Inr p \<Longrightarrow> p = b \<and> ip4_ok b"
  by (simp add: IpV4Packet_new_Inr_iff)

lemma ip4_addrs:
  "ip4_ok b \<Longrightarrow> IpV4Packet_source_ip b = Inr (Ipv4Addr_new (b ! 12) (b ! 13) (b ! 14) (b ! 15))"
  "ip4_ok b \<Longrightarrow> IpV4Packet_destination_ip b = Inr (Ipv4Addr_new (b ! 16) (b ! 17) (b ! 18) (b ! 19))"
  "ip4_ok b \<Longrightarrow> IpV4Packet_protocol b = Inr (IpProtocol_of_u8 (b ! 9))"
  by (simp_all add: IpV4Packet_source_ip_def IpV4Packet_destination_ip_def IpV4Packet_protocol_def rd_addr_def rd_in ip4_ok_def)

text \<open>The payload replaced by one of the same length.\<close>

lemma ip4_payload_splice:
  assumes "ip4_ok b" "20 \<le> ip4_hlen b" "length pl = length b - ip4_hlen b"
  shows "ip4_ok (splice (ip4_hlen b) pl b)" "ip4_hlen (splice (ip4_hlen b) pl b) = ip4_hlen b"
    "length (splice (ip4_hlen b) pl b) = length b"
    "\<And>i. i < 20 \<Longrightarrow> splice (ip4_hlen b) pl b ! i = b ! i"
    "drop (ip4_hlen b) (splice (ip4_hlen b) pl b) = pl"
  using assms by (auto simp: ip4_ok_def ip4_hlen_def splice_def nth_append)

text \<open>One address rewritten and the header sealed again.\<close>

lemma ip4_readdress:
  assumes ok: "ip4_ok b" and h: "20 \<le> ip4_hlen b" and i: "i = 12 \<or> i = 16"
  shows "\<exists>q. IpV4Packet_update_checksum k (splice i (octets v) b) = Inr q \<and>
    IpV4Packet_is_valid k q = Inr True \<and> ip4_ok q \<and> ip4_hlen q = ip4_hlen b \<and> length q = length b \<and>
    drop (ip4_hlen b) q = drop (ip4_hlen b) b \<and>
    (\<forall>j. j < 20 \<and> j \<noteq> 10 \<and> j \<noteq> 11 \<longrightarrow> q ! j = splice i (octets v) b ! j)"
proof -
  let ?b = "splice i (octets v) b"
  have l: "20 \<le> length b" "ip4_hlen b \<le> length b" using ok by (simp_all add: ip4_ok_def)
  have b: "ip4_ok ?b" "ip4_hlen ?b = ip4_hlen b" "length ?b = length b"
    using i l ok by (auto simp: ip4_ok_splice)
  have "12 \<le> ip4_hlen ?b" using b(2) h by simp
  then obtain c where c: "IpV4Packet_update_checksum k ?b = Inr (splice 10 (be16_bytes c) ?b)"
      "cal_checksum k (take (ip4_hlen ?b) (splice 10 (be16_bytes c) ?b)) = Inr 0"
    using ip4_update_checksum[OF b(1)] by blast
  let ?q = "splice 10 (be16_bytes c) ?b"
  have q: "ip4_ok ?q" "ip4_hlen ?q = ip4_hlen b" "length ?q = length b"
    using b l by (simp_all add: ip4_ok_splice)
  have v: "IpV4Packet_is_valid k ?q = Inr True"
    using c(2) q b l by (simp add: IpV4Packet_is_valid_def IpV4Packet_checksum_def rd16_splice ip4_header)
  have d: "drop (ip4_hlen b) ?q = drop (ip4_hlen b) b"
    using h l b i by (auto simp: drop_splice_above)
  have n: "j < 20 \<Longrightarrow> j \<noteq> 10 \<Longrightarrow> j \<noteq> 11 \<Longrightarrow> ?q ! j = ?b ! j" for j
    using l b by (cases "j < 10") (auto simp: nth_splice_above)
  show ?thesis using c(1) q v d n by blast
qed

lemma ip4_new_destination:
  assumes "ip4_ok b" "20 \<le> ip4_hlen b"
  shows "\<exists>q. bindE (IpV4Packet_set_destination_ip b v) (IpV4Packet_update_checksum k) = Inr q \<and>
    IpV4Packet_is_valid k q = Inr True \<and> IpV4Packet_source_ip q = IpV4Packet_source_ip b \<and>
    IpV4Packet_destination_ip q = Inr v \<and> IpV4Packet_payload q = Inr (drop (ip4_hlen b) b)"
proof -
  have l: "20 \<le> length b" using assms by (simp add: ip4_ok_def)
  obtain q where q: "IpV4Packet_update_checksum k (splice 16 (octets v) b) = Inr q"
    "IpV4Packet_is_valid k q = Inr True" "ip4_ok q" "ip4_hlen q = ip4_hlen b"
    "drop (ip4_hlen b) q = drop (ip4_hlen b) b" "\<And>j. j < 20 \<Longrightarrow> j \<noteq> 10 \<Longrightarrow> j \<noteq> 11 \<Longrightarrow> q ! j = splice 16 (octets v) b ! j"
    using ip4_readdress[OF assms, of 16 k v] by blast
  have "octets v ! 0 = q ! 16" "octets v ! 1 = q ! 17" "octets v ! 2 = q ! 18" "octets v ! 3 = q ! 19"
    using l by (simp_all add: q(6) nth_splice_in)
  then have "Ipv4Addr_new (q ! 16) (q ! 17) (q ! 18) (q ! 19) = v"
    using Ipv4Addr_new_octets[of v] by simp
  then show ?thesis using q assms l
    by (simp add: ip4_set_ips ip4_addrs ip4_payload)
qed

lemma ip4_new_source:
  assumes "ip4_ok b" "20 \<le> ip4_hlen b"
  shows "\<exists>q. bindE (IpV4Packet_set_source_ip b v) (IpV4Packet_update_checksum k) = Inr q \<and>
    IpV4Packet_is_valid k q = Inr True \<and> IpV4Packet_source_ip q = Inr v \<and>
    IpV4Packet_destination_ip q = IpV4Packet_destination_ip b \<and> IpV4Packet_payload q = Inr (drop (ip4_hlen b) b)"
proof -
  have l: "20 \<le> length b" using assms by (simp add: ip4_ok_def)
  obtain q where q: "IpV4Packet_update_checksum k (splice 12 (octets v) b) = Inr q"
    "IpV4Packet_is_valid k q = Inr True" "ip4_ok q" "ip4_hlen q = ip4_hlen b"
    "drop (ip4_hlen b) q = drop (ip4_hlen b) b" "\<And>j. j < 20 \<Longrightarrow> j \<noteq> 10 \<Longrightarrow> j \<noteq> 11 \<Longrightarrow> q ! j = splice 12 (octets v) b ! j"
    using ip4_readdress[OF assms, of 12 k v] by blast
  have "octets v ! 0 = q ! 12" "octets v ! 1 = q ! 13" "octets v ! 2 = q ! 14" "octets v ! 3 = q ! 15"
    using l by (simp_all add: q(6) nth_splice_in)
  then have "Ipv4Addr_new (q ! 12) (q ! 13) (q ! 14) (q ! 15) = v"
    using Ipv4Addr_new_octets[of v] by simp
  moreover have "q ! 16 = b ! 16" "q ! 17 = b ! 17" "q ! 18 = b ! 18" "q ! 19 = b ! 19"
    using l by (simp_all add: q(6) nth_splice_above)
  ultimately show ?thesis using q assms l
    by (simp add: ip4_set_ips ip4_addrs ip4_payload)
qed

section \<open>Sealing a datagram or segment\<close>

lemma udp_sealed:
  assumes "8 \<le> length pl" "length pl \<le> 65535" "even (length pl) \<or> k"
  shows "\<exists>t. UdpPacket_update_checksum k (UdpPacket_unchecked s d pl) = Inr t \<and> UdpPacket_is_valid k t = Inr True \<and>
    t = UdpPacket_unchecked s d (udp_buffer t) \<and> length (udp_buffer t) = length pl \<and>
    rd16 (udp_buffer t) 0 = rd16 pl 0 \<and> rd16 (udp_buffer t) 2 = rd16 pl 2 \<and> drop 8 (udp_buffer t) = drop 8 pl"
proof -
  obtain c where c: "udp_seal.update k s d pl = Inr (splice 6 (be16_bytes c) pl)"
    "udp_seal.verifies k s d (splice 6 (be16_bytes c) pl) = Inr True"
    using udp_seal.update_verifies[of pl k s d] assms by auto
  then show ?thesis using assms
    by (simp add: UdpPacket_update_checksum_seal UdpPacket_is_valid_seal UdpPacket_unchecked_def rd16_frame drop_splice_above)
qed

lemma tcp_sealed:
  assumes "20 \<le> length pl" "length pl \<le> 65535" "even (length pl) \<or> k"
  shows "\<exists>t. TcpPacket_update_checksum k (TcpPacket_unchecked s d pl) = Inr t \<and> TcpPacket_is_valid k t = Inr True \<and>
    t = TcpPacket_unchecked s d (tcp_buffer t) \<and> length (tcp_buffer t) = length pl \<and>
    rd16 (tcp_buffer t) 0 = rd16 pl 0 \<and> rd16 (tcp_buffer t) 2 = rd16 pl 2 \<and> tcp_buffer t ! 12 = pl ! 12 \<and>
    drop 20 (tcp_buffer t) = drop 20 pl"
proof -
  obtain c where c: "tcp_seal.update k s d pl = Inr (splice 16 (be16_bytes c) pl)"
    "tcp_seal.verifies k s d (splice 16 (be16_bytes c) pl) = Inr True"
    using tcp_seal.update_verifies[of pl k s d] assms by auto
  then show ?thesis using assms
    by (simp add: TcpPacket_update_checksum_seal TcpPacket_is_valid_seal TcpPacket_unchecked_def rd16_frame drop_splice_above)
qed

text \<open>The ports of the transport header of an IPv4 packet, at the same place for TCP and UDP.\<close>

definition src_port :: "u8 list \<Rightarrow> u16" where "src_port b = be16 (b ! ip4_hlen b) (b ! Suc (ip4_hlen b))"
definition dst_port :: "u8 list \<Rightarrow> u16" where "dst_port b = be16 (b ! (ip4_hlen b + 2)) (b ! (ip4_hlen b + 3))"

lemma port_reads:
  assumes "ip4_hlen b + 4 \<le> length b"
  shows "rd16 (drop (ip4_hlen b) b) 0 = Inr (src_port b)" "rd16 (drop (ip4_hlen b) b) 2 = Inr (dst_port b)"
  using assms by (simp_all add: rd16_in src_port_def dst_port_def numeral_eq_Suc)

text \<open>A packet the UDP (TCP) redirection accepts: whole header, transport header, summable length.\<close>

definition udp_packet_ok :: "bool \<Rightarrow> u8 list \<Rightarrow> bool" where
  "udp_packet_ok k b \<longleftrightarrow> ip4_ok b \<and> 20 \<le> ip4_hlen b \<and> ip4_hlen b + 8 \<le> length b \<and>
     length b - ip4_hlen b \<le> 65535 \<and> (even (length b - ip4_hlen b) \<or> k)"

definition tcp_packet_ok :: "bool \<Rightarrow> u8 list \<Rightarrow> bool" where
  "tcp_packet_ok k b \<longleftrightarrow> ip4_ok b \<and> 20 \<le> ip4_hlen b \<and> ip4_hlen b + 20 \<le> length b \<and>
     unat (drop_bit 4 (b ! (ip4_hlen b + 12))) * 4 \<le> length b - ip4_hlen b \<and>
     length b - ip4_hlen b \<le> 65535 \<and> (even (length b - ip4_hlen b) \<or> k)"

lemma payload_edit_ok:
  "ip4_ok b \<Longrightarrow> payload_edit b f =
     bindE (f (drop (ip4_hlen b) b)) (\<lambda>(x, pl'). Inr (x, splice (ip4_hlen b) pl' b))"
  "ip4_ok b \<Longrightarrow> IpV4Packet_payload_mut b g = bindE (g (drop (ip4_hlen b) b)) (\<lambda>pl'. Inr (splice (ip4_hlen b) pl' b))"
  by (simp_all add: payload_edit_def IpV4Packet_payload_mut_def ip4_header_len slice_def ip4_ok_def ip4_hlen_def)

text \<open>\<open>q\<close> is a valid packet from \<open>s\<close> to \<open>d\<close> whose UDP (TCP) part is valid and has these ports.\<close>

definition udp_sent :: "bool \<Rightarrow> sock4 \<Rightarrow> sock4 \<Rightarrow> u8 list \<Rightarrow> bool" where
  "udp_sent k s d q \<longleftrightarrow> IpV4Packet_is_valid k q = Inr True \<and> IpV4Packet_source_ip q = Inr (fst s) \<and>
     IpV4Packet_destination_ip q = Inr (fst d) \<and>
     (\<exists>pl t. IpV4Packet_payload q = Inr pl \<and> UdpPacket_new (fst s) (fst d) pl = Inr t \<and> UdpPacket_is_valid k t = Inr True \<and>
       UdpPacket_source_port t = Inr (snd s) \<and> UdpPacket_destination_port t = Inr (snd d))"

definition tcp_sent :: "bool \<Rightarrow> sock4 \<Rightarrow> sock4 \<Rightarrow> u8 list \<Rightarrow> bool" where
  "tcp_sent k s d q \<longleftrightarrow> IpV4Packet_is_valid k q = Inr True \<and> IpV4Packet_source_ip q = Inr (fst s) \<and>
     IpV4Packet_destination_ip q = Inr (fst d) \<and>
     (\<exists>pl t. IpV4Packet_payload q = Inr pl \<and> TcpPacket_new (fst s) (fst d) pl = Inr t \<and> TcpPacket_is_valid k t = Inr True \<and>
       TcpPacket_source_port t = Inr (snd s) \<and> TcpPacket_destination_port t = Inr (snd d))"

lemma set_port_src: "rd16 (splice 0 (be16_bytes v) pl) 0 = Inr v \<and> rd16 (splice 0 (be16_bytes v) pl) 2 = rd16 pl 2"
  if "8 \<le> length pl"
  using that by (simp add: rd16_splice rd16_frame)

lemma set_port_dst: "rd16 (splice 2 (be16_bytes v) pl) 2 = Inr v \<and> rd16 (splice 2 (be16_bytes v) pl) 0 = rd16 pl 0"
  if "8 \<le> length pl"
  using that by (simp add: rd16_splice rd16_frame)

lemma udp_recv_spec:
  assumes ok: "udp_packet_ok k b" and src: "IpV4Packet_source_ip b = Inr source" and dst: "IpV4Packet_destination_ip b = Inr dest"
  shows "\<exists>q. UdpProxy_recv_handle k b source destination p =
      Inr (False, q, p\<lparr>up_nat_map := (up_nat_map p)((source, src_port b) \<mapsto> (dest, dst_port b))\<rparr>) \<and>
    udp_sent k (source, src_port b) (destination, up_port p) q"
proof -
  have b: "ip4_ok b" "20 \<le> ip4_hlen b" "ip4_hlen b + 8 \<le> length b" using ok by (simp_all add: udp_packet_ok_def)
  define pl where "pl = drop (ip4_hlen b) b"
  have pl: "8 \<le> length pl" "length pl \<le> 65535" "even (length pl) \<or> k" "length pl = length b - ip4_hlen b"
    using ok by (auto simp: pl_def udp_packet_ok_def)
  note ports = port_reads[of b, folded pl_def]
  obtain t where t: "UdpPacket_update_checksum k (UdpPacket_unchecked source destination (splice 2 (be16_bytes (up_port p)) pl)) = Inr t"
    "UdpPacket_is_valid k t = Inr True" "t = UdpPacket_unchecked source destination (udp_buffer t)" "length (udp_buffer t) = length pl"
    "rd16 (udp_buffer t) 0 = Inr (src_port b)" "rd16 (udp_buffer t) 2 = Inr (up_port p)"
    using udp_sealed[of "splice 2 (be16_bytes (up_port p)) pl" k source destination] pl set_port_dst[of pl "up_port p"] ports b
    by auto
  let ?b = "splice (ip4_hlen b) (udp_buffer t) b"
  note s = ip4_payload_splice[OF b(1,2), of "udp_buffer t"] and lt = t(4)[unfolded pl(4)]
  obtain q where q: "bindE (IpV4Packet_set_destination_ip ?b destination) (IpV4Packet_update_checksum k) = Inr q"
    "IpV4Packet_is_valid k q = Inr True" "IpV4Packet_source_ip q = IpV4Packet_source_ip ?b"
    "IpV4Packet_destination_ip q = Inr destination" "IpV4Packet_payload q = Inr (udp_buffer t)"
    using ip4_new_destination[of ?b destination k] s(1,2,5)[OF lt] b(2) by auto
  have e: "payload_edit b (\<lambda>pl.
       bindE (UdpPacket_new source destination pl) (\<lambda>t.
       bindE (UdpPacket_source_port t) (\<lambda>source_port.
       bindE (UdpPacket_destination_port t) (\<lambda>dest_port.
       bindE (UdpPacket_set_destination_port t (up_port p)) (\<lambda>t.
       bindE (UdpPacket_update_checksum k t) (\<lambda>t.
         Inr ((source_port, dest_port), udp_buffer t))))))) = Inr ((src_port b, dst_port b), ?b)"
    using pl ports b t(1) unfolding payload_edit_ok(1)[OF b(1)] pl_def[symmetric]
    by (simp add: UdpPacket_new_def UdpPacket_source_port_def UdpPacket_destination_port_def
        UdpPacket_set_destination_port_def UdpPacket_unchecked_def wr16_in mapE_def)
  obtain q1 where q1: "IpV4Packet_set_destination_ip ?b destination = Inr q1" "IpV4Packet_update_checksum k q1 = Inr q"
    using q(1) by (auto simp: bindE_Inr_iff)
  have "IpV4Packet_source_ip ?b = Inr source"
    using src s(1,4)[OF lt] b by (simp add: ip4_addrs)
  moreover have "UdpPacket_new source destination (udp_buffer t) = Inr t"
    using t(3,4) pl(1) by (simp add: UdpPacket_new_def)
  ultimately have "udp_sent k (source, src_port b) (destination, up_port p) q"
    using q t by (auto simp: udp_sent_def UdpPacket_source_port_def UdpPacket_destination_port_def)
  moreover have "UdpProxy_recv_handle k b source destination p =
      Inr (False, q, p\<lparr>up_nat_map := (up_nat_map p)((source, src_port b) \<mapsto> (dest, dst_port b))\<rparr>)"
    by (simp add: UdpProxy_recv_handle_def dst e q1)
  ultimately show ?thesis by blast
qed

lemma udp_send_spec:
  assumes ok: "udp_packet_ok k b" and dst: "IpV4Packet_destination_ip b = Inr dest"
    and nat: "up_nat_map p (dest, dst_port b) = Some (ip, port)"
  shows "\<exists>q. UdpProxy_send_handle k b p = Inr q \<and> udp_sent k (ip, port) (dest, dst_port b) q"
proof -
  have b: "ip4_ok b" "20 \<le> ip4_hlen b" "ip4_hlen b + 8 \<le> length b" using ok by (simp_all add: udp_packet_ok_def)
  define pl where "pl = drop (ip4_hlen b) b"
  have pl: "8 \<le> length pl" "length pl \<le> 65535" "even (length pl) \<or> k" "length pl = length b - ip4_hlen b"
    using ok by (auto simp: pl_def udp_packet_ok_def)
  note ports = port_reads[of b, folded pl_def]
  obtain t where t: "UdpPacket_update_checksum k (UdpPacket_unchecked ip dest (splice 0 (be16_bytes port) pl)) = Inr t"
    "UdpPacket_is_valid k t = Inr True" "t = UdpPacket_unchecked ip dest (udp_buffer t)" "length (udp_buffer t) = length pl"
    "rd16 (udp_buffer t) 0 = Inr port" "rd16 (udp_buffer t) 2 = Inr (dst_port b)"
    using udp_sealed[of "splice 0 (be16_bytes port) pl" k ip dest] pl set_port_src[of pl port] ports b
    by auto
  let ?b = "splice (ip4_hlen b) (udp_buffer t) b"
  note s = ip4_payload_splice[OF b(1,2), of "udp_buffer t"] and lt = t(4)[unfolded pl(4)]
  obtain q where q: "bindE (IpV4Packet_set_source_ip ?b ip) (IpV4Packet_update_checksum k) = Inr q"
    "IpV4Packet_is_valid k q = Inr True" "IpV4Packet_source_ip q = Inr ip"
    "IpV4Packet_destination_ip q = IpV4Packet_destination_ip ?b" "IpV4Packet_payload q = Inr (udp_buffer t)"
    using ip4_new_source[of ?b ip k] s(1,2,5)[OF lt] b(2) by auto
  have e: "IpV4Packet_payload_mut b (\<lambda>pl.
            bindE (UdpPacket_new ip dest pl) (\<lambda>t.
            bindE (UdpPacket_set_source_port t port) (\<lambda>t.
            bindE (UdpPacket_update_checksum k t) (\<lambda>t. Inr (udp_buffer t))))) = Inr ?b"
    using pl b t(1) unfolding payload_edit_ok(2)[OF b(1)] pl_def[symmetric]
    by (simp add: UdpPacket_new_def UdpPacket_set_source_port_def UdpPacket_unchecked_def wr16_in mapE_def)
  have port: "bindE (IpV4Packet_payload b) (\<lambda>pl. bindE (UdpPacket_new src dest pl) UdpPacket_destination_port) = Inr (dst_port b)" for src
    using pl(1) ports b by (simp add: ip4_payload pl_def[symmetric] UdpPacket_new_def UdpPacket_destination_port_def UdpPacket_unchecked_def)
  obtain q1 where q1: "IpV4Packet_set_source_ip ?b ip = Inr q1" "IpV4Packet_update_checksum k q1 = Inr q"
    using q(1) by (auto simp: bindE_Inr_iff)
  have "IpV4Packet_destination_ip ?b = Inr dest"
    using dst s(1,4)[OF lt] b by (simp add: ip4_addrs)
  moreover have "UdpPacket_new ip dest (udp_buffer t) = Inr t"
    using t(3,4) pl(1) by (simp add: UdpPacket_new_def)
  ultimately have "udp_sent k (ip, port) (dest, dst_port b) q"
    using q t by (auto simp: udp_sent_def UdpPacket_source_port_def UdpPacket_destination_port_def)
  moreover have "UdpProxy_send_handle k b p = Inr q"
    by (simp add: UdpProxy_send_handle_def ip4_addrs(1)[OF b(1)] dst port nat e q1 del: bindE_assoc)
  ultimately show ?thesis by blast
qed

lemma TcpPacket_new_eq:
  "20 \<le> length b \<Longrightarrow> TcpPacket_new s d b =
     (if unat (drop_bit 4 (b ! 12)) * 4 \<le> length b then Inr (TcpPacket_unchecked s d b) else Inl (Io InvalidData []))"
  by (simp add: TcpPacket_new_def TcpPacket_unchecked_def TcpPacket_data_offset_def rd_in Let_def)

lemma tcp_recv_spec:
  assumes ok: "tcp_packet_ok k b" and src: "IpV4Packet_source_ip b = Inr source" and dst: "IpV4Packet_destination_ip b = Inr dest"
  shows "\<exists>q. TcpProxy_recv_handle k b source destination p =
      Inr (False, q, p\<lparr>tp_nat_map := (tp_nat_map p)((source, src_port b) \<mapsto> (dest, dst_port b))\<rparr>) \<and>
    tcp_sent k (source, src_port b) (destination, tp_port p) q"
proof -
  have b: "ip4_ok b" "20 \<le> ip4_hlen b" "ip4_hlen b + 20 \<le> length b" using ok by (simp_all add: tcp_packet_ok_def)
  define pl where "pl = drop (ip4_hlen b) b"
  have pl: "20 \<le> length pl" "length pl \<le> 65535" "even (length pl) \<or> k" "length pl = length b - ip4_hlen b" "8 \<le> length pl"
    using ok by (auto simp: pl_def tcp_packet_ok_def)
  have off: "unat (drop_bit 4 (pl ! 12)) * 4 \<le> length pl" using ok b by (simp add: pl_def tcp_packet_ok_def)
  note ports = port_reads[of b, folded pl_def]
  obtain t where t: "TcpPacket_update_checksum k (TcpPacket_unchecked source destination (splice 2 (be16_bytes (tp_port p)) pl)) = Inr t"
    "TcpPacket_is_valid k t = Inr True" "t = TcpPacket_unchecked source destination (tcp_buffer t)" "length (tcp_buffer t) = length pl"
    "rd16 (tcp_buffer t) 0 = Inr (src_port b)" "rd16 (tcp_buffer t) 2 = Inr (tp_port p)" "tcp_buffer t ! 12 = pl ! 12"
    using tcp_sealed[of "splice 2 (be16_bytes (tp_port p)) pl" k source destination] pl set_port_dst[of pl "tp_port p"] ports b
    by (auto simp: nth_splice_above)
  let ?b = "splice (ip4_hlen b) (tcp_buffer t) b"
  note s = ip4_payload_splice[OF b(1,2), of "tcp_buffer t"] and lt = t(4)[unfolded pl(4)]
  obtain q where q: "bindE (IpV4Packet_set_destination_ip ?b destination) (IpV4Packet_update_checksum k) = Inr q"
    "IpV4Packet_is_valid k q = Inr True" "IpV4Packet_source_ip q = IpV4Packet_source_ip ?b"
    "IpV4Packet_destination_ip q = Inr destination" "IpV4Packet_payload q = Inr (tcp_buffer t)"
    using ip4_new_destination[of ?b destination k] s(1,2,5)[OF lt] b(2) by auto
  have e: "payload_edit b (\<lambda>pl.
       bindE (TcpPacket_new source destination pl) (\<lambda>t.
       bindE (TcpPacket_source_port t) (\<lambda>source_port.
       bindE (TcpPacket_destination_port t) (\<lambda>dest_port.
       bindE (TcpPacket_set_destination_port t (tp_port p)) (\<lambda>t.
       bindE (TcpPacket_update_checksum k t) (\<lambda>t.
         Inr ((source_port, dest_port), tcp_buffer t))))))) = Inr ((src_port b, dst_port b), ?b)"
    using pl ports b off t(1) unfolding payload_edit_ok(1)[OF b(1)] pl_def[symmetric]
    by (simp add: TcpPacket_new_eq off TcpPacket_source_port_def TcpPacket_destination_port_def
        TcpPacket_set_destination_port_def TcpPacket_unchecked_def wr16_in mapE_def)
  obtain q1 where q1: "IpV4Packet_set_destination_ip ?b destination = Inr q1" "IpV4Packet_update_checksum k q1 = Inr q"
    using q(1) by (auto simp: bindE_Inr_iff)
  have "IpV4Packet_source_ip ?b = Inr source"
    using src s(1,4)[OF lt] b by (simp add: ip4_addrs)
  moreover have "TcpPacket_new source destination (tcp_buffer t) = Inr t"
    using t pl off by (simp add: TcpPacket_new_eq off)
  ultimately have "tcp_sent k (source, src_port b) (destination, tp_port p) q"
    using q t by (auto simp: tcp_sent_def TcpPacket_source_port_def TcpPacket_destination_port_def)
  moreover have "TcpProxy_recv_handle k b source destination p =
      Inr (False, q, p\<lparr>tp_nat_map := (tp_nat_map p)((source, src_port b) \<mapsto> (dest, dst_port b))\<rparr>)"
    by (simp add: TcpProxy_recv_handle_def dst e q1)
  ultimately show ?thesis by blast
qed


lemma tcp_send_spec:
  assumes ok: "tcp_packet_ok k b" and dst: "IpV4Packet_destination_ip b = Inr dest"
    and nat: "tp_nat_map p (dest, dst_port b) = Some (ip, port)"
  shows "\<exists>q. TcpProxy_send_handle k b p = Inr q \<and> tcp_sent k (ip, port) (dest, dst_port b) q"
proof -
  have b: "ip4_ok b" "20 \<le> ip4_hlen b" "ip4_hlen b + 20 \<le> length b" using ok by (simp_all add: tcp_packet_ok_def)
  define pl where "pl = drop (ip4_hlen b) b"
  have pl: "20 \<le> length pl" "length pl \<le> 65535" "even (length pl) \<or> k" "length pl = length b - ip4_hlen b" "8 \<le> length pl"
    using ok by (auto simp: pl_def tcp_packet_ok_def)
  have off: "unat (drop_bit 4 (pl ! 12)) * 4 \<le> length pl" using ok b by (simp add: pl_def tcp_packet_ok_def)
  note ports = port_reads[of b, folded pl_def]
  obtain t where t: "TcpPacket_update_checksum k (TcpPacket_unchecked ip dest (splice 0 (be16_bytes port) pl)) = Inr t"
    "TcpPacket_is_valid k t = Inr True" "t = TcpPacket_unchecked ip dest (tcp_buffer t)" "length (tcp_buffer t) = length pl"
    "rd16 (tcp_buffer t) 0 = Inr port" "rd16 (tcp_buffer t) 2 = Inr (dst_port b)" "tcp_buffer t ! 12 = pl ! 12"
    using tcp_sealed[of "splice 0 (be16_bytes port) pl" k ip dest] pl set_port_src[of pl port] ports b
    by (auto simp: nth_splice_above)
  let ?b = "splice (ip4_hlen b) (tcp_buffer t) b"
  note s = ip4_payload_splice[OF b(1,2), of "tcp_buffer t"] and lt = t(4)[unfolded pl(4)]
  obtain q where q: "bindE (IpV4Packet_set_source_ip ?b ip) (IpV4Packet_update_checksum k) = Inr q"
    "IpV4Packet_is_valid k q = Inr True" "IpV4Packet_source_ip q = Inr ip"
    "IpV4Packet_destination_ip q = IpV4Packet_destination_ip ?b" "IpV4Packet_payload q = Inr (tcp_buffer t)"
    using ip4_new_source[of ?b ip k] s(1,2,5)[OF lt] b(2) by auto
  have e: "IpV4Packet_payload_mut b (\<lambda>pl.
            bindE (TcpPacket_new ip dest pl) (\<lambda>t.
            bindE (TcpPacket_set_source_port t port) (\<lambda>t.
            bindE (TcpPacket_update_checksum k t) (\<lambda>t. Inr (tcp_buffer t))))) = Inr ?b"
    using pl b off t(1) unfolding payload_edit_ok(2)[OF b(1)] pl_def[symmetric]
    by (simp add: TcpPacket_new_eq off TcpPacket_set_source_port_def TcpPacket_unchecked_def wr16_in mapE_def)
  have port: "bindE (IpV4Packet_payload b) (\<lambda>pl. bindE (TcpPacket_new src dest pl) TcpPacket_destination_port) = Inr (dst_port b)" for src
    using pl ports b off by (simp add: ip4_payload pl_def[symmetric] TcpPacket_new_eq off TcpPacket_destination_port_def TcpPacket_unchecked_def)
  obtain q1 where q1: "IpV4Packet_set_source_ip ?b ip = Inr q1" "IpV4Packet_update_checksum k q1 = Inr q"
    using q(1) by (auto simp: bindE_Inr_iff)
  have "IpV4Packet_destination_ip ?b = Inr dest"
    using dst s(1,4)[OF lt] b by (simp add: ip4_addrs)
  moreover have "TcpPacket_new ip dest (tcp_buffer t) = Inr t"
    using t pl off by (simp add: TcpPacket_new_eq off)
  ultimately have "tcp_sent k (ip, port) (dest, dst_port b) q"
    using q t by (auto simp: tcp_sent_def TcpPacket_source_port_def TcpPacket_destination_port_def)
  moreover have "TcpProxy_send_handle k b p = Inr q"
    by (simp add: TcpProxy_send_handle_def ip4_addrs(1)[OF b(1)] dst port nat e q1 del: bindE_assoc)
  ultimately show ?thesis by blast
qed

section \<open>Properties\<close>

definition proxied :: "bool \<Rightarrow> IpProtocol \<Rightarrow> u8 list \<Rightarrow> bool" where
  "proxied k proto b \<longleftrightarrow> IpV4Packet_protocol b = Inr proto \<and>
     (proto = Ip_Tcp \<and> tcp_packet_ok k b \<or> proto = Ip_Udp \<and> udp_packet_ok k b)"

definition ip_sent :: "bool \<Rightarrow> IpProtocol \<Rightarrow> sock4 \<Rightarrow> sock4 \<Rightarrow> u8 list \<Rightarrow> bool" where
  "ip_sent k proto s d q = (if proto = Ip_Tcp then tcp_sent k s d q else udp_sent k s d q)"

definition listen_port :: "IpProtocol \<Rightarrow> IpProxyMap \<Rightarrow> u16" where
  "listen_port proto m = (if proto = Ip_Tcp then tp_port (pm_tcp m) else up_port (pm_udp m))"

text \<open>
  C12. The proxy's address translation is undone on the way back. A TCP or UDP packet of a peer to an
  outside target is redirected, with valid checksums, to the proxy's listener on this device, keeping the
  peer's address and port; a later packet to that address and port goes out, with valid
  checksums, as if the target had sent it.
\<close>

theorem proxy_nat_roundtrip:
  assumes "proxied k proto b" "IpV4Packet_source_ip b = Inr source" "IpV4Packet_destination_ip b = Inr dest"
    and "proxied k proto reply" "IpV4Packet_destination_ip reply = Inr source" "dst_port reply = src_port b"
  shows "\<exists>q m' r. IpProxyMap_recv_handle k send_to b source destination m = (Inr (False, q), m') \<and>
     ip_sent k proto (source, src_port b) (destination, listen_port proto m) q \<and>
     IpProxyMap_send_handle k reply m' = Inr r \<and>
     ip_sent k proto (dest, dst_port b) (source, src_port b) r"
proof -
  have p: "IpV4Packet_protocol b = Inr proto" "IpV4Packet_protocol reply = Inr proto"
    using assms(1,4) by (simp_all add: proxied_def)
  consider "proto = Ip_Tcp" "tcp_packet_ok k b" "tcp_packet_ok k reply"
    | "proto = Ip_Udp" "udp_packet_ok k b" "udp_packet_ok k reply"
    using assms(1,4) by (auto simp: proxied_def)
  then show ?thesis
  proof cases
    case 1
    let ?t = "(pm_tcp m)\<lparr>tp_nat_map := (tp_nat_map (pm_tcp m))((source, src_port b) \<mapsto> (dest, dst_port b))\<rparr>"
    obtain q where q: "TcpProxy_recv_handle k b source destination (pm_tcp m) = Inr (False, q, ?t)"
      "tcp_sent k (source, src_port b) (destination, tp_port (pm_tcp m)) q"
      using tcp_recv_spec[OF 1(2) assms(2,3), of destination "pm_tcp m"] by blast
    obtain r where r: "TcpProxy_send_handle k reply ?t = Inr r" "tcp_sent k (dest, dst_port b) (source, src_port b) r"
      using tcp_send_spec[OF 1(3) assms(5), of ?t dest "dst_port b"] assms(6) by auto
    show ?thesis using q r 1(1) p by (simp add: IpProxyMap_recv_handle_def IpProxyMap_send_handle_def ip_sent_def listen_port_def)
  next
    case 2
    let ?t = "(pm_udp m)\<lparr>up_nat_map := (up_nat_map (pm_udp m))((source, src_port b) \<mapsto> (dest, dst_port b))\<rparr>"
    obtain q where q: "UdpProxy_recv_handle k b source destination (pm_udp m) = Inr (False, q, ?t)"
      "udp_sent k (source, src_port b) (destination, up_port (pm_udp m)) q"
      using udp_recv_spec[OF 2(2) assms(2,3), of destination "pm_udp m"] by blast
    obtain r where r: "UdpProxy_send_handle k reply ?t = Inr r" "udp_sent k (dest, dst_port b) (source, src_port b) r"
      using udp_send_spec[OF 2(3) assms(5), of ?t dest "dst_port b"] assms(6) by auto
    show ?thesis using q r 2(1) p by (simp add: IpProxyMap_recv_handle_def IpProxyMap_send_handle_def ip_sent_def listen_port_def)
  qed
qed

definition ex_udp :: "ipv4 \<Rightarrow> ipv4 \<Rightarrow> u8 \<Rightarrow> u8 \<Rightarrow> u8 list" where
  "ex_udp s d sp dp = [0x45, 0, 0, 30, 0, 0, 0, 0, 64, 17, 0, 0] @ octets s @ octets d @ [0, sp, 0, dp, 0, 10, 0, 0, 1, 2]"

definition ex_proxy :: IpProxyMap where
  "ex_proxy = \<lparr>pm_tcp = TcpProxy_new 4001, pm_udp = UdpProxy_new 4000, pm_icmp = IcmpProxy_new\<rparr>"

lemma ex_udp_facts:
  "length (ex_udp s d sp dp) = 30" "ip4_hlen (ex_udp s d sp dp) = 20" "udp_packet_ok k (ex_udp s d sp dp)"
  "IpV4Packet_protocol (ex_udp s d sp dp) = Inr Ip_Udp"
  "IpV4Packet_source_ip (ex_udp s d sp dp) = Inr s" "IpV4Packet_destination_ip (ex_udp s d sp dp) = Inr d"
  "src_port (ex_udp s d sp dp) = be16 0 sp" "dst_port (ex_udp s d sp dp) = be16 0 dp"
proof -
  have o: "octets x = [octets x ! 0, octets x ! 1, octets x ! 2, octets x ! 3]" for x
    by (rule nth_equalityI) (auto simp: less_Suc_eq numeral_eq_Suc)
  obtain a b c e where s: "octets s = [a, b, c, e]" "s = Ipv4Addr_new a b c e" using o[of s] Ipv4Addr_new_octets[of s] by (metis One_nat_def)
  obtain a' b' c' e' where d: "octets d = [a', b', c', e']" "d = Ipv4Addr_new a' b' c' e'" using o[of d] Ipv4Addr_new_octets[of d] by (metis One_nat_def)
  show l: "length (ex_udp s d sp dp) = 30" by (simp add: ex_udp_def)
  show h: "ip4_hlen (ex_udp s d sp dp) = 20" by (simp add: ex_udp_def ip4_hlen_def)
  then show ok: "udp_packet_ok k (ex_udp s d sp dp)" using l by (simp add: udp_packet_ok_def ip4_ok_def)
  then have "ip4_ok (ex_udp s d sp dp)" by (simp add: udp_packet_ok_def)
  from ip4_addrs[OF this] show "IpV4Packet_protocol (ex_udp s d sp dp) = Inr Ip_Udp"
    "IpV4Packet_source_ip (ex_udp s d sp dp) = Inr s" "IpV4Packet_destination_ip (ex_udp s d sp dp) = Inr d"
    by (simp_all add: ex_udp_def s d IpProtocol_of_u8_def)
  show "src_port (ex_udp s d sp dp) = be16 0 sp" "dst_port (ex_udp s d sp dp) = be16 0 dp"
    using h by (simp_all add: src_port_def dst_port_def) (simp_all add: ex_udp_def s d)
qed

lemma proxy_nat_roundtrip_witness:
  "\<exists>q m' r. IpProxyMap_recv_handle False (Inr ()) (ex_udp 0x0A1A0003 0xC0A80107 7 53) 0x0A1A0003 0x0A1A0002 ex_proxy =
       (Inr (False, q), m') \<and>
     IpProxyMap_send_handle False (ex_udp 0x0A1A0002 0x0A1A0003 160 7) m' = Inr r \<and>
     udp_sent False (0xC0A80107, be16 0 53) (0x0A1A0003, be16 0 7) r"
proof -
  let ?b = "ex_udp 0x0A1A0003 0xC0A80107 7 53" and ?r = "ex_udp 0x0A1A0002 0x0A1A0003 160 7"
  have "proxied False Ip_Udp ?b" "proxied False Ip_Udp ?r" by (simp_all add: proxied_def ex_udp_facts)
  from proxy_nat_roundtrip[OF this(1) ex_udp_facts(5,6) this(2) ex_udp_facts(6), of "Inr ()" "0x0A1A0002" ex_proxy]
  show ?thesis by (auto simp: ip_sent_def ex_udp_facts)
qed

text \<open>
  The UDP proxy ties a peer's socket to its first target: after a datagram to one target, a second
  datagram from the same address and port to another target is sent to the first one, since the
  socket of the sender is already connected, while the table already names the second
  target, so answers of the first target are delivered as if the second had sent them.
\<close>

theorem udp_proxy_confuses_targets:
  assumes "udp_packet_ok k b1" "IpV4Packet_source_ip b1 = Inr source" "IpV4Packet_destination_ip b1 = Inr dest1"
    and "udp_packet_ok k b2" "IpV4Packet_source_ip b2 = Inr source" "IpV4Packet_destination_ip b2 = Inr dest2"
    and "src_port b1 = port" "src_port b2 = port"
    and "udp_packet_ok k answer" "IpV4Packet_destination_ip answer = Inr source" "dst_port answer = port"
  shows "\<exists>q1 p1 p2 q2 p3 p4 r.
    UdpProxy_recv_handle k b1 source here (UdpProxy_new lport) = Inr (False, q1, p1) \<and>
    udp_proxy0 True sock_any (Inr ()) (Inr ()) (Inr ()) now1 data1 (source, port) p1 = (Inr (), p2) \<and>
    UdpProxy_recv_handle k b2 source here p2 = Inr (False, q2, p3) \<and>
    udp_proxy0 True sock_any (Inr ()) (Inr ()) (Inr ()) now2 data2 (source, port) p3 = (Inr (), p4) \<and>
    up_sent p4 = [(data1, dest1, dst_port b1), (data2, dest1, dst_port b1)] \<and>
    UdpProxy_send_handle k answer p4 = Inr r \<and> udp_sent k (dest2, dst_port b2) (source, port) r"
proof -
  let ?p1 = "(UdpProxy_new lport)\<lparr>up_nat_map := (up_nat_map (UdpProxy_new lport))((source, port) \<mapsto> (dest1, dst_port b1))\<rparr>"
  obtain q1 where q1: "UdpProxy_recv_handle k b1 source here (UdpProxy_new lport) = Inr (False, q1, ?p1)"
    using udp_recv_spec[OF assms(1-3), of here "UdpProxy_new lport"] assms(7) by auto
  define p2 where "p2 = ?p1\<lparr>up_sent := [(data1, dest1, dst_port b1)],
     up_inner := (up_inner ?p1)((source, port) \<mapsto> ((dest1, dst_port b1), now1))\<rparr>"
  have u1: "udp_proxy0 True sock_any (Inr ()) (Inr ()) (Inr ()) now1 data1 (source, port) ?p1 = (Inr (), p2)"
    by (simp add: udp_proxy0_def UdpProxy_new_def p2_def)
  define p3 where "p3 = p2\<lparr>up_nat_map := (up_nat_map p2)((source, port) \<mapsto> (dest2, dst_port b2))\<rparr>"
  obtain q2 where q2: "UdpProxy_recv_handle k b2 source here p2 = Inr (False, q2, p3)"
    using udp_recv_spec[OF assms(4-6), of here p2] assms(8) by (auto simp: p3_def)
  define p4 where "p4 = p3\<lparr>up_inner := (up_inner p3)((source, port) \<mapsto> ((dest1, dst_port b1), now2)),
     up_sent := up_sent p3 @ [(data2, dest1, dst_port b1)]\<rparr>"
  have u2: "udp_proxy0 True sock_any (Inr ()) (Inr ()) (Inr ()) now2 data2 (source, port) p3 = (Inr (), p4)"
    by (simp add: udp_proxy0_def p2_def p3_def p4_def)
  obtain r where "UdpProxy_send_handle k answer p4 = Inr r" "udp_sent k (dest2, dst_port b2) (source, port) r"
    using udp_send_spec[OF assms(9,10), of p4 dest2 "dst_port b2"] assms(11) by (auto simp: p4_def p3_def)
  moreover have "up_sent p4 = [(data1, dest1, dst_port b1), (data2, dest1, dst_port b1)]"
    by (simp add: p4_def p3_def p2_def)
  ultimately show ?thesis using q1 u1 q2 u2 by blast
qed

lemma udp_proxy_confuses_targets_witness:
  "\<exists>q1 p1 p2 q2 p3 p4.
    UdpProxy_recv_handle False (ex_udp 3 8 7 53) 3 2 (UdpProxy_new 4000) = Inr (False, q1, p1) \<and>
    udp_proxy0 True (Inr ()) (Inr ()) (Inr ()) (Inr ()) 5 [1] (3, be16 0 7) p1 = (Inr (), p2) \<and>
    UdpProxy_recv_handle False (ex_udp 3 9 7 53) 3 2 p2 = Inr (False, q2, p3) \<and>
    udp_proxy0 True (Inr ()) (Inr ()) (Inr ()) (Inr ()) 6 [2] (3, be16 0 7) p3 = (Inr (), p4) \<and>
    up_sent p4 = [([1], 8, be16 0 53), ([2], 8, be16 0 53)]"
  using udp_proxy_confuses_targets[of False "ex_udp 3 8 7 53" 3 8 "ex_udp 3 9 7 53" 9 "be16 0 7" "ex_udp 2 3 160 7"
      2 4000 "Inr ()" 5 "[1]" 6 "[2]"]
  by (simp only: ex_udp_facts simp_thms) blast

end
