(* ===== verification/Compression.thy ===== *)
theory Compression
  imports Net_Packet
begin

text \<open>
  Packet extensions and compression: \<^verbatim>\<open>protocol/extension.rs\<close>, \<^verbatim>\<open>compression/\<close> and
  \<^verbatim>\<open>handle/extension/mod.rs\<close>. A compressed packet ends with a four-byte tail (algorithm, two
  zero bytes, extension type 0) and has the extension flag set. The LZ4 and Zstandard
  libraries are parameters: a codec reads an input and writes into an output buffer.
\<close>

section \<open>Extension tails\<close>

datatype ExtensionTailType = Tail_Compression | Tail_Unknown u8

definition ExtensionTailType_of_u8 :: "u8 \<Rightarrow> ExtensionTailType" where
  "ExtensionTailType_of_u8 v = (if v = 0 then Tail_Compression else Tail_Unknown v)"

datatype CompressionAlgorithm = Alg_Lz4 | Alg_Zstd | Alg_Unknown u8

definition CompressionAlgorithm_of_u8 :: "u8 \<Rightarrow> CompressionAlgorithm" where
  "CompressionAlgorithm_of_u8 v = (if v = 1 then Alg_Lz4 else if v = 2 then Alg_Zstd else Alg_Unknown v)"

fun CompressionAlgorithm_to_u8 :: "CompressionAlgorithm \<Rightarrow> u8" where
  "CompressionAlgorithm_to_u8 Alg_Lz4 = 1"
| "CompressionAlgorithm_to_u8 Alg_Zstd = 2"
| "CompressionAlgorithm_to_u8 (Alg_Unknown v) = v"

interpretation compression_code: wire_code CompressionAlgorithm_of_u8 CompressionAlgorithm_to_u8
  by unfold_locales (simp add: CompressionAlgorithm_of_u8_def)

definition CompressionExtensionTail_new :: "u8 list \<Rightarrow> u8 list res" where
  "CompressionExtensionTail_new buffer = (if length buffer = 4 then Inr buffer else Inl Panic)"

definition CompressionExtensionTail_algorithm :: "u8 list \<Rightarrow> CompressionAlgorithm res" where
  "CompressionExtensionTail_algorithm buffer = mapE CompressionAlgorithm_of_u8 (rd buffer 0)"

text \<open>
  \<open>ExtensionTailPacket\<close> has the further case \<open>Unknown\<close>, which \<open>split_tail_packet\<close> never builds:
  an unknown type is an error. The result carries the tail and the shortened packet.
\<close>

datatype ExtensionTailPacket = Ext_Compression "u8 list" | Ext_Unknown

definition split_tail_packet :: "net_packet \<Rightarrow> (ExtensionTailPacket \<times> net_packet) res" where
  "split_tail_packet p =
     bindE (NetPacket_is_extension p) (\<lambda>ext.
       if ext then
         bindE (NetPacket_payload p) (\<lambda>payload.
           if payload = [] then Inl (Anyhow ''not extension'')
           else (case ExtensionTailType_of_u8 (last payload) of
               Tail_Compression \<Rightarrow>
                 let data_len = np_data_len p - 4 in
                 bindE (NetPacket_set_data_len p data_len) (\<lambda>q.
                 bindE (NetPacket_set_extension_flag q False) (\<lambda>r.
                 bindE (slice (np_buffer r) data_len (data_len + 4)) (\<lambda>b.
                 bindE (CompressionExtensionTail_new b) (\<lambda>tail. Inr (Ext_Compression tail, r)))))
             | Tail_Unknown e \<Rightarrow> Inl (Anyhow ''unknown extension'')))
       else Inl (Anyhow ''not extension''))"

text \<open>The mutable tail is a view into the packet: it is represented by its offset.\<close>

definition append_compression_extension_tail :: "net_packet \<Rightarrow> (nat \<times> net_packet) res" where
  "append_compression_extension_tail p =
     (let len = np_data_len p in
      bindE (NetPacket_set_data_len p (np_data_len p + 4)) (\<lambda>q.
      bindE (NetPacket_set_extension_flag q True) (\<lambda>r.
      bindE (slice (np_buffer r) len (np_data_len r)) (\<lambda>b.
      bindE (CompressionExtensionTail_new b) (\<lambda>tail.
      bindE (copy_range (np_buffer r) len (np_data_len r) (replicate (length tail) 0))
        (\<lambda>buf. Inr (len, r\<lparr>np_buffer := buf\<rparr>)))))))"

definition CompressionExtensionTail_set_algorithm :: "net_packet \<Rightarrow> nat \<Rightarrow> CompressionAlgorithm \<Rightarrow> net_packet res" where
  "CompressionExtensionTail_set_algorithm p tail algorithm =
     np_put p tail (CompressionAlgorithm_to_u8 algorithm)"

section \<open>Codecs\<close>

type_synonym codec = "u8 list \<Rightarrow> u8 list \<Rightarrow> (u8 list \<times> nat) option"

record codecs =
  lz4_compress_into :: codec
  lz4_decompress_into :: codec
  zstd_safe_compress :: "int \<Rightarrow> codec"
  zstd_safe_decompress :: codec

text \<open>
  The documented behaviour: a compressor that succeeds leaves the output buffer's size alone and
  reports how much of it is used; decompressing that part into a buffer with enough room
  yields the input.
\<close>

definition codec_pair :: "codec \<Rightarrow> codec \<Rightarrow> bool" where
  "codec_pair c d \<longleftrightarrow> (\<forall>i ob b n. c i ob = Some (b, n) \<longrightarrow> length b = length ob \<and> n \<le> length b \<and>
     (\<forall>ob'. length i \<le> length ob' \<longrightarrow>
       (\<exists>b'. d (take n b) ob' = Some (b', length i) \<and> length b' = length ob' \<and> take (length i) b' = i)))"

definition codecs_laws :: "codecs \<Rightarrow> bool" where
  "codecs_laws C \<longleftrightarrow> codec_pair (lz4_compress_into C) (lz4_decompress_into C) \<and>
     (\<forall>level. codec_pair (zstd_safe_compress C level) (zstd_safe_decompress C))"

text \<open>All four calls have the same shape: fill the whole payload, then set its length.\<close>

definition run_codec :: "string \<Rightarrow> codec \<Rightarrow> net_packet \<Rightarrow> net_packet \<Rightarrow> net_packet res" where
  "run_codec msg c in_net_packet out0 =
     (let out = NetPacket_set_data_len_max out0 in
      bindE (NetPacket_payload in_net_packet) (\<lambda>i.
      bindE (NetPacket_payload out) (\<lambda>ob.
        (case c i ob of
           None \<Rightarrow> Inl (Anyhow msg)
         | Some (b, len) \<Rightarrow>
             bindE (copy_range (np_buffer out) 12 (np_data_len out) b) (\<lambda>buf.
               NetPacket_set_payload_len (out\<lparr>np_buffer := buf\<rparr>) len)))))"

definition Lz4Compressor_compress :: "codecs \<Rightarrow> net_packet \<Rightarrow> net_packet \<Rightarrow> net_packet res" where
  "Lz4Compressor_compress C = run_codec ''Lz4 compress'' (lz4_compress_into C)"

definition Lz4Compressor_decompress :: "codecs \<Rightarrow> net_packet \<Rightarrow> net_packet \<Rightarrow> net_packet res" where
  "Lz4Compressor_decompress C = run_codec ''Lz4 decompress'' (lz4_decompress_into C)"

definition ZstdCompressor_compress :: "codecs \<Rightarrow> int \<Rightarrow> net_packet \<Rightarrow> net_packet \<Rightarrow> net_packet res" where
  "ZstdCompressor_compress C level = run_codec ''zstd compress'' (zstd_safe_compress C level)"

definition ZstdCompressor_decompress :: "codecs \<Rightarrow> net_packet \<Rightarrow> net_packet \<Rightarrow> net_packet res" where
  "ZstdCompressor_decompress C = run_codec ''zstd decompress'' (zstd_safe_decompress C)"

datatype Compressor = Compressor_Lz4 | Compressor_Zstd int | Compressor_None

text \<open>
  The result is the flag and the output packet, which \<open>Ok(false)\<close> may leave changed. The guard
  makes \<open>data_len() - 16\<close> safe.
\<close>

definition finish_compress :: "CompressionAlgorithm \<Rightarrow> net_packet \<Rightarrow> net_packet res \<Rightarrow> (bool \<times> net_packet) res" where
  "finish_compress alg in_net_packet compressed =
     bindE compressed (\<lambda>out1.
     bindE (append_compression_extension_tail out1) (\<lambda>(tail, out2).
     bindE (CompressionExtensionTail_set_algorithm out2 tail alg) (\<lambda>out3.
       if np_data_len out3 \<ge> np_data_len in_net_packet - 16 then Inr (False, out3)
       else Inr (True, out3))))"

definition Compressor_compress :: "codecs \<Rightarrow> Compressor \<Rightarrow> net_packet \<Rightarrow> net_packet \<Rightarrow> (bool \<times> net_packet) res" where
  "Compressor_compress C k in_net_packet out = (case k of
     Compressor_Lz4 \<Rightarrow>
       if np_data_len in_net_packet < 128 then Inr (False, out)
       else finish_compress Alg_Lz4 in_net_packet (Lz4Compressor_compress C in_net_packet out)
   | Compressor_Zstd level \<Rightarrow>
       if np_data_len in_net_packet < 128 then Inr (False, out)
       else finish_compress Alg_Zstd in_net_packet (ZstdCompressor_compress C level in_net_packet out)
   | Compressor_None \<Rightarrow> Inr (False, out))"

definition Compressor_decompress :: "codecs \<Rightarrow> CompressionAlgorithm \<Rightarrow> net_packet \<Rightarrow> net_packet \<Rightarrow> net_packet res" where
  "Compressor_decompress C algorithm in_net_packet out = (case algorithm of
     Alg_Lz4 \<Rightarrow> Lz4Compressor_decompress C in_net_packet out
   | Alg_Zstd \<Rightarrow> ZstdCompressor_decompress C in_net_packet out
   | Alg_Unknown v \<Rightarrow> Inl (Anyhow ''Unknown decompress''))"

text \<open>The result is the flag, the input without its tail and the output.\<close>

definition handle_extension_tail :: "codecs \<Rightarrow> net_packet \<Rightarrow> net_packet \<Rightarrow> (bool \<times> net_packet \<times> net_packet) res" where
  "handle_extension_tail C in_net_packet out =
     bindE (NetPacket_is_extension in_net_packet) (\<lambda>ext.
       if ext then
         bindE (split_tail_packet in_net_packet) (\<lambda>(tail_packet, in').
           (case tail_packet of
              Ext_Compression extension \<Rightarrow>
                bindE (CompressionExtensionTail_algorithm extension) (\<lambda>compression_algorithm.
                bindE (Compressor_decompress C compression_algorithm in' out) (\<lambda>out1.
                bindE (NetPacket_head in') (\<lambda>h.
                bindE (NetPacket_set_head out1 h) (\<lambda>out2. Inr (True, in', out2)))))
            | Ext_Unknown \<Rightarrow> Inl (Anyhow ''Unknown decompress'')))
       else Inr (False, in_net_packet, out))"

section \<open>What a compressed packet holds\<close>

lemma NetPacket_set_head_ok:
  assumes "np_ok p" "np_ok q"
  shows "\<exists>r. NetPacket_set_head p (take 12 (np_buffer q)) = Inr r \<and> np_ok r \<and>
    np_abs r = (np_abs q)\<lparr>f_payload := f_payload (np_abs p)\<rparr>"
proof -
  let ?b = "splice 0 (take 12 (np_buffer q)) (np_buffer p)"
  note l = np_okD[OF assms(1)] np_okD[OF assms(2)]
  have "take 12 ?b = take 12 (np_buffer q)" "drop 12 ?b = drop 12 (np_buffer p)"
    using l by (simp_all add: splice_def)
  then have "np_abs (p\<lparr>np_buffer := ?b\<rparr>) = (np_abs q)\<lparr>f_payload := f_payload (np_abs p)\<rparr>"
    using np_abs_buffer_head[of ?b "np_buffer q" "np_data_len p" "np_data_len q"] l
    by (cases p; cases q) (simp add: np_abs_def Let_def)
  with l show ?thesis by (simp add: NetPacket_set_head_def copy_range_in np_ok_def)
qed

lemma run_codec_eq:
  assumes "np_ok i" and "12 \<le> length (np_buffer out0)"
  shows "run_codec msg c i out0 = (case c (f_payload (np_abs i)) (drop 12 (np_buffer out0)) of
     None \<Rightarrow> Inl (Anyhow msg)
   | Some (b, n) \<Rightarrow>
       if length b = length (np_buffer out0) - 12
       then NetPacket_set_payload_len
         \<lparr>np_data_len = length (np_buffer out0), np_buffer = splice 12 b (np_buffer out0)\<rparr> n
       else Inl Panic)"
proof -
  have p: "NetPacket_payload \<lparr>np_data_len = length b, np_buffer = b\<rparr> = Inr (drop 12 b)" if "12 \<le> length b" for b
    using that by (simp add: NetPacket_payload_def slice_in)
  have s: "NetPacket_set_data_len_max out0 = \<lparr>np_data_len = length (np_buffer out0), np_buffer = np_buffer out0\<rparr>"
    by (cases out0) (simp add: NetPacket_set_data_len_max_def)
  show ?thesis using assms(2)
    by (cases "c (f_payload (np_abs i)) (drop 12 (np_buffer out0))")
      (auto simp: run_codec_def np_get(11)[OF assms(1)] p s Let_def copy_range_def)
qed

lemma run_codec_ok:
  assumes "np_ok i" and "12 \<le> length (np_buffer out0)"
    and "c (f_payload (np_abs i)) (drop 12 (np_buffer out0)) = Some (b, n)"
    and "length b = length (np_buffer out0) - 12" and "n \<le> length b"
  shows "\<exists>r. run_codec msg c i out0 = Inr r \<and> np_ok r \<and> np_data_len r = 12 + n \<and>
    f_payload (np_abs r) = take n b \<and> length (np_buffer r) = length (np_buffer out0)"
proof -
  let ?b = "splice 12 b (np_buffer out0)"
  have l: "length ?b = length (np_buffer out0)" using assms(2,4) by simp
  have "f_payload (np_abs \<lparr>np_data_len = 12 + n, np_buffer = ?b\<rparr>) = take n b"
    using assms(2,4,5) by (simp add: np_abs_def Let_def splice_def min_def)
  with assms l show ?thesis
    by (simp add: run_codec_eq NetPacket_set_payload_len_def NetPacket_set_data_len_def HEAD_LEN_def np_ok_def)
qed

lemma run_codec_Inr:
  assumes "np_ok i" and "12 \<le> length (np_buffer out0)" and "run_codec msg c i out0 = Inr r"
  shows "\<exists>b n. c (f_payload (np_abs i)) (drop 12 (np_buffer out0)) = Some (b, n)"
  using assms(3) by (auto simp: run_codec_eq[OF assms(1,2)] split: option.splits)

lemma drop_splice: "k \<le> n \<Longrightarrow> n \<le> length xs \<Longrightarrow> drop k (splice n t xs) = splice (n - k) t (drop k xs)"
  by (simp add: splice_def drop_take)

lemma take_splice:
  "n + length t \<le> m \<Longrightarrow> m \<le> length xs \<Longrightarrow> take m (splice n t xs) = splice n t (take m xs)"
  by (cases "m \<le> n"; cases "m = n") (simp_all add: splice_def min_def drop_take)

lemma splice_payload:
  assumes "np_ok r" and "12 \<le> n" and "n + length t \<le> np_data_len r"
  shows "np_ok (r\<lparr>np_buffer := splice n t (np_buffer r)\<rparr>) \<and>
    np_abs (r\<lparr>np_buffer := splice n t (np_buffer r)\<rparr>) = (np_abs r)\<lparr>f_payload :=
      splice (n - 12) t (f_payload (np_abs r))\<rparr>"
proof -
  let ?b = "splice n t (np_buffer r)" and ?pl = "f_payload (np_abs r)"
  note l = np_okD[OF assms(1)]
  have len: "length ?b = length (np_buffer r)" using assms l by simp
  have "take (np_data_len r - 12) (drop 12 ?b) = splice (n - 12) t ?pl"
  proof -
    have "n - 12 + length t \<le> np_data_len r - 12" "np_data_len r - 12 \<le> length (drop 12 (np_buffer r))"
      using assms(2,3) l by (simp_all add: diff_le_mono)
    from take_splice[OF this] show ?thesis using assms(2,3) l by (simp add: drop_splice np_abs_def Let_def)
  qed
  with np_abs_buffer_head[of ?b "np_buffer r" "np_data_len r" "np_data_len r"] l len assms(2,3)
  show ?thesis by (cases r) (simp add: np_ok_def take_splice_below)
qed

lemma list_update_splice: "i < length xs \<Longrightarrow> xs[i := v] = splice i [v] xs"
  by (simp add: splice_def upd_conv_take_nth_drop)

lemma append_tail_ok:
  assumes "np_ok p" and "np_data_len p + 4 \<le> length (np_buffer p)"
  shows "\<exists>q. append_compression_extension_tail p = Inr (np_data_len p, q) \<and> np_ok q \<and>
    f_extension (np_abs q) \<and> f_payload (np_abs q) = f_payload (np_abs p) @ [0, 0, 0, 0] \<and>
    np_data_len q = np_data_len p + 4 \<and> length (np_buffer q) = length (np_buffer p)"
proof -
  let ?n = "np_data_len p"
  note l = np_okD[OF assms(1)]
  obtain w where w: "take (?n + 4 - 12) (drop 12 (np_buffer p)) = f_payload (np_abs p) @ w" "length w = 4"
  proof
    show "take (?n + 4 - 12) (drop 12 (np_buffer p)) = f_payload (np_abs p) @ take 4 (drop ?n (np_buffer p))"
      using l take_add[of "?n - 12" 4 "drop 12 (np_buffer p)"] by (simp add: np_abs_def Let_def)
  qed (use assms l in simp)
  let ?q = "p\<lparr>np_data_len := ?n + 4\<rparr>"
  have q: "np_ok ?q" "f_payload (np_abs ?q) = f_payload (np_abs p) @ w"
    using NetPacket_set_data_len_abs[OF assms(1), of "?n + 4"] assms(2) l w by simp_all
  obtain r where r: "NetPacket_set_extension_flag ?q True = Inr r" "np_ok r"
    "np_abs r = (np_abs ?q)\<lparr>f_extension := True\<rparr>" "np_data_len r = ?n + 4"
    "length (np_buffer r) = length (np_buffer p)"
    using np_set(3)[OF q(1), of True] by (rule np_updatesE) simp
  let ?t = "replicate 4 0 :: u8 list"
  have s: "np_ok (r\<lparr>np_buffer := splice ?n ?t (np_buffer r)\<rparr>)"
    "f_payload (np_abs (r\<lparr>np_buffer := splice ?n ?t (np_buffer r)\<rparr>)) = f_payload (np_abs p) @ [0, 0, 0, 0]"
    "f_extension (np_abs (r\<lparr>np_buffer := splice ?n ?t (np_buffer r)\<rparr>))"
    using splice_payload[OF r(2), of ?n ?t] l r(3,4) q(2) w(2) length_f_payload[OF assms(1)]
    by (simp_all add: splice_def numeral_eq_Suc)
  have "append_compression_extension_tail p = Inr (?n, r\<lparr>np_buffer := splice ?n ?t (np_buffer r)\<rparr>)"
    using assms(2) l r by (simp add: append_compression_extension_tail_def Let_def NetPacket_set_data_len_def
        slice_in CompressionExtensionTail_new_def copy_range_in)
  with s r(4,5) assms(2) l show ?thesis by simp
qed

lemma append_tail_Inr:
  "append_compression_extension_tail p = Inr (t, q) \<Longrightarrow> np_data_len p + 4 \<le> length (np_buffer p)"
  by (auto simp: append_compression_extension_tail_def Let_def NetPacket_set_data_len_def split: if_splits)

lemma finish_ok:
  assumes "np_ok c" and "finish_compress alg i (Inr c) = Inr (b, q)"
  shows "np_ok q \<and> f_extension (np_abs q) \<and>
    f_payload (np_abs q) = f_payload (np_abs c) @ [CompressionAlgorithm_to_u8 alg, 0, 0, 0] \<and>
    np_data_len q = np_data_len c + 4 \<and> b = (np_data_len q < np_data_len i - 16)"
proof -
  have "np_data_len c + 4 \<le> length (np_buffer c)"
    using assms(2) by (auto simp: finish_compress_def bindE_Inr_iff dest: append_tail_Inr)
  then obtain a where a: "append_compression_extension_tail c = Inr (np_data_len c, a)" "np_ok a"
    "f_extension (np_abs a)" "f_payload (np_abs a) = f_payload (np_abs c) @ [0, 0, 0, 0]"
    "np_data_len a = np_data_len c + 4" using append_tail_ok[OF assms(1)] by blast
  note l = np_okD[OF assms(1)] np_okD[OF a(2)]
  let ?v = "CompressionAlgorithm_to_u8 alg"
  let ?q = "a\<lparr>np_buffer := splice (np_data_len c) [?v] (np_buffer a)\<rparr>"
  have "CompressionExtensionTail_set_algorithm a (np_data_len c) alg = Inr ?q"
    using l a(5) by (simp add: CompressionExtensionTail_set_algorithm_def np_put_def wr_in list_update_splice)
  then have "finish_compress alg i (Inr c) = Inr (np_data_len a < np_data_len i - 16, ?q)"
    using a(1) by (simp add: finish_compress_def not_le)
  moreover have "np_ok ?q" "f_extension (np_abs ?q)"
    "f_payload (np_abs ?q) = f_payload (np_abs c) @ [?v, 0, 0, 0]"
    using splice_payload[OF a(2), of "np_data_len c" "[?v]"] l a length_f_payload[OF assms(1)]
    by (simp_all add: splice_def)
  ultimately show ?thesis using assms(2) a(5) by simp
qed


lemma codec_pairD:
  assumes "codec_pair c d" "c i ob = Some (b, n)"
  shows "length b = length ob" "n \<le> length b"
    "length i \<le> length ob' \<Longrightarrow> \<exists>b'. d (take n b) ob' = Some (b', length i) \<and> length b' = length ob' \<and> take (length i) b' = i"
  using assms unfolding codec_pair_def by blast+

section \<open>Interface: a pair of inverse codecs\<close>

text \<open>
  What the packet code needs of an algorithm: its number, and a compressor and a decompressor
  that obey the law of \<open>codec_pair\<close>. The three-step work of the sender and the two steps of
  the receiver are inverse for every such pair.
\<close>

locale packet_codec =
  fixes c d :: "codecs \<Rightarrow> codec" and alg :: CompressionAlgorithm and cmsg dmsg :: string
  assumes inverse: "codecs_laws C \<Longrightarrow> codec_pair (c C) (d C)"
    and alg_code: "CompressionAlgorithm_of_u8 (CompressionAlgorithm_to_u8 alg) = alg"
begin

lemma compressed:
  assumes L: "codecs_laws C" and "np_ok i" "np_ok out0"
    and "finish_compress alg i (run_codec cmsg (c C) i out0) = Inr (True, q)"
  shows "\<exists>z. np_ok q \<and> f_extension (np_abs q) \<and> np_data_len q < np_data_len i - 16 \<and>
    f_payload (np_abs q) = z @ [CompressionAlgorithm_to_u8 alg, 0, 0, 0] \<and>
    (\<forall>ob. length (f_payload (np_abs i)) \<le> length ob \<longrightarrow>
      (\<exists>b. d C z ob = Some (b, length (f_payload (np_abs i))) \<and> length b = length ob \<and>
         take (length (f_payload (np_abs i))) b = f_payload (np_abs i)))"
proof -
  have l: "12 \<le> length (np_buffer out0)" using np_okD[OF assms(3)] by simp
  obtain r where r: "run_codec cmsg (c C) i out0 = Inr r"
    using assms(4) by (auto simp: finish_compress_def bindE_Inr_iff)
  then obtain b n where bn: "c C (f_payload (np_abs i)) (drop 12 (np_buffer out0)) = Some (b, n)"
    using run_codec_Inr[OF assms(2) l] by blast
  note c = codec_pairD[OF inverse[OF L] bn]
  have "np_ok r" "f_payload (np_abs r) = take n b"
    using run_codec_ok[where msg = cmsg and c = "c C", OF assms(2) l bn] c(1,2) r by simp_all
  with finish_ok[of r alg i True q] assms(4) r c(3) show ?thesis by auto
qed

lemma restored:
  assumes "np_ok q" and "12 + length pl \<le> length (np_buffer out0)"
    and "\<forall>ob. length pl \<le> length ob \<longrightarrow>
      (\<exists>b. d C (f_payload (np_abs q)) ob = Some (b, length pl) \<and> length b = length ob \<and> take (length pl) b = pl)"
  shows "\<exists>r. run_codec dmsg (d C) q out0 = Inr r \<and> np_ok r \<and> f_payload (np_abs r) = pl"
proof -
  have l: "length pl \<le> length (drop 12 (np_buffer out0))" using assms(2) by simp
  with assms(3) obtain b where b: "d C (f_payload (np_abs q)) (drop 12 (np_buffer out0)) = Some (b, length pl)"
    "length b = length (np_buffer out0) - 12" "take (length pl) b = pl"
    by (metis length_drop)
  show ?thesis using run_codec_ok[where msg = dmsg and c = "d C", OF assms(1) _ b(1,2)] assms(2) b(2,3) by fastforce
qed

end

lemma split_tail_ok:
  assumes "np_ok p" "f_extension (np_abs p)" "f_payload (np_abs p) = z @ [a, 0, 0, 0]"
  shows "\<exists>q. split_tail_packet p = Inr (Ext_Compression [a, 0, 0, 0], q) \<and> np_ok q \<and>
    np_abs q = (np_abs p)\<lparr>f_extension := False, f_payload := z\<rparr>"
proof -
  note l = np_okD[OF assms(1)]
  have n: "np_data_len p = 12 + length z + 4" using length_f_payload[OF assms(1)] assms(3) l by simp
  let ?n = "12 + length z"
  have pl: "take (length z + 4) (drop 12 (np_buffer p)) = z @ [a, 0, 0, 0]"
    using assms(3) n by (simp add: np_abs_def Let_def add.commute)
  then have "take (length z) (take (length z + 4) (drop 12 (np_buffer p))) = z"
    and t: "drop (length z) (take (length z + 4) (drop 12 (np_buffer p))) = [a, 0, 0, 0]" by simp_all
  then have z: "take (length z) (drop 12 (np_buffer p)) = z" by (simp add: min_def)
  from t have t: "take 4 (drop ?n (np_buffer p)) = [a, 0, 0, 0]" by (simp add: drop_take add.commute)
  let ?q = "p\<lparr>np_data_len := ?n\<rparr>"
  have q: "np_ok ?q" "np_abs ?q = (np_abs p)\<lparr>f_payload := z\<rparr>"
    using NetPacket_set_data_len_abs[OF assms(1), of ?n] l n z by simp_all
  obtain r where r: "NetPacket_set_extension_flag ?q False = Inr r" "np_ok r"
    "np_abs r = (np_abs p)\<lparr>f_payload := z, f_extension := False\<rparr>"
    using np_set(3)[OF q(1), of False] q(2) by (auto elim!: np_updatesE)
  obtain v where v: "r = ?q\<lparr>np_buffer := (np_buffer p)[0 := v]\<rparr>"
    using r(1) l by (auto simp: NetPacket_set_extension_flag_def np_put_def rd_in wr_in)
  have "slice (np_buffer r) ?n (?n + 4) = Inr [a, 0, 0, 0]"
    using v l n t by (simp add: slice_in)
  moreover have "last (z @ [a, 0, 0, 0]) = 0" "\<not> length (np_buffer p) < 12 + length z" using l n by simp_all
  ultimately show ?thesis using assms n r
    by (simp add: split_tail_packet_def np_get Let_def NetPacket_set_data_len_def ExtensionTailType_of_u8_def
        CompressionExtensionTail_new_def)
qed


interpretation lz4: packet_codec lz4_compress_into lz4_decompress_into Alg_Lz4
    "''Lz4 compress''" "''Lz4 decompress''"
  by unfold_locales (simp_all add: codecs_laws_def CompressionAlgorithm_of_u8_def)

interpretation zstd: packet_codec "\<lambda>C. zstd_safe_compress C level" zstd_safe_decompress Alg_Zstd
    "''zstd compress''" "''zstd decompress''" for level
  by unfold_locales (simp_all add: codecs_laws_def CompressionAlgorithm_of_u8_def)

section \<open>Properties\<close>

text \<open>
  C7. A packet that \<open>compress\<close> reports as compressed is at least 17 bytes shorter than the original,
  carries the extension flag and a four-byte tail; whatever header the sender then writes, the
  receiver's \<open>handle_extension_tail\<close>, given an output buffer with room for the original,
  yields exactly the original payload under that header with the extension flag cleared.
\<close>

theorem compressed_packet_restored:
  assumes "np_ok i" and "np_ok out0" and "codecs_laws C" and "Compressor_compress C k i out0 = Inr (True, q)"
    and "np_ok q'" and "f_payload (np_abs q') = f_payload (np_abs q)" and "f_extension (np_abs q')"
    and "np_ok out1" and "np_data_len i \<le> length (np_buffer out1)"
  shows "np_data_len q < np_data_len i - 16 \<and> f_extension (np_abs q) \<and>
    (\<exists>q'' r. handle_extension_tail C q' out1 = Inr (True, q'', r) \<and> np_ok r \<and>
       np_abs r = (np_abs q')\<lparr>f_extension := False, f_payload := f_payload (np_abs i)\<rparr>)"
proof -
  let ?pl = "f_payload (np_abs i)"
  have room: "12 + length ?pl \<le> length (np_buffer out1)"
    using assms(9) length_f_payload[OF assms(1)] np_okD[OF assms(1)] by simp
  have "\<exists>z a. np_data_len q < np_data_len i - 16 \<and> f_extension (np_abs q) \<and>
      f_payload (np_abs q) = z @ [a, 0, 0, 0] \<and>
      (\<forall>u. np_ok u \<and> f_payload (np_abs u) = z \<longrightarrow> (\<exists>r. Compressor_decompress C (CompressionAlgorithm_of_u8 a) u out1 = Inr r \<and>
         np_ok r \<and> f_payload (np_abs r) = ?pl))"
  proof (cases k)
    case Compressor_Lz4
    then have "finish_compress Alg_Lz4 i (run_codec ''Lz4 compress'' (lz4_compress_into C) i out0) = Inr (True, q)"
      using assms(4) by (simp add: Compressor_compress_def Lz4Compressor_compress_def split: if_splits)
    from lz4.compressed[OF assms(3,1,2) this] lz4.restored[OF _ room] lz4.alg_code
    show ?thesis by (auto simp: Compressor_decompress_def Lz4Compressor_decompress_def)
  next
    case (Compressor_Zstd level)
    then have "finish_compress Alg_Zstd i (run_codec ''zstd compress'' (zstd_safe_compress C level) i out0) = Inr (True, q)"
      using assms(4) by (simp add: Compressor_compress_def ZstdCompressor_compress_def split: if_splits)
    from zstd.compressed[OF assms(3,1,2) this] zstd.restored[OF _ room] zstd.alg_code
    show ?thesis by (auto simp: Compressor_decompress_def ZstdCompressor_decompress_def)
  qed (use assms(4) in \<open>simp add: Compressor_compress_def\<close>)
  then obtain z a where z: "np_data_len q < np_data_len i - 16" "f_extension (np_abs q)"
    "f_payload (np_abs q) = z @ [a, 0, 0, 0]"
    and dec: "\<And>u. np_ok u \<Longrightarrow> f_payload (np_abs u) = z \<Longrightarrow> \<exists>r. Compressor_decompress C (CompressionAlgorithm_of_u8 a) u out1 = Inr r \<and>
         np_ok r \<and> f_payload (np_abs r) = ?pl" by blast
  obtain u where u: "split_tail_packet q' = Inr (Ext_Compression [a, 0, 0, 0], u)" "np_ok u"
    "np_abs u = (np_abs q')\<lparr>f_extension := False, f_payload := z\<rparr>"
    using split_tail_ok[OF assms(5,7), of z a] assms(6) z(3) by auto
  obtain r where r: "Compressor_decompress C (CompressionAlgorithm_of_u8 a) u out1 = Inr r" "np_ok r"
    "f_payload (np_abs r) = ?pl" using dec[OF u(2)] u(3) by auto
  obtain r' where r': "NetPacket_set_head r (take 12 (np_buffer u)) = Inr r'" "np_ok r'"
    "np_abs r' = (np_abs u)\<lparr>f_payload := f_payload (np_abs r)\<rparr>"
    using NetPacket_set_head_ok[OF r(2) u(2)] by blast
  have "handle_extension_tail C q' out1 = Inr (True, u, r')"
    using assms(7) u(1) r(1) r'(1)
    by (simp add: handle_extension_tail_def np_get[OF assms(5)] np_get_head[OF u(2)]
        CompressionExtensionTail_algorithm_def rd_def)
  with z r' u(3) r(3) show ?thesis by simp
qed

text \<open>A codec for the witness: it compresses buffers of zeros to their length.\<close>

definition zeros_compress :: codec where
  "zeros_compress i ob =
     (if 4 \<le> length ob \<and> length i < 2 ^ 32 \<and> i = replicate (length i) 0
      then Some (be32_bytes (of_nat (length i)) @ drop 4 ob, 4) else None)"

definition zeros_decompress :: codec where
  "zeros_decompress z ob =
     (let n = unat (be32 (z ! 0) (z ! 1) (z ! 2) (z ! 3)) in
      if n \<le> length ob then Some (replicate n 0 @ drop n ob, n) else None)"

definition zeros_codecs :: codecs where
  "zeros_codecs = \<lparr>lz4_compress_into = zeros_compress, lz4_decompress_into = zeros_decompress,
     zstd_safe_compress = \<lambda>_. zeros_compress, zstd_safe_decompress = zeros_decompress\<rparr>"

lemma zeros_codecs_laws: "codecs_laws zeros_codecs"
proof -
  have d: "zeros_decompress (be32_bytes w) ob = (if unat w \<le> length ob
      then Some (replicate (unat w) 0 @ drop (unat w) ob, unat w) else None)" for w ob
    by (simp add: zeros_decompress_def Let_def be32_bytes_def)
  have "codec_pair zeros_compress zeros_decompress"
    unfolding codec_pair_def
  proof (intro allI impI)
    fix i ob b n assume "zeros_compress i ob = Some (b, n)"
    then have c: "4 \<le> length ob" "length i < 2 ^ 32" "i = replicate (length i) 0"
      "b = be32_bytes (of_nat (length i)) @ drop 4 ob" "n = 4"
      by (auto simp: zeros_compress_def split: if_splits)
    have u: "unat (of_nat (length i) :: u32) = length i" using c(2) by (simp add: unat_of_nat)
    show "length b = length ob \<and> n \<le> length b \<and> (\<forall>ob'. length i \<le> length ob' \<longrightarrow>
       (\<exists>b'. zeros_decompress (take n b) ob' = Some (b', length i) \<and> length b' = length ob' \<and> take (length i) b' = i))"
      using c(1,4,5) c(3)[symmetric] by (simp add: d u)
  qed
  then show ?thesis by (simp add: codecs_laws_def zeros_codecs_def)
qed

definition zeros_packet :: "nat \<Rightarrow> net_packet" where
  "zeros_packet n = \<lparr>np_data_len = 12 + n, np_buffer = replicate (12 + n) 0\<rparr>"

lemma zeros_packet_ok: "np_ok (zeros_packet n)" "f_payload (np_abs (zeros_packet n)) = replicate n 0"
  by (simp_all add: np_ok_def zeros_packet_def np_abs_def Let_def)

lemma compressed_packet_restored_witness:
  "\<exists>q q'' r. Compressor_compress zeros_codecs Compressor_Lz4 (zeros_packet 200) (zeros_packet 300) = Inr (True, q) \<and>
     handle_extension_tail zeros_codecs q (zeros_packet 300) = Inr (True, q'', r) \<and>
     f_payload (np_abs r) = replicate 200 0"
proof -
  let ?ob = "drop 12 (np_buffer (zeros_packet 300))"
  have c: "lz4_compress_into zeros_codecs (f_payload (np_abs (zeros_packet 200))) ?ob =
      Some (be32_bytes 200 @ replicate 296 0, 4)"
    by (simp add: zeros_codecs_def zeros_compress_def zeros_packet_ok) (simp add: zeros_packet_def)
  obtain z where z: "run_codec ''Lz4 compress'' (lz4_compress_into zeros_codecs) (zeros_packet 200) (zeros_packet 300) = Inr z"
    "np_ok z" "np_data_len z = 16" "length (np_buffer z) = 312"
    using run_codec_ok[of "zeros_packet 200" "zeros_packet 300" "lz4_compress_into zeros_codecs" _ _ "''Lz4 compress''",
        OF zeros_packet_ok(1) _ c] by (auto simp: zeros_packet_def)
  obtain a where "append_compression_extension_tail z = Inr (16, a)" "np_data_len a = 20" "length (np_buffer a) = 312"
    using append_tail_ok[OF z(2)] z(3,4) by auto
  then have "\<exists>q. Compressor_compress zeros_codecs Compressor_Lz4 (zeros_packet 200) (zeros_packet 300) = Inr (True, q)"
    using z(1) by (simp add: Compressor_compress_def Lz4Compressor_compress_def finish_compress_def
        CompressionExtensionTail_set_algorithm_def np_put_def wr_in zeros_packet_def)
  then obtain q where q: "Compressor_compress zeros_codecs Compressor_Lz4 (zeros_packet 200) (zeros_packet 300) = Inr (True, q)"
    by blast
  then have "finish_compress Alg_Lz4 (zeros_packet 200) (Inr z) = Inr (True, q)"
    using z(1) by (simp add: Compressor_compress_def Lz4Compressor_compress_def split: if_splits)
  from finish_ok[OF z(2) this] have "np_ok q" "f_extension (np_abs q)" by simp_all
  from compressed_packet_restored[OF zeros_packet_ok(1) zeros_packet_ok(1) zeros_codecs_laws q this(1) refl this(2)
      zeros_packet_ok(1), of 300] q
  show ?thesis by (auto simp: zeros_packet_ok) (auto simp: zeros_packet_def)
qed

end
