(* ===== verification/External_Route.thy ===== *)
theory External_Route
  imports Vnt_Prelude
begin

text \<open>
  Static routing to networks behind a peer, \<^verbatim>\<open>vnt/src/external_route/mod.rs\<close>: the table
  of networks that are reached through a gateway peer, and the table of networks this peer lets
  others reach. The \<open>Arc\<close> around the second table is sharing of an immutable value.
\<close>

section \<open>The tables\<close>

record ExternalRoute =
  er_route_table :: "(u32 \<times> u32 \<times> ipv4) list"

text \<open>The comparison \<open>dest2.cmp(dest1)\<close> of the stable sort: larger network numbers first.\<close>

definition net_key :: "u32 \<times> 'a \<Rightarrow> int" where
  "net_key e = - int (unat (fst e))"

definition masked_net :: "u32 \<times> u32 \<times> ipv4 \<Rightarrow> u32 \<times> u32 \<times> ipv4" where
  "masked_net = (\<lambda>(dest, netmask, gateway). (netmask AND dest, netmask, gateway))"

definition ExternalRoute_new :: "(u32 \<times> u32 \<times> ipv4) list \<Rightarrow> ExternalRoute" where
  "ExternalRoute_new route_table =
     \<lparr>er_route_table = sort_key net_key (map masked_net route_table)\<rparr>"

fun route_scan :: "u32 \<Rightarrow> (u32 \<times> u32 \<times> ipv4) list \<Rightarrow> ipv4 option" where
  "route_scan ip [] = None"
| "route_scan ip ((dest, netmask, gateway) # rest) =
     (if netmask AND ip = dest then Some gateway else route_scan ip rest)"

definition ExternalRoute_route :: "ExternalRoute \<Rightarrow> ipv4 \<Rightarrow> ipv4 option" where
  "ExternalRoute_route r ip =
     (if er_route_table r = [] then None else route_scan ip (er_route_table r))"

definition ExternalRoute_to_route :: "ExternalRoute \<Rightarrow> (ipv4 \<times> ipv4) list" where
  "ExternalRoute_to_route r = map (\<lambda>(dest, netmask, _). (dest, netmask)) (er_route_table r)"

record AllowExternalRoute =
  aer_route_table :: "(u32 \<times> u32) list"

definition AllowExternalRoute_new :: "(u32 \<times> u32) list \<Rightarrow> AllowExternalRoute" where
  "AllowExternalRoute_new route_table =
     \<lparr>aer_route_table = sort_key net_key (map (\<lambda>(dest, netmask). (netmask AND dest, netmask)) route_table)\<rparr>"

fun allow_scan :: "u32 \<Rightarrow> (u32 \<times> u32) list \<Rightarrow> bool" where
  "allow_scan ip [] = False"
| "allow_scan ip ((dest, netmask) # rest) = (if netmask AND ip = netmask AND dest then True else allow_scan ip rest)"

definition AllowExternalRoute_allow :: "AllowExternalRoute \<Rightarrow> ipv4 \<Rightarrow> bool" where
  "AllowExternalRoute_allow r ip =
     (if aer_route_table r = [] then False else allow_scan ip (aer_route_table r))"

section \<open>The reference: best match in configuration order\<close>

text \<open>
  Without sorting: among the configured networks that contain the address, the one with the
  largest network number, and the first such one.
\<close>

fun best_match :: "ipv4 \<Rightarrow> (u32 \<times> u32 \<times> ipv4) list \<Rightarrow> (u32 \<times> u32 \<times> ipv4) option" where
  "best_match ip [] = None"
| "best_match ip ((dest, netmask, gateway) # rest) =
     (let here = (netmask AND dest, netmask, gateway) in
      if netmask AND ip = netmask AND dest then
        (case best_match ip rest of
           None \<Rightarrow> Some here
         | Some other \<Rightarrow> if fst other > netmask AND dest then Some other else Some here)
      else best_match ip rest)"

definition hits :: "ipv4 \<Rightarrow> u32 \<times> u32 \<times> ipv4 \<Rightarrow> bool" where
  "hits ip e = (fst (snd e) AND ip = fst e)"

lemma route_scan_find: "route_scan ip t = map_option (\<lambda>e. snd (snd e)) (find (hits ip) t)"
  by (induction ip t rule: route_scan.induct) (auto simp: hits_def)

lemma net_key_le: "net_key e \<le> net_key x \<longleftrightarrow> fst x \<le> fst e"
  by (simp only: net_key_def word_le_nat_alt neg_le_iff_le of_nat_le_iff)

lemma find_insort_net:
  "sorted (map net_key xs) \<Longrightarrow> find (hits ip) (insort_key net_key e xs) =
     (if hits ip e then (case find (hits ip) xs of
          None \<Rightarrow> Some e
        | Some x \<Rightarrow> if fst x > fst e then Some x else Some e)
      else find (hits ip) xs)"
proof (induction xs)
  case (Cons x xs)
  show ?case
  proof (cases "fst x \<le> fst e")
    case True
    have "fst y \<le> fst e" if "y \<in> set (x # xs)" for y
      using Cons.prems that True by (auto simp: net_key_le intro: order_trans)
    then have "\<not> fst y > fst e" if "find (hits ip) (x # xs) = Some y" for y
      using that unfolding find_Some_iff not_less by (metis nth_mem)
    with True show ?thesis by (auto simp: net_key_le split: option.splits)
  next
    case False
    with Cons show ?thesis by (auto simp: net_key_le not_le split: option.splits)
  qed
qed simp

lemma find_sort_net: "find (hits ip) (sort_key net_key (map masked_net t)) = best_match ip t"
proof (induction t)
  case (Cons e t)
  obtain d m g where e: "e = (d, m, g)" by (cases e)
  have h: "hits ip (masked_net e) = (m AND ip = m AND d)" by (simp add: e hits_def masked_net_def)
  have "find (hits ip) (sort_key net_key (map masked_net (e # t))) =
      find (hits ip) (insort_key net_key (masked_net e) (sort_key net_key (map masked_net t)))" by simp
  also have "\<dots> = best_match ip (e # t)"
    by (simp only: find_insort_net[OF sorted_sort_key] Cons.IH h)
      (simp add: e Let_def masked_net_def split: option.splits)
  finally show ?case .
qed simp

section \<open>Prefix networks\<close>

text \<open>The network masks of \<open>n\<close> leading ones; a longer mask keeps more of the address.\<close>

definition prefix_mask :: "nat \<Rightarrow> u32" where
  "prefix_mask n = push_bit (32 - n) (mask n)"

lemma prefix_mask_and: "k \<le> n \<Longrightarrow> n \<le> 32 \<Longrightarrow> prefix_mask k AND prefix_mask n = prefix_mask k"
  by (rule bit_word_eqI) (auto simp: prefix_mask_def bit_simps)

lemma larger_net_longer_prefix:
  assumes "k \<le> 32" "n \<le> 32" "prefix_mask k AND ip < prefix_mask n AND ip"
  shows "k < n"
proof (rule ccontr)
  assume "\<not> k < n"
  then have "prefix_mask n AND ip = prefix_mask n AND (prefix_mask k AND ip)"
    using prefix_mask_and[of n k] assms(1) by (simp flip: and.assoc)
  then have "prefix_mask n AND ip \<le> prefix_mask k AND ip" using word_and_le1 by metis
  with assms(3) show False by simp
qed

lemma best_match_None: "best_match ip t = None \<longleftrightarrow> (\<forall>(d, m, g) \<in> set t. m AND ip \<noteq> m AND d)"
  by (induction ip t rule: best_match.induct) (auto simp: Let_def split: option.splits if_splits)

lemma best_match_Some:
  "best_match ip t = Some (net, m, g) \<Longrightarrow>
     (\<exists>d. (d, m, g) \<in> set t \<and> net = m AND d) \<and> m AND ip = net \<and>
     (\<forall>(d', m', g') \<in> set t. m' AND ip = m' AND d' \<longrightarrow> m' AND d' \<le> net)"
proof (induction t arbitrary: net m g)
  case (Cons e t)
  obtain d1 m1 g1 where e: "e = (d1, m1, g1)" by (cases e)
  show ?case
  proof (cases "best_match ip t")
    case None
    then have "\<forall>(d', m', g') \<in> set t. m' AND ip \<noteq> m' AND d'" by (simp only: best_match_None)
    with None Cons.prems show ?thesis by (auto simp: e Let_def split: if_splits)
  next
    case (Some b)
    obtain net2 m2 g2 where b: "b = (net2, m2, g2)" by (cases b)
    from Cons.IH[OF Some[unfolded b]] Cons.prems Some b show ?thesis
      by (auto simp: e Let_def split: if_splits intro: order_trans)
  qed
qed simp

lemma allow_scan_iff: "allow_scan ip t \<longleftrightarrow> (\<exists>(dest, m) \<in> set t. m AND ip = m AND dest)"
  by (induction ip t rule: allow_scan.induct) auto


lemma external_route_best_match:
  "ExternalRoute_route (ExternalRoute_new t) ip = map_option (\<lambda>e. snd (snd e)) (best_match ip t)"
proof (cases "t = []")
  case False
  then have "er_route_table (ExternalRoute_new t) \<noteq> []"
    by (metis ExternalRoute_new_def ExternalRoute.select_convs(1) length_0_conv length_map length_sort)
  then show ?thesis by (simp add: ExternalRoute_route_def ExternalRoute_new_def route_scan_find find_sort_net)
qed (simp add: ExternalRoute_route_def ExternalRoute_new_def)

lemma allow_iff:
  "AllowExternalRoute_allow (AllowExternalRoute_new a) ip \<longleftrightarrow> (\<exists>(dest, m) \<in> set a. m AND ip = m AND dest)"
proof -
  let ?s = "sort_key net_key (map (\<lambda>(dest, netmask). (netmask AND dest, netmask)) a)"
  have "AllowExternalRoute_allow (AllowExternalRoute_new a) ip = allow_scan ip ?s"
    by (cases ?s) (simp_all add: AllowExternalRoute_allow_def AllowExternalRoute_new_def)
  also have "\<dots> \<longleftrightarrow> (\<exists>(dest, m) \<in> set a. m AND ip = m AND dest)"
    by (force simp: allow_scan_iff simp flip: and.assoc)
  finally show ?thesis .
qed

section \<open>Properties\<close>

text \<open>
  C28. The routing decision after the constructor's sorting is the reference decision on the
  configuration: the gateway of the first entry with the largest network number among the
  configured networks that contain the address. With prefix masks this is a longest-prefix
  match up to one case: a matching entry with another network number has a shorter prefix
  than the chosen one, while among entries with the same network number the order of the
  configuration decides, not the mask. The allow list accepts exactly the members of its networks.
\<close>

theorem external_route_longest_prefix:
  assumes "\<forall>(d, m, g) \<in> set t. \<exists>k \<le> 32. m = prefix_mask k"
  shows "ExternalRoute_route (ExternalRoute_new t) ip = map_option (\<lambda>e. snd (snd e)) (best_match ip t) \<and>
   (\<forall>n m g. best_match ip t = Some (n, m, g) \<longrightarrow> (\<exists>d. (d, m, g) \<in> set t \<and> n = m AND d) \<and> m AND ip = n \<and>
      (\<forall>(d', m', g') \<in> set t. m' AND ip = m' AND d' \<and> m' AND d' \<noteq> n \<longrightarrow> m' AND m = m' \<and> m' \<noteq> m)) \<and>
   (AllowExternalRoute_allow (AllowExternalRoute_new a) ip \<longleftrightarrow> (\<exists>(dest, m) \<in> set a. m AND ip = m AND dest))"
proof (intro conjI allI impI)
  show "ExternalRoute_route (ExternalRoute_new t) ip = map_option (\<lambda>e. snd (snd e)) (best_match ip t)"
    by (rule external_route_best_match)
  show "AllowExternalRoute_allow (AllowExternalRoute_new a) ip \<longleftrightarrow> (\<exists>(dest, m) \<in> set a. m AND ip = m AND dest)"
    by (rule allow_iff)
  fix n m g
  assume b: "best_match ip t = Some (n, m, g)"
  note B = best_match_Some[OF b]
  then show "\<exists>d. (d, m, g) \<in> set t \<and> n = m AND d" and n: "m AND ip = n" by blast+
  show "\<forall>(d', m', g') \<in> set t. m' AND ip = m' AND d' \<and> m' AND d' \<noteq> n \<longrightarrow> m' AND m = m' \<and> m' \<noteq> m"
  proof (clarify)
    fix d' m' g' assume e: "(d', m', g') \<in> set t" "m' AND ip = m' AND d'" "m' AND d' \<noteq> n"
    obtain k' where k': "m' = prefix_mask k'" "k' \<le> 32" using assms e(1) by fast
    obtain k where k: "m = prefix_mask k" "k \<le> 32" using assms B by fast
    have "m' AND d' \<le> n" using B e by fast
    with e(2,3) n have "prefix_mask k' AND ip < prefix_mask k AND ip" unfolding k' k by simp
    then have "k' < k" using larger_net_longer_prefix k k' by blast
    then show "m' AND m = m' \<and> m' \<noteq> m" using prefix_mask_and[of k' k] e(2,3) n k k' by auto
  qed
qed

lemma external_route_longest_prefix_witness:
  "\<exists>t. ExternalRoute_route (ExternalRoute_new t) 0x0A010203 = Some 7 \<and>
     (0x0A000000, prefix_mask 8, 9) \<in> set t"
proof -
  let ?t = "[(0x0A000000, prefix_mask 8, 9), (0x0A010200, prefix_mask 24, 7)] :: (u32 \<times> u32 \<times> ipv4) list"
  have "\<exists>k \<le> 32. prefix_mask 8 = prefix_mask k" "\<exists>k \<le> 32. prefix_mask 24 = prefix_mask k"
    by (intro exI[of _ 8], simp) (intro exI[of _ 24], simp)
  then have "\<forall>(d, m, g) \<in> set ?t. \<exists>k \<le> 32. m = prefix_mask k" by simp
  from external_route_longest_prefix[OF this, of "0x0A010203"]
  have "ExternalRoute_route (ExternalRoute_new ?t) 0x0A010203 = Some 7"
    by (simp add: Let_def prefix_mask_def mask_eq_exp_minus_1)
  then show ?thesis by auto
qed

end
