(* ===== verification/World.thy ===== *)
theory World
  imports Punching Ip_Proxy Compression External_Route
begin

text \<open>
  The state the packet handlers share and what they rely on: the transport context
  extended by the cells and maps of \<^verbatim>\<open>vnt/src/core/conn.rs\<close> (one record, since every handler holds clones
  of the same locks), the messages of \<^verbatim>\<open>vnt/proto/message.proto\<close> with their codec as a parameter, the
  callback vocabulary of \<^verbatim>\<open>vnt/src/handle/callback.rs\<close>, the configuration of \<^verbatim>\<open>vnt/src/handle/mod.rs\<close> and the
  virtual network device of \<^verbatim>\<open>vnt/src/tun_tap_device/tun_create_helper.rs\<close>.
\<close>

section \<open>Messages\<close>

text \<open>The encoding is the protobuf library's: each message has an encoder and a decoder in \<open>proto\<close>.\<close>

record HandshakeRequest =
  hq_version :: string
  hq_secret :: bool
  hq_key_finger :: string

record HandshakeResponse =
  hr_version :: string
  hr_secret :: bool
  hr_public_key :: "u8 list"
  hr_key_finger :: string

record SecretHandshakeRequest =
  sh_token :: string
  sh_key :: "u8 list"

record RegistrationRequest =
  rq_token :: string
  rq_device_id :: string
  rq_name :: string
  rq_is_fast :: bool
  rq_version :: string
  rq_virtual_ip :: u32
  rq_allow_ip_change :: bool
  rq_client_secret :: bool
  rq_client_secret_hash :: "u8 list"

record ProtoDeviceInfo =
  di_name :: string
  di_virtual_ip :: u32
  di_device_status :: u32
  di_client_secret :: bool
  di_client_secret_hash :: "u8 list"
  di_wireguard :: bool

record RegistrationResponse =
  rr_virtual_ip :: u32
  rr_virtual_gateway :: u32
  rr_virtual_netmask :: u32
  rr_epoch :: u32
  rr_device_info_list :: "ProtoDeviceInfo list"
  rr_public_ip :: u32
  rr_public_port :: u32

record DeviceList =
  dl_epoch :: u32
  dl_device_info_list :: "ProtoDeviceInfo list"

text \<open>An unknown NAT type decodes to the default, \<open>Symmetric\<close>.\<close>

record PunchInfo =
  pi_public_ip_list :: "u32 list"
  pi_public_port :: u32
  pi_public_port_range :: u32
  pi_nat_type :: NatType
  pi_reply :: bool
  pi_local_ip :: u32
  pi_local_port :: u32
  pi_ipv6 :: "u8 list"
  pi_ipv6_port :: u32
  pi_tcp_port :: u32
  pi_udp_ports :: "u32 list"
  pi_public_ports :: "u32 list"

record ClientStatusInfo =
  cs_source :: u32
  cs_p2p_list :: "u32 list"
  cs_up_stream :: u64
  cs_down_stream :: u64
  cs_nat_type :: NatType

record proto =
  enc_handshake :: "HandshakeRequest \<Rightarrow> u8 list option"
  enc_secret_handshake :: "SecretHandshakeRequest \<Rightarrow> u8 list option"
  enc_registration :: "RegistrationRequest \<Rightarrow> u8 list option"
  enc_punch :: "PunchInfo \<Rightarrow> u8 list option"
  enc_status :: "ClientStatusInfo \<Rightarrow> u8 list option"
  dec_handshake :: "u8 list \<Rightarrow> HandshakeResponse option"
  dec_registration :: "u8 list \<Rightarrow> RegistrationResponse option"
  dec_device_list :: "u8 list \<Rightarrow> DeviceList option"
  dec_punch :: "u8 list \<Rightarrow> PunchInfo option"

section \<open>Callbacks\<close>

datatype ErrorType =
    TokenError | Disconnect | AddressExhausted | IpAlreadyExists | InvalidIp | LocalIpExists | Unknown

fun ErrorType_to_u8 :: "ErrorType \<Rightarrow> u8" where
  "ErrorType_to_u8 TokenError = 1"
| "ErrorType_to_u8 Disconnect = 2"
| "ErrorType_to_u8 AddressExhausted = 3"
| "ErrorType_to_u8 IpAlreadyExists = 4"
| "ErrorType_to_u8 InvalidIp = 5"
| "ErrorType_to_u8 LocalIpExists = 6"
| "ErrorType_to_u8 Unknown = 255"

record ErrorInfo =
  ei_code :: ErrorType
  ei_msg :: "string option"

definition ErrorInfo_new :: "ErrorType \<Rightarrow> ErrorInfo" where
  "ErrorInfo_new code = \<lparr>ei_code = code, ei_msg = None\<rparr>"

definition ErrorInfo_new_msg :: "ErrorType \<Rightarrow> string \<Rightarrow> ErrorInfo" where
  "ErrorInfo_new_msg code msg = \<lparr>ei_code = code, ei_msg = Some msg\<rparr>"

record HandshakeInfo =
  hi_public_key :: "u8 list option"
  hi_finger :: "string option"
  hi_version :: string

definition HandshakeInfo_new :: "u8 list \<Rightarrow> string \<Rightarrow> string \<Rightarrow> HandshakeInfo" where
  "HandshakeInfo_new public_key finger version =
     \<lparr>hi_public_key = Some public_key, hi_finger = Some finger, hi_version = version\<rparr>"

definition HandshakeInfo_new_no_secret :: "string \<Rightarrow> HandshakeInfo" where
  "HandshakeInfo_new_no_secret version = \<lparr>hi_public_key = None, hi_finger = None, hi_version = version\<rparr>"

record RegisterInfo =
  ri_virtual_ip :: ipv4
  ri_virtual_netmask :: ipv4
  ri_virtual_gateway :: ipv4

record DeviceConfig =
  dc_mtu :: u32
  dc_virtual_ip :: ipv4
  dc_virtual_netmask :: ipv4
  dc_virtual_gateway :: ipv4
  dc_virtual_network :: ipv4
  dc_external_route :: "(ipv4 \<times> ipv4) list"

record PeerClientInfo =
  pc_virtual_ip :: ipv4
  pc_name :: string
  pc_status :: PeerDeviceStatus
  pc_client_secret :: bool

record ConnectInfo =
  ci_count :: nat
  ci_address :: socket_addr

text \<open>What the handlers do to the outside besides sending packets, in order.\<close>

datatype event =
    Ev_tun "u8 list" | Ev_punch bool ipv4 NatInfo
  | Ev_connect ConnectInfo | Ev_handshake HandshakeInfo | Ev_register RegisterInfo
  | Ev_error ErrorInfo | Ev_success | Ev_peer_client_list "PeerClientInfo list"
  | Ev_create_tun | Ev_generate_tun DeviceConfig | Ev_create_device DeviceConfig
  | Ev_connect_tcp "u8 list" socket_addr | Ev_connect_ws "u8 list" string

section \<open>Configuration and state\<close>

text \<open>The RSA library: which DER bytes are a key, a key's fingerprint, encryption with some randomness.\<close>

record rsa_lib =
  rl_valid :: "u8 list \<Rightarrow> bool"
  rl_finger :: "u8 list \<Rightarrow> string res"
  rl_encrypt :: "u8 list \<Rightarrow> u8 list \<Rightarrow> u8 list option"

record RsaCipher =
  rsa_public_key :: "u8 list"
  rsa_finger :: string

record BaseConfigInfo =
  bc_name :: string
  bc_token :: string
  bc_ip :: "ipv4 option"
  bc_client_secret_hash :: "u8 list option"
  bc_server_secret :: bool
  bc_device_id :: string
  bc_server_addr :: string
  bc_mtu :: u32
  bc_allow_wire_guard :: bool

datatype platform = Desktop | Android | Ios

text \<open>
  What does not change while packets are handled: the configuration, the libraries (hash, ciphers, codecs,
  protobuf, RSA), and the environment: clock and sends (\<open>cf_env\<close>), whether the device accepts a write, the
  punch threads are idle, the callbacks agree, a device can be created, opened and its reader thread started.
\<close>

record conf =
  cf_env :: env
  cf_sha :: hash
  cf_client_cipher :: Cipher
  cf_server_cipher :: Cipher
  cf_server_key :: "u8 list option"
  cf_keeps_tail :: bool
  cf_codecs :: codecs
  cf_compressor :: Compressor
  cf_ip_route :: ExternalRoute
  cf_allow_route :: AllowExternalRoute
  cf_use_ip_proxy :: bool
  cf_icmp_send :: "unit res"
  cf_base :: BaseConfigInfo
  cf_version :: string
  cf_proto :: proto
  cf_rsa :: rsa_lib
  cf_rsa_random :: "u8 list"
  cf_from_utf8 :: "u8 list \<Rightarrow> string option"
  cf_tun_write :: "event list \<Rightarrow> u8 list \<Rightarrow> unit res"
  cf_punch_ready :: "event list \<Rightarrow> bool"
  cf_accept :: "event \<Rightarrow> bool"
  cf_platform :: platform
  cf_create_device :: "DeviceConfig \<Rightarrow> ErrorInfo + unit"
  cf_generate_tun :: "DeviceConfig \<Rightarrow> u64"
  cf_open_device :: "unit res"
  cf_start_thread :: "unit res"

record world = ContextInner +
  w_current_device :: CurrentDeviceInfo
  w_epoch :: u16
  w_devices :: "(ipv4 \<times> PeerDeviceInfo) list"
  w_nat_test :: NatTest
  w_peer_nat_info :: "ipv4 \<Rightarrow> NatInfo option"
  w_rsa_cipher :: "RsaCipher option"
  w_up_key_time :: nat
  w_handshake_time :: nat
  w_ip_proxy :: IpProxyMap
  w_tun :: bool
  w_tun_stop :: bool
  w_events :: "event list"

section \<open>Shared operations\<close>

definition emit :: "event \<Rightarrow> (world, unit) cmd" where
  "emit e = modS (\<lambda>w. w\<lparr>w_events := w_events w @ [e]\<rparr>)"

text \<open>A callback that answers: the answer is the application's.\<close>

definition ask :: "conf \<Rightarrow> event \<Rightarrow> (world, bool) cmd" where
  "ask C e = thenS (emit e) (retS (cf_accept C e))"

text \<open>\<open>DeviceAdapter::write\<close>: there may be no device.\<close>

definition device_write :: "conf \<Rightarrow> u8 list \<Rightarrow> (world, unit) cmd" where
  "device_write C buf = bindS (getS id) (\<lambda>w.
     if w_tun w then thenS (liftE (cf_tun_write C (w_events w) buf)) (emit (Ev_tun buf))
     else failS (Io NotFound ''not tun device''))"

text \<open>
  \<open>TunDeviceHelper\<close>: \<open>stop\<close> removes the device and waits for its reader (which is assumed to stop); \<open>start\<close>
  asserts that there is none.
\<close>

definition TunDeviceHelper_stop :: "(world, unit) cmd" where
  "TunDeviceHelper_stop = modS (\<lambda>w. if w_tun_stop w then w\<lparr>w_tun := False, w_tun_stop := False\<rparr> else w)"

definition TunDeviceHelper_start :: "conf \<Rightarrow> (world, unit) cmd" where
  "TunDeviceHelper_start C = bindS (getS id) (\<lambda>w.
     if w_tun w then thenS (modS (\<lambda>w. w\<lparr>w_tun := True\<rparr>)) (failS Panic)
     else if w_tun_stop w then thenS (modS (\<lambda>w. w\<lparr>w_tun := True, w_tun_stop := True\<rparr>)) (failS Panic)
     else thenS (modS (\<lambda>w. w\<lparr>w_tun := True, w_tun_stop := True\<rparr>)) (liftE (cf_start_thread C)))"

text \<open>Encryption draws a random word; the ciphers that do not need one ignore it.\<close>

definition encryptS :: "conf \<Rightarrow> Cipher \<Rightarrow> net_packet \<Rightarrow> ('a ContextInner_scheme, net_packet) cmd" where
  "encryptS C c p = bindS (draw (cf_env C)) (\<lambda>r. liftE (encrypt_ipv4 (cf_sha C) c r p))"

definition decryptS :: "conf \<Rightarrow> Cipher \<Rightarrow> net_packet \<Rightarrow> ('a ContextInner_scheme, net_packet) cmd" where
  "decryptS C c p = liftE (decrypt_ipv4 (cf_sha C) c p)"

text \<open>A sequence of setters on a packet.\<close>

primrec np_seq :: "(net_packet \<Rightarrow> net_packet res) list \<Rightarrow> net_packet \<Rightarrow> net_packet res" where
  "np_seq [] p = Inr p"
| "np_seq (f # fs) p = bindE (f p) (np_seq fs)"

abbreviation zero_packet :: "nat \<Rightarrow> net_packet res" where
  "zero_packet n \<equiv> NetPacket_new_encrypt (replicate n 0)"

text \<open>The routes only, on the shared state.\<close>

definition on_routes :: "(RouteTable \<Rightarrow> RouteTable) \<Rightarrow> ('a ContextInner_scheme, unit) cmd" where
  "on_routes f = modS (\<lambda>w. w\<lparr>cx_route_table := f (cx_route_table w)\<rparr>)"

definition on_routes_value :: "(RouteTable \<Rightarrow> 'b \<times> RouteTable) \<Rightarrow> ('a ContextInner_scheme, 'b) cmd" where
  "on_routes_value f = updS (\<lambda>w. case f (cx_route_table w) of (x, t) \<Rightarrow> (x, w\<lparr>cx_route_table := t\<rparr>))"

definition find_device :: "world \<Rightarrow> ipv4 \<Rightarrow> PeerDeviceInfo option" where
  "find_device w ip = map_of (w_devices w) ip"

text \<open>A message that cannot be encoded is an error of the operation that builds it.\<close>

definition encoded :: "err \<Rightarrow> u8 list option \<Rightarrow> u8 list res" where
  "encoded e m = (case m of Some b \<Rightarrow> Inr b | None \<Rightarrow> Inl e)"

text \<open>Work on the proxy maps, which have locks of their own.\<close>

definition on_proxy :: "(IpProxyMap, 'b) cmd \<Rightarrow> (world, 'b) cmd" where
  "on_proxy m w = (case m (w_ip_proxy w) of (r, x) \<Rightarrow> (r, w\<lparr>w_ip_proxy := x\<rparr>))"

text \<open>A full punch queue (each is a rendezvous with its thread) refuses the request.\<close>

definition PunchSender_send :: "conf \<Rightarrow> bool \<Rightarrow> ipv4 \<Rightarrow> NatInfo \<Rightarrow> (world, bool) cmd" where
  "PunchSender_send C src_peer ip info = bindS (getS w_events) (\<lambda>es.
     if cf_punch_ready C es then thenS (emit (Ev_punch src_peer ip info)) (retS True) else retS False)"

definition ipv6_octets :: "ipv6 \<Rightarrow> u8 list" where
  "ipv6_octets ip = map (\<lambda>i. ucast (drop_bit (8 * (15 - i)) ip)) [0..<16]"

definition ipv6_of_octets :: "u8 list \<Rightarrow> ipv6" where
  "ipv6_of_octets bs = foldl (\<lambda>a b. push_bit 8 a OR ucast b) 0 bs"

text \<open>What a peer says of its own NAT, in both directions of the negotiation.\<close>

definition own_punch_info :: "bool \<Rightarrow> NatInfo \<Rightarrow> PunchInfo res" where
  "own_punch_info reply n = bindE (rd (ni_udp_ports n) 0) (\<lambda>port0.
     Inr \<lparr>pi_public_ip_list = ni_public_ips n,
       pi_public_port = (case ni_public_ports n of [] \<Rightarrow> 0 | v # _ \<Rightarrow> ucast v),
       pi_public_port_range = ucast (ni_public_port_range n), pi_nat_type = ni_nat_type n, pi_reply = reply,
       pi_local_ip = (case ni_local_ipv4 n of Some ip \<Rightarrow> ip | None \<Rightarrow> Ipv4_UNSPECIFIED),
       pi_local_port = ucast port0,
       pi_ipv6 = (case ni_ipv6 n of Some ip \<Rightarrow> ipv6_octets ip | None \<Rightarrow> []),
       pi_ipv6_port = (case ni_ipv6 n of Some ip \<Rightarrow> ucast port0 | None \<Rightarrow> 0),
       pi_tcp_port = ucast (ni_tcp_port n), pi_udp_ports = map ucast (ni_udp_ports n),
       pi_public_ports = map ucast (ni_public_ports n)\<rparr>)"

text \<open>What is made of what a peer says; two fields default to the older single-port ones.\<close>

definition peer_nat_info_of :: "PunchInfo \<Rightarrow> NatInfo" where
  "peer_nat_info_of i =
     (let ports = (if pi_public_ports i = [] then [pi_public_port i] else pi_public_ports i);
          udp = (if pi_udp_ports i = [] then [pi_local_port i] else pi_udp_ports i) in
      NatInfo_new (pi_public_ip_list i) (map ucast ports) (ucast (pi_public_port_range i)) (Some (pi_local_ip i))
        (if length (pi_ipv6 i) = 16 then Some (ipv6_of_octets (pi_ipv6 i)) else None)
        (map ucast udp) (ucast (pi_tcp_port i)) (pi_nat_type i))"

text \<open>The negotiation packet to a peer.\<close>

definition punch_message :: "conf \<Rightarrow> string \<Rightarrow> PunchInfo \<Rightarrow> ipv4 \<Rightarrow> ipv4 \<Rightarrow> net_packet res" where
  "punch_message C what info src dest =
     bindE (encoded (Anyhow what) (enc_punch (cf_proto C) info)) (\<lambda>bytes.
     bindE (zero_packet (12 + length bytes + ENCRYPTION_RESERVED)) (np_seq
       [NetPacket_set_default_version, \<lambda>p. NetPacket_set_protocol p Protocol_OtherTurn,
        \<lambda>p. NetPacket_set_transport_protocol p (OtherTurnProtocol_to_u8 OtherTurn_Punch),
        \<lambda>p. NetPacket_first_set_ttl p MAX_TTL, \<lambda>p. NetPacket_set_source p src,
        \<lambda>p. NetPacket_set_destination p dest, \<lambda>p. NetPacket_set_payload p bytes]))"

text \<open>Hops of the packet: \<open>source_ttl - ttl + 1\<close>, on bytes.\<close>

definition packet_metric :: "net_packet \<Rightarrow> u8 res" where
  "packet_metric p = bindE (NetPacket_source_ttl p) (\<lambda>s. bindE (NetPacket_ttl p) (\<lambda>t. Inr (s - t + 1)))"

text \<open>The transit time a pong shows, in milliseconds of the lower 16 bits of the clock; \<open>None\<close> after their wrap-around.\<close>

definition pong_rt :: "u64 \<Rightarrow> u16 \<Rightarrow> i64 option" where
  "pong_rt millis time = (let current_time = (ucast millis :: u16) in
     if current_time < time then None else Some (uint (current_time - time)))"

end
