(* ===== verification/Sample_World.thy ===== *)
theory Sample_World
  imports World
begin

text \<open>
  A small configuration and state for concrete instances of the theorems: no encryption between
  peers, a key configured for the server, one peer with a direct route.
\<close>

definition sample_proto :: proto where
  "sample_proto = \<lparr>enc_handshake = (\<lambda>_. Some [1]), enc_secret_handshake = (\<lambda>_. Some [2]),
     enc_registration = (\<lambda>_. Some [3]), enc_punch = (\<lambda>_. Some [4]), enc_status = (\<lambda>_. Some [5]),
     dec_handshake = (\<lambda>_. None), dec_registration = (\<lambda>_. None), dec_device_list = (\<lambda>_. None),
     dec_punch = (\<lambda>_. None)\<rparr>"

definition sample_codecs :: codecs where
  "sample_codecs = \<lparr>lz4_compress_into = (\<lambda>_ _. None), lz4_decompress_into = (\<lambda>_ _. None),
     zstd_safe_compress = (\<lambda>_ _ _. None), zstd_safe_decompress = (\<lambda>_ _. None)\<rparr>"

definition sample_base :: BaseConfigInfo where
  "sample_base = \<lparr>bc_name = ''a'', bc_token = ''t'', bc_ip = None, bc_client_secret_hash = None,
     bc_server_secret = True, bc_device_id = ''d'', bc_server_addr = ''s'', bc_mtu = 1420, bc_allow_wire_guard = False\<rparr>"

definition sample_conf :: conf where
  "sample_conf = \<lparr>cf_env = sample_env, cf_sha = (\<lambda>_. replicate 32 0), cf_client_cipher = Cipher_None,
     cf_server_cipher = Cipher_None, cf_server_key = Some [7], cf_keeps_tail = False, cf_codecs = sample_codecs,
     cf_compressor = Compressor_None, cf_ip_route = ExternalRoute_new [], cf_allow_route = AllowExternalRoute_new [],
     cf_use_ip_proxy = False, cf_icmp_send = Inr (), cf_base = sample_base, cf_version = ''1'', cf_proto = sample_proto,
     cf_rsa = \<lparr>rl_valid = (\<lambda>_. False), rl_finger = (\<lambda>_. Inr []), rl_encrypt = (\<lambda>_ _. None)\<rparr>,
     cf_rsa_random = [], cf_from_utf8 = (\<lambda>_. None), cf_tun_write = (\<lambda>_ _. Inr ()), cf_punch_ready = (\<lambda>_. True),
     cf_accept = (\<lambda>_. True), cf_platform = Desktop, cf_create_device = (\<lambda>_. Inr ()), cf_generate_tun = (\<lambda>_. 0),
     cf_open_device = Inr (), cf_start_thread = Inr ()\<rparr>"

definition sample_device :: CurrentDeviceInfo where
  "sample_device = (CurrentDeviceInfo_new 0x0A1A0002 0xFFFFFF00 0x0A1A0001 (SockV4 0x05060708 29872))\<lparr>cd_status := Connected\<rparr>"

definition sample_nat :: NatTest where
  "sample_nat = NatTest_new 0 [] None None [7000] 7001 False"

definition sample_world :: world where
  "sample_world = ContextInner.extend sample_context
     \<lparr>w_current_device = sample_device, w_epoch = 0,
      w_devices = [(sample_peer, PeerDeviceInfo_new sample_peer ''p'' 0 False [] False)],
      w_nat_test = sample_nat, w_peer_nat_info = Map.empty, w_rsa_cipher = Some \<lparr>rsa_public_key = [9], rsa_finger = ''f''\<rparr>,
      w_up_key_time = 0, w_handshake_time = 0,
      w_ip_proxy = \<lparr>pm_tcp = TcpProxy_new 4001, pm_udp = UdpProxy_new 4000, pm_icmp = IcmpProxy_new\<rparr>,
      w_tun = True, w_tun_stop = True, w_events = []\<rparr>"

lemma sample_fields:
  "cx_route_table sample_world = cx_route_table sample_context" "cx_main_len sample_world = 1" "cx_v4_len sample_world = 1"
  "cx_sub_len sample_world = 0" "cx_protocol sample_world = Conn_UDP" "cx_sent sample_world = []" "cx_draws sample_world = 0"
  "cx_up_meter sample_world = None" "cx_down_meter sample_world = None" "cx_packet_loss_rate sample_world = 0"
  "w_current_device sample_world = sample_device" "w_nat_test sample_world = sample_nat" "w_events sample_world = []"
  "w_devices sample_world = [(sample_peer, PeerDeviceInfo_new sample_peer ''p'' 0 False [] False)]"
  "w_tun sample_world = True" "w_tun_stop sample_world = True" "w_epoch sample_world = 0"
  by (simp_all add: sample_world_def sample_context_def ContextInner.defs)

lemma sample_route_p2p: "route_one_p2p (cx_route_table sample_context) sample_peer = Some sample_route"
  "route_one (cx_route_table sample_context) sample_peer = Some sample_route"
  by (simp_all add: sample_context_def route_one_p2p_def route_one_def rt_get_def sample_route_def Route_is_p2p_def)

lemma sample_routes_inv: "rt_inv (cx_route_table sample_world)"
  by (simp add: sample_fields sample_context_def rt_inv_def rt_get_def entry_wf_def len_bound_def)

end
