(* ===== verification/Client_Handler.thy ===== *)
theory Client_Handler
  imports Sample_World
begin

text \<open>
  Packets of other peers, \<^verbatim>\<open>vnt/src/handle/recv_data/client.rs\<close>: decryption, decompression and the three
  protocols between peers. The handler runs on a snapshot \<open>d\<close> of the device information.
\<close>

section \<open>Data packets\<close>

text \<open>An echo request to this device is answered in place of the system.\<close>

definition echo_reply :: "conf \<Rightarrow> ipv4 \<Rightarrow> ipv4 \<Rightarrow> u8 list \<Rightarrow> u8 list res" where
  "echo_reply C destination source ipv4 =
     bindE (IpV4Packet_payload_mut ipv4 (\<lambda>pl. bindE (IcmpPacket_new pl) (\<lambda>icmp.
       bindE (IcmpPacket_set_kind icmp Ik_EchoReply) (IcmpPacket_update_checksum (cf_keeps_tail C))))) (\<lambda>ipv4.
     bindE (IpV4Packet_set_source_ip ipv4 destination) (\<lambda>ipv4.
     bindE (IpV4Packet_set_destination_ip ipv4 source) (\<lambda>ipv4.
       IpV4Packet_update_checksum (cf_keeps_tail C) ipv4)))"

text \<open>Whether the packet is an echo request to \<open>destination\<close>.\<close>

definition is_echo_request :: "ipv4 \<Rightarrow> u8 list \<Rightarrow> bool res" where
  "is_echo_request destination ipv4 =
     bindE (IpV4Packet_protocol ipv4) (\<lambda>protocol.
     if protocol \<noteq> Ip_Icmp then Inr False
     else bindE (IpV4Packet_destination_ip ipv4) (\<lambda>dst.
       if dst \<noteq> destination then Inr False
       else bindE (IpV4Packet_payload ipv4) (\<lambda>pl. bindE (IcmpPacket_new pl) (\<lambda>icmp.
         bindE (IcmpPacket_kind icmp) (\<lambda>kind. Inr (kind = Ik_EchoRequest))))))"

text \<open>
  A packet to somewhere behind this device must be to an allowed network and not to the program's own
  sockets. \<open>False\<close> drops it.
\<close>

definition forward_allowed :: "conf \<Rightarrow> NatTest \<Rightarrow> ipv4 \<Rightarrow> u8 list \<Rightarrow> bool res" where
  "forward_allowed C t real_dest ipv4 =
     (if \<not> AllowExternalRoute_allow (cf_allow_route C) real_dest then Inr False
      else bindE (IpV4Packet_protocol ipv4) (\<lambda>protocol.
        if protocol = Ip_Tcp then
          bindE (IpV4Packet_payload ipv4) (\<lambda>pl.
            if length pl < 20 then Inr False
            else bindE (rd16 pl 2) (\<lambda>port. Inr (\<not> is_local_tcp t real_dest port)))
        else if protocol = Ip_Udp then
          bindE (IpV4Packet_payload ipv4) (\<lambda>pl.
            if length pl < 8 then Inr False
            else bindE (rd16 pl 2) (\<lambda>port. Inr (\<not> is_local_udp t real_dest port)))
        else Inr True))"

definition is_redirected :: "CurrentDeviceInfo \<Rightarrow> ipv4 \<Rightarrow> ipv4 \<Rightarrow> bool" where
  "is_redirected d destination real_dest =
     (real_dest \<noteq> destination \<and>
      \<not> (is_broadcast real_dest \<or> is_multicast real_dest \<or> real_dest = cd_broadcast_ip d \<or> is_unspecified real_dest))"

text \<open>The answer takes the place of the request.\<close>

definition client_echo :: "conf \<Rightarrow> RouteKey \<Rightarrow> ipv4 \<Rightarrow> ipv4 \<Rightarrow> net_packet \<Rightarrow> u8 list \<Rightarrow> (world, unit) cmd" where
  "client_echo C k source destination p ipv4 =
     bindS (liftE (bindE (echo_reply C destination source ipv4) (\<lambda>ipv4. NetPacket_set_payload p ipv4))) (\<lambda>p.
     bindS (liftE (np_seq [\<lambda>p. NetPacket_set_source p destination, \<lambda>p. NetPacket_set_destination p source] p)) (\<lambda>p.
     bindS (encryptS C (cf_client_cipher C) p) (\<lambda>p. send_by_key (cf_env C) p k)))"

definition client_deliver :: "conf \<Rightarrow> CurrentDeviceInfo \<Rightarrow> ipv4 \<Rightarrow> ipv4 \<Rightarrow> net_packet \<Rightarrow> u8 list \<Rightarrow> (world, unit) cmd" where
  "client_deliver C d source destination p ipv4 =
       bindS (liftE (IpV4Packet_destination_ip ipv4)) (\<lambda>real_dest.
       bindS (getS w_nat_test) (\<lambda>t.
       bindS (liftE (if is_redirected d destination real_dest then forward_allowed C t real_dest ipv4 else Inr True)) (\<lambda>pass.
       if \<not> pass then retS ()
       else
         bindS (if is_redirected d destination real_dest \<and> cf_use_ip_proxy C
                then on_proxy (IpProxyMap_recv_handle (cf_keeps_tail C) (cf_icmp_send C) ipv4 source destination)
                else retS (False, ipv4)) (\<lambda>(taken, ipv4).
         if taken then retS ()
         else bindS (liftE (bindE (NetPacket_set_payload p ipv4) NetPacket_payload)) (device_write C)))))"

definition client_ipv4 ::
    "conf \<Rightarrow> CurrentDeviceInfo \<Rightarrow> RouteKey \<Rightarrow> ipv4 \<Rightarrow> ipv4 \<Rightarrow> net_packet \<Rightarrow> (world, unit) cmd" where
  "client_ipv4 C d k source destination p =
     bindS (liftE (bindE (NetPacket_payload p) IpV4Packet_new)) (\<lambda>ipv4.
     bindS (liftE (is_echo_request destination ipv4)) (\<lambda>echo.
     if echo then client_echo C k source destination p ipv4
     else client_deliver C d source destination p ipv4))"

definition client_ip_turn :: "conf \<Rightarrow> CurrentDeviceInfo \<Rightarrow> RouteKey \<Rightarrow> net_packet \<Rightarrow> (world, unit) cmd" where
  "client_ip_turn C d k p =
     bindS (liftE (NetPacket_destination p)) (\<lambda>destination.
     bindS (liftE (NetPacket_source p)) (\<lambda>source.
     bindS (liftE (NetPacket_transport_protocol p)) (\<lambda>t.
     (case IpTurnProtocol_of_u8 t of
        IpTurn_Ipv4 \<Rightarrow> client_ipv4 C d k source destination p
      | _ \<Rightarrow> retS ()))))"

section \<open>Control packets\<close>

text \<open>Turn the received packet around as an answer of the given kind.\<close>

definition client_answer :: "conf \<Rightarrow> CurrentDeviceInfo \<Rightarrow> RouteKey \<Rightarrow> ControlProtocol \<Rightarrow> ipv4 \<Rightarrow> u8 \<Rightarrow> net_packet \<Rightarrow> (world, unit) cmd" where
  "client_answer C d k kind source ttl p =
     bindS (liftE (np_seq [\<lambda>p. NetPacket_set_transport_protocol p (ControlProtocol_to_u8 kind),
       \<lambda>p. NetPacket_set_source p (cd_virtual_ip d), \<lambda>p. NetPacket_set_destination p source,
       \<lambda>p. NetPacket_first_set_ttl p ttl] p)) (\<lambda>p.
     bindS (encryptS C (cf_client_cipher C) p) (\<lambda>p. send_by_key (cf_env C) p k))"

definition client_ping :: "conf \<Rightarrow> CurrentDeviceInfo \<Rightarrow> RouteKey \<Rightarrow> ipv4 \<Rightarrow> u8 \<Rightarrow> net_packet \<Rightarrow> (world, unit) cmd" where
  "client_ping C d k source metric p =
     bindS (on_routes_value (\<lambda>t. add_route_if_absent t (env_now (cf_env C)) source (Route_from_default_rt k metric))) (\<lambda>listed.
     if listed \<or> source < cd_virtual_ip d then client_answer C d k Control_Pong source MAX_TTL p else retS ())"

definition client_pong :: "conf \<Rightarrow> RouteKey \<Rightarrow> ipv4 \<Rightarrow> u8 \<Rightarrow> PingPacket \<Rightarrow> (world, unit) cmd" where
  "client_pong C k source metric pong =
     bindS (liftE (PingPacket_time pong)) (\<lambda>time.
     (case pong_rt (env_millis (cf_env C)) time of
        None \<Rightarrow> retS ()
      | Some rt \<Rightarrow>
          bindS (on_routes_value (\<lambda>t. add_route t (env_now (cf_env C)) source (Route_from k metric rt))) (\<lambda>_. retS ())))"

definition from_self :: "world \<Rightarrow> RouteKey \<Rightarrow> bool" where
  "from_self w k = is_local_address (w_nat_test w) (ConnectProtocol_is_base_tcp (rk_protocol k)) (rk_addr k)"

definition client_punch_request :: "conf \<Rightarrow> CurrentDeviceInfo \<Rightarrow> RouteKey \<Rightarrow> ipv4 \<Rightarrow> net_packet \<Rightarrow> (world, unit) cmd" where
  "client_punch_request C d k source p = bindS (getS id) (\<lambda>w.
     if UseChannelType_is_only_relay (use_channel_type w) \<or> from_self w k then retS ()
     else client_answer C d k Control_PunchResponse source 1 p)"

definition client_punch_response :: "conf \<Rightarrow> RouteKey \<Rightarrow> ipv4 \<Rightarrow> (world, unit) cmd" where
  "client_punch_response C k source = bindS (getS id) (\<lambda>w.
     if UseChannelType_is_only_relay (use_channel_type w) \<or> from_self w k then retS ()
     else bindS (on_routes_value (\<lambda>t. add_route_if_absent t (env_now (cf_env C)) source (Route_from_default_rt k 1))) (\<lambda>_. retS ()))"

definition client_addr_request :: "conf \<Rightarrow> CurrentDeviceInfo \<Rightarrow> RouteKey \<Rightarrow> ipv4 \<Rightarrow> (world, unit) cmd" where
  "client_addr_request C d k source = (case rk_addr k of
     SockV6 _ _ _ _ \<Rightarrow> retS ()
   | SockV4 ip port \<Rightarrow>
       bindS (liftE (bindE (zero_packet (12 + 6 + ENCRYPTION_RESERVED)) (np_seq
         [NetPacket_set_default_version, \<lambda>p. NetPacket_set_protocol p Protocol_Control,
          \<lambda>p. NetPacket_set_transport_protocol p (ControlProtocol_to_u8 Control_AddrResponse),
          \<lambda>p. NetPacket_first_set_ttl p MAX_TTL, \<lambda>p. NetPacket_set_source p (cd_virtual_ip d),
          \<lambda>p. NetPacket_set_destination p source,
          \<lambda>p. mapE fst (in_payload p (\<lambda>pl. bindE (AddrPacket_new pl) (\<lambda>a. bindE (AddrPacket_set_ipv4 a ip) (\<lambda>a.
            bindE (AddrPacket_set_port a port) (\<lambda>a. Inr (a, ()))))))]))) (\<lambda>p.
       bindS (encryptS C (cf_client_cipher C) p) (\<lambda>p. send_by_key (cf_env C) p k)))"

definition client_control :: "conf \<Rightarrow> CurrentDeviceInfo \<Rightarrow> RouteKey \<Rightarrow> net_packet \<Rightarrow> (world, unit) cmd" where
  "client_control C d k p =
     bindS (liftE (packet_metric p)) (\<lambda>metric.
     bindS (liftE (NetPacket_source p)) (\<lambda>source.
     bindS (liftE (bindE (NetPacket_transport_protocol p) (\<lambda>t. bindE (NetPacket_payload p) (ControlPacket_new t)))) (\<lambda>packet.
     (case packet of
        CP_PingPacket _ \<Rightarrow> client_ping C d k source metric p
      | CP_PongPacket pong \<Rightarrow> client_pong C k source metric pong
      | CP_PunchRequest \<Rightarrow> client_punch_request C d k source p
      | CP_PunchResponse \<Rightarrow> client_punch_response C k source
      | CP_AddrRequest \<Rightarrow> client_addr_request C d k source
      | CP_AddrResponse _ \<Rightarrow> retS ()))))"

section \<open>Punch negotiation\<close>

definition client_other_turn :: "conf \<Rightarrow> CurrentDeviceInfo \<Rightarrow> RouteKey \<Rightarrow> net_packet \<Rightarrow> (world, unit) cmd" where
  "client_other_turn C d k p = bindS (getS id) (\<lambda>w.
     if UseChannelType_is_only_relay (use_channel_type w) then retS ()
     else bindS (liftE (NetPacket_source p)) (\<lambda>source.
       bindS (liftE (NetPacket_transport_protocol p)) (\<lambda>t.
       (case OtherTurnProtocol_of_u8 t of
          OtherTurn_Unknown _ \<Rightarrow> retS ()
        | OtherTurn_Punch \<Rightarrow>
            bindS (liftE (bindE (NetPacket_payload p) (\<lambda>pl.
              case dec_punch (cf_proto C) pl of Some i \<Rightarrow> Inr i | None \<Rightarrow> Inl (Anyhow ''PunchInfo'')))) (\<lambda>info.
            let peer = peer_nat_info_of info in
            thenS (modS (\<lambda>w. w\<lparr>w_peer_nat_info := (w_peer_nat_info w)(source \<mapsto> peer)\<rparr>))
            (if pi_reply info then bindS (PunchSender_send C False source peer) (\<lambda>_. retS ())
             else bindS (getS (\<lambda>w. nt_info (w_nat_test w))) (\<lambda>own.
               bindS (liftE (bindE (own_punch_info True own) (\<lambda>m.
                 punch_message C ''punch_reply'' m (cd_virtual_ip d) source))) (\<lambda>q.
               bindS (encryptS C (cf_client_cipher C) q) (\<lambda>q.
               bindS (PunchSender_send C True source peer) (\<lambda>ready.
                 if ready then send_by_key (cf_env C) q k else retS ()))))))))))"

section \<open>The handler\<close>

definition client_extension :: "conf \<Rightarrow> net_packet \<Rightarrow> net_packet \<Rightarrow> net_packet res" where
  "client_extension C p spare = bindE (NetPacket_is_extension p) (\<lambda>ext.
     if ext then bindE (handle_extension_tail (cf_codecs C) p spare) (\<lambda>(moved, p, spare). Inr (if moved then spare else p))
     else Inr p)"

definition client_handle :: "conf \<Rightarrow> CurrentDeviceInfo \<Rightarrow> RouteKey \<Rightarrow> net_packet \<Rightarrow> net_packet \<Rightarrow> (world, unit) cmd" where
  "client_handle C d k p spare =
     bindS (decryptS C (cf_client_cipher C) p) (\<lambda>p.
     bindS (liftE (NetPacket_source p)) (\<lambda>source.
     thenS (on_routes (\<lambda>t. update_read_time t (env_now (cf_env C)) source k))
     (bindS (liftE (client_extension C p spare)) (\<lambda>p.
     bindS (liftE (NetPacket_protocol p)) (\<lambda>protocol.
     (case protocol of
        Protocol_Control \<Rightarrow> client_control C d k p
      | Protocol_IpTurn \<Rightarrow> client_ip_turn C d k p
      | Protocol_OtherTurn \<Rightarrow> client_other_turn C d k p
      | _ \<Rightarrow> retS ()))))))"

section \<open>What is let through to the system\<close>

text \<open>A postcondition of the state that holds already, through a fallible step without effects.\<close>

lemma liftE_post: "G w \<Longrightarrow> (\<And>x. r = Inr x \<Longrightarrow> G (snd (f x w))) \<Longrightarrow> G (snd (bindS (liftE r) f w))"
  by (cases r) auto

text \<open>What a packet that may be forwarded is: to an allowed network, and not to a socket of the program.\<close>

definition may_forward :: "conf \<Rightarrow> NatTest \<Rightarrow> ipv4 \<Rightarrow> u8 list \<Rightarrow> bool" where
  "may_forward C t real_dest ipv4 \<longleftrightarrow> AllowExternalRoute_allow (cf_allow_route C) real_dest \<and>
     (\<forall>pl port. IpV4Packet_payload ipv4 = Inr pl \<longrightarrow> rd16 pl 2 = Inr port \<longrightarrow>
        (IpV4Packet_protocol ipv4 = Inr Ip_Tcp \<longrightarrow> \<not> is_local_tcp t real_dest port) \<and>
        (IpV4Packet_protocol ipv4 = Inr Ip_Udp \<longrightarrow> \<not> is_local_udp t real_dest port))"

lemma forward_allowed_may: "forward_allowed C t real ipv4 = Inr True \<Longrightarrow> may_forward C t real ipv4"
  by (auto simp: forward_allowed_def may_forward_def bindE_Inr_iff split: if_splits)

lemma send_by_key_events: "keeps (\<lambda>w. w_events w = es \<and> w_ip_proxy w = px) (send_by_key E p k)"
proof -
  have o: "keeps (\<lambda>w. w_events w = es \<and> w_ip_proxy w = px) (os_send E x)" for x
    by (auto simp: keeps_def os_send_def Let_def split: option.splits)
  then have t: "keeps (\<lambda>w. w_events w = es \<and> w_ip_proxy w = px) (context_send_tcp E b a)" for b a
    unfolding context_send_tcp_def by (intro keeps_intros)
  have c: "keeps (\<lambda>w. w_events w = es \<and> w_ip_proxy w = px) (count_up E p)"
    unfolding count_up_def by (intro keeps_intros keeps_modS) simp
  show ?thesis unfolding send_by_key_def
    by (cases "rk_protocol k"; simp; intro keeps_intros o t c)
qed

lemma encryptS_events: "keeps (\<lambda>w. w_events w = es \<and> w_ip_proxy w = px) (encryptS C c p)"
  unfolding encryptS_def draw_def by (intro keeps_intros keeps_updS) simp

definition let_through :: "conf \<Rightarrow> CurrentDeviceInfo \<Rightarrow> ipv4 \<Rightarrow> u8 list \<Rightarrow> world \<Rightarrow> world \<Rightarrow> bool" where
  "let_through C d destination ipv4 w w' \<longleftrightarrow>
     (w_events w' = w_events w \<and> w_ip_proxy w' = w_ip_proxy w) \<or>
     (\<exists>real_dest. IpV4Packet_destination_ip ipv4 = Inr real_dest \<and>
       (w_events w' = w_events w \<or> (\<exists>b. w_events w' = w_events w @ [Ev_tun b])) \<and>
       (if is_redirected d destination real_dest then may_forward C (w_nat_test w) real_dest ipv4
        else w_ip_proxy w' = w_ip_proxy w))"

lemma device_write_events:
  "w_ip_proxy (snd (device_write C b w)) = w_ip_proxy w \<and>
   (w_events (snd (device_write C b w)) = w_events w \<or> (\<exists>b'. w_events (snd (device_write C b w)) = w_events w @ [Ev_tun b']))"
  by (cases "cf_tun_write C (w_events w) b") (auto simp: device_write_def thenS_def emit_def bindS_def)

lemma client_deliver_through: "let_through C d destination ipv4 w (snd (client_deliver C d source destination p ipv4 w))"
proof (cases "IpV4Packet_destination_ip ipv4")
  case (Inl e)
  then show ?thesis by (simp add: client_deliver_def let_through_def)
next
  case (Inr real)
  let ?r = "is_redirected d destination real"
  show ?thesis
  proof (cases "if ?r then forward_allowed C (w_nat_test w) real ipv4 else Inr True")
    case (Inl e)
    then show ?thesis using Inr by (simp add: client_deliver_def let_through_def)
  next
    case pass: (Inr b)
    show ?thesis
    proof (cases b)
      case False
      then show ?thesis using Inr pass by (simp add: client_deliver_def let_through_def)
    next
      case True
      then have may: "?r \<longrightarrow> may_forward C (w_nat_test w) real ipv4" using pass forward_allowed_may by auto
      let ?m = "if ?r \<and> cf_use_ip_proxy C
          then on_proxy (IpProxyMap_recv_handle (cf_keeps_tail C) (cf_icmp_send C) ipv4 source destination)
          else retS (False, ipv4)"
      obtain o' w1 where m: "?m w = (o', w1)" by fastforce
      have ev: "w_events w1 = w_events w \<and> (\<not> ?r \<longrightarrow> w_ip_proxy w1 = w_ip_proxy w)"
        using m by (auto simp: on_proxy_def split: if_splits prod.splits)
      have run: "client_deliver C d source destination p ipv4 w = (case o' of Inl e \<Rightarrow> (Inl e, w1)
          | Inr (taken, ip) \<Rightarrow> (if taken then retS ()
              else bindS (liftE (bindE (NetPacket_set_payload p ip) NetPacket_payload)) (device_write C)) w1)"
        using Inr pass True m by (simp add: client_deliver_def bindS_def split: sum.splits prod.splits)
      have "w_ip_proxy (snd (client_deliver C d source destination p ipv4 w)) = w_ip_proxy w1 \<and>
          (w_events (snd (client_deliver C d source destination p ipv4 w)) = w_events w1 \<or>
           (\<exists>b. w_events (snd (client_deliver C d source destination p ipv4 w)) = w_events w1 @ [Ev_tun b]))"
      proof (cases "\<exists>ip buf. o' = Inr (False, ip) \<and> bindE (NetPacket_set_payload p ip) NetPacket_payload = Inr buf")
        case True
        then obtain buf where "client_deliver C d source destination p ipv4 w = device_write C buf w1"
          unfolding run by auto
        with device_write_events[of C buf w1] show ?thesis by simp
      next
        case False
        then show ?thesis unfolding run by (auto simp: bindS_def split: sum.splits prod.splits)
      qed
      with ev may Inr show ?thesis by (auto simp: let_through_def)
    qed
  qed
qed

text \<open>
  C4. What a peer's data packet can do to this host: at most one packet is written to the network device or, with
  the proxy, handed to the system's sockets; and when its inner destination is not this device (or a broadcast), only if that
  destination belongs to a network the user opened and, for TCP and UDP, is not one of the program's own
  sockets - a peer cannot loop packets into the tunnel or reach hosts that were not offered.
\<close>

theorem peer_reaches_allowed_only:
  assumes "client_ip_turn C d k p w = (res, w')"
  shows "(w_events w' = w_events w \<and> w_ip_proxy w' = w_ip_proxy w) \<or>
    (\<exists>ipv4 destination real_dest. NetPacket_payload p = Inr ipv4 \<and> NetPacket_destination p = Inr destination \<and>
       IpV4Packet_destination_ip ipv4 = Inr real_dest \<and>
       (w_events w' = w_events w \<or> (\<exists>b. w_events w' = w_events w @ [Ev_tun b])) \<and>
       (if is_redirected d destination real_dest then
          AllowExternalRoute_allow (cf_allow_route C) real_dest \<and>
          (\<forall>pl port. IpV4Packet_payload ipv4 = Inr pl \<longrightarrow> rd16 pl 2 = Inr port \<longrightarrow>
            (IpV4Packet_protocol ipv4 = Inr Ip_Tcp \<longrightarrow> \<not> is_local_tcp (w_nat_test w) real_dest port) \<and>
            (IpV4Packet_protocol ipv4 = Inr Ip_Udp \<longrightarrow> \<not> is_local_udp (w_nat_test w) real_dest port))
        else w_ip_proxy w' = w_ip_proxy w))"
proof -
  define G where "G v \<longleftrightarrow> (w_events v = w_events w \<and> w_ip_proxy v = w_ip_proxy w) \<or>
    (\<exists>ipv4 destination. NetPacket_payload p = Inr ipv4 \<and> NetPacket_destination p = Inr destination \<and>
       let_through C d destination ipv4 w v)" for v
  have w: "G w" by (simp add: G_def)
  have "keeps (\<lambda>v. w_events v = w_events w \<and> w_ip_proxy v = w_ip_proxy w) (client_echo C k src dst p ip)" for src dst ip
    unfolding client_echo_def by (intro keeps_intros encryptS_events send_by_key_events)
  then have echo: "G (snd (client_echo C k src dst p ip w))" for src dst ip
    by (simp add: keeps_def G_def)
  have data: "G (snd (client_ipv4 C d k src dst p w))" if "NetPacket_destination p = Inr dst" for src dst
    unfolding client_ipv4_def
  proof (intro liftE_post[where G = G] w)
    fix ip b assume "bindE (NetPacket_payload p) IpV4Packet_new = Inr ip"
    then have "NetPacket_payload p = Inr ip" by (auto simp: bindE_Inr_iff IpV4Packet_new_Inr_iff)
    then show "G (snd ((if b then client_echo C k src dst p ip else client_deliver C d src dst p ip) w))"
      using echo that client_deliver_through by (auto simp: G_def)
  qed
  have "G (snd (client_ip_turn C d k p w))" unfolding client_ip_turn_def
  proof (intro liftE_post[where G = G] w)
    fix dst src t assume "NetPacket_destination p = Inr dst"
    then show "G (snd ((case IpTurnProtocol_of_u8 t of IpTurn_Ipv4 \<Rightarrow> client_ipv4 C d k src dst p | _ \<Rightarrow> retS ()) w))"
      using data w by (simp split: IpTurnProtocol.splits)
  qed
  then have "G w'" using assms by simp
  then show ?thesis by (auto simp: G_def let_through_def may_forward_def split: if_splits)
qed

definition inner_bytes :: "u8 list" where
  "inner_bytes = [0x45, 0, 0, 20, 0, 0, 0, 0, 64, 17, 0, 0, 10, 26, 0, 3, 10, 26, 0, 2]"

definition data_packet :: net_packet where
  "data_packet = NetPacket_unchecked ([2, 4, 4, 0x33, 10, 26, 0, 3, 10, 26, 0, 2] @ inner_bytes)"

lemma peer_reaches_allowed_only_witness:
  "\<exists>w'. client_ip_turn sample_conf sample_device \<lparr>rk_protocol = Conn_UDP, rk_index = 0, rk_addr = SockV4 5 6\<rparr>
       data_packet sample_world = (Inr (), w') \<and> w_events w' = [Ev_tun inner_bytes] \<and>
     (\<exists>ipv4. NetPacket_payload data_packet = Inr ipv4 \<and> IpV4Packet_destination_ip ipv4 = Inr (0x0A1A0002 :: ipv4))"
proof -
  let ?k = "\<lparr>rk_protocol = Conn_UDP, rk_index = 0, rk_addr = SockV4 5 6\<rparr>"
  have ok: "np_ok data_packet" by (simp add: np_ok_def data_packet_def NetPacket_unchecked_def inner_bytes_def)
  have a: "f_destination (np_abs data_packet) = 0x0A1A0002" "f_transport (np_abs data_packet) = 4"
    "f_payload (np_abs data_packet) = inner_bytes"
    by (simp_all add: np_abs_def Let_def data_packet_def NetPacket_unchecked_def inner_bytes_def Ipv4Addr_new_def be32_def)
  have ip: "IpV4Packet_new inner_bytes = Inr inner_bytes" "IpV4Packet_protocol inner_bytes = Inr Ip_Udp"
    "IpV4Packet_destination_ip inner_bytes = Inr (0x0A1A0002 :: ipv4)"
    by (simp_all add: IpV4Packet_new_def IpV4Packet_protocol_def IpV4Packet_destination_ip_def IpV4Packet_header_len_def
        inner_bytes_def rd_def rd_addr_def slice_def IpProtocol_of_u8_def Ipv4Addr_new_def be32_def)
  have set: "NetPacket_set_payload data_packet inner_bytes = Inr data_packet"
    by (simp add: NetPacket_set_payload_def data_packet_def NetPacket_unchecked_def inner_bytes_def copy_range_def
        Vnt_Prelude.splice_def)
  have r: "client_ip_turn sample_conf sample_device ?k data_packet sample_world =
      (Inr (), sample_world\<lparr>w_events := [Ev_tun inner_bytes]\<rparr>)"
    using np_get[OF ok] a ip set
    by (simp add: client_ip_turn_def IpTurnProtocol_of_u8_def client_ipv4_def is_echo_request_def client_deliver_def
        is_redirected_def device_write_def sample_fields sample_conf_def thenS_def emit_def)
  from peer_reaches_allowed_only[OF r] show ?thesis
    using r np_get(11)[OF ok] a(3) ip(3) by (intro exI[of _ "sample_world\<lparr>w_events := [Ev_tun inner_bytes]\<rparr>"]) simp
qed

end
