(* ===== verification/Server_Handler.thy ===== *)
theory Server_Handler
  imports World
begin

text \<open>
  Packets of the server and the dialogue that leads to a registration:
  \<^verbatim>\<open>vnt/src/handle/recv_data/server.rs\<close>, \<^verbatim>\<open>vnt/src/handle/handshaker.rs\<close>,
  \<^verbatim>\<open>vnt/src/handle/registrar.rs\<close> and \<^verbatim>\<open>vnt/src/cipher/rsa_cipher.rs\<close>.
\<close>

section \<open>The server's key\<close>

definition RsaCipher_new :: "rsa_lib \<Rightarrow> u8 list \<Rightarrow> RsaCipher res" where
  "RsaCipher_new L der =
     (if rl_valid L der then bindE (rl_finger L der) (\<lambda>finger. Inr \<lparr>rsa_public_key = der, rsa_finger = finger\<rparr>)
      else Inl (Io OtherKind ''from_public_key_der failed''))"

definition rsa_nonce :: "net_packet \<Rightarrow> u8 list res" where
  "rsa_nonce p =
     bindE (NetPacket_source p) (\<lambda>source. bindE (NetPacket_destination p) (\<lambda>destination.
     bindE (NetPacket_protocol p) (\<lambda>protocol. bindE (NetPacket_transport_protocol p) (\<lambda>transport.
     bindE (NetPacket_is_gateway p) (\<lambda>gateway. bindE (NetPacket_source_ttl p) (\<lambda>source_ttl.
       Inr (octets source @ octets destination @
         [Protocol_to_u8 protocol, transport, if gateway then 1 else 0, source_ttl])))))))"

definition RsaCipher_encrypt :: "rsa_lib \<Rightarrow> hash \<Rightarrow> u8 list \<Rightarrow> RsaCipher \<Rightarrow> net_packet \<Rightarrow> net_packet res" where
  "RsaCipher_encrypt L sha random r p =
     (if NetPacket_reserve p < RSA_ENCRYPTION_RESERVED then Inl (Io OtherKind ''too short'')
      else bindE (NetPacket_set_data_len p (np_data_len p + RSA_ENCRYPTION_RESERVED)) (\<lambda>p.
        bindE (rsa_nonce p) (\<lambda>nonce_raw.
        bindE (in_payload p (\<lambda>pl.
          bindE (RsaSecretBody_new pl) (\<lambda>s. bindE (RsaSecretBody_set_random s random) (\<lambda>s.
          bindE (RsaSecretBody_body s) (\<lambda>body.
          bindE (RsaSecretBody_set_finger s (drop 16 (sha (body @ nonce_raw)))) (\<lambda>s. Inr (s, s))))))) (\<lambda>(p, secret_body).
        (case rl_encrypt L (rsa_public_key r) secret_body of
           None \<Rightarrow> Inl (Io OtherKind ''encrypt failed'')
         | Some enc_data \<Rightarrow>
             bindE (NetPacket_new (replicate (12 + length enc_data) 0)) (\<lambda>e.
             bindE (NetPacket_buffer p) (\<lambda>b. bindE (slice b 0 12) (\<lambda>h.
             bindE (NetPacket_set_head e h) (\<lambda>e. NetPacket_set_payload e enc_data)))))))))"

section \<open>Handshake and registration requests\<close>

text \<open>The header every request to the server starts with.\<close>

definition to_gateway :: "ServiceProtocol \<Rightarrow> u8 list \<Rightarrow> net_packet \<Rightarrow> net_packet res" where
  "to_gateway kind bytes = np_seq
     [NetPacket_set_default_version, \<lambda>p. NetPacket_set_gateway_flag p True,
      \<lambda>p. NetPacket_set_destination p GATEWAY_IP, \<lambda>p. NetPacket_set_source p SELF_IP,
      \<lambda>p. NetPacket_set_protocol p Protocol_Service,
      \<lambda>p. NetPacket_set_transport_protocol p (ServiceProtocol_to_u8 kind),
      \<lambda>p. NetPacket_first_set_ttl p MAX_TTL, \<lambda>p. NetPacket_set_payload p bytes]"

definition handshake_request_packet :: "conf \<Rightarrow> RsaCipher option \<Rightarrow> bool \<Rightarrow> net_packet res" where
  "handshake_request_packet C rsa secret =
     bindE (encoded (Io OtherKind ''handshake_request_packet'') (enc_handshake (cf_proto C)
       \<lparr>hq_version = cf_version C, hq_secret = secret,
        hq_key_finger = (case rsa of Some r \<Rightarrow> rsa_finger r | None \<Rightarrow> '''')\<rparr>)) (\<lambda>bytes.
     bindE (NetPacket_new (replicate (12 + length bytes) 0)) (to_gateway Service_HandshakeRequest bytes))"

definition secret_handshake_request_packet :: "conf \<Rightarrow> RsaCipher \<Rightarrow> string \<Rightarrow> u8 list \<Rightarrow> net_packet res" where
  "secret_handshake_request_packet C r token key =
     bindE (encoded (Io OtherKind ''secret_handshake_request_packet'') (enc_secret_handshake (cf_proto C)
       \<lparr>sh_token = token, sh_key = key\<rparr>)) (\<lambda>bytes.
     bindE (NetPacket_new0 (12 + length bytes) (replicate (12 + length bytes + RSA_ENCRYPTION_RESERVED) 0)) (\<lambda>p.
     bindE (to_gateway Service_SecretHandshakeRequest bytes p)
       (RsaCipher_encrypt (cf_rsa C) (cf_sha C) (cf_rsa_random C) r)))"

definition registration_request_packet ::
    "conf \<Rightarrow> string \<Rightarrow> string \<Rightarrow> string \<Rightarrow> ipv4 option \<Rightarrow> bool \<Rightarrow> bool \<Rightarrow> u8 list option \<Rightarrow> ('a ContextInner_scheme, net_packet) cmd" where
  "registration_request_packet C token device_id name ip is_fast allow_ip_change client_secret_hash =
     bindS (liftE (bindE (encoded (Anyhow ''RegistrationRequest'') (enc_registration (cf_proto C)
       \<lparr>rq_token = token, rq_device_id = device_id, rq_name = name, rq_is_fast = is_fast,
        rq_version = cf_version C, rq_virtual_ip = (case ip of Some v \<Rightarrow> v | None \<Rightarrow> 0),
        rq_allow_ip_change = allow_ip_change, rq_client_secret = (client_secret_hash \<noteq> None),
        rq_client_secret_hash = (case client_secret_hash of Some h \<Rightarrow> h | None \<Rightarrow> [])\<rparr>)) (\<lambda>bytes.
       bindE (zero_packet (12 + length bytes + ENCRYPTION_RESERVED)) (to_gateway Service_RegistrationRequest bytes))))
     (encryptS C (cf_server_cipher C))"

text \<open>At most one handshake in three seconds; the time is set only when the packet went out.\<close>

definition SECOND :: nat where "SECOND = 1000000000"

definition Handshake_send :: "conf \<Rightarrow> bool \<Rightarrow> socket_addr \<Rightarrow> (world, unit) cmd" where
  "Handshake_send C secret addr = bindS (getS id) (\<lambda>w.
     if env_now (cf_env C) - w_handshake_time w < 3 * SECOND then retS ()
     else bindS (liftE (handshake_request_packet C (w_rsa_cipher w) secret)) (\<lambda>p.
       thenS (send_default (cf_env C) p addr)
         (modS (\<lambda>w. w\<lparr>w_handshake_time := env_now (cf_env C)\<rparr>))))"

text \<open>A registered device does not register again.\<close>

definition server_register :: "conf \<Rightarrow> CurrentDeviceInfo \<Rightarrow> (world, unit) cmd" where
  "server_register C d =
     (if ConnectStatus_online (cd_status d) then retS ()
      else let b = cf_base C in
        bindS (registration_request_packet C (bc_token b) (bc_device_id b) (bc_name b)
            (Some (case bc_ip b of Some ip \<Rightarrow> ip | None \<Rightarrow> cd_virtual_ip d)) False False (bc_client_secret_hash b))
          (\<lambda>p. send_default (cf_env C) p (cd_connect_server d)))"

section \<open>Before decryption\<close>

text \<open>The server lost our key: send it again, at most once a second.\<close>

definition server_no_key :: "conf \<Rightarrow> RouteKey \<Rightarrow> (world, unit) cmd" where
  "server_no_key C k = bindS (getS id) (\<lambda>w. (case w_rsa_cipher w of
     None \<Rightarrow> retS ()
   | Some r \<Rightarrow>
       if env_now (cf_env C) - w_up_key_time w < SECOND then retS ()
       else thenS (modS (\<lambda>w. w\<lparr>w_up_key_time := env_now (cf_env C)\<rparr>))
         (case cf_server_key C of
            None \<Rightarrow> retS ()
          | Some key \<Rightarrow>
              bindS (liftE (secret_handshake_request_packet C r (bc_token (cf_base C)) key))
                (\<lambda>p. send_by_key (cf_env C) p k))))"

text \<open>
  The server's answer to a handshake. With encryption its key is pinned: once accepted, another one is refused;
  a new one is accepted when its fingerprint is the announced one and the application agrees.
\<close>

definition server_handshake_secret :: "conf \<Rightarrow> RouteKey \<Rightarrow> HandshakeResponse \<Rightarrow> u8 list \<Rightarrow> (world, unit) cmd" where
  "server_handshake_secret C k response key = bindS (getS w_rsa_cipher) (\<lambda>rsa. (case rsa of
     Some r \<Rightarrow>
       if rsa_finger r = hr_key_finger response then
         bindS (liftE (secret_handshake_request_packet C r (bc_token (cf_base C)) key)) (\<lambda>p. send_by_key (cf_env C) p k)
       else retS ()
   | None \<Rightarrow>
       bindS (liftE (RsaCipher_new (cf_rsa C) (hr_public_key response))) (\<lambda>r.
       if rsa_finger r \<noteq> hr_key_finger response then retS ()
       else bindS (ask C (Ev_handshake (HandshakeInfo_new (rsa_public_key r) (hr_key_finger response) (hr_version response)))) (\<lambda>ok.
         if ok then
           bindS (liftE (secret_handshake_request_packet C r (bc_token (cf_base C)) key)) (\<lambda>p.
           thenS (send_by_key (cf_env C) p k) (modS (\<lambda>w. w\<lparr>w_rsa_cipher := Some r\<rparr>)))
         else retS ()))))"

definition server_handshake_plain :: "conf \<Rightarrow> CurrentDeviceInfo \<Rightarrow> HandshakeResponse \<Rightarrow> (world, unit) cmd" where
  "server_handshake_plain C d response =
     thenS (case RsaCipher_new (cf_rsa C) (hr_public_key response) of
              Inr r \<Rightarrow> modS (\<lambda>w. w\<lparr>w_rsa_cipher := Some r\<rparr>) | Inl _ \<Rightarrow> retS ())
     (bindS (ask C (Ev_handshake (HandshakeInfo_new_no_secret (hr_version response)))) (\<lambda>ok.
       if ok then server_register C d else retS ()))"

definition server_handshake_response :: "conf \<Rightarrow> CurrentDeviceInfo \<Rightarrow> RouteKey \<Rightarrow> net_packet \<Rightarrow> (world, unit) cmd" where
  "server_handshake_response C d k p =
     bindS (liftE (bindE (NetPacket_payload p) (\<lambda>pl.
       case dec_handshake (cf_proto C) pl of Some r \<Rightarrow> Inr r | None \<Rightarrow> Inl (Anyhow ''HandshakeResponse'')))) (\<lambda>response.
     (case cf_server_key C of
        Some key \<Rightarrow> server_handshake_secret C k response key
      | None \<Rightarrow> server_handshake_plain C d response))"

section \<open>Service packets\<close>

text \<open>The list of peers is replaced as a whole; a later entry for an address wins.\<close>

definition peer_of :: "ProtoDeviceInfo \<Rightarrow> PeerDeviceInfo" where
  "peer_of i = PeerDeviceInfo_new (di_virtual_ip i) (di_name i) (ucast (di_device_status i)) (di_client_secret i)
     (di_client_secret_hash i) (di_wireguard i)"

definition set_device_info_list :: "ProtoDeviceInfo list \<Rightarrow> u16 \<Rightarrow> (world, unit) cmd" where
  "set_device_info_list device_info_list epoch =
     (let ip_list = map peer_of device_info_list in
      thenS (modS (\<lambda>w. w\<lparr>w_epoch := epoch,
          w_devices := foldl (\<lambda>m i. AList.update (pd_virtual_ip i) i m) [] ip_list\<rparr>))
        (emit (Ev_peer_client_list (map (\<lambda>v. \<lparr>pc_virtual_ip = pd_virtual_ip v, pc_name = pd_name v,
          pc_status = pd_status v, pc_client_secret = pd_client_secret v\<rparr>) ip_list))))"

text \<open>A new address needs a new network device; how it comes about depends on the platform.\<close>

definition start_or_report :: "conf \<Rightarrow> bool \<Rightarrow> (world, unit) cmd" where
  "start_or_report C fatal =
     bindS (tryS (bindS (liftE (cf_open_device C)) (\<lambda>_. TunDeviceHelper_start C))) (\<lambda>r. (case r of
       Inr _ \<Rightarrow> retS ()
     | Inl e \<Rightarrow> thenS (emit (Ev_error (ErrorInfo_new_msg Unknown ''device'')))
         (if fatal then failS (Anyhow ''device'') else retS ())))"

definition create_tun :: "conf \<Rightarrow> DeviceConfig \<Rightarrow> (world, unit) cmd" where
  "create_tun C config =
     thenS TunDeviceHelper_stop
     (case cf_platform C of
        Desktop \<Rightarrow> thenS (emit (Ev_create_device config))
          (case cf_create_device C config of
             Inr _ \<Rightarrow> thenS (emit Ev_create_tun) (TunDeviceHelper_start C)
           | Inl e \<Rightarrow> emit (Ev_error e))
      | Ios \<Rightarrow> thenS (emit (Ev_generate_tun config))
          (let device_fd = cf_generate_tun C config in
           if device_fd AND 0xFFFF = 0 \<or> drop_bit 16 device_fd AND 0xFFFF = 0 then
             thenS (emit (Ev_error (ErrorInfo_new_msg Unknown ''invalid pipe fds''))) (failS (Anyhow ''invalid pipe fds''))
           else start_or_report C True)
      | Android \<Rightarrow> thenS (emit (Ev_generate_tun config))
          (if cf_generate_tun C config = 0 then emit (Ev_error (ErrorInfo_new_msg Unknown ''device_fd == 0''))
           else start_or_report C False))"

text \<open>
  The compare-and-exchange loop of a registration ends with the updated current value of the cell, whatever other
  threads made of it since the snapshot.
\<close>

definition registered_device :: "RegistrationResponse \<Rightarrow> CurrentDeviceInfo \<Rightarrow> CurrentDeviceInfo" where
  "registered_device r cur =
     (CurrentDeviceInfo_update cur (rr_virtual_ip r) (rr_virtual_netmask r) (rr_virtual_gateway r))
       \<lparr>cd_status := Connected\<rparr>"

definition device_config_of :: "conf \<Rightarrow> RegistrationResponse \<Rightarrow> DeviceConfig" where
  "device_config_of C r =
     \<lparr>dc_mtu = bc_mtu (cf_base C), dc_virtual_ip = rr_virtual_ip r, dc_virtual_netmask = rr_virtual_netmask r,
      dc_virtual_gateway = rr_virtual_gateway r, dc_virtual_network = rr_virtual_ip r AND rr_virtual_netmask r,
      dc_external_route = ExternalRoute_to_route (cf_ip_route C)\<rparr>"

definition server_registered :: "conf \<Rightarrow> CurrentDeviceInfo \<Rightarrow> RouteKey \<Rightarrow> RegistrationResponse \<Rightarrow> (world, unit) cmd" where
  "server_registered C old k r =
     bindS (ask C (Ev_register \<lparr>ri_virtual_ip = rr_virtual_ip r, ri_virtual_netmask = rr_virtual_netmask r,
         ri_virtual_gateway = rr_virtual_gateway r\<rparr>)) (\<lambda>ok.
     if \<not> ok then retS ()
     else bindS (on_routes_value (\<lambda>t. add_route_if_absent t (env_now (cf_env C)) (rr_virtual_gateway r)
         (Route_from_default_rt k 1))) (\<lambda>_.
       thenS (modS (\<lambda>w. w\<lparr>w_nat_test := snd (NatTest_update_addr (w_nat_test w) (rk_index k) (rr_public_ip r)
         (ucast (rr_public_port r)))\<rparr>))
       (thenS (modS (\<lambda>w. w\<lparr>w_current_device := registered_device r (w_current_device w)\<rparr>))
       (thenS (whenS (cd_virtual_ip old \<noteq> rr_virtual_ip r \<or> cd_virtual_gateway old \<noteq> rr_virtual_gateway r \<or>
             cd_virtual_netmask old \<noteq> rr_virtual_netmask r) (create_tun C (device_config_of C r)))
       (thenS (set_device_info_list (rr_device_info_list r) (ucast (rr_epoch r)))
         (whenS (ConnectStatus_offline (cd_status old)) (emit Ev_success)))))))"

definition server_service :: "conf \<Rightarrow> CurrentDeviceInfo \<Rightarrow> RouteKey \<Rightarrow> net_packet \<Rightarrow> (world, unit) cmd" where
  "server_service C d k p =
     bindS (liftE (NetPacket_transport_protocol p)) (\<lambda>t. bindS (liftE (NetPacket_payload p)) (\<lambda>pl.
     (case ServiceProtocol_of_u8 t of
        Service_RegistrationResponse \<Rightarrow>
          (case dec_registration (cf_proto C) pl of
             None \<Rightarrow> failS (Io OtherKind ''RegistrationResponse'') | Some r \<Rightarrow> server_registered C d k r)
      | Service_PushDeviceList \<Rightarrow>
          (case dec_device_list (cf_proto C) pl of
             None \<Rightarrow> failS (Io OtherKind ''PushDeviceList'')
           | Some r \<Rightarrow> set_device_info_list (dl_device_info_list r) (ucast (dl_epoch r)))
      | Service_SecretHandshakeResponse \<Rightarrow> server_register C d
      | _ \<Rightarrow> retS ())))"

section \<open>Error and control packets\<close>

definition server_disconnect :: "conf \<Rightarrow> RouteKey \<Rightarrow> (world, unit) cmd" where
  "server_disconnect C k =
     thenS (modS (\<lambda>w. w\<lparr>w_current_device := change_status (w_current_device w) Connecting\<rparr>))
     (thenS (emit (Ev_error (ErrorInfo_new Disconnect)))
     (thenS (modS (\<lambda>w. w\<lparr>w_epoch := 0\<rparr>))
       (Handshake_send C (bc_server_secret (cf_base C)) (rk_addr k))))"

definition server_error :: "conf \<Rightarrow> RouteKey \<Rightarrow> net_packet \<Rightarrow> (world, unit) cmd" where
  "server_error C k p =
     bindS (liftE (bindE (NetPacket_transport_protocol p) (\<lambda>t. bindE (NetPacket_payload p) (InErrorPacket_new t)))) (\<lambda>e.
     (case e of
        IE_TokenError \<Rightarrow> emit (Ev_error (ErrorInfo_new TokenError))
      | IE_Disconnect \<Rightarrow> server_disconnect C k
      | IE_AddressExhausted \<Rightarrow> emit (Ev_error (ErrorInfo_new AddressExhausted))
      | IE_OtherError b \<Rightarrow> bindS (liftE (ErrorPacket_message (cf_from_utf8 C) b)) (\<lambda>msg.
          emit (Ev_error (ErrorInfo_new_msg Unknown msg)))
      | IE_IpAlreadyExists \<Rightarrow> emit (Ev_error (ErrorInfo_new IpAlreadyExists))
      | IE_InvalidIp \<Rightarrow> emit (Ev_error (ErrorInfo_new InvalidIp))
      | IE_NoKey \<Rightarrow> retS ()))"

text \<open>A pong measures the route to the server and shows whether the peer list is current.\<close>

definition poll_device_packet :: "CurrentDeviceInfo \<Rightarrow> net_packet res" where
  "poll_device_packet d = bindE (zero_packet (12 + ENCRYPTION_RESERVED)) (np_seq
     [\<lambda>p. NetPacket_set_source p (cd_virtual_ip d), \<lambda>p. NetPacket_set_destination p (cd_virtual_gateway d),
      NetPacket_set_default_version, \<lambda>p. NetPacket_set_gateway_flag p True, \<lambda>p. NetPacket_first_set_ttl p MAX_TTL,
      \<lambda>p. NetPacket_set_protocol p Protocol_Service,
      \<lambda>p. NetPacket_set_transport_protocol p (ServiceProtocol_to_u8 Service_PullDeviceList)])"

definition server_pong :: "conf \<Rightarrow> CurrentDeviceInfo \<Rightarrow> RouteKey \<Rightarrow> net_packet \<Rightarrow> PingPacket \<Rightarrow> (world, unit) cmd" where
  "server_pong C d k p pong =
     bindS (liftE (PingPacket_time pong)) (\<lambda>time.
     (case pong_rt (env_millis (cf_env C)) time of
        None \<Rightarrow> retS ()
      | Some rt \<Rightarrow>
          bindS (liftE (bindE (packet_metric p) (\<lambda>metric. bindE (NetPacket_source p) (\<lambda>source. Inr (metric, source))))) (\<lambda>(metric, source).
          bindS (on_routes_value (\<lambda>t. add_route t (env_now (cf_env C)) source (Route_from k metric rt))) (\<lambda>_.
          bindS (getS w_epoch) (\<lambda>epoch.
          bindS (liftE (PingPacket_epoch pong)) (\<lambda>pong_epoch.
          if pong_epoch = epoch then retS ()
          else bindS (liftE (poll_device_packet d)) (\<lambda>q.
            bindS (encryptS C (cf_server_cipher C) q) (\<lambda>q.
              send_default (cf_env C) q (cd_connect_server d)))))))))"

definition server_control :: "conf \<Rightarrow> CurrentDeviceInfo \<Rightarrow> RouteKey \<Rightarrow> net_packet \<Rightarrow> (world, unit) cmd" where
  "server_control C d k p =
     bindS (liftE (bindE (NetPacket_transport_protocol p) (\<lambda>t. bindE (NetPacket_payload p) (ControlPacket_new t)))) (\<lambda>packet.
     (case packet of
        CP_PongPacket pong \<Rightarrow> server_pong C d k p pong
      | CP_AddrResponse addr \<Rightarrow>
          bindS (liftE (bindE (AddrPacket_ipv4 addr) (\<lambda>ip. bindE (AddrPacket_port addr) (\<lambda>port. Inr (ip, port))))) (\<lambda>(ip, port).
            modS (\<lambda>w. w\<lparr>w_nat_test := snd (NatTest_update_addr (w_nat_test w) (rk_index k) ip port)\<rparr>))
      | _ \<Rightarrow> retS ()))"

section \<open>The handler\<close>

definition server_ip_turn :: "conf \<Rightarrow> CurrentDeviceInfo \<Rightarrow> net_packet \<Rightarrow> (world, unit) cmd" where
  "server_ip_turn C d p =
     bindS (liftE (NetPacket_transport_protocol p)) (\<lambda>t. bindS (liftE (NetPacket_payload p)) (\<lambda>pl.
     (case IpTurnProtocol_of_u8 t of
        IpTurn_Ipv4 \<Rightarrow>
          bindS (liftE (bindE (IpV4Packet_new pl) (\<lambda>ipv4. bindE (IpV4Packet_protocol ipv4) (\<lambda>protocol.
            if protocol \<noteq> Ip_Icmp then Inr False
            else bindE (IpV4Packet_destination_ip ipv4) (\<lambda>dst.
              if dst \<noteq> cd_virtual_ip d then Inr False
              else bindE (IpV4Packet_payload ipv4) (\<lambda>ic. bindE (IcmpPacket_new ic) (\<lambda>icmp.
                bindE (IcmpPacket_kind icmp) (\<lambda>kind. Inr (kind = Ik_EchoReply))))))))) (\<lambda>reply.
          if reply then device_write C pl else retS ())
      | IpTurn_WGIpv4 \<Rightarrow> if bc_allow_wire_guard (cf_base C) then device_write C pl else retS ()
      | _ \<Rightarrow> retS ())))"

text \<open>That the packet does not come from the server's address is only logged.\<close>

definition server_handle :: "conf \<Rightarrow> CurrentDeviceInfo \<Rightarrow> RouteKey \<Rightarrow> net_packet \<Rightarrow> (world, unit) cmd" where
  "server_handle C d k p =
     bindS (liftE (NetPacket_source p)) (\<lambda>source.
     thenS (on_routes (\<lambda>t. update_read_time t (env_now (cf_env C)) source k))
     (bindS (liftE (NetPacket_protocol p)) (\<lambda>protocol. bindS (liftE (NetPacket_transport_protocol p)) (\<lambda>t.
     if protocol = Protocol_Error \<and> t = ErrorProtocol_to_u8 Error_NoKey then server_no_key C k
     else if protocol = Protocol_Service \<and> t = ServiceProtocol_to_u8 Service_HandshakeResponse then
       server_handshake_response C d k p
     else bindS (decryptS C (cf_server_cipher C) p) (\<lambda>p.
       bindS (liftE (NetPacket_protocol p)) (\<lambda>protocol.
       (case protocol of
          Protocol_Service \<Rightarrow> server_service C d k p
        | Protocol_Error \<Rightarrow> server_error C k p
        | Protocol_Control \<Rightarrow> server_control C d k p
        | Protocol_IpTurn \<Rightarrow> server_ip_turn C d p
        | _ \<Rightarrow> retS ())))))))"

end
