(* ===== verification/Recv_Handler.thy ===== *)
theory Recv_Handler
  imports Client_Handler Server_Handler Sample_World
begin

text \<open>
  Dispatch of received packets, \<^verbatim>\<open>vnt/src/handle/recv_data/mod.rs\<close>, and relaying for other peers,
  \<^verbatim>\<open>vnt/src/handle/recv_data/turn.rs\<close>.
\<close>

section \<open>Relaying\<close>

definition turn_handle :: "conf \<Rightarrow> RouteKey \<Rightarrow> net_packet \<Rightarrow> (world, unit) cmd" where
  "turn_handle C k p =
     bindS (liftE (NetPacket_incr_ttl p)) (\<lambda>(ttl, p).
     if ttl > 0 then
       bindS (liftE (NetPacket_is_gateway p)) (\<lambda>gateway.
       if gateway then retS ()
       else bindS (liftE (NetPacket_destination p)) (\<lambda>destination.
         bindS (getS (\<lambda>w. route_one (cx_route_table w) destination)) (\<lambda>found. (case found of
           None \<Rightarrow> retS ()
         | Some r \<Rightarrow>
             if r_addr r = rk_addr k then retS ()
             else if r_metric r \<le> ttl then send_by_key (cf_env C) p (Route_route_key r)
             else retS ()))))
     else retS ())"

section \<open>Dispatch\<close>

definition count_down :: "conf \<Rightarrow> net_packet \<Rightarrow> (world, unit) cmd" where
  "count_down C p = bindS (getS cx_down_meter) (\<lambda>down.
     (case down of None \<Rightarrow> retS ()
      | Some meter \<Rightarrow> bindS (liftE (NetPacket_source p)) (\<lambda>source.
          modS (\<lambda>w. w\<lparr>cx_down_meter := Some (add_traffic (env_now (cf_env C)) (env_now (cf_env C))
            (env_now (cf_env C)) source (of_nat (np_data_len p)) meter)\<rparr>))))"

definition for_self :: "CurrentDeviceInfo \<Rightarrow> ipv4 \<Rightarrow> bool" where
  "for_self d dest = (dest = cd_virtual_ip d \<or> is_broadcast dest \<or> is_multicast dest \<or> dest = SELF_IP \<or>
     is_unspecified dest \<or> dest = cd_broadcast_ip d)"

definition recv_handle0 :: "conf \<Rightarrow> u8 list \<Rightarrow> u8 list \<Rightarrow> RouteKey \<Rightarrow> (world, unit) cmd" where
  "recv_handle0 C buf spare k =
     bindS (liftE (NetPacket_new buf)) (\<lambda>p.
     bindS (liftE (bindE (NetPacket_ttl p) (\<lambda>ttl. bindE (NetPacket_source_ttl p) (\<lambda>source_ttl.
       Inr (ttl = 0 \<or> source_ttl < ttl))))) (\<lambda>stale.
     if stale then retS ()
     else bindS (getS w_current_device) (\<lambda>d.
       bindS (liftE (NetPacket_destination p)) (\<lambda>dest.
       if for_self d dest then
         thenS (count_down C p)
         (bindS (liftE (NetPacket_is_gateway p)) (\<lambda>gateway.
           if gateway then server_handle C d k p
           else client_handle C d k p (NetPacket_unchecked spare)))
       else turn_handle C k p))))"

text \<open>
  Responses of STUN servers are taken out first; \<open>resolve\<close> is the name resolution and \<open>parse\<close> the STUN
  library. An error of a handler is logged.
\<close>

definition recv_handle ::
    "(string \<Rightarrow> socket_addr list res) \<Rightarrow> (u8 list \<Rightarrow> socket_addr option) \<Rightarrow> conf \<Rightarrow>
     u8 list \<Rightarrow> u8 list \<Rightarrow> RouteKey \<Rightarrow> (world, unit) cmd" where
  "recv_handle resolve parse C buf spare k =
     (if length buf < HEAD_LEN then retS ()
      else bindS (if ConnectProtocol_is_udp (rk_protocol k)
                  then updS (\<lambda>w. case recv_data resolve to_ipv4 parse (w_nat_test w) (rk_index k) (rk_addr k) buf of
                         (rs, t) \<Rightarrow> (rs = Inr True, w\<lparr>w_nat_test := t\<rparr>))
                  else retS False) (\<lambda>stun.
        if stun then retS () else ignoreS (recv_handle0 C buf spare k)))"

section \<open>What relaying does\<close>

lemma incr_ttl_ok:
  assumes "np_ok p"
  shows "\<exists>q. NetPacket_incr_ttl p = Inr (f_ttl (np_abs p) - 1, q) \<and> np_ok q \<and>
    np_abs q = (np_abs p)\<lparr>f_ttl := (f_ttl (np_abs p) - 1) AND 0x0F\<rparr> \<and> np_data_len q = np_data_len p \<and>
    length (np_buffer q) = length (np_buffer p)"
proof -
  from np_set(8)[OF assms, of "f_ttl (np_abs p) - 1"] obtain q where q: "NetPacket_set_ttl p (f_ttl (np_abs p) - 1) = Inr q"
    "np_ok q" "np_abs q = (np_abs p)\<lparr>f_ttl := (f_ttl (np_abs p) - 1) AND 0x0F\<rparr>" "np_data_len q = np_data_len p"
    "length (np_buffer q) = length (np_buffer p)" by (rule np_updatesE)
  then have "NetPacket_incr_ttl p = Inr (f_ttl (np_abs p) - 1, q)"
    by (simp add: NetPacket_incr_ttl_def np_get[OF assms] Let_def)
  with q(2-) show ?thesis by blast
qed

text \<open>What a relayed packet is: the received one with the ttl one lower.\<close>

definition relays_as :: "net_packet \<Rightarrow> net_packet \<Rightarrow> bool" where
  "relays_as p q \<longleftrightarrow> np_ok q \<and> np_data_len q = np_data_len p \<and>
     np_abs q = (np_abs p)\<lparr>f_ttl := f_ttl (np_abs p) - 1\<rparr>"

lemma ttl_pred:
  assumes "0 < f_ttl (np_abs p)"
  shows "(f_ttl (np_abs p) - 1) AND 0x0F = f_ttl (np_abs p) - 1"
    "unat (f_ttl (np_abs p) - 1) = unat (f_ttl (np_abs p)) - 1"
proof -
  let ?x = "f_ttl (np_abs p)"
  have "1 \<le> ?x" using assms by (simp add: word_le_nat_alt word_less_nat_alt)
  then show u: "unat (?x - 1) = unat ?x - 1" by (simp add: unat_sub)
  have "unat ?x < 16" using f_ttl_less[of p] by (simp add: word_less_nat_alt)
  then have "unat (?x - 1) < 2 ^ 4" using u by simp
  then have "take_bit 4 (?x - 1) = ?x - 1"
    by (metis bintr_uint mask_nat_def take_bit_nat_eq_self unsigned_take_bit_eq unsigned_word_eqI)
  then show "(?x - 1) AND 0x0F = ?x - 1" by (simp add: take_bit_eq_mask mask_eq_exp_minus_1)
qed

lemma incr_ttl_relays:
  assumes "np_ok p" "0 < f_ttl (np_abs p)"
  shows "\<exists>q. NetPacket_incr_ttl p = Inr (f_ttl (np_abs p) - 1, q) \<and> relays_as p q"
  using incr_ttl_ok[OF assms(1)] ttl_pred[OF assms(2)] by (auto simp: relays_as_def)

lemma turn_handle_cases:
  assumes "np_ok p" "0 < f_ttl (np_abs p)"
  obtains "turn_handle C k p w = (Inr (), w)"
  | q r where "relays_as p q" "0 < f_ttl (np_abs p) - 1" "\<not> f_gateway (np_abs p)"
      "route_one (cx_route_table w) (f_destination (np_abs p)) = Some r" "r_addr r \<noteq> rk_addr k"
      "r_metric r \<le> f_ttl (np_abs p) - 1"
      "turn_handle C k p w = send_by_key (cf_env C) q (Route_route_key r) w"
proof -
  obtain q where q: "NetPacket_incr_ttl p = Inr (f_ttl (np_abs p) - 1, q)" "relays_as p q"
    using incr_ttl_relays[OF assms] by blast
  then have ok: "np_ok q" and a: "f_gateway (np_abs q) = f_gateway (np_abs p)"
    "f_destination (np_abs q) = f_destination (np_abs p)" by (simp_all add: relays_as_def)
  show thesis
  proof (cases "0 < f_ttl (np_abs p) - 1 \<and> \<not> f_gateway (np_abs p)")
    case False
    then have "turn_handle C k p w = (Inr (), w)"
      using q(1) np_get[OF ok] a by (auto simp: turn_handle_def)
    then show ?thesis by (rule that(1))
  next
    case True
    then have t: "turn_handle C k p w = (case route_one (cx_route_table w) (f_destination (np_abs p)) of
           None \<Rightarrow> (Inr (), w)
         | Some r \<Rightarrow> if r_addr r = rk_addr k then (Inr (), w)
             else if r_metric r \<le> f_ttl (np_abs p) - 1 then send_by_key (cf_env C) q (Route_route_key r) w
             else (Inr (), w))"
      using q(1) np_get[OF ok] a by (simp add: turn_handle_def split: option.splits)
    show ?thesis
    proof (cases "route_one (cx_route_table w) (f_destination (np_abs p))")
      case None
      with t that(1) show ?thesis by simp
    next
      case (Some r)
      with t True q(2) that show ?thesis by (simp split: if_splits)
    qed
  qed
qed

lemma one_or_no_call:
  assumes "np_ok q" "send_by_key E q k w = (res, w')"
  shows "\<exists>new m d. w' = w\<lparr>cx_sent := cx_sent w @ new, cx_up_meter := m, cx_draws := d\<rparr> \<and> length new \<le> 1 \<and>
    (\<forall>(x, o') \<in> set new. send_bytes x = wire q \<and> send_target x = rk_addr k)"
proof -
  have "sends w (\<lambda>n. n = [] \<or> (\<exists>o'. one_call (wire q) (rk_addr k) o' n)) (res, w')"
    using send_by_key_sends_to[OF assms(1), of w k E] assms(2) by (auto simp: sends_to_def sends_none elim!: sends_mono)
  then obtain new m d where n: "w' = w\<lparr>cx_sent := cx_sent w @ new, cx_up_meter := m, cx_draws := d\<rparr>"
    "new = [] \<or> (\<exists>o'. one_call (wire q) (rk_addr k) o' new)" by (auto simp: sends_def)
  then show ?thesis by (intro exI[of _ new] exI[of _ m] exI[of _ d]) (auto simp: one_call_def)
qed

text \<open>
  C16. Relaying a packet for another peer: at most one packet goes out, and then it is the received one with
  its ttl one lower and still positive and nothing else changed (in particular the encrypted payload), it is not a packet of
  the server, and it goes to the best route of the destination, which is not where it came from and not
  longer than the ttl allows. Nothing else of the state changes but the up meter.
\<close>

theorem relay_forwards_once:
  assumes "np_ok p" and "0 < f_ttl (np_abs p)" and "turn_handle C k p w = (res, w')"
  shows "\<exists>new m d. w' = w\<lparr>cx_sent := cx_sent w @ new, cx_up_meter := m, cx_draws := d\<rparr> \<and> length new \<le> 1 \<and>
    (\<forall>(x, o') \<in> set new. \<exists>q r. send_bytes x = take (np_data_len q) (np_buffer q) \<and> np_data_len q = np_data_len p \<and>
       np_ok q \<and> np_abs q = (np_abs p)\<lparr>f_ttl := f_ttl (np_abs p) - 1\<rparr> \<and>
       0 < f_ttl (np_abs p) - 1 \<and> \<not> f_gateway (np_abs p) \<and>
       route_one (cx_route_table w) (f_destination (np_abs p)) = Some r \<and>
       send_target x = r_addr r \<and> r_addr r \<noteq> rk_addr k \<and> r_metric r \<le> f_ttl (np_abs p) - 1)"
proof (rule turn_handle_cases[OF assms(1,2), of C k w])
  assume "turn_handle C k p w = (Inr (), w)"
  with assms(3) show ?thesis
    by (intro exI[of _ "[]"] exI[of _ "cx_up_meter w"] exI[of _ "cx_draws w"]) simp
next
  fix q r
  assume q: "relays_as p q" "0 < f_ttl (np_abs p) - 1" "\<not> f_gateway (np_abs p)"
      "route_one (cx_route_table w) (f_destination (np_abs p)) = Some r" "r_addr r \<noteq> rk_addr k"
      "r_metric r \<le> f_ttl (np_abs p) - 1"
      "turn_handle C k p w = send_by_key (cf_env C) q (Route_route_key r) w"
  then have "np_ok q" "send_by_key (cf_env C) q (Route_route_key r) w = (res, w')"
    using assms(3) by (simp_all add: relays_as_def)
  from one_or_no_call[OF this] obtain new m d where
    n: "w' = w\<lparr>cx_sent := cx_sent w @ new, cx_up_meter := m, cx_draws := d\<rparr>" "length new \<le> 1"
    "\<forall>(x, o') \<in> set new. send_bytes x = wire q \<and> send_target x = r_addr r"
    by (auto simp: Route_route_key_def)
  show ?thesis
    by (rule exI[of _ new], rule exI[of _ m], rule exI[of _ d], intro conjI n(1,2))
      (use n(3) q in \<open>fastforce simp: relays_as_def\<close>)
qed

text \<open>
  A chain of relays: each member hands on what it received and is not for itself. The states and
  configurations of the members are arbitrary, and so are the links between them.
\<close>

definition relayed :: "u8 list \<Rightarrow> u8 list \<Rightarrow> bool" where
  "relayed buf buf' \<longleftrightarrow> (\<exists>C spare k w x o' new.
     cx_sent (snd (recv_handle0 C buf spare k w)) = cx_sent w @ new \<and> (x, o') \<in> set new \<and> send_bytes x = buf' \<and>
     \<not> for_self (w_current_device w) (f_destination (np_abs (NetPacket_unchecked buf))))"

inductive relay_chain :: "nat \<Rightarrow> u8 list \<Rightarrow> u8 list \<Rightarrow> bool" where
  chain_none: "12 \<le> length b \<Longrightarrow> relay_chain 0 b b"
| chain_hop: "relay_chain n b b' \<Longrightarrow> relayed b' b'' \<Longrightarrow> relay_chain (Suc n) b b''"

abbreviation head_of :: "u8 list \<Rightarrow> np_fields" where
  "head_of b \<equiv> np_abs (NetPacket_unchecked b)"

lemma relayed_step:
  assumes "relayed b b'" "12 \<le> length b"
  shows "1 < f_ttl (head_of b) \<and> length b' = length b \<and> head_of b' = (head_of b)\<lparr>f_ttl := f_ttl (head_of b) - 1\<rparr>"
proof -
  obtain C spare k w x o' new where s: "cx_sent (snd (recv_handle0 C b spare k w)) = cx_sent w @ new" "(x, o') \<in> set new"
    "send_bytes x = b'" "\<not> for_self (w_current_device w) (f_destination (head_of b))"
    using assms(1) by (auto simp: relayed_def)
  let ?p = "NetPacket_unchecked b"
  have ok: "np_ok ?p" using assms(2) by (simp add: np_ok_def NetPacket_unchecked_def)
  have new: "NetPacket_new b = Inr ?p" using assms(2) by (simp add: NetPacket_new_Inr_iff NetPacket_unchecked_def)
  define stale where "stale \<longleftrightarrow> f_ttl (np_abs ?p) = 0 \<or> f_source_ttl (np_abs ?p) < f_ttl (np_abs ?p)"
  have "recv_handle0 C b spare k w = (if stale then (Inr (), w) else turn_handle C k ?p w)"
    using s(4) by (simp add: recv_handle0_def new np_get[OF ok] stale_def)
  with s(1,2) have t: "\<not> stale" "cx_sent (snd (turn_handle C k ?p w)) = cx_sent w @ new" by (auto split: if_splits)
  then have pos: "0 < f_ttl (np_abs ?p)" by (auto simp: stale_def word_gt_0)
  show ?thesis
  proof (rule turn_handle_cases[OF ok pos, of C k w])
    assume "turn_handle C k ?p w = (Inr (), w)"
    with t(2) s(2) show ?thesis by simp
  next
    fix q r assume q: "relays_as ?p q" "0 < f_ttl (np_abs ?p) - 1"
      "turn_handle C k ?p w = send_by_key (cf_env C) q (Route_route_key r) w"
    obtain res w' where k: "send_by_key (cf_env C) q (Route_route_key r) w = (res, w')" by fastforce
    have qok: "np_ok q" using q(1) by (simp add: relays_as_def)
    from one_or_no_call[OF qok k] obtain new' m d where "w' = w\<lparr>cx_sent := cx_sent w @ new', cx_up_meter := m, cx_draws := d\<rparr>"
      "\<forall>(x, o') \<in> set new'. send_bytes x = wire q" by blast
    with t(2) q(3) k s(2,3) have b': "b' = wire q" by auto
    have l: "length (wire q) = length b" using q(1) by (simp add: relays_as_def np_ok_def NetPacket_unchecked_def)
    have "head_of (wire q) = np_abs q"
      using qok np_abs_buffer_head[of "np_buffer q" "wire q" "np_data_len q" "np_data_len q"]
      by (cases q) (simp add: NetPacket_unchecked_def np_abs_def Let_def np_ok_def min_def drop_take)
    moreover have "1 < f_ttl (np_abs ?p)" using q(2) ttl_pred(2)[OF pos] by (simp add: word_less_nat_alt)
    ultimately show ?thesis using b' l q(1) by (simp add: relays_as_def)
  qed
qed

text \<open>
  C14. Relaying terminates, whatever the routes of the members are: a packet passes at most fourteen relays
  (one less than its ttl), and after them its source, destination, protocol and payload are
  what the sender wrote, so that the receiver reads from the two ttls how many relays there were.
\<close>

theorem relays_bounded:
  assumes "relay_chain n b b'"
  shows "n \<le> 14 \<and> n \<le> unat (f_ttl (head_of b)) - 1 \<and>
    head_of b' = (head_of b)\<lparr>f_ttl := f_ttl (head_of b) - of_nat n\<rparr>"
proof -
  have "n \<le> unat (f_ttl (head_of b)) - 1 \<and> 12 \<le> length b' \<and> head_of b' = (head_of b)\<lparr>f_ttl := f_ttl (head_of b) - of_nat n\<rparr>"
    using assms
  proof induction
    case (chain_hop n b b' b'')
    let ?t = "f_ttl (head_of b)"
    note step = relayed_step[OF chain_hop.hyps(2)]
    have t: "1 < ?t - of_nat n" using step chain_hop.IH by simp
    have "n < 16" using conjunct1[OF chain_hop.IH] f_ttl_less[of "NetPacket_unchecked b"] by (simp add: word_less_nat_alt)
    then have un: "unat (of_nat n :: u8) = n" by (simp add: unat_of_nat)
    have "of_nat n \<le> ?t" using conjunct1[OF chain_hop.IH] un by (simp add: word_le_nat_alt)
    then have "unat (?t - of_nat n) = unat ?t - n" using un by (simp add: unat_sub)
    with t have "Suc n \<le> unat ?t - 1" by (simp add: word_less_nat_alt)
    with step chain_hop.IH show ?case by (simp add: algebra_simps)
  qed simp
  then have "n \<le> unat (f_ttl (head_of b)) - 1" "head_of b' = (head_of b)\<lparr>f_ttl := f_ttl (head_of b) - of_nat n\<rparr>" by simp_all
  then show ?thesis using f_ttl_less[of "NetPacket_unchecked b"] by (simp add: word_less_nat_alt)
qed

section \<open>Instances\<close>

definition relay_bytes :: "u8 list" where
  "relay_bytes = [2, 4, 4, 0x33, 10, 26, 0, 9, 10, 26, 0, 3]"

definition relay_key :: RouteKey where
  "relay_key = \<lparr>rk_protocol = Conn_UDP, rk_index = 0, rk_addr = SockV4 5 6\<rparr>"

abbreviation relay_packet :: net_packet where
  "relay_packet \<equiv> NetPacket_unchecked relay_bytes"

lemma relay_packet_ok: "np_ok relay_packet"
  by (simp add: np_ok_def NetPacket_unchecked_def relay_bytes_def)

lemma relay_head: "f_ttl (np_abs relay_packet) = 3" "f_source_ttl (np_abs relay_packet) = 3"
  "f_destination (np_abs relay_packet) = sample_peer"
  "f_gateway (np_abs relay_packet) = False"
  by (simp_all add: np_abs_def Let_def NetPacket_unchecked_def relay_bytes_def sample_peer_def Ipv4Addr_new_def be32_def)

lemma relay_not_self: "\<not> for_self (w_current_device sample_world) sample_peer"
  by (simp add: for_self_def sample_world_def ContextInner.defs sample_device_def CurrentDeviceInfo_new_def sample_peer_def
   is_broadcast_def is_multicast_def SELF_IP_def is_unspecified_def Ipv4_BROADCAST_def Ipv4Addr_new_def be32_def)

lemma relay_sends: "\<exists>x r. turn_handle sample_conf relay_key relay_packet sample_world =
    (Inl r, sample_world\<lparr>cx_sent := [(x, Some WouldBlock)]\<rparr>) \<and> r \<noteq> Panic"
proof -
  obtain q where q: "NetPacket_incr_ttl relay_packet = Inr (2, q)" "relays_as relay_packet q"
    using incr_ttl_relays[OF relay_packet_ok] relay_head(1) by auto
  then have ok: "np_ok q" and a: "\<not> f_gateway (np_abs q)" "f_destination (np_abs q) = sample_peer"
    using relay_head by (simp_all add: relays_as_def)
  have w: "cx_route_table sample_world = cx_route_table sample_context" "cx_sent sample_world = []"
    "cx_main_len sample_world = 1" "cx_sub_len sample_world = 0"
    by (simp_all add: sample_world_def sample_context_def ContextInner.defs)
  have r: "route_one (cx_route_table sample_context) sample_peer = Some sample_route"
    by (simp add: sample_context_def route_one_def rt_get_def)
  show ?thesis
    using q(1) np_get[OF ok] a w r np_get_buffer[OF ok]
    by (simp add: turn_handle_def relay_key_def sample_route_def Route_route_key_def send_by_key_def thenS_eq
      os_send_def sample_conf_def sample_env_def Let_def) blast
qed

lemma relay_forwards_once_witness:
  "\<exists>w' x o'. snd (turn_handle sample_conf relay_key relay_packet sample_world) = w' \<and> cx_sent w' = [(x, o')] \<and>
     (\<exists>q. send_bytes x = take (np_data_len q) (np_buffer q) \<and> f_ttl (np_abs q) = 2)"
proof -
  obtain x r where t: "turn_handle sample_conf relay_key relay_packet sample_world =
      (Inl r, sample_world\<lparr>cx_sent := [(x, Some WouldBlock)]\<rparr>)" using relay_sends by blast
  have "0 < f_ttl (np_abs relay_packet)" using relay_head by simp
  from relay_forwards_once[OF relay_packet_ok this t] t relay_head show ?thesis
    by (auto simp: sample_world_def sample_context_def ContextInner.defs)
qed

text \<open>The bytes that the sample member relays, as one link of a chain.\<close>

lemma relays_bounded_witness:
  "\<exists>b'. relay_chain 1 relay_bytes b' \<and> f_ttl (head_of b') = 2"
proof -
  obtain x r where t: "turn_handle sample_conf relay_key relay_packet sample_world =
      (Inl r, sample_world\<lparr>cx_sent := [(x, Some WouldBlock)]\<rparr>)" using relay_sends by blast
  have new: "NetPacket_new relay_bytes = Inr relay_packet"
    by (simp add: NetPacket_new_Inr_iff NetPacket_unchecked_def relay_bytes_def)
  have "recv_handle0 sample_conf relay_bytes [] relay_key sample_world =
      turn_handle sample_conf relay_key relay_packet sample_world"
    using relay_not_self by (simp add: recv_handle0_def new np_get[OF relay_packet_ok] relay_head)
  then have "relayed relay_bytes (send_bytes x)"
    unfolding relayed_def using t relay_not_self relay_head
    by (intro exI[of _ sample_conf] exI[of _ "[]"] exI[of _ relay_key] exI[of _ sample_world] exI[of _ x]
        exI[of _ "Some WouldBlock"] exI[of _ "[(x, Some WouldBlock)]"])
      (simp add: sample_world_def sample_context_def ContextInner.defs)
  then have c: "relay_chain 1 relay_bytes (send_bytes x)"
    using chain_hop[OF chain_none] by (simp add: relay_bytes_def)
  from relays_bounded[OF this] relay_head have "f_ttl (head_of (send_bytes x)) = 2" by simp
  with c show ?thesis by blast
qed

end
