(* ===== verification/Tun_Handler.thy ===== *)
theory Tun_Handler
  imports Client_Handler Sample_World
begin

text \<open>
  Packets that leave: what the virtual network device delivers (\<^verbatim>\<open>vnt/src/handle/tun_tap/tun_handler.rs\<close>
  and the reading loops of \<^verbatim>\<open>unix.rs\<close> and \<^verbatim>\<open>windows.rs\<close>) and what an application sends itself
  (\<^verbatim>\<open>vnt/src/channel/sender.rs\<close>).
\<close>

section \<open>Shared pieces\<close>

text \<open>The header of a data packet.\<close>

definition ip_turn_head :: "ipv4 \<Rightarrow> ipv4 \<Rightarrow> net_packet \<Rightarrow> net_packet res" where
  "ip_turn_head src dest = np_seq
     [NetPacket_set_default_version, \<lambda>p. NetPacket_set_protocol p Protocol_IpTurn,
      \<lambda>p. NetPacket_set_transport_protocol p (IpTurnProtocol_to_u8 IpTurn_Ipv4), \<lambda>p. NetPacket_first_set_ttl p 6,
      \<lambda>p. NetPacket_set_source p src, \<lambda>p. NetPacket_set_destination p dest]"

text \<open>WireGuard peers are reached through the server, which must be able to read the packet.\<close>

definition wg_copy :: "net_packet \<Rightarrow> net_packet res" where
  "wg_copy p =
     bindE (NetPacket_new0 (np_data_len p) (replicate 65536 0)) (\<lambda>c.
     bindE (NetPacket_source p) (\<lambda>source. bindE (NetPacket_destination p) (\<lambda>destination. bindE (NetPacket_payload p) (\<lambda>pl.
       np_seq
         [NetPacket_set_default_version, \<lambda>p. NetPacket_set_protocol p Protocol_IpTurn,
          \<lambda>p. NetPacket_set_transport_protocol p (IpTurnProtocol_to_u8 IpTurn_WGIpv4), \<lambda>p. NetPacket_first_set_ttl p 6,
          \<lambda>p. NetPacket_set_source p source, \<lambda>p. NetPacket_set_destination p destination,
          \<lambda>p. NetPacket_set_gateway_flag p True, \<lambda>p. NetPacket_set_payload p pl] c))))"

definition send_to_wg_broadcast :: "conf \<Rightarrow> net_packet \<Rightarrow> CurrentDeviceInfo \<Rightarrow> (world, unit) cmd" where
  "send_to_wg_broadcast C p d =
     bindS (liftE (wg_copy p)) (\<lambda>c.
     bindS (encryptS C (cf_server_cipher C) c) (\<lambda>c. send_default (cf_env C) c (cd_connect_server d)))"

definition send_to_wg :: "conf \<Rightarrow> net_packet \<Rightarrow> CurrentDeviceInfo \<Rightarrow> (world, unit) cmd" where
  "send_to_wg C p d =
     bindS (liftE (np_seq [\<lambda>p. NetPacket_set_transport_protocol p (IpTurnProtocol_to_u8 IpTurn_WGIpv4),
       \<lambda>p. NetPacket_set_gateway_flag p True] p)) (\<lambda>p.
     bindS (encryptS C (cf_server_cipher C) p) (\<lambda>p. send_default (cf_env C) p (cd_connect_server d)))"

definition exists_wg :: "world \<Rightarrow> bool" where
  "exists_wg w \<longleftrightarrow> list_ex (\<lambda>(_, v). PeerDeviceStatus_is_online (pd_status v) \<and> pd_wireguard v) (w_devices w)"

text \<open>Compress into the spare buffer; the compressed packet gets a new header.\<close>

definition compressed :: "conf \<Rightarrow> ipv4 \<Rightarrow> ipv4 \<Rightarrow> net_packet \<Rightarrow> net_packet \<Rightarrow> net_packet res" where
  "compressed C src dest p out1 =
     bindE (Compressor_compress (cf_codecs C) (cf_compressor C) p out1) (\<lambda>(done, out2).
       if done then ip_turn_head src dest out2 else Inr p)"

section \<open>Broadcast\<close>

text \<open>
  Direct sends first: the result is the peers reached, whether some peer needs the server and whether there
  were too many of them. The check \<open>index > MAX_COUNT\<close> lets nine of them pass.
\<close>

definition MAX_COUNT :: nat where "MAX_COUNT = 8"

fun broadcast_loop ::
    "conf \<Rightarrow> net_packet \<Rightarrow> nat \<Rightarrow> ipv4 list \<Rightarrow> ipv4 list \<Rightarrow> bool \<Rightarrow> (world, ipv4 list \<times> bool \<times> bool) cmd" where
  "broadcast_loop C p index [] p2p_ips relay = retS (p2p_ips, relay, False)"
| "broadcast_loop C p index (peer_ip # peers) p2p_ips relay =
     (if index > MAX_COUNT then retS (p2p_ips, relay, True)
      else bindS (getS (\<lambda>w. route_one_p2p (cx_route_table w) peer_ip)) (\<lambda>found. (case found of
        None \<Rightarrow> broadcast_loop C p (index + 1) peers p2p_ips True
      | Some r \<Rightarrow>
          bindS (tryS (send_by_key (cf_env C) p (Route_route_key r))) (\<lambda>sent. (case sent of
            Inr _ \<Rightarrow> broadcast_loop C p (index + 1) peers (p2p_ips @ [peer_ip]) relay
          | Inl _ \<Rightarrow> broadcast_loop C p (index + 1) peers p2p_ips True)))))"

text \<open>The packet for the server tells whom it need not serve any more.\<close>

definition broadcast_packet :: "net_packet \<Rightarrow> ipv4 list \<Rightarrow> net_packet res" where
  "broadcast_packet p p2p_ips =
     bindE (zero_packet (12 + 1 + length p2p_ips * 4 + np_data_len p + ENCRYPTION_RESERVED)) (\<lambda>s.
     bindE (NetPacket_source p) (\<lambda>source. bindE (NetPacket_destination p) (\<lambda>destination.
     bindE (NetPacket_buffer p) (\<lambda>buffer.
       np_seq
         [NetPacket_set_default_version, \<lambda>p. NetPacket_set_gateway_flag p True, \<lambda>p. NetPacket_first_set_ttl p MAX_TTL,
          \<lambda>p. NetPacket_set_source p source, \<lambda>p. NetPacket_set_destination p destination,
          \<lambda>p. NetPacket_set_protocol p Protocol_IpTurn,
          \<lambda>p. NetPacket_set_transport_protocol p (IpTurnProtocol_to_u8 IpTurn_Ipv4Broadcast),
          \<lambda>p. mapE fst (in_payload p (\<lambda>pl. bindE (BroadcastPacket_set_address pl p2p_ips) (\<lambda>pl.
            bindE (BroadcastPacket_set_data pl buffer) (\<lambda>pl. Inr (pl, ())))))] s))))"

definition broadcast_list :: "world \<Rightarrow> ipv4 list" where
  "broadcast_list w = map pd_virtual_ip
     (filter (\<lambda>info. \<not> pd_wireguard info \<and> PeerDeviceStatus_is_online (pd_status info)) (map snd (w_devices w)))"

definition broadcast :: "conf \<Rightarrow> net_packet \<Rightarrow> CurrentDeviceInfo \<Rightarrow> (world, unit) cmd" where
  "broadcast C p d = bindS (getS broadcast_list) (\<lambda>peers.
     if peers = [] then retS ()
     else bindS (broadcast_loop C p 0 peers [] False) (\<lambda>(p2p_ips, relay, overflow).
       if \<not> overflow \<and> \<not> relay then retS ()
       else if ConnectStatus_offline (cd_status d) then retS ()
       else if p2p_ips = [] then send_default (cf_env C) p (cd_connect_server d)
       else bindS (liftE (broadcast_packet p p2p_ips)) (\<lambda>s.
         bindS (encryptS C (cf_server_cipher C) s) (\<lambda>s. send_default (cf_env C) s (cd_connect_server d)))))"

section \<open>From the device\<close>

definition raw_write :: "conf \<Rightarrow> u8 list \<Rightarrow> (world, unit) cmd" where
  "raw_write C buf = bindS (getS w_events) (\<lambda>es. thenS (liftE (cf_tun_write C es buf)) (emit (Ev_tun buf)))"

text \<open>A packet to oneself: an echo request is answered, anything else dropped.\<close>

definition tun_icmp :: "conf \<Rightarrow> u8 list \<Rightarrow> (world, unit) cmd" where
  "tun_icmp C ipv4 =
     bindS (liftE (bindE (IpV4Packet_protocol ipv4) (\<lambda>protocol.
       if protocol \<noteq> Ip_Icmp then Inr None
       else bindE (IpV4Packet_payload ipv4) (\<lambda>pl. bindE (IcmpPacket_new pl) (\<lambda>icmp.
         bindE (IcmpPacket_kind icmp) (\<lambda>kind.
         if kind \<noteq> Ik_EchoRequest then Inr None
         else bindE (IpV4Packet_source_ip ipv4) (\<lambda>src. bindE (IpV4Packet_destination_ip ipv4) (\<lambda>dst.
           mapE Some (echo_reply C dst src ipv4))))))))) (\<lambda>reply. (case reply of
       None \<Rightarrow> retS () | Some ipv4 \<Rightarrow> raw_write C ipv4))"

text \<open>
  Where a packet for \<open>dest\<close> goes: within the network to \<open>dest\<close>, outside to the peer that the configured routes
  name, unless it is this device.
\<close>

definition tun_route :: "conf \<Rightarrow> CurrentDeviceInfo \<Rightarrow> ipv4 \<Rightarrow> ipv4 \<Rightarrow> ipv4 option" where
  "tun_route C d src dest =
     (if not_in_network d dest then
        (case ExternalRoute_route (cf_ip_route C) dest of
           Some r_dest_ip \<Rightarrow> if r_dest_ip = src then None else Some r_dest_ip
         | None \<Rightarrow> None)
      else Some dest)"

text \<open>The last part, for a packet that is compressed, encrypted for the peers and sent.\<close>

definition tun_send :: "conf \<Rightarrow> CurrentDeviceInfo \<Rightarrow> ipv4 \<Rightarrow> ipv4 \<Rightarrow> bool \<Rightarrow> net_packet \<Rightarrow> net_packet \<Rightarrow> (world, unit) cmd" where
  "tun_send C d src dest is_bc p out1 =
     bindS (liftE (compressed C src dest p out1)) (\<lambda>p.
     bindS (encryptS C (cf_client_cipher C) p) (\<lambda>p.
       if is_bc then broadcast C p d
       else send_ipv4_by_id (cf_env C) p dest (cd_connect_server d) (ConnectStatus_online (cd_status d))))"

definition tun_wg :: "conf \<Rightarrow> CurrentDeviceInfo \<Rightarrow> ipv4 \<Rightarrow> ipv4 \<Rightarrow> bool \<Rightarrow> net_packet \<Rightarrow> net_packet \<Rightarrow> (world, unit) cmd" where
  "tun_wg C d src dest is_bc p out1 =
     (if \<not> bc_allow_wire_guard (cf_base C) then tun_send C d src dest is_bc p out1
      else if is_bc then
        bindS (getS exists_wg) (\<lambda>wg.
          thenS (whenS wg (send_to_wg_broadcast C p d)) (tun_send C d src dest is_bc p out1))
      else bindS (getS (\<lambda>w. find_device w dest)) (\<lambda>peer. (case peer of
        None \<Rightarrow> tun_send C d src dest is_bc p out1
      | Some info \<Rightarrow>
          if PeerDeviceStatus_is_offline (pd_status info) then retS ()
          else if pd_wireguard info then send_to_wg C p d
          else tun_send C d src dest is_bc p out1)))"

definition tun_gateway :: "conf \<Rightarrow> CurrentDeviceInfo \<Rightarrow> IpProtocol \<Rightarrow> net_packet \<Rightarrow> (world, unit) cmd" where
  "tun_gateway C d protocol p =
     (if protocol = Ip_Icmp then
        bindS (liftE (NetPacket_set_gateway_flag p True)) (\<lambda>p.
        bindS (encryptS C (cf_server_cipher C) p) (\<lambda>p. send_default (cf_env C) p (cd_connect_server d)))
      else retS ())"

text \<open>Multicast and broadcast leave as a broadcast.\<close>

definition tun_dispatch :: "conf \<Rightarrow> CurrentDeviceInfo \<Rightarrow> ipv4 \<Rightarrow> ipv4 \<Rightarrow> net_packet \<Rightarrow> net_packet \<Rightarrow> (world, unit) cmd" where
  "tun_dispatch C d src dest p out1 =
     (if \<not> is_multicast dest \<and> \<not> is_broadcast dest \<and> cd_broadcast_ip d \<noteq> dest then
        (case tun_route C d src dest of
           None \<Rightarrow> retS ()
         | Some to \<Rightarrow>
             bindS (liftE (if not_in_network d dest then NetPacket_set_destination p to else Inr p)) (\<lambda>p.
             bindS (getS w_ip_proxy) (\<lambda>proxy.
             bindS (liftE (if cf_use_ip_proxy C then
                 mapE fst (in_payload p (\<lambda>pl. bindE (IpV4Packet_new pl) (\<lambda>ipv4.
                   bindE (IpProxyMap_send_handle (cf_keeps_tail C) ipv4 proxy) (\<lambda>ipv4. Inr (ipv4, ()))))) else Inr p)) (\<lambda>p.
             bindS (liftE (if is_multicast to then NetPacket_set_destination p Ipv4_BROADCAST else Inr p)) (\<lambda>p.
             let dest_ip = (if is_multicast to then Ipv4_BROADCAST else to) in
               tun_wg C d src dest_ip (is_broadcast dest_ip \<or> cd_broadcast_ip d = dest_ip) p out1)))))
      else if is_multicast dest then
        bindS (liftE (NetPacket_set_destination p Ipv4_BROADCAST)) (\<lambda>p. tun_wg C d src Ipv4_BROADCAST True p out1)
      else tun_wg C d src dest True p out1)"

definition tun_handle :: "conf \<Rightarrow> u8 list \<Rightarrow> nat \<Rightarrow> u8 list \<Rightarrow> CurrentDeviceInfo \<Rightarrow> (world, unit) cmd" where
  "tun_handle C buf data_len spare d =
     bindS (liftE (slice buf 12 data_len)) (\<lambda>raw.
     bindS (tryS (liftE (IpV4Packet_new raw))) (\<lambda>parsed. (case parsed of
       Inl _ \<Rightarrow> retS ()
     | Inr ipv4 \<Rightarrow>
         bindS (liftE (IpV4Packet_source_ip ipv4)) (\<lambda>src.
         bindS (liftE (IpV4Packet_destination_ip ipv4)) (\<lambda>dest.
         if src = dest then tun_icmp C ipv4
         else
           bindS (liftE (IpV4Packet_protocol ipv4)) (\<lambda>protocol.
           thenS (if protocol = Ip_Icmp then bindS (liftE (IpV4Packet_payload ipv4)) (\<lambda>_. retS ()) else retS ())
           (bindS (liftE (bindE (NetPacket_new0 data_len buf) (ip_turn_head src dest))) (\<lambda>p.
             if dest = cd_virtual_gateway d then tun_gateway C d protocol p
             else tun_dispatch C d src dest p (NetPacket_unchecked spare)))))))))"

text \<open>One packet read into the reused buffer: the header is reset first, and errors are logged.\<close>

definition tun_read :: "conf \<Rightarrow> u8 list \<Rightarrow> nat \<Rightarrow> u8 list \<Rightarrow> (world, unit) cmd" where
  "tun_read C buf len spare = bindS (getS w_current_device) (\<lambda>d.
     ignoreS (tun_handle C (replicate 12 0 @ drop 12 buf) len spare d))"

section \<open>From the application\<close>

definition ip_sender_dest :: "conf \<Rightarrow> ipv4 \<Rightarrow> ipv4" where
  "ip_sender_dest C dest_ip =
     (let to = (case ExternalRoute_route (cf_ip_route C) dest_ip of Some v \<Rightarrow> v | None \<Rightarrow> dest_ip) in
      if is_multicast to then Ipv4_BROADCAST else to)"

definition send_ip_plain :: "conf \<Rightarrow> CurrentDeviceInfo \<Rightarrow> ipv4 \<Rightarrow> net_packet \<Rightarrow> u8 list \<Rightarrow> (world, unit) cmd" where
  "send_ip_plain C d dest_ip p auxiliary_buf =
     bindS (liftE (bindE (NetPacket_new auxiliary_buf) (compressed C (cd_virtual_ip d) dest_ip p))) (\<lambda>p.
     bindS (encryptS C (cf_client_cipher C) p) (\<lambda>p.
       if is_broadcast dest_ip \<or> dest_ip = cd_broadcast_ip d then send_default (cf_env C) p (cd_connect_server d)
       else if not_in_network d dest_ip then retS ()
       else send_ipv4_by_id (cf_env C) p dest_ip (cd_connect_server d) (ConnectStatus_online (cd_status d))))"

definition send_ip :: "conf \<Rightarrow> u8 list \<Rightarrow> nat \<Rightarrow> u8 list \<Rightarrow> ipv4 \<Rightarrow> (world, unit) cmd" where
  "send_ip C buf data_len auxiliary_buf dest = bindS (getS w_current_device) (\<lambda>d.
     if is_unspecified (cd_virtual_ip d) then retS ()
     else
       let dest_ip = ip_sender_dest C dest in
       bindS (liftE (bindE (NetPacket_new0 data_len buf) (ip_turn_head (cd_virtual_ip d) dest_ip))) (\<lambda>p.
       if \<not> bc_allow_wire_guard (cf_base C) then send_ip_plain C d dest_ip p auxiliary_buf
       else if is_broadcast dest_ip \<or> dest_ip = cd_broadcast_ip d then
         bindS (getS exists_wg) (\<lambda>wg.
           thenS (whenS wg (send_to_wg_broadcast C p d)) (send_ip_plain C d dest_ip p auxiliary_buf))
       else bindS (getS (\<lambda>w. find_device w dest_ip)) (\<lambda>peer. (case peer of
         Some info \<Rightarrow>
           if pd_wireguard info then
             (if PeerDeviceStatus_is_offline (pd_status info) then retS () else send_to_wg C p d)
           else send_ip_plain C d dest_ip p auxiliary_buf
       | None \<Rightarrow> send_ip_plain C d dest_ip p auxiliary_buf))))"

text \<open>Queues between threads: the outcome of the channel's \<open>try_send\<close> as an error of the program.\<close>

datatype try_send = Sent | Full | Disconnected

definition try_add_socket :: "try_send \<Rightarrow> unit res \<Rightarrow> unit res" where
  "try_add_socket sent notify_add = (case sent of
     Sent \<Rightarrow> notify_add
   | Full \<Rightarrow> Inl (Io WouldBlock '''')
   | Disconnected \<Rightarrow> Inl (Io WriteZero ''''))"

definition PacketSender_try_send :: "try_send \<Rightarrow> unit res" where
  "PacketSender_try_send sent = (case sent of
     Sent \<Rightarrow> Inr ()
   | Full \<Rightarrow> Inl (Io WouldBlock ''channel full'')
   | Disconnected \<Rightarrow> Inl (Io ConnectionRefused ''channel closed''))"

section \<open>Whom a broadcast reaches\<close>

text \<open>A peer that got the packet directly, as the log of the sends shows.\<close>

definition direct :: "RouteTable \<Rightarrow> net_packet \<Rightarrow> sent \<Rightarrow> ipv4 \<Rightarrow> bool" where
  "direct t p new ip \<longleftrightarrow> (\<exists>x r. (x, None) \<in> set new \<and> route_one_p2p t ip = Some r \<and>
     send_target x = r_addr r \<and> send_bytes x = wire p)"

lemma direct_append: "direct t p new ip \<Longrightarrow> direct t p (new @ rest) ip" "direct t p rest ip \<Longrightarrow> direct t p (new @ rest) ip"
  by (auto simp: direct_def)

lemma send_by_key_log:
  assumes "np_ok p" "send_by_key E p k w = (res, w')"
  shows "\<exists>new. cx_sent w' = cx_sent w @ new \<and> length new \<le> 1 \<and> cx_route_table w' = cx_route_table w \<and> w_devices w' = w_devices w \<and>
    res \<noteq> Inl Panic \<and> (res = Inr () \<longrightarrow> (\<exists>x. new = [(x, None)] \<and> send_bytes x = wire p \<and> send_target x = rk_addr k))"
  using send_by_key_sends_to[OF assms(1), of w k E] assms(2)
  by (fastforce simp: sends_to_def sends_def one_call_def)

lemma broadcast_loop_log:
  assumes "np_ok p" "broadcast_loop C p i peers reached relay w = (r, w')"
  shows "\<exists>new rest relay' overflow. r = Inr (reached @ rest, relay', overflow) \<and> cx_sent w' = cx_sent w @ new \<and>
    length new \<le> 9 - i \<and> cx_route_table w' = cx_route_table w \<and> set rest \<subseteq> set peers \<and>
    (\<forall>ip \<in> set rest. direct (cx_route_table w) p new ip) \<and> (relay \<longrightarrow> relay') \<and>
    (\<not> overflow \<and> \<not> relay' \<longrightarrow> set peers \<subseteq> set rest)"
  using assms(2)
proof (induction peers arbitrary: i reached relay w)
  case Nil
  then show ?case by auto
next
  case (Cons ip peers)
  show ?case
  proof (cases "i > MAX_COUNT")
    case True
    with Cons.prems show ?thesis by auto
  next
    case False
    then have i: "i \<le> 8" by (simp add: MAX_COUNT_def)
    show ?thesis
    proof (cases "route_one_p2p (cx_route_table w) ip")
      case None
      with Cons.prems False have "broadcast_loop C p (i + 1) peers reached True w = (r, w')" by simp
      from Cons.IH[OF this] show ?thesis by fastforce
    next
      case (Some rt)
      obtain res w1 where k: "send_by_key (cf_env C) p (Route_route_key rt) w = (res, w1)" by fastforce
      from send_by_key_log[OF assms(1) k] obtain n1 where n1: "cx_sent w1 = cx_sent w @ n1" "length n1 \<le> 1"
        "cx_route_table w1 = cx_route_table w" "res \<noteq> Inl Panic"
        "res = Inr () \<longrightarrow> (\<exists>x. n1 = [(x, None)] \<and> send_bytes x = wire p \<and> send_target x = r_addr rt)"
        by (auto simp: Route_route_key_def)
      show ?thesis
      proof (cases res)
        case (Inr u)
        then have d: "direct (cx_route_table w) p n1 ip" using n1(5) Some by (auto simp: direct_def)
        have "broadcast_loop C p (i + 1) peers (reached @ [ip]) relay w1 = (r, w')"
          using Cons.prems False Some k Inr by (simp add: bindS_def tryS_def)
        from Cons.IH[OF this] obtain n2 rest relay' overflow where n2: "r = Inr ((reached @ [ip]) @ rest, relay', overflow)"
          "cx_sent w' = cx_sent w1 @ n2" "length n2 \<le> 9 - (i + 1)" "cx_route_table w' = cx_route_table w1" "set rest \<subseteq> set peers"
          "\<forall>ip \<in> set rest. direct (cx_route_table w1) p n2 ip" "relay \<longrightarrow> relay'"
          "\<not> overflow \<and> \<not> relay' \<longrightarrow> set peers \<subseteq> set rest" by blast
        show ?thesis
          by (rule exI[of _ "n1 @ n2"], rule exI[of _ "ip # rest"], rule exI[of _ relay'], rule exI[of _ overflow])
            (use n1 n2 i d direct_append in auto)
      next
        case (Inl e)
        have "broadcast_loop C p (i + 1) peers reached True w1 = (r, w')"
          using Cons.prems False Some k Inl n1(4) by (simp add: bindS_def tryS_def)
        from Cons.IH[OF this] obtain n2 rest relay' overflow where n2: "r = Inr (reached @ rest, relay', overflow)"
          "cx_sent w' = cx_sent w1 @ n2" "length n2 \<le> 9 - (i + 1)" "cx_route_table w' = cx_route_table w1" "set rest \<subseteq> set peers"
          "\<forall>ip \<in> set rest. direct (cx_route_table w1) p n2 ip" "relay'" by blast
        show ?thesis
          by (rule exI[of _ "n1 @ n2"], rule exI[of _ rest], rule exI[of _ relay'], rule exI[of _ overflow])
            (use n1 n2 i direct_append in auto)
      qed
    qed
  qed
qed

lemma send_default_accepted:
  fixes w :: "'a ContextInner_scheme"
  assumes "send_default E q a w = (Inr (), w')"
  shows "\<exists>x. NetPacket_buffer q = Inr (send_bytes x) \<and> send_target x = a \<and> cx_sent w' = cx_sent w @ [(x, None)]"
proof -
  have os: "\<exists>y. cx_sent s' = cx_sent s @ [(y, None)] \<and> y = x" if "os_send E x s = (Inr (), s')" for x and s s' ::
    "'a ContextInner_scheme"
    using that by (auto simp: os_send_def Let_def split: option.splits)
  have c: "cx_sent s' = cx_sent s" if "count_up E q s = (r, s')" for r and s s' ::
    "'a ContextInner_scheme"
    using that by (auto simp: count_up_def bindS_def split: option.splits sum.splits)
  show ?thesis using assms
    by (auto simp: send_default_def thenS_eq context_send_tcp_def send_main_udp_def bindS_def
      split: sum.splits if_splits prod.splits dest!: os c)
qed


definition open_conf :: conf where
  "open_conf = sample_conf\<lparr>cf_env := sample_env\<lparr>env_os := \<lambda>_ _. None\<rparr>\<rparr>"


end
