(* ===== verification/Maintain.thy ===== *)
theory Maintain
  imports Tun_Handler Server_Handler
begin

text \<open>
  The periodic tasks of \<^verbatim>\<open>vnt/src/handle/maintain\<close> and \<^verbatim>\<open>vnt/src/channel/idle.rs\<close>: heartbeats, probing for relays,
  expiry of routes, reconnection, hole punching, address requests, NAT detection and status reports. Each is
  one round; where the scheduler's delay depends on the round it is its result. Errors are logged.
\<close>

section \<open>Heartbeats\<close>

definition heartbeat_packet :: "conf \<Rightarrow> ipv4 \<Rightarrow> ipv4 \<Rightarrow> net_packet res" where
  "heartbeat_packet C src dest =
     bindE (zero_packet (12 + 4 + ENCRYPTION_RESERVED)) (np_seq
       [NetPacket_set_default_version, \<lambda>p. NetPacket_set_protocol p Protocol_Control,
        \<lambda>p. NetPacket_set_transport_protocol p (ControlProtocol_to_u8 Control_Ping), \<lambda>p. NetPacket_first_set_ttl p 5,
        \<lambda>p. NetPacket_set_source p src, \<lambda>p. NetPacket_set_destination p dest,
        \<lambda>p. mapE fst (in_payload p (\<lambda>pl. bindE (PingPacket_new pl) (\<lambda>ping.
          bindE (PingPacket_set_time ping (ucast (env_millis (cf_env C)))) (\<lambda>ping. Inr (ping, ())))))])"

definition heartbeat_packet_client :: "conf \<Rightarrow> ipv4 \<Rightarrow> ipv4 \<Rightarrow> (world, net_packet) cmd" where
  "heartbeat_packet_client C src dest =
     bindS (liftE (heartbeat_packet C src dest)) (encryptS C (cf_client_cipher C))"

definition heartbeat_packet_server :: "conf \<Rightarrow> ipv4 \<Rightarrow> ipv4 \<Rightarrow> (world, net_packet) cmd" where
  "heartbeat_packet_server C src dest = bindS (getS w_epoch) (\<lambda>epoch.
     bindS (liftE (bindE (heartbeat_packet C src dest) (np_seq
       [\<lambda>p. mapE fst (in_payload p (\<lambda>pl. bindE (PingPacket_new pl) (\<lambda>ping.
          bindE (PingPacket_set_epoch ping epoch) (\<lambda>ping. Inr (ping, ()))))),
        \<lambda>p. NetPacket_set_gateway_flag p True])))
     (encryptS C (cf_server_cipher C)))"

text \<open>Whether a command succeeded, as a value.\<close>

definition succeeds :: "(world, 'a) cmd \<Rightarrow> (world, bool) cmd" where
  "succeeds m = bindS (tryS m) (\<lambda>r. retS (case r of Inr _ \<Rightarrow> True | Inl _ \<Rightarrow> False))"

text \<open>Every route of a peer gets the ping, so that each is measured and kept alive.\<close>

definition heartbeat_routes :: "conf \<Rightarrow> CurrentDeviceInfo \<Rightarrow> bool \<Rightarrow> ipv4 \<times> Route list \<Rightarrow> (world, unit) cmd" where
  "heartbeat_routes C d is_send_gateway = (\<lambda>(dest_ip, routes).
     if CurrentDeviceInfo_is_gateway d dest_ip \<and> is_send_gateway then retS ()
     else ignoreS (bindS
       (if CurrentDeviceInfo_is_gateway d dest_ip
        then heartbeat_packet_server C (cd_virtual_ip d) (cd_virtual_gateway d)
        else heartbeat_packet_client C (cd_virtual_ip d) dest_ip) (\<lambda>p.
       forS (\<lambda>r. ignoreS (send_by_key (cf_env C) p (Route_route_key r))) routes)))"

text \<open>Online peers without any route are pinged through the server.\<close>

definition heartbeat_peer :: "conf \<Rightarrow> CurrentDeviceInfo \<Rightarrow> PeerDeviceInfo \<Rightarrow> (world, unit) cmd" where
  "heartbeat_peer C d peer =
     (if \<not> PeerDeviceStatus_is_online (pd_status peer) \<or> pd_wireguard peer then retS ()
      else if CurrentDeviceInfo_is_gateway d (pd_virtual_ip peer) then retS ()
      else if ConnectStatus_offline (cd_status d) then retS ()
      else bindS (getS (\<lambda>w. route_one (cx_route_table w) (pd_virtual_ip peer))) (\<lambda>found. (case found of
        Some _ \<Rightarrow> retS ()
      | None \<Rightarrow> ignoreS (bindS (heartbeat_packet_client C (cd_virtual_ip d) (pd_virtual_ip peer)) (\<lambda>p.
          send_default (cf_env C) p (cd_connect_server d))))))"

definition heartbeat0 :: "conf \<Rightarrow> (world, unit) cmd" where
  "heartbeat0 C = bindS (getS w_current_device) (\<lambda>d.
     bindS (succeeds (bindS (heartbeat_packet_server C (cd_virtual_ip d) (cd_virtual_gateway d)) (\<lambda>p.
       send_default (cf_env C) p (cd_connect_server d)))) (\<lambda>is_send_gateway.
     bindS (getS (\<lambda>w. route_table_all (cx_route_table w))) (\<lambda>table.
     thenS (forS (heartbeat_routes C d is_send_gateway) table)
     (bindS (getS (\<lambda>w. map snd (w_devices w))) (\<lambda>peers. forS (heartbeat_peer C d) peers)))))"

section \<open>Probing for relays\<close>

text \<open>Three direct peers get a ping for the peer; one with a route will relay it.\<close>

fun relay_probe :: "conf \<Rightarrow> CurrentDeviceInfo \<Rightarrow> net_packet \<Rightarrow> nat \<Rightarrow> (ipv4 \<times> Route) list \<Rightarrow> (world, unit) cmd" where
  "relay_probe C d p index [] = retS ()"
| "relay_probe C d p index ((ip, r) # routes) =
     (if CurrentDeviceInfo_is_gateway d ip then relay_probe C d p (index + 1) routes
      else thenS (ignoreS (send_by_key (cf_env C) p (Route_route_key r)))
        (if index \<ge> 2 then retS () else relay_probe C d p (index + 1) routes))"

text \<open>The list is shuffled again for every peer.\<close>

fun relay_peers ::
    "conf \<Rightarrow> ((ipv4 \<times> Route) list \<Rightarrow> (ipv4 \<times> Route) list) \<Rightarrow> CurrentDeviceInfo \<Rightarrow> (ipv4 \<times> Route) list \<Rightarrow>
     PeerDeviceInfo list \<Rightarrow> (world, unit) cmd" where
  "relay_peers C shuffle d routes [] = retS ()"
| "relay_peers C shuffle d routes (peer # peers) =
     bindS (getS (\<lambda>w. pd_wireguard peer \<or> \<not> PeerDeviceStatus_is_online (pd_status peer) \<or>
         pd_virtual_ip peer = cd_virtual_ip d \<or>
         (route_one_p2p (cx_route_table w) (pd_virtual_ip peer) \<noteq> None \<and> \<not> context_first_latency w))) (\<lambda>skip.
     if skip then relay_peers C shuffle d routes peers
     else bindS (heartbeat_packet_client C (cd_virtual_ip d) (pd_virtual_ip peer)) (\<lambda>p.
       thenS (relay_probe C d p 0 (shuffle routes)) (relay_peers C shuffle d (shuffle routes) peers)))"

definition client_relay0 :: "conf \<Rightarrow> ((ipv4 \<times> Route) list \<Rightarrow> (ipv4 \<times> Route) list) \<Rightarrow> (world, unit) cmd" where
  "client_relay0 C shuffle = bindS (getS w_current_device) (\<lambda>d.
     if ConnectStatus_offline (cd_status d) then retS ()
     else bindS (getS (\<lambda>w. (map snd (w_devices w), route_table_p2p (cx_route_table w)))) (\<lambda>(peers, routes).
       relay_peers C shuffle d routes peers))"

section \<open>Idle routes\<close>

datatype IdleType = Idle_Timeout ipv4 Route | Idle_Sleep nat | Idle_None

fun idle_routes :: "nat \<Rightarrow> nat \<Rightarrow> ipv4 \<Rightarrow> nat \<Rightarrow> route_entry list \<Rightarrow> IdleType" where
  "idle_routes now read_idle ip longest [] = Idle_Sleep longest"
| "idle_routes now read_idle ip longest ((r, time) # routes) =
     (let last_read = now - time in
      if last_read \<ge> read_idle then Idle_Timeout ip r
      else idle_routes now read_idle ip (if longest < last_read then last_read else longest) routes)"

fun idle_scan :: "nat \<Rightarrow> nat \<Rightarrow> nat \<Rightarrow> (ipv4 \<times> route_entry list) list \<Rightarrow> IdleType" where
  "idle_scan now read_idle longest [] = Idle_Sleep (read_idle - longest)"
| "idle_scan now read_idle longest ((ip, routes) # table) =
     (case idle_routes now read_idle ip longest routes of
        Idle_Sleep longest \<Rightarrow> idle_scan now read_idle longest table
      | found \<Rightarrow> found)"

definition next_idle :: "nat \<Rightarrow> nat \<Rightarrow> RouteTable \<Rightarrow> IdleType" where
  "next_idle now read_idle t = (if rt_map t = [] then Idle_None else idle_scan now read_idle 0 (rt_map t))"

text \<open>The delay to the next round, in nanoseconds.\<close>

definition idle_route0 :: "conf \<Rightarrow> nat \<Rightarrow> (world, nat) cmd" where
  "idle_route0 C read_idle = bindS (getS id) (\<lambda>w.
     (case next_idle (env_now (cf_env C)) read_idle (cx_route_table w) of
        Idle_Timeout ip r \<Rightarrow>
          thenS (context_remove_route ip (Route_route_key r))
          (thenS (whenS (CurrentDeviceInfo_is_gateway (w_current_device w) ip)
            (thenS (modS (\<lambda>w. w\<lparr>w_current_device := change_status (w_current_device w) Connecting\<rparr>))
              (emit (Ev_error (ErrorInfo_new Disconnect)))))
          (retS (100 * 1000000)))
      | Idle_Sleep duration \<Rightarrow> retS duration
      | Idle_None \<Rightarrow> retS (3000 * 1000000)))"

section \<open>Reconnection\<close>

text \<open>The server's address may have changed; \<open>resolved\<close> is what resolution and choice of address found.\<close>

definition domain_request0 :: "socket_addr res \<Rightarrow> (world, CurrentDeviceInfo) cmd" where
  "domain_request0 resolved = bindS (getS w_current_device) (\<lambda>d. (case resolved of
     Inl _ \<Rightarrow> retS d
   | Inr addr \<Rightarrow>
       if addr \<noteq> cd_connect_server d then
         thenS (modS (\<lambda>w. w\<lparr>w_current_device := d\<lparr>cd_connect_server := addr\<rparr>\<rparr>)) (retS (d\<lparr>cd_connect_server := addr\<rparr>))
       else retS d))"

definition connect_again :: "conf \<Rightarrow> ConnectProtocol \<Rightarrow> socket_addr \<Rightarrow> (world, unit) cmd" where
  "connect_again C protocol server = bindS (getS w_rsa_cipher) (\<lambda>rsa.
     bindS (liftE (handshake_request_packet C rsa (bc_server_secret (cf_base C)))) (\<lambda>p.
     (case protocol of
        Conn_UDP \<Rightarrow> retS ()
      | Conn_TCP \<Rightarrow> emit (Ev_connect_tcp (np_buffer p) server)
      | _ \<Rightarrow> emit (Ev_connect_ws (np_buffer p) (bc_server_addr (cf_base C))))))"

text \<open>The result is the number of attempts so far.\<close>

definition check_gateway_channel :: "conf \<Rightarrow> socket_addr res \<Rightarrow> nat \<Rightarrow> (world, unit) cmd" where
  "check_gateway_channel C resolved cnt = bindS (getS cx_protocol) (\<lambda>protocol.
     bindS (if ConnectProtocol_is_transport protocol then domain_request0 resolved else getS w_current_device) (\<lambda>d.
     thenS (emit (Ev_connect \<lparr>ci_count = cnt, ci_address = cd_connect_server d\<rparr>))
     (bindS (succeeds (Handshake_send C (bc_server_secret (cf_base C)) (cd_connect_server d))) (\<lambda>ok.
       if ok then retS () else connect_again C protocol (cd_connect_server d)))))"

definition idle_gateway0 :: "conf \<Rightarrow> socket_addr res \<Rightarrow> nat \<Rightarrow> (world, nat) cmd" where
  "idle_gateway0 C resolved connect_count = bindS (getS w_current_device) (\<lambda>d.
     if \<not> ConnectStatus_offline (cd_status d) then retS connect_count
     else bindS (succeeds (check_gateway_channel C resolved (connect_count + 1))) (\<lambda>ok.
       thenS (whenS (\<not> ok) (emit (Ev_error (ErrorInfo_new_msg Disconnect ''connect''))))
         (retS (connect_count + 1))))"

section \<open>Hole punching\<close>

text \<open>
  Peers with a larger address are asked to punch, the less often the more attempts there were (\<open>tries\<close>, shared with the
  punch threads); \<open>last\<close> is the round of the last request. The first peer that is due is the
  round's target.
\<close>

type_synonym tally = "ipv4 \<Rightarrow> nat option"

definition tally_of :: "tally \<Rightarrow> ipv4 \<Rightarrow> nat" where
  "tally_of m ip = (case m ip of Some n \<Rightarrow> n | None \<Rightarrow> 0)"

fun punch_scan ::
    "RouteTable \<Rightarrow> nat \<Rightarrow> nat \<Rightarrow> PeerDeviceInfo list \<Rightarrow> tally \<Rightarrow> tally \<Rightarrow> ipv4 option \<times> tally \<times> tally" where
  "punch_scan t channel_num total_count [] tries last_punch = (None, tries, last_punch)"
| "punch_scan t channel_num total_count (info # infos) tries last_punch =
     (let ip = pd_virtual_ip info;
          punch_count = tally_of tries ip * 2 div 3;
          n = p2p_num t ip;
          max_punch_interval = (if n > 0 then 300 else 50) in
      if n > 0 \<and> punch_count = 0 then punch_scan t channel_num total_count infos tries last_punch
      else if n > 0 \<and> n \<ge> channel_num then
        punch_scan t channel_num total_count infos (tries(ip := None)) last_punch
      else if total_count > tally_of last_punch ip + min punch_count max_punch_interval then
        (Some ip, tries, last_punch(ip \<mapsto> total_count))
      else punch_scan t channel_num total_count infos tries last_punch)"

definition no_public_address :: "NatInfo \<Rightarrow> bool" where
  "no_public_address n =
     (ni_public_ips n = [] \<or> ni_public_ports n = [] \<or> hd (ni_public_ports n) = 0 \<or>
      length (filter (\<lambda>v. v = 0) (ni_public_ports n)) > length (ni_public_ports n) div 2)"

definition punch0 ::
    "conf \<Rightarrow> (PeerDeviceInfo list \<Rightarrow> PeerDeviceInfo list) \<Rightarrow> CurrentDeviceInfo \<Rightarrow> tally \<Rightarrow> tally \<Rightarrow> nat \<Rightarrow>
     (world, tally \<times> tally) cmd" where
  "punch0 C shuffle d tries last_punch total_count = bindS (getS id) (\<lambda>w.
     let n = nt_info (w_nat_test w) in
     if total_count < 10 \<and> no_public_address n then retS (tries, last_punch)
     else
       let peers = filter (\<lambda>info. \<not> pd_wireguard info \<and> PeerDeviceStatus_is_online (pd_status info) \<and>
             pd_virtual_ip info > cd_virtual_ip d) (map snd (w_devices w)) in
       (case punch_scan (cx_route_table w) (cx_v4_len w) total_count (shuffle peers) tries last_punch of
          (None, tries, last_punch) \<Rightarrow> retS (tries, last_punch)
        | (Some ip, tries, last_punch) \<Rightarrow>
            thenS (ignoreS
              (bindS (liftE (bindE (own_punch_info False n) (\<lambda>m. punch_message C ''punch_packet'' m (cd_virtual_ip d) ip))) (\<lambda>p.
               bindS (encryptS C (cf_client_cipher C) p) (\<lambda>p. send_default (cf_env C) p (cd_connect_server d)))))
            (retS (tries, last_punch))))"

text \<open>The delay to the next round, in seconds.\<close>

definition punch_request ::
    "conf \<Rightarrow> (PeerDeviceInfo list \<Rightarrow> PeerDeviceInfo list) \<Rightarrow> nat \<Rightarrow> tally \<Rightarrow> tally \<Rightarrow> (world, nat \<times> tally \<times> tally) cmd" where
  "punch_request C shuffle cnt tries last_punch = bindS (getS w_current_device) (\<lambda>d.
     if ConnectStatus_online (cd_status d) then
       bindS (punch0 C shuffle d tries last_punch cnt) (\<lambda>(tries, last_punch).
         retS ([6, 7] ! (cnt mod 2), tries, last_punch))
     else retS (5, tries, last_punch))"

text \<open>The attempt's number for the punch thread: the first attempt is 0, the second 2.\<close>

definition punch_number :: "tally \<Rightarrow> ipv4 \<Rightarrow> nat \<times> tally" where
  "punch_number tries ip = (case tries ip of
     Some v \<Rightarrow> (v + 1, tries(ip \<mapsto> v + 1)) | None \<Rightarrow> (0, tries(ip \<mapsto> 1)))"

definition punch_request_packet :: "conf \<Rightarrow> ipv4 \<Rightarrow> ipv4 \<Rightarrow> net_packet res" where
  "punch_request_packet C src peer_ip =
     bindE (zero_packet (12 + ENCRYPTION_RESERVED)) (np_seq
       [NetPacket_set_default_version, \<lambda>p. NetPacket_first_set_ttl p 1,
        \<lambda>p. NetPacket_set_protocol p Protocol_Control,
        \<lambda>p. NetPacket_set_transport_protocol p (ControlProtocol_to_u8 Control_PunchRequest),
        \<lambda>p. NetPacket_set_source p src, \<lambda>p. NetPacket_set_destination p peer_ip])"

text \<open>
  A punch thread keeps its list of ports; it runs on the shared context, of which it only sends (raw
  bytes, which the meters do not count).
\<close>

record punch_thread =
  pt_port_vec :: "u16 list"
  pt_port_index :: "ipv4 \<Rightarrow> nat option"
  pt_model :: PunchModel

definition punch_of :: "punch_thread \<Rightarrow> world \<Rightarrow> Punch" where
  "punch_of t w = ContextInner.extend (ContextInner.truncate w)
     \<lparr>pu_port_vec = pt_port_vec t, pu_port_index = pt_port_index t, pu_punch_model = pt_model t,
      pu_nat_test = w_nat_test w, pu_current_device = w_current_device w, pu_connects = []\<rparr>"

definition with_punch :: "punch_thread \<Rightarrow> (Punch, unit) cmd \<Rightarrow> (world, punch_thread) cmd" where
  "with_punch t m w = (case m (punch_of t w) of (r, p) \<Rightarrow>
     (if r = Inl Panic then Inl Panic
      else Inr (t\<lparr>pt_port_vec := pu_port_vec p, pt_port_index := pu_port_index p\<rparr>),
      w\<lparr>cx_sent := cx_sent p, cx_draws := cx_draws p,
        w_events := w_events w @ map (\<lambda>(b, a). Ev_connect_tcp b a) (pu_connects p)\<rparr>))"

definition punch_start ::
    "conf \<Rightarrow> (u16 list \<Rightarrow> u16 list) \<Rightarrow> nat \<Rightarrow> ipv4 \<Rightarrow> NatInfo \<Rightarrow> tally \<Rightarrow> punch_thread \<Rightarrow> (world, tally \<times> punch_thread) cmd" where
  "punch_start C shuffle max_k2 peer_ip info tries t = bindS (getS w_current_device) (\<lambda>d.
     let (cnt, tries') = punch_number tries peer_ip in
     bindS (tryS (bindS (liftE (punch_request_packet C (cd_virtual_ip d) peer_ip)) (\<lambda>p.
       bindS (encryptS C (cf_client_cipher C) p) (\<lambda>p. liftE (NetPacket_buffer p))))) (\<lambda>packet. (case packet of
       Inl _ \<Rightarrow> retS (tries', t)
     | Inr buf \<Rightarrow>
         bindS (with_punch t (punch (cf_env C) shuffle max_k2 buf peer_ip info (cnt < 2) cnt)) (\<lambda>t.
           retS (tries', t)))))"

section \<open>NAT detection and status\<close>

text \<open>
  One address request, and the delay and counter of the next round; the STUN request and its server
  are the environment's choice.
\<close>

definition addr_request0 :: "conf \<Rightarrow> (u8 list \<times> socket_addr) res \<Rightarrow> nat \<Rightarrow> (world, unit) cmd" where
  "addr_request0 C data index = bindS (getS w_current_device) (\<lambda>d.
     if ConnectStatus_offline (cd_status d) then retS ()
     else bindS (liftE data) (\<lambda>(b, addr). send_main_udp (cf_env C) index b addr))"

definition addr_request_delay :: "NatInfo \<Rightarrow> nat \<Rightarrow> nat \<Rightarrow> nat" where
  "addr_request_delay n index channel_num =
     (if 0 \<notin> set (ni_public_ports n) \<and> ni_public_ips n \<noteq> [] then
        (if ni_nat_type n = Symmetric then 600 else if index = channel_num - 1 then 19 else 9)
      else 3)"

definition pub_address_request ::
    "conf \<Rightarrow> (nat \<Rightarrow> nat) \<Rightarrow> (string \<Rightarrow> socket_addr list res) \<Rightarrow> u8 list \<Rightarrow> nat \<Rightarrow> (world, nat \<times> nat) cmd" where
  "pub_address_request C gen_range resolve request cnt = bindS (getS id) (\<lambda>w.
     if cx_v4_len w = 0 then failS Panic
     else let index = cnt mod cx_v4_len w in
       thenS (ignoreS (addr_request0 C (send_data gen_range resolve request (w_nat_test w)) index))
       (bindS (getS (\<lambda>w. nt_info (w_nat_test w))) (\<lambda>n.
         retS (addr_request_delay n index (cx_v4_len w), index + 1))))"

text \<open>\<open>probe\<close>, \<open>own4\<close> and \<open>own6\<close> are what the tests of the network find.\<close>

definition retrieve_nat_type0 ::
    "conf \<Rightarrow> (NatType \<times> ipv4 list \<times> u16) res \<Rightarrow> ipv4 option \<Rightarrow> ipv6 option \<Rightarrow> (nat \<Rightarrow> unit res) \<Rightarrow> unit res \<Rightarrow> (world, unit) cmd" where
  "retrieve_nat_type0 C probe own4 own6 bind_udp add =
     bindS (updS (\<lambda>w. case NatTest_can_update (env_now (cf_env C)) (w_nat_test w) of (b, t) \<Rightarrow> (b, w\<lparr>w_nat_test := t\<rparr>))) (\<lambda>go.
     if \<not> go then retS ()
     else bindS (updS (\<lambda>w. case re_test (w_nat_test w) probe (if nt_update_local_ipv4 (w_nat_test w) then own4 else None) own6 of
            (r, t) \<Rightarrow> (r, w\<lparr>w_nat_test := t\<rparr>))) (\<lambda>r. (case r of
         Inr info \<Rightarrow> ignoreS (context_switch (ni_nat_type info) bind_udp add)
       | Inl _ \<Rightarrow> retS ())))"

text \<open>The report goes out as it is, without encryption.\<close>

definition meter_total :: "TrafficMeterMultiAddress option \<Rightarrow> u64" where
  "meter_total m = (case m of Some v \<Rightarrow> mm_total v | None \<Rightarrow> 0)"

definition up_status_packet :: "conf \<Rightarrow> CurrentDeviceInfo \<Rightarrow> world \<Rightarrow> net_packet res" where
  "up_status_packet C d w =
     bindE (encoded (Io OtherKind ''up_status_packet'') (enc_status (cf_proto C)
       \<lparr>cs_source = cd_virtual_ip d, cs_p2p_list = map fst (route_table_p2p (cx_route_table w)),
        cs_up_stream = meter_total (cx_up_meter w), cs_down_stream = meter_total (cx_down_meter w),
        cs_nat_type = (if is_cone w then Cone else Symmetric)\<rparr>)) (\<lambda>buf.
     bindE (zero_packet (HEAD_LEN + length buf + ENCRYPTION_RESERVED)) (np_seq
       [NetPacket_set_default_version, \<lambda>p. NetPacket_set_gateway_flag p True,
        \<lambda>p. NetPacket_set_protocol p Protocol_Service,
        \<lambda>p. NetPacket_set_transport_protocol p (ServiceProtocol_to_u8 Service_ClientStatusInfo),
        \<lambda>p. NetPacket_first_set_ttl p MAX_TTL, \<lambda>p. NetPacket_set_source p (cd_virtual_ip d),
        \<lambda>p. NetPacket_set_destination p (cd_virtual_gateway d), \<lambda>p. NetPacket_set_payload p buf]))"

definition send_up_status_packet :: "conf \<Rightarrow> (world, unit) cmd" where
  "send_up_status_packet C = bindS (getS id) (\<lambda>w. let d = w_current_device w in
     if ConnectStatus_offline (cd_status d) then retS ()
     else if route_table_p2p (cx_route_table w) = [] then retS ()
     else bindS (liftE (up_status_packet C d w)) (\<lambda>p. send_default (cf_env C) p (cd_connect_server d)))"

section \<open>Idle routes expire\<close>

definition is_idle :: "nat \<Rightarrow> nat \<Rightarrow> route_entry \<Rightarrow> bool" where
  "is_idle now read_idle e \<longleftrightarrow> now - snd e \<ge> read_idle"

lemma idle_routes_cases:
  "case idle_routes now ri ip longest v of
     Idle_Timeout ip' r \<Rightarrow> ip' = ip \<and> (\<exists>e \<in> set v. fst e = r \<and> is_idle now ri e)
   | Idle_Sleep longest' \<Rightarrow> \<forall>e \<in> set v. \<not> is_idle now ri e
   | Idle_None \<Rightarrow> False"
proof (induction v arbitrary: longest)
  case (Cons e v)
  obtain r time where e: "e = (r, time)" by fastforce
  show ?case
  proof (cases "ri \<le> now - time")
    case True
    then show ?thesis by (simp add: e is_idle_def)
  next
    case False
    define l' where "l' = (if longest < now - time then now - time else longest)"
    have eq: "idle_routes now ri ip longest (e # v) = idle_routes now ri ip l' v"
      using False by (simp add: e Let_def l'_def)
    show ?thesis unfolding eq using Cons.IH[of l'] False
      by (cases "idle_routes now ri ip l' v") (auto simp: e is_idle_def)
  qed
qed simp

lemma idle_scan_cases:
  "case idle_scan now ri longest tbl of
     Idle_Timeout ip r \<Rightarrow> \<exists>v. (ip, v) \<in> set tbl \<and> (\<exists>e \<in> set v. fst e = r \<and> is_idle now ri e)
   | Idle_Sleep d \<Rightarrow> (\<forall>(ip, v) \<in> set tbl. \<forall>e \<in> set v. \<not> is_idle now ri e)
   | Idle_None \<Rightarrow> False"
proof (induction tbl arbitrary: longest)
  case (Cons x tbl)
  obtain ip v where x: "x = (ip, v)" by fastforce
  note c = idle_routes_cases[where now = now and ri = ri and ip = ip and longest = longest and v = v]
  show ?case
  proof (cases "idle_routes now ri ip longest v")
    case (Idle_Sleep longest')
    then have "idle_scan now ri longest (x # tbl) = idle_scan now ri longest' tbl" by (simp add: x)
    moreover have "\<forall>e \<in> set v. \<not> is_idle now ri e" using c Idle_Sleep by simp
    ultimately show ?thesis using Cons.IH[of longest'] by (cases "idle_scan now ri longest' tbl") (auto simp: x)
  qed (use c in \<open>auto simp: x\<close>)
qed simp

definition idle_keys :: "nat \<Rightarrow> nat \<Rightarrow> RouteTable \<Rightarrow> (ipv4 \<times> RouteKey) set" where
  "idle_keys now ri t = {(ip, entry_key e) | ip e. e \<in> set (rt_list t ip) \<and> is_idle now ri e}"

lemma rt_list_in_map: "e \<in> set (rt_list t ip) \<Longrightarrow> \<exists>v. (ip, v) \<in> set (rt_map t) \<and> e \<in> set v"
  by (cases "map_of (rt_map t) ip") (auto simp: rt_list_def rt_get_def dest: map_of_SomeD)

lemma idle_keys_card: "finite (idle_keys now ri t) \<and> card (idle_keys now ri t) \<le> length (concat (map snd (rt_map t)))"
proof -
  let ?l = "concat (map (\<lambda>(ip, v). map (\<lambda>e. (ip, entry_key e)) v) (rt_map t))"
  have sub: "idle_keys now ri t \<subseteq> set ?l"
  proof
    fix x assume "x \<in> idle_keys now ri t"
    then obtain ip e where e: "x = (ip, entry_key e)" "e \<in> set (rt_list t ip)" by (auto simp: idle_keys_def)
    from rt_list_in_map[OF e(2)] obtain v where v: "(ip, v) \<in> set (rt_map t)" "e \<in> set v" by blast
    have "x \<in> (\<lambda>e. (ip, entry_key e)) ` set v" using e(1) v(2) by blast
    then show "x \<in> set ?l" using v(1) by force
  qed
  have "finite (idle_keys now ri t)" by (rule finite_subset[OF sub finite_set])
  moreover have "card (idle_keys now ri t) \<le> length ?l"
    by (rule order_trans[OF card_mono[OF finite_set sub] card_length])
  moreover have "length ?l = length (concat (map snd (rt_map t)))"
    by (simp add: length_concat comp_def case_prod_beta')
  ultimately show ?thesis by simp
qed

lemma remove_route_list:
  assumes "rt_inv t"
  shows "set (rt_list (remove_route t ip k) ip') = {e \<in> set (rt_list t ip'). ip' = ip \<longrightarrow> entry_key e \<noteq> k}"
  using remove_route_get[OF assms, of ip k ip'] by (auto simp: rt_list_def Let_def filter_empty_conv split: option.splits if_splits)

lemma same_key_same_route:
  assumes "rt_inv t" "e \<in> set (rt_list t ip)" "e' \<in> set (rt_list t ip)" "entry_key e = entry_key e'"
  shows "e = e'"
proof -
  have "distinct (map entry_key (rt_list t ip))" using rt_invD[OF assms(1)]
    by (auto simp: rt_list_def entry_wf_def split: option.splits)
  with assms(2-4) show ?thesis by (auto simp: distinct_map inj_on_def)
qed

lemma idle_route0_round:
  assumes "rt_inv (cx_route_table w)"
  shows "let now = env_now (cf_env C); t = cx_route_table w; t' = cx_route_table (snd (idle_route0 C ri w)) in
    rt_inv t' \<and> (\<forall>ip e. \<not> is_idle now ri e \<longrightarrow> e \<in> set (rt_list t' ip) \<longleftrightarrow> e \<in> set (rt_list t ip)) \<and>
    (idle_keys now ri t' = {} \<or> card (idle_keys now ri t') < card (idle_keys now ri t))"
proof -
  let ?now = "env_now (cf_env C)" and ?t = "cx_route_table w"
  show ?thesis
  proof (cases "next_idle ?now ri ?t")
    case (Idle_Timeout ip r)
    then obtain v e where v: "(ip, v) \<in> set (rt_map ?t)" "e \<in> set v" "fst e = r" "is_idle ?now ri e"
      using idle_scan_cases[where now = ?now and ri = ri and longest = 0 and tbl = "rt_map ?t"] by (auto simp: next_idle_def split: if_splits)
    have "map_of (rt_map ?t) ip = Some v" using v(1) assms by (simp add: rt_inv_def)
    then have e: "e \<in> set (rt_list ?t ip)" using v(2) by (simp add: rt_list_def rt_get_def)
    have k: "entry_key e = Route_route_key r" using v(3) by (cases e) simp
    have t': "cx_route_table (snd (idle_route0 C ri w)) = remove_route ?t ip (Route_route_key r)"
      by (simp add: idle_route0_def Idle_Timeout context_remove_route_def whenS_def thenS_def emit_def change_status_def bindS_assoc)
    have l: "set (rt_list (remove_route ?t ip (Route_route_key r)) ip') =
        {e' \<in> set (rt_list ?t ip'). ip' = ip \<longrightarrow> e' \<noteq> e}" for ip'
      using remove_route_list[OF assms, of ip "Route_route_key r" ip'] same_key_same_route[OF assms _ e] k
      by auto
    have s: "idle_keys ?now ri (remove_route ?t ip (Route_route_key r)) = idle_keys ?now ri ?t - {(ip, entry_key e)}"
    proof (intro set_eqI iffI)
      fix x assume "x \<in> idle_keys ?now ri (remove_route ?t ip (Route_route_key r))"
      then obtain ip' e' where x: "x = (ip', entry_key e')" "e' \<in> set (rt_list ?t ip')" "ip' = ip \<longrightarrow> e' \<noteq> e"
        "is_idle ?now ri e'" unfolding idle_keys_def l by blast
      then have "x \<noteq> (ip, entry_key e)" using same_key_same_route[OF assms _ e, of e'] by auto
      with x show "x \<in> idle_keys ?now ri ?t - {(ip, entry_key e)}" unfolding idle_keys_def by blast
    next
      fix x assume "x \<in> idle_keys ?now ri ?t - {(ip, entry_key e)}"
      then show "x \<in> idle_keys ?now ri (remove_route ?t ip (Route_route_key r))" unfolding idle_keys_def l by blast
    qed
    have m: "(ip, entry_key e) \<in> idle_keys ?now ri ?t" unfolding idle_keys_def using e v(4) by blast
    have "card (idle_keys ?now ri ?t - {(ip, entry_key e)}) < card (idle_keys ?now ri ?t)"
      using m idle_keys_card[of ?now ri ?t] by (intro card_Diff1_less) auto
    then show ?thesis unfolding Let_def t' s using remove_route_inv[OF assms] l v(4) by auto
  next
    case (Idle_Sleep d)
    then have "\<forall>(ip, v) \<in> set (rt_map ?t). \<forall>e \<in> set v. \<not> is_idle ?now ri e"
      using idle_scan_cases[where now = ?now and ri = ri and longest = 0 and tbl = "rt_map ?t"] by (auto simp: next_idle_def split: if_splits)
    then have "idle_keys ?now ri ?t = {}" by (force simp: idle_keys_def dest: rt_list_in_map)
    then show ?thesis using assms Idle_Sleep by (simp add: idle_route0_def)
  next
    case Idle_None
    then have "rt_map ?t = []" using idle_scan_cases[where now = ?now and ri = ri and longest = 0 and tbl = "rt_map ?t"]
      by (auto simp: next_idle_def split: if_splits)
    then have "idle_keys ?now ri ?t = {}" by (force simp: idle_keys_def dest: rt_list_in_map)
    then show ?thesis using assms Idle_None by (simp add: idle_route0_def)
  qed
qed

text \<open>Rounds of the expiry task in a row.\<close>

fun idle_rounds :: "conf \<Rightarrow> nat \<Rightarrow> nat \<Rightarrow> world \<Rightarrow> world" where
  "idle_rounds C ri 0 w = w"
| "idle_rounds C ri (Suc n) w = idle_rounds C ri n (snd (idle_route0 C ri w))"

lemma idle_rounds_expire:
  assumes "rt_inv (cx_route_table w)" "card (idle_keys (env_now (cf_env C)) ri (cx_route_table w)) \<le> n"
  shows "idle_keys (env_now (cf_env C)) ri (cx_route_table (idle_rounds C ri n w)) = {} \<and>
    (\<forall>ip e. \<not> is_idle (env_now (cf_env C)) ri e \<longrightarrow>
       e \<in> set (rt_list (cx_route_table (idle_rounds C ri n w)) ip) \<longleftrightarrow> e \<in> set (rt_list (cx_route_table w) ip))"
  using assms
proof (induction n arbitrary: w)
  case 0
  then show ?case using idle_keys_card by simp
next
  case (Suc n)
  note r = idle_route0_round[OF Suc.prems(1), of C ri, unfolded Let_def]
  have "card (idle_keys (env_now (cf_env C)) ri (cx_route_table (snd (idle_route0 C ri w)))) \<le> n" using r Suc.prems(2) by auto
  with Suc.IH[of "snd (idle_route0 C ri w)"] r show ?case by simp
qed



end
