(* ===== verification/Frame.thy ===== *)
theory Frame
  imports Recv_Handler Maintain
begin

text \<open>
  Which parts of the shared state an operation may change, as two interfaces: a predicate on the state that
  the sends do not disturb (\<open>send_frame\<close>) and one that no state change of the program disturbs
  (\<open>handler_frame\<close>). Every handler and every periodic task keeps such a predicate, so an invariant of the whole
  program is an interpretation: only the elementary state changes remain to be checked.
\<close>

section \<open>Sending\<close>

locale send_frame =
  fixes Q :: "world \<Rightarrow> bool"
  assumes on_sent: "Q w \<Longrightarrow> Q (w\<lparr>cx_sent := l\<rparr>)"
    and on_draws: "Q w \<Longrightarrow> Q (w\<lparr>cx_draws := n\<rparr>)"
    and on_events: "Q w \<Longrightarrow> Q (w\<lparr>w_events := es\<rparr>)"
    and on_up: "Q w \<Longrightarrow> cx_up_meter w = Some m \<Longrightarrow> Q (w\<lparr>cx_up_meter := Some (add_traffic t t t ip x m)\<rparr>)"
begin

lemma emit_keeps [keeps_intros]: "keeps Q (emit e)"
  by (simp add: emit_def keeps_modS on_events)

lemma ask_keeps [keeps_intros]: "keeps Q (ask C e)"
  unfolding ask_def by (intro keeps_intros)

lemma os_send_keeps [keeps_intros]: "keeps Q (os_send E x)"
  by (auto simp: keeps_def os_send_def Let_def on_sent split: option.splits)

lemma draw_keeps [keeps_intros]: "keeps Q (draw E)"
  by (auto simp: draw_def on_draws intro!: keeps_updS)

lemma draw_ratio_keeps [keeps_intros]: "keeps Q (draw_ratio E a b)"
  by (auto simp: draw_ratio_def on_draws intro!: keeps_updS)

lemma count_up_keeps [keeps_intros]: "keeps Q (count_up E p)"
  by (auto simp: keeps_def count_up_def bindS_def on_up split: option.splits sum.splits)

lemma context_send_tcp_keeps [keeps_intros]: "keeps Q (context_send_tcp E b a)"
  unfolding context_send_tcp_def by (intro keeps_intros)

lemma send_main_udp_keeps [keeps_intros]: "keeps Q (send_main_udp E i b a)"
  unfolding send_main_udp_def by (intro keeps_intros)

lemma send_default_keeps [keeps_intros]: "keeps Q (send_default E p a)"
  unfolding send_default_def by (intro keeps_intros)

lemma send_by_key_keeps [keeps_intros]: "keeps Q (send_by_key E p k)"
  unfolding send_by_key_def by (cases "rk_protocol k"; simp; intro keeps_intros)

lemma send_by_id_loop_keeps: "Q w \<Longrightarrow> Q (snd (send_by_id_loop E p ip c w))"
proof (induction E p ip c w rule: send_by_id_loop.induct)
  case (1 E p ip c w)
  show ?case
  proof (cases "get_route_by_id (cx_route_table w) c ip")
    case (Inl e)
    then show ?thesis using "1.prems" by (simp add: send_by_id_loop.simps[of E p ip c w])
  next
    case (Inr r)
    obtain res w' where k: "send_by_key E p (Route_route_key r) w = (res, w')" by fastforce
    have "Q w'" using keepsD[OF send_by_key_keeps "1.prems" k] .
    then show ?thesis using "1.IH"[OF Inr k[symmetric]] Inr k
      by (auto simp: send_by_id_loop.simps[of E p ip c w] split: sum.splits)
  qed
qed

lemma send_by_id_keeps [keeps_intros]: "keeps Q (send_by_id E p ip)"
  by (simp add: keeps_def send_by_id_def send_by_id_loop_keeps)

lemma send_ipv4_by_id_keeps [keeps_intros]: "keeps Q (send_ipv4_by_id E p ip a r)"
  unfolding send_ipv4_by_id_def by (intro keeps_intros)

lemma encryptS_keeps [keeps_intros]: "keeps Q (encryptS C c p)"
  unfolding encryptS_def by (intro keeps_intros)

lemma decryptS_keeps [keeps_intros]: "keeps Q (decryptS C c p)"
  unfolding decryptS_def by (intro keeps_intros)

lemma device_write_keeps [keeps_intros]: "keeps Q (device_write C b)" "keeps Q (raw_write C b)"
  unfolding device_write_def raw_write_def by (intro keeps_intros)+

lemma PunchSender_send_keeps [keeps_intros]: "keeps Q (PunchSender_send C b ip i)"
  unfolding PunchSender_send_def by (intro keeps_intros)

end

section \<open>From one predicate to another\<close>

text \<open>\<open>leads Q m P\<close>: whatever becomes of \<open>m\<close>, from \<open>Q\<close> it ends with \<open>P\<close>.\<close>

definition leads :: "('s \<Rightarrow> bool) \<Rightarrow> ('s, 'a) cmd \<Rightarrow> ('s \<Rightarrow> bool) \<Rightarrow> bool" where
  "leads Q m P \<longleftrightarrow> (\<forall>s. Q s \<longrightarrow> P (snd (m s)))"

lemma leads_keeps: "keeps Q m \<Longrightarrow> (\<And>s. Q s \<Longrightarrow> P s) \<Longrightarrow> leads Q m P"
  by (simp add: leads_def keeps_def)

lemma leads_bind: "keeps Q m \<Longrightarrow> (\<And>x. leads Q (f x) P) \<Longrightarrow> (\<And>s. Q s \<Longrightarrow> P s) \<Longrightarrow> leads Q (bindS m f) P"
  by (fastforce simp: leads_def keeps_def bindS_def split: prod.splits sum.splits)

lemma leads_then: "keeps Q m \<Longrightarrow> leads Q n P \<Longrightarrow> (\<And>s. Q s \<Longrightarrow> P s) \<Longrightarrow> leads Q (thenS m n) P"
  unfolding thenS_def by (rule leads_bind)

lemma leads_if: "(b \<Longrightarrow> leads Q m P) \<Longrightarrow> (\<not> b \<Longrightarrow> leads Q n P) \<Longrightarrow> leads Q (if b then m else n) P"
  by simp

lemma leads_modS: "(\<And>s. Q s \<Longrightarrow> P (g s)) \<Longrightarrow> leads Q (modS g) P"
  by (simp add: leads_def)

section \<open>Handling packets\<close>

locale handler_frame =
  fixes P :: "conf \<Rightarrow> world \<Rightarrow> bool"
  assumes sent: "P C w \<Longrightarrow> P C (w\<lparr>cx_sent := l\<rparr>)"
    and draws: "P C w \<Longrightarrow> P C (w\<lparr>cx_draws := n\<rparr>)"
    and events: "P C w \<Longrightarrow> P C (w\<lparr>w_events := es\<rparr>)"
    and sub: "P C w \<Longrightarrow> P C (w\<lparr>cx_sub_len := n\<rparr>)"
    and epoch: "P C w \<Longrightarrow> P C (w\<lparr>w_epoch := e\<rparr>)"
    and nat: "P C w \<Longrightarrow> P C (w\<lparr>w_nat_test := nt\<rparr>)"
    and peer_nat: "P C w \<Longrightarrow> P C (w\<lparr>w_peer_nat_info := f\<rparr>)"
    and key_time: "P C w \<Longrightarrow> P C (w\<lparr>w_up_key_time := n\<rparr>)"
    and handshake_time: "P C w \<Longrightarrow> P C (w\<lparr>w_handshake_time := n\<rparr>)"
    and proxy: "P C w \<Longrightarrow> P C (w\<lparr>w_ip_proxy := x\<rparr>)"
    and up: "P C w \<Longrightarrow> cx_up_meter w = Some m \<Longrightarrow> P C (w\<lparr>cx_up_meter := Some (add_traffic t t t ip x' m)\<rparr>)"
    and down: "P C w \<Longrightarrow> cx_down_meter w = Some m \<Longrightarrow> P C (w\<lparr>cx_down_meter := Some (add_traffic t t t ip x' m)\<rparr>)"
    and route_add: "P C w \<Longrightarrow> P C (w\<lparr>cx_route_table := snd (add_route (cx_route_table w) t ip r)\<rparr>)"
    and route_absent: "P C w \<Longrightarrow> P C (w\<lparr>cx_route_table := snd (add_route_if_absent (cx_route_table w) t ip r)\<rparr>)"
    and route_read: "P C w \<Longrightarrow> P C (w\<lparr>cx_route_table := update_read_time (cx_route_table w) t ip k\<rparr>)"
    and route_remove: "P C w \<Longrightarrow> P C (w\<lparr>cx_route_table := remove_route (cx_route_table w) ip k\<rparr>)"
    and devices: "P C w \<Longrightarrow> P C (w\<lparr>w_devices := foldl (\<lambda>m i. AList.update (pd_virtual_ip i) i m) [] ds\<rparr>)"
    and registered: "P C w \<Longrightarrow> P C (w\<lparr>w_current_device := registered_device rr (w_current_device w)\<rparr>)"
    and offline: "P C w \<Longrightarrow> P C (w\<lparr>w_current_device := change_status (w_current_device w) Connecting\<rparr>)"
    and server: "P C w \<Longrightarrow> P C (w\<lparr>w_current_device := (w_current_device w)\<lparr>cd_connect_server := addr\<rparr>\<rparr>)"
    and tun_stop: "keeps (P C) TunDeviceHelper_stop"
    and tun_start: "keeps (P C) (TunDeviceHelper_start C)"
    and key: "P C w \<Longrightarrow> cf_server_key C = None \<or> w_rsa_cipher w = None \<Longrightarrow> P C (w\<lparr>w_rsa_cipher := Some rsa\<rparr>)"

sublocale handler_frame < sending: send_frame "P C" for C
  by unfold_locales (simp_all add: sent draws events up)

context handler_frame begin

lemma fresh_frame: "send_frame (\<lambda>w. P C w \<and> w_rsa_cipher w = None)"
  by unfold_locales (simp_all add: sent draws events up)

lemma on_routes_keeps [keeps_intros]:
  "keeps (P C) (on_routes (\<lambda>t. update_read_time t now ip k))"
  "keeps (P C) (on_routes_value (\<lambda>t. add_route_if_absent t now ip r))"
  "keeps (P C) (on_routes_value (\<lambda>t. add_route t now ip r))"
  by (auto simp: on_routes_def on_routes_value_def route_read route_absent route_add split: prod.splits
      intro!: keeps_modS keeps_updS) (metis route_absent snd_conv, metis route_add snd_conv)

lemma on_proxy_keeps [keeps_intros]: "keeps (P C) (on_proxy m)"
  by (auto simp: keeps_def on_proxy_def proxy split: prod.splits)

text \<open>The data path of packets for this device.\<close>

lemma client_ip_turn_keeps [keeps_intros]: "keeps (P C) (client_ip_turn C d k p)"
proof -
  have "keeps (P C) (client_ipv4 C d k s t p)" for s t
    unfolding client_ipv4_def client_echo_def client_deliver_def by (intro keeps_intros)
  then show ?thesis unfolding client_ip_turn_def
    by (intro keeps_intros) (auto split: IpTurnProtocol.splits intro!: keeps_intros)
qed

lemma client_answer_keeps [keeps_intros]: "keeps (P C) (client_answer C d k kind s ttl p)"
  unfolding client_answer_def by (intro keeps_intros)

lemma client_control_keeps [keeps_intros]: "keeps (P C) (client_control C d k p)"
proof -
  have "keeps (P C) (client_ping C d k s m p)" "keeps (P C) (client_pong C k s m pong)"
    "keeps (P C) (client_punch_request C d k s p)" "keeps (P C) (client_punch_response C k s)" for s m pong
    unfolding client_ping_def client_pong_def client_punch_request_def client_punch_response_def
    by (intro keeps_intros)+
  moreover have "keeps (P C) (client_addr_request C d k s)" for s
    unfolding client_addr_request_def by (cases "rk_addr k"; simp only: socket_addr.case; intro keeps_intros)
  ultimately show ?thesis unfolding client_control_def
    by (intro keeps_intros) (auto split: ControlPacket.splits intro!: keeps_intros)
qed

lemma client_other_turn_keeps [keeps_intros]: "keeps (P C) (client_other_turn C d k p)"
  unfolding client_other_turn_def Let_def
  by (intro keeps_intros) (auto split: OtherTurnProtocol.splits simp: peer_nat intro!: keeps_intros keeps_modS)

lemma client_handle_keeps [keeps_intros]: "keeps (P C) (client_handle C d k p x)"
  unfolding client_handle_def by (intro keeps_intros) (auto split: Protocol.splits intro!: keeps_intros)

lemma turn_handle_keeps [keeps_intros]: "keeps (P C) (turn_handle C k p)"
  unfolding turn_handle_def by (intro keeps_intros)

text \<open>The dialogue with the server.\<close>

lemma server_register_keeps [keeps_intros]: "keeps (P C) (server_register C d)"
  unfolding server_register_def registration_request_packet_def Let_def by (intro keeps_intros)

lemma Handshake_send_keeps [keeps_intros]: "keeps (P C) (Handshake_send C b a)"
  unfolding Handshake_send_def by (intro keeps_intros keeps_modS handshake_time)

lemma server_no_key_keeps [keeps_intros]: "keeps (P C) (server_no_key C k)"
  unfolding server_no_key_def by (intro keeps_intros keeps_modS key_time)

text \<open>The key is stored only when there was none, and only after sends that do not touch it.\<close>

lemma server_handshake_secret_keeps [keeps_intros]: "keeps (P C) (server_handshake_secret C k response own)"
proof -
  let ?N = "\<lambda>w. P C w \<and> w_rsa_cipher w = None"
  let ?some = "\<lambda>r. if rsa_finger r = hr_key_finger response
      then bindS (liftE (secret_handshake_request_packet C r (bc_token (cf_base C)) own)) (\<lambda>p. send_by_key (cf_env C) p k)
      else retS ()"
  let ?none = "bindS (liftE (RsaCipher_new (cf_rsa C) (hr_public_key response))) (\<lambda>r.
       if rsa_finger r \<noteq> hr_key_finger response then retS ()
       else bindS (ask C (Ev_handshake (HandshakeInfo_new (rsa_public_key r) (hr_key_finger response) (hr_version response)))) (\<lambda>ok.
         if ok then
           bindS (liftE (secret_handshake_request_packet C r (bc_token (cf_base C)) own)) (\<lambda>p.
           thenS (send_by_key (cf_env C) p k) (modS (\<lambda>w. w\<lparr>w_rsa_cipher := Some r\<rparr>)))
         else retS ()))"
  note sending = send_frame.ask_keeps[OF fresh_frame] send_frame.send_by_key_keeps[OF fresh_frame]
  have "leads ?N ?none (P C)"
    by (intro leads_bind leads_if leads_then leads_keeps keeps_basic sending leads_modS) (simp_all add: key)
  moreover have "keeps (P C) (?some r)" for r by (intro keeps_intros)
  ultimately show ?thesis
    by (auto simp: keeps_def leads_def server_handshake_secret_def split: option.splits)
qed

lemma server_handshake_response_keeps [keeps_intros]: "keeps (P C) (server_handshake_response C d k p)"
proof -
  have "keeps (P C) (server_handshake_plain C d response)" if "cf_server_key C = None" for response
    unfolding server_handshake_plain_def
    by (intro keeps_intros keeps_modS key) (simp_all add: that)
  then show ?thesis unfolding server_handshake_response_def by (intro keeps_intros) auto
qed

lemma set_device_info_list_keeps [keeps_intros]: "keeps (P C) (set_device_info_list is e)"
  unfolding set_device_info_list_def Let_def
  by (intro keeps_intros keeps_modS) (use devices[OF epoch] in simp)

lemma create_tun_keeps [keeps_intros]: "keeps (P C) (create_tun C config)"
proof -
  have "keeps (P C) (start_or_report C fatal)" for fatal
    unfolding start_or_report_def by (intro keeps_intros tun_start)
  then show ?thesis unfolding create_tun_def
    by (intro keeps_intros tun_stop) (auto split: platform.splits simp: Let_def intro!: keeps_intros tun_start)
qed

lemma server_registered_keeps [keeps_intros]: "keeps (P C) (server_registered C d k r)"
  unfolding server_registered_def by (intro keeps_intros keeps_modS nat registered)

lemma server_service_keeps [keeps_intros]: "keeps (P C) (server_service C d k p)"
  unfolding server_service_def
  by (intro keeps_intros) (auto split: ServiceProtocol.splits option.splits intro!: keeps_intros)

lemma server_error_keeps [keeps_intros]: "keeps (P C) (server_error C k p)"
proof -
  have "keeps (P C) (server_disconnect C k)" unfolding server_disconnect_def
    by (intro keeps_intros keeps_modS offline epoch)
  then show ?thesis unfolding server_error_def
    by (intro keeps_intros) (auto split: InErrorPacket.splits intro!: keeps_intros)
qed

lemma server_control_keeps [keeps_intros]: "keeps (P C) (server_control C d k p)"
proof -
  have "keeps (P C) (server_pong C d k p pong)" for pong
    unfolding server_pong_def by (intro keeps_intros)
  then show ?thesis unfolding server_control_def
    by (intro keeps_intros) (auto split: ControlPacket.splits simp: nat intro!: keeps_intros keeps_modS)
qed

lemma server_ip_turn_keeps [keeps_intros]: "keeps (P C) (server_ip_turn C d p)"
  unfolding server_ip_turn_def by (intro keeps_intros) (auto split: IpTurnProtocol.splits intro!: keeps_intros)

lemma server_handle_keeps [keeps_intros]: "keeps (P C) (server_handle C d k p)"
  unfolding server_handle_def by (intro keeps_intros) (auto split: Protocol.splits intro!: keeps_intros)

text \<open>What arrives.\<close>

lemma recv_handle_keeps: "keeps (P C) (recv_handle resolve parse C buf spare k)"
proof -
  have "keeps (P C) (count_down C p)" for p
    by (auto simp: keeps_def count_down_def bindS_def down split: option.splits sum.splits)
  moreover have "keeps (P C) (updS (\<lambda>w. case recv_data resolve to_ipv4 parse (w_nat_test w) (rk_index k) (rk_addr k) buf of
      (rs, t) \<Rightarrow> (rs = Inr True, w\<lparr>w_nat_test := t\<rparr>)))"
    by (auto simp: nat split: prod.splits intro!: keeps_updS)
  ultimately show ?thesis unfolding recv_handle_def recv_handle0_def by (intro keeps_intros)
qed

end

section \<open>Leaving packets and periodic tasks\<close>

context handler_frame begin

lemma broadcast_loop_keeps [keeps_intros]: "keeps (P C) (broadcast_loop C p i peers reached relay)"
  by (induction C p i peers reached relay rule: broadcast_loop.induct) (auto intro!: keeps_intros)

lemma broadcast_keeps [keeps_intros]: "keeps (P C) (broadcast C p d)"
  unfolding broadcast_def by (intro keeps_intros)

lemma wg_keeps [keeps_intros]: "keeps (P C) (send_to_wg_broadcast C p d)" "keeps (P C) (send_to_wg C p d)"
  unfolding send_to_wg_broadcast_def send_to_wg_def by (intro keeps_intros)+

lemma tun_wg_keeps [keeps_intros]: "keeps (P C) (tun_wg C d src dest is_bc p out1)"
  unfolding tun_wg_def tun_send_def by (intro keeps_intros)

lemma tun_read_keeps: "keeps (P C) (tun_read C buf len spare)"
proof -
  have "keeps (P C) (tun_icmp C ip)" "keeps (P C) (tun_gateway C d pr p)" "keeps (P C) (tun_dispatch C d src dest p out1)"
    for ip d pr p src dest out1
    unfolding tun_icmp_def tun_gateway_def tun_dispatch_def Let_def by (intro keeps_intros)+
  then show ?thesis unfolding tun_read_def tun_handle_def by (intro keeps_intros)
qed

lemma send_ip_keeps: "keeps (P C) (send_ip C buf n aux dest)"
proof -
  have "keeps (P C) (send_ip_plain C d ip p aux)" for d ip p
    unfolding send_ip_plain_def by (intro keeps_intros)
  then show ?thesis unfolding send_ip_def Let_def by (intro keeps_intros)
qed

lemma succeeds_keeps [keeps_intros]: "keeps (P C) m \<Longrightarrow> keeps (P C) (succeeds m)"
  unfolding succeeds_def by (intro keeps_intros)

lemma heartbeat0_keeps: "keeps (P C) (heartbeat0 C)"
proof -
  have h [keeps_intros]: "keeps (P C) (heartbeat_packet_client C a b)" "keeps (P C) (heartbeat_packet_server C a b)" for a b
    unfolding heartbeat_packet_client_def heartbeat_packet_server_def by (intro keeps_intros)+
  have "keeps (P C) (heartbeat_routes C d b e)" for d b e
    unfolding heartbeat_routes_def by (intro keeps_intros h)
  moreover have "keeps (P C) (heartbeat_peer C d q)" for d q
    unfolding heartbeat_peer_def by (intro keeps_intros h)
  ultimately show ?thesis unfolding heartbeat0_def by (intro keeps_intros h)
qed

lemma client_relay0_keeps: "keeps (P C) (client_relay0 C shuffle)"
proof -
  have h: "keeps (P C) (heartbeat_packet_client C a b)" for a b
    unfolding heartbeat_packet_client_def by (intro keeps_intros)
  have p: "keeps (P C) (relay_probe C d p i rs)" for d p i rs
    by (induction C d p i rs rule: relay_probe.induct) (auto intro!: keeps_intros)
  have "keeps (P C) (relay_peers C sh d rs ps)" for sh d rs ps
  proof (induction ps arbitrary: rs)
    case (Cons q ps)
    show ?case by (simp only: relay_peers.simps, intro keeps_intros h p Cons.IH)
  qed (simp add: keeps_intros)
  then show ?thesis unfolding client_relay0_def by (intro keeps_intros)
qed

lemma idle_route0_keeps: "keeps (P C) (idle_route0 C n)"
  unfolding idle_route0_def context_remove_route_def
  by (intro keeps_intros) (auto split: IdleType.splits simp: route_remove offline intro!: keeps_intros keeps_modS)

lemma domain_request0_keeps [keeps_intros]: "keeps (P C) (domain_request0 a)"
  by (auto simp: keeps_def domain_request0_def server split: sum.splits)

lemma idle_gateway0_keeps: "keeps (P C) (idle_gateway0 C a n)"
proof -
  have "keeps (P C) (connect_again C pr srv)" for pr srv
    unfolding connect_again_def by (intro keeps_intros) (auto split: ConnectProtocol.splits intro!: keeps_intros)
  then have "keeps (P C) (check_gateway_channel C a m)" for m
    unfolding check_gateway_channel_def by (intro keeps_intros)
  then show ?thesis unfolding idle_gateway0_def by (intro keeps_intros)
qed

lemma punch_request_keeps: "keeps (P C) (punch_request C shuffle n tries last_punch)"
  unfolding punch_request_def punch0_def Let_def by (intro keeps_intros)

lemma punch_start_keeps: "keeps (P C) (punch_start C shuffle k ip info tries t)"
proof -
  have "keeps (P C) (with_punch t m)" for t m
    by (auto simp: with_punch_def keeps_def sent draws events split: prod.splits)
  then show ?thesis unfolding punch_start_def Let_def by (intro keeps_intros)
qed

lemma pub_address_request_keeps: "keeps (P C) (pub_address_request C g resolve req n)"
  unfolding pub_address_request_def addr_request0_def Let_def by (intro keeps_intros)

lemma retrieve_nat_type0_keeps: "keeps (P C) (retrieve_nat_type0 C probe own4 own6 b add)"
proof -
  have s: "keeps (P C) (context_switch t b add)" for t
    unfolding context_switch_def by (intro keeps_intros) (auto split: NatType.splits simp: sub intro!: keeps_intros keeps_modS)
  have u: "keeps (P C) (updS (\<lambda>w. case f w of (r, t) \<Rightarrow> (r, w\<lparr>w_nat_test := t\<rparr>)))" for f :: "world \<Rightarrow> 'r \<times> NatTest"
    by (auto simp: nat split: prod.splits intro!: keeps_updS)
  show ?thesis unfolding retrieve_nat_type0_def by (intro keeps_intros s u)
qed

lemma send_up_status_keeps: "keeps (P C) (send_up_status_packet C)"
  unfolding send_up_status_packet_def Let_def by (intro keeps_intros)

end

end
