(* ===== verification/System.thy ===== *)
theory System
  imports Frame Sample_World
begin

text \<open>
  The whole program as a state machine, \<^verbatim>\<open>vnt/src/core/conn.rs\<close>: the initial state and the activities that \<open>new\<close>
  and \<open>start\<close> set going, one received or sent packet or one round of a timer at a time, in any order. Between
  two activities clock, network, operating system and application may change; a panic ends the program
  (the release profile aborts).
\<close>

section \<open>Activities\<close>

datatype activity =
    Received "string \<Rightarrow> socket_addr list res" "u8 list \<Rightarrow> socket_addr option" "u8 list" "u8 list" RouteKey
  | Read_from_device "u8 list" nat "u8 list"
  | Sent_by_application "u8 list" nat "u8 list" ipv4
  | Heartbeat
  | Relay_probe "(ipv4 \<times> Route) list \<Rightarrow> (ipv4 \<times> Route) list"
  | Idle_route
  | Idle_gateway "socket_addr res" nat
  | Punch_request "PeerDeviceInfo list \<Rightarrow> PeerDeviceInfo list" nat tally tally
  | Punch_start "u16 list \<Rightarrow> u16 list" nat ipv4 NatInfo tally punch_thread
  | Address_request "nat \<Rightarrow> nat" "string \<Rightarrow> socket_addr list res" "u8 list" nat
  | Nat_type "(NatType \<times> ipv4 list \<times> u16) res" "ipv4 option" "ipv6 option" "nat \<Rightarrow> unit res" "unit res"
  | Up_status

definition voidS :: "(world, 'a) cmd \<Rightarrow> (world, unit) cmd" where
  "voidS m = bindS m (\<lambda>_. retS ())"

text \<open>A route is idle after ten seconds.\<close>

definition READ_IDLE :: nat where "READ_IDLE = 10 * 1000000000"

fun perform :: "conf \<Rightarrow> activity \<Rightarrow> (world, unit) cmd" where
  "perform C (Received resolve parse buf spare k) = recv_handle resolve parse C buf spare k"
| "perform C (Read_from_device buf n spare) = tun_read C buf n spare"
| "perform C (Sent_by_application buf n aux dest) = ignoreS (send_ip C buf n aux dest)"
| "perform C Heartbeat = heartbeat0 C"
| "perform C (Relay_probe shuffle) = ignoreS (client_relay0 C shuffle)"
| "perform C Idle_route = voidS (idle_route0 C READ_IDLE)"
| "perform C (Idle_gateway resolved n) = voidS (idle_gateway0 C resolved n)"
| "perform C (Punch_request shuffle n tries last_punch) = voidS (punch_request C shuffle n tries last_punch)"
| "perform C (Punch_start shuffle k ip info tries t) = voidS (punch_start C shuffle k ip info tries t)"
| "perform C (Address_request g resolve req n) = voidS (pub_address_request C g resolve req n)"
| "perform C (Nat_type probe own4 own6 b add) = retrieve_nat_type0 C probe own4 own6 b add"
| "perform C Up_status = ignoreS (send_up_status_packet C)"

text \<open>Which timers run depends on the kind of channels that are allowed.\<close>

fun started :: "UseChannelType \<Rightarrow> activity \<Rightarrow> bool" where
  "started t (Relay_probe _) = (\<not> UseChannelType_is_only_p2p t)"
| "started t (Punch_request _ _ _ _) = (\<not> UseChannelType_is_only_relay t)"
| "started t (Punch_start _ _ _ _ _ _) = (\<not> UseChannelType_is_only_relay t)"
| "started t (Address_request _ _ _ _) = (\<not> UseChannelType_is_only_relay t)"
| "started t (Nat_type _ _ _ _ _) = (\<not> UseChannelType_is_only_relay t)"
| "started t _ = True"

section \<open>States\<close>

definition world_new :: "ContextInner \<Rightarrow> socket_addr \<Rightarrow> NatTest \<Rightarrow> IpProxyMap \<Rightarrow> nat \<Rightarrow> nat \<Rightarrow> world" where
  "world_new c server_address nat_test ip_proxy up_key_time handshake_time = ContextInner.extend c
     \<lparr>w_current_device = CurrentDeviceInfo_new0 server_address, w_epoch = 0, w_devices = [],
      w_nat_test = nat_test, w_peer_nat_info = Map.empty, w_rsa_cipher = None,
      w_up_key_time = up_key_time, w_handshake_time = handshake_time, w_ip_proxy = ip_proxy,
      w_tun = False, w_tun_stop = False, w_events = []\<rparr>"

text \<open>The configuration and the libraries are fixed; the rest of \<open>conf\<close> is the outside world, which is not.\<close>

definition same_program :: "conf \<Rightarrow> conf \<Rightarrow> bool" where
  "same_program C C' \<longleftrightarrow> (\<exists>E r i w q a c g op st. C' = C\<lparr>cf_env := E, cf_rsa_random := r, cf_icmp_send := i,
     cf_tun_write := w, cf_punch_ready := q, cf_accept := a, cf_create_device := c, cf_generate_tun := g,
     cf_open_device := op, cf_start_thread := st\<rparr>)"

inductive reaches :: "conf \<Rightarrow> world \<Rightarrow> world \<Rightarrow> bool" for C :: conf where
  reaches_refl: "reaches C w w"
| reaches_step: "reaches C w w' \<Longrightarrow> same_program C C' \<Longrightarrow> started (use_channel_type w') a \<Longrightarrow>
    perform C' a w' = (r, w'') \<Longrightarrow> r \<noteq> Inl Panic \<Longrightarrow> reaches C w w''"

section \<open>Every activity keeps a framed predicate\<close>

context handler_frame begin

lemma voidS_keeps: "keeps (P C) m \<Longrightarrow> keeps (P C) (voidS m)"
  unfolding voidS_def by (intro keeps_intros)

lemma perform_keeps: "keeps (P C) (perform C a)"
  by (cases a) (simp_all add: recv_handle_keeps tun_read_keeps send_ip_keeps heartbeat0_keeps client_relay0_keeps
      idle_route0_keeps idle_gateway0_keeps punch_request_keeps punch_start_keeps pub_address_request_keeps
      retrieve_nat_type0_keeps send_up_status_keeps voidS_keeps keeps_ignoreS)

lemma reaches_keeps:
  assumes "reaches C w w'" "\<And>C'. same_program C C' \<Longrightarrow> P C' = P C" "P C w"
  shows "P C w'"
  using assms
proof (induction rule: reaches.induct)
  case (reaches_step w w' C' a r w'')
  then have "P C' w'" by simp
  from keepsD[OF perform_keeps this reaches_step.hyps(4)] have "P C' w''" .
  with reaches_step.prems(1)[OF reaches_step.hyps(2)] show ?case by simp
qed simp

end

section \<open>The invariant of the program\<close>

text \<open>
  Routes and meters are well formed, the peer list has one entry per address, under that address; a
  device that counts as registered has network and broadcast addresses that fit its mask; and the
  network device exists exactly when its reader can be stopped.
\<close>

definition world_inv :: "world \<Rightarrow> bool" where
  "world_inv w \<longleftrightarrow> rt_inv (cx_route_table w) \<and>
     (\<forall>m. cx_up_meter w = Some m \<longrightarrow> mm_inv m) \<and> (\<forall>m. cx_down_meter w = Some m \<longrightarrow> mm_inv m) \<and>
     distinct (map fst (w_devices w)) \<and> (\<forall>(ip, i) \<in> set (w_devices w). pd_virtual_ip i = ip) \<and>
     (cd_status (w_current_device w) = Connected \<longrightarrow> device_wf (w_current_device w)) \<and>
     w_tun w = w_tun_stop w"

lemma add_traffic_inv: "mm_inv m \<Longrightarrow> mm_inv (add_traffic a b c ip n m)"
  using add_traffic_step[of m "((a, b, c), ip, n)"] by (simp add: meter_step_def)

lemma device_list_wf:
  assumes "distinct (map fst m)" "\<forall>(ip, i) \<in> set m. pd_virtual_ip i = ip"
  shows "distinct (map fst (foldl (\<lambda>m i. AList.update (pd_virtual_ip i) i m) m ds)) \<and>
    (\<forall>(ip, i) \<in> set (foldl (\<lambda>m i. AList.update (pd_virtual_ip i) i m) m ds). pd_virtual_ip i = ip)"
  using assms
proof (induction ds arbitrary: m)
  case (Cons d ds)
  have "\<forall>(ip, i) \<in> set (AList.update (pd_virtual_ip d) d m). pd_virtual_ip i = ip"
    using Cons.prems(2) set_update_subset[of "pd_virtual_ip d" d m] by blast
  with Cons.IH[of "AList.update (pd_virtual_ip d) d m"] Cons.prems(1) show ?case by (simp add: distinct_update)
qed simp

interpretation world_frame: handler_frame "\<lambda>_. world_inv"
proof (unfold_locales, goal_cases)
  case (17 C w ds)
  then show ?case using device_list_wf[of "[]" ds] by (simp add: world_inv_def)
next
  case (18 C w rr)
  then show ?case
    by (simp add: world_inv_def registered_device_def device_wf_update device_wf_def CurrentDeviceInfo_update_def)
next
  case (20 C w addr)
  then show ?case by (simp add: world_inv_def device_wf_def)
next
  case (21 C)
  then show ?case unfolding TunDeviceHelper_stop_def by (rule keeps_modS) (simp add: world_inv_def)
next
  case (22 C)
  then show ?case by (auto simp: keeps_def TunDeviceHelper_start_def thenS_eq failS_def world_inv_def bindS_def)
qed (auto simp: world_inv_def add_traffic_inv add_route_def add_route_if_absent_def add_route_inner_inv
    update_read_time_inv remove_route_inv change_status_def)

text \<open>A server's key that was accepted: with encryption configured it stays.\<close>

definition pinned :: "RsaCipher \<Rightarrow> conf \<Rightarrow> world \<Rightarrow> bool" where
  "pinned r C w \<longleftrightarrow> (cf_server_key C \<noteq> None \<longrightarrow> w_rsa_cipher w = Some r)"

interpretation pinned_frame: handler_frame "pinned r" for r
  by unfold_locales (auto simp: pinned_def keeps_def TunDeviceHelper_stop_def TunDeviceHelper_start_def bindS_def thenS_eq)

section \<open>Properties\<close>

lemma world_new_inv:
  assumes "ChannelContext_new main_len v4_len ty fl protocol scaled delay up down = Inr c"
    and "up = None \<or> up = Some TrafficMeterMultiAddress_default"
    and "down = None \<or> down = Some TrafficMeterMultiAddress_default"
  shows "world_inv (world_new c srv nt px t1 t2)"
proof -
  have "mm_inv TrafficMeterMultiAddress_default"
    by (simp add: mm_inv_def TrafficMeterMultiAddress_default_def TrafficMeterMultiAddress_new_def)
  moreover have "rt_inv (RouteTable_new ty fl v4_len)" if "v4_len \<noteq> 0"
    using that by (simp add: rt_inv_def RouteTable_new_def rt_get_def)
  ultimately show ?thesis using assms
    by (auto simp: world_inv_def world_new_def ContextInner.defs ChannelContext_new_def CurrentDeviceInfo_new0_def
        split: if_splits)
qed

text \<open>
  C2. In every state the program can reach, whatever packets arrive (malformed, replayed and hostile ones
  included), whatever is sent and whenever the timers run: the route table and the traffic meters are well
  formed, the peer list has one entry per address, stored under that address, a device that counts as
  registered has network and broadcast addresses that fit its gateway and mask, and the network device
  exists exactly when its reader thread can be stopped.
\<close>

theorem reachable_world_inv:
  assumes "ChannelContext_new main_len v4_len ty fl protocol scaled delay up down = Inr c"
    and "up = None \<or> up = Some TrafficMeterMultiAddress_default"
    and "down = None \<or> down = Some TrafficMeterMultiAddress_default"
    and "reaches C (world_new c srv nt px t1 t2) w"
  shows "rt_inv (cx_route_table w) \<and>
     (\<forall>m. cx_up_meter w = Some m \<or> cx_down_meter w = Some m \<longrightarrow> mm_inv m) \<and>
     distinct (map fst (w_devices w)) \<and> (\<forall>(ip, i) \<in> set (w_devices w). pd_virtual_ip i = ip) \<and>
     (cd_status (w_current_device w) = Connected \<longrightarrow> device_wf (w_current_device w)) \<and>
     w_tun w = w_tun_stop w"
  using world_frame.reaches_keeps[OF assms(4) _ world_new_inv[OF assms(1-3)]] by (auto simp: world_inv_def)

definition new_context :: ContextInner where
  "new_context = projr (ChannelContext_new 2 1 Use_All False Conn_UDP None 0 None None)"

lemma reachable_world_inv_witness:
  "\<exists>w. reaches sample_conf (world_new new_context (SockV4 1 2) sample_nat (w_ip_proxy sample_world) 0 0) w \<and>
     w_events w = [] \<and> rt_inv (cx_route_table w)"
proof -
  let ?w = "world_new new_context (SockV4 1 2) sample_nat (w_ip_proxy sample_world) 0 0"
  have c: "ChannelContext_new 2 1 Use_All False Conn_UDP None 0 None None = Inr new_context"
    by (simp add: new_context_def ChannelContext_new_def)
  have "perform sample_conf Idle_route ?w = (Inr (), ?w)"
    by (simp add: voidS_def idle_route0_def bindS_def next_idle_def world_new_def ContextInner.defs new_context_def
        ChannelContext_new_def RouteTable_new_def)
  moreover have "same_program sample_conf sample_conf" unfolding same_program_def by (simp add: sample_conf_def)
  ultimately have r: "reaches sample_conf ?w ?w"
    by (intro reaches_step[OF reaches_refl, of sample_conf sample_conf ?w Idle_route "Inr ()" ?w]) simp_all
  from reachable_world_inv[OF c _ _ r] r show ?thesis
    by (intro exI[of _ ?w]) (simp add: world_new_def ContextInner.defs)
qed



end
