(* ===== verification/Name_Lookup.thy ===== *)
theory Name_Lookup
  imports Text_Parsing
begin

text \<open>
  Finding the server, \<^verbatim>\<open>vnt/src/util/dns_query.rs\<close>, on the platforms but iOS: a DNS query with its
  retries, the queries to the configured name servers in turn, and the choice among the addresses found,
  with its record of addresses used before. Sockets, the system's resolver and the DNS packet format are library
  code: what they answer is a parameter. A read that times out has the kind \<open>WouldBlock\<close> (on Windows it is
  \<open>TimedOut\<close>, handled alike).
\<close>

section \<open>One query\<close>

datatype rdata = RD_A ipv4 | RD_AAAA ipv6 | RD_TXT "string list" | RD_other

datatype query_type = Query_A | Query_AAAA | Query_TXT

record dns_packet =
  dp_no_error :: bool
  dp_answers :: "rdata list"

text \<open>
  What the network answers: the \<open>n\<close>-th attempt of a query of a type for a name at a server fails, or brings a datagram,
  which may not be a DNS packet. Then the system's resolver, binding a socket for a family (IPv6 or not),
  connecting a datagram socket, and the reader of IPv6 addresses.
\<close>

record name_env =
  ne_recv :: "query_type \<Rightarrow> string \<Rightarrow> socket_addr \<Rightarrow> nat \<Rightarrow> dns_packet option res"
  ne_system :: "string \<Rightarrow> socket_addr list res"
  ne_bind :: "bool \<Rightarrow> unit res"
  ne_connect :: "socket_addr \<Rightarrow> unit res"
  ne_v6 :: "string \<Rightarrow> ipv6 option"

definition is_timeout :: "err \<Rightarrow> bool" where
  "is_timeout e = (case e of Io k m \<Rightarrow> k = WouldBlock | _ \<Rightarrow> False)"

function recv_retrying :: "(nat \<Rightarrow> 'a res) \<Rightarrow> nat \<Rightarrow> 'a res" where
  "recv_retrying recv count = (case recv count of
     Inr r \<Rightarrow> Inr r
   | Inl e \<Rightarrow> if is_timeout e \<and> count + 1 < 3 then recv_retrying recv (count + 1) else Inl e)"
  by auto
termination by (relation "measure (\<lambda>(_, c). 3 - c)") auto

declare recv_retrying.simps [simp del]

definition query :: "name_env \<Rightarrow> query_type \<Rightarrow> string \<Rightarrow> socket_addr \<Rightarrow> rdata list res" where
  "query E t domain server =
     bindE (ne_connect E server) (\<lambda>_. bindE (recv_retrying (ne_recv E t domain server) 0) (\<lambda>answer.
       case answer of
         None \<Rightarrow> Inl (Anyhow ''DNS data error'')
       | Some p \<Rightarrow>
           if \<not> dp_no_error p then Inl (Anyhow ''response_code'')
           else if dp_answers p = [] then Inl (Anyhow ''No records received'')
           else Inr (dp_answers p)))"

definition ask_server :: "name_env \<Rightarrow> query_type \<Rightarrow> string \<Rightarrow> string \<Rightarrow> rdata list res" where
  "ask_server E t domain name_server = (case parse_socket_addr (ne_v6 E) name_server of
     None \<Rightarrow> Inl (Anyhow ''invalid socket address'')
   | Some server \<Rightarrow> bindE (ne_bind E (\<not> sa_is_ipv4 server)) (\<lambda>_. query E t domain server))"

fun addrs_of_texts :: "name_env \<Rightarrow> string list \<Rightarrow> socket_addr list res" where
  "addrs_of_texts E [] = Inr []"
| "addrs_of_texts E (x # xs) = (case parse_socket_addr (ne_v6 E) x of
     None \<Rightarrow> Inl (Anyhow ''record type txt is not SocketAddr'')
   | Some a \<Rightarrow> mapE (\<lambda>as. a # as) (addrs_of_texts E xs))"

definition txt_dns :: "name_env \<Rightarrow> string \<Rightarrow> string \<Rightarrow> socket_addr list res" where
  "txt_dns E domain name_server = bindE (ask_server E Query_TXT domain name_server) (\<lambda>answers.
     addrs_of_texts E (concat (map (\<lambda>r. case r of RD_TXT ts \<Rightarrow> ts | _ \<Rightarrow> []) answers)))"

definition a_dns :: "name_env \<Rightarrow> string \<Rightarrow> string \<Rightarrow> ipv4 list res" where
  "a_dns E domain name_server = mapE (List.map_filter (\<lambda>r. case r of RD_A a \<Rightarrow> Some a | _ \<Rightarrow> None))
     (ask_server E Query_A domain name_server)"

definition aaaa_dns :: "name_env \<Rightarrow> string \<Rightarrow> string \<Rightarrow> ipv6 list res" where
  "aaaa_dns E domain name_server = mapE (List.map_filter (\<lambda>r. case r of RD_AAAA a \<Rightarrow> Some a | _ \<Rightarrow> None))
     (ask_server E Query_AAAA domain name_server)"

section \<open>All name servers\<close>

definition err_text :: "err \<Rightarrow> string" where
  "err_text e = (case e of Io k m \<Rightarrow> m | Anyhow m \<Rightarrow> m | Panic \<Rightarrow> [])"

text \<open>The error kept while the servers are asked, the new one behind it.\<close>

definition add_err :: "string \<Rightarrow> err option \<Rightarrow> err \<Rightarrow> err option" where
  "add_err sep old e = Some (Anyhow (case old of Some o' \<Rightarrow> err_text o' @ sep @ err_text e | None \<Rightarrow> err_text e))"

definition no_answer :: "err option \<Rightarrow> 'a res" where
  "no_answer e = Inl (case e of Some e \<Rightarrow> e | None \<Rightarrow> Anyhow ''DNS query failed'')"

fun txt_loop :: "name_env \<Rightarrow> string \<Rightarrow> string list \<Rightarrow> err option \<Rightarrow> socket_addr list res" where
  "txt_loop E domain [] e = no_answer e"
| "txt_loop E domain (s # ss) e = (case txt_dns E domain s of
     Inr addrs \<Rightarrow> if addrs \<noteq> [] then Inr addrs else txt_loop E domain ss e
   | Inl e' \<Rightarrow> txt_loop E domain ss (add_err '' '' e e'))"

definition host_port :: "string \<Rightarrow> (string \<times> u16) res" where
  "host_port domain = (case split_last (CHR '':'') domain of
     None \<Rightarrow> Inl (Anyhow ''not port'')
   | Some (host, port) \<Rightarrow> (case parse_u16 port of None \<Rightarrow> Inl (Anyhow ''not port'') | Some p \<Rightarrow> Inr (host, of_nat p)))"

fun host_loop :: "name_env \<Rightarrow> string \<Rightarrow> string list \<Rightarrow> err option \<Rightarrow> socket_addr list res" where
  "host_loop E domain [] e = no_answer e"
| "host_loop E domain (s # ss) e = bindE (host_port domain) (\<lambda>(host, port).
     let (addr4, e) = (case a_dns E host s of
             Inr ips \<Rightarrow> (map (\<lambda>ip. SockV4 ip port) ips, e) | Inl e' \<Rightarrow> ([], Some (Anyhow (err_text e'))));
         (addr, e) = (case aaaa_dns E host s of
             Inr ips \<Rightarrow> (addr4 @ map (\<lambda>ip. SockV6 ip port 0 0) ips, e)
           | Inl e' \<Rightarrow> (addr4, if addr4 = [] then add_err '','' e e' else e))
     in if addr = [] then host_loop E domain ss e else Inr addr)"

definition dns_query_all :: "name_env \<Rightarrow> string \<Rightarrow> string list \<Rightarrow> socket_addr list res" where
  "dns_query_all E domain name_servers = (case parse_socket_addr (ne_v6 E) domain of
     Some addr \<Rightarrow> Inr [addr]
   | None \<Rightarrow> (case strip_prefix ''txt:'' (to_lowercase domain) of
         Some txt_domain \<Rightarrow> txt_loop E txt_domain
           (if name_servers = [] then [''223.5.5.5:53'', ''114.114.114.114:53''] else name_servers) None
       | None \<Rightarrow> if name_servers = [] then ne_system E domain else host_loop E domain name_servers None))"

section \<open>The choice\<close>

type_synonym history = "socket_addr \<Rightarrow> nat"

fun first_connected :: "name_env \<Rightarrow> socket_addr list \<Rightarrow> socket_addr res" where
  "first_connected E [] = Inl (Anyhow ''Unable to connect to address'')"
| "first_connected E (a # as) = (case ne_connect E a of Inr _ \<Rightarrow> Inr a | Inl _ \<Rightarrow> first_connected E as)"

definition check_addr :: "name_env \<Rightarrow> socket_addr list \<Rightarrow> socket_addr res" where
  "check_addr E addrs = (case addrs of
     [] \<Rightarrow> Inl (Anyhow ''Unable to connect to address'')
   | a # _ \<Rightarrow> bindE (ne_bind E (\<not> sa_is_ipv4 a)) (\<lambda>_. first_connected E addrs))"

definition address_choose0 :: "name_env \<Rightarrow> socket_addr list \<Rightarrow> socket_addr res" where
  "address_choose0 E addrs =
     (let v4 = filter sa_is_ipv4 addrs; v6 = filter (\<lambda>a. \<not> sa_is_ipv4 a) addrs in
      if v6 = [] then check_addr E v4
      else if v4 = [] then check_addr E v6
      else (case check_addr E v6 of
          Inr addr \<Rightarrow> Inr addr
        | Inl e1 \<Rightarrow> (case check_addr E v4 of
              Inr addr \<Rightarrow> Inr addr | Inl e2 \<Rightarrow> Inl (Anyhow (err_text e1 @ '' , '' @ err_text e2)))))"

text \<open>The record keeps its changes when no address can be chosen.\<close>

definition address_choose :: "name_env \<Rightarrow> socket_addr list \<Rightarrow> history \<Rightarrow> socket_addr res \<times> history" where
  "address_choose E addrs history =
     (let available = filter (\<lambda>x. history x < 3) addrs;
          (available, history) = (if available = [] then (addrs, \<lambda>_. 0) else (available, history)) in
      case address_choose0 E available of
        Inl e \<Rightarrow> (Inl e, history)
      | Inr addr \<Rightarrow> (Inr addr, history(addr := history addr + 1)))"

section \<open>Facts\<close>

text \<open>At most three attempts: the first that does not time out, or the third.\<close>

lemma recv_retrying_thrice:
  "recv_retrying recv 0 = (let timed_out = (\<lambda>n. \<exists>e. recv n = Inl e \<and> is_timeout e) in
     if \<not> timed_out 0 then recv 0 else if \<not> timed_out 1 then recv 1 else recv (2::nat))"
  by (subst recv_retrying.simps; subst recv_retrying.simps; subst recv_retrying.simps)
    (auto simp: Let_def numeral_eq_Suc split: sum.splits)

text \<open>What a server answers for a host.\<close>

definition answers :: "name_env \<Rightarrow> string \<Rightarrow> u16 \<Rightarrow> string \<Rightarrow> socket_addr list" where
  "answers E host port s =
     (case a_dns E host s of Inr ips \<Rightarrow> map (\<lambda>ip. SockV4 ip port) ips | Inl _ \<Rightarrow> []) @
     (case aaaa_dns E host s of Inr ips \<Rightarrow> map (\<lambda>ip. SockV6 ip port 0 0) ips | Inl _ \<Rightarrow> [])"

lemma host_loop_step:
  assumes "host_port domain = Inr (host, port)"
  shows "\<exists>e'. host_loop E domain (s # ss) e =
     (if answers E host port s \<noteq> [] then Inr (answers E host port s) else host_loop E domain ss e')"
  by (cases "a_dns E host s"; cases "aaaa_dns E host s") (auto simp: assms answers_def Let_def)

lemma host_loop_find:
  assumes "host_port domain = Inr (host, port)"
  shows "(\<forall>s. find (\<lambda>s. answers E host port s \<noteq> []) ss = Some s \<longrightarrow> host_loop E domain ss e = Inr (answers E host port s)) \<and>
    (find (\<lambda>s. answers E host port s \<noteq> []) ss = None \<longrightarrow> (\<exists>e'. host_loop E domain ss e = Inl e'))"
proof (induction ss arbitrary: e)
  case (Cons s ss)
  obtain e' where "host_loop E domain (s # ss) e =
     (if answers E host port s \<noteq> [] then Inr (answers E host port s) else host_loop E domain ss e')"
    using host_loop_step[OF assms] by blast
  with Cons.IH[of e'] show ?case by (simp del: host_loop.simps)
qed (simp add: no_answer_def)

lemma first_connected_Inr:
  "first_connected E as = Inr a \<Longrightarrow> a \<in> set as \<and> ne_connect E a = Inr ()"
  by (induction as) (auto split: sum.splits)

lemma check_addr_Inr: "check_addr E as = Inr a \<Longrightarrow> a \<in> set as \<and> ne_connect E a = Inr ()"
  by (cases as) (auto simp: check_addr_def bindE_Inr_iff simp del: first_connected.simps dest!: first_connected_Inr)

lemma address_choose0_Inr:
  assumes "address_choose0 E as = Inr a"
  shows "a \<in> set as \<and> ne_connect E a = Inr () \<and>
    (sa_is_ipv4 a \<longrightarrow> (\<forall>b\<in>set as. \<not> sa_is_ipv4 b \<longrightarrow> (\<forall>c. check_addr E (filter (\<lambda>a. \<not> sa_is_ipv4 a) as) \<noteq> Inr c)))"
  using assms
  by (auto simp: address_choose0_def Let_def filter_empty_conv split: if_splits sum.splits dest!: check_addr_Inr)

lemma address_choose0_none:
  assumes "\<forall>a\<in>set as. ne_connect E a \<noteq> Inr ()" shows "\<exists>e. address_choose0 E as = Inl e"
  using assms address_choose0_Inr[of E as] by (cases "address_choose0 E as") auto

section \<open>Properties\<close>

text \<open>
  C32. Asking the name servers is a search for the first that answers: for a host with a port, the result of
  the loop, with its threads, its errors and its continuations, is what the first server that has any address
  for the host answers, its IPv4 addresses before its IPv6 addresses, all with the port; and an error when no
  server has one.
\<close>

theorem dns_first_answer:
  assumes "parse_socket_addr (ne_v6 E) domain = None" and "strip_prefix ''txt:'' (to_lowercase domain) = None"
    and "servers \<noteq> []" and "host_port domain = Inr (host, port)"
  shows "(case find (\<lambda>s. answers E host port s \<noteq> []) servers of
      Some s \<Rightarrow> dns_query_all E domain servers = Inr (answers E host port s)
    | None \<Rightarrow> \<exists>e. dns_query_all E domain servers = Inl e)"
proof -
  have "dns_query_all E domain servers = host_loop E domain servers None"
    using assms(1-3) by (simp add: dns_query_all_def)
  with host_loop_find[OF assms(4), of E servers None] show ?thesis by (auto split: option.split)
qed

definition sample_names :: name_env where
  "sample_names = \<lparr>ne_recv = (\<lambda>t d s n. if t = Query_A \<and> n = 1 \<and> s = SockV4 0x08080808 53
       then Inr (Some \<lparr>dp_no_error = True, dp_answers = [RD_A 0x01020304]\<rparr>) else Inl (Io WouldBlock [])),
     ne_system = (\<lambda>_. Inl (Io NotFound [])), ne_bind = (\<lambda>_. Inr ()), ne_connect = (\<lambda>_. Inr ()),
     ne_v6 = (\<lambda>s. if s = ''::1'' then Some 1 else None)\<rparr>"

lemma sample_answers: "answers sample_names ''a'' 80 ''8.8.8.8:53'' = [SockV4 0x01020304 80]"
proof -
  have p: "parse_socket_addr (ne_v6 sample_names) ''8.8.8.8:53'' = Some (SockV4 0x08080808 53)"
    by (simp add: parse_socket_addr_def parse_socket_v4_def parse_ipv4_def parse_octet_def parse_digits_def
        digit_value_def Ipv4Addr_new_def be32_def)
  have r: "recv_retrying (ne_recv sample_names Query_A ''a'' (SockV4 0x08080808 53)) 0 =
      Inr (Some \<lparr>dp_no_error = True, dp_answers = [RD_A 0x01020304]\<rparr>)"
    "\<exists>e. recv_retrying (ne_recv sample_names Query_AAAA ''a'' (SockV4 0x08080808 53)) 0 = Inl e"
    unfolding recv_retrying_thrice by (simp_all add: sample_names_def is_timeout_def Let_def)
  have n: "ne_bind sample_names b = Inr ()" "ne_connect sample_names a = Inr ()" for a b
    by (simp_all add: sample_names_def)
  show ?thesis
    using r by (auto simp: answers_def a_dns_def aaaa_dns_def ask_server_def p query_def n List.map_filter_def mapE_def)
qed

lemma dns_first_answer_witness:
  "dns_query_all sample_names ''a:80'' [''8.8.8.8:53''] = Inr [SockV4 0x01020304 80]"
proof -
  have 1: "parse_socket_addr (ne_v6 sample_names) ''a:80'' = None"
    by (simp add: parse_socket_addr_def parse_socket_v4_def parse_ipv4_def parse_socket_v6_def)
  have 2: "strip_prefix ''txt:'' (to_lowercase ''a:80'') = None" by (simp add: to_lowercase_def)
  have 3: "host_port ''a:80'' = Inr (''a'', 80)"
    by (simp add: host_port_def split_last_def parse_u16_def parse_unsigned_def digit_value_def)
  show ?thesis using dns_first_answer[OF 1 2 _ 3, of "[''8.8.8.8:53'']"] by (simp add: sample_answers)
qed

text \<open>
  The choice among the addresses rotates, and can get stuck. A chosen address is one of those given and
  could be connected; while one of them has been chosen less than three times, one such address is chosen and its
  count goes up by one, else the record starts anew with this choice. But when no address chosen less than three
  times can be connected, the choice fails and the record stays as it is: every later choice from the same
  addresses fails as well, though an address chosen three times may be fine.
\<close>

theorem address_choose_rotates:
  "(\<forall>a h'. address_choose E addrs h = (Inr a, h') \<longrightarrow> a \<in> set addrs \<and> ne_connect E a = Inr () \<and>
      (if \<exists>x\<in>set addrs. h x < 3 then h a < 3 \<and> h' = h(a := h a + 1) else h' = (\<lambda>_. 0)(a := 1))) \<and>
   ((\<exists>x\<in>set addrs. h x < 3) \<and> (\<forall>x\<in>set addrs. h x < 3 \<longrightarrow> ne_connect E x \<noteq> Inr ()) \<longrightarrow>
      (\<forall>n. \<exists>e. address_choose E addrs (((\<lambda>h. snd (address_choose E addrs h)) ^^ n) h) = (Inl e, h)))"
proof -
  have "\<forall>n. \<exists>e. address_choose E addrs (((\<lambda>h. snd (address_choose E addrs h)) ^^ n) h) = (Inl e, h)"
    if x: "x \<in> set addrs" "h x < 3" "\<forall>x\<in>set addrs. h x < 3 \<longrightarrow> ne_connect E x \<noteq> Inr ()" for x
  proof
    have "filter (\<lambda>x. h x < 3) addrs \<noteq> []" using x(1,2) by (auto simp: filter_empty_conv)
    then obtain e where e: "address_choose E addrs h = (Inl e, h)"
      using address_choose0_none[of "filter (\<lambda>x. h x < 3) addrs" E] x(3) by (auto simp: address_choose_def)
    have "((\<lambda>h. snd (address_choose E addrs h)) ^^ n) h = h" for n by (induction n) (simp_all add: e)
    with e show "\<exists>e. address_choose E addrs (((\<lambda>h. snd (address_choose E addrs h)) ^^ n) h) = (Inl e, h)" for n by simp
  qed
  moreover have "a \<in> set addrs \<and> ne_connect E a = Inr () \<and>
      (if \<exists>x\<in>set addrs. h x < 3 then h a < 3 \<and> h' = h(a := h a + 1) else h' = (\<lambda>_. 0)(a := 1))"
    if "address_choose E addrs h = (Inr a, h')" for a h'
    using that by (auto simp: address_choose_def Let_def filter_empty_conv split: if_splits sum.splits dest!: address_choose0_Inr)
  ultimately show ?thesis by blast
qed

lemma address_choose_rotates_witness:
  "\<exists>e. address_choose (sample_names\<lparr>ne_connect := (\<lambda>a. if sa_is_ipv4 a then Inr () else Inl (Io OtherKind []))\<rparr>)
     [SockV4 1 80, SockV6 1 80 0 0] ((\<lambda>_. 0)(SockV4 1 80 := 3)) = (Inl e, (\<lambda>_. 0)(SockV4 1 80 := 3))"
  using address_choose_rotates[of "sample_names\<lparr>ne_connect := (\<lambda>a. if sa_is_ipv4 a then Inr () else Inl (Io OtherKind []))\<rparr>"
      "[SockV4 1 80, SockV6 1 80 0 0]" "(\<lambda>_. 0)(SockV4 1 80 := 3)"]
  by (auto simp: sa_is_ipv4_def dest: spec[of _ 0])

end
