(* ===== verification/Settings.thy ===== *)
theory Settings
  imports Name_Lookup External_Route Cipher Compression Nat_Info Channel
begin

text \<open>
  The configuration: reading networks from text (\<^verbatim>\<open>common/src/args_parse.rs\<close>) and port mappings
  (\<^verbatim>\<open>convert\<close> of \<^verbatim>\<open>vnt/src/port_mapping/mod.rs\<close>), the checks and completions of \<open>Config::new\<close>
  and the hash of the password (\<^verbatim>\<open>vnt/src/core/mod.rs\<close>), and reading the channel type
  (\<^verbatim>\<open>vnt/src/channel/mod.rs\<close>). Strings are their UTF-8 bytes. The loss rate is only passed on.
\<close>

section \<open>Networks\<close>

text \<open>\<open>to_ip\<close>: the mask of a prefix length, bit by bit.\<close>

definition netmask :: "nat \<Rightarrow> u32" where
  "netmask m = foldl (\<lambda>mask i. mask OR push_bit (31 - i) 1) 0 [0..<m]"

definition to_ip :: "string \<Rightarrow> string + u32" where
  "to_ip s = (case parse_u32 s of
     None \<Rightarrow> Inl ''not netmask''
   | Some m \<Rightarrow> if m > 32 then Inl ''not netmask''
       else Inr (netmask m))"

text \<open>\<open>split.next()\<close>: further parts are not looked at.\<close>

definition parse_network :: "string \<Rightarrow> string + u32 \<times> u32" where
  "parse_network net = (case split_on (CHR ''/'') net of
     dest # rest \<Rightarrow> (case rest of
         [] \<Rightarrow> Inl (''no netmask '' @ net)
       | m # _ \<Rightarrow> (case parse_ipv4 dest of
             None \<Rightarrow> Inl (''not ipv4 '' @ dest)
           | Some ip \<Rightarrow> mapE (\<lambda>k. (ip, k)) (to_ip m)))
   | [] \<Rightarrow> Inl (''no ipv4/mask '' @ net))"

fun ips_parse :: "string list \<Rightarrow> string + (u32 \<times> u32 \<times> ipv4) list" where
  "ips_parse [] = Inr []"
| "ips_parse (x # xs) = (case split_on (CHR '','') x of
     net # gateway # _ \<Rightarrow> (case parse_ipv4 gateway of
         None \<Rightarrow> Inl (''not ipv4 '' @ gateway)
       | Some ip \<Rightarrow> bindE (parse_network net) (\<lambda>(dest, m). mapE (\<lambda>rs. (dest, m, ip) # rs) (ips_parse xs)))
   | _ \<Rightarrow> Inl (''ipv4/mask,ipv4 '' @ x))"

fun out_ips_parse :: "string list \<Rightarrow> string + (u32 \<times> u32) list" where
  "out_ips_parse [] = Inr []"
| "out_ips_parse (x # xs) = bindE (parse_network x) (\<lambda>r. mapE (\<lambda>rs. r # rs) (out_ips_parse xs))"

section \<open>Port mappings\<close>

text \<open>TCP or not, the address to bind, the destination.\<close>

fun port_mapping_convert :: "(string \<Rightarrow> ipv6 option) \<Rightarrow> string list \<Rightarrow> (bool \<times> socket_addr \<times> string) list res" where
  "port_mapping_convert v6 [] = Inr []"
| "port_mapping_convert v6 (x # xs) =
     (let s = to_lowercase (trim x);
          entry = (\<lambda>is_tcp t. case split_on (CHR ''-'') t of
              bind_addr # rest \<Rightarrow> (case parse_socket_addr v6 bind_addr of
                  None \<Rightarrow> Inl (Anyhow (''udp_mapping error '' @ bind_addr))
                | Some a \<Rightarrow> (case rest of
                      [] \<Rightarrow> Inl (Anyhow (''mapping error '' @ x))
                    | dest # _ \<Rightarrow> mapE (\<lambda>rs. (is_tcp, a, dest) # rs) (port_mapping_convert v6 xs)))
            | [] \<Rightarrow> Inl (Anyhow (''mapping error '' @ x)))
      in case strip_prefix ''udp:'' s of
           Some t \<Rightarrow> entry False t
         | None \<Rightarrow> (case strip_prefix ''tcp:'' s of
               Some t \<Rightarrow> entry True t
             | None \<Rightarrow> Inl (Anyhow (''port_mapping error '' @ x))))"

definition UseChannelType_from_str :: "string \<Rightarrow> string + UseChannelType" where
  "UseChannelType_from_str s = (let t = trim (to_lowercase s) in
     if t = ''relay'' then Inr Use_Relay else if t = ''p2p'' then Inr Use_P2p else if t = ''all'' then Inr Use_All
     else Inl (''not match '' @ s))"

section \<open>The configuration\<close>

text \<open>What \<open>Config::new\<close> is given, and what it adds.\<close>

record config_args =
  ca_tap :: bool
  ca_token :: string
  ca_device_id :: string
  ca_name :: string
  ca_server_address_str :: string
  ca_name_servers :: "string list"
  ca_stun_server :: "string list"
  ca_in_ips :: "(u32 \<times> u32 \<times> ipv4) list"
  ca_out_ips :: "(u32 \<times> u32) list"
  ca_password :: "string option"
  ca_mtu :: "u32 option"
  ca_ip :: "ipv4 option"
  ca_no_proxy :: bool
  ca_server_encrypt :: bool
  ca_cipher_model :: CipherModel
  ca_finger :: bool
  ca_punch_model :: PunchModel
  ca_ports :: "u16 list option"
  ca_first_latency :: bool
  ca_device_name :: "string option"
  ca_use_channel_type :: UseChannelType
  ca_packet_loss_rate :: "int option"
  ca_packet_delay :: u32
  ca_compressor :: Compressor
  ca_enable_traffic :: bool
  ca_allow_wire_guard :: bool
  ca_local_ipv4 :: "ipv4 option"

record Config = config_args +
  co_server_address :: socket_addr
  co_protocol :: ConnectProtocol
  co_port_mapping_list :: "(bool \<times> socket_addr \<times> string) list"

definition complete_stun :: "string \<Rightarrow> string" where
  "complete_stun x = (if CHR '':'' \<in> set x then x else x @ '':3478'')"

definition complete_name_server :: "(string \<Rightarrow> ipv6 option) \<Rightarrow> string \<Rightarrow> string" where
  "complete_name_server v6 x =
     (if v6 x \<noteq> None then x @ '':53'' else if CHR '':'' \<notin> set x then x @ '':53'' else x)"

definition no_server :: socket_addr where "no_server = SockV4 0 0"

text \<open>The protocol and the address without its scheme, and whether the name has to be looked up.\<close>

definition read_scheme :: "string \<Rightarrow> ConnectProtocol \<times> string \<times> bool" where
  "read_scheme s =
     (if starts_with s ''ws://'' then (Conn_WS, s, False)
      else if starts_with s ''wss://'' then (Conn_WSS, s, False)
      else (case strip_prefix ''udp://'' s of
          Some t \<Rightarrow> (Conn_UDP, t, True)
        | None \<Rightarrow> (case strip_prefix ''tcp://'' s of
              Some t \<Rightarrow> (Conn_TCP, t, True)
            | None \<Rightarrow> (Conn_UDP, s, True))))"

definition find_server :: "name_env \<Rightarrow> string \<Rightarrow> string list \<Rightarrow> history \<Rightarrow> socket_addr res \<times> history" where
  "find_server E address name_servers history = (case dns_query_all E address name_servers of
     Inl e \<Rightarrow> (Inl e, history) | Inr addrs \<Rightarrow> address_choose E addrs history)"

definition too_long :: "string \<Rightarrow> bool" where
  "too_long s \<longleftrightarrow> s = [] \<or> length s > 128"

definition Config_new ::
  "name_env \<Rightarrow> ipv4 list \<Rightarrow> config_args \<Rightarrow> string list \<Rightarrow> history \<Rightarrow> Config res \<times> history" where
  "Config_new E interfaces a port_mapping_list history =
     (let stun_server = map complete_stun (ca_stun_server a);
          name_servers = map (complete_name_server (ne_v6 E)) (ca_name_servers a) in
      if too_long (ca_token a) then (Inl (Anyhow ''token too long''), history)
      else if too_long (ca_device_id a) then (Inl (Anyhow ''device_id too long''), history)
      else if too_long (ca_name a) then (Inl (Anyhow ''name too long''), history)
      else
        let (protocol, server_address_str, query_dns) = read_scheme (to_lowercase (ca_server_address_str a));
            (found, history) = (if query_dns then find_server E server_address_str name_servers history else (Inr no_server, history))
        in (bindE found (\<lambda>server_address.
              bindE (port_mapping_convert (ne_v6 E) port_mapping_list) (\<lambda>mappings.
                case ca_local_ipv4 a of
                  Some local_ip \<Rightarrow> if local_ip \<notin> set interfaces then Inl (Anyhow ''No network card found'')
                    else Inr (config_args.extend
                      (a\<lparr>ca_server_address_str := server_address_str, ca_name_servers := name_servers, ca_stun_server := stun_server,
                         ca_in_ips := sort_key net_key (map masked_net (ca_in_ips a))\<rparr>)
                      (Config.fields server_address protocol mappings))
                | None \<Rightarrow> Inr (config_args.extend
                      (a\<lparr>ca_server_address_str := server_address_str, ca_name_servers := name_servers, ca_stun_server := stun_server,
                         ca_in_ips := sort_key net_key (map masked_net (ca_in_ips a))\<rparr>)
                      (Config.fields server_address protocol mappings)))),
            history))"

definition bytes_of :: "string \<Rightarrow> u8 list" where
  "bytes_of = map of_char"

definition Config_password_hash :: "hash \<Rightarrow> Config \<Rightarrow> u8 list option res" where
  "Config_password_hash sha c = (case ca_password c of
     None \<Rightarrow> Inr None
   | Some p \<Rightarrow> (case ca_cipher_model c of
         Model_Xor \<Rightarrow> mapE (\<lambda>key. Some (drop 16 key)) (simple_hash (bytes_of (''Xor'' @ p @ ca_token c)))
       | Model_None \<Rightarrow> Inr None
       | m \<Rightarrow> Inr (Some (drop 16 (sha (bytes_of (CipherModel_display m) @ bytes_of p @ bytes_of (ca_token c)))))))"

section \<open>Facts\<close>

lemma mask_loop:
  assumes "m \<le> 32"
  shows "netmask m = prefix_mask m"
proof -
  have "bit (netmask k) j \<longleftrightarrow> 32 - k \<le> j \<and> j < 32" if "k \<le> 32" for k j
    using that by (induction k) (auto simp: netmask_def bit_simps)
  with assms show ?thesis
    by (intro bit_word_eqI) (auto simp: prefix_mask_def bit_simps)
qed

lemma to_ip_prefix: "to_ip s = Inr k \<Longrightarrow> \<exists>m\<le>32. k = prefix_mask m"
  by (auto simp: to_ip_def mask_loop not_less split: option.splits if_splits)

lemma to_ip_show: "m \<le> 32 \<Longrightarrow> to_ip (show_nat m) = Inr (prefix_mask m)"
  by (simp add: to_ip_def parse_u32_def mask_loop)

definition show_network :: "u32 \<Rightarrow> nat \<Rightarrow> string" where
  "show_network dest m = show_ipv4 dest @ ''/'' @ show_nat m"

lemma parse_show_network: "m \<le> 32 \<Longrightarrow> parse_network (show_network d m) = Inr (d, prefix_mask m)"
  by (simp add: parse_network_def show_network_def to_ip_show)

lemma parse_network_prefix: "parse_network s = Inr (d, k) \<Longrightarrow> \<exists>m\<le>32. k = prefix_mask m"
  by (auto simp: parse_network_def mapE_def bindE_Inr_iff dest: to_ip_prefix split: list.splits option.splits)

lemma no_comma_network [simp]: "CHR '','' \<notin> set (show_network d m)"
  by (simp add: show_network_def)

lemma ips_parse_prefix: "ips_parse xs = Inr t \<Longrightarrow> \<forall>(d, m, g)\<in>set t. \<exists>k\<le>32. m = prefix_mask k"
proof (induction xs arbitrary: t)
  case (Cons x xs)
  then show ?case
    by (auto simp: mapE_def bindE_Inr_iff dest: parse_network_prefix split: list.splits option.splits)
qed simp

lemma masked_net_idem: "masked_net (masked_net e) = masked_net e"
  by (cases e) (simp add: masked_net_def flip: and.assoc)

lemma ExternalRoute_new_idem:
  "ExternalRoute_new (sort_key net_key (map masked_net t)) = ExternalRoute_new t"
proof -
  have "map masked_net (sort_key net_key (map masked_net t)) = sort_key net_key (map masked_net t)"
    by (intro map_idI) (auto simp: masked_net_idem)
  then show ?thesis by (simp add: ExternalRoute_new_def sort_key_id_if_sorted)
qed

section \<open>Properties\<close>

text \<open>
  Networks are read as they are written: for any networks and gateways, the texts
  \<open>a.b.c.d/m,e.f.g.h\<close> are read back as the addresses and the masks of \<open>m\<close> leading ones, in order; so are the texts
  without a gateway. Whatever else is read successfully also has only such masks, so that the routes
  built from it follow the longest prefix.
\<close>

theorem networks_restored:
  assumes "\<forall>(d, m, g)\<in>set nets. m \<le> 32"
  shows "ips_parse (map (\<lambda>(d, m, g). show_network d m @ '','' @ show_ipv4 g) nets) =
      Inr (map (\<lambda>(d, m, g). (d, prefix_mask m, g)) nets) \<and>
    out_ips_parse (map (\<lambda>(d, m, g). show_network d m) nets) = Inr (map (\<lambda>(d, m, g). (d, prefix_mask m)) nets) \<and>
    (ips_parse xs = Inr t \<longrightarrow> (\<forall>(d, m, g)\<in>set t. \<exists>k\<le>32. m = prefix_mask k))"
proof -
  have "ips_parse (map (\<lambda>(d, m, g). show_network d m @ '','' @ show_ipv4 g) nets) =
      Inr (map (\<lambda>(d, m, g). (d, prefix_mask m, g)) nets)"
    using assms by (induction nets) (auto simp: parse_show_network)
  moreover have "out_ips_parse (map (\<lambda>(d, m, g). show_network d m) nets) = Inr (map (\<lambda>(d, m, g). (d, prefix_mask m)) nets)"
    using assms by (induction nets) (auto simp: parse_show_network)
  ultimately show ?thesis using ips_parse_prefix by blast
qed

lemma networks_restored_witness: "out_ips_parse [show_network 0x0A1A0000 24] = Inr [(0x0A1A0000, prefix_mask 24)]"
  using networks_restored[of "[(0x0A1A0000, 24, 0)]"] by simp

text \<open>
  C29. What a configuration that passes \<open>Config::new\<close> satisfies: token, device id and name have 1 to 128 bytes; the server
  address is one that the name lookup found and could be connected, unless the address names a
  WebSocket, which is not looked up; the local address is that of an interface; everything not completed is as
  given; and the routes, already masked and sorted here, are those of the given networks.
\<close>

theorem config_checked:
  assumes "Config_new E interfaces a mappings h = (Inr c, h')"
  shows "(\<forall>s\<in>{ca_token c, ca_device_id c, ca_name c}. 1 \<le> length s \<and> length s \<le> 128) \<and>
    (if co_protocol c \<in> {Conn_WS, Conn_WSS} then co_server_address c = no_server \<and> h' = h
     else \<exists>addrs. dns_query_all E (ca_server_address_str c) (ca_name_servers c) = Inr addrs \<and>
       co_server_address c \<in> set addrs \<and> ne_connect E (co_server_address c) = Inr ()) \<and>
    (\<forall>ip. ca_local_ipv4 a = Some ip \<longrightarrow> ip \<in> set interfaces) \<and>
    config_args.truncate c = a\<lparr>ca_server_address_str := ca_server_address_str c, ca_name_servers := ca_name_servers c,
      ca_stun_server := ca_stun_server c, ca_in_ips := ca_in_ips c\<rparr> \<and>
    ExternalRoute_new (ca_in_ips c) = ExternalRoute_new (ca_in_ips a)"
proof -
  obtain protocol address look where sch: "read_scheme (to_lowercase (ca_server_address_str a)) = (protocol, address, look)"
    by (metis prod_cases3)
  define ns where "ns = map (complete_name_server (ne_v6 E)) (ca_name_servers a)"
  obtain found h1 where f: "(if look then find_server E address ns h else (Inr no_server, h)) = (found, h1)" by fastforce
  have t: "\<not> too_long (ca_token a)" "\<not> too_long (ca_device_id a)" "\<not> too_long (ca_name a)"
    using assms by (auto simp: Config_new_def Let_def split: if_splits)
  obtain server maps where r: "found = Inr server" "port_mapping_convert (ne_v6 E) mappings = Inr maps"
      "\<forall>ip. ca_local_ipv4 a = Some ip \<longrightarrow> ip \<in> set interfaces" "h' = h1"
    and c: "c = config_args.extend (a\<lparr>ca_server_address_str := address, ca_name_servers := ns,
        ca_stun_server := map complete_stun (ca_stun_server a), ca_in_ips := sort_key net_key (map masked_net (ca_in_ips a))\<rparr>)
        (Config.fields server protocol maps)"
    using assms t f
    by (auto simp: Config_new_def Let_def sch bindE_Inr_iff simp flip: ns_def split: option.splits if_splits)
  have look: "look \<longleftrightarrow> protocol \<notin> {Conn_WS, Conn_WSS}"
    using sch by (auto simp: read_scheme_def split: if_splits option.splits)
  have "\<exists>addrs. dns_query_all E address ns = Inr addrs \<and> server \<in> set addrs \<and> ne_connect E server = Inr ()" if look
    using f r(1) that
    by (auto simp: find_server_def address_choose_def Let_def split: sum.splits if_splits dest!: address_choose0_Inr)
  moreover have "server = no_server \<and> h1 = h" if "\<not> look" using f r(1) that by simp
  ultimately show ?thesis
    using t r(3,4) look by (auto simp: c config_args.defs Config.defs too_long_def ExternalRoute_new_idem Suc_le_eq)
qed

definition sample_args :: config_args where
  "sample_args = \<lparr>ca_tap = False, ca_token = ''t'', ca_device_id = ''d'', ca_name = ''n'', ca_server_address_str = ''ws://s'',
     ca_name_servers = [''::1''], ca_stun_server = [''stun''], ca_in_ips = [(0x0A000001, 0xFF000000, 3)], ca_out_ips = [],
     ca_password = Some ''pw'', ca_mtu = None, ca_ip = None, ca_no_proxy = False, ca_server_encrypt = True,
     ca_cipher_model = Model_AesGcm, ca_finger = True, ca_punch_model = PM_All, ca_ports = None, ca_first_latency = False,
     ca_device_name = None, ca_use_channel_type = Use_All, ca_packet_loss_rate = None, ca_packet_delay = 0,
     ca_compressor = Compressor_None, ca_enable_traffic = False, ca_allow_wire_guard = False, ca_local_ipv4 = Some 7\<rparr>"

lemma config_checked_witness:
  "\<exists>c. Config_new sample_names [7] sample_args [] (\<lambda>_. 0) = (Inr c, \<lambda>_. 0) \<and> co_server_address c = no_server \<and>
     length (ca_token c) \<le> 128"
proof -
  obtain c where c: "Config_new sample_names [7] sample_args [] (\<lambda>_. 0) = (Inr c, \<lambda>_. 0)" "co_protocol c = Conn_WS"
    by (simp add: Config_new_def sample_args_def too_long_def read_scheme_def starts_with_def to_lowercase_def Let_def
        config_args.defs Config.defs)
  with config_checked[OF c(1)] show ?thesis by auto
qed

text \<open>What text an IPv6 address has: no bracket in front, and at least two colons.\<close>

definition v6_text :: "(string \<Rightarrow> ipv6 option) \<Rightarrow> bool" where
  "v6_text v6 \<longleftrightarrow> (\<forall>s a. v6 s = Some a \<longrightarrow> s \<noteq> [] \<and> hd s \<noteq> CHR ''['' \<and> 2 \<le> count_list s (CHR '':''))"

lemma length_split_on: "length (split_on c s) = Suc (count_list s c)"
  by (induction s) (auto split: list.splits)

text \<open>
  A name server given as an IPv6 address is useless: \<open>Config::new\<close> appends the port without brackets, the result is no
  socket address, and every query to this server fails before anything is sent; whatever the network
  would answer.
\<close>

theorem ipv6_name_server_useless:
  assumes "v6_text (ne_v6 E)" and "ne_v6 E x = Some ip"
  shows "ask_server E t domain (complete_name_server (ne_v6 E) x) = Inl (Anyhow ''invalid socket address'')"
proof -
  have x: "x \<noteq> []" "hd x \<noteq> CHR ''[''" "2 \<le> count_list x (CHR '':'')" using assms by (auto simp: v6_text_def)
  then have "length (split_on (CHR '':'') (x @ '':53'')) \<ge> 4" by (simp add: length_split_on)
  then have "parse_socket_v4 (x @ '':53'') = None" by (auto simp: parse_socket_v4_def split: list.split)
  moreover have "parse_socket_v6 (ne_v6 E) (x @ '':53'') = None"
    using x(1,2) by (cases x) (auto simp: parse_socket_v6_def)
  ultimately show ?thesis
    using assms(2) by (simp add: ask_server_def complete_name_server_def parse_socket_addr_def)
qed

lemma ipv6_name_server_useless_witness:
  "ask_server sample_names Query_A ''a'' (complete_name_server (ne_v6 sample_names) ''::1'') = Inl (Anyhow ''invalid socket address'')"
proof -
  have "v6_text (ne_v6 sample_names)" by (auto simp: v6_text_def sample_names_def)
  moreover have "ne_v6 sample_names ''::1'' = Some 1" by (simp add: sample_names_def)
  ultimately show ?thesis by (rule ipv6_name_server_useless)
qed

end
