(* ===== verification/Stop_Manager.thy ===== *)
theory Stop_Manager
  imports Vnt_Prelude "HOL-Library.Multiset"
begin

text \<open>
  The stop manager, \<^verbatim>\<open>vnt/src/util/notify.rs\<close>: the registry through which every thread of the program is
  told to stop, and through which its owner waits for all of them. Its operations run concurrently, so
  the model is a step relation over threads: a step is one access to an atomic or one critical section
  of a mutex. A listener, a closure, is the number of the call of \<open>add_listener\<close> that registered it;
  running it is an event of a log.
\<close>

section \<open>State\<close>

datatype stop_event = Called nat | Finished | Waited nat bool

text \<open>
  Where a thread is in an operation. \<open>Release\<close> to \<open>Take_call\<close> are the steps of \<open>release0\<close>, the drop of a
  \<open>Worker\<close>; \<open>Stop_drain\<close> is the second half of \<open>stop\<close>, with what its caller does next.
\<close>

datatype after = Then_idle | Then_release string | Then_call

datatype pc = Idle | Stop_drain after | Release string | Release_sub | Unpark | Stop_flag | Take_call
  | Wait_check | Wait_park | Timed_check | Timed_park | Timed_last

text \<open>
  \<open>StopManagerInner\<close>, with the permits of \<open>thread::park\<close>, the workers nobody has dropped yet, the number
  of registrations and the log. The closure \<open>stop_call\<close> is there or has been taken.
\<close>

record stopper =
  sp_closed :: bool
  sp_listeners :: "(string \<times> nat) list"
  sp_parked :: "nat list"
  sp_workers :: nat
  sp_state :: bool
  sp_stop_call :: bool
  sp_permit :: "nat \<Rightarrow> bool"
  sp_owned :: "string list"
  sp_registered :: nat
  sp_log :: "stop_event list"
  sp_pc :: "nat \<Rightarrow> pc"

definition StopManager_new :: stopper where
  "StopManager_new = \<lparr>sp_closed = False, sp_listeners = [], sp_parked = [], sp_workers = 0, sp_state = False,
     sp_stop_call = True, sp_permit = (\<lambda>_. False), sp_owned = [], sp_registered = 0, sp_log = [], sp_pc = (\<lambda>_. Idle)\<rparr>"

definition goto :: "nat \<Rightarrow> pc \<Rightarrow> stopper \<Rightarrow> stopper" where
  "goto t p s = s\<lparr>sp_pc := (sp_pc s)(t := p)\<rparr>"

definition logged :: "stop_event list \<Rightarrow> stopper \<Rightarrow> stopper" where
  "logged es s = s\<lparr>sp_log := sp_log s @ es\<rparr>"

section \<open>Critical sections\<close>

text \<open>\<open>add_listener\<close>: the guard is held until the worker has been counted.\<close>

definition StopManager_add_listener :: "string \<Rightarrow> stopper \<Rightarrow> stopper res" where
  "StopManager_add_listener name s =
     (if name = [] then Inl (Anyhow ''name cannot be empty'')
      else if sp_closed s then Inl (Anyhow ''stopped'')
      else if name \<in> fst ` set (sp_listeners s) then Inl (Anyhow ''name already exists'')
      else Inr (s\<lparr>sp_listeners := sp_listeners s @ [(name, sp_registered s)],
        sp_registered := sp_registered s + 1, sp_workers := sp_workers s + 1, sp_owned := name # sp_owned s\<rparr>))"

definition drain_listeners :: "stopper \<Rightarrow> stopper" where
  "drain_listeners s = logged (map (\<lambda>(_, f). Called f) (sp_listeners s)) (s\<lparr>sp_closed := True, sp_listeners := []\<rparr>)"

definition remove_listener :: "string \<Rightarrow> stopper \<Rightarrow> stopper" where
  "remove_listener name s = (case map_of (sp_listeners s) name of
     None \<Rightarrow> s
   | Some f \<Rightarrow> logged [Called f] (s\<lparr>sp_listeners := remove1 (name, f) (sp_listeners s)\<rparr>))"

definition StopManager_is_stopped :: "stopper \<Rightarrow> bool" where
  "StopManager_is_stopped s \<longleftrightarrow> sp_workers s = 0"

section \<open>Operations\<close>

text \<open>\<open>stop_all\<close> consumes the worker: it stops, then drops it.\<close>

datatype operation = Op_add string | Op_stop | Op_stop_all string | Op_drop string | Op_wait | Op_wait_timeout

definition begin_op :: "nat \<Rightarrow> operation \<Rightarrow> stopper \<Rightarrow> stopper" where
  "begin_op t op s = (case op of
     Op_add name \<Rightarrow> (case StopManager_add_listener name s of Inl _ \<Rightarrow> s | Inr s' \<Rightarrow> s')
   | Op_stop \<Rightarrow> goto t (Stop_drain Then_idle) (s\<lparr>sp_state := True\<rparr>)
   | Op_stop_all name \<Rightarrow> goto t (Stop_drain (Then_release name)) (s\<lparr>sp_state := True, sp_owned := remove1 name (sp_owned s)\<rparr>)
   | Op_drop name \<Rightarrow> goto t (Release name) (s\<lparr>sp_owned := remove1 name (sp_owned s)\<rparr>)
   | Op_wait \<Rightarrow> goto t Wait_check (s\<lparr>sp_parked := sp_parked s @ [t]\<rparr>)
   | Op_wait_timeout \<Rightarrow> goto t Timed_check (s\<lparr>sp_parked := sp_parked s @ [t]\<rparr>))"

fun may_begin :: "operation \<Rightarrow> stopper \<Rightarrow> bool" where
  "may_begin (Op_stop_all name) s \<longleftrightarrow> name \<in> set (sp_owned s)"
| "may_begin (Op_drop name) s \<longleftrightarrow> name \<in> set (sp_owned s)"
| "may_begin _ s \<longleftrightarrow> True"

definition after_stop :: "after \<Rightarrow> pc" where
  "after_stop a = (case a of Then_idle \<Rightarrow> Idle | Then_release name \<Rightarrow> Release name | Then_call \<Rightarrow> Take_call)"

text \<open>\<open>park\<close> may return without a permit; when it returns it has taken the permit.\<close>

definition take_permit :: "nat \<Rightarrow> stopper \<Rightarrow> stopper" where
  "take_permit t s = s\<lparr>sp_permit := (sp_permit s)(t := False)\<rparr>"

definition unpark_all :: "stopper \<Rightarrow> stopper" where
  "unpark_all s = s\<lparr>sp_permit := (\<lambda>t. sp_permit s t \<or> t \<in> set (sp_parked s)), sp_parked := []\<rparr>"

definition advance :: "nat \<Rightarrow> stopper \<Rightarrow> stopper" where
  "advance t s = (case sp_pc s t of
     Idle \<Rightarrow> s
   | Stop_drain a \<Rightarrow> goto t (after_stop a) (drain_listeners s)
   | Release name \<Rightarrow> goto t Release_sub (remove_listener name s)
   | Release_sub \<Rightarrow> goto t (if sp_workers s = 1 then Unpark else Idle) (s\<lparr>sp_workers := sp_workers s - 1\<rparr>)
   | Unpark \<Rightarrow> goto t Stop_flag (unpark_all s)
   | Stop_flag \<Rightarrow> goto t (Stop_drain Then_call) (s\<lparr>sp_state := True\<rparr>)
   | Take_call \<Rightarrow> goto t Idle (if sp_stop_call s then logged [Finished] (s\<lparr>sp_stop_call := False\<rparr>) else s)
   | Wait_check \<Rightarrow> if sp_workers s = 0 then logged [Waited t True] (goto t Idle s) else goto t Wait_park s
   | Wait_park \<Rightarrow> goto t Wait_check (take_permit t s)
   | Timed_check \<Rightarrow> if sp_workers s = 0 then logged [Waited t True] (goto t Idle s) else goto t Timed_park s
   | Timed_park \<Rightarrow> goto t Timed_last (take_permit t s)
   | Timed_last \<Rightarrow> logged [Waited t (sp_workers s = 0)] (goto t Idle s))"

inductive stop_step :: "stopper \<Rightarrow> stopper \<Rightarrow> bool" where
  begins: "sp_pc s t = Idle \<Longrightarrow> may_begin op s \<Longrightarrow> stop_step s (begin_op t op s)"
| advances: "stop_step s (advance t s)"

inductive stop_reachable :: "stopper \<Rightarrow> bool" where
  init: "stop_reachable StopManager_new"
| step: "stop_reachable s \<Longrightarrow> stop_step s s' \<Longrightarrow> stop_reachable s'"

text \<open>A thread in \<open>park\<close> without a permit: nothing but a spurious return gets it going again.\<close>

definition stuck :: "nat \<Rightarrow> stopper \<Rightarrow> bool" where
  "stuck t s \<longleftrightarrow> sp_pc s t = Wait_park \<and> \<not> sp_permit s t"

definition waiting :: "pc set" where
  "waiting = {Wait_check, Wait_park, Timed_check, Timed_park, Timed_last}"

definition at_rest :: "stopper \<Rightarrow> bool" where
  "at_rest s \<longleftrightarrow> (\<forall>t. sp_pc s t = Idle \<or> sp_pc s t \<in> waiting)"

section \<open>Invariant\<close>

definition calls :: "stop_event list \<Rightarrow> nat list" where
  "calls es = List.map_filter (\<lambda>e. case e of Called f \<Rightarrow> Some f | _ \<Rightarrow> None) es"

text \<open>The threads on their way to drop a worker, and those past the last drop.\<close>

definition releasing :: "pc set" where
  "releasing = {Release_sub} \<union> range Release \<union> range (\<lambda>n. Stop_drain (Then_release n))"

definition finishing :: "pc set" where
  "finishing = {Unpark, Stop_flag, Stop_drain Then_call, Take_call}"

definition dropping_at :: "pc \<Rightarrow> string set" where
  "dropping_at p = {n. p = Release n \<or> p = Stop_drain (Then_release n)}"

definition dropping :: "(nat \<Rightarrow> pc) \<Rightarrow> string set" where
  "dropping f = (\<Union>t. dropping_at (f t))"

text \<open>Every registered listener is either in the list or has been called, once.\<close>

definition listeners_inv :: "stopper \<Rightarrow> bool" where
  "listeners_inv s \<longleftrightarrow>
     distinct (map fst (sp_listeners s)) \<and> (sp_closed s \<longrightarrow> sp_listeners s = []) \<and>
     mset (calls (sp_log s) @ map snd (sp_listeners s)) = mset [0..<sp_registered s]"

text \<open>The count is that of the workers that have not been dropped; a listener in the list belongs to one of them.\<close>

definition workers_inv :: "stopper \<Rightarrow> bool" where
  "workers_inv s \<longleftrightarrow>
     finite {t. sp_pc s t \<in> releasing} \<and> sp_workers s = length (sp_owned s) + card {t. sp_pc s t \<in> releasing} \<and>
     fst ` set (sp_listeners s) \<subseteq> set (sp_owned s) \<union> dropping (sp_pc s)"

text \<open>The closure runs at most once, after the listeners, and not later than the last drop.\<close>

definition finish_inv :: "stopper \<Rightarrow> bool" where
  "finish_inv s \<longleftrightarrow>
     count_list (sp_log s) Finished = (if sp_stop_call s then 0 else 1) \<and>
     (\<not> sp_stop_call s \<longrightarrow> sp_closed s) \<and> (\<forall>t. sp_pc s t = Take_call \<longrightarrow> sp_closed s) \<and>
     (0 < sp_registered s \<longrightarrow> 0 < sp_workers s \<or> (\<exists>t. sp_pc s t \<in> finishing) \<or> \<not> sp_stop_call s)"

definition stop_inv :: "stopper \<Rightarrow> bool" where
  "stop_inv s \<longleftrightarrow> listeners_inv s \<and> workers_inv s \<and> finish_inv s"

lemmas stop_ops = goto_def logged_def StopManager_add_listener_def drain_listeners_def remove_listener_def
  begin_op_def after_stop_def take_permit_def unpark_all_def advance_def

lemma calls_simps [simp]:
  "calls (xs @ ys) = calls xs @ calls ys" "calls (map (\<lambda>(n, f). Called f) ls) = map snd ls"
  "calls [] = []" "calls (Called f # es) = f # calls es" "calls (Finished # es) = calls es"
  "calls (Waited t b # es) = calls es"
  by (induction ls) (auto simp: calls_def map_filter_simps List.map_filter_def)

lemma no_finish [simp]: "count_list (map (\<lambda>(n, f). Called f) ls) Finished = 0"
  by (induction ls) auto

lemma at_update: "{t'. (f(t := p)) t' \<in> R} = (if p \<in> R then insert t {t'. f t' \<in> R} else {t'. f t' \<in> R} - {t})"
  by auto

lemma finite_update [simp]: "finite {t'. (f(t := p)) t' \<in> R} \<longleftrightarrow> finite {t'. f t' \<in> R}"
  unfolding at_update by (cases "p \<in> R") simp_all

lemma card_update:
  assumes "finite {t'. f t' \<in> R}"
  shows "card {t'. (f(t := p)) t' \<in> R} + (if f t \<in> R then 1 else 0) = card {t'. f t' \<in> R} + (if p \<in> R then 1 else 0)"
proof (cases "f t \<in> R")
  case True
  then have "t \<in> {t'. f t' \<in> R}" by simp
  with card.remove[OF assms this] assms show ?thesis
    unfolding at_update by (cases "p \<in> R") (simp_all add: True insert_absorb)
next
  case False
  then have "t \<notin> {t'. f t' \<in> R}" by simp
  with assms show ?thesis unfolding at_update by (cases "p \<in> R") (simp_all add: False)
qed

lemma map_of_split:
  "map_of xs k = Some v \<Longrightarrow> distinct (map fst xs) \<Longrightarrow>
     \<exists>ys zs. xs = ys @ (k, v) # zs \<and> remove1 (k, v) xs = ys @ zs \<and> k \<notin> fst ` set (ys @ zs)"
proof -
  assume a: "map_of xs k = Some v" "distinct (map fst xs)"
  then obtain ys zs where s: "xs = ys @ (k, v) # zs" by (meson map_of_SomeD split_list)
  with a(2) have "k \<notin> fst ` set ys" "k \<notin> fst ` set zs" by auto
  moreover from this have "(k, v) \<notin> set ys" by force
  ultimately show ?thesis using s by (intro exI[of _ ys] exI[of _ zs]) (auto simp: remove1_append)
qed

lemma add_listener_inv:
  assumes "listeners_inv s" "StopManager_add_listener name s = Inr s'"
  shows "listeners_inv s'"
  using assms unfolding listeners_inv_def by (auto simp: StopManager_add_listener_def atLeastLessThanSuc split: if_splits)

lemma remove_listener_inv:
  assumes "listeners_inv s" shows "listeners_inv (remove_listener name s)"
proof (cases "map_of (sp_listeners s) name")
  case None
  with assms show ?thesis by (simp add: remove_listener_def)
next
  case (Some f)
  then obtain ys zs where p: "sp_listeners s = ys @ (name, f) # zs"
      "remove1 (name, f) (sp_listeners s) = ys @ zs"
    using map_of_split assms unfolding listeners_inv_def by metis
  show ?thesis using assms unfolding listeners_inv_def remove_listener_def logged_def
    by (simp add: Some p(2)) (simp add: p(1))
qed

lemma drain_listeners_inv: "listeners_inv s \<Longrightarrow> listeners_inv (drain_listeners s)"
  by (simp add: listeners_inv_def drain_listeners_def logged_def)

lemma listeners_inv_cong:
  "sp_listeners s' = sp_listeners s \<Longrightarrow> sp_closed s' = sp_closed s \<Longrightarrow> calls (sp_log s') = calls (sp_log s) \<Longrightarrow>
   sp_registered s' = sp_registered s \<Longrightarrow> listeners_inv s' = listeners_inv s"
  by (simp add: listeners_inv_def)

lemma listeners_inv_step: "stop_step s s' \<Longrightarrow> listeners_inv s \<Longrightarrow> listeners_inv s'"
proof (induction rule: stop_step.induct)
  case (begins s t op)
  then show ?case
    by (cases op) (auto simp: begin_op_def goto_def add_listener_inv cong: listeners_inv_cong split: sum.split)
next
  case (advances s t)
  have g: "listeners_inv (goto t p x) = listeners_inv x" for p x by (simp add: listeners_inv_def goto_def)
  from advances show ?case
    unfolding advance_def
    by (cases "sp_pc s t") (auto simp: g drain_listeners_inv remove_listener_inv logged_def take_permit_def unpark_all_def goto_def
        cong: listeners_inv_cong)
qed

lemma releasing_simps [simp]:
  "Idle \<notin> releasing" "Release n \<in> releasing" "Release_sub \<in> releasing" "Unpark \<notin> releasing" "Stop_flag \<notin> releasing"
  "Take_call \<notin> releasing" "Wait_check \<notin> releasing" "Wait_park \<notin> releasing" "Timed_check \<notin> releasing"
  "Timed_park \<notin> releasing" "Timed_last \<notin> releasing" "Stop_drain a \<in> releasing \<longleftrightarrow> (\<exists>n. a = Then_release n)"
  by (auto simp: releasing_def)

lemma dropping_simps [simp]:
  "dropping_at Idle = {}" "dropping_at (Release n) = {n}" "dropping_at Release_sub = {}" "dropping_at Unpark = {}"
  "dropping_at Stop_flag = {}" "dropping_at Take_call = {}" "dropping_at Wait_check = {}" "dropping_at Wait_park = {}"
  "dropping_at Timed_check = {}" "dropping_at Timed_park = {}" "dropping_at Timed_last = {}"
  "dropping_at (Stop_drain Then_idle) = {}" "dropping_at (Stop_drain Then_call) = {}"
  "dropping_at (Stop_drain (Then_release n)) = {n}"
  by (auto simp: dropping_at_def)

lemma workers_inv_move:
  assumes "workers_inv s" "sp_pc s' = (sp_pc s)(t := p)"
    and "sp_workers s' + length (sp_owned s) + (if sp_pc s t \<in> releasing then 1 else 0) =
      sp_workers s + length (sp_owned s') + (if p \<in> releasing then 1 else 0)"
    and "fst ` set (sp_listeners s') \<subseteq> fst ` set (sp_listeners s)"
    and "fst ` set (sp_listeners s') \<inter> (set (sp_owned s) \<union> dropping_at (sp_pc s t)) \<subseteq> set (sp_owned s') \<union> dropping_at p"
  shows "workers_inv s'"
proof -
  have f: "finite {t. sp_pc s t \<in> releasing}" using assms(1) by (simp add: workers_inv_def)
  have "dropping (sp_pc s) \<subseteq> dropping_at (sp_pc s t) \<union> dropping (sp_pc s')" "dropping_at p \<subseteq> dropping (sp_pc s')"
    unfolding dropping_def assms(2) by (auto split: if_splits)
  then have "fst ` set (sp_listeners s') \<subseteq> set (sp_owned s') \<union> dropping (sp_pc s')"
    using assms(1,4,5) unfolding workers_inv_def by blast
  moreover have "finite {t. sp_pc s' t \<in> releasing}" unfolding assms(2) by (simp only: finite_update f)
  ultimately show ?thesis
    using assms(1,3) card_update[OF f, of t p, folded assms(2)] unfolding workers_inv_def by (auto split: if_splits)
qed

lemma workers_inv_cong:
  "workers_inv s \<Longrightarrow> sp_pc s' = sp_pc s \<Longrightarrow> sp_workers s' = sp_workers s \<Longrightarrow> sp_owned s' = sp_owned s \<Longrightarrow>
   set (sp_listeners s') \<subseteq> set (sp_listeners s) \<Longrightarrow> workers_inv s'"
  unfolding workers_inv_def by (simp add: subset_trans[OF image_mono])

lemma remove_listener_names:
  assumes "distinct (map fst (sp_listeners s))"
  shows "fst ` set (sp_listeners (remove_listener name s)) = fst ` set (sp_listeners s) - {name}"
proof (cases "map_of (sp_listeners s) name")
  case None
  then have "name \<notin> fst ` set (sp_listeners s)" by (simp add: map_of_eq_None_iff)
  with None show ?thesis by (simp add: remove_listener_def)
next
  case (Some f)
  then obtain ys zs where p: "sp_listeners s = ys @ (name, f) # zs" "name \<notin> fst ` set (ys @ zs)"
      "remove1 (name, f) (sp_listeners s) = ys @ zs"
    using map_of_split[OF _ assms] by metis
  show ?thesis using Some p(2) unfolding remove_listener_def logged_def by (simp add: p(3)) (auto simp: p(1))
qed

lemma remove_listener_frame [simp]:
  "sp_pc (remove_listener n s) = sp_pc s" "sp_workers (remove_listener n s) = sp_workers s"
  "sp_owned (remove_listener n s) = sp_owned s" "sp_closed (remove_listener n s) = sp_closed s"
  "sp_stop_call (remove_listener n s) = sp_stop_call s" "sp_registered (remove_listener n s) = sp_registered s"
  "count_list (sp_log (remove_listener n s)) Finished = count_list (sp_log s) Finished"
  by (auto simp: remove_listener_def logged_def split: option.split)

lemma drain_listeners_frame [simp]:
  "sp_pc (drain_listeners s) = sp_pc s" "sp_workers (drain_listeners s) = sp_workers s"
  "sp_owned (drain_listeners s) = sp_owned s" "sp_closed (drain_listeners s)" "sp_listeners (drain_listeners s) = []"
  "sp_stop_call (drain_listeners s) = sp_stop_call s" "sp_registered (drain_listeners s) = sp_registered s"
  "count_list (sp_log (drain_listeners s)) Finished = count_list (sp_log s) Finished"
  by (auto simp: drain_listeners_def logged_def)

lemma goto_frame [simp]:
  "sp_pc (goto t p s) = (sp_pc s)(t := p)" "sp_workers (goto t p s) = sp_workers s" "sp_owned (goto t p s) = sp_owned s"
  "sp_closed (goto t p s) = sp_closed s" "sp_listeners (goto t p s) = sp_listeners s"
  "sp_stop_call (goto t p s) = sp_stop_call s" "sp_registered (goto t p s) = sp_registered s" "sp_log (goto t p s) = sp_log s"
  "sp_permit (goto t p s) = sp_permit s" "sp_parked (goto t p s) = sp_parked s"
  by (simp_all add: goto_def)

lemma add_listener_fields:
  assumes "StopManager_add_listener name s = Inr s'"
  shows "\<not> sp_closed s" "sp_closed s' = sp_closed s" "sp_pc s' = sp_pc s" "sp_workers s' = Suc (sp_workers s)"
    "sp_owned s' = name # sp_owned s" "fst ` set (sp_listeners s') = insert name (fst ` set (sp_listeners s))"
    "sp_stop_call s' = sp_stop_call s" "sp_log s' = sp_log s"
  using assms by (auto simp: StopManager_add_listener_def split: if_splits)

lemma workers_inv_add:
  assumes "workers_inv s" "StopManager_add_listener name s = Inr s'" shows "workers_inv s'"
  using assms(1) unfolding workers_inv_def add_listener_fields[OF assms(2)] by (simp add: insert_mono) blast

lemma workers_pos: "workers_inv s \<Longrightarrow> sp_pc s t \<in> releasing \<Longrightarrow> 0 < sp_workers s"
  by (auto simp: workers_inv_def card_gt_0_iff)

lemma length_remove1_mem: "x \<in> set xs \<Longrightarrow> Suc (length (remove1 x xs)) = length xs"
  by (induction xs) auto

lemma remove1_covers: "set xs \<subseteq> insert x (set (remove1 x xs))"
  by (induction xs) auto

lemma workers_inv_step: "stop_step s s' \<Longrightarrow> listeners_inv s \<Longrightarrow> workers_inv s \<Longrightarrow> workers_inv s'"
proof (induction rule: stop_step.induct)
  case (begins s t op)
  note mv = workers_inv_move[OF begins(4), where t = t]
  from begins show ?case
  proof (cases op)
    case (Op_add n)
    with begins(4) workers_inv_add[OF begins(4)] show ?thesis by (simp add: begin_op_def split: sum.split)
  next
    case (Op_stop_all n)
    with begins show ?thesis
      using length_remove1_mem[of n "sp_owned s"] remove1_covers[of "sp_owned s" n]
      by (intro mv[where p = "Stop_drain (Then_release n)"]) (auto simp: begin_op_def)
  next
    case (Op_drop n)
    with begins show ?thesis
      using length_remove1_mem[of n "sp_owned s"] remove1_covers[of "sp_owned s" n]
      by (intro mv[where p = "Release n"]) (auto simp: begin_op_def)
  qed (auto simp: begin_op_def intro!: mv)
next
  case (advances s t)
  note mv = workers_inv_move[OF advances(2), where t = t]
  have d: "distinct (map fst (sp_listeners s))" using advances(1) by (simp add: listeners_inv_def)
  show ?case
  proof (cases "sp_pc s t")
    case Idle
    with advances(2) show ?thesis by (simp add: advance_def)
  next
    case (Stop_drain a)
    then show ?thesis by (cases a) (auto simp: advance_def after_stop_def intro!: mv)
  next
    case (Release n)
    then show ?thesis
      by (intro mv[where p = Release_sub]) (auto simp: advance_def remove_listener_names[OF d])
  next
    case Release_sub
    then show ?thesis using workers_pos[OF advances(2), of t]
      by (auto simp: advance_def intro!: mv)
  qed (auto simp: advance_def logged_def take_permit_def unpark_all_def intro!: mv)
qed

lemma finishing_simps [simp]:
  "Idle \<notin> finishing" "Release n \<notin> finishing" "Release_sub \<notin> finishing" "Unpark \<in> finishing" "Stop_flag \<in> finishing"
  "Take_call \<in> finishing" "Wait_check \<notin> finishing" "Wait_park \<notin> finishing" "Timed_check \<notin> finishing"
  "Timed_park \<notin> finishing" "Timed_last \<notin> finishing" "Stop_drain a \<in> finishing \<longleftrightarrow> a = Then_call"
  by (auto simp: finishing_def)

lemma finish_inv_move:
  assumes "finish_inv s" "sp_pc s' = (sp_pc s)(t := p)"
    and "count_list (sp_log s') Finished = count_list (sp_log s) Finished" "sp_stop_call s' = sp_stop_call s"
    and "sp_registered s' = sp_registered s" "sp_closed s \<or> p = Take_call \<longrightarrow> sp_closed s'"
    and "sp_pc s t \<in> finishing \<longrightarrow> p \<in> finishing" "0 < sp_workers s \<longrightarrow> 0 < sp_workers s' \<or> p \<in> finishing"
  shows "finish_inv s'"
proof -
  have "\<exists>t. sp_pc s' t \<in> finishing" if "(\<exists>t. sp_pc s t \<in> finishing) \<or> p \<in> finishing"
    using that assms(2,7) by (metis fun_upd_apply)
  then have "0 < sp_registered s' \<longrightarrow> 0 < sp_workers s' \<or> (\<exists>t. sp_pc s' t \<in> finishing) \<or> \<not> sp_stop_call s'"
    using assms(1,8) unfolding finish_inv_def assms(4,5) by blast
  moreover have "\<forall>u. sp_pc s' u = Take_call \<longrightarrow> sp_closed s'"
    using assms(1,6) unfolding finish_inv_def assms(2) by simp blast
  ultimately show ?thesis using assms(1,6) unfolding finish_inv_def assms(3,4) by blast
qed

lemma finish_inv_step:
  "stop_step s s' \<Longrightarrow> listeners_inv s \<Longrightarrow> workers_inv s \<Longrightarrow> finish_inv s \<Longrightarrow> finish_inv s'"
proof (induction rule: stop_step.induct)
  case (begins s t op)
  note mv = finish_inv_move[OF begins(5), where t = t]
  from begins show ?case
  proof (cases op)
    case (Op_add n)
    have "finish_inv s'" if "StopManager_add_listener n s = Inr s'" for s'
      using begins(5) unfolding finish_inv_def add_listener_fields[OF that] by simp
    with begins(5) show ?thesis by (simp add: begin_op_def Op_add split: sum.split)
  qed (auto simp: begin_op_def intro!: mv)
next
  case (advances s t)
  note mv = finish_inv_move[OF advances(3), where t = t]
  show ?case
  proof (cases "sp_pc s t")
    case Idle
    with advances show ?thesis by (simp add: advance_def)
  next
    case (Stop_drain a)
    then show ?thesis by (cases a) (auto simp: advance_def after_stop_def intro!: mv)
  next
    case Release_sub
    then show ?thesis using workers_pos[OF advances(2), of t] by (auto simp: advance_def intro!: mv)
  next
    case Take_call
    with advances(3) show ?thesis by (auto simp: advance_def finish_inv_def logged_def)
  qed (auto simp: advance_def logged_def take_permit_def unpark_all_def intro!: mv)
qed

theorem stop_reachable_inv: "stop_reachable s \<Longrightarrow> stop_inv s"
proof (induction rule: stop_reachable.induct)
  case init
  show ?case
    by (simp add: stop_inv_def listeners_inv_def workers_inv_def finish_inv_def StopManager_new_def)
next
  case (step s s')
  then show ?case
    unfolding stop_inv_def using listeners_inv_step workers_inv_step finish_inv_step by blast
qed

section \<open>Waiting\<close>

text \<open>Every operation but a wait ends: each step brings its thread closer to \<open>Idle\<close>.\<close>

definition rank :: "pc \<Rightarrow> nat" where
  "rank p = (case p of Stop_drain (Then_release n) \<Rightarrow> 7 | Release n \<Rightarrow> 6 | Release_sub \<Rightarrow> 5 | Unpark \<Rightarrow> 4 | Stop_flag \<Rightarrow> 3
     | Stop_drain Then_call \<Rightarrow> 2 | Take_call \<Rightarrow> 1 | Stop_drain Then_idle \<Rightarrow> 1 | Timed_check \<Rightarrow> 3 | Timed_park \<Rightarrow> 2
     | Timed_last \<Rightarrow> 1 | _ \<Rightarrow> 0)"

lemma rank_decreases:
  "sp_pc s t \<notin> {Idle, Wait_check, Wait_park} \<Longrightarrow> rank (sp_pc (advance t s) t) < rank (sp_pc s t)"
  by (cases "sp_pc s t") (auto simp: advance_def rank_def after_stop_def logged_def take_permit_def unpark_all_def goto_def
      split: after.split)

text \<open>
  Every step but a registration. With these alone a thread in \<open>wait\<close> that is not in the list of
  parked threads any more has its permit, or the count is zero and it will see so.
\<close>

inductive quiet_step :: "stopper \<Rightarrow> stopper \<Rightarrow> bool" where
  begins: "sp_pc s t = Idle \<Longrightarrow> may_begin op s \<Longrightarrow> \<nexists>n. op = Op_add n \<Longrightarrow> quiet_step s (begin_op t op s)"
| advances: "quiet_step s (advance t s)"

inductive quietly :: "stopper \<Rightarrow> stopper \<Rightarrow> bool" where
  quiet_init: "quietly s s"
| quiet_step: "quietly s s' \<Longrightarrow> quiet_step s' s'' \<Longrightarrow> quietly s s''"

definition wake_inv :: "stopper \<Rightarrow> bool" where
  "wake_inv s \<longleftrightarrow>
     (\<forall>t. stuck t s \<longrightarrow> 0 < sp_workers s \<or> t \<in> set (sp_parked s) \<and> (\<exists>u. sp_pc s u = Unpark)) \<and>
     (\<forall>t. sp_pc s t \<in> {Wait_check, Wait_park} \<longrightarrow> sp_workers s = 0 \<or> t \<in> set (sp_parked s)) \<and>
     (\<forall>t. sp_pc s t = Unpark \<longrightarrow> sp_workers s = 0)"

lemma quiet_stop_step: "quiet_step s s' \<Longrightarrow> stop_step s s'"
  by (induction rule: quiet_step.induct) (auto intro: stop_step.intros)

lemma wake_inv_move:
  assumes "wake_inv s" "sp_pc s' = (sp_pc s)(t := p)" "sp_permit s' = sp_permit s" "sp_workers s' = sp_workers s"
    and "set (sp_parked s) \<subseteq> set (sp_parked s')" "p \<noteq> Unpark" "sp_pc s t \<noteq> Unpark"
    and "p \<in> {Wait_check, Wait_park} \<longrightarrow> t \<in> set (sp_parked s')" "p = Wait_park \<longrightarrow> 0 < sp_workers s"
  shows "wake_inv s'"
  unfolding wake_inv_def
proof (intro conjI allI impI)
  fix u assume u: "stuck u s'"
  show "0 < sp_workers s' \<or> u \<in> set (sp_parked s') \<and> (\<exists>u. sp_pc s' u = Unpark)"
  proof (cases "u = t")
    case True
    with u assms(2,4,9) show ?thesis by (simp add: stuck_def)
  next
    case False
    then have "stuck u s" using u assms(2,3) by (simp add: stuck_def)
    with assms(1) consider "0 < sp_workers s" | v where "u \<in> set (sp_parked s)" "sp_pc s v = Unpark"
      unfolding wake_inv_def by metis
    then show ?thesis
    proof cases
      case 2
      with assms(2,5,7) have "sp_pc s' v = Unpark" by auto
      with 2 assms(5) show ?thesis by blast
    qed (simp add: assms(4))
  qed
next
  fix u assume u: "sp_pc s' u \<in> {Wait_check, Wait_park}"
  show "sp_workers s' = 0 \<or> u \<in> set (sp_parked s')"
  proof (cases "u = t")
    case True
    with u assms(2,8) show ?thesis by simp
  next
    case False
    with u assms(1,2,4,5) show ?thesis unfolding wake_inv_def by auto
  qed
next
  fix u assume "sp_pc s' u = Unpark"
  with assms(1,2,4,6) show "sp_workers s' = 0" unfolding wake_inv_def by (auto split: if_splits)
qed

lemma wake_inv_step:
  assumes "quiet_step s s'" "wake_inv s" "workers_inv s" shows "wake_inv s'"
  using assms
proof (induction rule: quiet_step.induct)
  case (begins s t op)
  note mv = wake_inv_move[OF begins(4), where t = t]
  from begins show ?case by (cases op) (auto simp: begin_op_def goto_def intro!: mv)
next
  case (advances s t)
  note mv = wake_inv_move[OF advances(1), where t = t]
  have w: "sp_pc s u \<in> {Wait_check, Wait_park} \<Longrightarrow> sp_workers s = 0 \<or> u \<in> set (sp_parked s)"
    "stuck u s \<Longrightarrow> 0 < sp_workers s \<or> u \<in> set (sp_parked s) \<and> (\<exists>u. sp_pc s u = Unpark)"
    "sp_pc s u = Unpark \<Longrightarrow> sp_workers s = 0" for u
    using advances(1) unfolding wake_inv_def by blast+
  have ex: "\<exists>u. u \<noteq> t \<and> (u \<noteq> t \<longrightarrow> sp_pc s u = Unpark)" if "sp_pc s t \<noteq> Unpark" "\<exists>u. sp_pc s u = Unpark"
    using that by metis
  show ?case
  proof (cases "sp_pc s t")
    case Idle
    with advances show ?thesis by (simp add: advance_def)
  next
    case (Stop_drain a)
    then show ?thesis by (cases a) (auto simp: advance_def after_stop_def drain_listeners_def logged_def intro!: mv)
  next
    case (Release n)
    then show ?thesis by (auto simp: advance_def remove_listener_def logged_def split: option.split intro!: mv)
  next
    case Release_sub
    have p: "0 < sp_workers s" using workers_pos[OF advances(2), of t] Release_sub by simp
    show ?thesis using w p unfolding wake_inv_def stuck_def advance_def Release_sub by auto
  next
    case Unpark
    show ?thesis using w w(3)[OF Unpark] unfolding wake_inv_def stuck_def advance_def Unpark unpark_all_def by auto
  next
    case Wait_park
    show ?thesis using w w(1)[of t] ex Wait_park
      unfolding wake_inv_def stuck_def advance_def Wait_park take_permit_def by auto
  next
    case Timed_park
    show ?thesis using w ex Timed_park unfolding wake_inv_def stuck_def advance_def Timed_park take_permit_def by auto
  next
    case Wait_check
    then show ?thesis using w(1)[of t] by (auto simp: advance_def logged_def intro!: mv)
  qed (auto simp: advance_def logged_def goto_def intro!: mv)
qed

section \<open>Properties\<close>


definition one_worker :: stopper where
  "one_worker = begin_op 0 (Op_add ''a'') StopManager_new"

lemma one_worker_reachable: "stop_reachable one_worker"
  unfolding one_worker_def
  by (rule stop_reachable.step[OF stop_reachable.init stop_step.begins]) (simp_all add: StopManager_new_def)

lemma one_worker_eq:
  "one_worker = \<lparr>sp_closed = False, sp_listeners = [(''a'', 0)], sp_parked = [], sp_workers = 1, sp_state = False,
     sp_stop_call = True, sp_permit = (\<lambda>_. False), sp_owned = [''a''], sp_registered = 1, sp_log = [], sp_pc = (\<lambda>_. Idle)\<rparr>"
  by (simp add: one_worker_def stop_ops StopManager_new_def)



text \<open>Steps of the other threads.\<close>

inductive elsewhere :: "nat \<Rightarrow> stopper \<Rightarrow> stopper \<Rightarrow> bool" for t where
  here: "elsewhere t s s"
| begins: "elsewhere t s s' \<Longrightarrow> u \<noteq> t \<Longrightarrow> sp_pc s' u = Idle \<Longrightarrow> may_begin op s' \<Longrightarrow> elsewhere t s (begin_op u op s')"
| advances: "elsewhere t s s' \<Longrightarrow> u \<noteq> t \<Longrightarrow> elsewhere t s (advance u s')"

lemma stuck_stays:
  assumes "elsewhere t s s'" "stuck t s" "t \<notin> set (sp_parked s)"
  shows "stuck t s' \<and> t \<notin> set (sp_parked s')"
  using assms
proof (induction rule: elsewhere.induct)
  case (begins s s' u op)
  then show ?case
    by (cases op) (auto simp: begin_op_def stuck_def StopManager_add_listener_def split: sum.split if_splits)
next
  case (advances s s' u)
  then show ?case
    by (cases "sp_pc s' u") (auto simp: advance_def stuck_def logged_def drain_listeners_def remove_listener_def
        unpark_all_def take_permit_def split: option.split)
qed auto

definition late_wait :: stopper where
  "late_wait = advance 1 (begin_op 1 Op_wait one_worker)"

definition late_drop :: stopper where
  "late_drop = advance 0 (advance 0 (begin_op 0 (Op_drop ''a'') late_wait))"

definition late_woken :: stopper where
  "late_woken = advance 0 (begin_op 2 (Op_add ''b'') late_drop)"

definition late_parks :: stopper where
  "late_parks = advance 1 (advance 1 late_woken)"

definition late_stops :: stopper where
  "late_stops = advance 0 (advance 0 (advance 0 late_parks))"

definition late_registration :: stopper where
  "late_registration = (advance 2 \<circ> advance 2 \<circ> advance 2 \<circ> advance 2 \<circ> advance 2 \<circ> advance 2) (begin_op 2 (Op_drop ''b'') late_stops)"

lemma late_wait_eq:
  "late_wait = \<lparr>sp_closed = False, sp_listeners = [(''a'', 0)], sp_parked = [1], sp_workers = 1, sp_state = False, sp_stop_call = True,
     sp_permit = (\<lambda>_. False), sp_owned = [''a''], sp_registered = 1, sp_log = [],
     sp_pc = (\<lambda>_. Idle)(1 := Wait_park)\<rparr>"
  by (simp add: late_wait_def one_worker_eq stop_ops fun_eq_iff)

lemma late_drop_eq:
  "late_drop = \<lparr>sp_closed = False, sp_listeners = [], sp_parked = [1], sp_workers = 0, sp_state = False, sp_stop_call = True,
     sp_permit = (\<lambda>_. False), sp_owned = [], sp_registered = 1, sp_log = [Called 0],
     sp_pc = (\<lambda>_. Idle)(1 := Wait_park, 0 := Unpark)\<rparr>"
  by (simp add: late_drop_def late_wait_eq stop_ops fun_eq_iff)

lemma late_woken_eq:
  "late_woken = \<lparr>sp_closed = False, sp_listeners = [(''b'', 1)], sp_parked = [], sp_workers = 1, sp_state = False, sp_stop_call = True,
     sp_permit = (\<lambda>t. t = 1), sp_owned = [''b''], sp_registered = 2, sp_log = [Called 0],
     sp_pc = (\<lambda>_. Idle)(1 := Wait_park, 0 := Stop_flag)\<rparr>"
  by (simp add: late_woken_def late_drop_eq stop_ops fun_eq_iff)

lemma late_parks_eq:
  "late_parks = \<lparr>sp_closed = False, sp_listeners = [(''b'', 1)], sp_parked = [], sp_workers = 1, sp_state = False, sp_stop_call = True,
     sp_permit = (\<lambda>_. False), sp_owned = [''b''], sp_registered = 2, sp_log = [Called 0],
     sp_pc = (\<lambda>_. Idle)(1 := Wait_park, 0 := Stop_flag)\<rparr>"
  by (simp add: late_parks_def late_woken_eq stop_ops fun_eq_iff)

lemma late_stops_eq:
  "late_stops = \<lparr>sp_closed = True, sp_listeners = [], sp_parked = [], sp_workers = 1, sp_state = True, sp_stop_call = False,
     sp_permit = (\<lambda>_. False), sp_owned = [''b''], sp_registered = 2, sp_log = [Called 0, Called 1, Finished],
     sp_pc = (\<lambda>_. Idle)(1 := Wait_park)\<rparr>"
  by (simp add: late_stops_def late_parks_eq stop_ops fun_eq_iff)

lemma late_registration_eq:
  "late_registration = \<lparr>sp_closed = True, sp_listeners = [], sp_parked = [], sp_workers = 0, sp_state = True, sp_stop_call = False,
     sp_permit = (\<lambda>_. False), sp_owned = [], sp_registered = 2, sp_log = [Called 0, Called 1, Finished],
     sp_pc = (\<lambda>_. Idle)(1 := Wait_park)\<rparr>"
  by (simp add: late_registration_def late_stops_eq stop_ops fun_eq_iff)

lemma late_registration_reachable: "stop_reachable late_registration"
proof -
  have b: "stop_reachable s \<Longrightarrow> sp_pc s t = Idle \<Longrightarrow> may_begin op s \<Longrightarrow> stop_reachable (begin_op t op s)" for s t op
    by (rule stop_reachable.step[OF _ stop_step.begins])
  have a: "stop_reachable s \<Longrightarrow> stop_reachable (advance t s)" for s t
    by (rule stop_reachable.step[OF _ stop_step.advances])
  have 1: "stop_reachable late_wait"
    unfolding late_wait_def by (intro a b one_worker_reachable) (simp_all add: one_worker_eq)
  have 2: "stop_reachable late_drop"
    unfolding late_drop_def by (intro a b 1) (simp_all add: late_wait_eq)
  have "stop_reachable late_woken"
    unfolding late_woken_def by (intro a b 2) (simp_all add: late_drop_eq)
  then have 3: "stop_reachable late_stops" unfolding late_stops_def late_parks_def by (intro a)
  show ?thesis
    unfolding late_registration_def comp_def by (intro a b 3) (simp_all add: late_stops_eq)
qed

definition all_dropped :: stopper where
  "all_dropped = (advance 0 \<circ> advance 0 \<circ> advance 0 \<circ> advance 0) late_drop"

lemma all_dropped_eq:
  "all_dropped = \<lparr>sp_closed = True, sp_listeners = [], sp_parked = [], sp_workers = 0, sp_state = True,
     sp_stop_call = False, sp_permit = (\<lambda>t. t = 1), sp_owned = [], sp_registered = 1,
     sp_log = [Called 0, Finished], sp_pc = (\<lambda>_. Idle)(1 := Wait_park)\<rparr>"
  by (simp add: all_dropped_def late_drop_eq stop_ops fun_eq_iff)

lemma all_dropped_quietly: "quietly one_worker all_dropped"
proof -
  have b: "quietly r s \<Longrightarrow> sp_pc s t = Idle \<Longrightarrow> may_begin op s \<Longrightarrow> \<nexists>n. op = Op_add n \<Longrightarrow> quietly r (begin_op t op s)"
    for r s t op by (rule quietly.quiet_step[OF _ quiet_step.begins])
  have a: "quietly r s \<Longrightarrow> quietly r (advance t s)" for r s t
    by (rule quietly.quiet_step[OF _ quiet_step.advances])
  have 1: "quietly one_worker late_wait"
    unfolding late_wait_def by (intro a b quiet_init) (simp_all add: one_worker_eq)
  have 2: "quietly one_worker late_drop" unfolding late_drop_def by (intro a b 1) (simp_all add: late_wait_eq)
  show ?thesis unfolding all_dropped_def comp_def by (intro a 2)
qed


text \<open>
  A waiter can be left behind. A thread waits; the last worker is dropped; before the stopping that this
  starts has reached the listeners, another worker is registered. The waiter is woken, sees the new worker
  and parks again, but it stands in the list of parked threads only once, before its loop. When the new
  worker is gone as well, everything is stopped, and the waiter sleeps, whatever the other threads do.
\<close>

theorem waiter_left_behind:
  "\<exists>s t. stop_reachable s \<and> at_rest s \<and> StopManager_is_stopped s \<and> sp_closed s \<and> \<not> sp_stop_call s \<and>
     (\<forall>s'. elsewhere t s s' \<longrightarrow> stuck t s')"
proof (intro exI conjI allI impI)
  show "stop_reachable late_registration" by (rule late_registration_reachable)
  show "at_rest late_registration" by (simp add: late_registration_eq at_rest_def waiting_def)
  show "stuck 1 s'" if "elsewhere 1 late_registration s'" for s'
    using stuck_stays[OF that] by (simp add: stuck_def late_registration_eq)
qed (simp_all add: late_registration_eq StopManager_is_stopped_def)


lemma waiter_left_behind_witness: "\<exists>s t. stop_reachable s \<and> StopManager_is_stopped s \<and> stuck t s"
  using waiter_left_behind elsewhere.intros by blast

end
