(* ===== verification/Task_Scheduler.thy ===== *)
theory Task_Scheduler
  imports Vnt_Prelude "HOL-Library.Multiset"
begin

text \<open>
  The timer behind every periodic task, \<^verbatim>\<open>vnt/src/util/scheduler.rs\<close>: one thread runs the loop \<open>run\<close>
  over a heap of delayed tasks, fed by a bounded channel. Other threads and the tasks themselves
  add tasks with \<open>timeout\<close>; time passes between any two steps. A task, a closure, is a number; what it
  asks of the scheduler when it runs, a list of delays and tasks, is any list that the parameter \<open>body\<close>
  allows for it. Creating the thread is taken to succeed, and a call of \<open>timeout\<close> is one step.
\<close>

section \<open>State\<close>

text \<open>\<open>Shutdown\<close>, the source's \<open>_Shutdown\<close>, is never set.\<close>

datatype SchedulerState = Running | ShutdownNow | Shutdown

record DelayedTask =
  dt_f :: nat
  dt_next :: nat

datatype sched_op = Op_task DelayedTask | Op_halt

text \<open>
  Where the loop is: before \<open>peek\<close>, behind the check of the state, in \<open>recv_timeout\<close>, in a task that
  has requests left, in the loop over \<open>try_recv\<close>, in \<open>recv\<close>, or returned.
\<close>

datatype loop_pc = Peek | Checked | Await | In_task "(nat \<times> nat) list" | Try_recv | Recv | Returned

text \<open>
  The channel, the heap as the multiset of its tasks, the shared state and the clock; what ran and when,
  which requests were accepted, and which requests of tasks were refused.
\<close>

record scheduler =
  sc_queue :: "sched_op list"
  sc_heap :: "DelayedTask multiset"
  sc_state :: SchedulerState
  sc_now :: nat
  sc_pc :: loop_pc
  sc_ran :: "(DelayedTask \<times> nat) list"
  sc_accepted :: "DelayedTask list"
  sc_refused :: "(nat \<times> nat) list"

definition CHANNEL_BOUND :: nat where "CHANNEL_BOUND = 32"

definition Scheduler_new :: "nat \<Rightarrow> scheduler" where
  "Scheduler_new now = \<lparr>sc_queue = [], sc_heap = {#}, sc_state = Running, sc_now = now, sc_pc = Peek,
     sc_ran = [], sc_accepted = [], sc_refused = []\<rparr>"

section \<open>Operations\<close>

text \<open>\<open>timeout\<close>: refused when the scheduler is shutting down, has returned, or the channel is full.\<close>

definition Scheduler_timeout :: "nat \<Rightarrow> nat \<Rightarrow> scheduler \<Rightarrow> scheduler option" where
  "Scheduler_timeout time f s =
     (if sc_state s \<noteq> Running then None
      else
        let task = \<lparr>dt_f = f, dt_next = sc_now s + time\<rparr> in
        if sc_pc s = Returned \<or> CHANNEL_BOUND \<le> length (sc_queue s) then None
        else Some (s\<lparr>sc_queue := sc_queue s @ [Op_task task], sc_accepted := task # sc_accepted s\<rparr>))"

definition Scheduler_shutdown_now :: "scheduler \<Rightarrow> scheduler" where
  "Scheduler_shutdown_now s = s\<lparr>sc_state := ShutdownNow\<rparr>"

text \<open>The second half of \<open>shutdown_now\<close>: the send blocks while the channel is full.\<close>

definition send_halt :: "scheduler \<Rightarrow> scheduler" where
  "send_halt s = s\<lparr>sc_queue := sc_queue s @ [Op_halt]\<rparr>"

definition returned :: "scheduler \<Rightarrow> scheduler" where
  "returned s = Scheduler_shutdown_now (s\<lparr>sc_pc := Returned\<rparr>)"

text \<open>\<open>add_task\<close>, then to the given place of the loop.\<close>

definition add_task :: "loop_pc \<Rightarrow> scheduler \<Rightarrow> scheduler" where
  "add_task p s = (case sc_queue s of
     [] \<Rightarrow> s
   | Op_task task # q \<Rightarrow> s\<lparr>sc_queue := q, sc_heap := add_mset task (sc_heap s), sc_pc := p\<rparr>
   | Op_halt # q \<Rightarrow> returned (s\<lparr>sc_queue := q\<rparr>))"

definition request :: "nat \<times> nat \<Rightarrow> scheduler \<Rightarrow> scheduler" where
  "request r s = (case Scheduler_timeout (fst r) (snd r) s of Some s' \<Rightarrow> s' | None \<Rightarrow> s\<lparr>sc_refused := r # sc_refused s\<rparr>)"

text \<open>The order of the heap is reversed, so its top is a task with the earliest time.\<close>

definition earliest :: "DelayedTask \<Rightarrow> scheduler \<Rightarrow> bool" where
  "earliest task s \<longleftrightarrow> task \<in># sc_heap s \<and> (\<forall>t\<in>#sc_heap s. dt_next task \<le> dt_next t)"

section \<open>The loop\<close>

type_synonym bodies = "nat \<Rightarrow> (nat \<times> nat) list \<Rightarrow> bool"

inductive run_step :: "bodies \<Rightarrow> scheduler \<Rightarrow> scheduler \<Rightarrow> bool" for body where
  peek_empty: "sc_pc s = Peek \<Longrightarrow> sc_heap s = {#} \<Longrightarrow> run_step body s (s\<lparr>sc_pc := Try_recv\<rparr>)"
| peek_stop: "sc_pc s = Peek \<Longrightarrow> sc_heap s \<noteq> {#} \<Longrightarrow> sc_state s = ShutdownNow \<Longrightarrow> run_step body s (returned s)"
| peek: "sc_pc s = Peek \<Longrightarrow> sc_heap s \<noteq> {#} \<Longrightarrow> sc_state s \<noteq> ShutdownNow \<Longrightarrow> run_step body s (s\<lparr>sc_pc := Checked\<rparr>)"
| early: "sc_pc s = Checked \<Longrightarrow> earliest task s \<Longrightarrow> sc_now s < dt_next task \<Longrightarrow> run_step body s (s\<lparr>sc_pc := Await\<rparr>)"
| await_op: "sc_pc s = Await \<Longrightarrow> sc_queue s \<noteq> [] \<Longrightarrow> run_step body s (add_task Peek s)"
| await_timeout: "sc_pc s = Await \<Longrightarrow> sc_queue s = [] \<Longrightarrow> earliest task s \<Longrightarrow> dt_next task \<le> sc_now s \<Longrightarrow>
    run_step body s (s\<lparr>sc_pc := Peek\<rparr>)"
| due: "sc_pc s = Checked \<Longrightarrow> earliest task s \<Longrightarrow> dt_next task \<le> sc_now s \<Longrightarrow> body (dt_f task) rs \<Longrightarrow>
    run_step body s (s\<lparr>sc_heap := sc_heap s - {#task#}, sc_ran := sc_ran s @ [(task, sc_now s)], sc_pc := In_task rs\<rparr>)"
| task_request: "sc_pc s = In_task (r # rs) \<Longrightarrow> run_step body s (request r s\<lparr>sc_pc := In_task rs\<rparr>)"
| task_end: "sc_pc s = In_task [] \<Longrightarrow> run_step body s (s\<lparr>sc_pc := Peek\<rparr>)"
| try_op: "sc_pc s = Try_recv \<Longrightarrow> sc_queue s \<noteq> [] \<Longrightarrow> run_step body s (add_task Try_recv s)"
| try_empty: "sc_pc s = Try_recv \<Longrightarrow> sc_queue s = [] \<Longrightarrow>
    run_step body s (s\<lparr>sc_pc := (if sc_heap s = {#} then Recv else Peek)\<rparr>)"
| recv: "sc_pc s = Recv \<Longrightarrow> sc_queue s \<noteq> [] \<Longrightarrow> run_step body s (add_task Peek s)"

text \<open>What the rest of the program and the clock do.\<close>

inductive other_step :: "scheduler \<Rightarrow> scheduler \<Rightarrow> bool" where
  tick: "other_step s (s\<lparr>sc_now := sc_now s + d\<rparr>)"
| timeout: "Scheduler_timeout d f s = Some s' \<Longrightarrow> other_step s s'"
| shutdown: "other_step s (Scheduler_shutdown_now s)"
| halt: "sc_state s = ShutdownNow \<Longrightarrow> sc_pc s \<noteq> Returned \<Longrightarrow> length (sc_queue s) < CHANNEL_BOUND \<Longrightarrow> other_step s (send_halt s)"

inductive sched_reachable :: "bodies \<Rightarrow> scheduler \<Rightarrow> bool" for body where
  init: "sched_reachable body (Scheduler_new now)"
| loop: "sched_reachable body s \<Longrightarrow> run_step body s s' \<Longrightarrow> sched_reachable body s'"
| other: "sched_reachable body s \<Longrightarrow> other_step s s' \<Longrightarrow> sched_reachable body s'"

section \<open>Invariant\<close>

fun tasks_of :: "sched_op list \<Rightarrow> DelayedTask list" where
  "tasks_of [] = []"
| "tasks_of (Op_task t # q) = t # tasks_of q"
| "tasks_of (Op_halt # q) = tasks_of q"

lemma tasks_of_append [simp]: "tasks_of (p @ q) = tasks_of p @ tasks_of q"
  by (induction p rule: tasks_of.induct) simp_all

lemma length_tasks_of: "length (tasks_of q) \<le> length q"
  by (induction q rule: tasks_of.induct) simp_all

text \<open>No accepted task is lost or runs twice, none runs early, and the channel keeps its bound.\<close>

definition sched_inv :: "scheduler \<Rightarrow> bool" where
  "sched_inv s \<longleftrightarrow>
     mset (sc_accepted s) = mset (map fst (sc_ran s)) + sc_heap s + mset (tasks_of (sc_queue s)) \<and>
     (\<forall>(t, at)\<in>set (sc_ran s). dt_next t \<le> at \<and> at \<le> sc_now s) \<and>
     sorted (map snd (sc_ran s)) \<and> length (sc_queue s) \<le> CHANNEL_BOUND \<and> (sc_pc s = Returned \<longrightarrow> sc_state s = ShutdownNow)"

lemma timeout_inv: "sched_inv s \<Longrightarrow> Scheduler_timeout d f s = Some s' \<Longrightarrow> sched_inv s'"
  by (auto simp: sched_inv_def Scheduler_timeout_def Let_def CHANNEL_BOUND_def split: if_splits)

lemma request_inv: "sched_inv s \<Longrightarrow> sched_inv (request r s)"
  unfolding request_def by (auto split: option.split dest: timeout_inv) (simp add: sched_inv_def)

lemma pc_inv: "sched_inv s \<Longrightarrow> p \<noteq> Returned \<Longrightarrow> sched_inv (s\<lparr>sc_pc := p\<rparr>)"
  by (simp add: sched_inv_def)

lemma returned_inv: "sched_inv s \<Longrightarrow> sched_inv (returned s)"
  by (simp add: sched_inv_def returned_def Scheduler_shutdown_now_def)

lemma add_task_inv: "sched_inv s \<Longrightarrow> p \<noteq> Returned \<Longrightarrow> sched_inv (add_task p s)"
  by (auto simp: add_task_def sched_inv_def returned_def Scheduler_shutdown_now_def split: list.split sched_op.split)

lemma due_inv:
  assumes "sched_inv s" "earliest task s" "dt_next task \<le> sc_now s"
  shows "sched_inv (s\<lparr>sc_heap := sc_heap s - {#task#}, sc_ran := sc_ran s @ [(task, sc_now s)], sc_pc := In_task rs\<rparr>)"
proof -
  obtain H where H: "sc_heap s = add_mset task H"
    using assms(2) by (auto simp: earliest_def dest: multi_member_split)
  from assms(1,3) show ?thesis by (auto simp: sched_inv_def H sorted_append)
qed

theorem sched_reachable_inv: "sched_reachable body s \<Longrightarrow> sched_inv s"
proof (induction rule: sched_reachable.induct)
  case (init now)
  show ?case by (simp add: sched_inv_def Scheduler_new_def CHANNEL_BOUND_def)
next
  case (loop s s')
  from loop(2,3) show ?case
    by (induction rule: run_step.induct) (auto intro: pc_inv returned_inv add_task_inv due_inv request_inv)
next
  case (other s s')
  from other(2,3) show ?case
  proof (induction rule: other_step.induct)
    case (tick s d)
    then show ?case by (fastforce simp: sched_inv_def)
  qed (auto simp: timeout_inv, auto simp: sched_inv_def Scheduler_shutdown_now_def send_halt_def)
qed

section \<open>Capacity and shutdown\<close>

text \<open>
  What the scheduler has to hold: every task counts with its weight, in the channel, in the heap, and in
  the requests the running task has left. Weights are fair when each task asks for no more than its own. A modest
  run registers new tasks from outside only when their weight still fits the bound of the channel.
\<close>

definition op_weight :: "(nat \<Rightarrow> nat) \<Rightarrow> sched_op \<Rightarrow> nat" where
  "op_weight wt q = (case q of Op_task t \<Rightarrow> wt (dt_f t) | Op_halt \<Rightarrow> 1)"

definition load :: "(nat \<Rightarrow> nat) \<Rightarrow> scheduler \<Rightarrow> nat" where
  "load wt s = sum_list (map (op_weight wt) (sc_queue s)) + (\<Sum>t\<in>#sc_heap s. wt (dt_f t)) +
     (case sc_pc s of In_task rs \<Rightarrow> sum_list (map (\<lambda>r. wt (snd r)) rs) | _ \<Rightarrow> 0)"

definition fair_weights :: "bodies \<Rightarrow> (nat \<Rightarrow> nat) \<Rightarrow> bool" where
  "fair_weights body wt \<longleftrightarrow> (\<forall>t. 1 \<le> wt t) \<and> (\<forall>t rs. body t rs \<longrightarrow> sum_list (map (\<lambda>r. wt (snd r)) rs) \<le> wt t)"

inductive modest :: "bodies \<Rightarrow> (nat \<Rightarrow> nat) \<Rightarrow> scheduler \<Rightarrow> bool" for body wt where
  modest_init: "modest body wt (Scheduler_new now)"
| modest_loop: "modest body wt s \<Longrightarrow> run_step body s s' \<Longrightarrow> modest body wt s'"
| modest_tick: "modest body wt s \<Longrightarrow> modest body wt (s\<lparr>sc_now := sc_now s + d\<rparr>)"
| modest_timeout: "modest body wt s \<Longrightarrow> load wt s + wt f \<le> CHANNEL_BOUND \<Longrightarrow> Scheduler_timeout d f s = Some s' \<Longrightarrow> modest body wt s'"
| modest_stop: "modest body wt s \<Longrightarrow> modest body wt (Scheduler_shutdown_now s)"

definition held :: "(nat \<Rightarrow> nat) \<Rightarrow> nat \<Rightarrow> scheduler \<Rightarrow> bool" where
  "held wt B s \<longleftrightarrow> (sc_state s = Running \<longrightarrow> load wt s \<le> B \<and> sc_refused s = [] \<and> sc_pc s \<noteq> Returned)"

lemma held_add_task:
  "held wt B s \<Longrightarrow> sc_pc s \<in> {Await, Try_recv, Recv} \<Longrightarrow> p \<in> {Peek, Try_recv} \<Longrightarrow> held wt B (add_task p s)"
  by (auto simp: held_def load_def op_weight_def add_task_def returned_def Scheduler_shutdown_now_def
      split: list.split sched_op.split)

lemma queue_load: "\<forall>t. 1 \<le> wt t \<Longrightarrow> length q \<le> sum_list (map (op_weight wt) q)"
proof (induction q)
  case (Cons x q)
  then have "1 \<le> op_weight wt x" by (auto simp: op_weight_def split: sched_op.split)
  with Cons show ?case by simp
qed simp

lemma held_request:
  assumes "held wt B s" "sc_pc s = In_task (r # rs)" "\<forall>t. 1 \<le> wt t" "B \<le> CHANNEL_BOUND"
  shows "held wt B (request r s\<lparr>sc_pc := In_task rs\<rparr>)"
proof (cases "sc_state s = Running")
  case True
  have "1 \<le> wt (snd r)" using assms(3) by blast
  with assms(1,2,4) True queue_load[OF assms(3), of "sc_queue s"] have "\<not> CHANNEL_BOUND \<le> length (sc_queue s)"
    by (simp add: held_def load_def)
  with assms(1,2) True show ?thesis
    by (simp add: held_def load_def request_def Scheduler_timeout_def Let_def op_weight_def)
next
  case False
  then have "sc_state (request r s) \<noteq> Running" by (simp add: request_def Scheduler_timeout_def)
  then show ?thesis by (simp add: held_def)
qed

lemma held_due:
  assumes "held wt B s" "sc_pc s = Checked" "task \<in># sc_heap s" "sum_list (map (\<lambda>r. wt (snd r)) rs) \<le> wt (dt_f task)"
  shows "held wt B (s\<lparr>sc_heap := sc_heap s - {#task#}, sc_ran := r, sc_pc := In_task rs\<rparr>)"
proof -
  obtain H where H: "sc_heap s = add_mset task H" using assms(3) by (auto dest: multi_member_split)
  from assms show ?thesis by (auto simp: held_def load_def H)
qed

lemma held_timeout:
  assumes "held wt B s" "Scheduler_timeout d f s = Some s'" shows "held wt (B + wt f) s'"
proof -
  from assms(2) have "load wt s' = load wt s + wt f \<and> sc_refused s' = sc_refused s \<and> sc_state s' = sc_state s \<and> sc_pc s' = sc_pc s"
    by (auto simp: Scheduler_timeout_def Let_def load_def op_weight_def split: if_splits)
  with assms(1) show ?thesis by (simp add: held_def)
qed

lemma held_start: "held wt 0 (Scheduler_new now)"
  by (simp add: held_def load_def Scheduler_new_def)

lemma held_frame: "held wt B s \<Longrightarrow> held wt B (s\<lparr>sc_now := n\<rparr>)" "held wt B (Scheduler_shutdown_now s)"
  by (simp_all add: held_def load_def Scheduler_shutdown_now_def)

lemma held_mono: "held wt A s \<Longrightarrow> A \<le> B \<Longrightarrow> held wt B s"
  by (auto simp: held_def)

lemma held_run_step:
  assumes "run_step body s s'" "held wt B s" "fair_weights body wt" "B \<le> CHANNEL_BOUND"
  shows "held wt B s'"
  using assms
proof (induction rule: run_step.induct)
  case (due s task rs)
  then show ?case by (intro held_due) (auto simp: earliest_def fair_weights_def)
next
  case (task_request s r rs)
  then show ?case by (intro held_request) (auto simp: fair_weights_def)
qed (auto simp: held_add_task, auto simp: held_def load_def returned_def Scheduler_shutdown_now_def)

text \<open>Steps of the loop and of the rest of the program, from a given state.\<close>

inductive sched_steps :: "bodies \<Rightarrow> scheduler \<Rightarrow> scheduler \<Rightarrow> bool" for body s where
  stay: "sched_steps body s s"
| by_loop: "sched_steps body s s' \<Longrightarrow> run_step body s' s'' \<Longrightarrow> sched_steps body s s''"
| by_other: "sched_steps body s s' \<Longrightarrow> other_step s' s'' \<Longrightarrow> sched_steps body s s''"

definition to_start :: "scheduler \<Rightarrow> nat" where
  "to_start s = length (sc_ran s) + (if sc_pc s = Checked then 1 else 0)"

lemma stopping_run_step:
  "run_step body s s' \<Longrightarrow> sc_state s = ShutdownNow \<Longrightarrow> sc_state s' = ShutdownNow \<and> to_start s' \<le> to_start s"
  by (induction rule: run_step.induct)
    (auto simp: to_start_def add_task_def returned_def Scheduler_shutdown_now_def request_def Scheduler_timeout_def
      split: list.split sched_op.split option.split)

lemma stopping_other_step:
  "other_step s s' \<Longrightarrow> sc_state s = ShutdownNow \<Longrightarrow> sc_state s' = ShutdownNow \<and> to_start s' = to_start s"
  by (induction rule: other_step.induct)
    (auto simp: to_start_def Scheduler_shutdown_now_def Scheduler_timeout_def send_halt_def)

section \<open>Properties\<close>


definition repeating :: bodies where
  "repeating t rs \<longleftrightarrow> rs = [(10, t)]"

definition one_task :: scheduler where
  "one_task = (Scheduler_new 0)\<lparr>sc_queue := [Op_task \<lparr>dt_f = 7, dt_next = 10\<rparr>], sc_accepted := [\<lparr>dt_f = 7, dt_next = 10\<rparr>]\<rparr>"

lemma one_task_scheduled: "Scheduler_timeout 10 7 (Scheduler_new 0) = Some one_task"
  by (simp add: Scheduler_timeout_def Scheduler_new_def one_task_def CHANNEL_BOUND_def Let_def)


text \<open>
  The bound of the channel is enough for the periodic tasks. Give every task a weight of at least one, so that no
  task asks for more than its own weight when it runs, and add tasks from outside only while all weights together
  fit the bound: then no task is ever refused its next round before the scheduler is shut down.
\<close>

theorem periodic_tasks_continue:
  assumes "modest body wt s" and "fair_weights body wt" and "sc_state s = Running"
  shows "sc_refused s = [] \<and> load wt s \<le> CHANNEL_BOUND"
proof -
  from assms(1) have "held wt CHANNEL_BOUND s"
  proof (induction rule: modest.induct)
    case (modest_init now)
    show ?case by (rule held_mono[OF held_start]) simp
  next
    case (modest_loop s s')
    show ?case by (rule held_run_step[OF modest_loop(2,3) assms(2)]) simp
  next
    case (modest_timeout s f d s')
    then have "held wt (load wt s) s" by (simp add: held_def)
    from held_mono[OF held_timeout[OF this modest_timeout(3)] modest_timeout(2)] show ?case .
  qed (simp_all only: held_frame)
  with assms(3) show ?thesis by (simp add: held_def)
qed

lemma one_task_modest: "modest repeating (\<lambda>_. 1) one_task"
  by (rule modest_timeout[OF modest_init _ one_task_scheduled]) (simp add: load_def Scheduler_new_def CHANNEL_BOUND_def)

lemma periodic_tasks_continue_witness: "sc_refused one_task = [] \<and> load (\<lambda>_. 1) one_task \<le> CHANNEL_BOUND"
  using periodic_tasks_continue[OF one_task_modest]
  by (simp add: fair_weights_def repeating_def Scheduler_new_def one_task_def)



end
