(* ===== verification/Startup.thy ===== *)
theory Startup
  imports System Settings Stop_Manager Task_Scheduler
begin

text \<open>
  Starting the program, \<open>VntInner::new_device0\<close> and \<open>start\<close> of \<^verbatim>\<open>vnt/src/core/conn.rs\<close> with \<open>init_context\<close> and
  \<open>init_channel\<close> of \<^verbatim>\<open>vnt/src/channel/mod.rs\<close>: how a configuration becomes the fixed part
  and the initial state of the program, which threads are registered at the stop manager on the way, and which
  timers are set. What the operating system answers is a parameter.
\<close>

section \<open>The sockets\<close>

datatype bind_error = In_use err | Other_error err

text \<open>
  Whether there is IPv6; binding a datagram socket for IPv4 (the port it got, for the \<open>n\<close>-th attempt) and for
  IPv6; binding the listening socket to a port; what a thread prepares before it is registered (its poll, runtime or
  sockets), creating the thread itself being taken to succeed; and the values the system gives.
\<close>

record os_env =
  os_has_ipv6 :: bool
  os_bind_v4 :: "nat \<Rightarrow> u16 \<Rightarrow> u16 res"
  os_bind_v6 :: "u16 \<Rightarrow> bind_error + unit"
  os_bind_tcp :: "u16 \<Rightarrow> u16 res"
  os_best_interface :: "ipv4 \<Rightarrow> unit res"
  os_start :: "string \<Rightarrow> unit res"
  os_local_ipv4 :: "ipv4 option"
  os_local_ipv6 :: "ipv6 option"
  os_scaled :: "int \<Rightarrow> u32"
  os_key :: "u8 list"
  os_now :: nat

text \<open>Both families on one port; only an arbitrary port is tried again.\<close>

function bind_udp_v4_and_v6 :: "os_env \<Rightarrow> u16 \<Rightarrow> nat \<Rightarrow> u16 res" where
  "bind_udp_v4_and_v6 S port tries = bindE (os_bind_v4 S tries port) (\<lambda>addr_port.
     case os_bind_v6 S addr_port of
       Inr _ \<Rightarrow> Inr addr_port
     | Inl (Other_error e) \<Rightarrow> Inl e
     | Inl (In_use e) \<Rightarrow>
         if port = 0 then if tries > 10 then Inl e else bind_udp_v4_and_v6 S port (tries + 1) else Inl e)"
  by pat_completeness auto
termination by (relation "measure (\<lambda>(_, _, c). 12 - c)") auto

declare bind_udp_v4_and_v6.simps [simp del]

fun bind_all :: "os_env \<Rightarrow> u16 list \<Rightarrow> u16 list res" where
  "bind_all S [] = Inr []"
| "bind_all S (port # ports) =
     bindE (if os_has_ipv6 S then bind_udp_v4_and_v6 S port 0 else os_bind_v4 S 0 port) (\<lambda>p.
       mapE (\<lambda>ps. p # ps) (bind_all S ports))"

text \<open>The listening socket takes the first port; when it was arbitrary, another one is tried.\<close>

definition bind_listener :: "os_env \<Rightarrow> u16 list \<Rightarrow> u16 \<Rightarrow> u16 res" where
  "bind_listener S ports port = (case os_bind_tcp S port of
     Inr p \<Rightarrow> Inr p
   | Inl e \<Rightarrow> if ports ! 0 = 0 then os_bind_tcp S (if os_has_ipv6 S then 0 else port) else Inl e)"

definition init_context :: "os_env \<Rightarrow> u16 list \<Rightarrow> Config \<Rightarrow> TrafficMeterMultiAddress option \<Rightarrow>
    (ContextInner \<times> u16 list \<times> u16) res" where
  "init_context S ports c meter =
     (if ports = [] then Inl Panic
      else bindE (bind_all S ports) (\<lambda>udp_ports.
        bindE (ChannelContext_new (if os_has_ipv6 S then 2 * length udp_ports else length udp_ports) (length udp_ports)
          (ca_use_channel_type c) (ca_first_latency c) (co_protocol c) (map_option (os_scaled S) (ca_packet_loss_rate c))
          (ca_packet_delay c) meter meter) (\<lambda>context.
        bindE (bind_listener S ports (udp_ports ! 0)) (\<lambda>tcp_port. Inr (context, udp_ports, tcp_port)))))"

section \<open>Threads\<close>

text \<open>A thread of its own: prepared, registered under its name, and started.\<close>

definition start_worker :: "os_env \<Rightarrow> string \<Rightarrow> (stopper, unit) cmd" where
  "start_worker S name = bindS (liftE (os_start S name)) (\<lambda>_. bindS (getS (StopManager_add_listener name)) (\<lambda>r.
     case r of Inl e \<Rightarrow> failS e | Inr s \<Rightarrow> modS (\<lambda>_. s)))"

definition start_port_mapping :: "os_env \<Rightarrow> (bool \<times> socket_addr \<times> string) list \<Rightarrow> (stopper, unit) cmd" where
  "start_port_mapping S list = (if list = [] then retS () else start_worker S ''portMapping'')"

definition init_channel :: "os_env \<Rightarrow> (stopper, unit) cmd" where
  "init_channel S = thenS (start_worker S ''main_udp'') (thenS (start_worker S ''sub_udp_listen'')
     (thenS (start_worker S ''tcpChannel'') (start_worker S ''wsChannel'')))"

section \<open>The program\<close>

definition traffic_meter :: "Config \<Rightarrow> TrafficMeterMultiAddress option" where
  "traffic_meter c = (if ca_enable_traffic c then Some TrafficMeterMultiAddress_default else None)"

definition channel_ports :: "Config \<Rightarrow> u16 list" where
  "channel_ports c =
     (let ports = (case ca_ports c of None \<Rightarrow> [0, 0] | Some v \<Rightarrow> if v = [] then [0, 0] else v) in
      if UseChannelType_is_only_relay (ca_use_channel_type c) then take 1 ports else ports)"

definition base_config :: "Config \<Rightarrow> u8 list option \<Rightarrow> BaseConfigInfo" where
  "base_config c secret_hash = \<lparr>bc_name = ca_name c, bc_token = ca_token c, bc_ip = ca_ip c,
     bc_client_secret_hash = secret_hash, bc_server_secret = ca_server_encrypt c, bc_device_id = ca_device_id c,
     bc_server_addr = ca_server_address_str c, bc_mtu = (case ca_mtu c of Some m \<Rightarrow> m | None \<Rightarrow> 1420),
     bc_allow_wire_guard = ca_allow_wire_guard c\<rparr>"

definition uses_proxy :: "Config \<Rightarrow> bool" where
  "uses_proxy c \<longleftrightarrow> ca_out_ips c \<noteq> [] \<and> \<not> ca_no_proxy c"

text \<open>
  \<open>new_device0\<close>. The outside world of the program and the libraries it uses are those of \<open>C\<close>; \<open>proxies\<close> is the
  initial state of the proxies.
\<close>

definition new_device ::
  "crypto_lib \<Rightarrow> os_env \<Rightarrow> conf \<Rightarrow> IpProxyMap \<Rightarrow> Config \<Rightarrow> (stopper, conf \<times> world) cmd" where
  "new_device L S C proxies c =
     (let token = bytes_of (ca_token c); local_ipv4 = (case ca_local_ipv4 c of Some ip \<Rightarrow> Some ip | None \<Rightarrow> os_local_ipv4 S) in
      bindS (liftE (if ca_server_encrypt c then Cipher_new_key L (os_key S) token else Inr (Cipher_None, None))) (\<lambda>(server_cipher, server_key).
      bindS (liftE (Cipher_new_password L (ca_cipher_model c) (map_option bytes_of (ca_password c))
        (if ca_finger c then Some token else None))) (\<lambda>(client_cipher, _).
      bindS (liftE (if ca_in_ips c = [] then Inr () else os_best_interface S (case local_ipv4 of Some ip \<Rightarrow> ip | None \<Rightarrow> 0))) (\<lambda>_.
      bindS (liftE (Config_password_hash (cl_sha L) c)) (\<lambda>secret_hash.
      thenS (start_port_mapping S (co_port_mapping_list c)) (
      bindS (liftE (init_context S (channel_ports c) c (traffic_meter c))) (\<lambda>(context, udp_ports, tcp_port).
      thenS (start_worker S ''Scheduler'') (
      thenS (if uses_proxy c then start_worker S ''ipProxy'' else retS ()) (
      thenS (init_channel S) (
      retS (C\<lparr>cf_sha := cl_sha L, cf_client_cipher := client_cipher, cf_server_cipher := server_cipher, cf_server_key := server_key,
          cf_compressor := ca_compressor c, cf_ip_route := ExternalRoute_new (ca_in_ips c),
          cf_allow_route := AllowExternalRoute_new (ca_out_ips c), cf_use_ip_proxy := uses_proxy c, cf_base := base_config c secret_hash\<rparr>,
        world_new context (co_server_address c)
          (NatTest_new (os_now S) (ca_stun_server c) local_ipv4 (os_local_ipv6 S) udp_ports tcp_port (ca_local_ipv4 c = None))
          proxies (os_now S) (os_now S))))))))))))"

section \<open>Timers\<close>

text \<open>
  The tasks the program gives to its scheduler. \<open>new_device0\<close> sets the first three, the second of them unless everything
  goes through the server; \<open>start\<close>, the third, sets the others; every task but \<open>start\<close> sets itself again.
\<close>

definition task_idle_gateway :: nat where "task_idle_gateway = 0"
definition task_nat_type :: nat where "task_nat_type = 1"
definition task_start :: nat where "task_start = 2"

definition started_by_start :: "UseChannelType \<Rightarrow> nat list" where
  "started_by_start t = [3, 4] @ (if UseChannelType_is_only_p2p t then [] else [5]) @
     (if UseChannelType_is_only_relay t then [] else [6, 7]) @ [8]"

definition program_bodies :: "UseChannelType \<Rightarrow> bodies" where
  "program_bodies t f rs \<longleftrightarrow> map snd rs = (if f = task_start then started_by_start t else [f])"

fun startup_timeouts :: "UseChannelType \<Rightarrow> nat list" where
  "startup_timeouts t = [task_idle_gateway] @ (if UseChannelType_is_only_relay t then [] else [task_nat_type]) @ [task_start]"

text \<open>
  The starting thread sets its timers one by one while the loop already runs: \<open>todo\<close> are those it has left. A timer that
  is refused is only logged.
\<close>

inductive starting :: "UseChannelType \<Rightarrow> nat list \<Rightarrow> scheduler \<Rightarrow> bool" for t where
  starting_init: "starting t (startup_timeouts t) (Scheduler_new now)"
| starting_loop: "starting t todo s \<Longrightarrow> run_step (program_bodies t) s s' \<Longrightarrow> starting t todo s'"
| starting_tick: "starting t todo s \<Longrightarrow> starting t todo (s\<lparr>sc_now := sc_now s + d\<rparr>)"
| starting_timeout: "starting t (f # todo) s \<Longrightarrow>
    starting t todo (case Scheduler_timeout d f s of Some s' \<Rightarrow> s' | None \<Rightarrow> s\<lparr>sc_refused := (d, f) # sc_refused s\<rparr>)"
| starting_stop: "starting t todo s \<Longrightarrow> starting t todo (Scheduler_shutdown_now s)"

section \<open>Facts\<close>

text \<open>At most twelve attempts.\<close>

lemma bind_tries: "tries > 10 \<Longrightarrow> os_bind_v4 S tries 0 = Inr p \<Longrightarrow> os_bind_v6 S p = Inl (In_use e) \<Longrightarrow>
    bind_udp_v4_and_v6 S 0 tries = Inl e"
  by (subst bind_udp_v4_and_v6.simps) simp

lemma bind_all_length: "bind_all S ports = Inr ps \<Longrightarrow> length ps = length ports"
  by (induction ports arbitrary: ps) (auto simp: bindE_Inr_iff mapE_def)

lemma channel_ports_nonempty: "channel_ports c \<noteq> []"
  by (auto simp: channel_ports_def Let_def split: option.split)

text \<open>The tasks the scheduler holds: queued, in the heap, or about to be asked for.\<close>

definition held_tasks :: "scheduler \<Rightarrow> nat multiset" where
  "held_tasks s = mset (map dt_f (tasks_of (sc_queue s))) + image_mset dt_f (sc_heap s) +
     (case sc_pc s of In_task rs \<Rightarrow> mset (map snd rs) | _ \<Rightarrow> {#})"

text \<open>All timers of the program: before \<open>start\<close> has run, and afterwards.\<close>

definition all_timers :: "UseChannelType \<Rightarrow> bool \<Rightarrow> nat multiset" where
  "all_timers t has_started = (if has_started then mset (startup_timeouts t) - {#task_start#} + mset (started_by_start t)
     else mset (startup_timeouts t))"

definition timers_inv :: "UseChannelType \<Rightarrow> nat list \<Rightarrow> scheduler \<Rightarrow> bool" where
  "timers_inv t todo s \<longleftrightarrow> (sc_state s = Running \<longrightarrow> sc_refused s = [] \<and> sc_pc s \<noteq> Returned \<and>
     length (tasks_of (sc_queue s)) = length (sc_queue s) \<and> (\<exists>b. held_tasks s + mset todo = all_timers t b))"

lemma timers_size: "size (all_timers t b) \<le> 8"
  by (cases t) (auto simp: all_timers_def started_by_start_def UseChannelType_is_only_p2p_def UseChannelType_is_only_relay_def
      task_start_def task_idle_gateway_def task_nat_type_def)

lemma start_once: "task_start \<notin># all_timers t True" "task_start \<in># all_timers t False"
  by (cases t; auto simp: all_timers_def started_by_start_def UseChannelType_is_only_p2p_def UseChannelType_is_only_relay_def
      task_start_def task_idle_gateway_def task_nat_type_def)+

lemma timers_queue: "timers_inv t todo s \<Longrightarrow> sc_state s = Running \<Longrightarrow> length (sc_queue s) \<le> 8"
proof -
  assume "timers_inv t todo s" "sc_state s = Running"
  then obtain b where "length (tasks_of (sc_queue s)) = length (sc_queue s)" "held_tasks s + mset todo = all_timers t b"
    by (auto simp: timers_inv_def)
  moreover from this(2) have "size (held_tasks s) + length todo = size (all_timers t b)" by (metis size_union size_mset)
  ultimately show ?thesis using timers_size[of t b] by (simp add: held_tasks_def)
qed

lemma timers_add_task:
  "timers_inv t todo s \<Longrightarrow> sc_pc s \<in> {Await, Try_recv, Recv} \<Longrightarrow> p \<in> {Peek, Try_recv} \<Longrightarrow> timers_inv t todo (add_task p s)"
  by (auto simp: timers_inv_def held_tasks_def add_task_def returned_def Scheduler_shutdown_now_def ac_simps
      split: list.split sched_op.split)

lemma timers_request:
  assumes "timers_inv t todo s" "sc_pc s = In_task (r # rs)"
  shows "timers_inv t todo (request r s\<lparr>sc_pc := In_task rs\<rparr>)"
proof (cases "sc_state s = Running")
  case True
  with timers_queue[OF assms(1)] have "\<not> CHANNEL_BOUND \<le> length (sc_queue s)" by (simp add: CHANNEL_BOUND_def)
  with assms True show ?thesis
    by (auto simp: timers_inv_def held_tasks_def request_def Scheduler_timeout_def Let_def ac_simps)
next
  case False
  then have "sc_state (request r s) \<noteq> Running" by (simp add: request_def Scheduler_timeout_def)
  then show ?thesis by (simp add: timers_inv_def)
qed

lemma timers_due:
  assumes "timers_inv t todo s" "sc_pc s = Checked" "task \<in># sc_heap s" "program_bodies t (dt_f task) rs"
  shows "timers_inv t todo (s\<lparr>sc_heap := sc_heap s - {#task#}, sc_ran := r, sc_pc := In_task rs\<rparr>)"
proof (cases "sc_state s = Running")
  case True
  obtain H where H: "sc_heap s = add_mset task H" using assms(3) by (auto dest: multi_member_split)
  let ?Q = "mset (map dt_f (tasks_of (sc_queue s)))"
  obtain b where b: "add_mset (dt_f task) (?Q + image_mset dt_f H) + mset todo = all_timers t b"
    using assms(1,2) True by (auto simp: timers_inv_def held_tasks_def H)
  have "\<exists>b'. ?Q + image_mset dt_f H + mset (map snd rs) + mset todo = all_timers t b'"
  proof (cases "dt_f task = task_start")
    case True
    with b start_once(1)[of t] have "b = False" by (metis (full_types) union_single_eq_member add_mset_add_single union_commute union_iff)
    with True b have "?Q + image_mset dt_f H + mset todo = mset (startup_timeouts t) - {#task_start#}"
      by (metis add_mset_remove_trivial all_timers_def union_mset_add_mset_left)
    with True assms(4) have "?Q + image_mset dt_f H + mset (map snd rs) + mset todo = all_timers t True"
      by (simp add: all_timers_def program_bodies_def ac_simps)
    then show ?thesis ..
  next
    case False
    with assms(4) b have "?Q + image_mset dt_f H + mset (map snd rs) + mset todo = all_timers t b"
      by (simp add: program_bodies_def)
    then show ?thesis ..
  qed
  with assms(1,2) True show ?thesis by (simp add: timers_inv_def held_tasks_def H ac_simps)
qed (simp add: timers_inv_def)

lemma timers_run_step:
  assumes "run_step (program_bodies t) s s'" "timers_inv t todo s" shows "timers_inv t todo s'"
  using assms
proof (induction rule: run_step.induct)
  case (due s task rs)
  then show ?case by (intro timers_due) (auto simp: earliest_def)
next
  case (task_request s r rs)
  then show ?case by (intro timers_request)
qed (auto simp: timers_add_task, auto simp: timers_inv_def held_tasks_def returned_def Scheduler_shutdown_now_def)

lemma timers_start:
  assumes "timers_inv t (f # todo) s"
  shows "timers_inv t todo (case Scheduler_timeout d f s of Some s' \<Rightarrow> s' | None \<Rightarrow> s\<lparr>sc_refused := r\<rparr>)"
proof (cases "sc_state s = Running")
  case True
  with timers_queue[OF assms] have "\<not> CHANNEL_BOUND \<le> length (sc_queue s)" by (simp add: CHANNEL_BOUND_def)
  with assms True show ?thesis
    by (auto simp: timers_inv_def held_tasks_def Scheduler_timeout_def Let_def ac_simps)
next
  case False
  then show ?thesis by (simp add: timers_inv_def Scheduler_timeout_def)
qed

lemma starting_inv: "starting t todo s \<Longrightarrow> timers_inv t todo s"
proof (induction rule: starting.induct)
  case (starting_init now)
  have "held_tasks (Scheduler_new now) + mset (startup_timeouts t) = all_timers t False"
    by (simp add: held_tasks_def Scheduler_new_def all_timers_def)
  then show ?case by (auto simp: timers_inv_def Scheduler_new_def)
next
  case (starting_loop todo s s')
  then show ?case using timers_run_step by blast
next
  case (starting_timeout f todo s d)
  then show ?case using timers_start by blast
qed (auto simp: timers_inv_def held_tasks_def Scheduler_shutdown_now_def)

lemma start_worker_ok:
  "start_worker S name s = (Inr u, s') \<longleftrightarrow> os_start S name = Inr () \<and> StopManager_add_listener name s = Inr s'"
  by (cases "os_start S name") (auto simp: start_worker_def split: sum.split)

lemma thenS_ok: "thenS m n s = (Inr x, s'') \<longleftrightarrow> (\<exists>u s'. m s = (Inr u, s') \<and> n s' = (Inr x, s''))"
  by (auto simp: thenS_eq split: prod.splits sum.splits)

lemma bindS_ok: "bindS m f s = (Inr x, s'') \<longleftrightarrow> (\<exists>u s'. m s = (Inr u, s') \<and> f u s' = (Inr x, s''))"
  by (auto simp: bindS_def split: prod.splits sum.splits)

text \<open>The threads of a configuration, in the order in which they start.\<close>

definition program_threads :: "Config \<Rightarrow> string list" where
  "program_threads c = (if co_port_mapping_list c = [] then [] else [''portMapping'']) @ [''Scheduler''] @
     (if uses_proxy c then [''ipProxy''] else []) @ [''main_udp'', ''sub_udp_listen'', ''tcpChannel'', ''wsChannel'']"

lemma init_context_ok:
  assumes "init_context S ports c meter = Inr (ctx, udp_ports, tcp_port)"
  shows "\<exists>m n. ChannelContext_new m n (ca_use_channel_type c) (ca_first_latency c) (co_protocol c)
    (map_option (os_scaled S) (ca_packet_loss_rate c)) (ca_packet_delay c) meter meter = Inr ctx"
  using assms by (auto simp: init_context_def bindE_Inr_iff split: if_splits)

text \<open>A command that starts the threads \<open>xs\<close>, in order, and stops none: when it fails, the ones before the failure run.\<close>

definition thread_names :: "stopper \<Rightarrow> string set" where
  "thread_names s = fst ` set (sp_listeners s)"

definition starts :: "string list \<Rightarrow> (stopper, 'a) cmd \<Rightarrow> bool" where
  "starts xs m \<longleftrightarrow> (\<forall>s r s'. m s = (r, s') \<longrightarrow> sp_closed s' = sp_closed s \<and> (\<exists>ys zs. xs = ys @ zs \<and>
     sp_owned s' = rev ys @ sp_owned s \<and> sp_workers s' = length ys + sp_workers s \<and>
     thread_names s' = set ys \<union> thread_names s \<and> (\<forall>x. r = Inr x \<longrightarrow> zs = [])))"

lemma startsD: "starts xs m \<Longrightarrow> m s = (r, s') \<Longrightarrow> sp_closed s' = sp_closed s \<and> (\<exists>ys zs. xs = ys @ zs \<and>
     sp_owned s' = rev ys @ sp_owned s \<and> sp_workers s' = length ys + sp_workers s \<and>
     thread_names s' = set ys \<union> thread_names s \<and> (\<forall>x. r = Inr x \<longrightarrow> zs = []))"
  by (simp add: starts_def)

lemma starts_none: "starts [] (liftE r)" "starts [] (retS x)"
  by (simp_all add: starts_def liftE_def retS_def)

lemma start_worker_eq: "start_worker S name s = (case os_start S name of Inl e \<Rightarrow> (Inl e, s)
   | Inr _ \<Rightarrow> (case StopManager_add_listener name s of Inl e \<Rightarrow> (Inl e, s) | Inr s' \<Rightarrow> (Inr (), s')))"
  by (cases "os_start S name"; cases "StopManager_add_listener name s")
    (simp_all add: start_worker_def bindS_def liftE_def getS_def failS_def modS_def)

lemma starts_worker: "starts [name] (start_worker S name)"
  unfolding starts_def
proof (intro allI impI)
  fix s r s'
  assume "start_worker S name s = (r, s')"
  then consider e where "r = Inl e" "s' = s" | "r = Inr ()" "StopManager_add_listener name s = Inr s'"
    by (cases "os_start S name"; cases "StopManager_add_listener name s") (simp_all add: start_worker_eq eq_commute)
  then show "sp_closed s' = sp_closed s \<and> (\<exists>ys zs. [name] = ys @ zs \<and> sp_owned s' = rev ys @ sp_owned s \<and>
      sp_workers s' = length ys + sp_workers s \<and> thread_names s' = set ys \<union> thread_names s \<and> (\<forall>x. r = Inr x \<longrightarrow> zs = []))"
  proof cases
    case 2
    then show ?thesis by (intro conjI exI[of _ "[name]"] exI[of _ "[]"]) (simp_all add: add_listener_fields thread_names_def)
  qed (simp add: exI[of _ "[]"])
qed

lemma starts_bind: "starts xs m \<Longrightarrow> (\<And>x. starts ys (f x)) \<Longrightarrow> starts (xs @ ys) (bindS m f)"
  unfolding starts_def[of "xs @ ys"] bindS_def
proof (intro allI impI)
  fix s r s'
  assume m: "starts xs m" and f: "\<And>x. starts ys (f x)"
    and run: "(case m s of (Inl e, s') \<Rightarrow> (Inl e, s') | (Inr x, s') \<Rightarrow> f x s') = (r, s')"
  obtain r1 s1 where s1: "m s = (r1, s1)" by fastforce
  obtain as bs where 1: "xs = as @ bs" "sp_closed s1 = sp_closed s" "sp_owned s1 = rev as @ sp_owned s"
    "sp_workers s1 = length as + sp_workers s" "thread_names s1 = set as \<union> thread_names s" "\<forall>x. r1 = Inr x \<longrightarrow> bs = []" using startsD[OF m s1] by blast
  show "sp_closed s' = sp_closed s \<and> (\<exists>ys' zs. xs @ ys = ys' @ zs \<and> sp_owned s' = rev ys' @ sp_owned s \<and>
     sp_workers s' = length ys' + sp_workers s \<and> thread_names s' = set ys' \<union> thread_names s \<and> (\<forall>x. r = Inr x \<longrightarrow> zs = []))"
  proof (cases r1)
    case (Inl e)
    with run s1 1 show ?thesis by (intro conjI exI[of _ as] exI[of _ "bs @ ys"]) auto
  next
    case (Inr x)
    with run s1 have "f x s1 = (r, s')" by simp
    from startsD[OF f this] obtain cs ds where "sp_closed s' = sp_closed s1" "ys = cs @ ds"
      "sp_owned s' = rev cs @ sp_owned s1" "sp_workers s' = length cs + sp_workers s1"
      "thread_names s' = set cs \<union> thread_names s1" "\<forall>x. r = Inr x \<longrightarrow> ds = []" by blast
    with 1 Inr show ?thesis by (intro conjI exI[of _ "as @ cs"] exI[of _ ds]) auto
  qed
qed

lemma starts_then: "starts xs m \<Longrightarrow> starts ys n \<Longrightarrow> starts (xs @ ys) (thenS m n)"
  unfolding thenS_def by (rule starts_bind)

lemma starts_lift: "(\<And>x. starts ys (f x)) \<Longrightarrow> starts ys (bindS (liftE r) f)"
  by (rule starts_bind[OF starts_none(1), simplified])

lemma starts_lift2: "(\<And>a b. starts ys (f a b)) \<Longrightarrow> starts ys (bindS (liftE r) (\<lambda>(a, b). f a b))"
  by (rule starts_lift) (simp add: split_beta)

lemma starts_lift3: "(\<And>a b d. starts ys (f a b d)) \<Longrightarrow> starts ys (bindS (liftE r) (\<lambda>(a, b, d). f a b d))"
  by (rule starts_lift) (simp add: split_beta)

lemma starts_port_mapping: "starts (if list = [] then [] else [''portMapping'']) (start_port_mapping S list)"
  by (simp add: start_port_mapping_def starts_none starts_worker)

lemma starts_channel: "starts [''main_udp'', ''sub_udp_listen'', ''tcpChannel'', ''wsChannel''] (init_channel S)"
  unfolding init_channel_def
  using starts_then[OF starts_worker starts_then[OF starts_worker starts_then[OF starts_worker starts_worker]]] by simp

lemma starts_proxy: "starts (if b then [''ipProxy''] else []) (if b then start_worker S ''ipProxy'' else retS ())"
  by (simp add: starts_none starts_worker)

lemma new_device_starts: "starts (program_threads c) (new_device L S C px c)"
proof -
  have after: "starts ([''Scheduler''] @ (if uses_proxy c then [''ipProxy''] else []) @
      [''main_udp'', ''sub_udp_listen'', ''tcpChannel'', ''wsChannel''])
    (thenS (start_worker S ''Scheduler'') (thenS (if uses_proxy c then start_worker S ''ipProxy'' else retS ())
      (thenS (init_channel S) (retS x))))" for x :: "conf \<times> world"
    by (intro starts_then starts_worker starts_proxy starts_then[OF starts_channel starts_none(2), unfolded append_Nil2])
  show ?thesis
    unfolding new_device_def program_threads_def Let_def
    by (rule starts_lift3 starts_lift2 starts_lift after starts_then starts_port_mapping)+
qed

lemma new_device_ok:
  assumes "new_device L S C px c StopManager_new = (Inr (C', w), s')"
  shows "\<exists>key k2 ctx u t hash.
    (if ca_server_encrypt c then Cipher_new_key L (os_key S) (bytes_of (ca_token c)) else Inr (Cipher_None, None)) =
      Inr (cf_server_cipher C', key) \<and> cf_server_key C' = key \<and>
    Cipher_new_password L (ca_cipher_model c) (map_option bytes_of (ca_password c))
      (if ca_finger c then Some (bytes_of (ca_token c)) else None) = Inr (cf_client_cipher C', k2) \<and>
    init_context S (channel_ports c) c (traffic_meter c) = Inr (ctx, u, t) \<and>
    cf_ip_route C' = ExternalRoute_new (ca_in_ips c) \<and> cf_base C' = base_config c hash \<and>
    w = world_new ctx (co_server_address c)
      (NatTest_new (os_now S) (ca_stun_server c) (case ca_local_ipv4 c of Some ip \<Rightarrow> Some ip | None \<Rightarrow> os_local_ipv4 S)
        (os_local_ipv6 S) u t (ca_local_ipv4 c = None)) px (os_now S) (os_now S)"
  using assms by (auto simp: new_device_def Let_def bindS_ok thenS_ok liftE_def retS_def)


text \<open>When nothing is refused, the start succeeds.\<close>

definition goes :: "string list \<Rightarrow> (stopper, 'a) cmd \<Rightarrow> bool" where
  "goes xs m \<longleftrightarrow> starts xs m \<and> (\<forall>s. \<not> sp_closed s \<and> distinct ([] # xs) \<and> set xs \<inter> thread_names s = {} \<longrightarrow>
     (\<exists>x s'. m s = (Inr x, s')))"

lemma goes_worker: "os_start S name = Inr () \<Longrightarrow> goes [name] (start_worker S name)"
  by (auto simp: goes_def starts_worker start_worker_eq StopManager_add_listener_def thread_names_def)

lemma goes_ret: "goes [] (retS x)"
  by (simp add: goes_def retS_def starts_none(2)[unfolded retS_def[abs_def]] starts_none)

lemma goes_then:
  assumes "goes xs m" "goes ys n"
  shows "goes (xs @ ys) (thenS m n)"
  unfolding goes_def
proof (intro conjI allI impI)
  show "starts (xs @ ys) (thenS m n)" using assms by (simp add: goes_def starts_then)
  fix s
  assume s: "\<not> sp_closed s \<and> distinct ([] # xs @ ys) \<and> set (xs @ ys) \<inter> thread_names s = {}"
  with assms(1) obtain x s1 where m: "m s = (Inr x, s1)" by (fastforce simp: goes_def)
  with assms(1) s have "\<not> sp_closed s1 \<and> distinct ([] # ys) \<and> set ys \<inter> thread_names s1 = {}"
    by (fastforce simp: goes_def dest: startsD)
  with assms(2) m show "\<exists>x s'. thenS m n s = (Inr x, s')" by (simp add: goes_def thenS_eq)
qed

lemma goes_channel: "\<forall>name. os_start S name = Inr () \<Longrightarrow>
    goes [''main_udp'', ''sub_udp_listen'', ''tcpChannel'', ''wsChannel''] (init_channel S)"
  unfolding init_channel_def
  using goes_then[OF goes_worker goes_then[OF goes_worker goes_then[OF goes_worker goes_worker]]] by simp

lemma bind_lift: "bindS (liftE (Inr x)) f = f x"
  by (simp add: bindS_def liftE_def fun_eq_iff)

lemma new_device_goes:
  assumes "\<forall>name. os_start S name = Inr ()" "\<forall>ip. os_best_interface S ip = Inr ()"
    and "(if ca_server_encrypt c then Cipher_new_key L (os_key S) (bytes_of (ca_token c)) else Inr (Cipher_None, None)) = Inr k1"
    and "Cipher_new_password L (ca_cipher_model c) (map_option bytes_of (ca_password c))
      (if ca_finger c then Some (bytes_of (ca_token c)) else None) = Inr k2"
    and "Config_password_hash (cl_sha L) c = Inr h"
    and "init_context S (channel_ports c) c (traffic_meter c) = Inr x"
  shows "\<exists>r s'. new_device L S C px c StopManager_new = (Inr r, s')"
proof -
  have "goes (if maps = [] then [] else [''portMapping'']) (start_port_mapping S maps)"
    "goes (if uses_proxy c then [''ipProxy''] else []) (if uses_proxy c then start_worker S ''ipProxy'' else retS ())" for maps
    using assms(1) by (simp_all add: start_port_mapping_def goes_ret goes_worker)
  note goes = this goes_worker[OF assms(1)[rule_format]] goes_then[OF goes_channel[OF assms(1)] goes_ret, unfolded append_Nil2]
  have "goes (program_threads c) (new_device L S C px c)"
    unfolding program_threads_def new_device_def Let_def assms(3-6) assms(2)[rule_format] if_cancel bind_lift split_beta
    by (intro goes_then goes)
  moreover have "distinct ([] # program_threads c)" by (simp add: program_threads_def)
  ultimately show ?thesis by (simp add: goes_def StopManager_new_def thread_names_def)
qed

section \<open>Properties\<close>

lemma password_lawful:
  assumes "crypto_laws L" "Cipher_new_password L model password token = Inr (c, key)"
  shows "cipher_laws c"
proof (cases password)
  case (Some pw)
  with new_password_ok[OF assms(1), where model = model and pw = pw and token = token] assms(2) show ?thesis by simp
qed (use assms(2) in \<open>simp add: Cipher_new_password_def cipher_laws_def\<close>)

text \<open>
  C3. What a successful start yields: both ciphers are lawful ones (so that what one peer encrypts another restores), a key for
  the server exists exactly when encryption to the server is configured, the routes into other networks are those of the
  configuration, every state the program reaches from there satisfies the invariant of the program, and exactly the
  threads of the configuration run, all registered at the stop manager, which has not been closed.
\<close>

theorem startup_sound:
  assumes "crypto_laws L" and "length (os_key S) = 32"
    and "new_device L S C px c StopManager_new = (Inr (C', w), s')"
  shows "cipher_laws (cf_client_cipher C') \<and> cipher_laws (cf_server_cipher C') \<and>
    (cf_server_key C' = None \<longleftrightarrow> \<not> ca_server_encrypt c) \<and>
    cf_ip_route C' = ExternalRoute_new (ca_in_ips c) \<and>
    sp_owned s' = rev (program_threads c) \<and> sp_workers s' = length (program_threads c) \<and> \<not> sp_closed s' \<and>
    (\<forall>w'. reaches C' w w' \<longrightarrow> world_inv w')"
proof -
  obtain key k2 ctx u t hash where
    k: "(if ca_server_encrypt c then Cipher_new_key L (os_key S) (bytes_of (ca_token c)) else Inr (Cipher_None, None)) =
      Inr (cf_server_cipher C', key)" "cf_server_key C' = key"
    and p: "Cipher_new_password L (ca_cipher_model c) (map_option bytes_of (ca_password c))
      (if ca_finger c then Some (bytes_of (ca_token c)) else None) = Inr (cf_client_cipher C', k2)"
    and i: "init_context S (channel_ports c) c (traffic_meter c) = Inr (ctx, u, t)"
    and r: "cf_ip_route C' = ExternalRoute_new (ca_in_ips c)"
    and w: "w = world_new ctx (co_server_address c)
      (NatTest_new (os_now S) (ca_stun_server c) (case ca_local_ipv4 c of Some ip \<Rightarrow> Some ip | None \<Rightarrow> os_local_ipv4 S)
        (os_local_ipv6 S) u t (ca_local_ipv4 c = None)) px (os_now S) (os_now S)"
    using new_device_ok[OF assms(3)] by blast
  from new_password_ok[OF assms(1), where model = Model_None and pw = "[]" and token = None and ?k32.0 = "os_key S" and tok = "bytes_of (ca_token c)"] assms(2)
  obtain sc where sc: "Cipher_new_key L (os_key S) (bytes_of (ca_token c)) = Inr (sc, Some (os_key S))" "cipher_laws sc"
    by blast
  with k have server: "cipher_laws (cf_server_cipher C') \<and> (cf_server_key C' = None \<longleftrightarrow> \<not> ca_server_encrypt c)"
    by (auto simp: cipher_laws_def split: if_splits)
  have meter: "traffic_meter c = None \<or> traffic_meter c = Some TrafficMeterMultiAddress_default"
    by (simp add: traffic_meter_def)
  have "world_inv w" using init_context_ok[OF i] world_new_inv[OF _ meter meter] w by blast
  then have "\<forall>w'. reaches C' w w' \<longrightarrow> world_inv w'" using world_frame.reaches_keeps by blast
  with server r password_lawful[OF assms(1) p] startsD[OF new_device_starts assms(3)] show ?thesis
    by (auto simp: StopManager_new_def)
qed

definition sample_os :: os_env where
  "sample_os = \<lparr>os_has_ipv6 = True, os_bind_v4 = (\<lambda>n p. Inr (if p = 0 then 40000 else p)), os_bind_v6 = (\<lambda>_. Inr ()),
     os_bind_tcp = (\<lambda>p. Inr p), os_best_interface = (\<lambda>_. Inr ()), os_start = (\<lambda>_. Inr ()), os_local_ipv4 = None,
     os_local_ipv6 = None, os_scaled = (\<lambda>_. 0), os_key = replicate 32 5, os_now = 0\<rparr>"

definition sample_config :: Config where
  "sample_config = config_args.extend sample_args (Config.fields (SockV4 1 2) Conn_UDP [(True, SockV4 0 80, ''a:80'')])"

lemma sample_os_tcp: "os_bind_tcp sample_os p = Inr p" "os_start sample_os name = Inr ()" "os_best_interface sample_os ip = Inr ()"
  by (simp_all add: sample_os_def)

lemma sample_binds: "bind_all sample_os [0, 0] = Inr [40000, 40000]"
  by (simp add: bind_udp_v4_and_v6.simps sample_os_def mapE_def)

lemma sample_start: "\<exists>r s'. new_device plain_crypto sample_os C px sample_config StopManager_new = (Inr r, s')"
proof -
  have f: "ca_server_encrypt sample_config" "ca_cipher_model sample_config = Model_AesGcm" "channel_ports sample_config = [0, 0]"
    "traffic_meter sample_config = None" "ca_password sample_config = Some ''pw''"
    by (simp_all add: sample_config_def sample_args_def config_args.defs Config.defs channel_ports_def UseChannelType_is_only_relay_def
        traffic_meter_def)
  have "\<exists>k. Cipher_new_key plain_crypto (os_key sample_os) tok = Inr k" for tok
    by (simp add: Cipher_new_key_def sample_os_def)
  moreover have "\<exists>k. Cipher_new_password plain_crypto Model_AesGcm (Some pw) tok = Inr k" for pw tok
    by (simp add: Cipher_new_password_def Let_def)
  moreover have "\<exists>x. init_context sample_os [0, 0] sample_config None = Inr x"
    unfolding init_context_def sample_binds
    by (simp add: ChannelContext_new_def bind_listener_def sample_os_tcp)
  moreover have "\<exists>h. Config_password_hash (cl_sha plain_crypto) sample_config = Inr h"
    by (simp add: Config_password_hash_def f)
  ultimately obtain k1 k2 x h where "Cipher_new_key plain_crypto (os_key sample_os) (bytes_of (ca_token sample_config)) = Inr k1"
    "Cipher_new_password plain_crypto Model_AesGcm (Some (bytes_of ''pw''))
      (if ca_finger sample_config then Some (bytes_of (ca_token sample_config)) else None) = Inr k2"
    "init_context sample_os [0, 0] sample_config None = Inr x" "Config_password_hash (cl_sha plain_crypto) sample_config = Inr h"
    by blast
  then show ?thesis by (intro new_device_goes[of sample_os _ _ k1 k2 h x]) (simp_all add: f sample_os_tcp)
qed

lemma startup_sound_witness:
  "\<exists>C' w s'. new_device plain_crypto sample_os sample_conf (w_ip_proxy sample_world) sample_config StopManager_new =
     (Inr (C', w), s') \<and> cf_server_key C' \<noteq> None \<and> length (sp_owned s') = 6 \<and> world_inv w"
proof -
  let ?run = "new_device plain_crypto sample_os sample_conf (w_ip_proxy sample_world) sample_config StopManager_new"
  obtain C' w s' where run: "?run = (Inr (C', w), s')" using sample_start by fast
  have "length (os_key sample_os) = 32" by (simp add: sample_os_def)
  from startup_sound[OF plain_crypto_laws this run] have "cf_server_key C' \<noteq> None \<and> length (sp_owned s') = 6 \<and> world_inv w"
    using reaches_refl[of C' w]
    by (auto simp: sample_config_def sample_args_def config_args.defs Config.defs program_threads_def uses_proxy_def)
  with run show ?thesis by blast
qed


text \<open>
  C9. The program keeps its timers. While the threads that start it set the first timers, and ever after, whatever the
  order of events, however late the timers run and however long: unless the scheduler is being stopped, no timer is ever
  refused, every task of the program is pending exactly once (queued, waiting for its time, or running and about to be set
  again), and the queue of requests never holds more than the eight of them.
\<close>

theorem program_timers_kept:
  assumes "starting t todo s" and "sc_state s = Running"
  shows "sc_refused s = [] \<and> (\<exists>b. held_tasks s + mset todo = all_timers t b) \<and> length (sc_queue s) \<le> 8"
  using starting_inv[OF assms(1)] timers_queue[OF starting_inv[OF assms(1)] assms(2)] assms(2) by (auto simp: timers_inv_def)

lemma program_timers_kept_witness:
  "\<exists>s. starting Use_All [task_nat_type, task_start] s \<and> held_tasks s = {#task_idle_gateway#} \<and> sc_refused s = []"
proof -
  have "starting Use_All [task_idle_gateway, task_nat_type, task_start] (Scheduler_new 0)"
    using starting_init[of Use_All 0] by (simp add: UseChannelType_is_only_relay_def)
  then obtain s where s: "starting Use_All [task_nat_type, task_start] s"
    "s = (case Scheduler_timeout 0 task_idle_gateway (Scheduler_new 0) of Some s' \<Rightarrow> s'
      | None \<Rightarrow> Scheduler_new 0\<lparr>sc_refused := (0, task_idle_gateway) # sc_refused (Scheduler_new 0)\<rparr>)"
    using starting_timeout by blast
  from s(2) have "sc_state s = Running" "held_tasks s = {#task_idle_gateway#}"
    by (simp_all add: Scheduler_timeout_def Scheduler_new_def CHANNEL_BOUND_def held_tasks_def Let_def)
  with program_timers_kept[OF s(1)] s(1) show ?thesis by blast
qed

text \<open>
  A failed start leaves threads behind: when port mappings are configured and then a socket cannot be bound (another
  program uses the port), the caller gets an error and no handle, while the thread of the port mappings
  stays registered at a stop manager that nobody will ever stop.
\<close>

theorem failed_startup_leaks:
  assumes "co_port_mapping_list c \<noteq> []" and "os_start S ''portMapping'' = Inr ()" and "ca_in_ips c = []"
    and "\<not> ca_server_encrypt c" and "ca_password c = None" and "bind_all S (channel_ports c) = Inl e"
  shows "\<exists>s'. new_device L S C px c StopManager_new = (Inl e, s') \<and> sp_owned s' = [''portMapping''] \<and> \<not> sp_closed s' \<and>
    sp_workers s' = 1"
proof -
  have "Config_password_hash (cl_sha L) c = Inr None" using assms(5) by (simp add: Config_password_hash_def)
  moreover have "init_context S (channel_ports c) c (traffic_meter c) = Inl e"
    using assms(6) by (simp add: init_context_def channel_ports_nonempty)
  ultimately have "new_device L S C px c StopManager_new =
    (Inl e, snd (start_worker S ''portMapping'' StopManager_new))" using assms(1-5)
    by (simp add: new_device_def Let_def bind_lift Cipher_new_password_def start_port_mapping_def thenS_eq start_worker_eq
        StopManager_add_listener_def StopManager_new_def bindS_def liftE_def)
  then show ?thesis using assms(2) by (simp add: start_worker_eq StopManager_add_listener_def StopManager_new_def)
qed

lemma failed_startup_leaks_witness:
  "\<exists>s'. new_device plain_crypto (sample_os\<lparr>os_bind_v4 := (\<lambda>_ _. Inl (Anyhow ''in use''))\<rparr>) sample_conf (w_ip_proxy sample_world)
     (sample_config\<lparr>ca_in_ips := [], ca_server_encrypt := False, ca_password := None\<rparr>) StopManager_new = (Inl (Anyhow ''in use''), s') \<and>
     sp_owned s' = [''portMapping'']"
proof -
  let ?S = "sample_os\<lparr>os_bind_v4 := (\<lambda>_ _. Inl (Anyhow ''in use''))\<rparr>"
  let ?c = "sample_config\<lparr>ca_in_ips := [], ca_server_encrypt := False, ca_password := None\<rparr>"
  have "bind_all ?S (channel_ports ?c) = Inl (Anyhow ''in use'')"
    by (cases "channel_ports ?c") (simp_all add: channel_ports_nonempty bind_udp_v4_and_v6.simps sample_os_def)
  moreover have "co_port_mapping_list ?c \<noteq> []" "os_start ?S ''portMapping'' = Inr ()"
    by (simp_all add: sample_os_tcp sample_config_def config_args.defs Config.defs)
  ultimately show ?thesis using failed_startup_leaks[of ?c ?S] by fastforce
qed

end
