(* ===== verification/Stream_Channels.thy ===== *)
theory Stream_Channels
  imports Channel
begin

text \<open>
  The channels over byte streams: the framing of packets on TCP (\<^verbatim>\<open>vnt/src/channel/tcp_channel.rs\<close>), the
  table of senders that the TCP and WebSocket connections share (\<^verbatim>\<open>packet_map\<close> of the channel context, with
  \<^verbatim>\<open>PacketSender\<close> of \<^verbatim>\<open>vnt/src/channel/sender.rs\<close>), and connecting over WebSocket
  (\<^verbatim>\<open>vnt/src/channel/ws_channel.rs\<close>). Tasks of the async runtime run concurrently: they are the steps
  of a relation. The sockets themselves are library code.
\<close>

section \<open>Framing\<close>

definition BUFFER_SIZE :: nat where "BUFFER_SIZE = 1024 * 64"

definition TCP_MAX_PACKET_SIZE :: nat where "TCP_MAX_PACKET_SIZE = 2 ^ 24 - 1"

text \<open>What one call puts on the stream.\<close>

definition tcp_write :: "u8 list \<Rightarrow> u8 list res" where
  "tcp_write buf = (let len = length buf in
     if len > TCP_MAX_PACKET_SIZE then Inl (Anyhow ''too long for tcp'')
     else Inr ([0, of_nat (len div 2 ^ 16), of_nat (len div 2 ^ 8), of_nat len] @ buf))"

text \<open>\<open>read_exact\<close> on the bytes that arrive before the stream ends.\<close>

definition read_exact :: "nat \<Rightarrow> u8 list \<Rightarrow> (u8 list \<times> u8 list) option" where
  "read_exact n s = (if length s < n then None else Some (take n s, drop n s))"

datatype tcp_end = Stream_end | Bad_stream | Bad_length

definition head_len :: "u8 list \<Rightarrow> nat" where
  "head_len head = unat (head ! 1) * 2 ^ 16 + unat (head ! 2) * 2 ^ 8 + unat (head ! 3)"

text \<open>The packets handed to the handler, and why the loop ended.\<close>

function tcp_read :: "u8 list \<Rightarrow> u8 list list \<times> tcp_end" where
  "tcp_read s = (case read_exact 4 s of
     None \<Rightarrow> ([], Stream_end)
   | Some (head, s1) \<Rightarrow>
       if head ! 0 \<noteq> 0 then ([], Bad_stream)
       else if head_len head < 12 \<or> head_len head > BUFFER_SIZE then ([], Bad_length)
       else (case read_exact (head_len head) s1 of
          None \<Rightarrow> ([], Stream_end)
        | Some (buf, s2) \<Rightarrow> (case tcp_read s2 of (ps, e) \<Rightarrow> (buf # ps, e))))"
  by auto
termination by (relation "measure length") (auto simp: read_exact_def split: if_splits)

declare tcp_read.simps [simp del]

text \<open>A sender's stream: the packets that could be written, one after the other.\<close>

fun tcp_stream :: "u8 list list \<Rightarrow> u8 list res" where
  "tcp_stream [] = Inr []"
| "tcp_stream (p # ps) = bindE (tcp_write p) (\<lambda>b. mapE (\<lambda>bs. b @ bs) (tcp_stream ps))"

lemma head_len_write: "n < 2 ^ 24 \<Longrightarrow> head_len [0, of_nat (n div 2 ^ 16), of_nat (n div 2 ^ 8), of_nat n] = n"
proof -
  assume n: "n < 2 ^ 24"
  have lt: "n div 2 ^ 16 < 2 ^ 8" using n by (simp add: less_mult_imp_div_less)
  then have "n div 2 ^ 16 mod 256 = n div 2 ^ 16" by simp
  moreover have "n div 2 ^ 16 = n div 256 div 256" by (simp add: div_mult2_eq[symmetric])
  ultimately have "n div 2 ^ 16 * 2 ^ 16 + n div 2 ^ 8 mod 256 * 2 ^ 8 + n mod 256 = n"
    using div_mult_mod_eq[of "n div 256" 256] div_mult_mod_eq[of n 256] by (simp, linarith)
  with lt show ?thesis by (simp add: head_len_def unat_of_nat)
qed

definition fits_tcp :: "u8 list \<Rightarrow> bool" where
  "fits_tcp p \<longleftrightarrow> 12 \<le> length p \<and> length p \<le> BUFFER_SIZE"

lemma tcp_write_fits:
  "fits_tcp p \<Longrightarrow> \<exists>head. tcp_write p = Inr (head @ p) \<and> length head = 4 \<and> head ! 0 = 0 \<and> head_len head = length p"
  using head_len_write[of "length p"]
  by (auto simp: tcp_write_def fits_tcp_def Let_def TCP_MAX_PACKET_SIZE_def BUFFER_SIZE_def)

lemma tcp_read_frame:
  assumes "fits_tcp p" "tcp_write p = Inr b"
  shows "tcp_read (b @ rest) = (p # fst (tcp_read rest), snd (tcp_read rest))"
proof -
  obtain head where "b = head @ p" "length head = 4" "head ! 0 = 0" "head_len head = length p"
    using tcp_write_fits[OF assms(1)] assms(2) by auto
  with assms(1) show ?thesis
    by (subst tcp_read.simps) (simp add: read_exact_def fits_tcp_def split: prod.split)
qed

lemma tcp_read_stream:
  "\<forall>p\<in>set ps. fits_tcp p \<Longrightarrow>
   \<exists>s. tcp_stream ps = Inr s \<and> (\<forall>rest. tcp_read (s @ rest) = (ps @ fst (tcp_read rest), snd (tcp_read rest)))"
proof (induction ps)
  case (Cons p ps)
  then obtain s where s: "tcp_stream ps = Inr s"
      "\<And>rest. tcp_read (s @ rest) = (ps @ fst (tcp_read rest), snd (tcp_read rest))" by auto
  obtain b where b: "tcp_write p = Inr b" using tcp_write_fits[of p] Cons.prems by auto
  have "tcp_read ((b @ s) @ rest) = (p # ps @ fst (tcp_read rest), snd (tcp_read rest))" for rest
    using tcp_read_frame[OF _ b, of "s @ rest"] Cons.prems s(2) by simp
  then show ?case using s(1) b by (intro exI[of _ "b @ s"]) simp
qed simp

lemma tcp_read_delivers: "p \<in> set (fst (tcp_read s)) \<Longrightarrow> fits_tcp p"
proof (induction s rule: tcp_read.induct)
  case (1 s)
  have IH: "p \<in> set (fst (tcp_read s2)) \<Longrightarrow> fits_tcp p"
    if "read_exact 4 s = Some (head, s1)" "head ! 0 = 0" "\<not> (head_len head < 12 \<or> head_len head > BUFFER_SIZE)"
      "read_exact (head_len head) s1 = Some (buf, s2)" for head s1 buf s2
    using 1(1)[OF that(1) refl _ that(3,4) refl] that(2) by simp
  from 1(2) show ?case
    by (subst (asm) tcp_read.simps)
      (auto split: option.splits if_splits prod.splits dest: IH simp: fits_tcp_def, auto simp: read_exact_def fits_tcp_def split: if_splits)
qed

lemma read_exact_append: "read_exact n s = Some (a, b) \<Longrightarrow> read_exact n (s @ t) = Some (a, b @ t)"
  by (auto simp: read_exact_def split: if_splits)

lemma tcp_read_prefix: "\<exists>more. fst (tcp_read (s @ t)) = fst (tcp_read s) @ more"
proof (induction s rule: tcp_read.induct)
  case (1 s)
  show ?case
  proof (cases "read_exact 4 s")
    case None
    then show ?thesis by (simp add: tcp_read.simps[of s])
  next
    case (Some hs)
    then obtain head s1 where h: "read_exact 4 s = Some (head, s1)" by (cases hs) auto
    note h' = read_exact_append[OF h, of t]
    show ?thesis
    proof (cases "head ! 0 = 0 \<and> \<not> (head_len head < 12 \<or> head_len head > BUFFER_SIZE)")
      case False
      with h h' show ?thesis by (auto simp: tcp_read.simps[of s] tcp_read.simps[of "s @ t"])
    next
      case ok: True
      show ?thesis
      proof (cases "read_exact (head_len head) s1")
        case None
        with h ok show ?thesis by (simp add: tcp_read.simps[of s])
      next
        case (Some bs)
        then obtain buf s2 where b: "read_exact (head_len head) s1 = Some (buf, s2)" by (cases bs) auto
        from 1[OF h refl _ _ b refl] ok obtain mo where "fst (tcp_read (s2 @ t)) = fst (tcp_read s2) @ mo" by auto
        with h h' b read_exact_append[OF b, of t] ok show ?thesis
          by (auto simp: tcp_read.simps[of s] tcp_read.simps[of "s @ t"] split: prod.splits)
      qed
    qed
  qed
qed

section \<open>The table of senders\<close>

text \<open>
  Every connection has a bounded queue to its write task and a read task. The table, shared by all
  connections, maps an address to the sending end of such a queue: here to the number of the
  connection. Ghost state: the packets accepted and the packets written, with their connections.
\<close>

record links =
  lk_map :: "socket_addr \<Rightarrow> nat option"
  lk_next :: nat
  lk_addr :: "nat \<Rightarrow> socket_addr"
  lk_queue :: "nat \<Rightarrow> u8 list list"
  lk_reading :: "nat set"
  lk_writing :: "nat set"
  lk_accepted :: "(nat \<times> u8 list) list"
  lk_written :: "(nat \<times> u8 list) list"

definition no_links :: links where
  "no_links = \<lparr>lk_map = (\<lambda>_. None), lk_next = 0, lk_addr = (\<lambda>_. SockV4 0 0), lk_queue = (\<lambda>_. []), lk_reading = {},
     lk_writing = {}, lk_accepted = [], lk_written = []\<rparr>"

definition SENDER_BOUND :: nat where "SENDER_BOUND = 100"

text \<open>\<open>tcp_stream_handle\<close> and the second half of \<open>connect_ws\<close>: enter the new sender, start the two tasks.\<close>

definition stream_handle :: "socket_addr \<Rightarrow> links \<Rightarrow> links" where
  "stream_handle addr s = s\<lparr>lk_map := (lk_map s)(addr \<mapsto> lk_next s), lk_next := lk_next s + 1,
     lk_addr := (lk_addr s)(lk_next s := addr), lk_queue := (lk_queue s)(lk_next s := []),
     lk_reading := insert (lk_next s) (lk_reading s), lk_writing := insert (lk_next s) (lk_writing s)\<rparr>"

definition connect_tcp0 :: "unit res \<Rightarrow> u8 list \<Rightarrow> socket_addr \<Rightarrow> links \<Rightarrow> (u8 list \<times> links) res" where
  "connect_tcp0 connected data addr s =
     bindE connected (\<lambda>_. bindE (tcp_write data) (\<lambda>b. Inr (b, stream_handle addr s)))"

text \<open>\<open>PacketSender::try_send\<close> on the entry of the table; without an entry the caller reports \<open>NotFound\<close>.\<close>

definition link_send :: "u8 list \<Rightarrow> socket_addr \<Rightarrow> links \<Rightarrow> links res" where
  "link_send buf addr s = (case lk_map s addr of
     None \<Rightarrow> Inl (Io NotFound [])
   | Some c \<Rightarrow>
       if c \<notin> lk_writing s then Inl (Io ConnectionRefused ''channel closed'')
       else if length (lk_queue s c) \<ge> SENDER_BOUND then Inl (Io WouldBlock ''channel full'')
       else Inr (s\<lparr>lk_queue := (lk_queue s)(c := lk_queue s c @ [buf]), lk_accepted := lk_accepted s @ [(c, buf)]\<rparr>))"

text \<open>One round of the write task; it ends when the write fails.\<close>

definition write_one :: "nat \<Rightarrow> bool \<Rightarrow> links \<Rightarrow> links" where
  "write_one c ok s = (case lk_queue s c of
     [] \<Rightarrow> s
   | buf # q \<Rightarrow>
       if ok then s\<lparr>lk_queue := (lk_queue s)(c := q), lk_written := lk_written s @ [(c, buf)]\<rparr>
       else s\<lparr>lk_queue := (lk_queue s)(c := q), lk_writing := lk_writing s - {c}\<rparr>)"

definition read_ends :: "nat \<Rightarrow> links \<Rightarrow> links" where
  "read_ends c s = s\<lparr>lk_reading := lk_reading s - {c}, lk_map := (lk_map s)(lk_addr s c := None)\<rparr>"

text \<open>
  The steps of the tasks. The write task also ends, and shuts its half of the stream down, when its
  queue is empty and no sender is left.
\<close>

inductive link_step :: "links \<Rightarrow> links \<Rightarrow> bool" where
  opened: "link_step s (stream_handle addr s)"
| accepted: "link_send buf addr s = Inr s' \<Longrightarrow> link_step s s'"
| written: "c \<in> lk_writing s \<Longrightarrow> lk_queue s c = buf # q \<Longrightarrow> (ok \<longrightarrow> (\<exists>b. tcp_write buf = Inr b)) \<Longrightarrow> link_step s (write_one c ok s)"
| closed: "c \<in> lk_writing s \<Longrightarrow> lk_queue s c = [] \<Longrightarrow> c \<notin> ran (lk_map s) \<Longrightarrow>
    link_step s (s\<lparr>lk_writing := lk_writing s - {c}\<rparr>)"
| ended: "c \<in> lk_reading s \<Longrightarrow> link_step s (read_ends c s)"

inductive link_reachable :: "links \<Rightarrow> bool" where
  link_init: "link_reachable no_links"
| link_next: "link_reachable s \<Longrightarrow> link_step s s' \<Longrightarrow> link_reachable s'"

definition of_link :: "nat \<Rightarrow> (nat \<times> u8 list) list \<Rightarrow> u8 list list" where
  "of_link c xs = map snd (filter (\<lambda>x. fst x = c) xs)"

lemma of_link_simps [simp]:
  "of_link c [] = []" "of_link c (xs @ ys) = of_link c xs @ of_link c ys"
  "of_link c [(d, b)] = (if c = d then [b] else [])"
  by (simp_all add: of_link_def)

text \<open>
  An entry belongs to a connection to its address that is being read; the packets of a connection are written in
  the order in which they were accepted.
\<close>

definition entry_inv :: "links \<Rightarrow> bool" where
  "entry_inv s \<longleftrightarrow> (\<forall>a c. lk_map s a = Some c \<longrightarrow> lk_addr s c = a \<and> c \<in> lk_reading s) \<and>
     (\<forall>c. c \<ge> lk_next s \<longrightarrow> c \<notin> lk_reading s \<and> c \<notin> lk_writing s)"

definition order_at :: "nat \<Rightarrow> links \<Rightarrow> bool" where
  "order_at c s \<longleftrightarrow>
     (if c \<in> lk_writing s then of_link c (lk_accepted s) = of_link c (lk_written s) @ lk_queue s c \<and> length (lk_queue s c) \<le> SENDER_BOUND
      else (\<exists>lost. of_link c (lk_accepted s) = of_link c (lk_written s) @ lost)) \<and>
     (c \<ge> lk_next s \<longrightarrow> of_link c (lk_accepted s) = [] \<and> of_link c (lk_written s) = [])"

lemma entry_inv_step: "link_step s s' \<Longrightarrow> entry_inv s \<Longrightarrow> entry_inv s'"
proof (induction rule: link_step.induct)
  case (accepted buf addr s s')
  then show ?case by (auto simp: entry_inv_def link_send_def split: option.splits if_splits)
next
  case (written c s buf q ok)
  then show ?case by (auto simp: entry_inv_def write_one_def)
qed (auto simp: entry_inv_def stream_handle_def read_ends_def split: if_splits)

lemma order_at_step:
  assumes "link_step s s'" "entry_inv s" "order_at c s" shows "order_at c s'"
  using assms
proof (induction rule: link_step.induct)
  case (opened s addr)
  then show ?case by (auto simp: order_at_def stream_handle_def entry_inv_def)
next
  case (accepted buf addr s s')
  then show ?case
    by (auto simp: order_at_def link_send_def entry_inv_def not_less_eq_eq split: option.splits if_splits)
next
  case (written d s buf q ok)
  then show ?case by (auto simp: order_at_def write_one_def entry_inv_def)
next
  case (closed d s)
  then show ?case by (auto simp: order_at_def)
next
  case (ended d s)
  then show ?case by (simp add: order_at_def read_ends_def)
qed

lemma link_reachable_inv: "link_reachable s \<Longrightarrow> entry_inv s \<and> (\<forall>c. order_at c s)"
proof (induction rule: link_reachable.induct)
  case link_init
  show ?case by (simp add: entry_inv_def order_at_def no_links_def)
next
  case (link_next s s')
  with entry_inv_step order_at_step show ?case by blast
qed

section \<open>Connecting over WebSocket\<close>

text \<open>What an attempt to connect answers, the messages of a connection, and the loop that follows redirects.\<close>

datatype ws_answer = Ws_connected | Ws_http nat "string option" | Ws_failed err | Ws_timeout

datatype ws_message = Ws_text string | Ws_binary "u8 list" | Ws_ping | Ws_pong | Ws_close | Ws_frame

definition is_redirect :: "nat \<Rightarrow> bool" where
  "is_redirect status \<longleftrightarrow> status = 301 \<or> status = 302 \<or> status = 303 \<or> status = 307 \<or> status = 308"

text \<open>The addresses tried, and the one a connection was made to. Attempt \<open>n\<close> to \<open>url\<close> answers \<open>ask n url\<close>.\<close>

function ws_connect :: "(nat \<Rightarrow> string \<Rightarrow> ws_answer) \<Rightarrow> nat \<Rightarrow> string \<Rightarrow> string list \<times> string res" where
  "ws_connect ask n url =
     (let n = n + 1 in
      if n > 3 then ([], Inl (Anyhow ''too many redirects''))
      else (case ask n url of
          Ws_connected \<Rightarrow> ([url], Inr url)
        | Ws_http status location \<Rightarrow>
            (case location of
               Some redirect \<Rightarrow>
                 if is_redirect status then (case ws_connect ask n redirect of (urls, r) \<Rightarrow> (url # urls, r))
                 else ([url], Inl (Anyhow ''http''))
             | None \<Rightarrow> ([url], Inl (Anyhow ''http'')))
        | Ws_failed e \<Rightarrow> ([url], Inl e)
        | Ws_timeout \<Rightarrow> ([url], Inl (Anyhow ''timeout''))))"
  by auto
termination by (relation "measure (\<lambda>(_, n, _). 3 - n)") auto

declare ws_connect.simps [simp del]

definition WS_ADDR :: socket_addr where "WS_ADDR = SockV4 0 0"

fun ws_read_handle :: "(err + ws_message) list \<Rightarrow> u8 list list \<times> unit res" where
  "ws_read_handle [] = ([], Inr ())"
| "ws_read_handle (Inl e # ms) = ([], Inl e)"
| "ws_read_handle (Inr (Ws_binary data) # ms) = (case ws_read_handle ms of (ps, r) \<Rightarrow> (data # ps, r))"
| "ws_read_handle (Inr Ws_close # ms) = ([], Inr ())"
| "ws_read_handle (Inr m # ms) = ws_read_handle ms"

section \<open>Properties\<close>

text \<open>
  C10. Packets survive the stream. Of any packets a socket buffer can hold, 12 to 65536 bytes, whatever their
  number: the sender's stream is read back as exactly these packets, then the end; however much of the stream has arrived,
  what has been delivered is an initial part of them; and a packet of another length that
  \<open>tcp_write\<close> accepts ends the reader's loop after the packets before it.
\<close>

theorem tcp_packets_restored:
  assumes "\<forall>p\<in>set ps. fits_tcp p"
  shows "\<exists>s. tcp_stream ps = Inr s \<and> tcp_read s = (ps, Stream_end) \<and>
    (\<forall>n. \<exists>more. fst (tcp_read (take n s)) @ more = ps) \<and>
    (\<forall>q b rest. \<not> fits_tcp q \<and> tcp_write q = Inr b \<longrightarrow> tcp_read (s @ b @ rest) = (ps, Bad_length))"
proof -
  obtain s where s: "tcp_stream ps = Inr s"
    "\<And>rest. tcp_read (s @ rest) = (ps @ fst (tcp_read rest), snd (tcp_read rest))"
    using tcp_read_stream[OF assms] by blast
  have e: "tcp_read [] = ([], Stream_end)" by (simp add: tcp_read.simps read_exact_def)
  have "tcp_read (b @ rest) = ([], Bad_length)" if bad: "\<not> fits_tcp q" "tcp_write q = Inr b" for q b rest
  proof -
    have l: "length q \<le> TCP_MAX_PACKET_SIZE" using bad(2) by (auto simp: tcp_write_def Let_def split: if_splits)
    then obtain head where "b = head @ q" "length head = 4" "head ! 0 = 0" "head_len head = length q"
      using bad(2) head_len_write[of "length q"] by (auto simp: tcp_write_def Let_def TCP_MAX_PACKET_SIZE_def)
    with bad(1) show ?thesis by (subst tcp_read.simps) (auto simp: read_exact_def fits_tcp_def)
  qed
  moreover have "\<exists>more. fst (tcp_read (take n s)) @ more = ps" for n
    using tcp_read_prefix[of "take n s" "drop n s"] s(2)[of "[]"] e by auto
  ultimately show ?thesis using s(1) s(2)[of "[]"] s(2) e by auto
qed

definition twelve :: "u8 list" where
  "twelve = replicate 12 1"

lemma tcp_packets_restored_witness: "\<exists>s. tcp_stream [twelve, twelve] = Inr s \<and> tcp_read s = ([twelve, twelve], Stream_end)"
  using tcp_packets_restored[of "[twelve, twelve]"] by (auto simp: fits_tcp_def twelve_def BUFFER_SIZE_def)


definition one_link :: links where
  "one_link = stream_handle (SockV4 1 80) no_links"

lemma one_link_reachable: "link_reachable one_link"
  unfolding one_link_def by (rule link_next[OF link_init opened])



text \<open>
  Connecting over WebSocket ends: at most three addresses are tried, the first is the given one, each next one is where
  the one before redirected to, and a connection, when there is one, is to the last.
\<close>

theorem ws_connect_bounded:
  "let (urls, r) = ws_connect ask 0 url in
   length urls \<le> 3 \<and> hd urls = url \<and>
   (\<forall>i<length urls - 1. \<exists>status. is_redirect status \<and> ask (i + 1) (urls ! i) = Ws_http status (Some (urls ! (i + 1)))) \<and>
   (\<forall>u. r = Inr u \<longrightarrow> u = last urls \<and> ask (length urls) u = Ws_connected)"
proof -
  have less3: "i < Suc (Suc 0) \<longleftrightarrow> i = 0 \<or> i = 1" for i :: nat by auto
  show ?thesis
    apply (subst ws_connect.simps; subst ws_connect.simps; subst ws_connect.simps; subst ws_connect.simps)
    by (auto simp: Let_def less3 split: ws_answer.splits option.splits)
qed


lemma ws_connect_bounded_witness:
  "\<exists>urls. ws_connect (\<lambda>n u. if n = 2 then Ws_connected else Ws_http 302 (Some ''b'')) 0 ''a'' = (urls, Inr ''b'') \<and> last urls = ''b''"
proof -
  have "snd (ws_connect (\<lambda>n u. if n = 2 then Ws_connected else Ws_http 302 (Some ''b'')) 0 ''a'') = Inr ''b''"
    by (simp add: ws_connect.simps is_redirect_def)
  with ws_connect_bounded[of "\<lambda>n u. if n = 2 then Ws_connected else Ws_http 302 (Some ''b'')" "''a''"] show ?thesis
    by (cases "ws_connect (\<lambda>n u. if n = 2 then Ws_connected else Ws_http 302 (Some ''b'')) 0 ''a''") auto
qed

end
