(* ===== verification/Udp_Channel.thy ===== *)
theory Udp_Channel
  imports Channel
begin

text \<open>
  The UDP listeners, \<^verbatim>\<open>vnt/src/channel/udp_channel.rs\<close>, with the notification that hands the extra
  sockets over, \<^verbatim>\<open>AcceptNotify\<close> of \<^verbatim>\<open>vnt/src/channel/notify.rs\<close> and \<^verbatim>\<open>AcceptSocketSender\<close> of
  \<^verbatim>\<open>vnt/src/channel/sender.rs\<close>. One thread polls the main sockets; another polls the extra sockets that
  are opened behind a symmetric NAT. A socket is a number; the datagrams waiting at it are a list, and
  reading it until \<open>WouldBlock\<close> takes them all. The poller is library code: it reports the token a socket
  was registered with when datagrams wait there, and \<open>NOTIFY\<close> when it was woken.
\<close>

section \<open>Notification\<close>

definition AcceptNotify_is_stop :: "u64 \<Rightarrow> bool" where
  "AcceptNotify_is_stop state \<longleftrightarrow> state AND 1 = 1"

definition AcceptNotify_is_add_socket :: "u64 \<Rightarrow> u64 \<times> bool" where
  "AcceptNotify_is_add_socket state = (state AND NOT 4, state AND 4 = 4)"

definition AcceptNotify_stop :: "u64 \<Rightarrow> u64" where
  "AcceptNotify_stop state = 1"

definition AcceptNotify_add_socket :: "u64 \<Rightarrow> u64" where
  "AcceptNotify_add_socket state = state OR 4"

lemma notify_stop: "AcceptNotify_is_stop (AcceptNotify_stop st)"
  by (simp add: AcceptNotify_is_stop_def AcceptNotify_stop_def)

lemma notify_stop_stays: "AcceptNotify_is_stop (AcceptNotify_add_socket st) = AcceptNotify_is_stop st"
  by (simp add: AcceptNotify_is_stop_def AcceptNotify_add_socket_def bit.conj_disj_distrib2)

lemma notify_add: "snd (AcceptNotify_is_add_socket (AcceptNotify_add_socket st))"
proof -
  have "(st OR 4) AND 4 = 4" by (rule bit_word_eqI) (auto simp: bit_simps)
  then show ?thesis by (simp add: AcceptNotify_is_add_socket_def AcceptNotify_add_socket_def)
qed

lemma notify_taken: "\<not> snd (AcceptNotify_is_add_socket (fst (AcceptNotify_is_add_socket st)))"
proof -
  have "(st AND NOT 4) AND 4 = 0" by (rule bit_word_eqI) (auto simp: bit_simps)
  then show ?thesis by (simp add: AcceptNotify_is_add_socket_def)
qed

section \<open>The extra sockets\<close>

text \<open>
  The list of the loop, the channel it receives from (bounded, \<open>None\<close> clears the list) and the flags; what waits
  at each socket; and the packets handed to the handler, with their route keys.
\<close>

record sub_listen =
  sl_flags :: u64
  sl_accept :: "nat list option list"
  sl_list :: "nat list"
  sl_waiting :: "nat \<Rightarrow> (u8 list \<times> socket_addr) list"
  sl_handled :: "(u8 list \<times> RouteKey) list"

definition ACCEPT_BOUND :: nat where "ACCEPT_BOUND = 64"

text \<open>The token of the notification; the extra sockets are registered with their place in the list.\<close>

definition NOTIFY :: nat where "NOTIFY = 0"

definition sub_token :: "nat \<Rightarrow> nat" where "sub_token index = index"

definition try_add_socket :: "nat list option \<Rightarrow> sub_listen \<Rightarrow> sub_listen res" where
  "try_add_socket t s =
     (if length (sl_accept s) \<ge> ACCEPT_BOUND then Inl (Io WouldBlock [])
      else Inr (s\<lparr>sl_accept := sl_accept s @ [t], sl_flags := AcceptNotify_add_socket (sl_flags s)\<rparr>))"

definition take_accepted :: "nat list \<Rightarrow> nat list option \<Rightarrow> nat list" where
  "take_accepted sockets option = (case option of None \<Rightarrow> [] | Some socket_list \<Rightarrow> socket_list)"

definition recv_all :: "nat \<Rightarrow> nat \<Rightarrow> sub_listen \<Rightarrow> sub_listen" where
  "recv_all index socket s = s\<lparr>sl_waiting := (sl_waiting s)(socket := []),
     sl_handled := sl_handled s @ map (\<lambda>(buf, addr). (buf, \<lparr>rk_protocol = Conn_UDP, rk_index = index, rk_addr = addr\<rparr>)) (sl_waiting s socket)\<rparr>"

text \<open>One event of \<open>sub_udp_listen0\<close>; \<open>None\<close> when the thread ends.\<close>

definition sub_event :: "nat \<Rightarrow> nat \<Rightarrow> sub_listen \<Rightarrow> sub_listen option" where
  "sub_event main_len token s =
     (if token = NOTIFY then
        if AcceptNotify_is_stop (sl_flags s) then None
        else (case AcceptNotify_is_add_socket (sl_flags s) of (flags, add) \<Rightarrow>
          if add then Some (s\<lparr>sl_flags := flags, sl_list := foldl take_accepted (sl_list s) (sl_accept s), sl_accept := []\<rparr>)
          else Some (s\<lparr>sl_flags := flags\<rparr>))
      else if token < length (sl_list s) then Some (recv_all (token + main_len) (sl_list s ! token) s)
      else Some s)"

section \<open>The main sockets\<close>

text \<open>\<open>main_udp_listen0\<close> leaves the token of the notification free.\<close>

definition main_token :: "nat \<Rightarrow> nat" where "main_token index = index + 1"

definition main_event :: "nat list \<Rightarrow> nat \<Rightarrow> sub_listen \<Rightarrow> sub_listen option" where
  "main_event udps token s =
     (if token = NOTIFY then None
      else let index = token - 1 in
        if index < length udps then Some (recv_all index (udps ! index) s) else Some s)"

text \<open>Any sequence of events, in any order.\<close>

fun sub_events :: "nat \<Rightarrow> nat list \<Rightarrow> sub_listen \<Rightarrow> sub_listen option" where
  "sub_events main_len [] s = Some s"
| "sub_events main_len (t # ts) s = (case sub_event main_len t s of None \<Rightarrow> None | Some s' \<Rightarrow> sub_events main_len ts s')"

lemma sub_event_first:
  assumes "sub_event n t s = Some s'" "sl_list s = x # xs" "sl_accept s = []" "x \<notin> set xs"
  shows "sl_list s' = x # xs \<and> sl_accept s' = [] \<and> sl_waiting s' x = sl_waiting s x"
  using assms
  by (cases t) (auto simp: sub_event_def recv_all_def NOTIFY_def AcceptNotify_is_add_socket_def split: if_splits)

lemma sub_events_first:
  "sub_events n ts s = Some s' \<Longrightarrow> sl_list s = x # xs \<Longrightarrow> sl_accept s = [] \<Longrightarrow> x \<notin> set xs \<Longrightarrow>
   sl_waiting s' x = sl_waiting s x"
proof (induction ts arbitrary: s)
  case (Cons t ts)
  then obtain s1 where s1: "sub_event n t s = Some s1" "sub_events n ts s1 = Some s'"
    by (auto split: option.splits)
  from sub_event_first[OF s1(1) Cons.prems(2-4)] Cons.IH[OF s1(2)] Cons.prems(4) show ?case by auto
qed simp

section \<open>Properties\<close>

text \<open>
  C38. Every socket is heard but the first extra one. A main socket's event hands all waiting datagrams to the handler,
  with the index of the socket; so does the event of each extra socket from the second on, with an index
  behind those of the main sockets. The event of the first extra socket carries the token of the
  notification: whatever events follow, in any order, what waits at this socket is never read.
\<close>

theorem first_extra_socket_deaf:
  assumes "sl_list s = x # xs" and "distinct (x # xs)" and "sl_accept s = []"
  shows "(\<forall>i<length udps. \<exists>s'. main_event udps (main_token i) s = Some s' \<and> sl_waiting s' (udps ! i) = [] \<and>
      sl_handled s' = sl_handled s @ map (\<lambda>(b, a). (b, \<lparr>rk_protocol = Conn_UDP, rk_index = i, rk_addr = a\<rparr>)) (sl_waiting s (udps ! i))) \<and>
    (\<forall>i<length xs. \<exists>s'. sub_event n (sub_token (i + 1)) s = Some s' \<and> sl_waiting s' (xs ! i) = [] \<and>
      sl_handled s' = sl_handled s @ map (\<lambda>(b, a). (b, \<lparr>rk_protocol = Conn_UDP, rk_index = i + 1 + n, rk_addr = a\<rparr>)) (sl_waiting s (xs ! i))) \<and>
    (\<forall>events s'. sub_events n events s = Some s' \<longrightarrow> sl_waiting s' x = sl_waiting s x)"
  using assms sub_events_first[of n _ s _ x xs]
  by (auto simp: main_event_def main_token_def NOTIFY_def recv_all_def sub_event_def sub_token_def)

definition two_extra :: sub_listen where
  "two_extra = \<lparr>sl_flags = 0, sl_accept = [], sl_list = [7, 8], sl_waiting = (\<lambda>_. [([1], SockV4 1 2)]), sl_handled = []\<rparr>"

lemma first_extra_socket_deaf_witness:
  "\<exists>s'. sub_events 1 [0, 1] two_extra = Some s' \<and> sl_waiting s' 7 = [([1], SockV4 1 2)] \<and> sl_waiting s' 8 = []"
proof -
  obtain s' where s: "sub_events 1 [0, 1] two_extra = Some s'" "sl_waiting s' 8 = []"
    by (simp add: sub_event_def NOTIFY_def two_extra_def AcceptNotify_is_stop_def AcceptNotify_is_add_socket_def recv_all_def)
  have "sl_waiting s' 7 = sl_waiting two_extra 7"
    using first_extra_socket_deaf[of two_extra 7 "[8]" "[]" 1] s(1) by (simp add: two_extra_def del: sub_events.simps)
  with s show ?thesis by (auto simp: two_extra_def simp del: sub_events.simps)
qed

end
