(* ===== verification/Options.thy ===== *)
theory Options
  imports Settings
begin

text \<open>
  Three ways to a configuration: the command line (\<^verbatim>\<open>common/src/cli.rs\<close>), a file
  (\<^verbatim>\<open>common/src/config/file_config.rs\<close>) and the application (\<open>VntApi::new\<close> of \<^verbatim>\<open>rust/src/api/vnt_api.rs\<close>), with the
  device's identifier (\<^verbatim>\<open>common/src/config/mod.rs\<close>, \<^verbatim>\<open>common/src/identifier.rs\<close>). The parser of options
  (getopts), of YAML and of decimal fractions are library code: what they find is a parameter. All features are those of
  the application's build, in which both compressors exist. Usage messages are not modelled.
\<close>

section \<open>Values\<close>

definition PunchModel_from_str :: "string \<Rightarrow> string + PunchModel" where
  "PunchModel_from_str s = (let t = trim (to_lowercase s) in
     if t = ''ipv4'' then Inr PM_IPv4
     else if t = ''ipv6'' then Inr PM_IPv6
     else if t = ''ipv4-tcp'' then Inr PM_IPv4Tcp
     else if t = ''ipv4-udp'' then Inr PM_IPv4Udp
     else if t = ''ipv6-tcp'' then Inr PM_IPv6Tcp
     else if t = ''ipv6-udp'' then Inr PM_IPv6Udp
     else if t = ''all'' then Inr PM_All
     else Inl (''not match '' @ s))"

text \<open>\<open>i32::from_str\<close>: a sign, then digits.\<close>

definition parse_i32 :: "string \<Rightarrow> int option" where
  "parse_i32 s =
     (let negative = (s \<noteq> [] \<and> hd s = CHR ''-'');
          t = (if s \<noteq> [] \<and> (hd s = CHR ''-'' \<or> hd s = CHR ''+'') then tl s else s) in
      if t = [] then None
      else (case digits 0 t of
          None \<Rightarrow> None
        | Some n \<Rightarrow> let i = (if negative then - int n else int n) in
            if - (2 ^ 31) \<le> i \<and> i < 2 ^ 31 then Some i else None))"

definition Compressor_from_str :: "string \<Rightarrow> string + Compressor" where
  "Compressor_from_str s = (let str = to_lowercase (trim s) in
     if str = ''lz4'' then Inr Compressor_Lz4
     else if str = ''zstd'' then Inr (Compressor_Zstd 9)
     else if str = ''none'' then Inr Compressor_None
     else (case split_on (CHR '','') str of
         [name, level] \<Rightarrow>
           if name \<noteq> ''zstd'' then Inl (''not match '' @ s)
           else (case parse_i32 level of Some l \<Rightarrow> Inr (Compressor_Zstd l) | None \<Rightarrow> Inl (''not match '' @ s))
       | _ \<Rightarrow> Inl (''not match '' @ s)))"

definition PUB_STUN :: "string list" where
  "PUB_STUN = [''stun.miwifi.com'', ''stun.chat.bilibili.com'', ''stun.hitv.com'', ''stun.cdnbye.com'']"

section \<open>The host\<close>

datatype os_kind = Linux | Macos | Windows

text \<open>
  The platform, the host name, the outputs of the commands that know an identifier, \<^verbatim>\<open>/etc/machine-id\<close>, whether there is
  a directory for the program's files, the identifier stored there, a fresh one, and the reader of fractions.
\<close>

record host =
  ho_os :: os_kind
  ho_name :: "string option"
  ho_command :: "string option"
  ho_machine_id :: "string option"
  ho_has_home :: bool
  ho_stored_id :: "string option"
  ho_new_id :: string
  ho_parse_f64 :: "string \<Rightarrow> int option"

text \<open>\<open>str::lines\<close>.\<close>

definition lines :: "string \<Rightarrow> string list" where
  "lines s = (let ps = split_on (char_of (10 :: nat)) s; strip_cr = (\<lambda>l. if l \<noteq> [] \<and> last l = char_of (13 :: nat) then butlast l else l) in
     map strip_cr (if last ps = [] then butlast ps else ps))"

fun contains :: "string \<Rightarrow> string \<Rightarrow> bool" where
  "contains p [] \<longleftrightarrow> p = []"
| "contains p (x # xs) \<longleftrightarrow> starts_with (x # xs) p \<or> contains p xs"

definition nonempty :: "string \<Rightarrow> string option" where
  "nonempty s = (if s = [] then None else Some s)"

definition get_unique_identifier :: "host \<Rightarrow> string option" where
  "get_unique_identifier H = (case ho_os H of
     Windows \<Rightarrow> (case ho_command H of
         None \<Rightarrow> None
       | Some out \<Rightarrow> nonempty (trim (if 1 < length (lines out) then lines out ! 1 else [])))
   | Macos \<Rightarrow> (case ho_command H of
         None \<Rightarrow> None
       | Some out \<Rightarrow> nonempty (trim (case List.find (contains ''IOPlatformUUID'') (lines out) of Some l \<Rightarrow> l | None \<Rightarrow> [])))
   | Linux \<Rightarrow> (case map_option trim (ho_command H) of
         Some (x # xs) \<Rightarrow> Some (x # xs)
       | _ \<Rightarrow> (case ho_machine_id H of Some t \<Rightarrow> nonempty (trim t) | None \<Rightarrow> None)))"

text \<open>The identifier, and what is stored for the next time.\<close>

definition get_device_id :: "host \<Rightarrow> string \<times> string option" where
  "get_device_id H = (case get_unique_identifier H of
     Some i \<Rightarrow> (i, None)
   | None \<Rightarrow>
       if \<not> ho_has_home H then ([], None)
       else (case ho_stored_id H of
           Some i \<Rightarrow> (i, None)
         | None \<Rightarrow> (ho_new_id H, Some (ho_new_id H))))"

definition host_name :: "host \<Rightarrow> string" where
  "host_name H = (case ho_name H of Some n \<Rightarrow> n | None \<Rightarrow> ''UnknownName'')"

section \<open>The command line\<close>

text \<open>What getopts found: the flags and options present, the value of an option, all its values.\<close>

record options =
  op_present :: "string \<Rightarrow> bool"
  op_str :: "string \<Rightarrow> string option"
  op_strs :: "string \<Rightarrow> string list"

datatype CommandEnum = Cmd_List | Cmd_Info | Cmd_Stop | Cmd_Route | Cmd_All | Cmd_ChartA | Cmd_ChartB string

definition cli_command :: "options \<Rightarrow> CommandEnum option" where
  "cli_command M =
     (if op_present M ''list'' then Some Cmd_List
      else if op_present M ''info'' then Some Cmd_Info
      else if op_present M ''stop'' then Some Cmd_Stop
      else if op_present M ''route'' then Some Cmd_Route
      else if op_present M ''all'' then Some Cmd_All
      else if op_present M ''chart_a'' then Some Cmd_ChartA
      else map_option Cmd_ChartB (op_str M ''chart_b''))"

text \<open>Reading an option: \<open>get\<close> reports a bad value as an error, \<open>unwrap\<close> and \<open>expect\<close> panic.\<close>

definition or_anyhow :: "string + 'a \<Rightarrow> 'a res" where
  "or_anyhow r = (case r of Inl e \<Rightarrow> Inl (Anyhow e) | Inr x \<Rightarrow> Inr x)"

definition or_panic :: "string + 'a \<Rightarrow> 'a res" where
  "or_panic r = (case r of Inl e \<Rightarrow> Inl Panic | Inr x \<Rightarrow> Inr x)"

definition opt_get :: "(string \<Rightarrow> string + 'a) \<Rightarrow> string option \<Rightarrow> string + 'a option" where
  "opt_get parse s = (case s of None \<Rightarrow> Inr None | Some v \<Rightarrow> mapE Some (parse v))"

definition of_option :: "'a option \<Rightarrow> string + 'a" where
  "of_option r = (case r of None \<Rightarrow> Inl ''invalid'' | Some x \<Rightarrow> Inr x)"

definition u32_from_str :: "string \<Rightarrow> string + u32" where
  "u32_from_str s = of_option (map_option of_nat (parse_u32 s))"

definition special_ip :: "ipv4 \<Rightarrow> bool" where
  "special_ip ip \<longleftrightarrow> is_unspecified ip \<or> is_broadcast ip \<or> is_multicast ip"

text \<open>An address that is neither of the special ones; a text that is no address panics.\<close>

definition cli_address :: "string option \<Rightarrow> ipv4 option res" where
  "cli_address s = bindE (or_panic (opt_get (\<lambda>v. of_option (parse_ipv4 v)) s)) (\<lambda>ip. case ip of
     Some a \<Rightarrow> if special_ip a then Inl (Anyhow ''invalid'') else Inr ip
   | None \<Rightarrow> Inr None)"

definition cli_ports :: "string option \<Rightarrow> u16 list option" where
  "cli_ports s = map_option (\<lambda>v. map (\<lambda>x. case parse_u16 x of Some p \<Rightarrow> of_nat p | None \<Rightarrow> 0) (split_on (CHR '','') v)) s"

definition default_model :: "CipherModel option \<Rightarrow> CipherModel" where
  "default_model m = (case m of Some m \<Rightarrow> m | None \<Rightarrow> Model_AesGcm)"

definition cli_device_id :: "host \<Rightarrow> options \<Rightarrow> string" where
  "cli_device_id H M = (let given = (case op_str M ''d'' of Some d \<Rightarrow> d | None \<Rightarrow> []) in
     if given = [] then fst (get_device_id H) else given)"

definition cli_args :: "host \<Rightarrow> options \<Rightarrow> (config_args \<times> string list) res" where
  "cli_args H M =
     (if \<not> op_present M ''k'' then Inl (Anyhow ''parameter -k not found .'')
      else case op_str M ''k'' of None \<Rightarrow> Inl Panic | Some token \<Rightarrow>
      let device_id = cli_device_id H M in
      if device_id = [] then Inl (Anyhow ''parameter -d not found .'')
      else
        bindE (or_anyhow (ips_parse (op_strs M ''i''))) (\<lambda>in_ip.
        bindE (or_anyhow (out_ips_parse (op_strs M ''o''))) (\<lambda>out_ip.
        bindE (or_anyhow (opt_get u32_from_str (op_str M ''u''))) (\<lambda>mtu.
        bindE (cli_address (op_str M ''ip'')) (\<lambda>virtual_ip.
        bindE (or_anyhow (opt_get CipherModel_from_str (op_str M ''model''))) (\<lambda>cipher_model.
        bindE (or_panic (opt_get PunchModel_from_str (op_str M ''punch''))) (\<lambda>punch_model.
        bindE (or_panic (opt_get UseChannelType_from_str (op_str M ''use-channel''))) (\<lambda>use_channel_type.
        bindE (or_panic (opt_get (\<lambda>v. of_option (ho_parse_f64 H v)) (op_str M ''packet-loss''))) (\<lambda>packet_loss.
        bindE (or_panic (opt_get u32_from_str (op_str M ''packet-delay''))) (\<lambda>packet_delay.
        bindE (cli_address (op_str M ''local-ipv4'')) (\<lambda>local_ipv4.
        bindE (or_panic (opt_get Compressor_from_str (op_str M ''compressor''))) (\<lambda>compressor.
        Inr (\<lparr>ca_tap = op_present M ''a'', ca_token = token, ca_device_id = device_id,
           ca_name = (case op_str M ''n'' of Some n \<Rightarrow> n | None \<Rightarrow> host_name H),
           ca_server_address_str = (case op_str M ''s'' of Some s \<Rightarrow> s | None \<Rightarrow> ''vnt.wherewego.top:29872''),
           ca_name_servers = op_strs M ''dns'', ca_stun_server = (if op_strs M ''e'' = [] then PUB_STUN else op_strs M ''e''),
           ca_in_ips = in_ip, ca_out_ips = out_ip, ca_password = op_str M ''w'', ca_mtu = mtu, ca_ip = virtual_ip,
           ca_no_proxy = op_present M ''no-proxy'', ca_server_encrypt = op_present M ''W'', ca_cipher_model = default_model cipher_model,
           ca_finger = op_present M ''finger'', ca_punch_model = (case punch_model of Some p \<Rightarrow> p | None \<Rightarrow> PM_All),
           ca_ports = cli_ports (op_str M ''ports''), ca_first_latency = op_present M ''first-latency'', ca_device_name = op_str M ''nic'',
           ca_use_channel_type = (case use_channel_type of Some t \<Rightarrow> t | None \<Rightarrow> if op_present M ''relay'' then Use_Relay else Use_All),
           ca_packet_loss_rate = packet_loss, ca_packet_delay = (case packet_delay of Some d \<Rightarrow> d | None \<Rightarrow> 0),
           ca_compressor = (case compressor of Some c \<Rightarrow> c | None \<Rightarrow> Compressor_None), ca_enable_traffic = \<not> op_present M ''disable-stats'',
           ca_allow_wire_guard = op_present M ''allow-wg'', ca_local_ipv4 = local_ipv4\<rparr>,
           op_strs M ''mapping'')))))))))))))"


text \<open>How the program ends or goes on: the usage message, a command for a running instance, a configuration, or an exit code.\<close>

datatype cli_end = Cli_usage | Cli_command CommandEnum | Cli_run Config "string list" bool | Cli_exit nat

section \<open>Configuration files\<close>

record FileConfig =
  fc_tap :: bool
  fc_token :: string
  fc_device_id :: string
  fc_name :: string
  fc_server_address :: string
  fc_stun_server :: "string list"
  fc_dns :: "string list"
  fc_in_ips :: "string list"
  fc_out_ips :: "string list"
  fc_password :: "string option"
  fc_mtu :: "u32 option"
  fc_tcp :: bool
  fc_ip :: "string option"
  fc_use_channel :: string
  fc_no_proxy :: bool
  fc_server_encrypt :: bool
  fc_cipher_model :: "string option"
  fc_finger :: bool
  fc_punch_model :: string
  fc_ports :: "u16 list option"
  fc_cmd :: bool
  fc_first_latency :: bool
  fc_device_name :: "string option"
  fc_packet_loss :: "int option"
  fc_packet_delay :: u32
  fc_mapping :: "string list"
  fc_compressor :: "string option"
  fc_vnt_mapping :: "string list"
  fc_disable_stats :: bool
  fc_allow_wire_guard :: bool
  fc_local_ipv4 :: "ipv4 option"

text \<open>What stands for the entries a file leaves out.\<close>

definition FileConfig_default :: "host \<Rightarrow> FileConfig" where
  "FileConfig_default H = \<lparr>fc_tap = False, fc_token = [], fc_device_id = fst (get_device_id H), fc_name = host_name H,
     fc_server_address = ''nat1.wherewego.top:29872'', fc_stun_server = PUB_STUN, fc_dns = [], fc_in_ips = [], fc_out_ips = [],
     fc_password = None, fc_mtu = None, fc_tcp = False, fc_ip = None, fc_use_channel = ''all'', fc_no_proxy = False,
     fc_server_encrypt = False, fc_cipher_model = None, fc_finger = False, fc_punch_model = ''all'', fc_ports = None, fc_cmd = False,
     fc_first_latency = False, fc_device_name = None, fc_packet_loss = None, fc_packet_delay = 0, fc_mapping = [],
     fc_compressor = None, fc_vnt_mapping = [], fc_disable_stats = False, fc_allow_wire_guard = False, fc_local_ipv4 = None\<rparr>"

definition file_args :: "FileConfig \<Rightarrow> (config_args \<times> string list) res" where
  "file_args f =
     (if fc_token f = [] then Inl (Anyhow ''token is_empty'')
      else
        bindE (or_anyhow (ips_parse (fc_in_ips f))) (\<lambda>in_ips.
        bindE (or_anyhow (out_ips_parse (fc_out_ips f))) (\<lambda>out_ips.
        bindE (or_anyhow (opt_get (\<lambda>v. of_option (parse_ipv4 v)) (fc_ip f))) (\<lambda>virtual_ip.
        bindE (or_anyhow (opt_get CipherModel_from_str (fc_cipher_model f))) (\<lambda>cipher_model.
        bindE (or_anyhow (PunchModel_from_str (fc_punch_model f))) (\<lambda>punch_model.
        bindE (or_anyhow (UseChannelType_from_str (fc_use_channel f))) (\<lambda>use_channel_type.
        bindE (or_anyhow (opt_get Compressor_from_str (fc_compressor f))) (\<lambda>compressor.
        Inr (\<lparr>ca_tap = fc_tap f, ca_token = fc_token f, ca_device_id = fc_device_id f, ca_name = fc_name f,
           ca_server_address_str = fc_server_address f, ca_name_servers = fc_dns f, ca_stun_server = fc_stun_server f,
           ca_in_ips = in_ips, ca_out_ips = out_ips, ca_password = fc_password f, ca_mtu = fc_mtu f, ca_ip = virtual_ip,
           ca_no_proxy = fc_no_proxy f, ca_server_encrypt = fc_server_encrypt f, ca_cipher_model = default_model cipher_model,
           ca_finger = fc_finger f, ca_punch_model = punch_model, ca_ports = fc_ports f, ca_first_latency = fc_first_latency f,
           ca_device_name = fc_device_name f, ca_use_channel_type = use_channel_type, ca_packet_loss_rate = fc_packet_loss f,
           ca_packet_delay = fc_packet_delay f, ca_compressor = (case compressor of Some c \<Rightarrow> c | None \<Rightarrow> Compressor_None),
           ca_enable_traffic = \<not> fc_disable_stats f, ca_allow_wire_guard = fc_allow_wire_guard f, ca_local_ipv4 = fc_local_ipv4 f\<rparr>,
           fc_mapping f)))))))))"

text \<open>\<open>contents\<close> is what reading the file and its YAML yield.\<close>

definition read_config ::
  "name_env \<Rightarrow> ipv4 list \<Rightarrow> FileConfig res \<Rightarrow> history \<Rightarrow> (Config \<times> string list \<times> bool) res \<times> history" where
  "read_config E interfaces contents history = (case contents of
     Inl e \<Rightarrow> (Inl e, history)
   | Inr f \<Rightarrow> (case file_args f of
       Inl e \<Rightarrow> (Inl e, history)
     | Inr (a, mappings) \<Rightarrow> (case Config_new E interfaces a mappings history of (r, history) \<Rightarrow>
         (mapE (\<lambda>c. (c, fc_vnt_mapping f, fc_cmd f)) r, history))))"

text \<open>\<open>argc\<close> is the number of arguments, the program's name included.\<close>

definition parse_args_config ::
  "name_env \<Rightarrow> ipv4 list \<Rightarrow> host \<Rightarrow> nat \<Rightarrow> options res \<Rightarrow> (string \<Rightarrow> FileConfig res) \<Rightarrow> history \<Rightarrow> cli_end res \<times> history" where
  "parse_args_config E interfaces H argc parsed files history = (case parsed of
     Inl e \<Rightarrow> (Inl e, history)
   | Inr M \<Rightarrow>
       if op_present M ''h'' \<or> argc = 1 then (Inr Cli_usage, history)
       else (case cli_command M of
           Some c \<Rightarrow> (Inr (Cli_command c), history)
         | None \<Rightarrow> (case op_str M ''f'' of
             Some path \<Rightarrow> (case read_config E interfaces (files path) history of
                 (Inl Panic, history) \<Rightarrow> (Inl Panic, history)
               | (Inl _, history) \<Rightarrow> (Inl (Anyhow ''conf err''), history)
               | (Inr (c, links, cmd), history) \<Rightarrow> (Inr (Cli_run c links cmd), history))
           | None \<Rightarrow> (case cli_args H M of
               Inl e \<Rightarrow> (Inl e, history)
             | Inr (a, mappings) \<Rightarrow> (case Config_new E interfaces a mappings history of
                   (Inl Panic, history) \<Rightarrow> (Inl Panic, history)
                 | (Inl _, history) \<Rightarrow> (Inr (Cli_exit 1), history)
                 | (Inr c, history) \<Rightarrow> (Inr (Cli_run c (op_strs M ''vnt-mapping'') (op_present M ''cmd'')), history))))))"

section \<open>The application\<close>

record VntConfig =
  vc_tap :: bool
  vc_token :: string
  vc_device_id :: string
  vc_name :: string
  vc_server_address_str :: string
  vc_name_servers :: "string list"
  vc_stun_server :: "string list"
  vc_in_ips :: "(u32 \<times> u32 \<times> string) list"
  vc_out_ips :: "(u32 \<times> u32) list"
  vc_password :: "string option"
  vc_mtu :: "u32 option"
  vc_ip :: "string option"
  vc_no_proxy :: bool
  vc_server_encrypt :: bool
  vc_cipher_model :: string
  vc_finger :: bool
  vc_punch_model :: string
  vc_ports :: "u16 list option"
  vc_first_latency :: bool
  vc_device_name :: "string option"
  vc_use_channel_type :: string
  vc_packet_loss_rate :: "int option"
  vc_packet_delay :: u32
  vc_port_mapping_list :: "string list"
  vc_compressor :: string
  vc_allow_wire_guard :: bool
  vc_local_ipv4 :: "string option"

fun app_in_ips :: "(u32 \<times> u32 \<times> string) list \<Rightarrow> string + (u32 \<times> u32 \<times> ipv4) list" where
  "app_in_ips [] = Inr []"
| "app_in_ips ((a, b, s) # xs) = bindE (of_option (parse_ipv4 s)) (\<lambda>ip. mapE (\<lambda>rs. (a, b, ip) # rs) (app_in_ips xs))"

definition app_args :: "VntConfig \<Rightarrow> (config_args \<times> string list) res" where
  "app_args v =
     bindE (or_anyhow (app_in_ips (vc_in_ips v))) (\<lambda>in_ips.
     bindE (or_anyhow (opt_get (\<lambda>v. of_option (parse_ipv4 v)) (vc_ip v))) (\<lambda>ip.
     bindE (or_anyhow (CipherModel_from_str (vc_cipher_model v))) (\<lambda>cipher_model.
     bindE (or_anyhow (PunchModel_from_str (vc_punch_model v))) (\<lambda>punch_model.
     bindE (or_anyhow (UseChannelType_from_str (vc_use_channel_type v))) (\<lambda>use_channel_type.
     bindE (or_anyhow (Compressor_from_str (vc_compressor v))) (\<lambda>compressor.
     bindE (or_anyhow (opt_get (\<lambda>v. of_option (parse_ipv4 v)) (vc_local_ipv4 v))) (\<lambda>local_ipv4.
     Inr (\<lparr>ca_tap = vc_tap v, ca_token = vc_token v, ca_device_id = vc_device_id v, ca_name = vc_name v,
        ca_server_address_str = vc_server_address_str v, ca_name_servers = vc_name_servers v, ca_stun_server = vc_stun_server v,
        ca_in_ips = in_ips, ca_out_ips = vc_out_ips v, ca_password = vc_password v, ca_mtu = vc_mtu v, ca_ip = ip,
        ca_no_proxy = vc_no_proxy v, ca_server_encrypt = vc_server_encrypt v, ca_cipher_model = cipher_model,
        ca_finger = vc_finger v, ca_punch_model = punch_model, ca_ports = vc_ports v, ca_first_latency = vc_first_latency v,
        ca_device_name = vc_device_name v, ca_use_channel_type = use_channel_type, ca_packet_loss_rate = vc_packet_loss_rate v,
        ca_packet_delay = vc_packet_delay v, ca_compressor = compressor, ca_enable_traffic = True,
        ca_allow_wire_guard = vc_allow_wire_guard v, ca_local_ipv4 = local_ipv4\<rparr>,
        vc_port_mapping_list v))))))))"

definition app_config :: "name_env \<Rightarrow> ipv4 list \<Rightarrow> VntConfig \<Rightarrow> history \<Rightarrow> Config res \<times> history" where
  "app_config E interfaces v history = (case app_args v of
     Inl e \<Rightarrow> (Inl e, history) | Inr (a, mappings) \<Rightarrow> Config_new E interfaces a mappings history)"


section \<open>The same settings in three forms\<close>

fun join :: "char \<Rightarrow> string list \<Rightarrow> string" where
  "join c [] = []"
| "join c [x] = x"
| "join c (x # xs) = x @ c # join c xs"

definition show_u32 :: "u32 \<Rightarrow> string" where "show_u32 n = show_nat (unat n)"

text \<open>A file's settings as options, and as what the application passes; \<open>a\<close> has the networks read.\<close>

definition option_values :: "(int \<Rightarrow> string) \<Rightarrow> FileConfig \<Rightarrow> (string \<times> string option) list" where
  "option_values show_rate f = [(''k'', Some (fc_token f)), (''d'', Some (fc_device_id f)), (''n'', Some (fc_name f)),
     (''s'', Some (fc_server_address f)), (''w'', fc_password f), (''u'', map_option show_u32 (fc_mtu f)), (''ip'', fc_ip f),
     (''model'', fc_cipher_model f), (''punch'', Some (fc_punch_model f)), (''use-channel'', Some (fc_use_channel f)),
     (''ports'', map_option (\<lambda>ps. join (CHR '','') (map (\<lambda>p. show_nat (unat p)) ps)) (fc_ports f)),
     (''packet-loss'', map_option show_rate (fc_packet_loss f)), (''packet-delay'', Some (show_u32 (fc_packet_delay f))),
     (''local-ipv4'', map_option show_ipv4 (fc_local_ipv4 f)), (''compressor'', fc_compressor f), (''nic'', fc_device_name f)]"

definition as_options :: "(int \<Rightarrow> string) \<Rightarrow> FileConfig \<Rightarrow> options" where
  "as_options show_rate f = \<lparr>
     op_present = (\<lambda>x. x = ''k'' \<or> x = ''a'' \<and> fc_tap f \<or> x = ''W'' \<and> fc_server_encrypt f \<or> x = ''finger'' \<and> fc_finger f \<or>
       x = ''cmd'' \<and> fc_cmd f \<or> x = ''no-proxy'' \<and> fc_no_proxy f \<or> x = ''first-latency'' \<and> fc_first_latency f \<or>
       x = ''disable-stats'' \<and> fc_disable_stats f \<or> x = ''allow-wg'' \<and> fc_allow_wire_guard f),
     op_str = (\<lambda>x. case map_of (option_values show_rate f) x of Some v \<Rightarrow> v | None \<Rightarrow> None),
     op_strs = (\<lambda>x. case map_of [(''e'', fc_stun_server f), (''dns'', fc_dns f), (''i'', fc_in_ips f), (''o'', fc_out_ips f),
       (''mapping'', fc_mapping f), (''vnt-mapping'', fc_vnt_mapping f)] x of Some v \<Rightarrow> v | None \<Rightarrow> [])\<rparr>"

definition as_app :: "FileConfig \<Rightarrow> config_args \<Rightarrow> VntConfig" where
  "as_app f a = \<lparr>vc_tap = fc_tap f, vc_token = fc_token f, vc_device_id = fc_device_id f, vc_name = fc_name f,
     vc_server_address_str = fc_server_address f, vc_name_servers = fc_dns f, vc_stun_server = fc_stun_server f,
     vc_in_ips = map (\<lambda>(d, m, g). (d, m, show_ipv4 g)) (ca_in_ips a), vc_out_ips = ca_out_ips a, vc_password = fc_password f,
     vc_mtu = fc_mtu f, vc_ip = fc_ip f, vc_no_proxy = fc_no_proxy f, vc_server_encrypt = fc_server_encrypt f,
     vc_cipher_model = (case fc_cipher_model f of Some m \<Rightarrow> m | None \<Rightarrow> ''aes_gcm''), vc_finger = fc_finger f,
     vc_punch_model = fc_punch_model f, vc_ports = fc_ports f, vc_first_latency = fc_first_latency f, vc_device_name = fc_device_name f,
     vc_use_channel_type = fc_use_channel f, vc_packet_loss_rate = fc_packet_loss f, vc_packet_delay = fc_packet_delay f,
     vc_port_mapping_list = fc_mapping f, vc_compressor = (case fc_compressor f of Some c \<Rightarrow> c | None \<Rightarrow> ''none''),
     vc_allow_wire_guard = fc_allow_wire_guard f, vc_local_ipv4 = map_option show_ipv4 (fc_local_ipv4 f)\<rparr>"

lemma split_join: "xs \<noteq> [] \<Longrightarrow> \<forall>x\<in>set xs. c \<notin> set x \<Longrightarrow> split_on c (join c xs) = xs"
  by (induction c xs rule: join.induct) auto

lemma or_anyhow_simps [simp]: "or_anyhow (Inr x) = Inr x" "or_anyhow (Inl e) = Inl (Anyhow e)"
  "or_anyhow r = Inr x \<longleftrightarrow> r = Inr x" "or_panic (Inr x) = Inr x" "or_panic (Inl e) = Inl Panic"
  by (auto simp: or_anyhow_def or_panic_def split: sum.splits)

lemma of_option_simps [simp]: "of_option (Some x) = Inr x" "of_option r = Inr x \<longleftrightarrow> r = Some x"
  by (auto simp: of_option_def split: option.splits)

lemma opt_get_simps [simp]: "opt_get p None = Inr None" "opt_get p (Some v) = mapE Some (p v)"
  by (simp_all add: opt_get_def)

lemma opt_get_Inr: "opt_get p s = Inr r \<longleftrightarrow> (case s of None \<Rightarrow> r = None | Some v \<Rightarrow> \<exists>x. p v = Inr x \<and> r = Some x)"
  by (auto simp: opt_get_def mapE_def bindE_Inr_iff split: option.splits)

lemma u32_from_show [simp]: "u32_from_str (show_u32 n) = Inr n"
proof -
  have "unat n < 2 ^ 32" using unsigned_less[of n] by simp
  then show ?thesis by (simp add: u32_from_str_def show_u32_def parse_u32_def)
qed

lemma cli_ports_show: "ps \<noteq> [] \<Longrightarrow> cli_ports (Some (join (CHR '','') (map (\<lambda>p. show_nat (unat p)) ps))) = Some ps"
proof -
  assume "ps \<noteq> []"
  then have "split_on (CHR '','') (join (CHR '','') (map (\<lambda>p. show_nat (unat p)) ps)) = map (\<lambda>p. show_nat (unat p)) ps"
    by (intro split_join) auto
  moreover have "parse_u16 (show_nat (unat p)) = Some (unat p)" for p :: u16
  proof -
    have "unat p < 2 ^ 16" using unsigned_less[of p] by simp
    then show ?thesis by (simp add: parse_u16_def)
  qed
  ultimately show ?thesis by (simp add: cli_ports_def o_def)
qed

lemma cli_address_ok:
  "opt_get (\<lambda>v. of_option (parse_ipv4 v)) s = Inr ip \<Longrightarrow> (\<forall>a. ip = Some a \<longrightarrow> \<not> special_ip a) \<Longrightarrow> cli_address s = Inr ip"
  by (auto simp: cli_address_def split: option.split)

lemma app_in_ips_show: "app_in_ips (map (\<lambda>(d, m, g). (d, m, show_ipv4 g)) nets) = Inr nets"
  by (induction nets) auto

lemma default_texts: "CipherModel_from_str ''aes_gcm'' = Inr Model_AesGcm" "Compressor_from_str ''none'' = Inr Compressor_None"
  by (simp_all add: CipherModel_from_str_def Compressor_from_str_def trim_def to_lowercase_def is_whitespace_def)

lemma device_lookup: "fc_device_id f \<noteq> [] \<Longrightarrow> cli_device_id H (as_options r f) = fc_device_id f"
  by (simp add: cli_device_id_def as_options_def option_values_def)

lemma option_lookup:
  "op_str (as_options r f) ''k'' = Some (fc_token f)" "op_str (as_options r f) ''d'' = Some (fc_device_id f)"
  "op_str (as_options r f) ''n'' = Some (fc_name f)" "op_str (as_options r f) ''s'' = Some (fc_server_address f)"
  "op_str (as_options r f) ''w'' = fc_password f" "op_str (as_options r f) ''u'' = map_option show_u32 (fc_mtu f)"
  "op_str (as_options r f) ''ip'' = fc_ip f" "op_str (as_options r f) ''model'' = fc_cipher_model f"
  "op_str (as_options r f) ''punch'' = Some (fc_punch_model f)" "op_str (as_options r f) ''use-channel'' = Some (fc_use_channel f)"
  "op_str (as_options r f) ''ports'' = map_option (\<lambda>ps. join (CHR '','') (map (\<lambda>p. show_nat (unat p)) ps)) (fc_ports f)"
  "op_str (as_options r f) ''packet-loss'' = map_option r (fc_packet_loss f)"
  "op_str (as_options r f) ''packet-delay'' = Some (show_u32 (fc_packet_delay f))"
  "op_str (as_options r f) ''local-ipv4'' = map_option show_ipv4 (fc_local_ipv4 f)"
  "op_str (as_options r f) ''compressor'' = fc_compressor f" "op_str (as_options r f) ''nic'' = fc_device_name f"
  "op_str (as_options r f) ''f'' = None" "op_str (as_options r f) ''chart_b'' = None"
  by (simp_all add: as_options_def option_values_def)

lemma options_lookup:
  "op_strs (as_options r f) ''e'' = fc_stun_server f" "op_strs (as_options r f) ''dns'' = fc_dns f"
  "op_strs (as_options r f) ''i'' = fc_in_ips f" "op_strs (as_options r f) ''o'' = fc_out_ips f"
  "op_strs (as_options r f) ''mapping'' = fc_mapping f" "op_strs (as_options r f) ''vnt-mapping'' = fc_vnt_mapping f"
  by (simp_all add: as_options_def)

lemma flag_lookup:
  "op_present (as_options r f) ''k''" "op_present (as_options r f) ''a'' = fc_tap f" "op_present (as_options r f) ''W'' = fc_server_encrypt f"
  "op_present (as_options r f) ''finger'' = fc_finger f" "op_present (as_options r f) ''cmd'' = fc_cmd f"
  "op_present (as_options r f) ''no-proxy'' = fc_no_proxy f" "op_present (as_options r f) ''first-latency'' = fc_first_latency f"
  "op_present (as_options r f) ''disable-stats'' = fc_disable_stats f" "op_present (as_options r f) ''allow-wg'' = fc_allow_wire_guard f"
  "\<not> op_present (as_options r f) ''h''" "cli_command (as_options r f) = None"
  by (simp_all add: as_options_def cli_command_def option_values_def)

lemma file_args_fields:
  assumes "file_args f = Inr (a, maps)"
  shows "ca_ip a = None \<and> fc_ip f = None \<or> (\<exists>s ip. fc_ip f = Some s \<and> parse_ipv4 s = Some ip \<and> ca_ip a = Some ip)"
    "ca_local_ipv4 a = fc_local_ipv4 f"
  using assms by (auto simp: file_args_def bindE_Inr_iff opt_get_Inr split: if_splits option.splits)

lemma cli_args_as_options:
  assumes "file_args f = Inr (a, maps)" "fc_device_id f \<noteq> []" "fc_stun_server f \<noteq> []" "fc_ports f \<noteq> Some []"
    "\<forall>ip. ca_ip a = Some ip \<or> ca_local_ipv4 a = Some ip \<longrightarrow> \<not> special_ip ip" "\<forall>x. ho_parse_f64 H (show_rate x) = Some x"
  shows "cli_args H (as_options show_rate f) = Inr (a, maps)"
proof -
  have "cli_address (fc_ip f) = Inr (ca_ip a)"
    using file_args_fields(1)[OF assms(1)] assms(5) by (intro cli_address_ok) auto
  moreover have "cli_address (map_option show_ipv4 (fc_local_ipv4 f)) = Inr (fc_local_ipv4 f)"
    using file_args_fields(2)[OF assms(1)] assms(5) by (intro cli_address_ok) (cases "fc_local_ipv4 f"; simp)+
  moreover have "opt_get u32_from_str (map_option show_u32 (fc_mtu f)) = Inr (fc_mtu f)" by (cases "fc_mtu f") simp_all
  moreover have "opt_get (\<lambda>v. of_option (ho_parse_f64 H v)) (map_option show_rate (fc_packet_loss f)) = Inr (fc_packet_loss f)"
    using assms(6) by (cases "fc_packet_loss f") simp_all
  moreover have "cli_ports (map_option (\<lambda>ps. join (CHR '','') (map (\<lambda>p. show_nat (unat p)) ps)) (fc_ports f)) = fc_ports f"
    using assms(4) cli_ports_show by (cases "fc_ports f") (simp add: cli_ports_def, simp)
  ultimately show ?thesis
    using assms(1-3)
    by (auto simp: cli_args_def file_args_def device_lookup option_lookup options_lookup flag_lookup bindE_Inr_iff split: if_splits)
qed

lemma app_args_as_app:
  assumes "file_args f = Inr (a, maps)" "\<not> fc_disable_stats f"
  shows "app_args (as_app f a) = Inr (a, maps)"
proof -
  have l: "opt_get (\<lambda>v. of_option (parse_ipv4 v)) (map_option show_ipv4 x) = Inr x" for x by (cases x) simp_all
  obtain i nets ip cm pm ut co where parts: "ips_parse (fc_in_ips f) = Inr i" "out_ips_parse (fc_out_ips f) = Inr nets"
    "opt_get (\<lambda>v. of_option (parse_ipv4 v)) (fc_ip f) = Inr ip" "opt_get CipherModel_from_str (fc_cipher_model f) = Inr cm"
    "PunchModel_from_str (fc_punch_model f) = Inr pm" "UseChannelType_from_str (fc_use_channel f) = Inr ut"
    "opt_get Compressor_from_str (fc_compressor f) = Inr co"
    using assms(1) by (auto simp: file_args_def bindE_Inr_iff split: if_splits)
  have "CipherModel_from_str (case fc_cipher_model f of Some m \<Rightarrow> m | None \<Rightarrow> ''aes_gcm'') = Inr (default_model cm)"
    using parts(4) by (cases "fc_cipher_model f") (auto simp: default_texts default_model_def mapE_def bindE_Inr_iff)
  moreover have "Compressor_from_str (case fc_compressor f of Some c \<Rightarrow> c | None \<Rightarrow> ''none'') =
      Inr (case co of Some c \<Rightarrow> c | None \<Rightarrow> Compressor_None)"
    using parts(7) by (cases "fc_compressor f") (auto simp: default_texts mapE_def bindE_Inr_iff)
  ultimately show ?thesis
    using assms parts by (auto simp: app_args_def as_app_def file_args_def app_in_ips_show l split: if_splits)
qed


section \<open>Properties\<close>


definition sample_host :: host where
  "sample_host = \<lparr>ho_os = Linux, ho_name = Some ''pc'', ho_command = None, ho_machine_id = Some ''id'', ho_has_home = True,
     ho_stored_id = None, ho_new_id = ''new'', ho_parse_f64 = (\<lambda>s. Some (if s \<noteq> [] \<and> hd s = CHR ''-'' then 1 - int (length s) else int (length s)))\<rparr>"

definition sample_rate :: "int \<Rightarrow> string" where
  "sample_rate n = (if n < 0 then CHR ''-'' # replicate (nat (- n)) CHR ''x'' else replicate (nat n) CHR ''x'')"

definition sample_file :: FileConfig where
  "sample_file = (FileConfig_default sample_host)\<lparr>fc_token := ''t'', fc_server_address := ''ws://s'', fc_ip := Some ''10.26.0.2'',
     fc_ports := Some [7, 8], fc_compressor := Some ''zstd,10''\<rparr>"

lemma sample_file_args: "\<exists>a. file_args sample_file = Inr (a, []) \<and> ca_ip a = Some (Ipv4Addr_new 10 26 0 2) \<and> ca_local_ipv4 a = None \<and>
    ca_token a = ''t'' \<and> ca_device_id a = ''id'' \<and> ca_name a = ''pc'' \<and> ca_server_address_str a = ''ws://s''"
  by (simp add: file_args_def sample_file_def FileConfig_default_def parse_ipv4_def parse_octet_def digit_value_def
      PunchModel_from_str_def UseChannelType_from_str_def Compressor_from_str_def trim_def to_lowercase_def is_whitespace_def
      parse_i32_def sample_host_def host_name_def get_device_id_def get_unique_identifier_def nonempty_def)

text \<open>Values that the command line does not survive.\<close>

definition bad_value :: "host \<Rightarrow> string \<Rightarrow> string \<Rightarrow> bool" where
  "bad_value H name v \<longleftrightarrow> name \<in> {''ip'', ''local-ipv4''} \<and> parse_ipv4 v = None \<or>
     name = ''punch'' \<and> (\<exists>e. PunchModel_from_str v = Inl e) \<or> name = ''use-channel'' \<and> (\<exists>e. UseChannelType_from_str v = Inl e) \<or>
     name = ''packet-loss'' \<and> ho_parse_f64 H v = None \<or> name = ''packet-delay'' \<and> (\<exists>e. u32_from_str v = Inl e) \<or>
     name = ''compressor'' \<and> (\<exists>e. Compressor_from_str v = Inl e)"

lemma or_anyhow_no_panic: "or_anyhow x \<noteq> Inl Panic"
  by (simp add: or_anyhow_def split: sum.split)

lemma sample_rate_read: "ho_parse_f64 sample_host (sample_rate x) = Some x"
  by (auto simp: sample_host_def sample_rate_def hd_replicate)

lemma sample_file_fields: "fc_device_id sample_file \<noteq> []" "fc_stun_server sample_file \<noteq> []" "fc_ports sample_file \<noteq> Some []"
  "\<not> special_ip (Ipv4Addr_new 10 26 0 2)"
  by (simp_all add: sample_file_def FileConfig_default_def get_device_id_def get_unique_identifier_def sample_host_def nonempty_def
      trim_def is_whitespace_def PUB_STUN_def special_ip_def is_unspecified_def is_broadcast_def is_multicast_def Ipv4Addr_new_def be32_def Ipv4_BROADCAST_def)


lemma bindE_panic: "bindE m f = Inl Panic \<longleftrightarrow> m = Inl Panic \<or> (\<exists>x. m = Inr x \<and> f x = Inl Panic)"
  by (cases m) (auto simp: bindE_def)

lemma file_args_no_panic: "file_args f \<noteq> Inl Panic"
  by (simp add: file_args_def bindE_panic or_anyhow_no_panic)

lemma app_args_no_panic: "app_args c \<noteq> Inl Panic"
  by (simp add: app_args_def bindE_panic or_anyhow_no_panic)

lemma guard_InrE: "(if b then Inl e else m) = Inr r \<Longrightarrow> (\<not> b \<Longrightarrow> m = Inr r \<Longrightarrow> P) \<Longrightarrow> P"
  by (simp split: if_splits)

lemma some_InrE: "(case z of None \<Rightarrow> Inl e | Some t \<Rightarrow> f t) = Inr r \<Longrightarrow> (\<And>t. z = Some t \<Longrightarrow> f t = Inr r \<Longrightarrow> P) \<Longrightarrow> P"
  by (simp split: option.splits)

lemma bindE_InrE: "bindE m f = Inr r \<Longrightarrow> (\<And>x. m = Inr x \<Longrightarrow> f x = Inr r \<Longrightarrow> P) \<Longrightarrow> P"
  by (auto simp: bindE_Inr_iff)

lemma cli_args_parts:
  assumes "cli_args H M = Inr r"
  shows "\<exists>tok i nets mtu ip cm pm ut pl pd lo co. op_present M ''k'' \<and>
    op_str M ''k'' = Some tok \<and>
    cli_device_id H M \<noteq> [] \<and>
    ips_parse (op_strs M ''i'') = Inr i \<and>
    out_ips_parse (op_strs M ''o'') = Inr nets \<and>
    opt_get u32_from_str (op_str M ''u'') = Inr mtu \<and>
    cli_address (op_str M ''ip'') = Inr ip \<and>
    opt_get CipherModel_from_str (op_str M ''model'') = Inr cm \<and>
    or_panic (opt_get PunchModel_from_str (op_str M ''punch'')) = Inr pm \<and>
    or_panic (opt_get UseChannelType_from_str (op_str M ''use-channel'')) = Inr ut \<and>
    or_panic (opt_get (\<lambda>v. of_option (ho_parse_f64 H v)) (op_str M ''packet-loss'')) = Inr pl \<and>
    or_panic (opt_get u32_from_str (op_str M ''packet-delay'')) = Inr pd \<and>
    cli_address (op_str M ''local-ipv4'') = Inr lo \<and>
    or_panic (opt_get Compressor_from_str (op_str M ''compressor'')) = Inr co"
  using assms unfolding cli_args_def Let_def
  by (elim guard_InrE some_InrE bindE_InrE) (simp only: or_anyhow_simps, blast)

lemma bindE_weak_cong: "m = m' \<Longrightarrow> bindE m f = bindE m' f"
  by simp

lemma cli_args_panics:
  assumes "cli_args H M = Inr r" "bad_value H name v"
  shows "cli_args H (M\<lparr>op_str := (op_str M)(name := Some v)\<rparr>) = Inl Panic"
proof -
  obtain tok i nets mtu ip cm pm ut pl pd lo co where parts: "op_present M ''k''" "op_str M ''k'' = Some tok"
    "cli_device_id H M \<noteq> []" "ips_parse (op_strs M ''i'') = Inr i" "out_ips_parse (op_strs M ''o'') = Inr nets"
    "opt_get u32_from_str (op_str M ''u'') = Inr mtu" "cli_address (op_str M ''ip'') = Inr ip"
    "opt_get CipherModel_from_str (op_str M ''model'') = Inr cm" "or_panic (opt_get PunchModel_from_str (op_str M ''punch'')) = Inr pm"
    "or_panic (opt_get UseChannelType_from_str (op_str M ''use-channel'')) = Inr ut"
    "or_panic (opt_get (\<lambda>v. of_option (ho_parse_f64 H v)) (op_str M ''packet-loss'')) = Inr pl"
    "or_panic (opt_get u32_from_str (op_str M ''packet-delay'')) = Inr pd" "cli_address (op_str M ''local-ipv4'') = Inr lo"
    "or_panic (opt_get Compressor_from_str (op_str M ''compressor'')) = Inr co"
    using cli_args_parts[OF assms(1)] by (elim exE conjE) (rule that)
  have id: "cli_device_id H (M\<lparr>op_str := (op_str M)(n := Some v)\<rparr>) = cli_device_id H M" if "n \<noteq> ''d''" for n
    using that by (simp add: cli_device_id_def)
  have bad: "cli_address (Some v) = Inl Panic" if "parse_ipv4 v = None"
    using that by (simp add: cli_address_def of_option_def mapE_def bindE_def)
  have panic: "or_panic (mapE Some x) = Inl Panic" if "x = Inl e" for x :: "string + 'a" and e
    using that by (simp add: mapE_def bindE_def)
  have loss: "of_option None = Inl ''invalid''" by (simp add: of_option_def)
  show ?thesis
    using assms(2) unfolding bad_value_def insert_iff empty_iff
    by (elim disjE conjE exE FalseE)
      (simp_all add: cli_args_def Let_def parts id bad panic loss cong: bindE_weak_cong split del: if_split)
qed

text \<open>
  A mistyped value of seven of the options aborts the program: whatever options were accepted, changing the value of one of
  \<open>--ip\<close>, \<open>--local-ipv4\<close>, \<open>--punch\<close>, \<open>--use-channel\<close>, \<open>--packet-loss\<close>, \<open>--packet-delay\<close> or \<open>--compressor\<close> to a text
  that cannot be read makes the reading panic, where the configuration file and the application always report an error
  instead.
\<close>

theorem mistyped_option_panics:
  assumes "cli_args H M = Inr r" and "bad_value H name v"
  shows "cli_args H (M\<lparr>op_str := (op_str M)(name := Some v)\<rparr>) = Inl Panic \<and> file_args f \<noteq> Inl Panic \<and> app_args c \<noteq> Inl Panic"
  using cli_args_panics[OF assms] file_args_no_panic app_args_no_panic by blast

lemma mistyped_option_panics_witness:
  "\<exists>M. cli_args sample_host M \<noteq> Inl Panic \<and> op_str M ''punch'' = Some ''all'' \<and>
     cli_args sample_host (M\<lparr>op_str := (op_str M)(''punch'' := Some ''udp'')\<rparr>) = Inl Panic"
proof -
  obtain a where a: "file_args sample_file = Inr (a, [])" "ca_ip a = Some (Ipv4Addr_new 10 26 0 2)" "ca_local_ipv4 a = None"
    using sample_file_args by blast
  let ?M = "as_options sample_rate sample_file"
  have ok: "cli_args sample_host ?M = Inr (a, [])"
    using a(2,3) sample_file_fields(4) sample_rate_read by (intro cli_args_as_options[OF a(1) sample_file_fields(1-3)]) auto
  have "bad_value sample_host ''punch'' ''udp''"
    by (simp add: bad_value_def PunchModel_from_str_def trim_def to_lowercase_def is_whitespace_def)
  moreover have "op_str ?M ''punch'' = Some ''all''" by (simp add: option_lookup sample_file_def FileConfig_default_def)
  ultimately show ?thesis using mistyped_option_panics[OF ok] ok by (intro exI[of _ ?M]) simp
qed

end
