(* ===== verification/Vnt_Handle.thy ===== *)
theory Vnt_Handle
  imports Startup Options
begin

text \<open>
  What a running instance offers to its owner (\<open>VntInner\<close> of \<^verbatim>\<open>vnt/src/core/conn.rs\<close>) and the application's view of it
  (\<^verbatim>\<open>rust/src/api/vnt_api.rs\<close>): texts for addresses, routes, devices and sizes, and the callbacks handed on to the Dart side.
  The texts of IPv6 addresses and numbers are those of the standard library's \<open>Display\<close>. The order of a hash map is the order of
  the list that stands for it.
\<close>

section \<open>The instance\<close>

text \<open>
  The shared state is the handlers' (\<open>world\<close>); \<open>vi_context\<close> tells whether the handle still holds the transport context,
  which the queries about routes need.
\<close>

record VntInner =
  vi_config :: Config
  vi_client_secret_hash :: "u8 list option"
  vi_context :: bool
  vi_world :: world
  vi_stopper :: stopper

text \<open>\<open>VntInner::new\<close>: the handle of the program that \<open>new_device\<close> starts.\<close>

definition VntInner_new :: "crypto_lib \<Rightarrow> os_env \<Rightarrow> conf \<Rightarrow> IpProxyMap \<Rightarrow> Config \<Rightarrow> (conf \<times> VntInner) res" where
  "VntInner_new L S C proxies c = (case new_device L S C proxies c StopManager_new of
     (Inl e, _) \<Rightarrow> Inl e
   | (Inr (C', w), s) \<Rightarrow> Inr (C', \<lparr>vi_config = c, vi_client_secret_hash = bc_client_secret_hash (cf_base C'), vi_context = True,
       vi_world = w, vi_stopper = s\<rparr>))"

definition VntInner_name :: "VntInner \<Rightarrow> string" where "VntInner_name v = ca_name (vi_config v)"
definition VntInner_server_encrypt :: "VntInner \<Rightarrow> bool" where "VntInner_server_encrypt v = ca_server_encrypt (vi_config v)"
definition VntInner_client_encrypt :: "VntInner \<Rightarrow> bool" where "VntInner_client_encrypt v = (ca_password (vi_config v) \<noteq> None)"
definition VntInner_client_encrypt_hash :: "VntInner \<Rightarrow> u8 list option" where
  "VntInner_client_encrypt_hash v = vi_client_secret_hash v"

definition VntInner_current_device :: "VntInner \<Rightarrow> CurrentDeviceInfo" where
  "VntInner_current_device v = w_current_device (vi_world v)"

definition VntInner_peer_nat_info :: "VntInner \<Rightarrow> ipv4 \<Rightarrow> NatInfo option" where
  "VntInner_peer_nat_info v ip = w_peer_nat_info (vi_world v) ip"

definition VntInner_connection_status :: "VntInner \<Rightarrow> ConnectStatus" where
  "VntInner_connection_status v = cd_status (w_current_device (vi_world v))"

definition VntInner_nat_info :: "VntInner \<Rightarrow> NatInfo" where
  "VntInner_nat_info v = nt_info (w_nat_test (vi_world v))"

definition VntInner_device_list :: "VntInner \<Rightarrow> PeerDeviceInfo list" where
  "VntInner_device_list v = map snd (w_devices (vi_world v))"

definition VntInner_route :: "VntInner \<Rightarrow> ipv4 \<Rightarrow> Route option" where
  "VntInner_route v ip = (if vi_context v then route_one (cx_route_table (vi_world v)) ip else None)"

definition VntInner_is_gateway :: "VntInner \<Rightarrow> ipv4 \<Rightarrow> bool" where
  "VntInner_is_gateway v ip = CurrentDeviceInfo_is_gateway (w_current_device (vi_world v)) ip"

definition VntInner_route_key :: "VntInner \<Rightarrow> RouteKey \<Rightarrow> ipv4 option" where
  "VntInner_route_key v k = (if vi_context v then route_to_id (cx_route_table (vi_world v)) k else None)"

definition VntInner_route_table :: "VntInner \<Rightarrow> (ipv4 \<times> Route list) list" where
  "VntInner_route_table v = (if vi_context v then route_table_all (cx_route_table (vi_world v)) else [])"

definition VntInner_up_stream :: "VntInner \<Rightarrow> u64" where "VntInner_up_stream v = meter_total (cx_up_meter (vi_world v))"
definition VntInner_down_stream :: "VntInner \<Rightarrow> u64" where "VntInner_down_stream v = meter_total (cx_down_meter (vi_world v))"

definition VntInner_up_stream_all :: "VntInner \<Rightarrow> (u64 \<times> (ipv4 \<times> u64) list) option" where
  "VntInner_up_stream_all v = map_option meters_get_all (cx_up_meter (vi_world v))"

definition VntInner_down_stream_all :: "VntInner \<Rightarrow> (u64 \<times> (ipv4 \<times> u64) list) option" where
  "VntInner_down_stream_all v = map_option meters_get_all (cx_down_meter (vi_world v))"

definition VntInner_up_stream_history :: "VntInner \<Rightarrow> (u64 \<times> (ipv4 \<times> u64 \<times> u64 list) list) option" where
  "VntInner_up_stream_history v = map_option meters_get_all_history (cx_up_meter (vi_world v))"

definition VntInner_down_stream_history :: "VntInner \<Rightarrow> (u64 \<times> (ipv4 \<times> u64 \<times> u64 list) list) option" where
  "VntInner_down_stream_history v = map_option meters_get_all_history (cx_down_meter (vi_world v))"

text \<open>Thread \<open>t\<close> takes the context out, then calls every listener.\<close>

definition VntInner_stop :: "nat \<Rightarrow> VntInner \<Rightarrow> VntInner" where
  "VntInner_stop t v = v\<lparr>vi_context := False, vi_stopper := advance t (begin_op t Op_stop (vi_stopper v))\<rparr>"

definition VntInner_is_stopped :: "VntInner \<Rightarrow> bool" where
  "VntInner_is_stopped v = StopManager_is_stopped (vi_stopper v)"

definition VntInner_add_stop_listener :: "string \<Rightarrow> VntInner \<Rightarrow> VntInner res" where
  "VntInner_add_stop_listener name v =
     mapE (\<lambda>s. v\<lparr>vi_stopper := s\<rparr>) (StopManager_add_listener name (vi_stopper v))"

section \<open>Texts\<close>

fun show_hex :: "nat \<Rightarrow> string" where
  "show_hex n = (let d = (\<lambda>k. if k < 10 then digit_char k else char_of (87 + k)) in
     if n < 16 then [d n] else show_hex (n div 16) @ [d (n mod 16)])"

declare show_hex.simps [simp del]

text \<open>The longest run of zero segments: where it starts, and its length; the first one among equals.\<close>

fun zero_run :: "nat \<Rightarrow> nat \<times> nat \<Rightarrow> nat \<times> nat \<Rightarrow> u16 list \<Rightarrow> nat \<times> nat" where
  "zero_run i cur best [] = best"
| "zero_run i cur best (s # ss) =
     (if s = 0 then
        let cur = (if snd cur = 0 then (i, 1) else (fst cur, snd cur + 1)) in
        zero_run (i + 1) cur (if snd best < snd cur then cur else best) ss
      else zero_run (i + 1) (0, 0) best ss)"

definition show_segments :: "u16 list \<Rightarrow> string" where
  "show_segments ss = join (CHR '':'') (map (\<lambda>s. show_hex (unat s)) ss)"

definition show_ipv6 :: "ipv6 \<Rightarrow> string" where
  "show_ipv6 ip = (let ss = map (seg ip) [0..<8]; (start, len) = zero_run 0 (0, 0) (0, 0) ss in
     if take 5 ss = [0, 0, 0, 0, 0] \<and> ss ! 5 = 0xFFFF then ''::ffff:'' @ show_ipv4 (ucast ip)
     else if 1 < len then show_segments (take start ss) @ ''::'' @ show_segments (drop (start + len) ss)
     else show_segments ss)"

definition show_addr :: "socket_addr \<Rightarrow> string" where
  "show_addr a = (case a of
     SockV4 ip port \<Rightarrow> show_ipv4 ip @ '':'' @ show_nat (unat port)
   | SockV6 ip port _ scope \<Rightarrow>
       ''['' @ show_ipv6 ip @ (if scope = 0 then [] else ''%'' @ show_nat (unat scope)) @ '']:'' @ show_nat (unat port))"

definition show_protocol :: "ConnectProtocol \<Rightarrow> string" where
  "show_protocol p = (case p of Conn_UDP \<Rightarrow> ''UDP'' | Conn_TCP \<Rightarrow> ''TCP'' | Conn_WS \<Rightarrow> ''WS'' | Conn_WSS \<Rightarrow> ''WSS'')"

definition show_nat_type :: "NatType \<Rightarrow> string" where
  "show_nat_type t = (case t of Symmetric \<Rightarrow> ''Symmetric'' | Cone \<Rightarrow> ''Cone'')"

definition show_peer_status :: "PeerDeviceStatus \<Rightarrow> string" where
  "show_peer_status s = (case s of Peer_Online \<Rightarrow> ''Online'' | Peer_Offline \<Rightarrow> ''Offline'')"

definition show_connect_status :: "ConnectStatus \<Rightarrow> string" where
  "show_connect_status s = (case s of Connecting \<Rightarrow> ''Connecting'' | Connected \<Rightarrow> ''Connected'')"

text \<open>A number of bytes.\<close>

definition convert :: "u64 \<Rightarrow> string" where
  "convert num =
     (let gigabytes = num div (1024 * 1024 * 1024);
          remaining_bytes = num mod (1024 * 1024 * 1024);
          megabytes = remaining_bytes div (1024 * 1024);
          remaining_bytes = remaining_bytes mod (1024 * 1024);
          kilobytes = remaining_bytes div 1024;
          remaining_bytes = remaining_bytes mod 1024 in
      (if gigabytes > 0 then show_nat (unat gigabytes) @ '' GB '' else []) @
      (if megabytes > 0 then show_nat (unat megabytes) @ '' MB '' else []) @
      (if kilobytes > 0 then show_nat (unat kilobytes) @ '' KB '' else []) @
      (if remaining_bytes > 0 then show_nat (unat remaining_bytes) @ '' bytes'' else []))"

section \<open>The application's records\<close>

record RustConnectInfo =
  xc_count :: nat
  xc_address :: string

definition RustConnectInfo_from :: "ConnectInfo \<Rightarrow> RustConnectInfo" where
  "RustConnectInfo_from c = \<lparr>xc_count = ci_count c, xc_address = show_addr (ci_address c)\<rparr>"

record RustHandshakeInfo =
  xh_finger :: "string option"
  xh_version :: string

definition RustHandshakeInfo_from :: "HandshakeInfo \<Rightarrow> RustHandshakeInfo" where
  "RustHandshakeInfo_from h = \<lparr>xh_finger = hi_finger h, xh_version = hi_version h\<rparr>"

record RustRegisterInfo =
  xr_virtual_ip :: string
  xr_virtual_netmask :: string
  xr_virtual_gateway :: string

definition RustRegisterInfo_from :: "RegisterInfo \<Rightarrow> RustRegisterInfo" where
  "RustRegisterInfo_from r = \<lparr>xr_virtual_ip = show_ipv4 (ri_virtual_ip r), xr_virtual_netmask = show_ipv4 (ri_virtual_netmask r),
     xr_virtual_gateway = show_ipv4 (ri_virtual_gateway r)\<rparr>"

record RustDeviceConfig =
  xd_virtual_ip :: string
  xd_virtual_netmask :: string
  xd_virtual_gateway :: string
  xd_virtual_network :: string
  xd_external_route :: "(string \<times> string) list"

definition RustDeviceConfig_from :: "DeviceConfig \<Rightarrow> RustDeviceConfig" where
  "RustDeviceConfig_from d = \<lparr>xd_virtual_ip = show_ipv4 (dc_virtual_ip d), xd_virtual_netmask = show_ipv4 (dc_virtual_netmask d),
     xd_virtual_gateway = show_ipv4 (dc_virtual_gateway d), xd_virtual_network = show_ipv4 (dc_virtual_network d),
     xd_external_route = map (\<lambda>(a, b). (show_ipv4 a, show_ipv4 b)) (dc_external_route d)\<rparr>"

record RustPeerClientInfo =
  xp_virtual_ip :: string
  xp_name :: string
  xp_status :: string
  xp_client_secret :: bool

definition RustPeerClientInfo_from :: "PeerClientInfo \<Rightarrow> RustPeerClientInfo" where
  "RustPeerClientInfo_from p = \<lparr>xp_virtual_ip = show_ipv4 (pc_virtual_ip p), xp_name = pc_name p,
     xp_status = show_peer_status (pc_status p), xp_client_secret = pc_client_secret p\<rparr>"

definition RustPeerClientInfo_of_device :: "PeerDeviceInfo \<Rightarrow> RustPeerClientInfo" where
  "RustPeerClientInfo_of_device p = \<lparr>xp_virtual_ip = show_ipv4 (pd_virtual_ip p), xp_name = pd_name p,
     xp_status = show_peer_status (pd_status p), xp_client_secret = pd_client_secret p\<rparr>"

datatype RustErrorType = Rust_TokenError | Rust_Disconnect | Rust_AddressExhausted | Rust_IpAlreadyExists | Rust_InvalidIp
  | Rust_LocalIpExists | Rust_Unknown

fun RustErrorType_from :: "ErrorType \<Rightarrow> RustErrorType" where
  "RustErrorType_from TokenError = Rust_TokenError"
| "RustErrorType_from Disconnect = Rust_Disconnect"
| "RustErrorType_from AddressExhausted = Rust_AddressExhausted"
| "RustErrorType_from IpAlreadyExists = Rust_IpAlreadyExists"
| "RustErrorType_from InvalidIp = Rust_InvalidIp"
| "RustErrorType_from LocalIpExists = Rust_LocalIpExists"
| "RustErrorType_from Unknown = Rust_Unknown"

record RustErrorInfo =
  xe_code :: RustErrorType
  xe_msg :: "string option"

definition RustErrorInfo_from :: "ErrorInfo \<Rightarrow> RustErrorInfo" where
  "RustErrorInfo_from e = \<lparr>xe_code = RustErrorType_from (ei_code e), xe_msg = ei_msg e\<rparr>"

record RustRoute =
  xo_protocol :: string
  xo_addr :: string
  xo_metric :: u8
  xo_rt :: i64

definition RustRoute_from :: "Route \<Rightarrow> RustRoute" where
  "RustRoute_from r = \<lparr>xo_protocol = show_protocol (r_protocol r), xo_addr = show_addr (r_addr r), xo_metric = r_metric r,
     xo_rt = r_rt r\<rparr>"

record RustNatInfo =
  xn_public_ips :: "string list"
  xn_nat_type :: string
  xn_local_ipv4 :: "string option"
  xn_ipv6 :: "string option"

definition RustNatInfo_from :: "NatInfo \<Rightarrow> RustNatInfo" where
  "RustNatInfo_from n = \<lparr>xn_public_ips = map show_ipv4 (ni_public_ips n), xn_nat_type = show_nat_type (ni_nat_type n),
     xn_local_ipv4 = map_option show_ipv4 (ni_local_ipv4 n), xn_ipv6 = map_option show_ipv6 (ni_ipv6 n)\<rparr>"

record RustCurrentDeviceInfo =
  xu_virtual_ip :: string
  xu_virtual_netmask :: string
  xu_virtual_gateway :: string
  xu_virtual_network :: string
  xu_broadcast_ip :: string
  xu_connect_server :: string
  xu_status :: string

definition RustCurrentDeviceInfo_from :: "CurrentDeviceInfo \<Rightarrow> RustCurrentDeviceInfo" where
  "RustCurrentDeviceInfo_from d = \<lparr>xu_virtual_ip = show_ipv4 (cd_virtual_ip d), xu_virtual_netmask = show_ipv4 (cd_virtual_netmask d),
     xu_virtual_gateway = show_ipv4 (cd_virtual_gateway d), xu_virtual_network = show_ipv4 (cd_virtual_network d),
     xu_broadcast_ip = show_ipv4 (cd_broadcast_ip d), xu_connect_server = show_addr (cd_connect_server d),
     xu_status = show_connect_status (cd_status d)\<rparr>"

section \<open>The application's queries\<close>

definition VntApi_device_list :: "VntInner \<Rightarrow> RustPeerClientInfo list" where
  "VntApi_device_list v = map RustPeerClientInfo_of_device (VntInner_device_list v)"

definition VntApi_route_list :: "VntInner \<Rightarrow> (string \<times> RustRoute list) list" where
  "VntApi_route_list v = map (\<lambda>(ip, routes). (show_ipv4 ip, map RustRoute_from routes)) (VntInner_route_table v)"

definition VntApi_nat_info :: "VntInner \<Rightarrow> RustNatInfo" where
  "VntApi_nat_info v = RustNatInfo_from (VntInner_nat_info v)"

definition VntApi_current_device :: "VntInner \<Rightarrow> RustCurrentDeviceInfo" where
  "VntApi_current_device v = RustCurrentDeviceInfo_from (VntInner_current_device v)"

definition VntApi_route :: "VntInner \<Rightarrow> string \<Rightarrow> RustRoute option" where
  "VntApi_route v ip = (case parse_ipv4 ip of
     Some ip \<Rightarrow> map_option RustRoute_from (VntInner_route v ip) | None \<Rightarrow> None)"

definition VntApi_peer_nat_info :: "VntInner \<Rightarrow> string \<Rightarrow> RustNatInfo option" where
  "VntApi_peer_nat_info v ip = (case parse_ipv4 ip of
     Some ip \<Rightarrow> map_option RustNatInfo_from (VntInner_peer_nat_info v ip) | None \<Rightarrow> None)"

definition VntApi_up_stream :: "VntInner \<Rightarrow> string" where "VntApi_up_stream v = convert (VntInner_up_stream v)"
definition VntApi_down_stream :: "VntInner \<Rightarrow> string" where "VntApi_down_stream v = convert (VntInner_down_stream v)"

text \<open>What a map holds under an address, or the default.\<close>

definition or_default :: "'b \<Rightarrow> ('a \<times> 'b) list \<Rightarrow> 'a \<Rightarrow> 'b" where
  "or_default d m k = (case map_of m k of Some x \<Rightarrow> x | None \<Rightarrow> d)"

definition unwrap_all :: "(u64 \<times> 'a list) option \<Rightarrow> 'a list" where
  "unwrap_all m = (case m of Some (_, l) \<Rightarrow> l | None \<Rightarrow> [])"

text \<open>The keys of two maps, sorted.\<close>

definition all_keys :: "(ipv4 \<times> 'a) list \<Rightarrow> (ipv4 \<times> 'b) list \<Rightarrow> ipv4 list" where
  "all_keys up_map down_map = sort (remdups (map fst up_map @ map fst down_map))"

definition VntApi_stream_all :: "VntInner \<Rightarrow> (string \<times> u64 \<times> u64) list" where
  "VntApi_stream_all v =
     (let up_map = unwrap_all (VntInner_up_stream_all v); down_map = unwrap_all (VntInner_down_stream_all v) in
      map (\<lambda>key. (show_ipv4 key, or_default 0 up_map key, or_default 0 down_map key)) (all_keys up_map down_map))"

definition stream_line :: "(u64 \<times> (ipv4 \<times> u64 \<times> u64 list) list) option \<Rightarrow> string \<Rightarrow> u64 list" where
  "stream_line history ip = (case parse_ipv4 ip of
     Some ip \<Rightarrow> snd (or_default (0, []) (unwrap_all history) ip) | None \<Rightarrow> [])"

definition VntApi_up_stream_line :: "VntInner \<Rightarrow> string \<Rightarrow> u64 list" where
  "VntApi_up_stream_line v ip = stream_line (VntInner_up_stream_history v) ip"

definition VntApi_down_stream_line :: "VntInner \<Rightarrow> string \<Rightarrow> u64 list" where
  "VntApi_down_stream_line v ip = stream_line (VntInner_down_stream_history v) ip"

definition ip_total :: "(u64 \<times> (ipv4 \<times> u64) list) option \<Rightarrow> string \<Rightarrow> string" where
  "ip_total all ip = (case parse_ipv4 ip of
     Some ip \<Rightarrow> convert (or_default 0 (unwrap_all all) ip) | None \<Rightarrow> [])"

definition VntApi_ip_up_stream_total :: "VntInner \<Rightarrow> string \<Rightarrow> string" where
  "VntApi_ip_up_stream_total v ip = ip_total (VntInner_up_stream_all v) ip"

definition VntApi_ip_down_stream_total :: "VntInner \<Rightarrow> string \<Rightarrow> string" where
  "VntApi_ip_down_stream_total v ip = ip_total (VntInner_down_stream_all v) ip"

section \<open>Callbacks\<close>

record DeviceInfo =
  dv_name :: string
  dv_version :: string

text \<open>A call of one of the application's functions.\<close>

datatype dart_call =
    Dart_success | Dart_create_tun DeviceInfo | Dart_connect RustConnectInfo | Dart_handshake RustHandshakeInfo
  | Dart_register RustRegisterInfo | Dart_generate_tun RustDeviceConfig | Dart_peer_client_list "RustPeerClientInfo list"
  | Dart_error RustErrorInfo | Dart_stop

text \<open>
  Inside an asynchronous runtime a notification is left to the runtime, a question is asked from a thread of its own; outside
  of it both run to their end at once.
\<close>

datatype delivery = Spawned dart_call | Blocking dart_call | On_thread dart_call

definition deliver :: "bool \<Rightarrow> dart_call \<Rightarrow> delivery" where
  "deliver in_runtime call = (if in_runtime then Spawned call else Blocking call)"

definition deliver_question :: "bool \<Rightarrow> dart_call \<Rightarrow> delivery" where
  "deliver_question in_runtime call = (if in_runtime then On_thread call else Blocking call)"

text \<open>The events of the handlers that are callbacks.\<close>

definition VntApiCallback :: "DeviceInfo \<Rightarrow> bool \<Rightarrow> event \<Rightarrow> delivery option" where
  "VntApiCallback info r e = (case e of
     Ev_success \<Rightarrow> Some (deliver r Dart_success)
   | Ev_create_tun \<Rightarrow> Some (deliver r (Dart_create_tun info))
   | Ev_connect c \<Rightarrow> Some (deliver r (Dart_connect (RustConnectInfo_from c)))
   | Ev_handshake h \<Rightarrow> Some (deliver_question r (Dart_handshake (RustHandshakeInfo_from h)))
   | Ev_register i \<Rightarrow> Some (deliver_question r (Dart_register (RustRegisterInfo_from i)))
   | Ev_generate_tun d \<Rightarrow> Some (deliver_question r (Dart_generate_tun (RustDeviceConfig_from d)))
   | Ev_peer_client_list ps \<Rightarrow> Some (deliver r (Dart_peer_client_list (map RustPeerClientInfo_from ps)))
   | Ev_error i \<Rightarrow> Some (deliver r (Dart_error (RustErrorInfo_from i)))
   | _ \<Rightarrow> None)"

section \<open>Sizes\<close>

text \<open>The size that a text stands for.\<close>

definition unit_size :: "string \<Rightarrow> nat" where
  "unit_size u = (if u = ''GB'' then 2 ^ 30 else if u = ''MB'' then 2 ^ 20 else if u = ''KB'' then 2 ^ 10 else 1)"

fun read_units :: "string list \<Rightarrow> nat" where
  "read_units (n # u # ts) = (case digits 0 n of Some k \<Rightarrow> k | None \<Rightarrow> 0) * unit_size u + read_units ts"
| "read_units _ = 0"

definition read_size :: "string \<Rightarrow> nat" where
  "read_size s = read_units (split_on (CHR '' '') s)"

lemma space_not_digit: "CHR '' '' \<notin> set (show_nat n)"
  by (rule not_in_show) (simp add: is_digit_def digit_value_def)

lemma read_part:
  assumes "CHR '' '' \<notin> set u"
  shows "read_size ((if n > 0 then show_nat (unat n) @ '' '' @ u @ '' '' else []) @ rest) =
    unat (n::u64) * unit_size u + read_size rest"
  using assms by (auto simp: read_size_def word_gt_0 space_not_digit)

lemma read_bytes: "read_size (if n > 0 then show_nat (unat n) @ '' bytes'' else []) = unat (n::u64)"
  using split_on_append[OF space_not_digit, of "unat n" "''bytes''"]
  by (auto simp: read_size_def unit_size_def word_gt_0 simp del: split_on_append)

lemma size_digits: "n div 2 ^ 30 * 2 ^ 30 + (n mod 2 ^ 30 div 2 ^ 20 * 2 ^ 20 + (n mod 2 ^ 30 mod 2 ^ 20 div 2 ^ 10 * 2 ^ 10 +
    n mod 2 ^ 30 mod 2 ^ 20 mod 2 ^ 10)) = (n::nat)"
  by (simp only: div_mult_mod_eq)

text \<open>
  The text of a number of bytes loses nothing: reading the numbers with their units back and adding them up gives the number
  again, for every 64-bit number, so different totals are shown as different texts.
\<close>

theorem size_text_restored: "read_size (convert num) = unat num"
proof -
  define r where "r = num mod (1024 * 1024 * 1024)"
  have c: "convert num = (if num div (1024 * 1024 * 1024) > 0 then show_nat (unat (num div (1024 * 1024 * 1024))) @ '' '' @ ''GB'' @ '' '' else []) @
      (if r div (1024 * 1024) > 0 then show_nat (unat (r div (1024 * 1024))) @ '' '' @ ''MB'' @ '' '' else []) @
      (if r mod (1024 * 1024) div 1024 > 0 then show_nat (unat (r mod (1024 * 1024) div 1024)) @ '' '' @ ''KB'' @ '' '' else []) @
      (if r mod (1024 * 1024) mod 1024 > 0 then show_nat (unat (r mod (1024 * 1024) mod 1024)) @ '' bytes'' else [])"
    unfolding convert_def Let_def r_def by simp
  show ?thesis
    unfolding c using size_digits[of "unat num"]
    by (subst read_part, simp)+ (subst read_bytes, simp add: unit_size_def r_def unat_div unat_mod)
qed

section \<open>The listing of traffic\<close>

definition meter_sound :: "TrafficMeterMultiAddress \<Rightarrow> bool" where
  "meter_sound m \<longleftrightarrow> mm_inv m \<and> mm_total m = sum_list (map (\<lambda>x. tm_total (snd x)) (mm_meters m))"

lemma sum_update:
  fixes f :: "'b \<Rightarrow> u64"
  assumes "distinct (map fst m)"
  shows "sum_list (map (\<lambda>z. f (snd z)) (AList.update k x m)) =
    sum_list (map (\<lambda>z. f (snd z)) m) + f x - (case map_of m k of Some y \<Rightarrow> f y | None \<Rightarrow> 0)"
  using assms by (induction m) (auto simp: map_of_eq_None_iff[symmetric] image_iff)

lemma add_traffic_sound: "meter_sound m \<Longrightarrow> meter_sound (add_traffic a b c ip n m)"
  unfolding meter_sound_def using add_traffic_inv[of m a b c ip n]
  by (auto simp: add_traffic_def sum_update mm_inv_def add_traffic_tm meter_at_def split: option.splits)

definition meters_sound :: "world \<Rightarrow> bool" where
  "meters_sound w \<longleftrightarrow> (\<forall>m. cx_up_meter w = Some m \<or> cx_down_meter w = Some m \<longrightarrow> meter_sound m)"

interpretation meters_frame: handler_frame "\<lambda>_. meters_sound"
  by unfold_locales (auto simp: meters_sound_def add_traffic_sound keeps_def TunDeviceHelper_stop_def TunDeviceHelper_start_def
      bindS_def thenS_eq failS_def)

lemma sum_keys:
  fixes m :: "(ipv4 \<times> u64) list"
  assumes "distinct (map fst m)" "distinct ks" "set (map fst m) \<subseteq> set ks"
  shows "sum_list (map (or_default 0 m) ks) = sum_list (map snd m)"
proof -
  have "sum_list (map (or_default 0 m) ks) = sum (or_default 0 m) (set ks)"
    using assms(2) by (simp add: sum_list_distinct_conv_sum_set)
  also have "\<dots> = sum (or_default 0 m) (set (map fst m))"
    using assms(3) by (intro sum.mono_neutral_right) (auto simp: or_default_def split: option.splits dest!: map_of_SomeD simp flip: map_of_eq_None_iff)
  also have "\<dots> = sum_list (map (or_default 0 m) (map fst m))"
    using assms(1) by (simp only: sum_list_distinct_conv_sum_set)
  also have "map (or_default 0 m) (map fst m) = map snd m"
    using assms(1) by (auto simp: or_default_def)
  finally show ?thesis .
qed

lemma listing_sums:
  assumes "meters_sound (vi_world v)"
  shows "sum_list (map (fst \<circ> snd) (VntApi_stream_all v)) = VntInner_up_stream v \<and>
    sum_list (map (snd \<circ> snd) (VntApi_stream_all v)) = VntInner_down_stream v"
proof -
  let ?up = "unwrap_all (VntInner_up_stream_all v)" and ?down = "unwrap_all (VntInner_down_stream_all v)"
  have d: "distinct (map fst ?up)" "distinct (map fst ?down)" "sum_list (map snd ?up) = VntInner_up_stream v"
    "sum_list (map snd ?down) = VntInner_down_stream v"
    using assms by (auto simp: unwrap_all_def VntInner_up_stream_all_def VntInner_down_stream_all_def meters_get_all_def
        meters_sound_def meter_sound_def mm_inv_def VntInner_up_stream_def VntInner_down_stream_def meter_total_def split_beta comp_def
        split: option.splits)
  have k: "distinct (all_keys ?up ?down)" "set (map fst ?up) \<subseteq> set (all_keys ?up ?down)" "set (map fst ?down) \<subseteq> set (all_keys ?up ?down)"
    by (auto simp: all_keys_def)
  show ?thesis
    using sum_keys[OF d(1) k(1,2)] sum_keys[OF d(2) k(1,3)] d(3,4) by (simp add: VntApi_stream_all_def Let_def comp_def)
qed

lemma unwrap_keys: "fst ` set (unwrap_all (map_option meters_get_all x)) = {ip. \<exists>m. x = Some m \<and> ip \<in> fst ` set (mm_meters m)}"
  by (cases x) (auto simp: unwrap_all_def meters_get_all_def split_beta image_image)

lemma listing_keys: "\<exists>ks. map fst (VntApi_stream_all v) = map show_ipv4 ks \<and> sorted_wrt (<) ks \<and>
    (\<forall>ip. ip \<in> set ks \<longleftrightarrow> (\<exists>m. (cx_up_meter (vi_world v) = Some m \<or> cx_down_meter (vi_world v) = Some m) \<and> ip \<in> fst ` set (mm_meters m)))"
proof (intro exI conjI allI)
  let ?ks = "all_keys (unwrap_all (VntInner_up_stream_all v)) (unwrap_all (VntInner_down_stream_all v))"
  show "map fst (VntApi_stream_all v) = map show_ipv4 ?ks" by (simp add: VntApi_stream_all_def Let_def comp_def)
  show "sorted_wrt (<) ?ks" by (simp add: all_keys_def strict_sorted_iff)
  show "ip \<in> set ?ks \<longleftrightarrow> (\<exists>m. (cx_up_meter (vi_world v) = Some m \<or> cx_down_meter (vi_world v) = Some m) \<and> ip \<in> fst ` set (mm_meters m))" for ip
    unfolding all_keys_def VntInner_up_stream_all_def VntInner_down_stream_all_def by (auto simp: unwrap_keys)
qed

lemma new_device_meters:
  assumes "new_device L S C px c StopManager_new = (Inr (C', w), s')"
  shows "meters_sound w"
proof -
  obtain ctx u t srv nt where i: "init_context S (channel_ports c) c (traffic_meter c) = Inr (ctx, u, t)"
    and w: "w = world_new ctx srv nt px (os_now S) (os_now S)"
    using new_device_ok[OF assms] by blast
  have "cx_up_meter ctx = traffic_meter c \<and> cx_down_meter ctx = traffic_meter c"
    using init_context_ok[OF i] by (auto simp: ChannelContext_new_def split: if_splits)
  then show ?thesis
    by (auto simp: w meters_sound_def meter_sound_def mm_inv_def traffic_meter_def TrafficMeterMultiAddress_default_def
        TrafficMeterMultiAddress_new_def world_new_def ContextInner.defs split: if_splits)
qed

text \<open>
  C22. The application's listing of traffic accounts for everything: from a successful start, in every state the program can reach,
  whatever packets arrived and were sent, it has one line for each address with a meter, in ascending order of the addresses, and its
  columns add up to the two totals (all modulo 2^64).
\<close>

theorem stream_all_accounts:
  assumes "VntInner_new L S C px c = Inr (C', v)" and "reaches C' (vi_world v) w"
  shows "sum_list (map (fst \<circ> snd) (VntApi_stream_all (v\<lparr>vi_world := w\<rparr>))) = VntInner_up_stream (v\<lparr>vi_world := w\<rparr>) \<and>
    sum_list (map (snd \<circ> snd) (VntApi_stream_all (v\<lparr>vi_world := w\<rparr>))) = VntInner_down_stream (v\<lparr>vi_world := w\<rparr>) \<and>
    (\<exists>ks. map fst (VntApi_stream_all (v\<lparr>vi_world := w\<rparr>)) = map show_ipv4 ks \<and> sorted_wrt (<) ks \<and>
      set ks = {ip. \<exists>m. (cx_up_meter w = Some m \<or> cx_down_meter w = Some m) \<and> ip \<in> fst ` set (mm_meters m)})"
proof -
  have "meters_sound (vi_world v)" using assms(1) new_device_meters by (auto simp: VntInner_new_def split: sum.splits prod.splits)
  from meters_frame.reaches_keeps[OF assms(2) _ this] have "meters_sound w" by simp
  then show ?thesis using listing_sums[of "v\<lparr>vi_world := w\<rparr>"] listing_keys[of "v\<lparr>vi_world := w\<rparr>"] by auto
qed

lemma stream_all_accounts_witness:
  "\<exists>C' v. VntInner_new plain_crypto sample_os sample_conf (w_ip_proxy sample_world) sample_config = Inr (C', v) \<and>
     sum_list (map (fst \<circ> snd) (VntApi_stream_all v)) = VntInner_up_stream v"
proof -
  obtain C' v where v: "VntInner_new plain_crypto sample_os sample_conf (w_ip_proxy sample_world) sample_config = Inr (C', v)"
    using sample_start[of sample_conf "w_ip_proxy sample_world"] by (auto simp: VntInner_new_def)
  from stream_all_accounts[OF v reaches_refl] v show ?thesis by auto
qed

section \<open>Stopping\<close>

text \<open>
  \<open>stop\<close> cuts the handle off at once: no query about routes is answered any more, every listener registered so far
  has been called, exactly once by this stop and in their order, no further one can be added, and stopping again calls nobody.
\<close>

theorem stop_cuts_off:
  "VntInner_route_table (VntInner_stop t v) = [] \<and> VntInner_route (VntInner_stop t v) ip = None \<and>
   VntInner_route_key (VntInner_stop t v) k = None \<and>
   sp_log (vi_stopper (VntInner_stop t v)) = sp_log (vi_stopper v) @ map (\<lambda>(_, f). Called f) (sp_listeners (vi_stopper v)) \<and>
   (\<exists>e. VntInner_add_stop_listener name (VntInner_stop t v) = Inl e) \<and>
   sp_log (vi_stopper (VntInner_stop t' (VntInner_stop t v))) = sp_log (vi_stopper (VntInner_stop t v))"
  by (simp add: VntInner_route_table_def VntInner_stop_def VntInner_route_def VntInner_route_key_def advance_def begin_op_def goto_def
      drain_listeners_def logged_def after_stop_def VntInner_add_stop_listener_def StopManager_add_listener_def mapE_def bindE_def)

end
