(* ===== verification/Commands.thy ===== *)
theory Commands
  imports Vnt_Handle "HOL-Library.Sublist"
begin

text \<open>
  Asking a running instance (\<^verbatim>\<open>common/src/command\<close>): the views of its state (\<^verbatim>\<open>mod.rs\<close>, \<^verbatim>\<open>entity.rs\<close>), the server that
  answers datagrams on the loopback interface (\<^verbatim>\<open>server.rs\<close>) and the requests of a second process (\<^verbatim>\<open>client.rs\<close>). A text that
  arrives is a list of Unicode scalar values, decoded from UTF-8 as the standard library does. Answers are values; their form as
  YAML and the tables that are printed are not modelled.
\<close>

section \<open>Texts from outside\<close>

definition cont :: "nat \<Rightarrow> bool" where "cont b \<longleftrightarrow> 128 \<le> b \<and> b < 192"

fun utf8_decode :: "nat list \<Rightarrow> nat list option" where
  "utf8_decode [] = Some []"
| "utf8_decode (a # bs) =
     (if a < 128 then map_option ((#) a) (utf8_decode bs)
      else case bs of [] \<Rightarrow> None | b # bs \<Rightarrow>
        if 0xC2 \<le> a \<and> a < 0xE0 \<and> cont b then map_option ((#) ((a - 0xC0) * 64 + (b - 128))) (utf8_decode bs)
        else case bs of [] \<Rightarrow> None | c # bs \<Rightarrow>
          if 0xE0 \<le> a \<and> a < 0xF0 \<and> cont b \<and> cont c \<and> (a = 0xE0 \<longrightarrow> 0xA0 \<le> b) \<and> (a = 0xED \<longrightarrow> b < 0xA0)
          then map_option ((#) ((a - 0xE0) * 4096 + (b - 128) * 64 + (c - 128))) (utf8_decode bs)
          else case bs of [] \<Rightarrow> None | d # bs \<Rightarrow>
            if 0xF0 \<le> a \<and> a < 0xF5 \<and> cont b \<and> cont c \<and> cont d \<and> (a = 0xF0 \<longrightarrow> 0x90 \<le> b) \<and> (a = 0xF4 \<longrightarrow> b < 0x90)
            then map_option ((#) ((a - 0xF0) * 262144 + (b - 128) * 4096 + (c - 128) * 64 + (d - 128))) (utf8_decode bs)
            else None)"

text \<open>A literal, and \<open>str::trim\<close> with the white space of Unicode.\<close>

definition lit :: "string \<Rightarrow> nat list" where "lit = map of_char"

definition white_space :: "nat \<Rightarrow> bool" where
  "white_space c \<longleftrightarrow> c = 32 \<or> 9 \<le> c \<and> c \<le> 13 \<or> c \<in> {0x85, 0xA0, 0x1680, 0x2028, 0x2029, 0x202F, 0x205F, 0x3000} \<or>
     0x2000 \<le> c \<and> c \<le> 0x200A"

definition trim_text :: "nat list \<Rightarrow> nat list" where
  "trim_text s = rev (dropWhile white_space (rev (dropWhile white_space s)))"

text \<open>\<open>&s[1..]\<close> panics when the first character has more than one byte.\<close>

definition slice_1 :: "nat list \<Rightarrow> nat list res" where
  "slice_1 s = (case s of [] \<Rightarrow> Inl Panic | c # r \<Rightarrow> if c < 128 then Inr r else Inl Panic)"

definition strip_text :: "nat list \<Rightarrow> nat list \<Rightarrow> nat list option" where
  "strip_text p s = (if prefix p s then Some (drop (length p) s) else None)"

section \<open>Views\<close>

record RouteItem =
  re_destination :: string
  re_next_hop :: string
  re_metric :: string
  re_rt :: string
  re_interface :: string

record DeviceItem =
  dm_name :: string
  dm_virtual_ip :: string
  dm_nat_type :: string
  dm_public_ips :: string
  dm_local_ip :: string
  dm_ipv6 :: string
  dm_nat_traversal_type :: string
  dm_rt :: string
  dm_status :: string
  dm_client_secret :: bool
  dm_client_secret_hash :: "u8 list"
  dm_current_client_secret :: bool
  dm_current_client_secret_hash :: "u8 list"
  dm_wire_guard :: bool

record Info =
  in_name :: string
  in_virtual_ip :: string
  in_virtual_gateway :: string
  in_virtual_netmask :: string
  in_connect_status :: string
  in_relay_server :: string
  in_nat_type :: string
  in_public_ips :: string
  in_local_addr :: string
  in_ipv6_addr :: string
  in_port_mapping_list :: "(bool \<times> socket_addr \<times> string) list"
  in_in_ips :: "(u32 \<times> u32 \<times> ipv4) list"
  in_out_ips :: "(u32 \<times> u32) list"
  in_udp_listen_addr :: "string list"
  in_tcp_listen_addr :: string

record ChartA =
  ga_disable_stats :: bool
  ga_up_total :: u64
  ga_down_total :: u64
  ga_up_map :: "(ipv4 \<times> u64) list"
  ga_down_map :: "(ipv4 \<times> u64) list"

record ChartB =
  gb_disable_stats :: bool
  gb_ip :: "ipv4 option"
  gb_up_total :: u64
  gb_up_list :: "u64 list"
  gb_down_total :: u64
  gb_down_list :: "u64 list"

definition show_rt :: "i64 \<Rightarrow> string" where
  "show_rt rt = (if rt < 0 then [] else show_nat (nat rt))"

definition command_route :: "VntInner \<Rightarrow> RouteItem list" where
  "command_route v = concat (map (\<lambda>(destination, routes). map (\<lambda>r.
     \<lparr>re_destination = show_ipv4 destination,
      re_next_hop = (case VntInner_route_key v (Route_route_key r) of None \<Rightarrow> [] | Some ip \<Rightarrow> show_ipv4 ip),
      re_metric = show_nat (unat (r_metric r)), re_rt = show_rt (r_rt r),
      re_interface = (case r_protocol r of
         Conn_UDP \<Rightarrow> show_addr (r_addr r) | Conn_TCP \<Rightarrow> ''tcp@'' @ show_addr (r_addr r)
       | _ \<Rightarrow> ca_server_address_str (vi_config v))\<rparr>) routes) (VntInner_route_table v))"

definition or_none :: "string option \<Rightarrow> string" where
  "or_none s = (case s of Some t \<Rightarrow> t | None \<Rightarrow> ''None'')"

definition nat_texts :: "NatInfo option \<Rightarrow> string \<times> string \<times> string \<times> string" where
  "nat_texts n = (case n of
     Some i \<Rightarrow> (show_nat_type (ni_nat_type i), join (CHR '','') (map show_ipv4 (ni_public_ips i)),
       or_none (map_option show_ipv4 (ni_local_ipv4 i)), or_none (map_option show_ipv6 (ni_ipv6 i)))
   | None \<Rightarrow> ([], [], [], []))"

definition traversal :: "VntInner \<Rightarrow> Route option \<Rightarrow> string \<times> string" where
  "traversal v ro = (case ro of
     Some r \<Rightarrow>
       (if r_metric r = 1 then (if ConnectProtocol_is_base_tcp (r_protocol r) then ''tcp-p2p'' else ''p2p'')
        else (case VntInner_route_key v (Route_route_key r) of
            Some next_hop \<Rightarrow>
              if CurrentDeviceInfo_is_gateway (VntInner_current_device v) next_hop then ''server-relay'' else ''client-relay''
          | None \<Rightarrow> ''server-relay''), show_rt (r_rt r))
   | None \<Rightarrow> (''relay'', []))"

definition command_list :: "VntInner \<Rightarrow> DeviceItem list" where
  "command_list v = map (\<lambda>peer.
     let (nat_type, public_ips, local_ip, ipv6) = nat_texts (VntInner_peer_nat_info v (pd_virtual_ip peer));
         (nat_traversal_type, rt) = traversal v (VntInner_route v (pd_virtual_ip peer)) in
     \<lparr>dm_name = pd_name peer, dm_virtual_ip = show_ipv4 (pd_virtual_ip peer), dm_nat_type = nat_type, dm_public_ips = public_ips,
      dm_local_ip = local_ip, dm_ipv6 = ipv6, dm_nat_traversal_type = nat_traversal_type, dm_rt = rt,
      dm_status = show_peer_status (pd_status peer), dm_client_secret = pd_client_secret peer,
      dm_client_secret_hash = pd_client_secret_hash peer, dm_current_client_secret = VntInner_client_encrypt v,
      dm_current_client_secret_hash = (case VntInner_client_encrypt_hash v of Some h \<Rightarrow> h | None \<Rightarrow> []),
      dm_wire_guard = pd_wireguard peer\<rparr>) (VntInner_device_list v)"

definition command_info :: "VntInner \<Rightarrow> Info" where
  "command_info v =
     (let c = vi_config v; d = VntInner_current_device v; n = VntInner_nat_info v in
      \<lparr>in_name = VntInner_name v, in_virtual_ip = show_ipv4 (cd_virtual_ip d), in_virtual_gateway = show_ipv4 (cd_virtual_gateway d),
       in_virtual_netmask = show_ipv4 (cd_virtual_netmask d), in_connect_status = show_connect_status (VntInner_connection_status v),
       in_relay_server = (if sa_port (cd_connect_server d) = 0 then ca_server_address_str c else show_addr (cd_connect_server d)),
       in_nat_type = show_nat_type (ni_nat_type n), in_public_ips = join (CHR '','') (map show_ipv4 (ni_public_ips n)),
       in_local_addr = or_none (map_option show_ipv4 (ni_local_ipv4 n)), in_ipv6_addr = or_none (map_option show_ipv6 (ni_ipv6 n)),
       in_port_mapping_list = co_port_mapping_list c, in_in_ips = ca_in_ips c, in_out_ips = ca_out_ips c,
       in_udp_listen_addr = map (\<lambda>port. ''0.0.0.0:'' @ show_nat (unat port)) (ni_udp_ports n),
       in_tcp_listen_addr = ''0.0.0.0:'' @ show_nat (unat (ni_tcp_port n))\<rparr>)"

definition ChartA_default :: ChartA where
  "ChartA_default = \<lparr>ga_disable_stats = False, ga_up_total = 0, ga_down_total = 0, ga_up_map = [], ga_down_map = []\<rparr>"

definition unwrap_total :: "(u64 \<times> 'a list) option \<Rightarrow> u64 \<times> 'a list" where
  "unwrap_total m = (case m of Some r \<Rightarrow> r | None \<Rightarrow> (0, []))"

definition command_chart_a :: "VntInner \<Rightarrow> ChartA" where
  "command_chart_a v = (let disable_stats = \<not> ca_enable_traffic (vi_config v) in
     if disable_stats then ChartA_default\<lparr>ga_disable_stats := True\<rparr>
     else let (up_total, up_map) = unwrap_total (VntInner_up_stream_all v);
              (down_total, down_map) = unwrap_total (VntInner_down_stream_all v) in
       \<lparr>ga_disable_stats = disable_stats, ga_up_total = up_total, ga_down_total = down_total, ga_up_map = up_map,
        ga_down_map = down_map\<rparr>)"

section \<open>The traffic of one device\<close>

text \<open>
  Both iterators are advanced before their results are looked at: when the address has been used up, the
  loop ends with one more character of the input gone.
\<close>

fun match_loop :: "'a list \<Rightarrow> 'a list \<Rightarrow> bool" where
  "match_loop (ic # input_chars) (pc # ip_chars) = (if ic \<noteq> pc then False else match_loop input_chars ip_chars)"
| "match_loop (ic # input_chars) [] = (input_chars = [])"
| "match_loop [] ip_chars = True"

definition match_from_end :: "'a list \<Rightarrow> 'a list \<Rightarrow> bool" where
  "match_from_end input_str ip = match_loop (rev input_str) (rev ip)"

definition find_matching_ipv4_address :: "nat list \<Rightarrow> ipv4 list \<Rightarrow> ipv4 option" where
  "find_matching_ipv4_address input_str ip_addresses =
     List.find (\<lambda>ip. match_from_end input_str (lit (show_ipv4 ip))) ip_addresses"

definition ChartB_default :: ChartB where
  "ChartB_default = \<lparr>gb_disable_stats = False, gb_ip = None, gb_up_total = 0, gb_up_list = [], gb_down_total = 0, gb_down_list = []\<rparr>"

definition command_chart_b :: "VntInner \<Rightarrow> nat list \<Rightarrow> ChartB" where
  "command_chart_b v input_str = (let disable_stats = \<not> ca_enable_traffic (vi_config v) in
     if disable_stats then ChartB_default\<lparr>gb_disable_stats := True\<rparr>
     else let up_map = unwrap_all (VntInner_up_stream_history v); down_map = unwrap_all (VntInner_down_stream_history v) in
       case find_matching_ipv4_address input_str (all_keys up_map down_map) of
         Some ip \<Rightarrow>
           let (up_total, up_list) = or_default (0, []) up_map ip; (down_total, down_list) = or_default (0, []) down_map ip in
           \<lparr>gb_disable_stats = disable_stats, gb_ip = Some ip, gb_up_total = up_total, gb_up_list = up_list,
            gb_down_total = down_total, gb_down_list = down_list\<rparr>
       | None \<Rightarrow> ChartB_default)"

section \<open>The server\<close>

datatype answer =
    Ans_route "RouteItem list" | Ans_list "DeviceItem list" | Ans_info Info | Ans_chart_a ChartA | Ans_chart_b ChartB
  | Ans_stopped | Ans_unknown "nat list"

text \<open>What follows \<open>chart_b\<close>: nothing, which asks for the gateway, or a separator and the end of an address.\<close>

definition chart_b_answer :: "VntInner \<Rightarrow> nat list \<Rightarrow> answer res" where
  "chart_b_answer v ip =
     (if ip = [] then Inr (Ans_chart_b (command_chart_b v (lit (show_ipv4 (cd_virtual_gateway (VntInner_current_device v))))))
      else mapE (\<lambda>i. Ans_chart_b (command_chart_b v i)) (slice_1 ip))"

definition server_command :: "nat \<Rightarrow> nat list \<Rightarrow> VntInner \<Rightarrow> answer res \<times> VntInner" where
  "server_command t cmd v = (let cmd = trim_text cmd in
     if cmd = lit ''route'' then (Inr (Ans_route (command_route v)), v)
     else if cmd = lit ''list'' then (Inr (Ans_list (command_list v)), v)
     else if cmd = lit ''info'' then (Inr (Ans_info (command_info v)), v)
     else if cmd = lit ''chart_a'' then (Inr (Ans_chart_a (command_chart_a v)), v)
     else if cmd = lit ''stop'' then (Inr Ans_stopped, VntInner_stop t v)
     else (case strip_text (lit ''chart_b'') cmd of
         Some ip \<Rightarrow> (chart_b_answer v ip, v)
       | None \<Rightarrow> (Inr (Ans_unknown cmd), v)))"

text \<open>
  One round of the server: what it received (cut off at 64 bytes, the size of its buffer), the answer, and whether it goes on.
\<close>

definition CommandServer_step :: "nat \<Rightarrow> u8 list res \<Rightarrow> VntInner \<Rightarrow> (answer option \<times> bool) res \<times> VntInner" where
  "CommandServer_step t received v = (case received of
     Inl e \<Rightarrow> (Inl e, v)
   | Inr datagram \<Rightarrow> (case utf8_decode (map unat (take 64 datagram)) of
       None \<Rightarrow> (Inr (None, True), v)
     | Some cmd \<Rightarrow> (case server_command t cmd v of
           (Inl e, v) \<Rightarrow> (Inl e, v)
         | (Inr out, v) \<Rightarrow> (Inr (Some out, out \<noteq> Ans_stopped), v))))"

text \<open>The answers to a sequence of datagrams, and the error that ended the server, if one did.\<close>

fun CommandServer_start :: "nat \<Rightarrow> u8 list res list \<Rightarrow> VntInner \<Rightarrow> (answer option list \<times> err option) \<times> VntInner" where
  "CommandServer_start t [] v = (([], None), v)"
| "CommandServer_start t (r # rs) v = (case CommandServer_step t r v of
     (Inl e, v) \<Rightarrow> (([], Some e), v)
   | (Inr (out, True), v) \<Rightarrow> (case CommandServer_start t rs v of ((outs, e), v) \<Rightarrow> ((out # outs, e), v))
   | (Inr (out, False), v) \<Rightarrow> (([out], None), v))"

text \<open>The port: the usual one, else any; and what a second process finds in the file.\<close>

definition command_server_port :: "(u16 \<Rightarrow> u16 res) \<Rightarrow> u16 res" where
  "command_server_port bind = (case bind 39271 of Inr p \<Rightarrow> Inr p | Inl _ \<Rightarrow> bind 0)"

definition save_port :: "u16 \<Rightarrow> string" where
  "save_port port = show_nat (unat port)"

definition read_command_port :: "string option \<Rightarrow> u16 res" where
  "read_command_port file = (case file of
     None \<Rightarrow> Inl (Io NotFound [])
   | Some t \<Rightarrow> (case parse_u16 t of Some p \<Rightarrow> Inr (of_nat p) | None \<Rightarrow> Inl (Io OtherKind [])))"

definition client_port :: "string option \<Rightarrow> u16" where
  "client_port file = (case read_command_port file of Inr p \<Rightarrow> p | Inl _ \<Rightarrow> 39271)"

section \<open>The client\<close>

fun request_text :: "CommandEnum \<Rightarrow> string" where
  "request_text Cmd_Route = ''route''"
| "request_text Cmd_List = ''list''"
| "request_text Cmd_All = ''list''"
| "request_text Cmd_Info = ''info''"
| "request_text Cmd_ChartA = ''chart_a''"
| "request_text (Cmd_ChartB i) = (if i = [] then ''chart_b'' else ''chart_b:'' @ i)"
| "request_text Cmd_Stop = ''stop''"

definition command_request :: "CommandEnum \<Rightarrow> u8 list" where
  "command_request c = map of_char (request_text c)"

section \<open>The console\<close>

text \<open>
  A line typed at the running program: what is printed, and whether the console goes on. \<open>lower s i\<close> is the lower-case form of
  the character at position \<open>i\<close>, beyond ASCII; it depends on the neighbours.
\<close>

definition lower_text :: "(nat list \<Rightarrow> nat \<Rightarrow> nat list) \<Rightarrow> nat list \<Rightarrow> nat list" where
  "lower_text lower s = concat (map (\<lambda>i. let c = s ! i in
     if c < 128 then [if 65 \<le> c \<and> c \<le> 90 then c + 32 else c] else lower s i) [0..<length s])"

definition command_str :: "(nat list \<Rightarrow> nat \<Rightarrow> nat list) \<Rightarrow> nat \<Rightarrow> nat list \<Rightarrow> VntInner \<Rightarrow> (answer option \<times> bool) res \<times> VntInner" where
  "command_str lower t cmd v =
     (if cmd = [] then (Inr (None, False), v)
      else let cmd = trim_text (lower_text lower cmd) in
        if cmd = lit ''list'' then (Inr (Some (Ans_list (command_list v)), True), v)
        else if cmd = lit ''info'' then (Inr (Some (Ans_info (command_info v)), True), v)
        else if cmd = lit ''route'' then (Inr (Some (Ans_route (command_route v)), True), v)
        else if cmd = lit ''all'' then (Inr (Some (Ans_list (command_list v)), True), v)
        else if cmd = lit ''chart_a'' then (Inr (Some (Ans_chart_a (command_chart_a v)), True), v)
        else if cmd = lit ''stop'' then (Inr (None, False), VntInner_stop t v)
        else (case strip_text (lit ''chart_b'') cmd of
            Some ip \<Rightarrow> (mapE (\<lambda>a. (Some a, True)) (chart_b_answer v ip), v)
          | None \<Rightarrow> (Inr (None, True), v)))"

section \<open>Properties\<close>

lemma match_loop_iff: "match_loop i p \<longleftrightarrow> prefix i p \<or> (\<exists>c. i = p @ [c])"
  by (induction i p rule: match_loop.induct) auto

lemma match_from_end_iff: "match_from_end i p \<longleftrightarrow> suffix i p \<or> (\<exists>c. i = c # p)"
proof -
  have "rev i = rev p @ [c] \<longleftrightarrow> i = c # p" for c by (metis rev.simps(2) rev_rev_ident)
  then show ?thesis by (simp add: match_from_end_def match_loop_iff suffix_to_prefix)
qed

text \<open>
  Which device \<open>chart_b\<close> shows: with traffic counted, the first address in ascending order whose text ends with the input, or whose
  text is the input without its first character, whatever that is, since the comparison swallows one character too many. So
  asking for 110.26.0.2 shows the traffic of 10.26.0.2 when both exist.
\<close>

theorem chart_b_device:
  "gb_ip (command_chart_b v input) = (if ca_enable_traffic (vi_config v)
     then List.find (\<lambda>ip. suffix input (lit (show_ipv4 ip)) \<or> (\<exists>c. input = c # lit (show_ipv4 ip)))
       (all_keys (unwrap_all (VntInner_up_stream_history v)) (unwrap_all (VntInner_down_stream_history v)))
     else None) \<and>
   find_matching_ipv4_address (lit ''110.26.0.2'') [Ipv4Addr_new 10 26 0 2, Ipv4Addr_new 110 26 0 2] = Some (Ipv4Addr_new 10 26 0 2)"
proof -
  have f: "List.find (\<lambda>ip. match_from_end i (lit (show_ipv4 ip))) ks =
      List.find (\<lambda>ip. suffix i (lit (show_ipv4 ip)) \<or> (\<exists>c. i = c # lit (show_ipv4 ip))) ks" for i ks
    by (simp add: match_from_end_iff)
  have "match_from_end (lit ''110.26.0.2'') (lit (show_ipv4 (Ipv4Addr_new 10 26 0 2)))"
    by (code_simp)
  then have "find_matching_ipv4_address (lit ''110.26.0.2'') [Ipv4Addr_new 10 26 0 2, Ipv4Addr_new 110 26 0 2] =
      Some (Ipv4Addr_new 10 26 0 2)"
    by (simp add: find_matching_ipv4_address_def)
  then show ?thesis
    by (auto simp: command_chart_b_def f[symmetric] find_matching_ipv4_address_def ChartB_default_def Let_def split_beta split: option.split)
qed

lemma strip_text_Some: "strip_text p s = Some r \<longleftrightarrow> s = p @ r"
  by (auto simp: strip_text_def prefix_def)

lemma strip_text_append [simp]: "strip_text p (p @ r) = Some r"
  by (simp add: strip_text_Some)

lemma chart_b_other: "lit ''chart_b'' @ r \<notin> {lit ''route'', lit ''list'', lit ''info'', lit ''chart_a'', lit ''stop'', lit ''all''}"
  by (simp add: lit_def)

lemma server_command_chart:
  assumes "trim_text cs = lit ''chart_b'' @ r"
  shows "server_command t cs v = (chart_b_answer v r, v)"
  using chart_b_other[of r] by (simp add: server_command_def Let_def assms)

lemma server_command_ok:
  assumes "\<And>r. trim_text cs \<noteq> lit ''chart_b'' @ r"
  shows "\<exists>a w. server_command t cs v = (Inr a, w)"
proof -
  have "strip_text (lit ''chart_b'') (trim_text cs) = None"
    using assms by (metis strip_text_Some not_None_eq)
  then show ?thesis by (simp add: server_command_def Let_def)
qed

lemma chart_b_answer_panics: "chart_b_answer v ip = Inl Panic \<longleftrightarrow> (\<exists>c r. ip = c # r \<and> 128 \<le> c)"
  by (cases ip) (auto simp: chart_b_answer_def slice_1_def mapE_def bindE_def)

lemma server_command_panics:
  "fst (server_command t cs v) = Inl Panic \<longleftrightarrow> (\<exists>c r. trim_text cs = lit ''chart_b'' @ c # r \<and> 128 \<le> c)"
proof (cases "\<exists>r. trim_text cs = lit ''chart_b'' @ r")
  case True
  then obtain r where "trim_text cs = lit ''chart_b'' @ r" by blast
  then show ?thesis by (simp add: server_command_chart chart_b_answer_panics)
next
  case False
  with server_command_ok[of cs t v] show ?thesis by auto
qed

lemma step_panics: "fst (CommandServer_step t (Inr d) v) = Inl Panic \<longleftrightarrow>
    (\<exists>cs. utf8_decode (map unat (take 64 d)) = Some cs \<and> fst (server_command t cs v) = Inl Panic)"
  by (simp add: CommandServer_step_def split_beta split: option.split sum.split)

text \<open>
  A datagram can abort the program: whatever arrives at the command server, the round panics exactly when the text is valid
  UTF-8 and reads, without white space around it, \<open>chart_b\<close> followed by a character beyond ASCII, which the slice after the separator
  then cuts in two.
\<close>

theorem command_server_panics:
  "fst (CommandServer_step t (Inr datagram) v) = Inl Panic \<longleftrightarrow>
    (\<exists>cs c r. utf8_decode (map unat (take 64 datagram)) = Some cs \<and> trim_text cs = lit ''chart_b'' @ c # r \<and> 128 \<le> c)"
  by (auto simp: step_panics server_command_panics)

lemma crash_datagram: "fst (CommandServer_step t (Inr (map of_char ''chart_b'' @ [0xC3, 0xA9])) v) = Inl Panic"
proof -
  have "utf8_decode (map unat (take 64 (map of_char ''chart_b'' @ [0xC3, 0xA9 :: u8]))) = Some (lit ''chart_b'' @ [233])"
    by (simp add: cont_def lit_def)
  moreover have "trim_text (lit ''chart_b'' @ [233]) = lit ''chart_b'' @ [233]" by (simp add: trim_text_def lit_def white_space_def)
  ultimately show ?thesis unfolding step_panics server_command_panics by (intro exI[of _ "lit ''chart_b'' @ [233]"]) auto
qed

lemma ascii_decode: "\<forall>b\<in>set bs. b < 128 \<Longrightarrow> utf8_decode bs = Some bs"
  by (induction bs) simp_all

text \<open>A request of which the whole text arrives: short enough, ASCII, and not ending in white space.\<close>

definition plain_request :: "CommandEnum \<Rightarrow> bool" where
  "plain_request c \<longleftrightarrow> length (request_text c) \<le> 64 \<and> (\<forall>x\<in>set (lit (request_text c)). x < 128) \<and>
     \<not> white_space (last (lit (request_text c)))"

lemma trim_id: "s \<noteq> [] \<Longrightarrow> \<not> white_space (hd s) \<Longrightarrow> \<not> white_space (last s) \<Longrightarrow> trim_text s = s"
  by (metis trim_text_def dropWhile_eq_self_iff hd_rev rev_rev_ident)

lemma request_head: "request_text c \<noteq> [] \<and> \<not> white_space (hd (lit (request_text c)))"
  by (cases c) (simp_all add: lit_def white_space_def)

lemma request_received:
  assumes "plain_request c"
  shows "utf8_decode (map unat (take 64 (command_request c))) = Some (lit (request_text c)) \<and>
    trim_text (lit (request_text c)) = lit (request_text c)"
proof -
  have "unat (of_char x :: u8) = of_char x" for x :: char
    using of_nat_of_char[of x, where 'a = u8] nat_of_char_less_256[of x] unfolding of_nat_of_char[symmetric, where ?'a = u8] by (simp add: unat_of_nat)
  then have "map unat (command_request c) = lit (request_text c)" by (simp add: command_request_def lit_def)
  moreover have "take 64 (command_request c) = command_request c"
    using assms by (simp add: command_request_def plain_request_def)
  moreover have "lit (request_text c) \<noteq> []" using request_head[of c] by (simp add: lit_def)
  ultimately show ?thesis using assms ascii_decode[of "lit (request_text c)"] trim_id[of "lit (request_text c)"] request_head[of c]
    by (simp add: plain_request_def)
qed

text \<open>What the running instance itself would say.\<close>

fun answer_of :: "VntInner \<Rightarrow> CommandEnum \<Rightarrow> answer" where
  "answer_of v Cmd_Route = Ans_route (command_route v)"
| "answer_of v Cmd_List = Ans_list (command_list v)"
| "answer_of v Cmd_All = Ans_list (command_list v)"
| "answer_of v Cmd_Info = Ans_info (command_info v)"
| "answer_of v Cmd_ChartA = Ans_chart_a (command_chart_a v)"
| "answer_of v (Cmd_ChartB i) = Ans_chart_b (command_chart_b v
     (lit (if i = [] then show_ipv4 (cd_virtual_gateway (VntInner_current_device v)) else i)))"
| "answer_of v Cmd_Stop = Ans_stopped"

lemma answer_plain:
  assumes "trim_text (lit (request_text c)) = lit (request_text c)"
  shows "server_command t (lit (request_text c)) v = (Inr (answer_of v c), if c = Cmd_Stop then VntInner_stop t v else v)"
proof (cases c)
  case (Cmd_ChartB i)
  obtain r where r: "lit (request_text c) = lit ''chart_b'' @ r" "r = (if i = [] then [] else 58 # lit i)"
    using Cmd_ChartB by (auto simp: lit_def)
  with assms have "server_command t (lit (request_text c)) v = (chart_b_answer v r, v)" by (simp add: server_command_chart)
  with r(2) Cmd_ChartB show ?thesis by (simp add: chart_b_answer_def slice_1_def mapE_def)
qed (use assms in \<open>simp_all add: server_command_def, simp_all add: lit_def\<close>)



end
