(* ===== verification/Port_Mapping.thy ===== *)
theory Port_Mapping
  imports Traffic_Limits
begin

text \<open>
  Port mapping, \<^verbatim>\<open>vnt/src/port_mapping\<close>: UDP datagrams that arrive at a local port are passed on to a destination over
  a socket of their own per source, whose replies go back to that source (\<^verbatim>\<open>udp_mapping.rs\<close>); TCP connections are accepted
  and joined with a connection to the destination (\<^verbatim>\<open>tcp_mapping.rs\<close>). The tasks of the asynchronous runtime interleave at every
  access to the shared table and at every operation of a socket, of which each is a step with an arbitrary outcome. Reading the
  mappings is under \<open>Settings\<close>, the thread under \<open>Startup\<close>.
\<close>

section \<open>UDP: state\<close>

text \<open>A session is a number; its task waits for a reply since some time, has left its loop, or has ended.\<close>

datatype session_task = Unborn | Awaiting nat | Leaving | Gone

text \<open>The receiving loop: in \<open>recv_from\<close>, opening a session, or with a session found, before and after setting its time.\<close>

datatype mapping_pc =
    Receiving | Opening socket_addr "u8 list" | Found socket_addr nat "u8 list" | Stored socket_addr nat "u8 list"

text \<open>
  The table of sessions, the source and the time of each (\<open>src_addr\<close> of its task and the shared cell), and what was sent
  over which session: to the destination for which source, and back to which source.
\<close>

record mapping =
  um_map :: "(socket_addr \<times> nat) list"
  um_src :: "nat \<Rightarrow> socket_addr"
  um_time :: "nat \<Rightarrow> nat"
  um_task :: "nat \<Rightarrow> session_task"
  um_next :: nat
  um_now :: nat
  um_pc :: mapping_pc
  um_sent :: "(nat \<times> socket_addr \<times> u8 list) list"
  um_back :: "(nat \<times> socket_addr \<times> u8 list) list"

definition udp_mapping :: "nat \<Rightarrow> mapping" where
  "udp_mapping now = \<lparr>um_map = [], um_src = (\<lambda>_. SockV4 0 0), um_time = (\<lambda>_. 0), um_task = (\<lambda>_. Unborn), um_next = 0,
     um_now = now, um_pc = Receiving, um_sent = [], um_back = []\<rparr>"

definition REPLY_TIMEOUT :: nat where "REPLY_TIMEOUT = 600 * NANOS"
definition SESSION_IDLE :: nat where "SESSION_IDLE = 580 * NANOS"

section \<open>UDP: steps\<close>

definition look_up :: "socket_addr \<Rightarrow> u8 list \<Rightarrow> mapping \<Rightarrow> mapping" where
  "look_up src buf s = (case map_of (um_map s) src of
     Some k \<Rightarrow> s\<lparr>um_pc := Found src k buf\<rparr> | None \<Rightarrow> s\<lparr>um_pc := Opening src buf\<rparr>)"

text \<open>The new socket has been connected and has sent the first datagram; then it is entered and its task spawned.\<close>

definition open_session :: "socket_addr \<Rightarrow> u8 list \<Rightarrow> mapping \<Rightarrow> mapping" where
  "open_session src buf s = (let k = um_next s in
     s\<lparr>um_map := AList.update src k (um_map s), um_src := (um_src s)(k := src), um_time := (um_time s)(k := um_now s),
       um_task := (um_task s)(k := Awaiting (um_now s)), um_next := k + 1, um_pc := Receiving,
       um_sent := um_sent s @ [(k, src, buf)]\<rparr>)"

definition set_task :: "nat \<Rightarrow> session_task \<Rightarrow> mapping \<Rightarrow> mapping" where
  "set_task k t s = s\<lparr>um_task := (um_task s)(k := t)\<rparr>"

definition session_reply :: "nat \<Rightarrow> u8 list \<Rightarrow> mapping \<Rightarrow> mapping" where
  "session_reply k buf s = set_task k (Awaiting (um_now s)) (s\<lparr>um_back := um_back s @ [(k, um_src s k, buf)]\<rparr>)"

definition session_timeout :: "nat \<Rightarrow> mapping \<Rightarrow> mapping" where
  "session_timeout k s = set_task k (if um_now s - um_time s k > SESSION_IDLE then Leaving else Awaiting (um_now s)) s"

definition session_remove :: "nat \<Rightarrow> mapping \<Rightarrow> mapping" where
  "session_remove k s = set_task k Gone (s\<lparr>um_map := AList.delete (um_src s k) (um_map s)\<rparr>)"

inductive mapping_step :: "mapping \<Rightarrow> mapping \<Rightarrow> bool" where
  passes: "mapping_step s (s\<lparr>um_now := um_now s + d\<rparr>)"
| receives: "um_pc s = Receiving \<Longrightarrow> mapping_step s (look_up src buf s)"
| opens: "um_pc s = Opening src buf \<Longrightarrow> mapping_step s (open_session src buf s)"
| not_opened: "um_pc s = Opening src buf \<Longrightarrow> mapping_step s (s\<lparr>um_pc := Receiving\<rparr>)"
| stores: "um_pc s = Found src k buf \<Longrightarrow> mapping_step s (s\<lparr>um_time := (um_time s)(k := um_now s), um_pc := Stored src k buf\<rparr>)"
| sends: "um_pc s = Stored src k buf \<Longrightarrow>
    mapping_step s (s\<lparr>um_sent := um_sent s @ [(k, src, buf)], um_pc := Receiving\<rparr>)"
| not_sent: "um_pc s = Stored src k buf \<Longrightarrow> mapping_step s (s\<lparr>um_pc := Receiving\<rparr>)"
| replies: "um_task s k = Awaiting t \<Longrightarrow> mapping_step s (session_reply k buf s)"
| fails: "um_task s k = Awaiting t \<Longrightarrow> mapping_step s (set_task k Leaving s)"
| times_out: "um_task s k = Awaiting t \<Longrightarrow> t + REPLY_TIMEOUT \<le> um_now s \<Longrightarrow> mapping_step s (session_timeout k s)"
| removes: "um_task s k = Leaving \<Longrightarrow> mapping_step s (session_remove k s)"

inductive mapping_steps :: "mapping \<Rightarrow> mapping \<Rightarrow> bool" where
  no_step: "mapping_steps s s"
| more_steps: "mapping_steps s s' \<Longrightarrow> mapping_step s' s'' \<Longrightarrow> mapping_steps s s''"

section \<open>TCP\<close>

text \<open>
  The connections that arrive, or the error of \<open>accept\<close>: those that are served, each by a task of its own, and the error that ended the
  loop, after which nobody accepts any more.
\<close>

fun tcp_mapping_loop :: "'a res list \<Rightarrow> 'a list \<times> err option" where
  "tcp_mapping_loop [] = ([], None)"
| "tcp_mapping_loop (Inl e # rs) = ([], Some e)"
| "tcp_mapping_loop (Inr c # rs) = (case tcp_mapping_loop rs of (cs, e) \<Rightarrow> (c # cs, e))"

section \<open>Facts\<close>

definition live :: "mapping \<Rightarrow> nat \<Rightarrow> bool" where
  "live s k \<longleftrightarrow> um_task s k = Leaving \<or> (\<exists>t. um_task s k = Awaiting t)"

text \<open>The table holds exactly the live sessions, each under its source; whatever was sent over a session belongs to its source.\<close>

definition mapping_inv :: "mapping \<Rightarrow> bool" where
  "mapping_inv s \<longleftrightarrow>
     (\<forall>src k. map_of (um_map s) src = Some k \<longleftrightarrow> live s k \<and> um_src s k = src) \<and>
     (\<forall>k. um_next s \<le> k \<longrightarrow> um_task s k = Unborn) \<and>
     (\<forall>x \<in> set (um_sent s @ um_back s). fst x < um_next s \<and> um_src s (fst x) = fst (snd x)) \<and>
     (case um_pc s of Receiving \<Rightarrow> True | Opening src _ \<Rightarrow> map_of (um_map s) src = None
      | Found src k _ \<Rightarrow> k < um_next s \<and> um_src s k = src | Stored src k _ \<Rightarrow> k < um_next s \<and> um_src s k = src)"

lemmas mapping_ops = look_up_def open_session_def set_task_def session_reply_def session_timeout_def session_remove_def Let_def

lemma udp_mapping_inv: "mapping_inv (udp_mapping now)"
  by (simp add: mapping_inv_def udp_mapping_def live_def)

lemma set_task_inv:
  assumes "mapping_inv s" "live s k" "t = Leaving \<or> (\<exists>n. t = Awaiting n)"
  shows "mapping_inv (set_task k t s)"
proof -
  have "live (set_task k t s) j = live s j" for j using assms(2,3) by (auto simp: live_def set_task_def)
  moreover have "\<not> um_next s \<le> k" using assms(1,2) by (auto simp: mapping_inv_def live_def)
  ultimately show ?thesis using assms(1) by (auto simp: mapping_inv_def set_task_def split: mapping_pc.splits)
qed

lemma live_once:
  assumes "mapping_inv s" "live s j" "live s k" "um_src s j = um_src s k"
  shows "j = k"
proof -
  have "map_of (um_map s) (um_src s k) = Some j" "map_of (um_map s) (um_src s k) = Some k"
    using assms by (simp_all add: mapping_inv_def)
  then show ?thesis by simp
qed

lemma live_known: "mapping_inv s \<Longrightarrow> live s k \<Longrightarrow> k < um_next s"
  by (metis live_def mapping_inv_def not_less session_task.distinct(1,3))

lemma open_session_inv:
  assumes "mapping_inv s" "um_pc s = Opening src buf"
  shows "mapping_inv (open_session src buf s)"
proof -
  have k: "\<not> live s (um_next s)" using assms(1) by (simp add: mapping_inv_def live_def)
  have l: "live (open_session src buf s) j \<longleftrightarrow> j = um_next s \<or> live s j" for j
    by (auto simp: live_def open_session_def Let_def)
  have m: "map_of (um_map s) src = None" using assms by (simp add: mapping_inv_def)
  with assms(1) have "live s j \<Longrightarrow> um_src s j \<noteq> src" for j unfolding mapping_inv_def by (metis option.distinct(1))
  moreover have "\<forall>x \<in> set (um_sent s @ um_back s). fst x \<noteq> um_next s" using assms(1) unfolding mapping_inv_def by (metis less_irrefl)
  ultimately show ?thesis
    using k m assms(1) unfolding mapping_inv_def l
    by (auto simp: open_session_def Let_def update_conv' less_Suc_eq split: if_splits)
qed

lemma session_remove_inv:
  assumes "mapping_inv s" "live s k"
  shows "mapping_inv (session_remove k s)"
proof -
  have l: "live (session_remove k s) j \<longleftrightarrow> j \<noteq> k \<and> live s j" for j
    by (auto simp: live_def session_remove_def set_task_def)
  note live_once[OF assms(1) _ assms(2)] live_known[OF assms]
  with assms(1) show ?thesis
    unfolding mapping_inv_def l
    by (auto simp: session_remove_def set_task_def delete_conv' split: mapping_pc.splits)
qed

lemma session_reply_inv:
  assumes "mapping_inv s" "live s k"
  shows "mapping_inv (session_reply k buf s)"
proof -
  have "live (s\<lparr>um_back := l\<rparr>) j = live s j" for l j by (simp add: live_def)
  then have "mapping_inv (s\<lparr>um_back := um_back s @ [(k, um_src s k, buf)]\<rparr>)"
    using assms live_known[OF assms] by (simp add: mapping_inv_def split: mapping_pc.splits)
  then show ?thesis using assms(2) unfolding session_reply_def by (intro set_task_inv) (auto simp: live_def)
qed

lemma live_update [simp]: "live (s\<lparr>um_pc := p\<rparr>) k = live s k" "live (s\<lparr>um_now := n\<rparr>) k = live s k"
  "live (s\<lparr>um_time := f\<rparr>) k = live s k" "live (s\<lparr>um_sent := l\<rparr>) k = live s k"
  by (simp_all add: live_def)

lemma step_inv: "mapping_step s s' \<Longrightarrow> mapping_inv s \<Longrightarrow> mapping_inv s'"
proof (induction rule: mapping_step.induct)
  case (receives s src buf)
  have "k < um_next s \<and> um_src s k = src" if "map_of (um_map s) src = Some k" for k
    using that receives.prems live_known by (auto simp: mapping_inv_def)
  with receives show ?case by (auto simp: look_up_def mapping_inv_def split: option.split)
next
  case (opens s src buf)
  then show ?case by (rule open_session_inv[rotated])
next
  case (replies s k t buf)
  then show ?case by (intro session_reply_inv) (auto simp: live_def)
next
  case (fails s k t)
  then show ?case by (intro set_task_inv) (auto simp: live_def)
next
  case (times_out s k t)
  then show ?case unfolding session_timeout_def by (intro set_task_inv) (auto simp: live_def)
next
  case (removes s k)
  then show ?case by (intro session_remove_inv) (auto simp: live_def)
qed (auto simp: mapping_inv_def split: mapping_pc.splits)

lemma steps_inv: "mapping_steps s s' \<Longrightarrow> mapping_inv s \<Longrightarrow> mapping_inv s'"
  by (induction rule: mapping_steps.induct) (auto intro: step_inv)

section \<open>Properties\<close>

text \<open>
  C19. The sessions of a mapped port are kept apart: whatever arrives, fails or times out in whatever order, at any time each
  source has at most one live session, the one the table holds for it, so that a task that ends never removes another's entry;
  and every session serves one source for good, the one whose datagrams were sent over it and to which its replies went.
\<close>

theorem mapping_sessions_isolated:
  assumes "mapping_steps (udp_mapping now) s"
  shows "(\<forall>src k. map_of (um_map s) src = Some k \<longleftrightarrow> live s k \<and> um_src s k = src) \<and>
    (\<forall>j k. live s j \<longrightarrow> live s k \<longrightarrow> um_src s j = um_src s k \<longrightarrow> j = k) \<and>
    (\<forall>(k, src, buf) \<in> set (um_sent s @ um_back s). um_src s k = src)"
proof -
  have i: "mapping_inv s" by (rule steps_inv[OF assms udp_mapping_inv])
  moreover have "\<forall>j k. live s j \<longrightarrow> live s k \<longrightarrow> um_src s j = um_src s k \<longrightarrow> j = k" using live_once[OF i] by blast
  ultimately show ?thesis unfolding mapping_inv_def by fastforce
qed

text \<open>A session whose last datagram came in time outlives a timeout; one that has ended stays so.\<close>

lemma gone_stays: "mapping_step s s' \<Longrightarrow> mapping_inv s \<Longrightarrow> um_task s k = Gone \<Longrightarrow>
    um_task s' k = Gone \<and> filter (\<lambda>x. fst x = k) (um_back s') = filter (\<lambda>x. fst x = k) (um_back s)"
proof (induction rule: mapping_step.induct)
  case (opens s src buf)
  then have "k \<noteq> um_next s" by (auto simp: mapping_inv_def)
  with opens show ?case by (simp add: open_session_def Let_def)
qed (auto simp: look_up_def set_task_def session_reply_def session_timeout_def session_remove_def split: option.splits)

lemma gone_silent:
  assumes "mapping_steps s s'" "mapping_inv s" "um_task s k = Gone"
  shows "um_task s' k = Gone \<and> filter (\<lambda>x. fst x = k) (um_back s') = filter (\<lambda>x. fst x = k) (um_back s)"
  using assms
proof (induction rule: mapping_steps.induct)
  case (more_steps s s' s'')
  then have "mapping_inv s'" "um_task s' k = Gone" "filter (\<lambda>x. fst x = k) (um_back s') = filter (\<lambda>x. fst x = k) (um_back s)"
    by (auto dest: steps_inv)
  with gone_stays[OF more_steps.hyps(2)] show ?case by simp
qed simp

text \<open>The second datagram finds the session 600 seconds after the first one, just before its task wakes up.\<close>

lemma late_run: "\<exists>s. mapping_steps (udp_mapping 0) s \<and> um_task s 0 = Gone \<and> um_sent s = [(0, src, b), (0, src, c)] \<and>
    um_back s = [] \<and> um_map s = []"
proof -
  define s1 where "s1 = look_up src b (udp_mapping 0)"
  define s2 where "s2 = open_session src b s1"
  define s3 where "s3 = s2\<lparr>um_now := um_now s2 + REPLY_TIMEOUT\<rparr>"
  define s4 where "s4 = look_up src c s3"
  define s5 where "s5 = session_timeout 0 s4"
  define s6 where "s6 = session_remove 0 s5"
  define s7 where "s7 = s6\<lparr>um_time := (um_time s6)(0 := um_now s6), um_pc := Stored src 0 c\<rparr>"
  define s8 where "s8 = s7\<lparr>um_sent := um_sent s7 @ [(0, src, c)], um_pc := Receiving\<rparr>"
  note defs = s1_def s2_def s3_def s4_def s5_def s6_def s7_def s8_def mapping_ops udp_mapping_def REPLY_TIMEOUT_def SESSION_IDLE_def
  have "mapping_step (udp_mapping 0) s1" unfolding s1_def by (rule receives) (simp add: udp_mapping_def)
  moreover have "mapping_step s1 s2" unfolding s2_def by (rule opens) (simp add: defs)
  moreover have "mapping_step s2 s3" unfolding s3_def by (rule passes)
  moreover have "mapping_step s3 s4" unfolding s4_def by (rule receives) (simp add: defs)
  moreover have "mapping_step s4 s5" unfolding s5_def by (rule times_out[of _ _ 0]) (simp_all add: defs)
  moreover have "mapping_step s5 s6" unfolding s6_def by (rule removes) (simp add: defs NANOS_def)
  moreover have "mapping_step s6 s7" unfolding s7_def by (rule stores) (simp add: defs)
  moreover have "mapping_step s7 s8" unfolding s8_def by (rule sends) (simp add: defs)
  ultimately have "mapping_steps (udp_mapping 0) s8" by (meson no_step more_steps)
  moreover have "um_task s8 0 = Gone \<and> um_sent s8 = [(0, src, b), (0, src, c)] \<and> um_back s8 = [] \<and> um_map s8 = []"
    by (simp add: defs)
  ultimately show ?thesis by blast
qed

text \<open>
  A datagram can get lost in a dying session, and with it the answer: for every source and any two datagrams there is a run in which
  the second one is found to belong to a session whose task then times out, is sent over that session nevertheless, and
  whatever happens from there on, no reply of the session is ever passed back.
\<close>

theorem late_datagram_unanswered:
  "\<exists>s. mapping_steps (udp_mapping 0) s \<and> um_sent s = [(0, src, b), (0, src, c)] \<and> um_map s = [] \<and> um_back s = [] \<and>
     \<not> (\<exists>s'. mapping_steps s s' \<and> 0 \<in> fst ` set (um_back s'))"
proof -
  obtain s where s: "mapping_steps (udp_mapping 0) s" "um_task s 0 = Gone" "um_sent s = [(0, src, b), (0, src, c)]"
    "um_back s = []" "um_map s = []" using late_run by blast
  have "mapping_inv s" using s(1) steps_inv udp_mapping_inv by blast
  with s gone_silent[of s _ 0] show ?thesis by (intro exI[of _ s]) (fastforce simp: filter_empty_conv)
qed

lemma mapping_sessions_isolated_witness:
  "\<exists>s. mapping_steps (udp_mapping 0) s \<and> um_sent s \<noteq> [] \<and> (\<forall>src k. map_of (um_map s) src = Some k \<longleftrightarrow> live s k \<and> um_src s k = src)"
proof -
  obtain s where s: "mapping_steps (udp_mapping 0) s" "um_sent s = [(0, SockV4 1 2, [1]), (0, SockV4 1 2, [2])]"
    using late_run by blast
  from mapping_sessions_isolated[OF s(1)] s show ?thesis by (intro exI[of _ s]) simp
qed

text \<open>One connection that could not be accepted ends the mapping.\<close>

lemma tcp_mapping_ends: "tcp_mapping_loop (map Inr cs @ Inl e # rs) = (cs, Some e)"
  by (induction cs) simp_all

end
