(* ===== verification/Device_Thread.thy ===== *)
theory Device_Thread
  imports World
begin

text \<open>
  The virtual network device and the thread that reads it: creating a device (\<^verbatim>\<open>vnt/src/tun_tap_device/create_device.rs\<close>), the
  switch that stops its reader (\<open>DeviceStop\<close> of \<^verbatim>\<open>vnt/src/handle/tun_tap/mod.rs\<close>), the reader (\<^verbatim>\<open>tun_tap/unix.rs\<close>,
  \<^verbatim>\<open>windows.rs\<close>) and the helper that replaces the device (\<^verbatim>\<open>tun_tap_device/tun_create_helper.rs\<close>). \<open>World\<close> uses the
  helper's operations as single steps and assumes that the reader stops; here reader, helper and stop manager interleave.
  That a woken reader leaves its loop holds where a read that finds nothing returns; \<open>Unix_Device\<close> shows that it does not on iOS.
\<close>

section \<open>Creating a device\<close>

text \<open>The operating system: opening a device under a name, and the calls on it.\<close>

record device_os =
  do_default_name :: "string option"
  do_open :: "string option \<Rightarrow> unit res"
  do_set_mtu :: "u32 \<Rightarrow> unit res"
  do_set_ip :: "ipv4 \<Rightarrow> ipv4 \<Rightarrow> unit res"
  do_add_route :: "ipv4 \<Rightarrow> ipv4 \<Rightarrow> unit res"

text \<open>What was done to the new device, in order.\<close>

datatype device_call = Dev_open "string option" | Dev_mtu u32 | Dev_ip ipv4 ipv4 | Dev_route ipv4 ipv4 bool

definition device_routes :: "DeviceConfig \<Rightarrow> (ipv4 \<times> ipv4) list" where
  "device_routes c = [(dc_virtual_network c, dc_virtual_netmask c), (Ipv4_BROADCAST, Ipv4_BROADCAST),
     (Ipv4Addr_new 224 0 0 0, Ipv4Addr_new 240 0 0 0)] @ dc_external_route c"

definition create_device0 :: "device_os \<Rightarrow> string option \<Rightarrow> DeviceConfig \<Rightarrow> unit res \<times> device_call list" where
  "create_device0 D device_name c =
     (let name = (case device_name of Some n \<Rightarrow> Some n | None \<Rightarrow> do_default_name D) in
      case do_open D name of
        Inl e \<Rightarrow> (Inl e, [])
      | Inr _ \<Rightarrow> (case do_set_mtu D (dc_mtu c) of
          Inl e \<Rightarrow> (Inl e, [Dev_open name])
        | Inr _ \<Rightarrow> (Inr (), [Dev_open name, Dev_mtu (dc_mtu c)])))"

text \<open>A route that cannot be added is only logged. The texts of the errors are left out.\<close>

definition create_device :: "device_os \<Rightarrow> string option \<Rightarrow> DeviceConfig \<Rightarrow> (ErrorInfo + unit) \<times> device_call list" where
  "create_device D device_name c = (case create_device0 D device_name c of
     (Inl e, l) \<Rightarrow> (Inl (ErrorInfo_new_msg Unknown ''create device''), l)
   | (Inr _, l) \<Rightarrow> (case do_set_ip D (dc_virtual_ip c) (dc_virtual_netmask c) of
       Inl e \<Rightarrow> (Inl (ErrorInfo_new_msg LocalIpExists ''set_ip''), l)
     | Inr _ \<Rightarrow> (Inr (), l @ [Dev_ip (dc_virtual_ip c) (dc_virtual_netmask c)] @
         map (\<lambda>(dest, mask). Dev_route dest mask (do_add_route D dest mask = Inr ())) (device_routes c))))"

section \<open>The reader's thread\<close>

text \<open>
  The reader registers its listener, sets the stop function, reads, and when it has left the loop it says so and
  takes its worker. The helper calls the stop function, sleeps and looks; the stop manager may call the listener at any time.
\<close>

datatype reader_pc = Reg | Set_fn | Reading | Say_stopped | Take_worker | Reader_done | Reader_failed

datatype helper_pc = Helper_idle | Call_stop | Look | Helper_returned

text \<open>
  \<open>DeviceStop\<close> (the function, the flag), the cell with the worker, whether the reader's poll has been woken (or its device
  shut down), whether the device is in the adapter, and who ended the worker: the helper, or the reader with \<open>stop_all\<close>.
\<close>

record device_thread =
  dt_f :: bool
  dt_stopped :: bool
  dt_worker :: bool
  dt_woken :: bool
  dt_adapter :: bool
  dt_reader :: reader_pc
  dt_helper :: helper_pc
  dt_replaced :: bool
  dt_stop_all :: bool

text \<open>After \<open>start\<close>: the device is in place and the thread has been spawned.\<close>

definition device_started :: device_thread where
  "device_started = \<lparr>dt_f = False, dt_stopped = False, dt_worker = False, dt_woken = False, dt_adapter = True, dt_reader = Reg,
     dt_helper = Helper_idle, dt_replaced = False, dt_stop_all = False\<rparr>"

text \<open>\<open>ok\<close>: the poll, its waker and the listener could be had; else \<open>start_simple\<close> returns at once.\<close>

definition reader_register :: "bool \<Rightarrow> device_thread \<Rightarrow> device_thread" where
  "reader_register ok s = (if ok then s\<lparr>dt_worker := True, dt_reader := Set_fn\<rparr> else s\<lparr>dt_reader := Reader_failed\<rparr>)"

definition set_stop_fn :: "device_thread \<Rightarrow> device_thread" where
  "set_stop_fn s = s\<lparr>dt_f := True, dt_reader := Reading\<rparr>"

definition DeviceStop_stopped :: "device_thread \<Rightarrow> device_thread" where
  "DeviceStop_stopped s = s\<lparr>dt_stopped := True, dt_reader := Take_worker\<rparr>"

definition reader_take :: "device_thread \<Rightarrow> device_thread" where
  "reader_take s = (if dt_worker s then s\<lparr>dt_worker := False, dt_stop_all := True, dt_reader := Reader_done\<rparr>
     else s\<lparr>dt_reader := Reader_done\<rparr>)"

text \<open>The function: it takes the worker, if it is there, and drops it, which calls the listener.\<close>

definition stop_fn :: "device_thread \<Rightarrow> device_thread" where
  "stop_fn s = (if dt_worker s then s\<lparr>dt_worker := False, dt_woken := True, dt_replaced := True\<rparr> else s)"

definition DeviceStop_stop :: "device_thread \<Rightarrow> device_thread" where
  "DeviceStop_stop s = (if dt_f s then stop_fn (s\<lparr>dt_f := False\<rparr>) else s)"

text \<open>With \<open>faults\<close>, reading the device may fail.\<close>

inductive device_step :: "bool \<Rightarrow> device_thread \<Rightarrow> device_thread \<Rightarrow> bool" for faults where
  registers: "dt_reader s = Reg \<Longrightarrow> device_step faults s (reader_register ok s)"
| sets_fn: "dt_reader s = Set_fn \<Longrightarrow> device_step faults s (set_stop_fn s)"
| is_woken: "dt_reader s = Reading \<Longrightarrow> dt_woken s \<Longrightarrow> device_step faults s (s\<lparr>dt_reader := Say_stopped\<rparr>)"
| read_fails: "dt_reader s = Reading \<Longrightarrow> faults \<Longrightarrow> device_step faults s (s\<lparr>dt_reader := Say_stopped\<rparr>)"
| says_stopped: "dt_reader s = Say_stopped \<Longrightarrow> device_step faults s (DeviceStop_stopped s)"
| takes: "dt_reader s = Take_worker \<Longrightarrow> device_step faults s (reader_take s)"
| manager_stops: "dt_worker s \<Longrightarrow> device_step faults s (s\<lparr>dt_woken := True\<rparr>)"
| begins: "dt_helper s = Helper_idle \<Longrightarrow> device_step faults s (s\<lparr>dt_adapter := False, dt_helper := Call_stop\<rparr>)"
| calls: "dt_helper s = Call_stop \<Longrightarrow> device_step faults s ((DeviceStop_stop s)\<lparr>dt_helper := Look\<rparr>)"
| looks: "dt_helper s = Look \<Longrightarrow> device_step faults s (s\<lparr>dt_helper := if dt_stopped s then Helper_returned else Call_stop\<rparr>)"

inductive device_reach :: "bool \<Rightarrow> device_thread \<Rightarrow> device_thread \<Rightarrow> bool" for faults s where
  dev_refl: "device_reach faults s s"
| dev_step: "device_reach faults s t \<Longrightarrow> device_step faults t u \<Longrightarrow> device_reach faults s u"

section \<open>Facts\<close>

text \<open>
  The flag says that the loop has been left; the function is there from before the first read until it is called; the worker is
  there until one of the two takes it; and a reader that nobody can wake has not been told to stop.
\<close>

definition device_inv :: "device_thread \<Rightarrow> bool" where
  "device_inv s \<longleftrightarrow> (dt_stopped s \<longleftrightarrow> dt_reader s \<in> {Take_worker, Reader_done}) \<and>
     (dt_helper s = Helper_returned \<longrightarrow> dt_stopped s) \<and> (dt_helper s = Helper_idle \<longleftrightarrow> dt_adapter s) \<and>
     (dt_worker s \<longleftrightarrow> dt_reader s \<notin> {Reg, Reader_failed} \<and> \<not> dt_replaced s \<and> \<not> dt_stop_all s) \<and>
     \<not> (dt_replaced s \<and> dt_stop_all s) \<and> (dt_reader s = Reader_done \<longrightarrow> dt_replaced s \<or> dt_stop_all s) \<and>
     (dt_stop_all s \<longrightarrow> dt_reader s = Reader_done) \<and> (dt_replaced s \<longrightarrow> dt_woken s) \<and>
     (dt_f s \<longrightarrow> dt_reader s \<notin> {Reg, Set_fn, Reader_failed}) \<and>
     (dt_reader s = Reading \<and> \<not> dt_woken s \<longrightarrow> dt_f s) \<and> (dt_replaced s \<longrightarrow> dt_reader s \<notin> {Reg, Set_fn, Reader_failed})"

lemmas device_ops = reader_register_def set_stop_fn_def DeviceStop_stopped_def reader_take_def stop_fn_def DeviceStop_stop_def

lemma device_step_inv: "device_step faults s t \<Longrightarrow> device_inv s \<Longrightarrow> device_inv t"
  by (induction rule: device_step.induct) (auto simp: device_inv_def device_ops)

lemma device_reach_inv: "device_reach faults s t \<Longrightarrow> device_inv s \<Longrightarrow> device_inv t"
  by (induction rule: device_reach.induct) (auto intro: device_step_inv)

lemma device_started_inv: "device_inv device_started"
  by (simp add: device_inv_def device_started_def)

lemma failed_stays: "device_reach faults s t \<Longrightarrow> dt_reader s = Reader_failed \<Longrightarrow> dt_reader t = Reader_failed"
proof (induction rule: device_reach.induct)
  case (dev_step t u)
  from dev_step.hyps(2) dev_step.IH[OF dev_step.prems] show ?case
    by (induction rule: device_step.induct) (auto simp: device_ops)
qed simp

lemma reach_trans: "device_reach faults t u \<Longrightarrow> device_reach faults s t \<Longrightarrow> device_reach faults s u"
  by (induction rule: device_reach.induct) (auto intro: dev_step)

lemma reach_first: "device_step faults s t \<Longrightarrow> device_reach faults t u \<Longrightarrow> device_reach faults s u"
  by (meson reach_trans dev_step dev_refl)

text \<open>\<open>stop\<close> can return without any fault.\<close>

definition returns :: "device_thread \<Rightarrow> bool" where
  "returns s \<longleftrightarrow> (\<exists>t. device_reach False s t \<and> dt_helper t = Helper_returned)"

lemma returns_step: "device_step False s t \<Longrightarrow> returns t \<Longrightarrow> returns s"
  unfolding returns_def by (meson reach_first)

lemma returns_stopped: "dt_stopped s \<Longrightarrow> dt_helper s \<in> {Call_stop, Look} \<Longrightarrow> returns s"
proof -
  have look: "returns s" if "dt_stopped s" "dt_helper s = Look" for s
    using looks[OF that(2), of False] that(1) by (auto simp: returns_def intro!: exI dev_step[OF dev_refl])
  assume s: "dt_stopped s" "dt_helper s \<in> {Call_stop, Look}"
  then consider "dt_helper s = Call_stop" | "dt_helper s = Look" by blast
  then show ?thesis
  proof cases
    case 1
    show ?thesis by (rule returns_step[OF calls[OF 1] look]) (use s(1) in \<open>simp_all add: device_ops\<close>)
  qed (use s(1) look in blast)
qed

lemma returns_woken:
  assumes "dt_reader s = Reading" "dt_woken s" "dt_helper s \<in> {Call_stop, Look}"
  shows "returns s"
  by (rule returns_step[OF is_woken[OF assms(1,2)] returns_step[OF says_stopped returns_stopped]])
    (use assms(3) in \<open>simp_all add: DeviceStop_stopped_def\<close>)

lemma returns_reading:
  assumes "device_inv s" "dt_reader s = Reading" "dt_helper s \<in> {Call_stop, Look}"
  shows "returns s"
proof -
  have call: "returns s" if "device_inv s" "dt_reader s = Reading" "dt_helper s = Call_stop" for s
    by (rule returns_step[OF calls[OF that(3)] returns_woken]) (use that in \<open>auto simp: device_inv_def device_ops\<close>)
  show ?thesis
  proof (cases "dt_helper s = Call_stop")
    case False
    then have l: "dt_helper s = Look" using assms(3) by blast
    have "\<not> dt_stopped s" using assms(1,2) by (simp add: device_inv_def)
    with returns_step[OF looks[OF l] call] device_step_inv[OF looks[OF l] assms(1)] assms(2) show ?thesis by simp
  qed (use call assms in blast)
qed

lemma returns_set:
  assumes "device_inv s" "dt_reader s = Set_fn" "dt_helper s \<in> {Call_stop, Look}"
  shows "returns s"
  by (rule returns_step[OF sets_fn[OF assms(2)] returns_reading])
    (use device_step_inv[OF sets_fn[OF assms(2)] assms(1)] assms(3) in \<open>simp_all add: set_stop_fn_def\<close>)

lemma returns_unless_failed:
  assumes "device_inv s" "dt_reader s \<noteq> Reader_failed" "dt_helper s \<noteq> Helper_idle"
  shows "returns s"
proof (cases "dt_helper s = Helper_returned")
  case False
  then have h: "dt_helper s \<in> {Call_stop, Look}" using assms(3) by (cases "dt_helper s") auto
  show ?thesis
  proof (cases "dt_reader s")
    case Reg
    from device_step_inv[OF registers[OF Reg, where ok = True] assms(1)]
    show ?thesis by (intro returns_step[OF registers[OF Reg, where ok = True] returns_set]) (use h in \<open>simp_all add: reader_register_def\<close>)
  next
    case Say_stopped
    show ?thesis by (rule returns_step[OF says_stopped[OF Say_stopped] returns_stopped]) (use h in \<open>simp_all add: DeviceStop_stopped_def\<close>)
  qed (use assms h returns_set returns_reading returns_stopped in \<open>auto simp: device_inv_def\<close>)
qed (auto simp: returns_def intro: dev_refl)

section \<open>Properties\<close>

text \<open>
  C21. Replacing the network device is orderly, however the reader, the helper and the stop manager interleave and whether
  or not reading fails: when \<open>stop\<close> has returned the reader has left its loop for good and the old device is out of the adapter, so that
  two readers never run; and a reader that has ended has given up its worker exactly once, either to the helper, and then the
  program goes on, or with \<open>stop_all\<close>, which ends it.
\<close>

theorem device_replaced_cleanly:
  assumes "device_reach faults device_started s"
  shows "(dt_helper s = Helper_returned \<longrightarrow> dt_reader s \<in> {Take_worker, Reader_done} \<and> \<not> dt_adapter s) \<and>
    (dt_reader s = Reader_done \<longrightarrow> \<not> dt_worker s \<and> (dt_replaced s \<longleftrightarrow> \<not> dt_stop_all s))"
  using device_reach_inv[OF assms device_started_inv] by (auto simp: device_inv_def)

lemma device_replaced_cleanly_witness:
  "\<exists>s. device_reach False device_started s \<and> dt_helper s = Helper_returned \<and> \<not> dt_adapter s"
proof -
  have b: "device_step False device_started (device_started\<lparr>dt_adapter := False, dt_helper := Call_stop\<rparr>)"
    by (rule begins) (simp add: device_started_def)
  from device_step_inv[OF b device_started_inv] have "returns (device_started\<lparr>dt_adapter := False, dt_helper := Call_stop\<rparr>)"
    by (intro returns_unless_failed) (simp_all add: device_started_def)
  then obtain s where s: "device_reach False device_started s" "dt_helper s = Helper_returned"
    using reach_first[OF b] by (auto simp: returns_def)
  from device_replaced_cleanly[OF s(1)] s show ?thesis by blast
qed

text \<open>
  C24. The helper's \<open>stop\<close> hangs exactly when the reader could not be set up: at any moment after it has been called, it can still
  return without any fault of the device if and only if the reader did not fail to register. A reader that fails (no poll, no waker, or a
  stop manager that is closed already) returns before it has a chance to say that it has stopped, and the loop of \<open>stop\<close>, in the
  thread that handles packets, goes on forever.
\<close>

theorem stop_returns_unless_failed:
  assumes "device_reach faults device_started s" and "dt_helper s \<noteq> Helper_idle"
  shows "(\<exists>t. device_reach False s t \<and> dt_helper t = Helper_returned) \<longleftrightarrow> dt_reader s \<noteq> Reader_failed"
proof -
  have i: "device_inv s" by (rule device_reach_inv[OF assms(1) device_started_inv])
  have "dt_helper t \<noteq> Helper_returned" if "device_reach False s t" "dt_reader s = Reader_failed" for t
    using failed_stays[OF that] device_reach_inv[OF that(1) i] by (auto simp: device_inv_def)
  with returns_unless_failed[OF i _ assms(2)] show ?thesis by (auto simp: returns_def)
qed

lemma stop_returns_unless_failed_witness:
  "\<exists>s. device_reach False device_started s \<and> dt_helper s = Call_stop \<and>
     \<not> (\<exists>t. device_reach False s t \<and> dt_helper t = Helper_returned)"
proof -
  let ?s = "(reader_register False device_started)\<lparr>dt_adapter := False, dt_helper := Call_stop\<rparr>"
  have "device_step False device_started (reader_register False device_started)"
    by (rule registers) (simp add: device_started_def)
  moreover have "device_step False (reader_register False device_started) ?s"
    by (rule begins) (simp add: device_started_def reader_register_def)
  ultimately have s: "device_reach False device_started ?s" by (meson dev_refl dev_step)
  from stop_returns_unless_failed[OF s] s show ?thesis
    by (intro exI[of _ ?s]) (simp add: reader_register_def)
qed

text \<open>
  A device is refused only when it cannot be opened, given its size of packets or its address; else the
  routes asked for are the network of the device, broadcast, multicast and the configured ones, in this order, and one
  that fails stops nothing.
\<close>

lemma create_device_routes: "fst (create_device D n c) = Inr () \<Longrightarrow>
    [(dest, m). Dev_route dest m ok \<leftarrow> snd (create_device D n c)] = device_routes c"
  by (auto simp: create_device_def create_device0_def Let_def comp_def split_beta split: sum.splits)

end
