(* ===== verification/Tap_Device.thy ===== *)
theory Tap_Device
  imports Link_Packet
begin

text \<open>
  The network device in TAP mode, \<^verbatim>\<open>vnt/tun/src/packet/mod.rs\<close> (used by \<^verbatim>\<open>windows/tap/mod.rs\<close>): IP packets inside Ethernet
  frames, with ARP requests answered on the spot. The views of frames and of ARP in \<^verbatim>\<open>vnt/tun/src/packet\<close> are
  copies of those in \<open>Link_Packet\<close>. What is read and how a write ends are arbitrary.
\<close>

definition MAC :: "u8 list" where "MAC = [0xF, 0xF, 0xF, 0xF, 0xE, 0x9]"

text \<open>What a frame leads to: a packet for the caller, an answer to write, or nothing.\<close>

datatype tap_result = Deliver "u8 list" | Answer "u8 list" | Ignored

text \<open>An ARP packet, changed in place inside its frame.\<close>

definition arp_frame :: "u8 list \<Rightarrow> tap_result res" where
  "arp_frame ether =
     bindE (EthernetPacket_payload ether) (\<lambda>arp.
     bindE (ArpPacket_sender_hardware_addr arp) (\<lambda>sender_h.
     bindE (ArpPacket_sender_protocol_addr arp) (\<lambda>sender_p.
     bindE (ArpPacket_target_protocol_addr arp) (\<lambda>target_p.
       if target_p = [0, 0, 0, 0] \<or> sender_p = [0, 0, 0, 0] \<or> target_p = sender_p then Inr Ignored
       else bindE (ArpPacket_op_code arp) (\<lambda>op_code.
         if op_code = 1 then
           bindE (ArpPacket_set_op_code arp 2) (\<lambda>arp.
           bindE (ArpPacket_set_target_hardware_addr arp sender_h) (\<lambda>arp.
           bindE (ArpPacket_set_target_protocol_addr arp sender_p) (\<lambda>arp.
           bindE (ArpPacket_set_sender_protocol_addr arp target_p) (\<lambda>arp.
           bindE (ArpPacket_set_sender_hardware_addr arp MAC) (\<lambda>arp.
           bindE (copy_range ether 14 (length ether) arp) (\<lambda>ether.
           bindE (EthernetPacket_set_destination ether sender_h) (\<lambda>ether.
           bindE (EthernetPacket_set_source ether MAC) (\<lambda>ether. Inr (Answer ether)))))))))
         else Inr Ignored)))))"

definition tap_frame :: "nat \<Rightarrow> u8 list \<Rightarrow> tap_result res" where
  "tap_frame buf_len f =
     bindE (EthernetPacket_new f) (\<lambda>ether.
     bindE (EthernetPacket_protocol ether) (\<lambda>protocol. case protocol of
       Eth_Ipv4 \<Rightarrow> bindE (EthernetPacket_payload ether) (\<lambda>payload.
         if length payload > buf_len then Inl (Io OtherKind ''short'') else Inr (Deliver payload))
     | Eth_Arp \<Rightarrow> arp_frame ether
     | _ \<Rightarrow> Inr Ignored))"

text \<open>The loop over the frames that arrive: its result, once there is one, and what it wrote.\<close>

fun read_tap :: "nat \<Rightarrow> (u8 list \<Rightarrow> unit res) \<Rightarrow> u8 list res list \<Rightarrow> u8 list res option \<times> u8 list list" where
  "read_tap buf_len write_fn [] = (None, [])"
| "read_tap buf_len write_fn (Inl e # fs) = (Some (Inl e), [])"
| "read_tap buf_len write_fn (Inr f # fs) =
     (if f = [] then (Some (Inr []), [])
      else case tap_frame buf_len f of
        Inl e \<Rightarrow> (Some (Inl e), [])
      | Inr (Deliver packet) \<Rightarrow> (Some (Inr packet), [])
      | Inr (Answer a) \<Rightarrow> (case write_fn a of
          Inl e \<Rightarrow> (Some (Inl e), [a])
        | Inr _ \<Rightarrow> (case read_tap buf_len write_fn fs of (r, out) \<Rightarrow> (r, a # out)))
      | Inr Ignored \<Rightarrow> read_tap buf_len write_fn fs)"

text \<open>The frame around a packet.\<close>

definition write_tap :: "u8 list \<Rightarrow> u8 list \<Rightarrow> u8 list res" where
  "write_tap mac buf =
     bindE (EthernetPacket_set_source (replicate (14 + length buf) 0) MAC) (\<lambda>ether.
     bindE (EthernetPacket_set_destination ether mac) (\<lambda>ether.
     bindE (EthernetPacket_set_protocol ether Eth_Ipv4) (\<lambda>ether.
       copy_range ether 14 (length ether) buf)))"

section \<open>Facts\<close>

lemma list6: "length xs = 6 \<Longrightarrow> \<exists>a b c d e f. xs = [a, b, c, d, e, f]"
  by (auto simp: numeral_eq_Suc length_Suc_conv)

lemma list4: "length xs = 4 \<Longrightarrow> \<exists>a b c d. xs = [a, b, c, d]"
  by (auto simp: numeral_eq_Suc length_Suc_conv)

lemma tap_codes: "be16 8 0 = 0x0800" "be16 8 6 = 0x0806" "be16 0 1 = 1" "be16_bytes 0x0800 = [8, 0]" "be16_bytes 2 = [0, 2]"
  by (simp_all add: be16_def be16_bytes_def)

lemma copy_part: "length a = i \<Longrightarrow> i + length v = j \<Longrightarrow> length b = length v \<Longrightarrow> copy_range (a @ b @ c) i j v = Inr (a @ v @ c)"
  by (auto simp: copy_range_def splice_def)

lemma slice_part: "length a = i \<Longrightarrow> i + length b = j \<Longrightarrow> slice (a @ b @ c) i j = Inr b"
  by (auto simp: slice_def)

lemmas ethernet_views = EthernetPacket_new_def EthernetPacket_protocol_def EthernetPacket_payload_def EthernetPacket_set_source_def
  EthernetPacket_set_destination_def EthernetPacket_set_protocol_def
lemmas arp_views = ArpPacket_sender_hardware_addr_def ArpPacket_sender_protocol_addr_def ArpPacket_target_protocol_addr_def
  ArpPacket_op_code_def ArpPacket_set_op_code_def ArpPacket_set_target_hardware_addr_def ArpPacket_set_target_protocol_addr_def
  ArpPacket_set_sender_protocol_addr_def ArpPacket_set_sender_hardware_addr_def

lemma write_tap_frame:
  assumes "length mac = 6"
  shows "write_tap mac buf = Inr (mac @ MAC @ [8, 0] @ buf)"
proof -
  have z: "replicate (14 + length buf) 0 = replicate 6 (0::u8) @ replicate 6 0 @ replicate 2 0 @ replicate (length buf) 0"
  proof -
    have n: "14 + length buf = 6 + (6 + (2 + length buf))" by simp
    show ?thesis unfolding n replicate_add by (rule refl)
  qed
  show ?thesis
    unfolding write_tap_def ethernet_views z
    using assms copy_part[of "replicate 6 0" 6 MAC 12 "replicate 6 0" "replicate 2 0 @ replicate (length buf) 0"]
      copy_part[of "[]" 0 mac 6 "replicate 6 0" "MAC @ replicate 2 0 @ replicate (length buf) 0"]
      copy_part[of "mac @ MAC" 12 "[8, 0]" 14 "replicate 2 0" "replicate (length buf) 0"]
      copy_part[of "mac @ MAC @ [8, 0]" 14 buf "14 + length buf" "replicate (length buf) 0" "[]"]
    by (simp add: MAC_def tap_codes)
qed

lemma tap_protocol: "length dst = 6 \<Longrightarrow> length src = 6 \<Longrightarrow>
    EthernetPacket_protocol (dst @ src @ [a, b] @ p) = Inr (EthProtocol_of_u16 (be16 a b))"
  using slice_part[of "dst @ src" 12 "[a, b]" 14 p] by (simp add: EthernetPacket_protocol_def rd16_def)

lemma tap_payload: "length dst = 6 \<Longrightarrow> length src = 6 \<Longrightarrow> EthernetPacket_payload (dst @ src @ [a, b] @ p) = Inr p"
  using slice_part[of "dst @ src @ [a, b]" 14 p "14 + length p" "[]"] by (simp add: EthernetPacket_payload_def)

text \<open>The answer to a request, byte for byte.\<close>

lemma arp_answer:
  assumes "length dst = 6" "length src = 6" "length hw = 6" "length sh = 6" "length sp = 4" "length th = 6" "length tp = 4"
    and "tp \<noteq> [0, 0, 0, 0]" "sp \<noteq> [0, 0, 0, 0]" "tp \<noteq> sp"
  shows "tap_frame n (dst @ src @ [8, 6] @ hw @ [0, 1] @ sh @ sp @ th @ tp @ rest) =
    Inr (Answer (sh @ MAC @ [8, 6] @ hw @ [0, 2] @ MAC @ tp @ sh @ sp @ rest))"
proof -
  let ?p = "hw @ [0, 1] @ sh @ sp @ th @ tp @ rest" and ?h = "dst @ src @ [8, 6]"
  let ?q = "hw @ [0, 2] @ MAC @ tp @ sh @ sp @ rest"
  have m: "length MAC = 6" by (simp add: MAC_def)
  have g: "ArpPacket_sender_hardware_addr ?p = Inr sh" "ArpPacket_sender_protocol_addr ?p = Inr sp"
    "ArpPacket_target_protocol_addr ?p = Inr tp" "ArpPacket_op_code ?p = Inr 1"
    using assms(1-7) slice_part[of "hw @ [0, 1]" 8 sh 14 "sp @ th @ tp @ rest"] slice_part[of "hw @ [0, 1] @ sh" 14 sp 18 "th @ tp @ rest"]
      slice_part[of "hw @ [0, 1] @ sh @ sp @ th" 24 tp 28 rest] slice_part[of hw 6 "[0, 1]" 8 "sh @ sp @ th @ tp @ rest"]
    by (simp_all add: arp_views rd16_def tap_codes)
  have s: "ArpPacket_set_op_code ?p 2 = Inr (hw @ [0, 2] @ sh @ sp @ th @ tp @ rest)"
    "ArpPacket_set_target_hardware_addr (hw @ [0, 2] @ sh @ sp @ th @ tp @ rest) sh = Inr (hw @ [0, 2] @ sh @ sp @ sh @ tp @ rest)"
    "ArpPacket_set_target_protocol_addr (hw @ [0, 2] @ sh @ sp @ sh @ tp @ rest) sp = Inr (hw @ [0, 2] @ sh @ sp @ sh @ sp @ rest)"
    "ArpPacket_set_sender_protocol_addr (hw @ [0, 2] @ sh @ sp @ sh @ sp @ rest) tp = Inr (hw @ [0, 2] @ sh @ tp @ sh @ sp @ rest)"
    "ArpPacket_set_sender_hardware_addr (hw @ [0, 2] @ sh @ tp @ sh @ sp @ rest) MAC = Inr ?q"
    using assms(1-7) m copy_part[of hw 6 "[0, 2]" 8 "[0, 1]" "sh @ sp @ th @ tp @ rest"]
      copy_part[of "hw @ [0, 2] @ sh @ sp" 18 sh 24 th "tp @ rest"] copy_part[of "hw @ [0, 2] @ sh @ sp @ sh" 24 sp 28 tp rest]
      copy_part[of "hw @ [0, 2] @ sh" 14 tp 18 sp "sh @ sp @ rest"] copy_part[of "hw @ [0, 2]" 8 MAC 14 sh "tp @ sh @ sp @ rest"]
    by (simp_all add: arp_views wr16_def tap_codes)
  have e: "copy_range (?h @ ?p) 14 (length (?h @ ?p)) ?q = Inr (?h @ ?q)"
    "EthernetPacket_set_destination (?h @ ?q) sh = Inr (sh @ src @ [8, 6] @ ?q)"
    "EthernetPacket_set_source (sh @ src @ [8, 6] @ ?q) MAC = Inr (sh @ MAC @ [8, 6] @ ?q)"
    using assms(1-7) m copy_part[of ?h 14 ?q "length (?h @ ?p)" ?p "[]"] copy_part[of "[]" 0 sh 6 dst "src @ [8, 6] @ ?q"]
      copy_part[of sh 6 MAC 12 src "[8, 6] @ ?q"]
    by (simp_all add: ethernet_views)
  have "arp_frame (?h @ ?p) = Inr (Answer (sh @ MAC @ [8, 6] @ ?q))"
    using assms(8-10) g s e tap_payload[OF assms(1,2), of 8 6 ?p] unfolding arp_frame_def
    by (simp del: append_Cons append_Nil append_assoc add: append_assoc[symmetric])
  then show ?thesis
    using assms(1,2) tap_protocol[OF assms(1,2), of 8 6 ?p] by (simp add: tap_frame_def EthernetPacket_new_def tap_codes EthProtocol_of_u16_def)
qed

lemma copied: "copy_range b i j v = Inr r \<Longrightarrow> length r = length b"
  by (auto simp: copy_range_def splice_def split: if_splits)

lemma sliced: "slice b i j = Inr r \<Longrightarrow> length r = j - i"
  by (auto simp: slice_def split: if_splits)

lemma ranges_panic:
  "slice b i j = Inl e \<longleftrightarrow> e = Panic \<and> \<not> (i \<le> j \<and> j \<le> length b)"
  "copy_range b i j v = Inl e \<longleftrightarrow> e = Panic \<and> \<not> (i \<le> j \<and> j \<le> length b \<and> length v = j - i)"
  by (auto simp: slice_def copy_range_def)

lemma arp_frame_short: "14 \<le> length f \<Longrightarrow> arp_frame f = Inl Panic \<longleftrightarrow> length f < 42"
proof
  assume l: "14 \<le> length f"
  { assume "arp_frame f = Inl Panic"
    then show "length f < 42"
      using l by (force simp: arp_frame_def arp_views ethernet_views bindE_Inl_iff bindE_Inr_iff ranges_panic rd16_def wr16_def
          be16_bytes_def MAC_def dest: copied sliced split: if_splits) }
  assume "length f < 42"
  then show "arp_frame f = Inl Panic"
    using l by (cases "28 \<le> length f"; cases "32 \<le> length f")
      (simp_all add: arp_frame_def arp_views EthernetPacket_payload_def slice_def)
qed

section \<open>Properties\<close>

text \<open>
  C31. The device in TAP mode looks like one in TUN mode: an ARP request (for another address, neither of the two being zero) is answered
  with the device's address, the sender's fields moved to the target's, and the reading goes on; a packet that was written
  is framed so that the other side's reading, of whatever length allows it, yields exactly that packet.
\<close>

theorem tap_answers_and_delivers:
  assumes "length dst = 6" "length src = 6" "length hw = 6" "length sh = 6" "length sp = 4" "length th = 6" "length tp = 4"
    and "tp \<noteq> [0, 0, 0, 0]" "sp \<noteq> [0, 0, 0, 0]" "tp \<noteq> sp"
    and "write_tap mac packet = Inr frame" and "length packet \<le> n" and "\<forall>f. write_fn f = Inr ()"
  shows "read_tap n write_fn [Inr (dst @ src @ [8, 6] @ hw @ [0, 1] @ sh @ sp @ th @ tp @ rest), Inr frame] =
    (Some (Inr packet), [sh @ MAC @ [8, 6] @ hw @ [0, 2] @ MAC @ tp @ sh @ sp @ rest])"
proof -
  have l: "length mac = 6"
    using assms(11) by (auto simp: write_tap_def ethernet_views copy_range_def bindE_Inr_iff MAC_def split: if_splits)
  then have f: "frame = mac @ MAC @ [8, 0] @ packet" using assms(11) write_tap_frame by simp
  have "tap_frame n frame = Inr (Deliver packet)"
    using l assms(12) tap_protocol[OF l, of MAC 8 0 packet] tap_payload[OF l, of MAC 8 0 packet]
    by (simp add: f tap_frame_def EthernetPacket_new_def tap_codes EthProtocol_of_u16_def MAC_def)
  moreover have "frame \<noteq> []" "dst \<noteq> []" using assms(1) by (auto simp: f)
  ultimately show ?thesis using arp_answer[OF assms(1-10), of n rest] assms(13) by simp
qed

lemma tap_answers_and_delivers_witness:
  "\<exists>frame. write_tap [1, 2, 3, 4, 5, 6] [0x45, 7] = Inr frame \<and> fst (read_tap 100 (\<lambda>_. Inr ())
     [Inr ([255, 255, 255, 255, 255, 255] @ [1, 2, 3, 4, 5, 6] @ [8, 6] @ [0, 1, 8, 0, 6, 4] @ [0, 1] @ [1, 2, 3, 4, 5, 6] @
       [10, 0, 0, 1] @ [0, 0, 0, 0, 0, 0] @ [10, 0, 0, 2] @ []), Inr frame]) = Some (Inr [0x45, 7])"
proof -
  obtain frame where f: "write_tap [1, 2, 3, 4, 5, 6] [0x45, 7] = Inr frame" using write_tap_frame[of "[1, 2, 3, 4, 5, 6]" "[0x45, 7]"] by simp
  have "fst (read_tap 100 (\<lambda>_. Inr ())
     [Inr ([255, 255, 255, 255, 255, 255] @ [1, 2, 3, 4, 5, 6] @ [8, 6] @ [0, 1, 8, 0, 6, 4] @ [0, 1] @ [1, 2, 3, 4, 5, 6] @
       [10, 0, 0, 1] @ [0, 0, 0, 0, 0, 0] @ [10, 0, 0, 2] @ []), Inr frame]) = Some (Inr [0x45, 7])"
    by (subst tap_answers_and_delivers[OF _ _ _ _ _ _ _ _ _ _ f]) simp_all
  with f show ?thesis by blast
qed

text \<open>
  A short ARP frame aborts the program: a frame from the TAP driver panics exactly when it is announced as ARP
  and ends before the target's address, since the view of the ARP packet is made without checking its length.
\<close>

theorem short_arp_panics:
  "tap_frame n f = Inl Panic \<longleftrightarrow> 14 \<le> length f \<and> length f < 42 \<and> EthernetPacket_protocol f = Inr Eth_Arp"
proof -
  have "EthernetPacket_payload f \<noteq> Inl Panic" "EthernetPacket_protocol f \<noteq> Inl Panic" if "14 \<le> length f"
    using that by (simp_all add: ethernet_views slice_def rd16_def bindE_def)
  then show ?thesis
    using arp_frame_short[of f]
    by (cases "EthernetPacket_protocol f")
      (auto simp: tap_frame_def EthernetPacket_new_def bindE_Inl_iff split: EthProtocol.splits)
qed

end
