(* ===== verification/Cipher_Builds.thy ===== *)
theory Cipher_Builds
  imports Cipher
begin

text \<open>
  The builds without the feature \<^verbatim>\<open>ring-cipher\<close>: \<^verbatim>\<open>cipher/aes_gcm/aes_gcm_cipher.rs\<close> and
  \<^verbatim>\<open>cipher/chacha20_poly1305/rs_chacha20_poly1305.rs\<close>, over crates whose tag is detached in both directions. Devices of both builds talk to
  each other, so what matters is that the builds agree on every packet, forged ones included.
\<close>

section \<open>The detached interface\<close>

record detached =
  ad_encrypt :: "u8 list \<Rightarrow> u8 list \<Rightarrow> (u8 list \<times> u8 list) option"
  ad_decrypt :: "u8 list \<Rightarrow> u8 list \<Rightarrow> u8 list \<Rightarrow> u8 list option"

text \<open>
  Both crates implement the same algorithm, on data and a tag of 16 bytes; \<open>open_in_place\<close> wants the tag behind the data and
  leaves anything in its place.
\<close>

definition same_aead :: "aead \<Rightarrow> detached \<Rightarrow> bool" where
  "same_aead A D \<longleftrightarrow>
     (\<forall>n d. ad_encrypt D n d = ae_seal A n d \<and> (\<forall>c t. ae_seal A n d = Some (c, t) \<longrightarrow> length t = 16)) \<and>
     (\<forall>n c t. length t = 16 \<longrightarrow> (case ad_decrypt D n c t of
        None \<Rightarrow> ae_open A n (c @ t) = None
      | Some d \<Rightarrow> length d = length c \<and> (\<exists>u. length u = 16 \<and> ae_open A n (c @ t) = Some (d @ u))))"

section \<open>AES-GCM\<close>

definition rs_gcm_seal :: "detached \<Rightarrow> hash \<Rightarrow> u8 list option \<Rightarrow> u8 list \<Rightarrow> u32 \<Rightarrow> u8 list \<Rightarrow> (u8 list \<times> unit) res" where
  "rs_gcm_seal D sha finger nonce random pl =
     bindE (SecretBody_new pl (finger \<noteq> None)) (\<lambda>s0. bindE (SecretBody_set_random s0 random) (\<lambda>s1.
       bindE (SecretBody_body s1) (\<lambda>body.
         (case ad_encrypt D nonce body of
            None \<Rightarrow> Inl (Anyhow ''encrypt'')
          | Some (ct, tag) \<Rightarrow>
              bindE (SecretBody_body_mut s1 ct) (\<lambda>s2. bindE (SecretBody_set_tag s2 tag) (\<lambda>s3.
                (case finger of
                   None \<Rightarrow> Inr (sb_buffer s3, ())
                 | Some h \<Rightarrow> bindE (SecretBody_en_body s3) (\<lambda>en_body.
                     bindE (SecretBody_set_finger s3 (calculate_finger sha h nonce en_body))
                       (\<lambda>s4. Inr (sb_buffer s4, ()))))))))))"

definition Rs_AesGcm_encrypt_ipv4 :: "detached \<Rightarrow> hash \<Rightarrow> u8 list option \<Rightarrow> u32 \<Rightarrow> net_packet \<Rightarrow> net_packet res" where
  "Rs_AesGcm_encrypt_ipv4 D sha finger random p =
     (if NetPacket_reserve p < AES_GCM_ENCRYPTION_RESERVED then Inl (Anyhow ''too short'')
      else bindE (NetPacket_head_tag p) (\<lambda>nonce_raw.
        bindE (NetPacket_set_data_len p (np_data_len p + AES_GCM_ENCRYPTION_RESERVED)) (\<lambda>p1.
          bindE (in_payload p1 (rs_gcm_seal D sha finger nonce_raw random))
            (\<lambda>(p2, _). NetPacket_set_encrypt_flag p2 True))))"

definition rs_gcm_open :: "detached \<Rightarrow> hash \<Rightarrow> u8 list option \<Rightarrow> u8 list \<Rightarrow> u8 list \<Rightarrow> (u8 list \<times> unit) res" where
  "rs_gcm_open D sha finger nonce pl =
     bindE (SecretBody_new pl (finger \<noteq> None)) (\<lambda>s. bindE (SecretBody_tag s) (\<lambda>tag.
       bindE (SecretBody_en_body s) (\<lambda>en_body. bindE (SecretBody_finger s) (\<lambda>stored.
         if (case finger of None \<Rightarrow> False | Some h \<Rightarrow> calculate_finger sha h nonce en_body \<noteq> stored)
         then Inl (Anyhow ''finger err'')
         else bindE (SecretBody_body s) (\<lambda>body. (case ad_decrypt D nonce body tag of
                None \<Rightarrow> Inl (Anyhow ''decrypt'')
              | Some b \<Rightarrow> bindE (SecretBody_body_mut s b) (\<lambda>s'. Inr (sb_buffer s', ()))))))))"

definition Rs_AesGcm_decrypt_ipv4 :: "detached \<Rightarrow> hash \<Rightarrow> u8 list option \<Rightarrow> net_packet \<Rightarrow> net_packet res" where
  "Rs_AesGcm_decrypt_ipv4 D sha finger p =
     bindE (NetPacket_is_encrypt p) (\<lambda>en.
       if \<not> en then Inl (Anyhow ''not encrypt'')
       else bindE (NetPacket_payload p) (\<lambda>pl.
         if length pl < AES_GCM_ENCRYPTION_RESERVED then Inl (Anyhow ''data err'')
         else bindE (NetPacket_head_tag p) (\<lambda>nonce_raw.
           bindE (in_payload p (rs_gcm_open D sha finger nonce_raw)) (\<lambda>(p1, _).
             bindE (NetPacket_set_encrypt_flag p1 False) (\<lambda>p2.
               NetPacket_set_data_len p2 (np_data_len p2 - AES_GCM_ENCRYPTION_RESERVED))))))"

section \<open>ChaCha20-Poly1305\<close>

definition rs_poly_seal :: "detached \<Rightarrow> hash \<Rightarrow> u8 list option \<Rightarrow> u8 list \<Rightarrow> u8 list \<Rightarrow> u8 list \<Rightarrow> (u8 list \<times> unit) res" where
  "rs_poly_seal D sha finger head_tag random pl =
     bindE (AEADSecretBody_new pl (finger \<noteq> None)) (\<lambda>s0.
       let nonce = gen_nonce head_tag random in
       bindE (SecretTailMut_set_random s0 random) (\<lambda>s1. bindE (AEADSecretBody_data s1) (\<lambda>d.
         (case ad_encrypt D nonce d of
            None \<Rightarrow> Inl (Anyhow ''encrypt'')
          | Some (ct, tag) \<Rightarrow>
              bindE (AEADSecretBody_data_mut s1 ct) (\<lambda>s2.
                if length tag \<noteq> 16 then Inl (Anyhow ''tag length'')
                else bindE (AEADSecretBody_set_tag s2 tag) (\<lambda>s3.
                  (case finger of
                     None \<Rightarrow> Inr (sb_buffer s3, ())
                   | Some h \<Rightarrow> bindE (AEADSecretBody_data_tag s3) (\<lambda>dt.
                       bindE (SecretTailMut_set_finger s3 (calculate_finger sha h head_tag dt))
                         (\<lambda>s4. Inr (sb_buffer s4, ()))))))))))"

definition Rs_ChaCha20Poly1305_encrypt_ipv4 ::
  "detached \<Rightarrow> hash \<Rightarrow> u8 list option \<Rightarrow> u8 list \<Rightarrow> net_packet \<Rightarrow> net_packet res" where
  "Rs_ChaCha20Poly1305_encrypt_ipv4 D sha finger random p =
     bindE (NetPacket_head_tag p) (\<lambda>head_tag.
       let data_len = np_data_len p in
       bindE (if finger \<noteq> None
              then NetPacket_set_data_len p (data_len + TAG_RESERVED + RANDOM_RESERVED + FINGER_RESERVED)
              else NetPacket_set_data_len p (data_len + TAG_RESERVED + RANDOM_RESERVED)) (\<lambda>p1.
         bindE (in_payload p1 (rs_poly_seal D sha finger head_tag random))
           (\<lambda>(p2, _). NetPacket_set_encrypt_flag p2 True)))"

definition rs_poly_open :: "detached \<Rightarrow> hash \<Rightarrow> u8 list option \<Rightarrow> u8 list \<Rightarrow> u8 list \<Rightarrow> (u8 list \<times> nat) res" where
  "rs_poly_open D sha finger head_tag pl =
     bindE (AEADSecretBody_new pl (finger \<noteq> None)) (\<lambda>s. bindE (AEADSecretBody_data_tag s) (\<lambda>dt.
       bindE (SecretTail_finger s) (\<lambda>stored.
         if (case finger of None \<Rightarrow> False | Some h \<Rightarrow> calculate_finger sha h head_tag dt \<noteq> stored)
         then Inl (Anyhow ''rs CHACHA20_POLY1305 finger err'')
         else bindE (SecretTail_random_buf s) (\<lambda>random. bindE (AEADSecretBody_tag s) (\<lambda>tag.
           bindE (AEADSecretBody_data s) (\<lambda>d. (case ad_decrypt D (gen_nonce head_tag random) d tag of
              None \<Rightarrow> Inl (Anyhow ''decrypt'')
            | Some b \<Rightarrow> bindE (AEADSecretBody_data_mut s b) (\<lambda>s'.
                bindE (AEADSecretBody_data s') (\<lambda>d. Inr (sb_buffer s', length d))))))))))"

definition Rs_ChaCha20Poly1305_decrypt_ipv4 :: "detached \<Rightarrow> hash \<Rightarrow> u8 list option \<Rightarrow> net_packet \<Rightarrow> net_packet res" where
  "Rs_ChaCha20Poly1305_decrypt_ipv4 D sha finger p =
     bindE (NetPacket_is_encrypt p) (\<lambda>en.
       if \<not> en then Inl (Anyhow ''not encrypt'')
       else bindE (NetPacket_payload p) (\<lambda>pl.
         if length pl < TAG_RESERVED then Inl (Anyhow ''data err'')
         else bindE (NetPacket_head_tag p) (\<lambda>head_tag.
           bindE (in_payload p (rs_poly_open D sha finger head_tag)) (\<lambda>(p1, len).
             bindE (NetPacket_set_encrypt_flag p1 False) (\<lambda>p2. NetPacket_set_payload_len p2 len)))))"

section \<open>Facts\<close>

lemmas same_aeadD = same_aead_def[THEN iffD1, THEN conjunct1, rule_format] same_aead_def[THEN iffD1, THEN conjunct2, rule_format]

lemma seal_agrees:
  assumes "same_aead A D"
  shows "rs_gcm_seal D = gcm_seal A" "rs_poly_seal D = poly_seal A"
proof -
  have s: "ad_encrypt D = ae_seal A" using assms by (auto simp: same_aead_def)
  have t: "ae_seal A n d = Some (c, t) \<Longrightarrow> length t = 16" for n d c t using assms by (simp add: same_aead_def)
  show "rs_gcm_seal D = gcm_seal A"
    unfolding rs_gcm_seal_def[abs_def] gcm_seal_def[abs_def] s
    by (intro ext arg_cong2[where f = bindE] refl) (auto split: option.splits dest!: t intro!: arg_cong2[where f = bindE] ext)
  show "rs_poly_seal D = poly_seal A"
    unfolding rs_poly_seal_def[abs_def] poly_seal_def[abs_def] s by (rule refl)
qed

text \<open>Two results of opening \<open>n\<close> bytes in place: both errors, or the same \<open>k\<close> bytes in front, whatever follows.\<close>

definition agree :: "nat \<Rightarrow> (u8 list \<times> 'a \<Rightarrow> nat) \<Rightarrow> (u8 list \<times> 'a) res \<Rightarrow> (u8 list \<times> 'a) res \<Rightarrow> bool" where
  "agree n k r s \<longleftrightarrow> (\<exists>e e'. r = Inl e \<and> s = Inl e') \<or>
     (\<exists>x y v. r = Inr (x, v) \<and> s = Inr (y, v) \<and> length x = n \<and> length y = n \<and> k (x, v) \<le> n \<and> k (y, v) = k (x, v) \<and>
       take (k (x, v)) x = take (k (x, v)) y)"

lemma agree_Inl [simp]: "agree n k (Inl e) (Inl e')"
  by (simp add: agree_def)

lemma agree_InrI:
  "length (d @ u) = n \<Longrightarrow> length u' = length u \<Longrightarrow> k (d @ u, v) \<le> length d \<Longrightarrow> k (d @ u', v) = k (d @ u, v) \<Longrightarrow>
   agree n k (Inr (d @ u, v)) (Inr (d @ u', v))"
  by (auto simp: agree_def)

lemma finger_length: "finger_ok f \<Longrightarrow> length (finger_bytes f) \<le> 12"
  by (auto simp: finger_ok_def finger_bytes_def split: option.splits)

lemma gcm_open_agrees:
  assumes "same_aead A D" "32 \<le> length pl"
  shows "agree (length pl) (\<lambda>_. length pl - 32) (gcm_open A sha finger nonce pl) (rs_gcm_open D sha finger nonce pl)"
proof (cases "length pl > MAX_UDP_BODY")
  case False
  let ?s = "\<lparr>sb_buffer = pl, sb_exist_finger = (finger \<noteq> None)\<rparr>"
  have l: "(if finger \<noteq> None then 12 else 0) + 16 \<le> length pl" using assms(2) by simp
  obtain d t f where s: "?s = sb_of (d @ t) f" "finger_ok f" "length t = 16" "pl = d @ t @ finger_bytes f"
    using sb_of_split[OF refl l] unfolding finger_bytes_def by metis
  have new: "SecretBody_new pl (finger \<noteq> None) = Inr (sb_of (d @ t) f)" using False assms(2) s(1) by (simp add: SecretBody_new_def)
  have get: "SecretBody_tag (sb_of (d @ t) f) = Inr t" "SecretBody_en_body (sb_of (d @ t) f) = Inr (d @ t)"
    "SecretBody_body (sb_of (d @ t) f) = Inr d" "SecretBody_finger (sb_of (d @ t) f) = Inr (finger_bytes f)"
    using secret_before_of(1)[OF s(2), of "[]" 0 t 16 d] secret_prefix_of(1)[OF s(2), of "[]" 0 "d @ t"] secret_prefix_of(1)[OF s(2,3), of d]
      sb_of_finger(2)[OF s(2)] s(3)
    by (simp_all add: SecretBody_tag_def SecretBody_en_body_def SecretBody_body_def)
  show ?thesis
  proof (cases "case finger of None \<Rightarrow> False | Some h \<Rightarrow> calculate_finger sha h nonce (d @ t) \<noteq> finger_bytes f")
    case True
    then show ?thesis by (simp add: gcm_open_def rs_gcm_open_def new get del: not_None_eq)
  next
    case pass: False
    show ?thesis
    proof (cases "ad_decrypt D nonce d t")
      case None
      with pass same_aeadD(2)[OF assms(1) s(3), of nonce d] show ?thesis by (simp add: gcm_open_def rs_gcm_open_def new get del: not_None_eq)
    next
      case (Some b)
      with same_aeadD(2)[OF assms(1) s(3), of nonce d] obtain u where
        b: "length b = length d" "length u = 16" "ae_open A nonce (d @ t) = Some (b @ u)" by auto
      have mut: "SecretBody_en_body_mut (sb_of (d @ t) f) (b @ u) = Inr (sb_of (b @ u) f)"
        "SecretBody_body_mut (sb_of (d @ t) f) b = Inr (sb_of (b @ t) f)"
        using secret_prefix_of(2)[OF s(2), of "[]" 0 "b @ u" "d @ t"] secret_prefix_of(2)[OF s(2,3), of b d] b s(3)
        by (simp_all add: SecretBody_en_body_mut_def SecretBody_body_mut_def)
      have "gcm_open A sha finger nonce pl = Inr (b @ u @ finger_bytes f, ())"
        "rs_gcm_open D sha finger nonce pl = Inr (b @ t @ finger_bytes f, ())"
        using pass Some b(3) by (simp_all add: gcm_open_def rs_gcm_open_def new get mut del: not_None_eq)
      then show ?thesis using b s(3,4) finger_length[OF s(2)] by (auto intro!: agree_InrI)
    qed
  qed
qed (simp add: gcm_open_def rs_gcm_open_def SecretBody_new_def)

lemma poly_open_agrees:
  assumes "same_aead A D"
  shows "agree (length pl) snd (poly_open A sha finger tag pl) (rs_poly_open D sha finger tag pl)"
proof (cases "length pl > MAX_UDP_BODY \<or> length pl < (if finger \<noteq> None then 12 else 0) + 20")
  case False
  let ?s = "\<lparr>sb_buffer = pl, sb_exist_finger = (finger \<noteq> None)\<rparr>"
  have l: "(if finger \<noteq> None then 12 else 0) + 20 \<le> length pl" using False by simp
  obtain d x f where s: "?s = sb_of (d @ x) f" "finger_ok f" "length x = 20" "pl = d @ x @ finger_bytes f"
    using sb_of_split[OF refl l] unfolding finger_bytes_def by metis
  obtain t r where x: "x = t @ r" "length t = 16" using split_head[of 16 x] s(3) by auto
  then have r: "length r = 4" using s(3) by simp
  have new: "AEADSecretBody_new pl (finger \<noteq> None) = Inr (sb_of (d @ t @ r) f)"
    using False s(1) x(1) by (auto simp: AEADSecretBody_new_def TAG_RESERVED_def RANDOM_RESERVED_def FINGER_RESERVED_def)
  note reserved = TAG_RESERVED_def RANDOM_RESERVED_def
  have get: "AEADSecretBody_data_tag (sb_of (d @ t @ r) f) = Inr (d @ t)" "SecretTail_finger (sb_of (d @ t @ r) f) = Inr (finger_bytes f)"
    "SecretTail_random_buf (sb_of (d @ t @ r) f) = Inr r" "AEADSecretBody_tag (sb_of (d @ t @ r) f) = Inr t"
    using secret_prefix_of(1)[OF s(2) r, of "d @ t"] sb_of_finger(1)[OF s(2)] secret_before_of(1)[OF s(2), of "[]" 0 r 4 "d @ t"]
      secret_before_of(1)[OF s(2) r x(2), of d] r
    by (simp_all add: AEADSecretBody_data_tag_def SecretTail_random_buf_def AEADSecretBody_tag_def reserved)
  have data: "AEADSecretBody_data (sb_of (b @ u @ r) f) = Inr b" if "length u = 16" for b u
    using secret_prefix_of(1)[OF s(2), of "u @ r" 20 b] that r by (simp add: AEADSecretBody_data_def reserved)
  show ?thesis
  proof (cases "case finger of None \<Rightarrow> False | Some h \<Rightarrow> calculate_finger sha h tag (d @ t) \<noteq> finger_bytes f")
    case True
    then show ?thesis by (simp add: poly_open_def rs_poly_open_def new get del: not_None_eq)
  next
    case pass: False
    show ?thesis
    proof (cases "ad_decrypt D (gen_nonce tag r) d t")
      case None
      with pass same_aeadD(2)[OF assms x(2), of "gen_nonce tag r" d] show ?thesis
        by (simp add: poly_open_def rs_poly_open_def new get data[OF x(2)] del: not_None_eq)
    next
      case (Some b)
      with same_aeadD(2)[OF assms x(2), of "gen_nonce tag r" d] obtain u where
        b: "length b = length d" "length u = 16" "ae_open A (gen_nonce tag r) (d @ t) = Some (b @ u)" by auto
      have mut: "AEADSecretBody_data_tag_mut (sb_of (d @ t @ r) f) (b @ u) = Inr (sb_of (b @ u @ r) f)"
        "AEADSecretBody_data_mut (sb_of (d @ t @ r) f) b = Inr (sb_of (b @ t @ r) f)"
        using secret_prefix_of(2)[OF s(2) r, of "b @ u" "d @ t"] secret_prefix_of(2)[OF s(2), of "t @ r" 20 b d] b x(2) r
        by (simp_all add: AEADSecretBody_data_tag_mut_def AEADSecretBody_data_mut_def reserved)
      have "poly_open A sha finger tag pl = Inr (b @ u @ r @ finger_bytes f, length b)"
        "rs_poly_open D sha finger tag pl = Inr (b @ t @ r @ finger_bytes f, length b)"
        using pass Some b(3) by (simp_all add: poly_open_def rs_poly_open_def new get mut data[OF x(2)] data[OF b(2)] del: not_None_eq)
      then show ?thesis using b s(4) x by (auto intro!: agree_InrI)
    qed
  qed
qed (auto simp: poly_open_def rs_poly_open_def AEADSecretBody_new_def TAG_RESERVED_def RANDOM_RESERVED_def FINGER_RESERVED_def)

text \<open>Then the packets are the same as well.\<close>

lemma opened_packets_agree:
  assumes "np_ok p" "agree (length (f_payload (np_abs p))) k (f (f_payload (np_abs p))) (g (f_payload (np_abs p)))"
  shows "((\<exists>e. in_payload p f = Inl e) \<and> (\<exists>e. in_payload p g = Inl e)) \<or>
    (\<exists>p1 p2 q1 q2 r1 r2 x y v. f (f_payload (np_abs p)) = Inr (x, v) \<and> in_payload p f = Inr (p1, v) \<and> in_payload p g = Inr (q1, v) \<and>
      NetPacket_set_encrypt_flag p1 False = Inr p2 \<and> NetPacket_set_encrypt_flag q1 False = Inr q2 \<and>
      np_data_len p2 = np_data_len p \<and> np_data_len q2 = np_data_len p \<and>
      NetPacket_set_payload_len p2 (k (x, v)) = Inr r1 \<and> NetPacket_set_payload_len q2 (k (x, v)) = Inr r2 \<and>
      NetPacket_set_data_len p2 (12 + k (x, v)) = Inr r1 \<and> NetPacket_set_data_len q2 (12 + k (x, v)) = Inr r2 \<and>
      np_abs r1 = np_abs r2)"
  (is "_ \<or> ?agreed")
proof (cases "f (f_payload (np_abs p))")
  case (Inl e)
  with assms obtain e' where "g (f_payload (np_abs p)) = Inl e'" by (auto simp: agree_def)
  with Inl show ?thesis by (simp add: in_payload_def np_get[OF assms(1)])
next
  case (Inr xv)
  then obtain x v where f: "f (f_payload (np_abs p)) = Inr (x, v)" by (cases xv) simp
  let ?n = "np_data_len p - 12"
  from f assms(2) obtain y where y: "g (f_payload (np_abs p)) = Inr (y, v)" "length x = ?n" "length y = ?n" "k (x, v) \<le> ?n"
    "take (k (x, v)) x = take (k (x, v)) y" by (auto simp: agree_def length_f_payload[OF assms(1)])
  let ?d = "take (k (x, v)) x"
  have d: "length ?d = k (x, v)" using y(2,4) by simp
  have x: "f (f_payload (np_abs p)) = Inr (?d @ drop (k (x, v)) x, v)" using f by simp
  have z: "g (f_payload (np_abs p)) = Inr (?d @ drop (k (x, v)) y, v)" using y(1,5) by simp
  obtain p1 p2 r1 where 1: "in_payload p f = Inr (p1, v)" "NetPacket_set_encrypt_flag p1 False = Inr p2" "np_data_len p2 = np_data_len p"
    "NetPacket_set_payload_len p2 (length ?d) = Inr r1" "NetPacket_set_data_len p2 (12 + length ?d) = Inr r1"
    "np_abs r1 = (np_abs p)\<lparr>f_payload := ?d, f_encrypt := False\<rparr>"
    using open_packet[where f = f, OF assms(1) x] y(2) by (metis append_take_drop_id)
  obtain q1 q2 r2 where 2: "in_payload p g = Inr (q1, v)" "NetPacket_set_encrypt_flag q1 False = Inr q2" "np_data_len q2 = np_data_len p"
    "NetPacket_set_payload_len q2 (length ?d) = Inr r2" "NetPacket_set_data_len q2 (12 + length ?d) = Inr r2"
    "np_abs r2 = (np_abs p)\<lparr>f_payload := ?d, f_encrypt := False\<rparr>"
    using open_packet[where f = g, OF assms(1) z] y(3,5) by (metis append_take_drop_id)
  have "?agreed" using f 1 2 unfolding d by metis
  then show ?thesis ..
qed

section \<open>Properties\<close>

text \<open>What a decryption shows of its packet: nothing, or every field and the payload.\<close>

definition shown :: "net_packet res \<Rightarrow> np_fields option" where
  "shown r = (case r of Inl _ \<Rightarrow> None | Inr q \<Rightarrow> Some (np_abs q))"

lemma gcm_decrypts_agree:
  assumes "same_aead A D" "np_ok p"
  shows "shown (Rs_AesGcm_decrypt_ipv4 D sha finger p) = shown (AesGcm_decrypt_ipv4 A sha finger p)"
proof (cases "f_encrypt (np_abs p) \<and> 32 \<le> length (f_payload (np_abs p))")
  case True
  let ?n = "length (f_payload (np_abs p)) - 32"
  have k: "np_data_len p - 32 = 12 + ?n" using True by (auto simp: length_f_payload[OF assms(2)])
  note agrees = opened_packets_agree[where f = "gcm_open A sha finger (tag_of (np_abs p))" and g = "rs_gcm_open D sha finger (tag_of (np_abs p))"
      and k = "\<lambda>_. ?n", OF assms(2) gcm_open_agrees[OF assms(1)]]
  show ?thesis
    using True agrees k
    by (auto simp: AesGcm_decrypt_ipv4_def Rs_AesGcm_decrypt_ipv4_def np_get[OF assms(2)] head_tag_eq[OF assms(2)]
        AES_GCM_ENCRYPTION_RESERVED_def shown_def)
qed (auto simp: AesGcm_decrypt_ipv4_def Rs_AesGcm_decrypt_ipv4_def np_get[OF assms(2)] AES_GCM_ENCRYPTION_RESERVED_def shown_def)

lemma poly_decrypts_agree:
  assumes "same_aead A D" "np_ok p"
  shows "shown (Rs_ChaCha20Poly1305_decrypt_ipv4 D sha finger p) = shown (ChaCha20Poly1305_decrypt_ipv4 A sha finger p)"
  using opened_packets_agree[where f = "poly_open A sha finger (tag_of (np_abs p))" and g = "rs_poly_open D sha finger (tag_of (np_abs p))"
      and k = snd, OF assms(2) poly_open_agrees[OF assms(1)]]
  by (auto simp: ChaCha20Poly1305_decrypt_ipv4_def Rs_ChaCha20Poly1305_decrypt_ipv4_def np_get[OF assms(2)]
      head_tag_eq[OF assms(2)] shown_def)

lemma gcm_encrypts_agree:
  assumes "same_aead A D" "np_ok p"
  shows "Rs_AesGcm_encrypt_ipv4 D sha finger random p = Inr q \<longleftrightarrow> AesGcm_encrypt_ipv4 A sha finger random p = Inr q"
  using np_okD[OF assms(2)]
  by (auto simp: Rs_AesGcm_encrypt_ipv4_def AesGcm_encrypt_ipv4_def seal_agrees[OF assms(1)] NetPacket_reserve_def
      NetPacket_set_data_len_def bindE_Inr_iff AES_GCM_ENCRYPTION_RESERVED_def)

lemma poly_encrypts_agree:
  "same_aead A D \<Longrightarrow> Rs_ChaCha20Poly1305_encrypt_ipv4 D sha finger random p = ChaCha20Poly1305_encrypt_ipv4 A sha finger random p"
  by (simp add: Rs_ChaCha20Poly1305_encrypt_ipv4_def ChaCha20Poly1305_encrypt_ipv4_def seal_agrees)

text \<open>
  C33. A program built with \<^verbatim>\<open>ring-cipher\<close> and one built without it understand each other: given that both libraries implement the
  same algorithm, they encrypt every packet to the same bytes, and of every packet that arrives, a forged or cut one
  included, they show the same fields and payload, or both refuse it; with AES-GCM and with
  ChaCha20-Poly1305, with and without a finger.
\<close>

theorem builds_agree:
  assumes "same_aead A D" "np_ok p"
  shows "(Rs_AesGcm_encrypt_ipv4 D sha finger random p = Inr q \<longleftrightarrow> AesGcm_encrypt_ipv4 A sha finger random p = Inr q) \<and>
    Rs_ChaCha20Poly1305_encrypt_ipv4 D sha finger rnd p = ChaCha20Poly1305_encrypt_ipv4 A sha finger rnd p \<and>
    shown (Rs_AesGcm_decrypt_ipv4 D sha finger p) = shown (AesGcm_decrypt_ipv4 A sha finger p) \<and>
    shown (Rs_ChaCha20Poly1305_decrypt_ipv4 D sha finger p) = shown (ChaCha20Poly1305_decrypt_ipv4 A sha finger p)"
  using assms by (simp add: gcm_encrypts_agree poly_encrypts_agree gcm_decrypts_agree poly_decrypts_agree)

definition plain_detached :: detached where
  "plain_detached = \<lparr>ad_encrypt = (\<lambda>n d. ae_seal plain_aead n d), ad_decrypt = (\<lambda>_ c _. Some c)\<rparr>"

lemma builds_agree_witness:
  "\<exists>q. Rs_AesGcm_encrypt_ipv4 plain_detached sum_hash (Some [1, 2]) 5 cipher_sample = Inr q \<and>
     AesGcm_encrypt_ipv4 plain_aead sum_hash (Some [1, 2]) 5 cipher_sample = Inr q"
proof -
  have same: "same_aead plain_aead plain_detached" by (auto simp: same_aead_def plain_detached_def plain_aead_def)
  have f: "fits_gcm plain_aead sum_hash cipher_sample" using sample_laws cipher_sample_ok by (simp add: fits_gcm_def)
  obtain q where "AesGcm_encrypt_ipv4 plain_aead sum_hash (Some [1, 2]) 5 cipher_sample = Inr q"
    using gcm_cipher.roundtrip[OF cipher_sample_ok(1) f, of "Some [1, 2]" 5] by auto
  with builds_agree[OF same cipher_sample_ok(1)] show ?thesis by blast
qed

end
