(* ===== verification/Vn_Link.thy ===== *)
theory Vn_Link
  imports Port_Mapping Settings Device_Info
begin

text \<open>
  VNT without a network device, \<^verbatim>\<open>vn-link/src\<close>: local programs reach the virtual network over mapped ports
  (\<^verbatim>\<open>config.rs\<close>, \<^verbatim>\<open>in_mapping\<close>), and what peers send to this device is passed on to local sockets (\<^verbatim>\<open>out_mapping\<close>). The network
  stack in between (lwip) is third-party code: it hands over UDP datagrams and TCP connections with their addresses
  and takes datagrams to send; what it does with them is not part of the model. The tasks interleave at every access to the
  shared table and every operation of a socket.
\<close>

section \<open>Mappings\<close>

datatype LinkProtocol = Link_Tcp | Link_Udp

record LinkItem =
  li_protocol :: LinkProtocol
  li_src_port :: u16
  li_dest :: socket_addr

fun link_convert :: "(string \<Rightarrow> ipv6 option) \<Rightarrow> string list \<Rightarrow> LinkItem list res" where
  "link_convert v6 [] = Inr []"
| "link_convert v6 (x # xs) =
     (let s = to_lowercase (trim x);
          item = (\<lambda>protocol t. case split_on (CHR ''-'') t of
              bind_port # rest \<Rightarrow> (case parse_u16 bind_port of
                  None \<Rightarrow> Inl (Anyhow (''mapping error '' @ bind_port))
                | Some port \<Rightarrow> (case rest of
                      [] \<Rightarrow> Inl (Anyhow (''vnt-mapping error '' @ x))
                    | dest # _ \<Rightarrow> (case parse_socket_addr v6 dest of
                          None \<Rightarrow> Inl (Anyhow (''mapping error '' @ dest))
                        | Some a \<Rightarrow> mapE (\<lambda>rs. \<lparr>li_protocol = protocol, li_src_port = of_nat port, li_dest = a\<rparr> # rs) (link_convert v6 xs))))
            | [] \<Rightarrow> Inl (Anyhow (''vnt-mapping error '' @ x)))
      in case strip_prefix ''udp:'' s of
           Some t \<Rightarrow> item Link_Udp t
         | None \<Rightarrow> (case strip_prefix ''tcp:'' s of
               Some t \<Rightarrow> item Link_Tcp t
             | None \<Rightarrow> Inl (Anyhow (''vnt-mapping error '' @ x))))"

text \<open>
  \<open>add_mapping\<close>: the listeners are opened in order, on the loopback interface; \<open>bind\<close> is the operating system's answer. An error leaves
  those before it open.
\<close>

definition dest_unspecified :: "socket_addr \<Rightarrow> bool" where
  "dest_unspecified a = (case a of SockV4 ip _ \<Rightarrow> is_unspecified ip | SockV6 ip _ _ _ \<Rightarrow> is_unspecified6 ip)"

fun add_mapping :: "(LinkProtocol \<Rightarrow> u16 \<Rightarrow> unit res) \<Rightarrow> bool \<Rightarrow> LinkItem list \<Rightarrow> unit res \<times> LinkItem list" where
  "add_mapping bind shutdown [] = (Inr (), [])"
| "add_mapping bind shutdown (item # mapping) =
     (if dest_unspecified (li_dest item) then (Inl (Anyhow ''dest_address is_unspecified''), [])
      else if shutdown then (Inl (Anyhow ''mapping stop''), [])
      else (case bind (li_protocol item) (li_src_port item) of
          Inl e \<Rightarrow> (Inl e, [])
        | Inr _ \<Rightarrow> (case add_mapping bind shutdown mapping of (r, opened) \<Rightarrow> (r, item # opened))))"

section \<open>Addresses\<close>

text \<open>What a local program's datagram or connection to a mapped port becomes: the addresses for the stack, unless it is dropped.\<close>

definition in_addresses :: "CurrentDeviceInfo \<Rightarrow> socket_addr \<Rightarrow> socket_addr \<Rightarrow> (socket_addr \<times> socket_addr) option" where
  "in_addresses d dest addr =
     (if is_unspecified (cd_virtual_ip d) then None
      else if (case dest of SockV4 ip _ \<Rightarrow> ip = cd_virtual_ip d | SockV6 _ _ _ _ \<Rightarrow> False) then None
      else Some (SockV4 (cd_virtual_ip d) (sa_port addr), dest))"

text \<open>Where something from the stack goes: to this host, if it means this device.\<close>

definition real_dest :: "CurrentDeviceInfo \<Rightarrow> socket_addr \<Rightarrow> socket_addr" where
  "real_dest d dest = (case dest of
     SockV4 ip port \<Rightarrow>
       if is_unspecified ip \<or> is_broadcast ip \<or> is_multicast ip \<or> ip = cd_virtual_ip d \<or> ip = cd_broadcast_ip d
       then SockV4 (Ipv4Addr_new 127 0 0 1) port else dest
   | SockV6 _ _ _ _ \<Rightarrow> dest)"

text \<open>A TCP connection from the stack: whom it is joined with, given how connecting ends (the local port).\<close>

definition tcp_mapping_handle :: "CurrentDeviceInfo \<Rightarrow> (socket_addr \<Rightarrow> u16 res) \<Rightarrow> socket_addr \<Rightarrow> socket_addr res" where
  "tcp_mapping_handle d connect dest = (let dest = real_dest d dest in
     bindE (connect dest) (\<lambda>local_port.
       if sa_port dest = local_port then Inl (Anyhow ''tcp port loop'') else Inr dest))"

section \<open>UDP: state\<close>

text \<open>The socket of a pair of addresses: that of a mapped port, with the client's address, or one that was opened for the pair.\<close>

datatype link_socket = Mapped nat socket_addr | Session nat

datatype link_pc =
    Link_receiving
  | Link_opening "socket_addr \<times> socket_addr" "u8 list"
  | Link_found "socket_addr \<times> socket_addr" link_socket "u8 list"
  | Link_stored "socket_addr \<times> socket_addr" link_socket "u8 list"

text \<open>
  The table, the sessions with their pairs and real destinations, and four logs: datagrams of local programs (with the port they came to),
  datagrams from the stack, and what was sent into the stack and over local sockets.
\<close>

record vn_link =
  vl_map :: "((socket_addr \<times> socket_addr) \<times> link_socket) list"
  vl_pair :: "nat \<Rightarrow> socket_addr \<times> socket_addr"
  vl_real :: "nat \<Rightarrow> socket_addr"
  vl_time :: "nat \<Rightarrow> nat"
  vl_task :: "nat \<Rightarrow> session_task"
  vl_next :: nat
  vl_now :: nat
  vl_pc :: link_pc
  vl_heard :: "(nat \<times> socket_addr \<times> u8 list) list"
  vl_stack :: "((socket_addr \<times> socket_addr) \<times> u8 list) list"
  vl_to_stack :: "((socket_addr \<times> socket_addr) \<times> u8 list) list"
  vl_local :: "(link_socket \<times> (socket_addr \<times> socket_addr) \<times> u8 list) list"

definition vn_link_new :: "nat \<Rightarrow> vn_link" where
  "vn_link_new now = \<lparr>vl_map = [], vl_pair = (\<lambda>_. (SockV4 0 0, SockV4 0 0)), vl_real = (\<lambda>_. SockV4 0 0), vl_time = (\<lambda>_. 0),
     vl_task = (\<lambda>_. Unborn), vl_next = 0, vl_now = now, vl_pc = Link_receiving, vl_heard = [], vl_stack = [], vl_to_stack = [],
     vl_local = []\<rparr>"

section \<open>UDP: operations\<close>

text \<open>A datagram of a local program at mapped port \<open>l\<close>; the entry is written for the way back.\<close>

definition in_datagram :: "nat \<Rightarrow> socket_addr \<Rightarrow> CurrentDeviceInfo \<Rightarrow> socket_addr \<Rightarrow> u8 list \<Rightarrow> vn_link \<Rightarrow> vn_link" where
  "in_datagram l dest d addr buf s = (let s = s\<lparr>vl_heard := vl_heard s @ [(l, addr, buf)]\<rparr> in
     case in_addresses d dest addr of
       None \<Rightarrow> s
     | Some (src, dest) \<Rightarrow> s\<lparr>vl_map := AList.update (dest, src) (Mapped l addr) (vl_map s),
         vl_to_stack := vl_to_stack s @ [((src, dest), buf)]\<rparr>)"

definition out_lookup :: "socket_addr \<times> socket_addr \<Rightarrow> u8 list \<Rightarrow> vn_link \<Rightarrow> vn_link" where
  "out_lookup pair buf s = (let s = s\<lparr>vl_stack := vl_stack s @ [(pair, buf)]\<rparr> in
     case map_of (vl_map s) pair of
       Some socket \<Rightarrow> s\<lparr>vl_pc := Link_found pair socket buf\<rparr>
     | None \<Rightarrow> s\<lparr>vl_pc := Link_opening pair buf\<rparr>)"

text \<open>The time is stored, then the datagram is sent: to the client over the mapped port, or over the pair's own socket.\<close>

definition out_store :: "link_socket \<Rightarrow> socket_addr \<times> socket_addr \<Rightarrow> u8 list \<Rightarrow> vn_link \<Rightarrow> vn_link" where
  "out_store socket pair buf s = (let s = s\<lparr>vl_pc := Link_stored pair socket buf\<rparr> in
     case socket of Session k \<Rightarrow> s\<lparr>vl_time := (vl_time s)(k := vl_now s)\<rparr> | Mapped _ _ \<Rightarrow> s)"

definition out_send :: "link_socket \<Rightarrow> socket_addr \<times> socket_addr \<Rightarrow> u8 list \<Rightarrow> vn_link \<Rightarrow> vn_link" where
  "out_send socket pair buf s = s\<lparr>vl_local := vl_local s @ [(socket, pair, buf)], vl_pc := Link_receiving\<rparr>"

text \<open>A new socket, connected to the real destination, has sent the datagram; it is entered and its task spawned.\<close>

definition out_open :: "socket_addr \<times> socket_addr \<Rightarrow> CurrentDeviceInfo \<Rightarrow> u8 list \<Rightarrow> vn_link \<Rightarrow> vn_link" where
  "out_open pair d buf s = (let k = vl_next s in
     s\<lparr>vl_map := AList.update pair (Session k) (vl_map s), vl_pair := (vl_pair s)(k := pair),
       vl_real := (vl_real s)(k := real_dest d (snd pair)), vl_time := (vl_time s)(k := vl_now s),
       vl_task := (vl_task s)(k := Awaiting (vl_now s)), vl_next := k + 1,
       vl_local := vl_local s @ [(Session k, pair, buf)], vl_pc := Link_receiving\<rparr>)"

text \<open>The task of a session: \<open>peer_udp_handle\<close>, and the removal after it.\<close>

definition peer_reply :: "nat \<Rightarrow> u8 list \<Rightarrow> vn_link \<Rightarrow> vn_link" where
  "peer_reply k buf s = s\<lparr>vl_task := (vl_task s)(k := Awaiting (vl_now s)),
     vl_to_stack := vl_to_stack s @ [((snd (vl_pair s k), fst (vl_pair s k)), buf)]\<rparr>"

definition peer_timeout :: "nat \<Rightarrow> vn_link \<Rightarrow> vn_link" where
  "peer_timeout k s = s\<lparr>vl_task := (vl_task s)(k := if vl_now s - vl_time s k > 580 * NANOS then Leaving else Awaiting (vl_now s))\<rparr>"

definition peer_remove :: "nat \<Rightarrow> vn_link \<Rightarrow> vn_link" where
  "peer_remove k s = s\<lparr>vl_task := (vl_task s)(k := Gone), vl_map := AList.delete (vl_pair s k) (vl_map s)\<rparr>"

text \<open>The steps, for given mappings; the device may be any at any time.\<close>

inductive vl_step :: "LinkItem list \<Rightarrow> vn_link \<Rightarrow> vn_link \<Rightarrow> bool" for items where
  link_passes: "vl_step items s (s\<lparr>vl_now := vl_now s + n\<rparr>)"
| hears: "l < length items \<Longrightarrow> li_protocol (items ! l) = Link_Udp \<Longrightarrow>
    vl_step items s (in_datagram l (li_dest (items ! l)) d addr buf s)"
| from_stack: "vl_pc s = Link_receiving \<Longrightarrow> vl_step items s (out_lookup pair buf s)"
| link_stores: "vl_pc s = Link_found pair socket buf \<Longrightarrow> vl_step items s (out_store socket pair buf s)"
| link_sends: "vl_pc s = Link_stored pair socket buf \<Longrightarrow> vl_step items s (out_send socket pair buf s)"
| link_fails: "vl_pc s = Link_stored pair socket buf \<or> vl_pc s = Link_opening pair buf \<Longrightarrow>
    vl_step items s (s\<lparr>vl_pc := Link_receiving\<rparr>)"
| link_opens: "vl_pc s = Link_opening pair buf \<Longrightarrow> vl_step items s (out_open pair d buf s)"
| peer_replies: "vl_task s k = Awaiting t \<Longrightarrow> vl_step items s (peer_reply k buf s)"
| peer_fails: "vl_task s k = Awaiting t \<Longrightarrow> vl_step items s (s\<lparr>vl_task := (vl_task s)(k := Leaving)\<rparr>)"
| peer_times_out: "vl_task s k = Awaiting t \<Longrightarrow> t + 600 * NANOS \<le> vl_now s \<Longrightarrow> vl_step items s (peer_timeout k s)"
| peer_removes: "vl_task s k = Leaving \<Longrightarrow> vl_step items s (peer_remove k s)"

inductive vl_reach :: "LinkItem list \<Rightarrow> vn_link \<Rightarrow> vn_link \<Rightarrow> bool" for items s where
  vl_start: "vl_reach items s s"
| vl_more: "vl_reach items s t \<Longrightarrow> vl_step items t u \<Longrightarrow> vl_reach items s u"

section \<open>Facts\<close>

definition vl_live :: "vn_link \<Rightarrow> nat \<Rightarrow> bool" where
  "vl_live s k \<longleftrightarrow> vl_task s k = Leaving \<or> (\<exists>t. vl_task s k = Awaiting t)"

text \<open>The socket serves the pair: of a mapped port, the pair has the port's destination and the port of a client that was heard.\<close>

definition serves :: "LinkItem list \<Rightarrow> vn_link \<Rightarrow> link_socket \<Rightarrow> socket_addr \<times> socket_addr \<Rightarrow> bool" where
  "serves items s socket p = (case socket of
     Mapped l a \<Rightarrow> l < length items \<and> li_protocol (items ! l) = Link_Udp \<and> fst p = li_dest (items ! l) \<and> sa_port (snd p) = sa_port a \<and>
       (\<exists>b. (l, a, b) \<in> set (vl_heard s))
   | Session k \<Rightarrow> k < vl_next s \<and> vl_pair s k = p)"

definition comes_from :: "LinkItem list \<Rightarrow> vn_link \<Rightarrow> (socket_addr \<times> socket_addr) \<times> u8 list \<Rightarrow> bool" where
  "comes_from items s x \<longleftrightarrow> (\<exists>l a. l < length items \<and> li_protocol (items ! l) = Link_Udp \<and> (l, a, snd x) \<in> set (vl_heard s) \<and>
       snd (fst x) = li_dest (items ! l) \<and> sa_port (fst (fst x)) = sa_port a) \<or>
     (\<exists>k < vl_next s. vl_pair s k = (snd (fst x), fst (fst x)))"

definition vl_inv :: "LinkItem list \<Rightarrow> vn_link \<Rightarrow> bool" where
  "vl_inv items s \<longleftrightarrow>
     (\<forall>p socket. map_of (vl_map s) p = Some socket \<longrightarrow> serves items s socket p) \<and>
     (\<forall>k. vl_live s k \<longrightarrow> map_of (vl_map s) (vl_pair s k) \<noteq> None) \<and>
     (\<forall>j k. vl_live s j \<longrightarrow> vl_live s k \<longrightarrow> vl_pair s j = vl_pair s k \<longrightarrow> j = k) \<and>
     (\<forall>k \<ge> vl_next s. vl_task s k = Unborn) \<and>
     (\<forall>k < vl_next s. \<exists>d. vl_real s k = real_dest d (snd (vl_pair s k))) \<and>
     (\<forall>x \<in> set (vl_local s). snd x \<in> set (vl_stack s) \<and> serves items s (fst x) (fst (snd x))) \<and>
     (\<forall>x \<in> set (vl_to_stack s). comes_from items s x) \<and>
     (case vl_pc s of Link_receiving \<Rightarrow> True
      | Link_opening p b \<Rightarrow> (p, b) \<in> set (vl_stack s) \<and> (\<forall>k. vl_live s k \<longrightarrow> vl_pair s k \<noteq> p)
      | Link_found p socket b \<Rightarrow> (p, b) \<in> set (vl_stack s) \<and> serves items s socket p
      | Link_stored p socket b \<Rightarrow> (p, b) \<in> set (vl_stack s) \<and> serves items s socket p)"

lemma vn_link_new_inv: "vl_inv items (vn_link_new now)"
  by (simp add: vl_inv_def vn_link_new_def vl_live_def)

lemma vl_live_known: "vl_inv items s \<Longrightarrow> vl_live s k \<Longrightarrow> k < vl_next s"
proof -
  assume i: "vl_inv items s" and l: "vl_live s k"
  have "\<forall>k \<ge> vl_next s. vl_task s k = Unborn" using i unfolding vl_inv_def by (elim conjE)
  with l show "k < vl_next s" by (metis vl_live_def not_less session_task.distinct(1,3))
qed

text \<open>Logs and the table of sessions only grow, so that what served once serves for good.\<close>

definition grows :: "vn_link \<Rightarrow> vn_link \<Rightarrow> bool" where
  "grows s s' \<longleftrightarrow> set (vl_heard s) \<subseteq> set (vl_heard s') \<and> set (vl_stack s) \<subseteq> set (vl_stack s') \<and> vl_next s \<le> vl_next s' \<and>
     (\<forall>k < vl_next s. vl_pair s' k = vl_pair s k \<and> vl_real s' k = vl_real s k)"

lemma serves_grows: "grows s s' \<Longrightarrow> serves items s socket p \<Longrightarrow> serves items s' socket p"
  by (auto simp: grows_def serves_def split: link_socket.splits)

lemma comes_from_grows: "grows s s' \<Longrightarrow> comes_from items s x \<Longrightarrow> comes_from items s' x"
proof -
  assume g: "grows s s'" and c: "comes_from items s x"
  have h: "set (vl_heard s) \<subseteq> set (vl_heard s')" "vl_next s \<le> vl_next s'" "\<And>k. k < vl_next s \<Longrightarrow> vl_pair s' k = vl_pair s k"
    using g by (simp_all add: grows_def)
  from c h show ?thesis unfolding comes_from_def by (elim disjE) (blast, metis order_less_le_trans)
qed

text \<open>The part of the invariant that grows, for a step that adds to the logs.\<close>

lemma vl_inv_grows:
  assumes "vl_inv items s" "grows s s'"
    and "\<And>p socket. map_of (vl_map s') p = Some socket \<Longrightarrow> map_of (vl_map s) p = Some socket \<or> serves items s' socket p"
    and "\<And>k. vl_live s' k \<Longrightarrow> map_of (vl_map s') (vl_pair s' k) \<noteq> None"
    and "\<And>j k. vl_live s' j \<Longrightarrow> vl_live s' k \<Longrightarrow> vl_pair s' j = vl_pair s' k \<Longrightarrow> j = k"
    and "\<And>k. vl_next s' \<le> k \<Longrightarrow> vl_task s' k = Unborn"
    and "\<And>k. vl_next s \<le> k \<Longrightarrow> k < vl_next s' \<Longrightarrow> \<exists>d. vl_real s' k = real_dest d (snd (vl_pair s' k))"
    and "\<And>x. x \<in> set (vl_local s') \<Longrightarrow> x \<in> set (vl_local s) \<or> snd x \<in> set (vl_stack s') \<and> serves items s' (fst x) (fst (snd x))"
    and "\<And>x. x \<in> set (vl_to_stack s') \<Longrightarrow> x \<in> set (vl_to_stack s) \<or> comes_from items s' x"
    and "case vl_pc s' of Link_receiving \<Rightarrow> True
      | Link_opening p b \<Rightarrow> (p, b) \<in> set (vl_stack s') \<and> (\<forall>k. vl_live s' k \<longrightarrow> vl_pair s' k \<noteq> p)
      | Link_found p socket b \<Rightarrow> (p, b) \<in> set (vl_stack s') \<and> serves items s' socket p
      | Link_stored p socket b \<Rightarrow> (p, b) \<in> set (vl_stack s') \<and> serves items s' socket p"
  shows "vl_inv items s'"
proof -
  note i = assms(1)[unfolded vl_inv_def]
  have "serves items s' socket p" if "map_of (vl_map s') p = Some socket" for p socket
    using assms(3)[OF that] i serves_grows[OF assms(2)] by blast
  moreover have "\<exists>d. vl_real s' k = real_dest d (snd (vl_pair s' k))" if "k < vl_next s'" for k
  proof (cases "k < vl_next s")
    case True
    then show ?thesis using i assms(2) unfolding grows_def by metis
  qed (use assms(7) that in simp)
  moreover have "snd x \<in> set (vl_stack s') \<and> serves items s' (fst x) (fst (snd x))" if "x \<in> set (vl_local s')" for x
    using assms(8)[OF that] i serves_grows[OF assms(2)] assms(2) unfolding grows_def by blast
  moreover have "comes_from items s' x" if "x \<in> set (vl_to_stack s')" for x
    using assms(9)[OF that] i comes_from_grows[OF assms(2)] by blast
  ultimately show ?thesis using assms(4-6,10) unfolding vl_inv_def by blast
qed

lemma vl_invD:
  assumes "vl_inv items s"
  shows "\<And>p socket. map_of (vl_map s) p = Some socket \<Longrightarrow> serves items s socket p"
    and "\<And>k. vl_live s k \<Longrightarrow> map_of (vl_map s) (vl_pair s k) \<noteq> None"
    and "\<And>j k. vl_live s j \<Longrightarrow> vl_live s k \<Longrightarrow> vl_pair s j = vl_pair s k \<Longrightarrow> j = k"
    and "\<And>k. vl_next s \<le> k \<Longrightarrow> vl_task s k = Unborn"
    and "case vl_pc s of Link_receiving \<Rightarrow> True
      | Link_opening p b \<Rightarrow> (p, b) \<in> set (vl_stack s) \<and> (\<forall>k. vl_live s k \<longrightarrow> vl_pair s k \<noteq> p)
      | Link_found p socket b \<Rightarrow> (p, b) \<in> set (vl_stack s) \<and> serves items s socket p
      | Link_stored p socket b \<Rightarrow> (p, b) \<in> set (vl_stack s) \<and> serves items s socket p"
  using assms unfolding vl_inv_def by blast+

text \<open>Steps that change none of table, sessions and logs.\<close>

lemma serves_same: "vl_heard s' = vl_heard s \<Longrightarrow> vl_next s' = vl_next s \<Longrightarrow> vl_pair s' = vl_pair s \<Longrightarrow>
    serves items s' socket p = serves items s socket p"
  by (simp add: serves_def split: link_socket.split)

lemma in_datagram_inv:
  assumes "vl_inv items s" "l < length items" "li_protocol (items ! l) = Link_Udp"
  shows "vl_inv items (in_datagram l (li_dest (items ! l)) d addr buf s)"
proof -
  let ?s = "in_datagram l (li_dest (items ! l)) d addr buf s"
  note i = vl_invD[OF assms(1)]
  have g: "grows s ?s" by (auto simp: grows_def in_datagram_def Let_def split: option.splits)
  have same: "vl_live ?s k = vl_live s k" "vl_pair ?s = vl_pair s" "vl_task ?s = vl_task s" "vl_next ?s = vl_next s"
    "vl_real ?s = vl_real s" "vl_local ?s = vl_local s" "vl_pc ?s = vl_pc s" "vl_stack ?s = vl_stack s" for k
    by (auto simp: vl_live_def in_datagram_def Let_def split: option.splits)
  have h: "(l, addr, buf) \<in> set (vl_heard ?s)" by (auto simp: in_datagram_def Let_def split: option.splits)
  have a: "snd x = li_dest (items ! l) \<and> sa_port (fst x) = sa_port addr" if "in_addresses d (li_dest (items ! l)) addr = Some x" for x
    using that by (auto simp: in_addresses_def split: if_splits)
  show ?thesis
  proof (rule vl_inv_grows[OF assms(1) g])
    fix p socket assume m: "map_of (vl_map ?s) p = Some socket"
    have "socket = Mapped l addr \<and> fst p = li_dest (items ! l) \<and> sa_port (snd p) = sa_port addr"
      if "map_of (vl_map s) p \<noteq> Some socket"
      using that m a by (auto simp: in_datagram_def Let_def update_conv' split: option.splits if_splits)
    then show "map_of (vl_map s) p = Some socket \<or> serves items ?s socket p"
      using assms(2,3) h by (cases "map_of (vl_map s) p = Some socket") (auto simp: serves_def)
  next
    fix k assume "vl_live ?s k"
    with i(2)[of k] show "map_of (vl_map ?s) (vl_pair ?s k) \<noteq> None"
      unfolding same by (auto simp: in_datagram_def Let_def update_conv' split: option.splits)
  next
    fix x assume m: "x \<in> set (vl_to_stack ?s)"
    have "snd x = buf \<and> snd (fst x) = li_dest (items ! l) \<and> sa_port (fst (fst x)) = sa_port addr" if "x \<notin> set (vl_to_stack s)"
      using that m a by (auto simp: in_datagram_def Let_def split: option.splits)
    then show "x \<in> set (vl_to_stack s) \<or> comes_from items ?s x"
      using assms(2,3) h unfolding comes_from_def by blast
  next
    show "case vl_pc ?s of Link_receiving \<Rightarrow> True
      | Link_opening p b \<Rightarrow> (p, b) \<in> set (vl_stack ?s) \<and> (\<forall>k. vl_live ?s k \<longrightarrow> vl_pair ?s k \<noteq> p)
      | Link_found p socket b \<Rightarrow> (p, b) \<in> set (vl_stack ?s) \<and> serves items ?s socket p
      | Link_stored p socket b \<Rightarrow> (p, b) \<in> set (vl_stack ?s) \<and> serves items ?s socket p"
      using i(5) serves_grows[OF g] unfolding same by (auto split: link_pc.splits)
  qed (use i(3,4) in \<open>simp_all add: same\<close>)
qed

lemma out_lookup_inv:
  assumes "vl_inv items s" "vl_pc s = Link_receiving"
  shows "vl_inv items (out_lookup pair buf s)"
proof -
  let ?s = "out_lookup pair buf s"
  note i = vl_invD[OF assms(1)]
  have g: "grows s ?s" by (auto simp: grows_def out_lookup_def Let_def split: option.splits)
  have same: "vl_live ?s k = vl_live s k" "vl_pair ?s = vl_pair s" "vl_task ?s = vl_task s" "vl_next ?s = vl_next s"
    "vl_map ?s = vl_map s" "vl_local ?s = vl_local s" "vl_to_stack ?s = vl_to_stack s" for k
    by (auto simp: vl_live_def out_lookup_def Let_def split: option.splits)
  have st: "(pair, buf) \<in> set (vl_stack ?s)" by (auto simp: out_lookup_def Let_def split: option.splits)
  have "case vl_pc ?s of Link_receiving \<Rightarrow> True
      | Link_opening p b \<Rightarrow> (p, b) \<in> set (vl_stack ?s) \<and> (\<forall>k. vl_live ?s k \<longrightarrow> vl_pair ?s k \<noteq> p)
      | Link_found p socket b \<Rightarrow> (p, b) \<in> set (vl_stack ?s) \<and> serves items ?s socket p
      | Link_stored p socket b \<Rightarrow> (p, b) \<in> set (vl_stack ?s) \<and> serves items ?s socket p"
  proof (cases "map_of (vl_map s) pair")
    case None
    then have "vl_pc ?s = Link_opening pair buf" by (simp add: out_lookup_def)
    moreover have "vl_pair s k \<noteq> pair" if "vl_live s k" for k using i(2)[OF that] None by metis
    ultimately show ?thesis using st unfolding same by simp
  next
    case (Some socket)
    then have "vl_pc ?s = Link_found pair socket buf" by (simp add: out_lookup_def)
    with st serves_grows[OF g i(1)[OF Some]] show ?thesis by simp
  qed
  then show ?thesis by (intro vl_inv_grows[OF assms(1) g]) (use i(2-4) in \<open>simp_all add: same\<close>)
qed

lemma out_open_inv:
  assumes "vl_inv items s" "vl_pc s = Link_opening pair buf"
  shows "vl_inv items (out_open pair d buf s)"
proof -
  let ?s = "out_open pair d buf s" let ?k = "vl_next s"
  note i = vl_invD[OF assms(1)]
  have o: "(pair, buf) \<in> set (vl_stack s)" "\<And>k. vl_live s k \<Longrightarrow> vl_pair s k \<noteq> pair" using i(5) assms(2) by simp_all
  have g: "grows s ?s" by (simp add: grows_def out_open_def Let_def)
  have new: "serves items ?s (Session ?k) pair" by (simp add: serves_def out_open_def Let_def)
  have live: "vl_live ?s k \<longleftrightarrow> k = ?k \<or> vl_live s k" for k
    by (auto simp: vl_live_def out_open_def Let_def)
  have known: "vl_live s k \<Longrightarrow> k \<noteq> ?k" for k using vl_live_known[OF assms(1)] by blast
  show ?thesis
  proof (rule vl_inv_grows[OF assms(1) g])
    fix p socket assume "map_of (vl_map ?s) p = Some socket"
    then show "map_of (vl_map s) p = Some socket \<or> serves items ?s socket p"
      using new by (auto simp: out_open_def Let_def update_conv' split: if_splits)
  next
    fix k assume "vl_live ?s k"
    then show "map_of (vl_map ?s) (vl_pair ?s k) \<noteq> None"
      using i(2)[of k] unfolding live by (auto simp: out_open_def Let_def update_conv')
  next
    fix j k assume "vl_live ?s j" "vl_live ?s k" "vl_pair ?s j = vl_pair ?s k"
    then show "j = k" using i(3)[of j k] o(2) known unfolding live by (auto simp: out_open_def Let_def split: if_splits)
  next
    fix x assume "x \<in> set (vl_local ?s)"
    then show "x \<in> set (vl_local s) \<or> snd x \<in> set (vl_stack ?s) \<and> serves items ?s (fst x) (fst (snd x))"
      using new o(1) by (auto simp: out_open_def Let_def serves_def)
  next
    fix k assume "?k \<le> k" "k < vl_next ?s"
    then show "\<exists>d. vl_real ?s k = real_dest d (snd (vl_pair ?s k))" by (auto simp: out_open_def Let_def)
  qed (use i(4) in \<open>auto simp: out_open_def Let_def\<close>)
qed

lemma peer_remove_inv:
  assumes "vl_inv items s" "vl_live s k"
  shows "vl_inv items (peer_remove k s)"
proof -
  let ?s = "peer_remove k s"
  note i = vl_invD[OF assms(1)]
  have g: "grows s ?s" by (simp add: grows_def peer_remove_def)
  have live: "vl_live ?s j \<longleftrightarrow> j \<noteq> k \<and> vl_live s j" for j by (auto simp: vl_live_def peer_remove_def)
  have same: "vl_pair ?s = vl_pair s" "vl_next ?s = vl_next s" "vl_stack ?s = vl_stack s" "vl_pc ?s = vl_pc s" "vl_local ?s = vl_local s"
    "vl_to_stack ?s = vl_to_stack s" by (simp_all add: peer_remove_def)
  show ?thesis
  proof (rule vl_inv_grows[OF assms(1) g])
    fix j assume "vl_live ?s j"
    with i(2)[of j] i(3)[OF assms(2), of j] show "map_of (vl_map ?s) (vl_pair ?s j) \<noteq> None"
      unfolding live by (auto simp: peer_remove_def delete_conv' split: if_splits)
  next
    fix m assume "vl_next ?s \<le> m"
    with i(4)[of m] vl_live_known[OF assms] show "vl_task ?s m = Unborn" by (auto simp: peer_remove_def)
  next
    fix j m assume "vl_live ?s j" "vl_live ?s m" "vl_pair ?s j = vl_pair ?s m"
    then show "j = m" using i(3)[of j m] unfolding live same by simp
  next
    show "case vl_pc ?s of Link_receiving \<Rightarrow> True
      | Link_opening p b \<Rightarrow> (p, b) \<in> set (vl_stack ?s) \<and> (\<forall>k. vl_live ?s k \<longrightarrow> vl_pair ?s k \<noteq> p)
      | Link_found p socket b \<Rightarrow> (p, b) \<in> set (vl_stack ?s) \<and> serves items ?s socket p
      | Link_stored p socket b \<Rightarrow> (p, b) \<in> set (vl_stack ?s) \<and> serves items ?s socket p"
      using i(5) serves_grows[OF g] unfolding same live by (auto split: link_pc.splits)
  qed (auto simp: peer_remove_def delete_conv' split: if_splits)
qed

text \<open>Steps that change neither table nor the identity of sessions nor what is live.\<close>

lemma quiet_inv:
  assumes "vl_inv items s" "vl_map s' = vl_map s" "vl_pair s' = vl_pair s" "vl_real s' = vl_real s" "vl_next s' = vl_next s"
    and "vl_heard s' = vl_heard s" "vl_stack s' = vl_stack s"
    and "\<And>k. vl_live s' k = vl_live s k" "\<And>k. vl_next s \<le> k \<Longrightarrow> vl_task s' k = Unborn"
    and "\<And>x. x \<in> set (vl_local s') \<Longrightarrow> x \<in> set (vl_local s) \<or> snd x \<in> set (vl_stack s) \<and> serves items s (fst x) (fst (snd x))"
    and "\<And>x. x \<in> set (vl_to_stack s') \<Longrightarrow> x \<in> set (vl_to_stack s) \<or> comes_from items s x"
    and "vl_pc s' = vl_pc s \<or> vl_pc s' = Link_receiving \<or> (\<exists>p socket b. vl_pc s = Link_found p socket b \<and> vl_pc s' = Link_stored p socket b)"
  shows "vl_inv items s'"
proof -
  note i = vl_invD[OF assms(1)]
  have g: "grows s s'" using assms(3-7) by (simp add: grows_def)
  show ?thesis
  proof (rule vl_inv_grows[OF assms(1) g])
    show "case vl_pc s' of Link_receiving \<Rightarrow> True
      | Link_opening p b \<Rightarrow> (p, b) \<in> set (vl_stack s') \<and> (\<forall>k. vl_live s' k \<longrightarrow> vl_pair s' k \<noteq> p)
      | Link_found p socket b \<Rightarrow> (p, b) \<in> set (vl_stack s') \<and> serves items s' socket p
      | Link_stored p socket b \<Rightarrow> (p, b) \<in> set (vl_stack s') \<and> serves items s' socket p"
      using assms(12) i(5) serves_grows[OF g] unfolding assms(3,7,8) by (auto split: link_pc.splits)
  next
    fix x assume "x \<in> set (vl_local s')"
    with assms(10) serves_grows[OF g] show "x \<in> set (vl_local s) \<or> snd x \<in> set (vl_stack s') \<and> serves items s' (fst x) (fst (snd x))"
      unfolding assms(7) by blast
  next
    fix x assume "x \<in> set (vl_to_stack s')"
    with assms(11) comes_from_grows[OF g] show "x \<in> set (vl_to_stack s) \<or> comes_from items s' x" by blast
  qed (use i(2,3) assms(2-9) in simp_all)
qed

lemma vl_step_inv: "vl_step items s t \<Longrightarrow> vl_inv items s \<Longrightarrow> vl_inv items t"
proof (induction rule: vl_step.induct)
  case (hears l s d addr buf)
  then show ?case by (intro in_datagram_inv)
next
  case (from_stack s pair buf)
  then show ?case by (intro out_lookup_inv)
next
  case (link_opens s pair buf d)
  then show ?case by (intro out_open_inv)
next
  case (peer_removes s k)
  then show ?case by (intro peer_remove_inv) (simp_all add: vl_live_def)
next
  case (link_stores s pair socket buf)
  note i = vl_invD[OF link_stores.prems]
  show ?case
    by (rule quiet_inv[OF link_stores.prems]) (use link_stores i(4) in \<open>auto simp: out_store_def Let_def vl_live_def split: link_socket.splits\<close>)
next
  case (link_sends s pair socket buf)
  note i = vl_invD[OF link_sends.prems]
  show ?case
    by (rule quiet_inv[OF link_sends.prems]) (use link_sends.hyps i(4,5) in \<open>auto simp: out_send_def vl_live_def\<close>)
next
  case (peer_replies s k t buf)
  note i = vl_invD[OF peer_replies.prems]
  have k: "k < vl_next s" using peer_replies vl_live_known[OF peer_replies.prems] by (simp add: vl_live_def)
  show ?case
    by (rule quiet_inv[OF peer_replies.prems]) (use peer_replies.hyps i(4) k in \<open>auto simp: peer_reply_def vl_live_def comes_from_def\<close>)
next
  case (peer_fails s k t)
  note i = vl_invD[OF peer_fails.prems]
  have k: "k < vl_next s" using peer_fails vl_live_known[OF peer_fails.prems] by (simp add: vl_live_def)
  show ?case by (rule quiet_inv[OF peer_fails.prems]) (use peer_fails.hyps i(4) k in \<open>auto simp: vl_live_def\<close>)
next
  case (peer_times_out s k t)
  note i = vl_invD[OF peer_times_out.prems]
  have k: "k < vl_next s" using peer_times_out vl_live_known[OF peer_times_out.prems] by (simp add: vl_live_def)
  show ?case
    by (rule quiet_inv[OF peer_times_out.prems]) (use peer_times_out.hyps i(4) k in \<open>auto simp: peer_timeout_def vl_live_def\<close>)
next
  case (link_passes s n)
  show ?case by (rule quiet_inv[OF link_passes]) (use vl_invD(4)[OF link_passes] in \<open>auto simp: vl_live_def\<close>)
next
  case (link_fails s pair socket buf)
  show ?case by (rule quiet_inv[OF link_fails.prems]) (use vl_invD(4)[OF link_fails.prems] in \<open>auto simp: vl_live_def\<close>)
qed

lemma vl_reach_inv: "vl_reach items s t \<Longrightarrow> vl_inv items s \<Longrightarrow> vl_inv items t"
  by (induction rule: vl_reach.induct) (auto intro: vl_step_inv)

section \<open>Properties\<close>

text \<open>
  C20. Nothing reaches a wrong socket. Whatever arrives from local programs and from the virtual network, in whatever order, and however the
  tasks interleave: what is sent to a client over a mapped port came from exactly that port's destination and was addressed
  to the client's port, and the client had been heard there; what is sent over a socket of its own came from and was addressed to the
  pair the socket was opened for, which is connected to that address, or to this host if the address means
  this device; and what enters the virtual network came from such a client or answers such a pair.
\<close>

theorem link_isolated:
  assumes "vl_reach items (vn_link_new now) s"
  shows "(\<forall>(socket, pair, buf) \<in> set (vl_local s). (pair, buf) \<in> set (vl_stack s) \<and> (case socket of
       Mapped l addr \<Rightarrow> l < length items \<and> fst pair = li_dest (items ! l) \<and> sa_port (snd pair) = sa_port addr \<and>
         (\<exists>b. (l, addr, b) \<in> set (vl_heard s))
     | Session k \<Rightarrow> vl_pair s k = pair \<and> (\<exists>d. vl_real s k = real_dest d (snd pair)))) \<and>
   (\<forall>((src, dest), buf) \<in> set (vl_to_stack s).
     (\<exists>l addr. (l, addr, buf) \<in> set (vl_heard s) \<and> dest = li_dest (items ! l) \<and> sa_port src = sa_port addr) \<or>
     (\<exists>k. vl_pair s k = (dest, src)))"
proof -
  have i: "vl_inv items s" by (rule vl_reach_inv[OF assms vn_link_new_inv])
  then have l: "\<forall>x \<in> set (vl_local s). snd x \<in> set (vl_stack s) \<and> serves items s (fst x) (fst (snd x))"
    and r: "\<forall>k < vl_next s. \<exists>d. vl_real s k = real_dest d (snd (vl_pair s k))"
    and t: "\<forall>x \<in> set (vl_to_stack s). comes_from items s x"
    unfolding vl_inv_def by blast+
  have "(pair, buf) \<in> set (vl_stack s) \<and> (case socket of
       Mapped l addr \<Rightarrow> l < length items \<and> fst pair = li_dest (items ! l) \<and> sa_port (snd pair) = sa_port addr \<and>
         (\<exists>b. (l, addr, b) \<in> set (vl_heard s))
     | Session k \<Rightarrow> vl_pair s k = pair \<and> (\<exists>d. vl_real s k = real_dest d (snd pair)))"
    if "(socket, pair, buf) \<in> set (vl_local s)" for socket pair buf
    using l[rule_format, OF that] r by (auto simp: serves_def split: link_socket.splits)
  moreover have "(\<exists>l addr. (l, addr, buf) \<in> set (vl_heard s) \<and> dest = li_dest (items ! l) \<and> sa_port src = sa_port addr) \<or>
     (\<exists>k. vl_pair s k = (dest, src))" if "((src, dest), buf) \<in> set (vl_to_stack s)" for src dest buf
    using t[rule_format, OF that] by (auto simp: comes_from_def)
  ultimately show ?thesis by blast
qed

text \<open>A client asks over mapped port 0, and the answer of the destination goes back to it.\<close>

lemma link_run:
  fixes d :: CurrentDeviceInfo
  assumes "cd_virtual_ip d = 5" "items = [\<lparr>li_protocol = Link_Udp, li_src_port = 80, li_dest = SockV4 7 53\<rparr>]"
  shows "\<exists>s. vl_reach items (vn_link_new 0) s \<and> vl_to_stack s = [((SockV4 5 4000, SockV4 7 53), [1])] \<and>
    vl_local s = [(Mapped 0 (SockV4 1 4000), (SockV4 7 53, SockV4 5 4000), [2])]"
proof -
  define s1 where "s1 = in_datagram 0 (li_dest (items ! 0)) d (SockV4 1 4000) [1] (vn_link_new 0)"
  define s2 where "s2 = out_lookup (SockV4 7 53, SockV4 5 4000) [2] s1"
  define s3 where "s3 = out_store (Mapped 0 (SockV4 1 4000)) (SockV4 7 53, SockV4 5 4000) [2] s2"
  define s4 where "s4 = out_send (Mapped 0 (SockV4 1 4000)) (SockV4 7 53, SockV4 5 4000) [2] s3"
  note defs = s1_def s2_def s3_def s4_def in_datagram_def out_lookup_def out_store_def out_send_def in_addresses_def vn_link_new_def Let_def
    assms is_unspecified_def
  have "vl_step items (vn_link_new 0) s1" unfolding s1_def by (rule hears) (simp_all add: assms)
  moreover have "vl_step items s1 s2" unfolding s2_def by (rule from_stack) (simp add: defs)
  moreover have "vl_step items s2 s3" unfolding s3_def by (rule link_stores) (simp add: defs)
  moreover have "vl_step items s3 s4" unfolding s4_def by (rule link_sends) (simp add: defs)
  ultimately have "vl_reach items (vn_link_new 0) s4" by (meson vl_start vl_more)
  moreover have "vl_to_stack s4 = [((SockV4 5 4000, SockV4 7 53), [1])]"
    "vl_local s4 = [(Mapped 0 (SockV4 1 4000), (SockV4 7 53, SockV4 5 4000), [2])]"
    by (simp_all add: defs)
  ultimately show ?thesis by blast
qed

lemma link_isolated_witness:
  "\<exists>items s. vl_reach items (vn_link_new 0) s \<and> vl_local s \<noteq> [] \<and>
     (\<forall>(socket, pair, buf) \<in> set (vl_local s). (pair, buf) \<in> set (vl_stack s))"
proof -
  obtain d :: CurrentDeviceInfo where d: "cd_virtual_ip d = 5" by (metis CurrentDeviceInfo.select_convs(1))
  define items where "items = [\<lparr>li_protocol = Link_Udp, li_src_port = 80, li_dest = SockV4 7 53\<rparr>]"
  obtain s where s: "vl_reach items (vn_link_new 0) s" "vl_local s \<noteq> []" using link_run[OF d items_def] by fastforce
  from link_isolated[OF s(1)] s show ?thesis by (intro exI[of _ items] exI[of _ s]) fastforce
qed

text \<open>A session that ends takes away the entry that a mapped port has meanwhile written for the same pair: the next answer opens a socket.\<close>

lemma session_unmaps:
  "vl_task s k = Leaving \<Longrightarrow> map_of (vl_map s) (vl_pair s k) = Some (Mapped l addr) \<Longrightarrow> vl_pc s = Link_receiving \<Longrightarrow>
   vl_step items s (peer_remove k s) \<and>
   vl_step items (peer_remove k s) (out_lookup (vl_pair s k) buf (peer_remove k s)) \<and>
   vl_pc (out_lookup (vl_pair s k) buf (peer_remove k s)) = Link_opening (vl_pair s k) buf"
  by (intro conjI peer_removes from_stack) (simp_all add: peer_remove_def out_lookup_def delete_conv' Let_def)

end
