(* ===== verification/Console.thy ===== *)
theory Console
  imports Commands "HOL-Library.List_Lexorder" "HOL-Library.Char_ord" "HOL-Library.Log_Nat"
begin

text \<open>
  What the command line program prints, \<^verbatim>\<open>common/src/console_out\<close>: the tables of routes and devices, the state of the instance
  and the charts of its traffic. A table is its rows of texts with colours; the colours of single words in other lines are left
  out. How many columns a text takes (\<^verbatim>\<open>console::measure_text_width\<close>) is a parameter. The bars of the charts are
  computed in floating point, which is modelled by its rounding.
\<close>

section \<open>Tables\<close>

datatype colour = Plain | Green | Yellow | Red | Grey

type_synonym cell = "string \<times> colour"

text \<open>Strings are their UTF-8 bytes; padding counts characters.\<close>

definition char_count :: "string \<Rightarrow> nat" where
  "char_count s = length (filter (\<lambda>c. \<not> cont (of_char c)) s)"

definition pad :: "nat \<Rightarrow> string \<Rightarrow> string" where
  "pad w s = s @ replicate (w - char_count s) (CHR '' '')"

text \<open>The widths of the columns so far, after one more row; a row longer than the first one is out of range.\<close>

fun widen :: "(string \<Rightarrow> nat) \<Rightarrow> nat list \<Rightarrow> cell list \<Rightarrow> nat list res" where
  "widen width ws [] = Inr ws"
| "widen width [] (c # cs) = Inl Panic"
| "widen width (w # ws) (c # cs) = mapE ((#) (max w (width (fst c) + 4))) (widen width ws cs)"

fun width_list :: "(string \<Rightarrow> nat) \<Rightarrow> nat list \<Rightarrow> cell list list \<Rightarrow> nat list res" where
  "width_list width ws [] = Inr ws"
| "width_list width ws (r # rs) = bindE (widen width ws r) (\<lambda>ws. width_list width ws rs)"

definition println_table :: "(string \<Rightarrow> nat) \<Rightarrow> cell list list \<Rightarrow> cell list list res" where
  "println_table width table = (case table of
     [] \<Rightarrow> Inr []
   | r # _ \<Rightarrow> mapE (\<lambda>ws. map (\<lambda>row. map (\<lambda>(w, item, style). (pad w item, style)) (zip ws row)) table)
       (width_list width (replicate (length r) 0) table))"

definition coloured :: "colour \<Rightarrow> string list \<Rightarrow> cell list" where
  "coloured c = map (\<lambda>s. (s, c))"

definition route_rows :: "RouteItem list \<Rightarrow> cell list list" where
  "route_rows list = coloured Plain [''Destination'', ''Next Hop'', ''Metric'', ''Rt'', ''Interface''] #
     map (\<lambda>i. coloured Green [re_destination i, re_next_hop i, re_metric i, re_rt i, re_interface i]) (sort_key re_destination list)"

text \<open>\<open>None\<close>: there is nothing to show.\<close>

definition console_route_table :: "(string \<Rightarrow> nat) \<Rightarrow> RouteItem list \<Rightarrow> cell list list res option" where
  "console_route_table width list = (if list = [] then None else Some (println_table width (route_rows list)))"

definition mismatch :: "DeviceItem \<Rightarrow> bool" where
  "mismatch i \<longleftrightarrow> \<not> dm_wire_guard i \<and> (dm_client_secret i \<noteq> dm_current_client_secret i \<or>
     dm_current_client_secret_hash i \<noteq> [] \<and> dm_client_secret_hash i \<noteq> [] \<and> dm_current_client_secret_hash i \<noteq> dm_client_secret_hash i)"

definition device_row :: "DeviceItem \<Rightarrow> cell list" where
  "device_row i = (let name = (if dm_wire_guard i then dm_name i @ ''(wg)'' else dm_name i) in
     if dm_status i = ''Online'' then
       if mismatch i then coloured Red [name, dm_virtual_ip i, dm_status i, ''Mismatch'', []]
       else coloured (if sublist ''p2p'' (dm_nat_traversal_type i) then Green else Yellow)
         [name, dm_virtual_ip i, dm_status i, dm_nat_traversal_type i, dm_rt i]
     else coloured Grey [name, dm_virtual_ip i, dm_status i, [], []])"

definition sorted_devices :: "DeviceItem list \<Rightarrow> DeviceItem list" where
  "sorted_devices list = sort_key dm_status (sort_key dm_virtual_ip list)"

definition device_rows :: "DeviceItem list \<Rightarrow> cell list list" where
  "device_rows list = coloured Plain [''Name'', ''Virtual Ip'', ''Status'', ''P2P/Relay'', ''Rt''] # map device_row (sorted_devices list)"

definition console_device_list :: "(string \<Rightarrow> nat) \<Rightarrow> DeviceItem list \<Rightarrow> cell list list res option" where
  "console_device_list width list = (if list = [] then None else Some (println_table width (device_rows list)))"

definition device_row_all :: "DeviceItem \<Rightarrow> cell list" where
  "device_row_all i =
     (if dm_status i = ''Online'' then
       coloured (if dm_nat_traversal_type i = ''p2p'' then Green else Yellow)
         [dm_name i, dm_virtual_ip i, dm_status i, dm_nat_traversal_type i, dm_rt i, dm_nat_type i, dm_public_ips i, dm_local_ip i,
          dm_ipv6 i]
     else coloured Grey [dm_name i, dm_virtual_ip i, dm_status i, [], [], [], [], [], []])"

definition console_device_list_all :: "(string \<Rightarrow> nat) \<Rightarrow> DeviceItem list \<Rightarrow> cell list list res option" where
  "console_device_list_all width list = (if list = [] then None else Some (println_table width
     (coloured Plain [''Name'', ''Virtual Ip'', ''Status'', ''P2P/Relay'', ''Rt'', ''NAT Type'', ''Public Ips'', ''Local Ip'', ''IPv6''] #
      map device_row_all (sorted_devices list))))"

section \<open>The state\<close>

definition count_ones :: "u32 \<Rightarrow> nat" where
  "count_ones m = length (filter (bit m) [0..<32])"

fun join_text :: "string \<Rightarrow> string list \<Rightarrow> string" where
  "join_text sep [] = []"
| "join_text sep [x] = x"
| "join_text sep (x # xs) = x @ sep @ join_text sep xs"

definition rule_line :: string where "rule_line = replicate 42 (CHR ''-'')"

definition console_info :: "Info \<Rightarrow> string list" where
  "console_info s =
     [''Name: '' @ in_name s, ''Virtual ip: '' @ in_virtual_ip s, ''Virtual gateway: '' @ in_virtual_gateway s,
      ''Virtual netmask: '' @ in_virtual_netmask s, ''Connection status: '' @ in_connect_status s, ''NAT type: '' @ in_nat_type s,
      ''Relay server: '' @ in_relay_server s, ''Udp listen: '' @ join_text '', '' (in_udp_listen_addr s),
      ''Tcp listen: '' @ in_tcp_listen_addr s, ''Public ips: '' @ in_public_ips s, ''Local addr: '' @ in_local_addr s,
      ''IPv6: '' @ in_ipv6_addr s] @
     (if in_port_mapping_list s = [] then [] else
        [rule_line, ''Port mapping '' @ show_nat (length (in_port_mapping_list s))] @
        map (\<lambda>(is_tcp, addr, dest). (if is_tcp then ''  TCP: '' else ''  UDP: '') @ show_addr addr @ '' -> '' @ dest)
          (in_port_mapping_list s)) @
     (if in_in_ips s = [] \<and> in_out_ips s = [] then [] else [rule_line]) @
     (if in_in_ips s = [] then [] else
        (''IP forwarding '' @ show_nat (length (in_in_ips s))) #
        map (\<lambda>(dest, mask, ip). ''  -- '' @ show_ipv4 ip @ '' --> '' @ show_ipv4 dest @ ''/'' @ show_nat (count_ones mask)) (in_in_ips s)) @
     (if in_out_ips s = [] then [] else
        (''Allows network '' @ show_nat (length (in_out_ips s))) #
        map (\<lambda>(dest, mask). ''  '' @ show_ipv4 dest @ ''/'' @ show_nat (count_ones mask)) (in_out_ips s))"

section \<open>Floating point\<close>

text \<open>
  Rounding a positive number to 53 bits, ties to even. The numbers of the charts lie far inside the range of exponents.
\<close>

definition round_even :: "rat \<Rightarrow> int" where
  "round_even y = (let n = \<lfloor>y\<rfloor>; r = y - of_int n in
     if r < 1 / 2 then n else if r > 1 / 2 then n + 1 else if even n then n else n + 1)"

definition f64_exponent :: "rat \<Rightarrow> int" where
  "f64_exponent x = (let (p, q) = quotient_of x; k = nat (bitlen q) + 53 in bitlen (p * 2 ^ k div q) - 53 - int k)"

definition f64 :: "rat \<Rightarrow> rat" where
  "f64 x = (if x \<le> 0 then 0
     else let e = f64_exponent x in of_int (round_even (x / 2 powi e)) * 2 powi e)"

text \<open>\<open>(value as f64 / max_value as f64 * height as f64) as usize\<close>\<close>

definition scaled :: "u64 \<Rightarrow> u64 \<Rightarrow> nat \<Rightarrow> nat" where
  "scaled v max_value height =
     nat \<lfloor>f64 (f64 (f64 (of_nat (unat v)) / f64 (of_nat (unat max_value))) * f64 (of_nat height))\<rfloor>"

section \<open>Charts\<close>

text \<open>A full block, U+2588.\<close>

definition block :: string where "block = [char_of (0xE2::nat), char_of (0x96::nat), char_of (0x88::nat)]"

definition bar :: "nat \<Rightarrow> string" where "bar n = concat (replicate n block)"

definition max_of :: "u64 list \<Rightarrow> u64" where "max_of vs = foldr max vs 0"

definition chart_a_max :: "ChartA \<Rightarrow> u64" where
  "chart_a_max c = max (max (max_of (map snd (ga_up_map c))) (max_of (map snd (ga_down_map c)))) 1"

definition chart_a_line :: "u64 \<Rightarrow> string \<Rightarrow> (ipv4 \<times> u64) list \<Rightarrow> ipv4 \<Rightarrow> string list" where
  "chart_a_line max_value what m key = (case map_of m key of
     Some v \<Rightarrow> [pad 10 (show_ipv4 key) @ '' | '' @ bar (scaled v max_value 50) @ '' '' @ what @ '' '' @ convert v]
   | None \<Rightarrow> [])"

definition console_chart_a :: "ChartA \<Rightarrow> string list" where
  "console_chart_a c =
     (if ga_disable_stats c then [''Traffic statistics not enabled'']
      else [[], replicate 65 (CHR ''-''), ''Upload total = '' @ convert (ga_up_total c), ''Download total = '' @ convert (ga_down_total c),
          replicate 65 (CHR ''-'')] @
        concat (map (\<lambda>key. chart_a_line (chart_a_max c) ''upload'' (ga_up_map c) key @
          chart_a_line (chart_a_max c) ''download'' (ga_down_map c) key @ [''-'']) (all_keys (ga_up_map c) (ga_down_map c))))"

text \<open>The history of a device: one row per height, from the top.\<close>

definition console_chart_b_list :: "u64 list \<Rightarrow> string list" where
  "console_chart_b_list list =
     (let max_value = max (max_of list) 1; max_height = min (unat max_value) 20 in
      map (\<lambda>i. concat (map (\<lambda>v. if scaled v max_value max_height \<ge> i then block else '' '') list)) (rev [0..<max_height + 1]))"

definition console_chart_b :: "ChartB \<Rightarrow> string list" where
  "console_chart_b c =
     (if gb_disable_stats c then [''Traffic statistics not enabled'']
      else case gb_ip c of None \<Rightarrow> [''Ip: None'']
      | Some ip \<Rightarrow>
          [replicate 28 (CHR ''-'') @ ''  upload  '' @ replicate 28 (CHR ''-''), ''IP: '' @ show_ipv4 ip,
           ''Upload total: '' @ convert (gb_up_total c), ''Max: '' @ convert (max_of (gb_up_list c))] @ console_chart_b_list (gb_up_list c) @
          [replicate 28 (CHR ''-'') @ '' download '' @ replicate 28 (CHR ''-''), ''IP: '' @ show_ipv4 ip,
           ''Download total: '' @ convert (gb_down_total c), ''Max: '' @ convert (max_of (gb_down_list c))] @
          console_chart_b_list (gb_down_list c))"

section \<open>Facts about rounding\<close>

lemma exponent_bounds:
  assumes "0 < x"
  shows "2 ^ 52 \<le> x / 2 powi f64_exponent x" "x / 2 powi f64_exponent x < 2 ^ 53"
proof -
  obtain p q where pq: "quotient_of x = (p, q)" by (cases "quotient_of x")
  have q: "0 < q" and x: "x = of_int p / of_int q" using quotient_of_denom_pos[OF pq] quotient_of_div[OF pq] by simp_all
  have p: "1 \<le> p" using assms q unfolding x by (simp add: zero_less_divide_iff)
  define k where "k = nat (bitlen q) + 53"
  define y where "y = p * 2 ^ k div q"
  define z where "z = x * 2 ^ k"
  have "z = of_int (p * 2 ^ k) / of_int q" unfolding z_def x by simp
  then have yz: "y = \<lfloor>z\<rfloor>" unfolding y_def by (simp only: floor_divide_of_int_eq)
  have "q < 2 ^ nat (bitlen q)" using bitlen_bounds[OF q] by simp
  then have "q * 2 ^ 53 \<le> 2 ^ k" unfolding k_def power_add by (intro mult_right_mono) simp_all
  also have "\<dots> \<le> p * 2 ^ k" using p by (simp add: mult_le_cancel_right1)
  finally have y53: "2 ^ 53 \<le> y" unfolding y_def using zdiv_mono1[of "q * 2 ^ 53" "p * 2 ^ k" q] q by simp
  define b where "b = nat (bitlen y)"
  have "nat (bitlen y - 1) = b - 1" using bitlen_nonneg[of y] unfolding b_def by arith
  then have b: "2 ^ (b - 1) \<le> y" "y < 2 ^ b" using bitlen_bounds[of y] y53 unfolding b_def by simp_all
  have "b \<ge> 54"
  proof (rule ccontr)
    assume "\<not> b \<ge> 54"
    then have "(2::int) ^ b \<le> 2 ^ 53" by (intro power_increasing) simp_all
    with b(2) y53 show False by simp
  qed
  have e: "f64_exponent x = int b - 53 - int k"
    using bitlen_nonneg[of y] by (simp add: f64_exponent_def pq Let_def k_def y_def b_def)
  have e': "int b - 53 - int k = int (b - 53) - int k" using \<open>b \<ge> 54\<close> by simp
  have "2 powi f64_exponent x = (2::rat) ^ (b - 53) / 2 ^ k"
    unfolding e e' by (simp add: power_int_diff)
  then have d: "x / 2 powi f64_exponent x = z / 2 ^ (b - 53)" by (simp add: z_def)
  have z1: "2 ^ (b - 1) \<le> z" and z2: "z < 2 ^ b"
  proof -
    have "(of_int (2 ^ (b - 1)) :: rat) \<le> of_int y" using b(1) by (simp only: of_int_le_iff)
    also have "\<dots> \<le> z" unfolding yz by simp
    finally show "2 ^ (b - 1) \<le> z" by simp
    have "z < of_int (y + 1)" unfolding yz by linarith
    also have "\<dots> \<le> of_int (2 ^ b)" using b(2) by (simp only: of_int_le_iff zless_imp_add1_zle)
    finally show "z < 2 ^ b" by simp
  qed
  have "b - 1 = 52 + (b - 53)" "b = 53 + (b - 53)" using \<open>b \<ge> 54\<close> by simp_all
  then have "(2::rat) ^ (b - 1) = 2 ^ 52 * 2 ^ (b - 53)" "(2::rat) ^ b = 2 ^ 53 * 2 ^ (b - 53)" by (metis power_add)+
  with z1 z2 show "2 ^ 52 \<le> x / 2 powi f64_exponent x" "x / 2 powi f64_exponent x < 2 ^ 53"
    unfolding d by (simp_all add: pos_le_divide_eq pos_divide_less_eq)
qed

lemma round_even_int [simp]: "round_even (of_int n) = n"
  by (simp add: round_even_def)

lemma round_even_near: "\<lfloor>y\<rfloor> \<le> round_even y" "round_even y \<le> \<lfloor>y\<rfloor> + 1" "of_int (round_even y) \<le> y + 1 / 2" "y - 1 / 2 \<le> of_int (round_even y)"
  unfolding round_even_def Let_def by (simp_all split: if_split) linarith+

lemma round_even_mono: "y \<le> z \<Longrightarrow> round_even y \<le> round_even z"
proof -
  assume l: "y \<le> z"
  then have f: "\<lfloor>y\<rfloor> \<le> \<lfloor>z\<rfloor>" by (rule floor_mono)
  show ?thesis
  proof (cases "\<lfloor>y\<rfloor> = \<lfloor>z\<rfloor>")
    case True
    then show ?thesis using l by (auto simp: round_even_def Let_def)
  next
    case False
    then show ?thesis using f round_even_near(2)[of y] round_even_near(1)[of z] by linarith
  qed
qed

lemma f64_nonneg: "0 \<le> f64 x"
proof (cases "0 < x")
  case True
  have "0 \<le> round_even (x / 2 powi f64_exponent x)"
    using round_even_mono[of "of_int 0"] exponent_bounds(1)[OF True] by (metis (no_types) of_int_0 order_trans round_even_int zero_le_numeral zero_le_power)
  then show ?thesis using True by (simp add: f64_def Let_def)
qed (simp add: f64_def)

lemma f64_pos_bounds:
  assumes "0 < x"
  shows "2 ^ 52 * 2 powi f64_exponent x \<le> f64 x" "f64 x \<le> 2 ^ 53 * 2 powi f64_exponent x"
proof -
  let ?z = "x / 2 powi f64_exponent x"
  have "of_int (2 ^ 52) \<le> ?z" "?z \<le> of_int (2 ^ 53)" using exponent_bounds[OF assms] by simp_all
  from this[THEN round_even_mono] have "2 ^ 52 \<le> round_even ?z" "round_even ?z \<le> 2 ^ 53" unfolding round_even_int by simp_all
  then have "(2 ^ 52 :: rat) \<le> of_int (round_even ?z)" "of_int (round_even ?z) \<le> (2 ^ 53 :: rat)"
    by (metis of_int_le_iff of_int_numeral of_int_power)+
  then show "2 ^ 52 * 2 powi f64_exponent x \<le> f64 x" "f64 x \<le> 2 ^ 53 * 2 powi f64_exponent x"
    using assms by (simp_all add: f64_def Let_def mult_right_mono)
qed

lemma exponent_mono:
  assumes "0 < x" "x \<le> y"
  shows "f64_exponent x \<le> f64_exponent y"
proof (rule ccontr)
  assume "\<not> ?thesis"
  then have l: "f64_exponent y + 1 \<le> f64_exponent x" by simp
  have y: "0 < y" using assms by simp
  have "y < 2 ^ 53 * 2 powi f64_exponent y" using exponent_bounds(2)[OF y] by (simp add: pos_divide_less_eq)
  also have "\<dots> = 2 ^ 52 * 2 powi (f64_exponent y + 1)" by (simp add: power_int_add)
  also have "\<dots> \<le> 2 ^ 52 * 2 powi f64_exponent x" by (intro mult_left_mono power_int_increasing[OF l]) simp_all
  also have "\<dots> \<le> x" using exponent_bounds(1)[OF assms(1)] by (simp add: pos_le_divide_eq)
  finally show False using assms(2) by simp
qed

lemma f64_mono: "x \<le> y \<Longrightarrow> f64 x \<le> f64 y"
proof (cases "0 < x")
  case True
  assume l: "x \<le> y"
  with True have y: "0 < y" by simp
  show ?thesis
  proof (cases "f64_exponent x = f64_exponent y")
    case e: True
    have "x / 2 powi f64_exponent y \<le> y / 2 powi f64_exponent y" using l by (intro divide_right_mono) simp_all
    then show ?thesis using True y by (simp add: f64_def Let_def e mult_right_mono round_even_mono)
  next
    case False
    then have e: "f64_exponent x + 1 \<le> f64_exponent y" using exponent_mono[OF True l] by simp
    have "f64 x \<le> 2 ^ 53 * 2 powi f64_exponent x" by (rule f64_pos_bounds(2)[OF True])
    also have "\<dots> = 2 ^ 52 * 2 powi (f64_exponent x + 1)" by (simp add: power_int_add)
    also have "\<dots> \<le> 2 ^ 52 * 2 powi f64_exponent y" by (intro mult_left_mono power_int_increasing[OF e]) simp_all
    also have "\<dots> \<le> f64 y" by (rule f64_pos_bounds(1)[OF y])
    finally show ?thesis .
  qed
qed (use f64_nonneg in \<open>simp add: f64_def\<close>)

lemma small_exponent:
  assumes "0 < n" "n < 2 ^ 53"
  shows "f64_exponent (of_nat n) \<le> 0"
proof (rule ccontr)
  let ?x = "of_nat n :: rat" let ?e = "f64_exponent ?x"
  assume "\<not> ?e \<le> 0"
  then have "(2::rat) powi 1 \<le> 2 powi ?e" by (intro power_int_increasing) simp_all
  then have "(2 ^ 52 :: rat) * 2 powi 1 \<le> 2 ^ 52 * 2 powi ?e" by (rule mult_left_mono) simp
  also have "\<dots> \<le> ?x" using exponent_bounds(1)[of ?x] assms(1) by (simp add: pos_le_divide_eq del: power_int_eq_0_iff)
  finally have "(of_nat (2 ^ 53) :: rat) \<le> of_nat n" by simp
  then show False using assms(2) by (simp only: of_nat_le_iff)
qed

lemma f64_exact: "n < 2 ^ 53 \<Longrightarrow> f64 (of_nat n) = of_nat n"
proof (cases "n = 0")
  case False
  assume n: "n < 2 ^ 53"
  let ?x = "of_nat n :: rat"
  define k where "k = nat (- f64_exponent ?x)"
  have x: "0 < ?x" using False by simp
  have "f64_exponent ?x = - int k" using small_exponent[of n] False n by (simp add: k_def)
  then have p: "2 powi f64_exponent ?x = inverse ((2::rat) ^ k)" by (simp add: power_int_minus)
  have d: "?x / 2 powi f64_exponent ?x = of_int (int n * 2 ^ k)" unfolding p by (simp add: divide_inverse)
  have "f64 ?x = of_int (int n * 2 ^ k) * inverse (2 ^ k)"
    using x unfolding f64_def Let_def d round_even_int unfolding p by simp
  then show ?thesis by simp
qed (simp add: f64_def)

lemma f64_one [simp]: "f64 1 = 1"
  using f64_exact[of 1] by simp

lemma f64_of_nat_pos: "0 < n \<Longrightarrow> 0 < f64 (of_nat n)"
  using f64_mono[of 1 "of_nat n"] by simp

lemma scaled_mono: "v \<le> w \<Longrightarrow> scaled v m h \<le> scaled w m h"
proof -
  assume "v \<le> w"
  then have "of_nat (unat v) \<le> (of_nat (unat w) :: rat)" by (simp only: of_nat_le_iff word_le_nat_alt)
  then show ?thesis
    unfolding scaled_def by (intro nat_mono floor_mono f64_mono mult_right_mono divide_right_mono f64_nonneg)
qed

lemma scaled_max:
  assumes "0 < m" "h < 2 ^ 53"
  shows "scaled m m h = h"
proof -
  have "0 < unat m" using assms(1) by (simp add: word_greater_zero_iff unat_gt_0)
  then have "f64 (of_nat (unat m)) \<noteq> 0" using f64_of_nat_pos[of "unat m"] by simp
  then show ?thesis by (simp add: scaled_def f64_exact[OF assms(2)])
qed

section \<open>Facts about tables\<close>

lemma widen_ok: "length cs \<le> length ws \<Longrightarrow> \<exists>vs. widen width ws cs = Inr vs \<and> length vs = length ws \<and>
    list_all2 (\<le>) ws vs \<and> (\<forall>i < length cs. width (fst (cs ! i)) + 4 \<le> vs ! i)"
proof (induction width ws cs rule: widen.induct)
  case (3 width w ws c cs)
  then obtain vs where "widen width ws cs = Inr vs" "length vs = length ws" "list_all2 (\<le>) ws vs"
    "\<forall>i < length cs. width (fst (cs ! i)) + 4 \<le> vs ! i" by auto
  then show ?case by (auto simp: nth_Cons split: nat.splits)
qed (simp_all add: list_all2_refl)

lemma width_list_ok: "\<forall>r \<in> set rs. length r \<le> length ws \<Longrightarrow> \<exists>vs. width_list width ws rs = Inr vs \<and> length vs = length ws \<and>
    list_all2 (\<le>) ws vs \<and> (\<forall>r \<in> set rs. \<forall>i < length r. width (fst (r ! i)) + 4 \<le> vs ! i)"
proof (induction rs arbitrary: ws)
  case (Cons r rs)
  then obtain us where u: "widen width ws r = Inr us" "length us = length ws" "list_all2 (\<le>) ws us"
    "\<forall>i < length r. width (fst (r ! i)) + 4 \<le> us ! i" using widen_ok[of r ws width] by auto
  with Cons obtain vs where v: "width_list width us rs = Inr vs" "length vs = length us" "list_all2 (\<le>) us vs"
    "\<forall>r \<in> set rs. \<forall>i < length r. width (fst (r ! i)) + 4 \<le> vs ! i" by (metis list.set_intros(2))
  have "list_all2 (\<le>) ws vs" using list_all2_trans[OF _ u(3) v(3)] by fastforce
  moreover have "width (fst (r ! i)) + 4 \<le> vs ! i" if "i < length r" for i
    using u(4) that list_all2_nthD[OF v(3), of i] Cons.prems u(2) by fastforce
  ultimately show ?case using u v by simp
qed (simp add: list_all2_refl)

lemma char_count_append [simp]: "char_count (s @ t) = char_count s + char_count t"
  by (simp add: char_count_def)

lemma char_count_spaces [simp]: "char_count (replicate n (CHR '' '')) = n"
proof -
  have "\<not> cont (of_char (CHR '' ''))" by (simp add: cont_def)
  then show ?thesis by (simp add: char_count_def)
qed

lemma char_count_pad: "char_count (pad w s) = max w (char_count s)"
  by (simp add: pad_def)

lemma println_table_ok:
  assumes "\<forall>r \<in> set rows. length r \<le> length (hd rows)"
  shows "\<exists>ws. println_table width rows = Inr (map (\<lambda>row. map (\<lambda>(w, item, style). (pad w item, style)) (zip ws row)) rows) \<and>
    (\<forall>row \<in> set rows. length row \<le> length ws \<and> (\<forall>i < length row. width (fst (row ! i)) + 4 \<le> ws ! i))"
proof (cases rows)
  case (Cons r rs)
  then obtain ws where "width_list width (replicate (length r) 0) rows = Inr ws" "length ws = length r"
    "\<forall>row \<in> set rows. \<forall>i < length row. width (fst (row ! i)) + 4 \<le> ws ! i"
    using width_list_ok[of rows "replicate (length r) 0" width] assms by auto
  with Cons assms show ?thesis by (intro exI[of _ ws]) (simp add: println_table_def)
qed (simp add: println_table_def)

lemma table_rows:
  "\<forall>r \<in> set (route_rows rs). length r = 5" "\<forall>r \<in> set (device_rows ds). length r = 5"
  by (auto simp: route_rows_def device_rows_def coloured_def device_row_def Let_def)

lemma sorted_nth_filter: "sorted (map f (filter P l)) \<Longrightarrow> i < j \<Longrightarrow> j < length l \<Longrightarrow> P (l ! i) \<Longrightarrow> P (l ! j) \<Longrightarrow> f (l ! i) \<le> f (l ! j)"
proof (induction l arbitrary: i j)
  case (Cons x l)
  then obtain j' where j: "j = Suc j'" "j' < length l" by (cases j) auto
  have s: "sorted (map f (filter P l))" using Cons.prems(1) by (simp split: if_splits)
  show ?case
  proof (cases i)
    case 0
    with Cons.prems j show ?thesis by (simp add: nth_mem)
  next
    case (Suc i')
    with Cons.IH[OF s, of i' j'] Cons.prems(2-5) j show ?thesis by simp
  qed
qed simp

text \<open>Two stable sorts are one sort by both keys.\<close>

lemma sorted_by_both: "i < j \<Longrightarrow> j < length list \<Longrightarrow>
    dm_status (sorted_devices list ! i) < dm_status (sorted_devices list ! j) \<or>
    dm_status (sorted_devices list ! i) = dm_status (sorted_devices list ! j) \<and>
      dm_virtual_ip (sorted_devices list ! i) \<le> dm_virtual_ip (sorted_devices list ! j)"
proof -
  assume ij: "i < j" "j < length list"
  let ?l = "sorted_devices list" let ?s = "dm_status (?l ! i)"
  have le: "?s \<le> dm_status (?l ! j)"
    using sorted_nth_mono[OF sorted_sort_key[of dm_status "sort_key dm_virtual_ip list"], of i j] ij by (simp add: sorted_devices_def)
  have "filter (\<lambda>x. dm_status x = ?s) ?l = filter (\<lambda>x. dm_status x = ?s) (sort_key dm_virtual_ip list)"
    unfolding sorted_devices_def by (rule sort_key_stable)
  moreover have "sorted (map dm_virtual_ip (filter (\<lambda>x. dm_status x = ?s) (sort_key dm_virtual_ip list)))" by (rule sorted_filter) simp
  ultimately have s: "sorted (map dm_virtual_ip (filter (\<lambda>x. dm_status x = ?s) ?l))" by simp
  have "j < length ?l" using ij(2) by (simp add: sorted_devices_def)
  then have "dm_virtual_ip (?l ! i) \<le> dm_virtual_ip (?l ! j)" if "dm_status (?l ! j) = ?s"
    using sorted_nth_filter[OF s ij(1)] that by simp
  with le show ?thesis by (metis order_le_less)
qed

section \<open>Properties\<close>

text \<open>
  The table of devices is shown whole and in order: the program does not panic, each column is equally wide in every line (where a
  text takes as many columns as it has characters), the rows are those of the devices, each once, offline before
  online and by address as text among the same status; and a device is marked as mismatch exactly when it is online, no WireGuard
  device, and its encryption differs.
\<close>

theorem device_table_aligned:
  assumes "list \<noteq> []" "\<forall>r \<in> set (device_rows list). \<forall>c \<in> set r. width (fst c) = char_count (fst c)"
  shows "(\<exists>rows ws. console_device_list width list = Some (Inr rows) \<and> length rows = length list + 1 \<and>
      (\<forall>row \<in> set rows. map (\<lambda>c. char_count (fst c)) row = take 5 ws)) \<and>
    mset (sorted_devices list) = mset list \<and>
    (\<forall>i j. i < j \<longrightarrow> j < length list \<longrightarrow> dm_status (sorted_devices list ! i) \<le> dm_status (sorted_devices list ! j) \<and>
      (dm_status (sorted_devices list ! i) = dm_status (sorted_devices list ! j) \<longrightarrow>
        dm_virtual_ip (sorted_devices list ! i) \<le> dm_virtual_ip (sorted_devices list ! j)))"
proof -
  let ?rows = "device_rows list"
  have len: "\<forall>r \<in> set ?rows. length r = 5" by (rule table_rows)
  moreover have "hd ?rows \<in> set ?rows" by (simp add: device_rows_def)
  ultimately have "\<forall>r \<in> set ?rows. length r \<le> length (hd ?rows)" by auto
  from println_table_ok[OF this, of width] obtain ws where ws:
    "println_table width ?rows = Inr (map (\<lambda>row. map (\<lambda>(w, item, style). (pad w item, style)) (zip ws row)) ?rows)"
    "\<forall>row \<in> set ?rows. length row \<le> length ws \<and> (\<forall>i < length row. width (fst (row ! i)) + 4 \<le> ws ! i)" by blast
  have "map (\<lambda>c. char_count (fst c)) (map (\<lambda>(w, item, style). (pad w item, style)) (zip ws row)) = take 5 ws" if r: "row \<in> set ?rows" for row
  proof (rule nth_equalityI)
    have l: "length row = 5" "5 \<le> length ws" using r len ws(2) by auto
    then show "length (map (\<lambda>c. char_count (fst c)) (map (\<lambda>(w, item, style). (pad w item, style)) (zip ws row))) = length (take 5 ws)" by simp
    fix i assume "i < length (map (\<lambda>c. char_count (fst c)) (map (\<lambda>(w, item, style). (pad w item, style)) (zip ws row)))"
    then have i: "i < 5" using l by simp
    have "char_count (fst (row ! i)) \<le> ws ! i" using ws(2) r i l assms(2) by (metis add_leD1 nth_mem)
    then show "map (\<lambda>c. char_count (fst c)) (map (\<lambda>(w, item, style). (pad w item, style)) (zip ws row)) ! i = take 5 ws ! i"
      using i l by (cases "row ! i") (simp add: char_count_pad)
  qed
  moreover have "length ?rows = length list + 1" by (simp add: device_rows_def sorted_devices_def)
  ultimately have "\<exists>rows ws. console_device_list width list = Some (Inr rows) \<and> length rows = length list + 1 \<and>
      (\<forall>row \<in> set rows. map (\<lambda>c. char_count (fst c)) row = take 5 ws)"
    using assms(1) ws(1) by (auto simp: console_device_list_def intro!: exI[of _ ws])
  moreover have "mset (sorted_devices list) = mset list" by (simp add: sorted_devices_def)
  moreover have "dm_status (sorted_devices list ! i) \<le> dm_status (sorted_devices list ! j) \<and>
      (dm_status (sorted_devices list ! i) = dm_status (sorted_devices list ! j) \<longrightarrow>
        dm_virtual_ip (sorted_devices list ! i) \<le> dm_virtual_ip (sorted_devices list ! j))" if "i < j" "j < length list" for i j
    using sorted_by_both[OF that] by (elim disjE) (auto intro: less_imp_le)
  ultimately show ?thesis by (intro conjI allI impI) simp_all
qed

text \<open>
  The bars of the charts, in spite of the rounding: more traffic never has a shorter bar, no bar is longer than the chart is high, and the
  largest value has exactly that length.
\<close>

theorem bars_ordered:
  assumes "v \<le> w" "w \<le> m" "0 < m" "h < 2 ^ 53"
  shows "scaled v m h \<le> scaled w m h \<and> scaled w m h \<le> h \<and> scaled m m h = h"
  using scaled_mono[OF assms(1)] scaled_mono[OF assms(2), of m h] scaled_max[OF assms(3,4)] by simp

end
