(* ===== verification/Unix_Device.thy ===== *)
theory Unix_Device
  imports Console
begin

text \<open>
  The network device on Unix, \<^verbatim>\<open>vnt/tun/src\<close>: file descriptors (\<^verbatim>\<open>unix/fd.rs\<close>), the device over two pipes of iOS
  (\<^verbatim>\<open>ios_stub/device.rs\<close>), the devices of Linux and macOS with their addresses, flags and routes (\<^verbatim>\<open>linux\<close>, \<^verbatim>\<open>macos\<close>),
  and the loop that reads them (\<^verbatim>\<open>vnt/src/handle/tun_tap/unix.rs\<close>). What the system calls return is arbitrary.
\<close>

section \<open>File descriptors\<close>

definition Fd_new :: "int \<Rightarrow> int res" where
  "Fd_new value = (if value < 0 then Inl (Io InvalidInput []) else Inr value)"

definition would_block :: "err \<Rightarrow> bool" where
  "would_block e = (case e of Io WouldBlock _ \<Rightarrow> True | _ \<Rightarrow> False)"

text \<open>
  A pipe to read: what will arrive, in order, with the errors the calls meet in between; an empty arrival is the end
  of the pipe. One call takes what has arrived, at most \<open>n\<close> bytes; with nothing more to come it does not return.
\<close>

type_synonym arrivals = "u8 list res list"

fun fd_read :: "nat \<Rightarrow> arrivals \<Rightarrow> (u8 list res \<times> arrivals) option" where
  "fd_read n [] = None"
| "fd_read n (Inl e # q) = Some (Inl e, q)"
| "fd_read n (Inr bs # q) = Some (Inr (take n bs), if n < length bs then Inr (drop n bs) # q else q)"

text \<open>A pipe to write: how many bytes each call accepts. The second component is what was written.\<close>

type_synonym accepts = "nat res list"

fun fd_write_all :: "u8 list \<Rightarrow> accepts \<Rightarrow> (unit res \<times> u8 list \<times> accepts) option" where
  "fd_write_all [] k = Some (Inr (), [], k)"
| "fd_write_all (b # bs) [] = None"
| "fd_write_all (b # bs) (Inl e # k) = (if would_block e then fd_write_all (b # bs) k else Some (Inl e, [], k))"
| "fd_write_all (b # bs) (Inr n # k) =
     (if n = 0 then Some (Inl (Io WriteZero ''write_all: zero write''), [], k)
      else case fd_write_all (drop n (b # bs)) k of
        None \<Rightarrow> None
      | Some (r, out, k) \<Rightarrow> Some (r, take n (b # bs) @ out, k))"

text \<open>The next step of a reader: not reached when the last one waits or fails.\<close>

definition next_read :: "('a res \<times> 'q) option \<Rightarrow> ('a \<Rightarrow> 'q \<Rightarrow> ('b res \<times> 'q) option) \<Rightarrow> ('b res \<times> 'q) option" where
  "next_read m f = (case m of None \<Rightarrow> None | Some (Inl e, q) \<Rightarrow> Some (Inl e, q) | Some (Inr x, q) \<Rightarrow> f x q)"

function ios_read_exact :: "nat \<Rightarrow> arrivals \<Rightarrow> (u8 list res \<times> arrivals) option" where
  "ios_read_exact n q = (if n = 0 then Some (Inr [], q) else case fd_read n q of
     None \<Rightarrow> None
   | Some (Inl e, q) \<Rightarrow> if would_block e then ios_read_exact n q else Some (Inl e, q)
   | Some (Inr bs, q) \<Rightarrow> if bs = [] then Some (Inl (Io OtherKind ''pipe closed''), q)
       else next_read (ios_read_exact (n - length bs) q) (\<lambda>rest q. Some (Inr (bs @ rest), q)))"
  by pat_completeness auto
termination
  by (relation "measures [\<lambda>(n, q). length q, fst]") (auto elim!: fd_read.elims split: if_splits)

declare ios_read_exact.simps [simp del]

section \<open>The device over two pipes\<close>

definition PF_INET :: u32 where "PF_INET = 2"
definition PF_INET6 :: u32 where "PF_INET6 = 30"

text \<open>Reads a packet into a buffer of \<open>buf_len\<close> bytes: the length with the family's four bytes, the family, the packet.\<close>

definition ios_read :: "nat \<Rightarrow> arrivals \<Rightarrow> (u8 list res \<times> arrivals) option" where
  "ios_read buf_len q = next_read (ios_read_exact 4 q) (\<lambda>h q.
     let total_len = unat (be32 (h ! 0) (h ! 1) (h ! 2) (h ! 3)) in
     if total_len < 4 \<or> total_len > buf_len then Some (Inl (Io InvalidData ''invalid total_length from pipe''), q)
     else next_read (ios_read_exact 4 q) (\<lambda>proto q. ios_read_exact (total_len - 4) q))"

definition ios_family :: "u8 list \<Rightarrow> u32" where
  "ios_family buf = (if buf \<noteq> [] \<and> drop_bit 4 (hd buf) = 6 then PF_INET6 else PF_INET)"

text \<open>The three pieces a packet is written in.\<close>

definition ios_pieces :: "u8 list \<Rightarrow> u8 list list" where
  "ios_pieces buf = [be32_bytes (4 + of_nat (length buf)), be32_bytes (ios_family buf), buf]"

fun write_pieces :: "u8 list list \<Rightarrow> accepts \<Rightarrow> (unit res \<times> u8 list \<times> accepts) option" where
  "write_pieces [] k = Some (Inr (), [], k)"
| "write_pieces (p # ps) k = (case fd_write_all p k of
     None \<Rightarrow> None
   | Some (Inl e, out, k) \<Rightarrow> Some (Inl e, out, k)
   | Some (Inr _, out, k) \<Rightarrow> (case write_pieces ps k of
       None \<Rightarrow> None
     | Some (r, out', k) \<Rightarrow> Some (r, out @ out', k)))"

definition ios_write :: "u8 list \<Rightarrow> accepts \<Rightarrow> (nat res \<times> u8 list \<times> accepts) option" where
  "ios_write buf k = map_option (\<lambda>(r, out, k). (mapE (\<lambda>_. length buf) r, out, k)) (write_pieces (ios_pieces buf) k)"

text \<open>Reading again and again until a read waits: what the reads return.\<close>

fun ios_reads :: "nat \<Rightarrow> nat \<Rightarrow> arrivals \<Rightarrow> u8 list res list" where
  "ios_reads buf_len 0 q = []"
| "ios_reads buf_len (Suc n) q = (case ios_read buf_len q of None \<Rightarrow> [] | Some (r, q) \<Rightarrow> r # ios_reads buf_len n q)"

section \<open>The loop that reads the device\<close>

text \<open>How the loop over reads ends: back to the poll, waiting inside a read, or with an error.\<close>

datatype drain_end = Poll_again | In_read | Read_failed err

text \<open>
  What is read lands at \<open>start\<close> in the reused buffer, whose first twelve bytes are then reset; macOS puts four bytes
  before the packet, so that \<open>start\<close> is eight there. The handler gets the buffer and its length, and changes both it and
  the state \<open>s\<close>. Reads that would block are counted over the whole loop.
\<close>

definition device_start :: "bool \<Rightarrow> nat" where
  "device_start macos = (if macos then 12 - 4 else 12)"

definition loaded :: "nat \<Rightarrow> u8 list \<Rightarrow> u8 list \<Rightarrow> u8 list" where
  "loaded start p buf = replicate 12 0 @ drop 12 (splice start p buf)"

fun drain :: "(u8 list \<Rightarrow> nat \<Rightarrow> 's \<Rightarrow> u8 list \<times> 's) \<Rightarrow> nat \<Rightarrow> nat \<Rightarrow> u8 list res list \<Rightarrow> u8 list \<times> 's \<Rightarrow>
    (u8 list \<times> 's) \<times> drain_end \<times> u8 list res list" where
  "drain handle start retries [] s = (s, In_read, [])"
| "drain handle start retries (Inr p # rs) (buf, s) =
     drain handle start retries rs (handle (loaded start p buf) (length p + start) s)"
| "drain handle start retries (Inl e # rs) s =
     (if would_block e then if retries + 1 < 8 then drain handle start (retries + 1) rs s else (s, Poll_again, rs)
      else (s, Read_failed e, rs))"

datatype loop_end = Loop_stopped | Loop_failed err | Loop_waits

definition STOP :: nat where "STOP = 0"
definition FD :: nat where "FD = 1"

text \<open>The events of one poll; \<open>None\<close> when the next poll is reached.\<close>

fun on_events :: "(u8 list \<Rightarrow> nat \<Rightarrow> 's \<Rightarrow> u8 list \<times> 's) \<Rightarrow> nat \<Rightarrow> nat list \<Rightarrow> u8 list res list \<Rightarrow> u8 list \<times> 's \<Rightarrow>
    (u8 list \<times> 's) \<times> loop_end option \<times> u8 list res list" where
  "on_events handle start [] rs s = (s, None, rs)"
| "on_events handle start (t # ts) rs s =
     (if t = STOP then (s, Some Loop_stopped, rs)
      else case drain handle start 0 rs s of
        (s, Poll_again, rs) \<Rightarrow> on_events handle start ts rs s
      | (s, In_read, rs) \<Rightarrow> (s, Some Loop_waits, rs)
      | (s, Read_failed e, rs) \<Rightarrow> (s, Some (Loop_failed e), rs))"

text \<open>What the polls return: \<open>None\<close> stands for an interrupted call, which is repeated.\<close>

fun start_simple0 :: "(u8 list \<Rightarrow> nat \<Rightarrow> 's \<Rightarrow> u8 list \<times> 's) \<Rightarrow> nat \<Rightarrow> (nat list res) option list \<Rightarrow> u8 list res list \<Rightarrow> u8 list \<times> 's \<Rightarrow>
    (u8 list \<times> 's) \<times> loop_end" where
  "start_simple0 handle start [] rs s = (s, Loop_waits)"
| "start_simple0 handle start (None # ps) rs s = start_simple0 handle start ps rs s"
| "start_simple0 handle start (Some (Inl e) # ps) rs s = (s, Loop_failed e)"
| "start_simple0 handle start (Some (Inr ts) # ps) rs s = (case on_events handle start ts rs s of
     (s, None, rs) \<Rightarrow> start_simple0 handle start ps rs s
   | (s, Some r, rs) \<Rightarrow> (s, r))"

text \<open>On Windows the loop only reads.\<close>

fun windows_reads :: "(u8 list \<Rightarrow> nat \<Rightarrow> 's \<Rightarrow> u8 list \<times> 's) \<Rightarrow> u8 list res list \<Rightarrow> u8 list \<times> 's \<Rightarrow> (u8 list \<times> 's) \<times> loop_end" where
  "windows_reads handle [] s = (s, Loop_waits)"
| "windows_reads handle (Inl e # rs) s = (s, Loop_failed e)"
| "windows_reads handle (Inr p # rs) (buf, s) = windows_reads handle rs (handle (loaded 12 p buf) (length p + 12) s)"

section \<open>Devices of Linux and macOS\<close>

text \<open>The calls on the control socket: flags, the four addresses (each with its family) and the MTU of an interface.\<close>

datatype addr_kind = If_addr | If_dst | If_brd | If_mask

record 'k ioctls =
  io_get_flags :: "string \<Rightarrow> 'k \<Rightarrow> u16 res"
  io_set_flags :: "string \<Rightarrow> u16 \<Rightarrow> 'k \<Rightarrow> unit res \<times> 'k"
  io_get_addr :: "addr_kind \<Rightarrow> string \<Rightarrow> 'k \<Rightarrow> (u16 \<times> ipv4) res"
  io_set_addr :: "addr_kind \<Rightarrow> string \<Rightarrow> u16 \<times> ipv4 \<Rightarrow> 'k \<Rightarrow> unit res \<times> 'k"
  io_get_mtu :: "string \<Rightarrow> 'k \<Rightarrow> u32 res"
  io_set_mtu :: "string \<Rightarrow> u32 \<Rightarrow> 'k \<Rightarrow> unit res \<times> 'k"

definition AF_INET :: u16 where "AF_INET = 2"
definition IFF_UP :: u16 where "IFF_UP = 1"
definition IFF_RUNNING :: u16 where "IFF_RUNNING = 0x40"

definition SockAddr_new :: "u16 \<times> ipv4 \<Rightarrow> ipv4 res" where
  "SockAddr_new v = (if fst v \<noteq> AF_INET then Inl (Io OtherKind ''invalid address'') else Inr (snd v))"

definition SockAddr_from :: "ipv4 \<Rightarrow> u16 \<times> ipv4" where
  "SockAddr_from ip = (AF_INET, ip)"

definition enabled :: "'k ioctls \<Rightarrow> string \<Rightarrow> bool \<Rightarrow> 'k \<Rightarrow> unit res \<times> 'k" where
  "enabled K name value k = (case io_get_flags K name k of
     Inl e \<Rightarrow> (Inl e, k)
   | Inr flags \<Rightarrow> io_set_flags K name (if value then flags OR (IFF_UP OR IFF_RUNNING) else flags AND NOT IFF_UP) k)"

definition if_address :: "'k ioctls \<Rightarrow> string \<Rightarrow> 'k \<Rightarrow> ipv4 res" where
  "if_address K name k = bindE (io_get_addr K If_addr name k) SockAddr_new"

definition if_set_address :: "'k ioctls \<Rightarrow> string \<Rightarrow> ipv4 \<Rightarrow> 'k \<Rightarrow> unit res \<times> 'k" where
  "if_set_address K name value k = io_set_addr K If_addr name (SockAddr_from value) k"

definition if_destination :: "'k ioctls \<Rightarrow> string \<Rightarrow> 'k \<Rightarrow> ipv4 res" where
  "if_destination K name k = bindE (io_get_addr K If_dst name k) SockAddr_new"

definition if_set_destination :: "'k ioctls \<Rightarrow> string \<Rightarrow> ipv4 \<Rightarrow> 'k \<Rightarrow> unit res \<times> 'k" where
  "if_set_destination K name value k = io_set_addr K If_dst name (SockAddr_from value) k"

definition if_broadcast :: "'k ioctls \<Rightarrow> string \<Rightarrow> 'k \<Rightarrow> ipv4 res" where
  "if_broadcast K name k = bindE (io_get_addr K If_brd name k) SockAddr_new"

definition if_set_broadcast :: "'k ioctls \<Rightarrow> string \<Rightarrow> ipv4 \<Rightarrow> 'k \<Rightarrow> unit res \<times> 'k" where
  "if_set_broadcast K name value k = io_set_addr K If_brd name (SockAddr_from value) k"

definition if_netmask :: "'k ioctls \<Rightarrow> string \<Rightarrow> 'k \<Rightarrow> ipv4 res" where
  "if_netmask K name k = bindE (io_get_addr K If_mask name k) SockAddr_new"

text \<open>macOS does not look at the family here.\<close>

definition mac_netmask :: "'k ioctls \<Rightarrow> string \<Rightarrow> 'k \<Rightarrow> ipv4 res" where
  "mac_netmask K name k = mapE snd (io_get_addr K If_mask name k)"

definition if_set_netmask :: "'k ioctls \<Rightarrow> string \<Rightarrow> ipv4 \<Rightarrow> 'k \<Rightarrow> unit res \<times> 'k" where
  "if_set_netmask K name value k = io_set_addr K If_mask name (SockAddr_from value) k"

definition if_set_ip :: "'k ioctls \<Rightarrow> string \<Rightarrow> ipv4 \<Rightarrow> ipv4 \<Rightarrow> 'k \<Rightarrow> unit res \<times> 'k" where
  "if_set_ip K name address net_mask k = (case if_set_address K name address k of
     (Inl e, k) \<Rightarrow> (Inl e, k) | (Inr _, k) \<Rightarrow> if_set_netmask K name net_mask k)"

text \<open>The buffer handed to the tun device of macOS: the family before the packet.\<close>

definition mac_write :: "u8 list \<Rightarrow> u8 list" where
  "mac_write buf = [0, 0] @ be16_bytes (ucast PF_INET) @ buf"

section \<open>Opening a device\<close>

definition IFNAMSIZ :: nat where "IFNAMSIZ = 16"

text \<open>The unit of a macOS device, one more than its number; zero lets the system choose.\<close>

definition mac_unit :: "string option \<Rightarrow> u32 res" where
  "mac_unit name = (case name of
     None \<Rightarrow> Inr 0
   | Some name \<Rightarrow>
       if length name > IFNAMSIZ then Inl (Io InvalidInput ''name too long'')
       else if \<not> starts_with name ''utun'' then Inl (Io InvalidInput ''invalid name'')
       else case parse_u32 (drop 4 name) of None \<Rightarrow> Inl (Io OtherKind []) | Some n \<Rightarrow> Inr (of_nat n + 1))"

text \<open>The name asked of Linux, with no byte zero in it and one to end it.\<close>

definition linux_name :: "string option \<Rightarrow> string option res" where
  "linux_name name = (case name of
     None \<Rightarrow> Inr None
   | Some name \<Rightarrow>
       if char_of (0::nat) \<in> set name then Inl (Io OtherKind [])
       else if length name + 1 > IFNAMSIZ then Inl (Io InvalidInput ''name too long'')
       else Inr (Some name))"

definition IFF_TUN :: u16 where "IFF_TUN = 1"
definition IFF_NO_PI :: u16 where "IFF_NO_PI = 0x1000"

text \<open>The system: the two descriptors and the name given to the device.\<close>

record linux_os =
  lo_open :: int
  lo_tunsetiff :: "string option \<Rightarrow> u16 \<Rightarrow> string res"
  lo_socket :: int

definition linux_open :: "linux_os \<Rightarrow> string option \<Rightarrow> string res" where
  "linux_open S name =
     bindE (linux_name name) (\<lambda>dev.
     bindE (Fd_new (lo_open S)) (\<lambda>tun.
     bindE (lo_tunsetiff S dev (IFF_TUN OR IFF_NO_PI)) (\<lambda>name.
     bindE (Fd_new (lo_socket S)) (\<lambda>ctl. Inr name))))"

text \<open>The device with its name and the command that was run for it, whose error is only logged.\<close>

definition linux_device_new :: "linux_os \<Rightarrow> 'k ioctls \<Rightarrow> string option \<Rightarrow> 'k \<Rightarrow> string res \<times> 'k \<times> string list" where
  "linux_device_new S K name k = (case linux_open S name of
     Inl e \<Rightarrow> (Inl e, k, [])
   | Inr name \<Rightarrow> (case enabled K name True k of
       (r, k) \<Rightarrow> (mapE (\<lambda>_. name) r, k, [''ifconfig '' @ name @ '' txqueuelen 1000''])))"

section \<open>Routes\<close>

definition linux_add_route :: "string \<Rightarrow> ipv4 \<Rightarrow> ipv4 \<Rightarrow> string" where
  "linux_add_route name address net_mask =
     (if is_broadcast net_mask then ''route add -host '' @ show_ipv4 address @ '' '' @ name
      else ''route add -net '' @ show_ipv4 address @ ''/'' @ show_nat (count_ones net_mask) @ '' '' @ name)"

definition linux_del_route :: "string \<Rightarrow> ipv4 \<Rightarrow> ipv4 \<Rightarrow> string" where
  "linux_del_route name address net_mask =
     ''ip route del '' @ show_ipv4 address @ ''/'' @ show_ipv4 net_mask @ '' dev '' @ name"

definition mac_add_route :: "string \<Rightarrow> ipv4 \<Rightarrow> ipv4 \<Rightarrow> string" where
  "mac_add_route name address net_mask =
     ''route -n add '' @ show_ipv4 address @ '' -net_mask '' @ show_ipv4 net_mask @ '' -interface '' @ name"

definition mac_del_route :: "string \<Rightarrow> ipv4 \<Rightarrow> ipv4 \<Rightarrow> string" where
  "mac_del_route name address net_mask =
     ''route -n delete '' @ show_ipv4 address @ '' -net_mask '' @ show_ipv4 net_mask @ '' -interface '' @ name"

section \<open>What is written is read\<close>

lemma would_block_simps [simp]: "would_block (Io WouldBlock m)"
  by (simp add: would_block_def)

text \<open>A write that returns has written all of its bytes, one that fails a part of them.\<close>

lemma fd_write_all_out: "fd_write_all buf k = Some (Inr u, out, k') \<Longrightarrow> out = buf"
proof (induction buf k arbitrary: out rule: fd_write_all.induct)
  case (4 b bs n k)
  then obtain o1 where "n \<noteq> 0" "fd_write_all (drop n (b # bs)) k = Some (Inr u, o1, k')" "out = take n (b # bs) @ o1"
    by (simp del: drop_Cons take_Cons split: if_splits option.splits prod.splits)
  with 4(1)[of o1] show ?case by (metis append_take_drop_id)
qed (simp_all split: if_splits)

lemma write_pieces_out: "write_pieces ps k = Some (Inr u, out, k') \<Longrightarrow> out = concat ps"
proof (induction ps k arbitrary: out rule: write_pieces.induct)
  case (2 p ps k)
  then obtain o1 k1 o2 where "fd_write_all p k = Some (Inr (), o1, k1)" "write_pieces ps k1 = Some (Inr u, o2, k')" "out = o1 @ o2"
    by (simp split: option.splits prod.splits sum.splits)
  with 2(1)[OF _ refl refl refl] fd_write_all_out[OF this(1)] show ?case by (metis concat.simps(2))
qed simp

definition frame_of :: "u8 list \<Rightarrow> u8 list" where
  "frame_of p = concat (ios_pieces p)"

lemma ios_write_out: "ios_write p k = Some (Inr n, out, k') \<Longrightarrow> out = frame_of p \<and> n = length p"
  by (auto simp: ios_write_def frame_of_def mapE_def bindE_Inr_iff dest!: write_pieces_out)

text \<open>A pipe that is alive: every arrival has bytes, and no call fails for good.\<close>

definition alive :: "arrivals \<Rightarrow> bool" where
  "alive q \<longleftrightarrow> (\<forall>a\<in>set q. case a of Inl e \<Rightarrow> would_block e | Inr bs \<Rightarrow> bs \<noteq> [])"

definition arriving :: "arrivals \<Rightarrow> u8 list" where
  "arriving q = concat (map (\<lambda>a. case a of Inl e \<Rightarrow> [] | Inr bs \<Rightarrow> bs) q)"

lemma alive_simps [simp]:
  "alive []"
  "alive (Inl e # q) \<longleftrightarrow> would_block e \<and> alive q"
  "alive (Inr bs # q) \<longleftrightarrow> bs \<noteq> [] \<and> alive q"
  by (auto simp: alive_def)

lemma arriving_simps [simp]:
  "arriving [] = []"
  "arriving (Inl e # q) = arriving q"
  "arriving (Inr bs # q) = bs @ arriving q"
  by (simp_all add: arriving_def)

lemma ios_read_exact_gets:
  assumes "alive q" "n \<le> length (arriving q)"
  shows "\<exists>q'. ios_read_exact n q = Some (Inr (take n (arriving q)), q') \<and> alive q' \<and> arriving q' = drop n (arriving q)"
  using assms
proof (induction n q rule: ios_read_exact.induct)
  case (1 n q)
  show ?case
  proof (cases "n = 0")
    case True
    then show ?thesis using 1(3) by (simp add: ios_read_exact.simps)
  next
    case n: False
    show ?thesis
    proof (cases q)
      case Nil
      then show ?thesis using 1(4) n by simp
    next
      case (Cons a q1)
      show ?thesis
      proof (cases a)
        case (Inl e)
        with Cons 1 n show ?thesis by (subst ios_read_exact.simps) simp
      next
        case (Inr bs)
        define q2 where "q2 = (if n < length bs then Inr (drop n bs) # q1 else q1)"
        have rd: "fd_read n q = Some (Inr (take n bs), q2)" by (simp add: Cons Inr q2_def)
        have q2: "alive q2" "arriving q2 = drop n bs @ arriving q1"
          using 1(3) n by (auto simp: q2_def Cons Inr)
        have ne: "take n bs \<noteq> []" using 1(3) n by (simp add: Cons Inr)
        have "\<exists>q'. ios_read_exact (n - length (take n bs)) q2 =
            Some (Inr (take (n - length (take n bs)) (arriving q2)), q') \<and> alive q' \<and>
            arriving q' = drop (n - length (take n bs)) (arriving q2)"
          using 1(2)[OF n rd refl refl ne] q2 1(4) by (simp add: Cons Inr)
        then obtain q' where IH: "ios_read_exact (n - length (take n bs)) q2 =
            Some (Inr (take (n - length (take n bs)) (arriving q2)), q')" "alive q'"
            "arriving q' = drop (n - length (take n bs)) (arriving q2)"
          by blast
        have "ios_read_exact n q = Some (Inr (take n bs @ take (n - length (take n bs)) (arriving q2)), q')"
          using n ne IH(1) by (subst ios_read_exact.simps) (simp add: rd next_read_def)
        then show ?thesis using IH(2,3) q2(2) by (cases "n < length bs") (auto simp: Cons Inr)
      qed
    qed
  qed
qed

lemma unat_frame_length:
  assumes "length p + 4 < 2 ^ 32"
  shows "unat (4 + of_nat (length p) :: u32) = length p + 4"
proof -
  have "(4 + of_nat (length p) :: u32) = of_nat (length p + 4)" by simp
  then show ?thesis using assms by (simp only: unat_of_nat) simp
qed

lemma ios_read_data:
  assumes "alive q" "arriving q = be32_bytes (4 + of_nat (length p)) @ f @ p @ rest" "length f = 4"
    "length p + 4 \<le> buf_len" "buf_len < 2 ^ 32"
  shows "\<exists>q'. ios_read buf_len q = Some (Inr p, q') \<and> alive q' \<and> arriving q' = rest"
proof -
  define l where "l = be32_bytes (4 + of_nat (length p))"
  have len: "length l = 4" "length f = 4" using assms(3) by (simp_all add: l_def)
  have a: "arriving q = l @ f @ p @ rest" using assms(2) by (simp add: l_def)
  obtain q1 where q1: "ios_read_exact 4 q = Some (Inr l, q1)" "alive q1" "arriving q1 = f @ p @ rest"
    using ios_read_exact_gets[OF assms(1), of 4] len a by auto
  obtain q2 where q2: "ios_read_exact 4 q1 = Some (Inr f, q2)" "alive q2" "arriving q2 = p @ rest"
    using ios_read_exact_gets[OF q1(2), of 4] len q1(3) by auto
  obtain q3 where q3: "ios_read_exact (length p) q2 = Some (Inr p, q3)" "alive q3" "arriving q3 = rest"
    using ios_read_exact_gets[OF q2(2), of "length p"] q2(3) by auto
  have "be32 (l ! 0) (l ! 1) (l ! 2) (l ! 3) = 4 + of_nat (length p)"
    unfolding l_def be32_bytes_def by simp
  then have "unat (be32 (l ! 0) (l ! 1) (l ! 2) (l ! 3)) = length p + 4"
    using assms(4,5) by (simp only: unat_frame_length)
  then have "ios_read buf_len q = Some (Inr p, q3)"
    unfolding ios_read_def next_read_def q1(1) using assms(4) q2(1) q3(1) by simp
  then show ?thesis using q3(2,3) by blast
qed

lemma ios_read_gets:
  assumes "alive q" "arriving q = frame_of p @ rest" "length p + 4 \<le> buf_len" "buf_len < 2 ^ 32"
  shows "\<exists>q'. ios_read buf_len q = Some (Inr p, q') \<and> alive q' \<and> arriving q' = rest"
  by (rule ios_read_data[where f = "be32_bytes (ios_family p)"]) (use assms in \<open>auto simp: frame_of_def ios_pieces_def\<close>)

text \<open>
  C37. The device of iOS delivers: packets written one after the other to one end of a pipe, in any partial writes, are the
  packets read at the other end, in any partial reads.
\<close>

theorem pipe_delivers:
  assumes "list_all2 (\<lambda>p out. \<exists>k n k'. ios_write p k = Some (Inr n, out, k')) ps outs"
    "alive q" "arriving q = concat outs @ rest" "\<forall>p\<in>set ps. length p + 4 \<le> buf_len" "buf_len < 2 ^ 32"
  shows "ios_reads buf_len (length ps) q = map Inr ps"
  using assms
proof (induction ps outs arbitrary: q rule: list_all2_induct)
  case (Cons p ps out outs)
  from Cons(1) have "arriving q = frame_of p @ concat outs @ rest" using Cons(5) by (auto dest!: ios_write_out)
  with ios_read_gets[OF Cons(4) this, of buf_len] Cons(6,7) obtain q' where
    "ios_read buf_len q = Some (Inr p, q')" "alive q'" "arriving q' = concat outs @ rest" by auto
  with Cons(3)[of q'] Cons(6,7) show ?case by simp
qed simp

theorem pipe_delivers_witness:
  "ios_reads 1500 2 [Inr [0, 0], Inl (Io WouldBlock []), Inr [0, 6, 0, 0, 0, 2, 0x45], Inr [9, 0, 0, 0, 5, 0, 0, 0, 30, 0x60]] =
     map Inr [[0x45, 9], [0x60]]"
proof -
  have "ios_write [0x45, 9] [Inr 4, Inl (Io WouldBlock []), Inr 4, Inr 1, Inr 1] = Some (Inr 2, [0, 0, 0, 6, 0, 0, 0, 2, 0x45, 9], [])"
    "ios_write [0x60] [Inr 3, Inr 1, Inr 4, Inr 1] = Some (Inr 1, [0, 0, 0, 5, 0, 0, 0, 30, 0x60], [])"
    by code_simp+
  then have "list_all2 (\<lambda>p out. \<exists>k n k'. ios_write p k = Some (Inr n, out, k')) [[0x45, 9], [0x60]]
      [[0, 0, 0, 6, 0, 0, 0, 2, 0x45, 9], [0, 0, 0, 5, 0, 0, 0, 30, 0x60]]"
    by (simp del: ex_simps) blast
  from pipe_delivers[OF this, of "[Inr [0, 0], Inl (Io WouldBlock []), Inr [0, 6, 0, 0, 0, 2, 0x45], Inr [9, 0, 0, 0, 5, 0, 0, 0, 30, 0x60]]" "[]" 1500]
  show ?thesis by (simp only: alive_simps arriving_simps) (simp del: ios_reads.simps flip: numeral_2_eq_2)
qed

text \<open>Two threads write at once, piece by piece: the reader takes for a packet what neither wrote.\<close>

lemma be32_hd_small:
  assumes "v < 0x10000000"
  shows "drop_bit 4 (hd (be32_bytes v)) = 0"
proof -
  have "unat v div 2 ^ 24 < 16" using assms by (simp add: word_less_nat_alt)
  then have "unat (drop_bit 24 v) < 16" by (simp only: unat_drop_bit_eq drop_bit_eq_div[of _ "unat v"])
  moreover have "unat (ucast (drop_bit 24 v) :: u8) = unat (drop_bit 24 v) mod 256" by (simp add: unsigned_ucast_eq take_bit_eq_mod)
  ultimately have "unat (drop_bit 4 (ucast (drop_bit 24 v) :: u8)) = 0"
    by (simp add: unat_drop_bit_eq drop_bit_eq_div[where ?'a = nat])
  then show ?thesis by (simp add: be32_bytes_def unat_eq_0)
qed

theorem two_writers_tear:
  assumes "8 \<le> length p" "drop_bit 4 (hd p) \<noteq> 0" "drop_bit 4 (hd p') \<noteq> 0" "length p' < 65536"
    "length p + 4 \<le> buf_len" "buf_len < 2 ^ 32"
  shows "\<exists>pieces \<in> shuffles (ios_pieces p) (ios_pieces p'). \<exists>x q.
     ios_read buf_len [Inr (concat pieces)] = Some (Inr x, q) \<and> x \<noteq> p \<and> x \<noteq> p'"
proof -
  let ?l = "\<lambda>p. be32_bytes (4 + of_nat (length p))" and ?f = "\<lambda>p. be32_bytes (ios_family p)"
  let ?pieces = "[?l p, ?f p, ?l p', ?f p', p, p']"
  let ?x = "?l p' @ ?f p' @ take (length p - 8) p"
  have sh: "?pieces \<in> shuffles (ios_pieces p) (ios_pieces p')"
    by (simp add: ios_pieces_def Cons_in_shuffles_iff)
  have len: "length ?x = length p" using assms(1) by simp
  have "arriving [Inr (concat ?pieces)] = ?l ?x @ ?f p @ ?x @ drop (length p - 8) p @ p'" by (simp only: len) simp
  from ios_read_data[OF _ this _ _ assms(6)] have "\<exists>q. ios_read buf_len [Inr (concat ?pieces)] = Some (Inr ?x, q) \<and> alive q \<and>
      arriving q = drop (length p - 8) p @ p'"
    using assms(5) unfolding len by (metis (no_types, lifting) alive_simps(1,3) append_is_Nil_conv concat.simps(2) length_be_bytes(2)
      length_0_conv zero_neq_numeral)
  then obtain q where q: "ios_read buf_len [Inr (concat ?pieces)] = Some (Inr ?x, q)" by blast
  have "unat (4 + of_nat (length p') :: u32) = length p' + 4" by (rule unat_frame_length) (use assms(4) in simp)
  then have "(4 + of_nat (length p') :: u32) < 0x10000000" using assms(4) by (simp add: word_less_nat_alt)
  moreover have "hd ?x = hd (?l p')" by (simp add: be32_bytes_def)
  ultimately have "drop_bit 4 (hd ?x) = 0" by (simp only: be32_hd_small)
  then have "?x \<noteq> p" "?x \<noteq> p'" using assms(2,3) by metis+
  with sh q show ?thesis by blast
qed

section \<open>Stopping the reader\<close>

definition no_block :: "'a res \<Rightarrow> bool" where
  "no_block r = (case r of Inl e \<Rightarrow> \<not> would_block e | Inr _ \<Rightarrow> True)"

lemma no_block_simps [simp]: "no_block (Inl e) \<longleftrightarrow> \<not> would_block e" "no_block (Inr x)"
  by (simp_all add: no_block_def)

lemma next_read_no_block:
  "next_read m f = Some (r, q') \<Longrightarrow> (\<And>r q. m = Some (r, q) \<Longrightarrow> no_block r) \<Longrightarrow>
   (\<And>x q r q'. f x q = Some (r, q') \<Longrightarrow> no_block r) \<Longrightarrow> no_block r"
  by (auto simp: next_read_def split: option.splits prod.splits sum.splits)

lemma ios_read_exact_no_block: "ios_read_exact n q = Some (r, q') \<Longrightarrow> no_block r"
proof (induction n q arbitrary: r q' rule: ios_read_exact.induct)
  case (1 n q)
  show ?case
  proof (cases "fd_read n q")
    case None
    then show ?thesis using 1(3) by (subst (asm) ios_read_exact.simps) (auto split: if_splits)
  next
    case (Some y)
    obtain a q1 where y: "y = (a, q1)" by (cases y)
    show ?thesis
    proof (cases a)
      case (Inl e)
      then show ?thesis using 1(1)[OF _ Some y[symmetric] Inl] 1(3)
        by (subst (asm) ios_read_exact.simps) (auto simp: Some y split: if_splits)
    next
      case (Inr bs)
      show ?thesis
      proof (cases "n = 0 \<or> bs = []")
        case True
        then show ?thesis using 1(3)
          by (subst (asm) ios_read_exact.simps) (auto simp: Some y Inr would_block_def split: if_splits)
      next
        case False
        then have "next_read (ios_read_exact (n - length bs) q1) (\<lambda>rest q. Some (Inr (bs @ rest), q)) = Some (r, q')"
          using 1(3) by (subst (asm) ios_read_exact.simps) (simp add: Some y Inr)
        then show ?thesis
          by (rule next_read_no_block) (use 1(2)[OF _ Some y[symmetric] Inr] False in auto)
      qed
    qed
  qed
qed

lemma ios_read_no_block: "ios_read buf_len q = Some (r, q') \<Longrightarrow> no_block r"
proof -
  assume *: "ios_read buf_len q = Some (r, q')"
  have inner: "no_block r" if "next_read (ios_read_exact 4 q1) (\<lambda>proto q. ios_read_exact n q) = Some (r, q2)" for n q1 q2 r
    using that by (rule next_read_no_block) (rule ios_read_exact_no_block, assumption)+
  from * show ?thesis
    unfolding ios_read_def Let_def
  proof (rule next_read_no_block)
    fix x q1 r q2
    assume "(if unat (be32 (x ! 0) (x ! 1) (x ! 2) (x ! 3)) < 4 \<or> buf_len < unat (be32 (x ! 0) (x ! 1) (x ! 2) (x ! 3))
        then Some (Inl (Io InvalidData ''invalid total_length from pipe''), q1)
        else next_read (ios_read_exact 4 q1) (\<lambda>proto q. ios_read_exact (unat (be32 (x ! 0) (x ! 1) (x ! 2) (x ! 3)) - 4) q)) =
      Some (r, q2)"
    then show "no_block r" by (simp only: split: if_splits) (auto simp: would_block_def, erule inner)
  qed (rule ios_read_exact_no_block)
qed

lemma ios_reads_no_block: "r \<in> set (ios_reads buf_len n q) \<Longrightarrow> no_block r"
  by (induction n arbitrary: q) (auto split: option.splits dest: ios_read_no_block[OF sym] ios_read_no_block)

lemma drain_no_block: "\<forall>r\<in>set rs. no_block r \<Longrightarrow> drain handle start k rs s = (s', e, rs') \<Longrightarrow> e \<noteq> Poll_again"
  by (induction handle start k rs s rule: drain.induct) auto

text \<open>
  C39. A read of the device of iOS never says that it would block: once a packet has woken the thread, it never comes back to the
  poll, and the signal to stop is never seen, whatever arrives and whatever is polled.
\<close>

theorem ios_stop_unseen:
  "snd (start_simple0 handle (device_start False) (Some (Inr (FD # ts)) # ps) (ios_reads buf_len n q) s) \<noteq> Loop_stopped"
proof -
  obtain s' e rs' where d: "drain handle (device_start False) 0 (ios_reads buf_len n q) s = (s', e, rs')" by (metis prod_cases3)
  then have "e \<noteq> Poll_again" using drain_no_block ios_reads_no_block by blast
  then show ?thesis by (cases e) (simp_all add: d FD_def STOP_def)
qed

text \<open>Of the other devices, the packets that wait are handled in order, and the signal polled next stops the thread.\<close>

definition handled :: "(u8 list \<Rightarrow> nat \<Rightarrow> 's \<Rightarrow> u8 list \<times> 's) \<Rightarrow> nat \<Rightarrow> u8 list list \<Rightarrow> u8 list \<times> 's \<Rightarrow> u8 list \<times> 's" where
  "handled handle start ps s = foldl (\<lambda>(buf, s) p. handle (loaded start p buf) (length p + start) s) s ps"

lemma drain_waiting:
  "k < 8 \<Longrightarrow> drain handle start k (map Inr ps @ replicate (8 - k) (Inl (Io WouldBlock [])) @ rs) s = (handled handle start ps s, Poll_again, rs)"
proof (induction ps arbitrary: s)
  case Nil
  then show ?case
  proof (induction "8 - k" arbitrary: k)
    case (Suc m)
    then have "8 - k = Suc (8 - (k + 1))" by simp
    moreover have "k + 1 < 8 \<Longrightarrow> drain handle start (k + 1) (replicate (8 - (k + 1)) (Inl (Io WouldBlock [])) @ rs) s =
        (s, Poll_again, rs)"
      using Suc(1)[of "k + 1"] Suc(2) by (simp add: handled_def)
    ultimately show ?case using Suc(3) by (cases "k + 1 < 8") (simp_all add: handled_def)
  qed simp
next
  case (Cons p ps)
  then show ?case by (cases s) (simp add: handled_def)
qed

theorem stop_seen_after_packets:
  "start_simple0 handle start (None # Some (Inr [FD]) # Some (Inr [STOP]) # polls)
     (map Inr ps @ replicate 8 (Inl (Io WouldBlock [])) @ rs) s = (handled handle start ps s, Loop_stopped)"
  using drain_waiting[of 0 handle start ps rs s] by (simp add: FD_def STOP_def)

text \<open>On macOS the four bytes before a packet land in the header that is reset: the handler sees what it sees on Linux.\<close>

theorem mac_reads_as_linux:
  assumes "12 \<le> length buf"
  shows "loaded (device_start True) (mac_write p) buf = loaded (device_start False) p buf"
    "length (mac_write p) + device_start True = length p + device_start False"
  using assms by (simp_all add: loaded_def device_start_def mac_write_def splice_def min_def)

section \<open>Addresses, names and routes\<close>

text \<open>What a system promises of the calls that set addresses.\<close>

definition keeps_addrs :: "'k ioctls \<Rightarrow> bool" where
  "keeps_addrs K \<longleftrightarrow>
     (\<forall>kind name v k k'. io_set_addr K kind name v k = (Inr (), k') \<longrightarrow> io_get_addr K kind name k' = Inr v) \<and>
     (\<forall>name v k k'. io_set_addr K If_mask name v k = (Inr (), k') \<longrightarrow> io_get_addr K If_addr name k' = io_get_addr K If_addr name k)"

theorem set_ip_kept:
  assumes "keeps_addrs K" "if_set_ip K name ip m k = (Inr (), k')"
  shows "if_address K name k' = Inr ip \<and> if_netmask K name k' = Inr m \<and> mac_netmask K name k' = Inr m"
proof -
  from assms(2) obtain k1 where "io_set_addr K If_addr name (AF_INET, ip) k = (Inr (), k1)"
      "io_set_addr K If_mask name (AF_INET, m) k1 = (Inr (), k')"
    by (auto simp: if_set_ip_def if_set_address_def if_set_netmask_def SockAddr_from_def split: prod.splits sum.splits)
  with assms(1) have "io_get_addr K If_addr name k' = Inr (AF_INET, ip)" "io_get_addr K If_mask name k' = Inr (AF_INET, m)"
    unfolding keeps_addrs_def by metis+
  then show ?thesis by (simp add: if_address_def if_netmask_def mac_netmask_def SockAddr_new_def)
qed

lemma length_show_nat_le: "n < 10 ^ Suc k \<Longrightarrow> length (show_nat n) \<le> Suc k"
proof (induction k arbitrary: n)
  case 0
  then show ?case by (subst show_nat.simps) simp
next
  case (Suc k)
  then have "n div 10 < 10 ^ Suc k" by simp
  from Suc(1)[OF this] show ?case by (subst show_nat.simps) simp
qed

text \<open>The unit of a named device is one more than its number; the largest number wraps to the unit that means any device.\<close>

theorem mac_unit_of_name: "n < 2 ^ 32 \<Longrightarrow> mac_unit (Some (''utun'' @ show_nat n)) = Inr (of_nat n + 1)"
proof -
  assume n: "n < 2 ^ 32"
  then have "length (show_nat n) \<le> Suc 9" by (intro length_show_nat_le) simp
  with n show ?thesis by (simp add: mac_unit_def IFNAMSIZ_def starts_with_def parse_u32_def)
qed

theorem mac_unit_wraps: "mac_unit (Some (''utun'' @ show_nat 4294967295)) = mac_unit None"
  by (subst mac_unit_of_name) (simp_all add: mac_unit_def)

lemma length_filter_ge: "k \<le> n \<Longrightarrow> length (filter (\<lambda>i. k \<le> i) [0..<n]) = n - k"
  by (induction n) (auto simp: Suc_diff_le le_Suc_eq)

lemma count_ones_prefix: "p \<le> 32 \<Longrightarrow> count_ones (push_bit (32 - p) (-1)) = p"
proof -
  assume p: "p \<le> 32"
  have "filter (bit (push_bit (32 - p) (-1) :: u32)) [0..<32] = filter (\<lambda>i. 32 - p \<le> i) [0..<32]"
    by (rule filter_cong) (auto simp: bit_push_bit_iff bit_simps)
  then show ?thesis using p length_filter_ge[of "32 - p" 32] by (simp add: count_ones_def)
qed

text \<open>A route to a network of Linux names its prefix; one whose mask is full names the host.\<close>

theorem linux_route_prefix:
  "p \<le> 32 \<Longrightarrow> linux_add_route name a (push_bit (32 - p) (-1)) =
     (if p = 32 then ''route add -host '' @ show_ipv4 a @ '' '' @ name
      else ''route add -net '' @ show_ipv4 a @ ''/'' @ show_nat p @ '' '' @ name)"
proof -
  assume p: "p \<le> 32"
  have "push_bit (32 - p) (-1) = Ipv4_BROADCAST \<longleftrightarrow> p = 32"
  proof
    assume "push_bit (32 - p) (-1) = Ipv4_BROADCAST"
    then have "count_ones Ipv4_BROADCAST = p" using count_ones_prefix[OF p] by simp
    moreover have "count_ones Ipv4_BROADCAST = 32" by code_simp
    ultimately show "p = 32" by simp
  qed (simp add: Ipv4_BROADCAST_def)
  then show ?thesis unfolding linux_add_route_def is_broadcast_def count_ones_prefix[OF p] by simp
qed

definition keeps_flags :: "'k ioctls \<Rightarrow> bool" where
  "keeps_flags K \<longleftrightarrow> (\<forall>name v k k'. io_set_flags K name v k = (Inr (), k') \<longrightarrow> io_get_flags K name k' = Inr v)"

text \<open>A device of Linux that could be opened is up and running, and a name asked for fitted with the byte that ends it.\<close>

theorem linux_device_up:
  assumes "keeps_flags K" "linux_device_new S K name k = (Inr got, k', cmds)"
  shows "\<exists>flags. io_get_flags K got k' = Inr flags \<and> bit flags 0 \<and> bit flags 6"
    "name = Some n \<Longrightarrow> length n < IFNAMSIZ \<and> char_of (0::nat) \<notin> set n"
proof -
  from assms(2) have o: "linux_open S name = Inr got" and e: "enabled K got True k = (Inr (), k')"
    by (auto simp: linux_device_new_def mapE_def bindE_Inr_iff split: sum.splits prod.splits)
  from e obtain flags where "io_set_flags K got (flags OR (IFF_UP OR IFF_RUNNING)) k = (Inr (), k')"
    by (auto simp: enabled_def split: sum.splits)
  with assms(1) have "io_get_flags K got k' = Inr (flags OR (IFF_UP OR IFF_RUNNING))" unfolding keeps_flags_def by blast
  moreover have "bit (flags OR (IFF_UP OR IFF_RUNNING)) 0" "bit (flags OR (IFF_UP OR IFF_RUNNING)) 6"
    by (simp_all add: bit_or_iff IFF_UP_def IFF_RUNNING_def)
  ultimately show "\<exists>flags. io_get_flags K got k' = Inr flags \<and> bit flags 0 \<and> bit flags 6" by blast
  show "name = Some n \<Longrightarrow> length n < IFNAMSIZ \<and> char_of (0::nat) \<notin> set n"
    using o by (auto simp: linux_open_def linux_name_def bindE_Inr_iff split: if_splits)
qed

end
