(* ===== verification/Windows_Device.thy ===== *)
theory Windows_Device
  imports Tap_Device Text_Parsing
begin

text \<open>
  The network device on Windows, \<^verbatim>\<open>vnt/tun/src/windows\<close>: the session of wintun (\<^verbatim>\<open>tun/mod.rs\<close>, \<^verbatim>\<open>tun/packet.rs\<close>) and the
  commands of \<^verbatim>\<open>netsh.rs\<close> and \<^verbatim>\<open>route.rs\<close>. What the driver and
  the system return is arbitrary. Frames of the TAP device are in \<open>Tap_Device\<close>.
\<close>

section \<open>Opening a session of wintun\<close>

text \<open>What the library and the driver answer; the length of the name counts the zero that ends it.\<close>

record wintun =
  wt_library :: "unit res"
  wt_open_adapter :: bool
  wt_create_adapter :: bool
  wt_start_session :: bool
  wt_luid_to_index :: "u32 res"

datatype wintun_call =
    Close_adapter | Delete_driver | Create_adapter "u8 list" | Start_session u32 | Create_event | Cmd string

definition MAX_POOL :: nat where "MAX_POOL = 256"

definition delete_for_name :: "wintun \<Rightarrow> unit res \<times> wintun_call list" where
  "delete_for_name W = (if \<not> wt_open_adapter W then (Inl (Io OtherKind ''Failed to open adapter''), [])
     else (Inr (), [Close_adapter, Delete_driver]))"

text \<open>The first half of the hash of the name.\<close>

definition hash_guid :: "(u8 list \<Rightarrow> u8 list) \<Rightarrow> u8 list \<Rightarrow> u8 list" where
  "hash_guid sha256 input = take 16 (sha256 ([0x56, 0x4E, 0x54] @ input @ [0x32, 0x30, 0x32, 0x34]))"

definition set_interface_metric :: "u32 \<Rightarrow> u16 \<Rightarrow> string" where
  "set_interface_metric index metric =
     ''netsh interface ip set interface '' @ show_nat (unat index) @ '' metric='' @ show_nat (unat metric)"

definition wintun_new :: "wintun \<Rightarrow> (u8 list \<Rightarrow> u8 list) \<Rightarrow> u8 list \<Rightarrow> nat \<Rightarrow> u32 res \<times> wintun_call list" where
  "wintun_new W sha256 name name_len = (case wt_library W of
     Inl e \<Rightarrow> (Inl e, [])
   | Inr _ \<Rightarrow>
       if name_len > MAX_POOL then (Inl (Io OtherKind ''too long''), [])
       else let l = snd (delete_for_name W) in
         if \<not> wt_create_adapter W then (Inl (Io OtherKind ''Failed to crate adapter''), l)
         else let l = l @ [Create_adapter (hash_guid sha256 name)] in
           if \<not> wt_start_session W then (Inl (Io OtherKind ''WintunStartSession failed''), l)
           else let l = l @ [Start_session (4 * 1024 * 1024), Create_event] in
             case wt_luid_to_index W of
               Inl e \<Rightarrow> (Inl e, l)
             | Inr index \<Rightarrow> (Inr index, l @ [Cmd (set_interface_metric index 0)]))"

section \<open>Reading and writing\<close>

text \<open>
  What calls to receive return (a packet, nothing yet, an error), and how waits end: the wait failed, there is data, or the
  session was shut down. The calls for the packets are recorded.
\<close>

datatype wait_end = Wait_failed | Wait_data | Wait_shutdown

datatype burst_end = Burst_packet "u8 list" | Burst_error err | Burst_over

text \<open>Twenty tries: errors of the first eleven are passed over. \<open>None\<close> when the answers of the driver are at an end.\<close>

fun burst :: "nat \<Rightarrow> u8 list option res list \<Rightarrow> (burst_end \<times> u8 list option res list) option" where
  "burst i [] = (if i \<ge> 20 then Some (Burst_over, []) else None)"
| "burst i (r # rs) = (if i \<ge> 20 then Some (Burst_over, r # rs) else case r of
     Inr None \<Rightarrow> burst (i + 1) rs
   | Inr (Some p) \<Rightarrow> Some (Burst_packet p, rs)
   | Inl e \<Rightarrow> if i > 10 then Some (Burst_error e, rs) else burst (i + 1) rs)"

fun receive_blocking :: "u8 list option res list \<Rightarrow> wait_end list \<Rightarrow> (u8 list res \<times> u8 list option res list) option" where
  "receive_blocking rs [] = (case burst 0 rs of
     Some (Burst_packet p, rs) \<Rightarrow> Some (Inr p, rs) | Some (Burst_error e, rs) \<Rightarrow> Some (Inl e, rs) | _ \<Rightarrow> None)"
| "receive_blocking rs (w # ws) = (case burst 0 rs of
     None \<Rightarrow> None
   | Some (Burst_packet p, rs) \<Rightarrow> Some (Inr p, rs)
   | Some (Burst_error e, rs) \<Rightarrow> Some (Inl e, rs)
   | Some (Burst_over, rs) \<Rightarrow> (case w of
       Wait_failed \<Rightarrow> Some (Inl (Io OtherKind ''WAIT_FAILED''), rs)
     | Wait_data \<Rightarrow> receive_blocking rs ws
     | Wait_shutdown \<Rightarrow> Some (Inl (Io OtherKind ''Shutdown event triggered''), rs)))"

datatype packet_kind = SendPacketPending | SendPacketSent | ReceivePacket

datatype packet_call = Released "u8 list" | Allocated u16 | Packet_sent "u8 list"

text \<open>Leaving scope: a packet received goes back to the driver, one allocated and not sent panics.\<close>

definition TunPacket_drop :: "packet_kind \<Rightarrow> u8 list \<Rightarrow> packet_call list res" where
  "TunPacket_drop kind bytes = (case kind of
     ReceivePacket \<Rightarrow> Inr [Released bytes] | SendPacketPending \<Rightarrow> Inl Panic | SendPacketSent \<Rightarrow> Inr [])"

text \<open>The packet read into a buffer of \<open>buf_len\<close> bytes; also one that does not fit goes back.\<close>

definition wintun_read :: "nat \<Rightarrow> u8 list option res list \<Rightarrow> wait_end list \<Rightarrow> (u8 list res \<times> packet_call list \<times> u8 list option res list) option" where
  "wintun_read buf_len rs ws = (case receive_blocking rs ws of
     None \<Rightarrow> None
   | Some (Inl e, rs) \<Rightarrow> Some (Inl e, [], rs)
   | Some (Inr p, rs) \<Rightarrow> (case TunPacket_drop ReceivePacket p of
       Inl e \<Rightarrow> Some (Inl e, [], rs)
     | Inr l \<Rightarrow> Some (if length p > buf_len then Inl (Io InvalidData ''data too long'') else Inr p, l, rs)))"

text \<open>\<open>ok\<close>: the driver has room. The length is taken in sixteen bits.\<close>

definition allocate_send_packet :: "bool \<Rightarrow> u16 \<Rightarrow> (packet_kind \<times> nat) res" where
  "allocate_send_packet ok sz =
     (if \<not> ok then Inl (Io OtherKind ''allocate_send_packet failed'') else Inr (SendPacketPending, unat sz))"

definition send_packet :: "packet_kind \<Rightarrow> u8 list \<Rightarrow> packet_call list res" where
  "send_packet kind bytes = (if kind \<noteq> SendPacketPending then Inl Panic
     else mapE ((@) [Packet_sent bytes]) (TunPacket_drop SendPacketSent bytes))"

definition wintun_write :: "bool \<Rightarrow> u8 list \<Rightarrow> (nat \<times> packet_call list) res" where
  "wintun_write ok buf =
     bindE (allocate_send_packet ok (of_nat (length buf))) (\<lambda>(kind, sz).
       if length buf \<noteq> sz then Inl Panic
       else mapE (\<lambda>l. (length buf, Allocated (of_nat sz) # l)) (send_packet kind buf))"

section \<open>Commands\<close>

definition delete_cache :: string where "delete_cache = ''netsh interface ip delete destinationcache''"

definition set_interface_ip :: "u32 \<Rightarrow> ipv4 \<Rightarrow> ipv4 \<Rightarrow> string" where
  "set_interface_ip index address net_mask =
     ''netsh interface ip set address '' @ show_nat (unat index) @ '' static '' @ show_ipv4 address @ '' '' @ show_ipv4 net_mask @ '' ''"

definition set_interface_mtu :: "u32 \<Rightarrow> u32 \<Rightarrow> string" where
  "set_interface_mtu index mtu =
     ''netsh interface ipv4 set subinterface '' @ show_nat (unat index) @ ''  mtu='' @ show_nat (unat mtu) @ '' store=persistent''"

definition windows_add_route :: "u32 \<Rightarrow> ipv4 \<Rightarrow> ipv4 \<Rightarrow> ipv4 \<Rightarrow> u16 \<Rightarrow> string" where
  "windows_add_route index dest net_mask gateway metric =
     ''route add '' @ show_ipv4 dest @ '' mask '' @ show_ipv4 net_mask @ '' '' @ show_ipv4 gateway @
     '' metric '' @ show_nat (unat metric) @ '' if '' @ show_nat (unat index)"

definition windows_delete_route :: "u32 \<Rightarrow> ipv4 \<Rightarrow> ipv4 \<Rightarrow> ipv4 \<Rightarrow> string" where
  "windows_delete_route index dest net_mask gateway =
     ''route delete  '' @ show_ipv4 dest @ '' mask '' @ show_ipv4 net_mask @ '' '' @ show_ipv4 gateway @
     '' if '' @ show_nat (unat index)"

text \<open>A route is added with its command, and when that has succeeded the cache is deleted; \<open>run\<close> is the shell.\<close>

definition device_add_route :: "(string \<Rightarrow> unit res) \<Rightarrow> u32 \<Rightarrow> ipv4 \<Rightarrow> ipv4 \<Rightarrow> u16 \<Rightarrow> unit res" where
  "device_add_route run index dest net_mask metric =
     bindE (run (windows_add_route index dest net_mask Ipv4_UNSPECIFIED metric)) (\<lambda>_. run delete_cache)"

definition device_delete_route :: "(string \<Rightarrow> unit res) \<Rightarrow> u32 \<Rightarrow> ipv4 \<Rightarrow> ipv4 \<Rightarrow> unit res" where
  "device_delete_route run index dest net_mask =
     bindE (run (windows_delete_route index dest net_mask Ipv4_UNSPECIFIED)) (\<lambda>_. run delete_cache)"

section \<open>Facts\<close>

text \<open>The answers of a driver that precede the first packet.\<close>

definition quiet :: "u8 list option res \<Rightarrow> bool" where
  "quiet r \<longleftrightarrow> (\<forall>p. r \<noteq> Inr (Some p))"

lemma quiet_simps [simp]: "quiet (Inl e)" "quiet (Inr None)" "\<not> quiet (Inr (Some p))"
  by (simp_all add: quiet_def)

definition burst_ends :: "nat \<Rightarrow> u8 list option res list \<Rightarrow> burst_end \<Rightarrow> u8 list option res list \<Rightarrow> u8 list option res list \<Rightarrow> bool" where
  "burst_ends i rs e rs' pre \<longleftrightarrow> (\<forall>r\<in>set pre. quiet r) \<and> (case e of
     Burst_packet p \<Rightarrow> rs = pre @ Inr (Some p) # rs'
   | Burst_error x \<Rightarrow> rs = pre @ Inl x # rs' \<and> 10 < i + length pre
   | Burst_over \<Rightarrow> rs = pre @ rs')"

lemma burst_ends_Cons: "quiet r \<Longrightarrow> burst_ends (i + 1) rs e rs' pre \<Longrightarrow> burst_ends i (r # rs) e rs' (r # pre)"
  by (auto simp: burst_ends_def split: burst_end.splits)

lemma burst_end: "burst i rs = Some (e, rs') \<Longrightarrow> \<exists>pre. burst_ends i rs e rs' pre"
proof (induction rs arbitrary: i)
  case Nil
  then have "e = Burst_over" "rs' = []" by (simp_all split: if_splits)
  then show ?case by (intro exI[of _ "[]"]) (simp add: burst_ends_def)
next
  case (Cons r rs)
  consider (over) "e = Burst_over" "rs' = r # rs" | (further) "quiet r" "burst (i + 1) rs = Some (e, rs')"
    | (packet) p where "r = Inr (Some p)" "e = Burst_packet p" "rs' = rs"
    | (error) x where "r = Inl x" "10 < i" "e = Burst_error x" "rs' = rs"
  proof (cases "i \<ge> 20")
    case True
    then show ?thesis using Cons(2) that(1) by simp
  next
    case False
    show ?thesis
    proof (cases r)
      case (Inl x)
      then show ?thesis using Cons(2) False that(2,4) by (cases "i > 10") simp_all
    next
      case (Inr o')
      then show ?thesis using Cons(2) False that(2,3) by (cases o') simp_all
    qed
  qed
  then show ?case
  proof cases
    case further
    from Cons(1)[OF further(2)] obtain pre where "burst_ends (i + 1) rs e rs' pre" ..
    from burst_ends_Cons[OF further(1) this] show ?thesis ..
  qed (rule exI[of _ "[]"], simp add: burst_ends_def)+
qed

lemma burst_passes: "\<forall>r\<in>set pre. quiet r \<Longrightarrow> i + length pre \<le> 11 \<Longrightarrow> burst i (pre @ Inr (Some p) # rs) = Some (Burst_packet p, rs)"
  by (induction pre arbitrary: i) (auto simp: quiet_def split: sum.splits option.splits)

text \<open>
  No packet is passed over, and an error is returned only after ten other answers of the same burst, or by a wait that found
  the session shut down or failed after whole bursts without a packet.
\<close>

theorem received_in_order:
  "receive_blocking rs ws = Some (r, rs') \<Longrightarrow>
   \<exists>pre. (\<forall>a\<in>set pre. quiet a) \<and> (case r of
     Inr p \<Rightarrow> rs = pre @ Inr (Some p) # rs'
   | Inl e \<Rightarrow> rs = pre @ Inl e # rs' \<and> 10 < length pre \<or> rs = pre @ rs' \<and> set ws \<inter> {Wait_failed, Wait_shutdown} \<noteq> {})"
proof (induction ws arbitrary: rs)
  case Nil
  then obtain e rs1 where b: "burst 0 rs = Some (e, rs1)" by (cases "burst 0 rs") auto
  from burst_end[OF b] obtain pre where "burst_ends 0 rs e rs1 pre" by blast
  with Nil b show ?case by (intro exI[of _ pre]) (auto simp: burst_ends_def split: burst_end.splits)
next
  case (Cons w ws)
  then obtain e rs1 where b: "burst 0 rs = Some (e, rs1)" by (cases "burst 0 rs") auto
  from burst_end[OF b] obtain pre where pre: "burst_ends 0 rs e rs1 pre" by blast
  show ?case
  proof (cases "e = Burst_over \<and> w = Wait_data")
    case True
    then have "receive_blocking rs1 ws = Some (r, rs')" using Cons(2) b by simp
    from Cons(1)[OF this] obtain pre' where pre': "\<forall>a\<in>set pre'. quiet a" "case r of
        Inr p \<Rightarrow> rs1 = pre' @ Inr (Some p) # rs'
      | Inl e \<Rightarrow> rs1 = pre' @ Inl e # rs' \<and> 10 < length pre' \<or> rs1 = pre' @ rs' \<and> set ws \<inter> {Wait_failed, Wait_shutdown} \<noteq> {}"
      by blast
    with True pre show ?thesis by (intro exI[of _ "pre @ pre'"]) (auto simp: burst_ends_def split: sum.splits)
  next
    case False
    with Cons(2) b pre show ?thesis
      by (intro exI[of _ pre]) (auto simp: burst_ends_def split: burst_end.splits wait_end.splits)
  qed
qed

text \<open>Every packet received goes back to the driver once, whether or not it fits.\<close>

theorem received_released:
  assumes "wintun_read buf_len rs ws = Some (r, l, rs')"
  shows "(\<exists>p pre. rs = pre @ Inr (Some p) # rs' \<and> l = [Released p] \<and>
      r = (if length p > buf_len then Inl (Io InvalidData ''data too long'') else Inr p)) \<or> l = [] \<and> \<not> is_Ok r"
proof -
  from assms obtain x where x: "receive_blocking rs ws = Some (x, rs')"
    by (auto simp: wintun_read_def TunPacket_drop_def split: option.splits sum.splits)
  show ?thesis
  proof (cases x)
    case (Inl e)
    then show ?thesis using assms x by (auto simp: wintun_read_def)
  next
    case (Inr p)
    then show ?thesis using assms x received_in_order[OF x] by (auto simp: wintun_read_def TunPacket_drop_def)
  qed
qed

text \<open>A packet is sent whole or not at all, and one too long for sixteen bits panics.\<close>

theorem wintun_write_sends:
  "wintun_write ok buf = (if \<not> ok then Inl (Io OtherKind ''allocate_send_packet failed'')
     else if length buf < 65536 then Inr (length buf, [Allocated (of_nat (length buf)), Packet_sent buf])
     else Inl Panic)"
proof -
  have "length buf = unat (of_nat (length buf) :: u16) \<longleftrightarrow> length buf < 65536"
    by (auto simp: unat_of_nat take_bit_eq_mod)
  then show ?thesis
    by (simp add: wintun_write_def allocate_send_packet_def send_packet_def TunPacket_drop_def)
qed

text \<open>Opening that fails after the adapter has been made leaves the adapter, and perhaps its session.\<close>

theorem wintun_new_leaves_adapter:
  "wintun_new W sha256 name n = (Inl e, l) \<Longrightarrow> Create_adapter g \<in> set l \<Longrightarrow>
   Close_adapter \<notin> set (dropWhile (\<lambda>c. c \<noteq> Create_adapter g) l)"
  by (auto simp: wintun_new_def delete_for_name_def Let_def split: sum.splits if_splits)

end
