(* ===== verification/Sockets.thy ===== *)
theory Sockets
  imports Text_Parsing
begin

text \<open>
  Sockets of the operating system as the program makes them, \<^verbatim>\<open>vnt/src/channel/socket\<close>: the calls in their order up to
  the first that fails, the choice of an interface, and the ports announced over UPnP (\<^verbatim>\<open>vnt/src/util/upnp.rs\<close>).
  What the system answers to a call is arbitrary.
\<close>

section \<open>Making a socket\<close>

text \<open>\<open>LocalInterface\<close>; the name is there on Unix.\<close>

record LocalInterface =
  li_index :: u32
  li_name :: "string option"

definition LocalInterface_default :: LocalInterface where
  "LocalInterface_default = \<lparr>li_index = 0, li_name = None\<rparr>"

datatype os_call =
    New_socket bool bool | Bind_device string | Bind_index u32 | Set_only_v6 bool | Set_nonblocking | Set_nodelay | Bind_addr socket_addr

text \<open>The calls made, one after the other, until one fails.\<close>

fun os_calls :: "(os_call \<Rightarrow> unit res) \<Rightarrow> os_call list \<Rightarrow> unit res \<times> os_call list" where
  "os_calls S [] = (Inr (), [])"
| "os_calls S (c # cs) = (case S c of
     Inl e \<Rightarrow> (Inl e, [])
   | Inr _ \<Rightarrow> (case os_calls S cs of (r, l) \<Rightarrow> (r, c # l)))"

definition linux_unicast_if :: "LocalInterface \<Rightarrow> os_call list" where
  "linux_unicast_if i = (case li_name i of Some name \<Rightarrow> [Bind_device name] | None \<Rightarrow> [])"

definition mac_unicast_if :: "LocalInterface \<Rightarrow> os_call list" where
  "mac_unicast_if i = (if li_index i \<noteq> 0 then [Bind_index (li_index i)] else [])"

text \<open>\<open>New_socket v4 tcp\<close>; \<open>unicast_if\<close> is the one of the system.\<close>

definition create_tcp :: "(LocalInterface \<Rightarrow> os_call list) \<Rightarrow> bool \<Rightarrow> LocalInterface \<Rightarrow> os_call list" where
  "create_tcp unicast_if v4 i = [New_socket v4 True] @ (if v4 then unicast_if i else []) @ [Set_nonblocking, Set_nodelay]"

definition bind_udp_ops :: "(LocalInterface \<Rightarrow> os_call list) \<Rightarrow> socket_addr \<Rightarrow> bool \<Rightarrow> LocalInterface \<Rightarrow> os_call list" where
  "bind_udp_ops unicast_if addr only_v6 i =
     (if sa_is_ipv4 addr then [New_socket True False] @ unicast_if i else [New_socket False False, Set_only_v6 only_v6]) @
     [Set_nonblocking, Bind_addr addr]"

definition bind_udp :: "(LocalInterface \<Rightarrow> os_call list) \<Rightarrow> socket_addr \<Rightarrow> LocalInterface \<Rightarrow> os_call list" where
  "bind_udp unicast_if addr i = bind_udp_ops unicast_if addr True i"

section \<open>Choosing an interface\<close>

text \<open>The interfaces of the system: index, name and addresses; the addresses of an interface that are not of IPv4 are left out.\<close>

fun get_interface :: "(u32 \<times> string \<times> ipv4 list) list \<Rightarrow> ipv4 \<Rightarrow> LocalInterface res" where
  "get_interface [] dest_ip = Inl (Anyhow (''No network card with IP '' @ show_ipv4 dest_ip @ '' found''))"
| "get_interface ((index, name, addrs) # ifs) dest_ip =
     (if dest_ip \<in> set addrs then Inr \<lparr>li_index = index, li_name = Some name\<rparr> else get_interface ifs dest_ip)"

definition get_best_interface :: "(u32 \<times> string \<times> ipv4 list) list res \<Rightarrow> ipv4 \<Rightarrow> LocalInterface res" where
  "get_best_interface ifs dest_ip = (case bindE ifs (\<lambda>ifs. get_interface ifs dest_ip) of
     Inr i \<Rightarrow> Inr i | Inl e \<Rightarrow> Inr LocalInterface_default)"

section \<open>UPnP\<close>

datatype port_protocol = Map_udp | Map_tcp

type_synonym upnp = "(port_protocol \<times> u16) list"

definition add_tcp_port :: "upnp \<Rightarrow> u16 \<Rightarrow> upnp" where "add_tcp_port l port = l @ [(Map_tcp, port)]"
definition add_udp_port :: "upnp \<Rightarrow> u16 \<Rightarrow> upnp" where "add_udp_port l port = l @ [(Map_udp, port)]"

text \<open>The requests to the gateway, with the local address and the lease; one that fails is only logged.\<close>

definition upnp_reset :: "upnp \<Rightarrow> unit res \<Rightarrow> ipv4 \<Rightarrow> (port_protocol \<times> u16 \<times> ipv4 \<times> u16 \<times> u32) list" where
  "upnp_reset l gateway local_ip = (case gateway of
     Inl e \<Rightarrow> [] | Inr _ \<Rightarrow> map (\<lambda>(protocol, port). (protocol, port, local_ip, port, 700)) l)"

text \<open>The ports \<open>NatTest::new\<close> announces.\<close>

definition upnp_of_ports :: "u16 list \<Rightarrow> u16 \<Rightarrow> upnp" where
  "upnp_of_ports udp_ports tcp_port = add_tcp_port (foldl add_udp_port [] udp_ports) tcp_port"

section \<open>Facts\<close>

lemma os_calls_append:
  "os_calls S (as @ bs) = (case os_calls S as of
     (Inl e, l) \<Rightarrow> (Inl e, l) | (Inr _, l) \<Rightarrow> (case os_calls S bs of (r, l') \<Rightarrow> (r, l @ l')))"
  by (induction as) (auto split: sum.splits prod.splits)

lemma os_calls_ok: "fst (os_calls S cs) = Inr () \<longleftrightarrow> (\<forall>c\<in>set cs. S c = Inr ())"
  by (induction cs) (auto split: sum.splits prod.splits)

lemma os_calls_made: "os_calls S cs = (r, l) \<Longrightarrow> \<exists>rest. cs = l @ rest \<and> (r = Inr () \<longleftrightarrow> rest = []) \<and> (\<forall>c\<in>set l. S c = Inr ())"
proof (induction cs arbitrary: r l)
  case (Cons c cs)
  show ?case
  proof (cases "S c")
    case (Inl e)
    then show ?thesis using Cons(2) by auto
  next
    case (Inr u)
    obtain r' l' where o: "os_calls S cs = (r', l')" by fastforce
    with Cons(2) Inr have "r = r'" "l = c # l'" by simp_all
    then show ?thesis using Cons(1)[OF o] Inr by auto
  qed
qed simp

text \<open>
  A socket that is bound no longer blocks, is tied to the interface asked for if it is of IPv4, and takes no packets of IPv4 if
  it is of IPv6; and when a call fails, none that follows is made.
\<close>

theorem udp_socket_bound:
  assumes "os_calls S (bind_udp unicast_if addr i) = (r, l)" "Bind_addr addr \<in> set l" "\<And>a. Bind_addr a \<notin> set (unicast_if i)"
  shows "r = Inr () \<and> Set_nonblocking \<in> set l \<and> (if sa_is_ipv4 addr then set (unicast_if i) \<subseteq> set l else Set_only_v6 True \<in> set l)"
proof -
  from os_calls_made[OF assms(1)] obtain rest where rest: "bind_udp unicast_if addr i = l @ rest" "r = Inr () \<longleftrightarrow> rest = []" by blast
  have "rest = []"
  proof (rule ccontr)
    assume "rest \<noteq> []"
    then have "butlast (bind_udp unicast_if addr i) = l @ butlast rest" using rest(1) by (simp add: butlast_append)
    moreover have "Bind_addr addr \<notin> set (butlast (bind_udp unicast_if addr i))"
      using assms(3) by (auto simp: bind_udp_def bind_udp_ops_def butlast_append)
    ultimately show False using assms(2) by simp
  qed
  then show ?thesis using rest by (auto simp: bind_udp_def bind_udp_ops_def)
qed

text \<open>The interface found is the first that has the address; there is none exactly when no interface has it.\<close>

theorem interface_found:
  "get_interface ifs ip = (case filter (\<lambda>(index, name, addrs). ip \<in> set addrs) ifs of
     [] \<Rightarrow> Inl (Anyhow (''No network card with IP '' @ show_ipv4 ip @ '' found''))
   | (index, name, addrs) # _ \<Rightarrow> Inr \<lparr>li_index = index, li_name = Some name\<rparr>)"
  by (induction ifs ip rule: get_interface.induct) simp_all

text \<open>Every port listened on is announced, each with its own number outside, in order.\<close>

theorem upnp_announces:
  "upnp_reset (upnp_of_ports udp_ports tcp_port) (Inr ()) ip =
     map (\<lambda>p. (Map_udp, p, ip, p, 700)) udp_ports @ [(Map_tcp, tcp_port, ip, tcp_port, 700)]"
proof -
  have "foldl add_udp_port l udp_ports = l @ map (Pair Map_udp) udp_ports" for l
    by (induction udp_ports arbitrary: l) (simp_all add: add_udp_port_def)
  then show ?thesis by (simp add: upnp_reset_def upnp_of_ports_def add_tcp_port_def)
qed

end
