(* ===== verification/Spec2Isabelle.thy ===== *)
theory Spec2Isabelle
  imports Packet_Claims Cipher Control_Packet Route_Table Transport_Packet Icmp_Packet Igmp_Packet Link_Packet System
    Startup Stream_Channels Udp_Channel Options Vnt_Handle Commands Port_Mapping Device_Thread Tap_Device Cipher_Builds Vn_Link Console
    Unix_Device Windows_Device Sockets
begin

text \<open>
  A verification of VNT, a peer-to-peer virtual private network: the Rust core in \<^verbatim>\<open>src/rust/vnt-fork/vnt/src\<close>
  (written \<^verbatim>\<open>vnt/src\<close> below) and its packet crate in \<^verbatim>\<open>src/rust/vnt-fork/vnt/packet/src\<close> (\<^verbatim>\<open>packet/src\<close>). A device
  registers at a server, learns of its peers, and exchanges the IP packets of a virtual network device with
  them, directly where a hole can be punched through their NATs, else through the server or another
  peer.

  \<^bold>\<open>Conventions.\<close> Machine integers are words and wrap (the release profile has no overflow checks); an index out of
  range, a failed \<open>unwrap\<close> and the like are the error \<open>Panic\<close>, which ends the program (\<^verbatim>\<open>panic = abort\<close>). A fallible
  function returns \<open>err + 'a\<close> (\<open>res\<close>). A handler that changes shared state is a command
  (\<open>Effects\<close>): it returns a result or an error together with the state so far. Clocks, random numbers, the outcome of
  system calls and the functions of third-party crates are arguments; the theorems that need a documented law of such a
  crate (a decryption inverts the encryption, a hash has 32 bytes) name it as a hypothesis, and a concrete instance shows
  that it can hold. Definitions carry the names of the source, with the type as a prefix where several
  types have the method.

  \<^bold>\<open>Shared ground.\<close> \<open>Vnt_Prelude\<close>: errors, buffers, the interfaces \<open>wire_code\<close> (an enum and its byte) and \<open>rw_field\<close> (a
  getter and a setter). \<open>Effects\<close>: commands, the preservation rules \<open>keeps_intros\<close> and the pre- and
  postcondition rules \<open>triple_intros\<close>. \<open>Text_Parsing\<close>: what is used of the standard library to read numbers and addresses.

  \<^bold>\<open>Packets.\<close> \<open>Net_Packet\<close> and \<open>Packet_Claims\<close> (\<^verbatim>\<open>protocol/mod.rs\<close>): the VNT header as bytes, its view as a record of fields,
  and that every setter refines an update of that record. \<open>Control_Packet\<close> (the other files of \<^verbatim>\<open>protocol\<close>): protocol codes and
  bodies, the list of addresses in a broadcast. \<open>Secret_Body\<close> (\<^verbatim>\<open>protocol/body.rs\<close>): layouts of encrypted bodies.
  \<open>Checksum\<close>, \<open>Ip_Protocol\<close>, \<open>Ip_Packet\<close>, \<open>Transport_Packet\<close>, \<open>Icmp_Packet\<close>, \<open>Igmp_Packet\<close>, \<open>Link_Packet\<close>
  (\<^verbatim>\<open>packet/src\<close>): the views of IP packets; a view that was sealed verifies (locale \<open>sealed_view\<close> over \<open>ones_complement\<close>).

  \<^bold>\<open>Encryption and compression.\<close> \<open>Aead_Ciphers\<close>, \<open>Block_Ciphers\<close>, \<open>Cipher\<close> (\<^verbatim>\<open>cipher\<close>): the eight ciphers as
  interpretations of one contract, \<open>packet_cipher\<close> (decryption restores the packet and its header), the dispatch, and the
  derivation of keys. \<open>Compression\<close> (\<^verbatim>\<open>compression\<close>, \<^verbatim>\<open>protocol/extension.rs\<close>, \<^verbatim>\<open>handle/extension\<close>): two codecs behind
  \<open>packet_codec\<close>, and the extension tail.

  \<^bold>\<open>Transport.\<close> \<open>Channel\<close> (\<^verbatim>\<open>channel/mod.rs\<close>): kinds of channel, routes. \<open>Route_Table\<close> (\<^verbatim>\<open>channel/context.rs\<close>): the routes to
  every peer with the contract \<open>route_store\<close>. \<open>Channel_Context\<close> (the same file): sending by address and by peer, with
  loss, delay and meters; the log \<open>cx_sent\<close> of all sends is what the theorems speak of. \<open>Stream_Channels\<close> (\<^verbatim>\<open>tcp_channel.rs\<close>,
  \<^verbatim>\<open>ws_channel.rs\<close>, \<open>PacketSender\<close>): framing, connections as interleaved tasks. \<open>Udp_Channel\<close>
  (\<^verbatim>\<open>udp_channel.rs\<close>, \<^verbatim>\<open>channel/notify.rs\<close>): the loops over sockets. \<open>Nat_Info\<close> (\<^verbatim>\<open>nat\<close>, part of \<^verbatim>\<open>punch.rs\<close>): address
  classes, STUN. \<open>Punching\<close> (\<^verbatim>\<open>channel/punch.rs\<close>): hole punching. \<open>Traffic_Limits\<close> (\<^verbatim>\<open>util/limit\<close>): rate limiter and traffic meters.

  \<^bold>\<open>Handlers.\<close> \<open>Device_Info\<close> (\<^verbatim>\<open>handle/mod.rs\<close>), \<open>External_Route\<close> (\<^verbatim>\<open>external_route\<close>), \<open>Ip_Proxy\<close> (\<^verbatim>\<open>ip_proxy\<close>): what
  they work with. \<open>World\<close>: the record of everything the handlers share, which the source keeps in cloned locks, and the
  configuration. \<open>Client_Handler\<close>, \<open>Server_Handler\<close>, \<open>Recv_Handler\<close> (\<^verbatim>\<open>handle/recv_data\<close>, \<^verbatim>\<open>handshaker.rs\<close>,
  \<^verbatim>\<open>registrar.rs\<close>): packets from peers, packets from the server, dispatch and relaying. \<open>Tun_Handler\<close>
  (\<^verbatim>\<open>handle/tun_tap\<close>, \<^verbatim>\<open>channel/sender.rs\<close>): packets from the device and the application. \<open>Maintain\<close>
  (\<^verbatim>\<open>handle/maintain\<close>): one round of every timer. \<open>Sample_World\<close> holds a small state for concrete instances.

  \<^bold>\<open>Threads and start.\<close> \<open>Task_Scheduler\<close> (\<^verbatim>\<open>util/scheduler.rs\<close>) and \<open>Stop_Manager\<close> (\<^verbatim>\<open>util/notify.rs\<close>): step
  relations in which an access to an atomic, a critical section or a channel operation is a step, with their invariants by rule
  induction. \<open>Name_Lookup\<close> (\<^verbatim>\<open>util/dns_query.rs\<close>) and \<open>Settings\<close> (\<^verbatim>\<open>core/mod.rs\<close>, \<^verbatim>\<open>common/src/args_parse.rs\<close>): from text to
  a checked configuration. \<open>Startup\<close> (\<^verbatim>\<open>core/conn.rs\<close>): from the configuration to ciphers, sockets, threads, timers and
  the initial state.

  \<^bold>\<open>Around the core.\<close> \<open>Options\<close> (\<^verbatim>\<open>common/src/cli.rs\<close>, \<^verbatim>\<open>config\<close>, \<^verbatim>\<open>rust/src/api/vnt_api.rs\<close>): command line, file
  and application as three ways to a configuration. \<open>Vnt_Handle\<close> (\<open>VntInner\<close>, \<^verbatim>\<open>vnt_api.rs\<close>): what a running instance answers.
  \<open>Commands\<close> (\<^verbatim>\<open>common/src/command\<close>): the same for a second process, over datagrams. \<open>Port_Mapping\<close>
  (\<^verbatim>\<open>port_mapping\<close>) and \<open>Device_Thread\<close> (\<^verbatim>\<open>tun_tap_device\<close>, \<^verbatim>\<open>handle/tun_tap\<close>): step relations of the tasks of a mapped port and of
  the threads that read, replace and stop the device. \<open>Tap_Device\<close> (\<^verbatim>\<open>vnt/tun/src/packet\<close>): the device in TAP mode.
  \<open>Unix_Device\<close> (\<^verbatim>\<open>vnt/tun/src/unix\<close>, \<^verbatim>\<open>linux\<close>, \<^verbatim>\<open>macos\<close>, \<^verbatim>\<open>ios_stub\<close>, \<^verbatim>\<open>handle/tun_tap/unix.rs\<close>): packets over the two pipes of iOS, the
  loop that reads a device, names, addresses and routes; on iOS that loop never sees the signal to stop. \<open>Windows_Device\<close>
  (\<^verbatim>\<open>vnt/tun/src/windows\<close>): the session of wintun. \<open>Sockets\<close> (\<^verbatim>\<open>channel/socket\<close>, \<^verbatim>\<open>util/upnp.rs\<close>): making sockets, announcing ports.
  \<open>Console\<close> (\<^verbatim>\<open>common/src/console_out\<close>): tables and charts. \<open>Cipher_Builds\<close>: the ciphers of the builds without
  \<^verbatim>\<open>ring-cipher\<close>, equivalent to those with it. \<open>Vn_Link\<close> (\<^verbatim>\<open>vn-link/src\<close>): mapped ports around a third-party network stack
  in place of a device.

  \<^bold>\<open>The whole program.\<close> \<open>Frame\<close> states what a handler may change as two interfaces, \<open>send_frame\<close> and \<open>handler_frame\<close>, in which
  every handler and every timer is shown to keep any predicate that the elementary state changes keep. \<open>System\<close> composes
  all activities into one relation, \<open>reaches\<close>, in which clock, network and application are arbitrary
  at each step, and interprets \<open>handler_frame\<close> twice: for the invariant of the program and for the pinned key of the server
  (\<open>Vnt_Handle\<close> does so a third time, for the traffic meters). \<open>Startup\<close> links them to the configuration: every state reached from a successful start has the invariant.

  \<^bold>\<open>Bounds.\<close> Every definition is total. Loops without a structural argument have a measure: the retries of a query (three),
  of a bind (twelve) and of a redirect (three), the bytes left of a stream or of an options field, the folds of a checksum.
  No fuel is used. Relaying ends by its time to live (at most 15 relays); the queue of timers never fills, since
  the program has at most eight of its 32 places in use.

  \<^bold>\<open>Not modelled.\<close> Generated code (\<^verbatim>\<open>frb_generated.rs\<close>); the bindings of device drivers and what system calls do (their answers
  are parameters); opening a TAP device; what getopts and the YAML library
  find; copying bytes between two connected sockets (\<open>copy\<close> of \<^verbatim>\<open>tcp_mapping.rs\<close>, \<open>proxy\<close> of
  \<^verbatim>\<open>tcp_proxy.rs\<close>); the network stack of \<^verbatim>\<open>vn-link\<close>; AES-ECB over OpenSSL, whose calls are undocumented use of that
  library; logging. Handlers
  are atomic with respect to one another in \<open>System\<close>: the source takes its locks for one operation each, so the
  interleavings inside a handler are those of \<open>Stop_Manager\<close>, \<open>Task_Scheduler\<close> and \<open>Stream_Channels\<close> only.
\<close>

end
